(* ===== verification/Prelude.thy ===== *)
theory Prelude
  imports Main "HOL-Library.Word"
begin

text \<open>
  Shared vocabulary of the development: C strings and their bytes, flag words, the
  collections of simplification rules, and the generic lemmas on lists and strings that
  the component theories use.

  A C string is a list of non-NUL characters; \<open>at s i\<close> is the byte the C code reads at
  offset \<open>i\<close>, with the terminating NUL at \<open>length s\<close>.  Flag words (\<open>unsigned int\<close> and the
  \<open>int\<close> flags of links) are 32-bit words.
\<close>

unbundle bit_operations_syntax

named_theorems flag_simps \<open>evaluation of flag words\<close>
named_theorems cstr_simps \<open>reading bytes of C strings\<close>

type_synonym cstr = string
type_synonym flags = "32 word"

text \<open>Clients and channels are known by identity, the address of their structure.\<close>

type_synonym cid = nat
type_synonym chid = nat

section \<open>Bytes of a C string\<close>

abbreviation NUL :: char where "NUL \<equiv> CHR 0x00"

definition at :: "cstr \<Rightarrow> nat \<Rightarrow> char" where
  "at s i = (if i < length s then s ! i else NUL)"

definition code :: "char \<Rightarrow> nat" where
  "code c = of_char c"

definition cstring :: "cstr \<Rightarrow> bool" where
  "cstring s = (NUL \<notin> set s)"

lemma at_lt [cstr_simps]: "i < length s \<Longrightarrow> at s i = s ! i"
  by (simp add: at_def)

lemma at_ge [cstr_simps]: "length s \<le> i \<Longrightarrow> at s i = NUL"
  by (simp add: at_def)

lemma at_Nil [simp]: "at [] i = NUL"
  by (simp add: at_def)

lemma at_Cons_0 [simp]: "at (c # s) 0 = c"
  by (simp add: at_def)

lemma at_Cons_Suc [simp]: "at (c # s) (Suc i) = at s i"
  by (simp add: at_def)

lemma at_NUL_iff: "cstring s \<Longrightarrow> at s i = NUL \<longleftrightarrow> length s \<le> i"
  by (auto simp: at_def cstring_def dest: nth_mem)

lemma at_not_NUL_lt: "at s i \<noteq> NUL \<Longrightarrow> i < length s"
  by (auto simp: at_def split: if_splits)

lemma cstring_Nil [simp]: "cstring []"
  by (simp add: cstring_def)

lemma cstring_Cons [simp]: "cstring (c # s) \<longleftrightarrow> c \<noteq> NUL \<and> cstring s"
  by (auto simp: cstring_def)

lemma cstring_append [simp]: "cstring (s @ t) \<longleftrightarrow> cstring s \<and> cstring t"
  by (auto simp: cstring_def)

lemma drop_at: "i < length s \<Longrightarrow> drop i s = at s i # drop (Suc i) s"
  by (simp add: at_def Cons_nth_drop_Suc)

lemma code_less [simp]: "code c < 256"
  by (simp add: code_def)

lemma code_inj: "code c = code d \<longleftrightarrow> c = d"
  by (simp add: code_def)

lemma char_of_code [simp]: "char_of (code c) = c"
  by (simp add: code_def)

section \<open>Flag words\<close>

definition has_flag :: "flags \<Rightarrow> flags \<Rightarrow> bool" where
  "has_flag w f = (w AND f \<noteq> 0)"

lemma has_flag_0 [simp]: "\<not> has_flag 0 f"
  by (simp add: has_flag_def)

lemma bit_flags_less: "bit (w :: flags) n \<Longrightarrow> n < 32"
  using bit_imp_le_length [of w n] by simp

lemma has_flag_iff_bit: "has_flag w f \<longleftrightarrow> (\<exists>n. bit w n \<and> bit f n)"
  by (auto simp: has_flag_def bit_eq_iff bit_and_iff dest: bit_flags_less)

lemma has_flag_or [flag_simps]: "has_flag (a OR b) f \<longleftrightarrow> has_flag a f \<or> has_flag b f"
  by (auto simp: has_flag_iff_bit bit_or_iff)

lemma has_flag_andnot:
  "f AND g = 0 \<Longrightarrow> has_flag (a AND NOT g) f = has_flag a f"
  by (auto simp: has_flag_iff_bit bit_and_iff bit_not_iff bit_eq_iff dest: bit_flags_less)

lemma has_flag_clear: "\<not> has_flag (a AND NOT f) f"
  by (auto simp: has_flag_iff_bit bit_and_iff bit_not_iff)

section \<open>Lists\<close>

lemma ex_le_Suc: "(\<exists>k\<le>Suc n. P k) \<longleftrightarrow> P 0 \<or> (\<exists>k\<le>n. P (Suc k))"
  by (metis Suc_le_mono le0 not0_implies_Suc)

text \<open>The C idiom \<open>for (p = &head; *p; p = &(*p)->next) if (...) { unlink; break; }\<close>.\<close>

fun unlink_first :: "('a \<Rightarrow> bool) \<Rightarrow> 'a list \<Rightarrow> 'a list" where
  "unlink_first P [] = []"
| "unlink_first P (x # xs) = (if P x then xs else x # unlink_first P xs)"

lemma unlink_first_none [simp]: "(\<And>x. x \<in> set xs \<Longrightarrow> \<not> P x) \<Longrightarrow> unlink_first P xs = xs"
  by (induction xs) auto

lemma set_unlink_first_subset: "set (unlink_first P xs) \<subseteq> set xs"
  by (induction xs) auto

lemma length_unlink_first:
  "length (unlink_first P xs) = (if \<exists>x \<in> set xs. P x then length xs - 1 else length xs)"
  by (induction xs) (auto dest: length_pos_if_in_set)

lemma distinct_unlink_first: "distinct xs \<Longrightarrow> distinct (unlink_first P xs)"
  by (induction xs) (auto dest: subsetD [OF set_unlink_first_subset])

lemma set_unlink_first_distinct:
  "distinct xs \<Longrightarrow> set (unlink_first (\<lambda>y. y = x) xs) = set xs - {x}"
  by (induction xs) auto

lemma unlink_first_remove1: "unlink_first (\<lambda>y. y = x) xs = remove1 x xs"
  by (induction xs) auto

lemma distinct_map_unlink_first:
  "distinct (map f xs) \<Longrightarrow> distinct (map f (unlink_first P xs))"
proof (induction xs)
  case (Cons a xs)
  then show ?case by (auto dest: subsetD [OF set_unlink_first_subset])
qed simp

lemma set_map_unlink_first:
  "distinct (map f xs) \<Longrightarrow> f ` set (unlink_first (\<lambda>y. f y = x) xs) = f ` set xs - {x}"
  by (induction xs) (auto simp: image_iff)

end
