(* ===== verification/CharTab.thy ===== *)
theory CharTab
  imports Prelude
begin

text \<open>
  The character tables at the end of \<open>src/match.c\<close> and the macros of
  \<open>include/irc_string.h\<close> that read them: case folding, character classes, and the case
  insensitive comparisons \<open>irccmp\<close> and \<open>ircncmp\<close>.  The configuration is that of
  \<open>include/config.h\<close>: \<open>RFC1035_ANAL\<close> defined, \<open>ALLOW_DOT_IN_IDENT\<close> not.
\<close>

section \<open>Case folding\<close>

text \<open>\<open>ToLowerTab\<close>: the bytes 0x41 to 0x5e (letters and \<open>[ \ ] ^\<close>) are folded to 0x61 to 0x7e.\<close>

definition ToLowerTab :: "nat list" where
  "ToLowerTab = [0..<0x41] @ [0x61..<0x7f] @ [0x5f..<0x100]"

definition ToUpperTab :: "nat list" where
  "ToUpperTab = [0..<0x61] @ [0x41..<0x5f] @ [0x7f..<0x100]"

definition ToLower :: "char \<Rightarrow> char" where
  "ToLower c = char_of (ToLowerTab ! code c)"

definition ToUpper :: "char \<Rightarrow> char" where
  "ToUpper c = char_of (ToUpperTab ! code c)"

lemma ToLowerTab_nth: "n < 256 \<Longrightarrow> ToLowerTab ! n = (if 0x41 \<le> n \<and> n < 0x5f then n + 32 else n)"
  by (auto simp: ToLowerTab_def nth_append simp del: upt_rec_numeral)

lemma ToUpperTab_nth: "n < 256 \<Longrightarrow> ToUpperTab ! n = (if 0x61 \<le> n \<and> n < 0x7f then n - 32 else n)"
  by (auto simp: ToUpperTab_def nth_append simp del: upt_rec_numeral)

lemma code_char_of: "n < 256 \<Longrightarrow> code (char_of n) = n"
  by (simp add: code_def)

lemma code_ToLower: "code (ToLower c) = (if 0x41 \<le> code c \<and> code c < 0x5f then code c + 32 else code c)"
  using code_less [of c] by (auto simp: ToLower_def ToLowerTab_nth code_char_of)

lemma code_ToUpper: "code (ToUpper c) = (if 0x61 \<le> code c \<and> code c < 0x7f then code c - 32 else code c)"
  using code_less [of c] by (auto simp: ToUpper_def ToUpperTab_nth code_char_of)

lemma ToLower_code [code]:
  "ToLower c = (let n = code c in if 0x41 \<le> n \<and> n < 0x5f then char_of (n + 32) else c)"
  by (rule code_inj [THEN iffD1]) (simp add: code_ToLower Let_def code_char_of)

lemma ToUpper_code [code]:
  "ToUpper c = (let n = code c in if 0x61 \<le> n \<and> n < 0x7f then char_of (n - 32) else c)"
proof -
  have "code c - 32 < 256" using code_less [of c] by linarith
  then show ?thesis
    by (intro code_inj [THEN iffD1]) (simp add: code_ToUpper Let_def code_char_of)
qed

lemma ToLower_eq_iff_ToUpper_eq: "ToLower c = ToLower d \<longleftrightarrow> ToUpper c = ToUpper d"
  using code_less [of c] code_less [of d]
  by (simp add: code_inj [symmetric] code_ToLower code_ToUpper) linarith

lemma ToLower_ToLower [simp]: "ToLower (ToLower c) = ToLower c"
  using code_less [of c] by (simp add: code_inj [symmetric] code_ToLower)

lemma code_eq_char: "c = d \<longleftrightarrow> code c = code d"
  by (simp add: code_inj)

lemma code_NUL [simp]: "code NUL = 0"
  by (simp add: code_def)

lemma NUL_iff_code: "c = NUL \<longleftrightarrow> code c = 0"
  using code_inj [of c NUL] by simp

lemma ToUpper_NUL_iff [simp]: "ToUpper c = NUL \<longleftrightarrow> c = NUL"
  by (auto simp: NUL_iff_code code_ToUpper)

lemma ToLower_NUL_iff [simp]: "ToLower c = NUL \<longleftrightarrow> c = NUL"
  by (auto simp: NUL_iff_code code_ToLower)

lemma ToLower_NUL [simp]: "ToLower NUL = NUL" "NUL = ToLower c \<longleftrightarrow> c = NUL"
  by (metis ToLower_NUL_iff)+

section \<open>Character classes\<close>

definition PRINT_C :: flags where "PRINT_C = 0x001"
definition CNTRL_C :: flags where "CNTRL_C = 0x002"
definition ALPHA_C :: flags where "ALPHA_C = 0x004"
definition DIGIT_C :: flags where "DIGIT_C = 0x010"
definition SPACE_C :: flags where "SPACE_C = 0x020"
definition NICK_C :: flags where "NICK_C = 0x040"
definition CHAN_C :: flags where "CHAN_C = 0x080"
definition KWILD_C :: flags where "KWILD_C = 0x100"
definition CHANPFX_C :: flags where "CHANPFX_C = 0x200"
definition USER_C :: flags where "USER_C = 0x400"
definition HOST_C :: flags where "HOST_C = 0x800"
definition NONEOS_C :: flags where "NONEOS_C = 0x1000"
definition SERV_C :: flags where "SERV_C = 0x2000"
definition EOL_C :: flags where "EOL_C = 0x4000"

lemmas class_defs = PRINT_C_def CNTRL_C_def ALPHA_C_def DIGIT_C_def SPACE_C_def NICK_C_def
  CHAN_C_def KWILD_C_def CHANPFX_C_def USER_C_def HOST_C_def NONEOS_C_def SERV_C_def EOL_C_def

text \<open>
  \<open>CharAttrs\<close>, entry by entry in the order of the source; runs of equal entries are
  written with \<open>replicate\<close>.  The first list covers the control characters and the
  punctuation before the digits, the second the printable rest, the third DEL and the
  bytes above it.
\<close>

definition CharAttrs_lo :: "flags list" where
  "CharAttrs_lo =
     [CNTRL_C] @ replicate 6 (CNTRL_C OR CHAN_C OR NONEOS_C) @
     [CNTRL_C OR NONEOS_C, CNTRL_C OR CHAN_C OR NONEOS_C,
      CNTRL_C OR SPACE_C OR CHAN_C OR NONEOS_C,
      CNTRL_C OR SPACE_C OR CHAN_C OR NONEOS_C OR EOL_C,
      CNTRL_C OR SPACE_C OR CHAN_C OR NONEOS_C,
      CNTRL_C OR SPACE_C OR CHAN_C OR NONEOS_C,
      CNTRL_C OR SPACE_C OR CHAN_C OR NONEOS_C OR EOL_C] @
     replicate 18 (CNTRL_C OR CHAN_C OR NONEOS_C) @
     [PRINT_C OR SPACE_C,
      PRINT_C OR KWILD_C OR CHAN_C OR NONEOS_C,
      PRINT_C OR CHAN_C OR NONEOS_C,
      PRINT_C OR CHANPFX_C OR CHAN_C OR NONEOS_C,
      PRINT_C OR CHAN_C OR NONEOS_C OR USER_C,
      PRINT_C OR CHAN_C OR NONEOS_C,
      PRINT_C OR CHANPFX_C OR CHAN_C OR NONEOS_C,
      PRINT_C OR CHAN_C OR NONEOS_C,
      PRINT_C OR CHAN_C OR NONEOS_C,
      PRINT_C OR CHAN_C OR NONEOS_C,
      PRINT_C OR KWILD_C OR CHAN_C OR NONEOS_C OR SERV_C,
      PRINT_C OR CHAN_C OR NONEOS_C,
      PRINT_C OR NONEOS_C,
      PRINT_C OR NICK_C OR CHAN_C OR NONEOS_C OR USER_C OR HOST_C,
      PRINT_C OR KWILD_C OR CHAN_C OR NONEOS_C OR HOST_C OR SERV_C,
      PRINT_C OR CHAN_C OR NONEOS_C]"

definition CharAttrs_hi :: "flags list" where
  "CharAttrs_hi =
     replicate 10 (PRINT_C OR DIGIT_C OR NICK_C OR CHAN_C OR NONEOS_C OR USER_C OR HOST_C) @
     replicate 5 (PRINT_C OR CHAN_C OR NONEOS_C) @
     replicate 2 (PRINT_C OR KWILD_C OR CHAN_C OR NONEOS_C) @
     replicate 26 (PRINT_C OR ALPHA_C OR NICK_C OR CHAN_C OR NONEOS_C OR USER_C OR HOST_C) @
     replicate 4 (PRINT_C OR ALPHA_C OR NICK_C OR CHAN_C OR NONEOS_C OR USER_C) @
     replicate 2 (PRINT_C OR NICK_C OR CHAN_C OR NONEOS_C OR USER_C) @
     replicate 26 (PRINT_C OR ALPHA_C OR NICK_C OR CHAN_C OR NONEOS_C OR USER_C OR HOST_C) @
     replicate 3 (PRINT_C OR ALPHA_C OR NICK_C OR CHAN_C OR NONEOS_C OR USER_C) @
     [PRINT_C OR ALPHA_C OR CHAN_C OR NONEOS_C OR USER_C]"

definition CharAttrs_top :: "flags list" where
  "CharAttrs_top = replicate 129 (CHAN_C OR NONEOS_C)"

definition CharAttrs :: "char \<Rightarrow> flags" where
  "CharAttrs c = (CharAttrs_lo @ CharAttrs_hi @ CharAttrs_top) ! code c"

definition IsSpace :: "char \<Rightarrow> bool" where "IsSpace c = has_flag (CharAttrs c) SPACE_C"
definition IsChanChar :: "char \<Rightarrow> bool" where "IsChanChar c = has_flag (CharAttrs c) CHAN_C"
definition IsChanPrefix :: "char \<Rightarrow> bool" where "IsChanPrefix c = has_flag (CharAttrs c) CHANPFX_C"
definition IsNickChar :: "char \<Rightarrow> bool" where "IsNickChar c = has_flag (CharAttrs c) NICK_C"
definition IsHostChar :: "char \<Rightarrow> bool" where "IsHostChar c = has_flag (CharAttrs c) HOST_C"
definition IsUserChar :: "char \<Rightarrow> bool" where "IsUserChar c = has_flag (CharAttrs c) USER_C"
definition IsKWildChar :: "char \<Rightarrow> bool" where "IsKWildChar c = has_flag (CharAttrs c) KWILD_C"
definition IsServChar :: "char \<Rightarrow> bool" where "IsServChar c = has_flag (CharAttrs c) (NICK_C OR SERV_C)"
definition IsCntrl :: "char \<Rightarrow> bool" where "IsCntrl c = has_flag (CharAttrs c) CNTRL_C"
definition IsAlpha :: "char \<Rightarrow> bool" where "IsAlpha c = has_flag (CharAttrs c) ALPHA_C"
definition IsAlNum :: "char \<Rightarrow> bool" where "IsAlNum c = has_flag (CharAttrs c) (DIGIT_C OR ALPHA_C)"
definition IsPrint :: "char \<Rightarrow> bool" where "IsPrint c = has_flag (CharAttrs c) PRINT_C"
definition IsNonEOS :: "char \<Rightarrow> bool" where "IsNonEOS c = has_flag (CharAttrs c) NONEOS_C"
definition IsEol :: "char \<Rightarrow> bool" where "IsEol c = has_flag (CharAttrs c) EOL_C"
definition IsDigit :: "char \<Rightarrow> bool" where "IsDigit c = has_flag (CharAttrs c) DIGIT_C"

text \<open>The table read as sets of characters: each class is decided for all 256 bytes.\<close>

lemma length_CharAttrs [simp]: "length (CharAttrs_lo @ CharAttrs_hi @ CharAttrs_top) = 256"
  by (simp add: CharAttrs_lo_def CharAttrs_hi_def CharAttrs_top_def)

lemma replicate_numeral: "replicate (numeral k) x = x # replicate (pred_numeral k) x"
  by (simp add: numeral_eq_Suc)

lemma upt_256: "[0..<256] = 0 # 1 # [2..<256]"
  by (simp add: upt_rec [of 0] upt_rec [of "Suc 0"] numeral_2_eq_2 del: upt_rec_numeral)

lemma class_by_table:
  assumes "map (\<lambda>a. has_flag a f) (CharAttrs_lo @ CharAttrs_hi @ CharAttrs_top) = map P [0..<256]"
  shows "has_flag (CharAttrs c) f \<longleftrightarrow> P (code c)"
proof -
  have "code c < length (CharAttrs_lo @ CharAttrs_hi @ CharAttrs_top)"
    by (simp only: length_CharAttrs code_less)
  then have "has_flag (CharAttrs c) f = map (\<lambda>a. has_flag a f) (CharAttrs_lo @ CharAttrs_hi @ CharAttrs_top) ! code c"
    by (simp only: CharAttrs_def nth_map)
  also have "\<dots> = P (code c)"
    using code_less [of c] unfolding assms by (simp del: upt_rec_numeral)
  finally show ?thesis .
qed

lemmas table_defs = CharAttrs_lo_def CharAttrs_hi_def CharAttrs_top_def class_defs has_flag_def replicate_numeral upt_256

lemma IsSpace_iff [code]: "IsSpace c \<longleftrightarrow> code c \<in> {9, 10, 11, 12, 13, 32}"
  unfolding IsSpace_def by (rule class_by_table) (simp add: table_defs)

lemma IsChanChar_iff [code]: "IsChanChar c \<longleftrightarrow> code c \<notin> {0, 7, 32, 44}"
  unfolding IsChanChar_def by (rule class_by_table) (simp add: table_defs)

lemma IsChanPrefix_iff [code]: "IsChanPrefix c \<longleftrightarrow> code c \<in> {35, 38}"
  unfolding IsChanPrefix_def by (rule class_by_table) (simp add: table_defs)

lemma IsEol_iff [code]: "IsEol c \<longleftrightarrow> code c \<in> {10, 13}"
  unfolding IsEol_def by (rule class_by_table) (simp add: table_defs)

lemma IsDigit_iff [code]: "IsDigit c \<longleftrightarrow> code c \<in> {48..57}"
  unfolding IsDigit_def by (rule class_by_table) (simp add: table_defs)

section \<open>Case insensitive comparison\<close>

text \<open>
  The C functions return a negative, zero or positive \<open>int\<close>; both strings are walked in
  step until they differ or both end.
\<close>

fun irccmp :: "cstr \<Rightarrow> cstr \<Rightarrow> int" where
  "irccmp [] [] = 0"
| "irccmp (c # s) [] = int (code (ToUpper c)) - int (code (ToUpper NUL))"
| "irccmp [] (d # t) = int (code (ToUpper NUL)) - int (code (ToUpper d))"
| "irccmp (c # s) (d # t) =
     (let res = int (code (ToUpper c)) - int (code (ToUpper d)) in
      if res = 0 then irccmp s t else res)"

text \<open>
  \<open>ircncmp\<close> compares before it looks at \<open>n\<close> and stops when \<open>n\<close> reaches 0 after a step or
  both strings end.  \<open>n\<close> is a C \<open>int\<close>: a negative \<open>n\<close> never reaches 0 before a string ends.
  Only the second test stops at the end of the strings, so two empty strings are read
  past their terminators; that read is \<open>None\<close>.
\<close>

fun ircncmp :: "cstr \<Rightarrow> cstr \<Rightarrow> int \<Rightarrow> int option" where
  "ircncmp [] [] n = (if n = 1 then Some 0 else None)"
| "ircncmp (c # s) [] n = Some (int (code (ToUpper c)) - int (code (ToUpper NUL)))"
| "ircncmp [] (d # t) n = Some (int (code (ToUpper NUL)) - int (code (ToUpper d)))"
| "ircncmp (c # s) (d # t) n =
     (let res = int (code (ToUpper c)) - int (code (ToUpper d)) in
      if res \<noteq> 0 then Some res
      else if n - 1 = 0 \<or> (s = [] \<and> t = []) then Some 0
      else ircncmp s t (n - 1))"

text \<open>Case folded equality, the relation \<open>irccmp\<close> decides.\<close>

definition same_name :: "cstr \<Rightarrow> cstr \<Rightarrow> bool" where
  "same_name s t = (map ToLower s = map ToLower t)"

lemma same_name_refl [simp]: "same_name s s"
  by (simp add: same_name_def)

lemma same_name_sym: "same_name s t \<Longrightarrow> same_name t s"
  by (simp add: same_name_def)

lemma same_name_trans: "same_name s t \<Longrightarrow> same_name t u \<Longrightarrow> same_name s u"
  by (simp add: same_name_def)

lemma code_ToUpper_NUL [simp]: "code (ToUpper NUL) = 0"
  by (simp add: code_ToUpper)

lemma code_ToUpper_0 [simp]: "code (ToUpper c) = 0 \<longleftrightarrow> c = NUL"
  by (metis ToUpper_NUL_iff code_ToUpper_NUL code_inj)

lemma irccmp_0_iff: "cstring s \<Longrightarrow> cstring t \<Longrightarrow> irccmp s t = 0 \<longleftrightarrow> same_name s t"
proof (induction s t rule: irccmp.induct)
  case (4 c s d t)
  then show ?case
    by (auto simp: same_name_def Let_def code_inj ToLower_eq_iff_ToUpper_eq)
qed (auto simp: same_name_def)

lemma irccmp_sym: "irccmp s t = - irccmp t s"
  by (induction s t rule: irccmp.induct) (auto simp: Let_def)

end
