(* ===== verification/Match.thy ===== *)
theory Match
  imports CharTab
begin

text \<open>
  Wildcard matching: \<open>match\<close> and \<open>collapse\<close> of \<open>src/match.c\<close>.  The C pointers into the
  mask and the name are offsets; the loop is bounded by \<open>MATCH_MAX_CALLS\<close> as in the code.
  The specification \<open>glob\<close> is the usual recursive definition of \<open>*\<close> and \<open>?\<close> masks.
\<close>

section \<open>The code\<close>

definition MATCH_MAX_CALLS :: nat where "MATCH_MAX_CALLS = 512"

text \<open>\<open>while (*m == '*') m++;\<close>\<close>

function skip_stars :: "cstr \<Rightarrow> nat \<Rightarrow> nat" where
  "skip_stars msk m = (if at msk m = CHR ''*'' then skip_stars msk (Suc m) else m)"
  by pat_completeness auto
termination
  by (relation "measure (\<lambda>(msk, m). length msk - m)") (auto simp: at_def split: if_splits)

declare skip_stars.simps [simp del]

text \<open>
  \<open>for (m--; (m > mask) && (*m == '?'); m--) ;\<close> with \<open>m\<close> the offset before the decrement.
  Offset 0 is \<open>m == mask\<close>; with an empty mask the C pointer goes one before the mask and
  the test \<open>m > mask\<close> fails as it does here.
\<close>

fun back_over_quests :: "cstr \<Rightarrow> nat \<Rightarrow> nat" where
  "back_over_quests msk 0 = 0"
| "back_over_quests msk (Suc m) =
     (if 0 < m \<and> at msk m = CHR ''?'' then back_over_quests msk m else m)"

text \<open>The local variables of \<open>match\<close>.\<close>

record mstate =
  mm :: nat
  nn :: nat
  ma :: nat
  na :: nat
  wild :: bool

text \<open>The comparison at the end of the loop body; \<open>Inl\<close> is a \<open>return\<close>.\<close>

definition match_compare :: "cstr \<Rightarrow> cstr \<Rightarrow> mstate \<Rightarrow> bool + mstate" where
  "match_compare msk name st =
     (if ToLower (at msk (mm st)) \<noteq> ToLower (at name (nn st)) \<and> at msk (mm st) \<noteq> CHR ''?'' then
        if \<not> wild st then Inl False
        else Inr (st\<lparr>mm := ma st, na := Suc (na st), nn := Suc (na st)\<rparr>)
      else
        Inr (st\<lparr>mm := (if at msk (mm st) \<noteq> NUL then Suc (mm st) else mm st),
               nn := (if at name (nn st) \<noteq> NUL then Suc (nn st) else nn st)\<rparr>))"

text \<open>One round of the \<open>while\<close> loop.\<close>

definition match_star :: "cstr \<Rightarrow> mstate \<Rightarrow> mstate" where
  "match_star msk st =
     (if at msk (mm st) = CHR ''*''
      then let m = skip_stars msk (mm st)
           in st\<lparr>mm := m, wild := True, ma := m, na := nn st\<rparr>
      else st)"

definition match_step :: "cstr \<Rightarrow> cstr \<Rightarrow> mstate \<Rightarrow> bool + mstate" where
  "match_step msk name st0 =
     (let st = match_star msk st0 in
      if at msk (mm st) = NUL then
        if at name (nn st) = NUL then Inl True
        else let m = back_over_quests msk (mm st) in
          if 0 < m \<and> at msk m = CHR ''*'' then Inl True
          else if \<not> wild st then Inl False
          else match_compare msk name
                 (st\<lparr>mm := ma st, na := Suc (na st), nn := Suc (na st)\<rparr>)
      else if at name (nn st) = NUL then
        Inl (at msk (skip_stars msk (mm st)) = NUL)
      else match_compare msk name st)"

fun match_loop :: "nat \<Rightarrow> cstr \<Rightarrow> cstr \<Rightarrow> mstate \<Rightarrow> bool" where
  "match_loop 0 msk name st = False"
| "match_loop (Suc calls) msk name st =
     (case match_step msk name st of
        Inl r \<Rightarrow> r
      | Inr st' \<Rightarrow> match_loop calls msk name st')"

definition match_init :: mstate where
  "match_init = \<lparr>mm = 0, nn = 0, ma = 0, na = 0, wild = False\<rparr>"

definition match_irc :: "cstr \<Rightarrow> cstr \<Rightarrow> bool" where
  "match_irc msk name = match_loop MATCH_MAX_CALLS msk name match_init"

text \<open>\<open>collapse\<close>: after each \<open>*\<close> the run of further stars is closed up in place.\<close>

function collapse :: "cstr \<Rightarrow> cstr" where
  "collapse [] = []"
| "collapse (c # s) =
     (if c = CHR ''*'' then c # collapse (dropWhile (\<lambda>d. d = CHR ''*'') s)
      else c # collapse s)"
  by pat_completeness auto
termination
  by (relation "measure length") (auto simp: le_imp_less_Suc length_dropWhile_le)

section \<open>The specification\<close>

fun glob :: "cstr \<Rightarrow> cstr \<Rightarrow> bool" where
  "glob [] s = (s = [])"
| "glob (p # ps) [] = (p = CHR ''*'' \<and> glob ps [])"
| "glob (p # ps) (c # cs) =
     (if p = CHR ''*'' then glob ps (c # cs) \<or> glob (p # ps) cs
      else (p = CHR ''?'' \<or> ToLower p = ToLower c) \<and> glob ps cs)"

definition plain :: "cstr \<Rightarrow> bool" where
  "plain p = (CHR ''*'' \<notin> set p)"

fun seg :: "cstr \<Rightarrow> cstr \<Rightarrow> bool" where
  "seg [] [] = True"
| "seg (p # ps) (c # cs) = ((p = CHR ''?'' \<or> ToLower p = ToLower c) \<and> seg ps cs)"
| "seg _ _ = False"

lemma plain_Nil [simp]: "plain []"
  by (simp add: plain_def)

lemma plain_Cons [simp]: "plain (c # p) \<longleftrightarrow> c \<noteq> CHR ''*'' \<and> plain p"
  by (auto simp: plain_def)

lemma plain_append [simp]: "plain (p @ q) \<longleftrightarrow> plain p \<and> plain q"
  by (auto simp: plain_def)

lemma glob_star: "glob (CHR ''*'' # ps) s \<longleftrightarrow> (\<exists>k\<le>length s. glob ps (drop k s))"
  by (induction s) (simp_all add: ex_le_Suc)

lemma glob_star_star: "glob (CHR ''*'' # CHR ''*'' # ps) s = glob (CHR ''*'' # ps) s"
  by (induction s) auto

lemma glob_star_cong:
  "(\<forall>s. glob p s = glob q s) \<Longrightarrow> glob (CHR ''*'' # p) s = glob (CHR ''*'' # q) s"
  by (simp add: glob_star)

lemma seg_append1:
  "length p = length u \<Longrightarrow> seg (p @ [a]) (u @ [c]) \<longleftrightarrow> seg p u \<and> (a = CHR ''?'' \<or> ToLower a = ToLower c)"
  by (induction p u rule: list_induct2) auto

lemma glob_append_plain:
  "plain p \<Longrightarrow> glob (p @ r) s \<longleftrightarrow>
     length p \<le> length s \<and> seg p (take (length p) s) \<and> glob r (drop (length p) s)"
proof (induction p arbitrary: s)
  case (Cons a p)
  then show ?case by (cases s) auto
qed simp

lemma seg_length: "seg p u \<Longrightarrow> length p = length u"
  by (induction p u rule: seg.induct) auto

section \<open>The loop invariant\<close>

text \<open>
  The mask segment from \<open>ma\<close> to \<open>mm\<close> holds no star and matches the name from \<open>na\<close> to
  \<open>nn\<close>; after a star, the mask matches the name iff what follows the star matches it
  from some offset not before \<open>na\<close>.
\<close>

definition later :: "cstr \<Rightarrow> cstr \<Rightarrow> nat \<Rightarrow> nat \<Rightarrow> bool" where
  "later M S a n = (\<exists>k\<le>length S. n \<le> k \<and> glob (drop a M) (drop k S))"

definition segm :: "cstr \<Rightarrow> mstate \<Rightarrow> cstr" where
  "segm M st = take (mm st - ma st) (drop (ma st) M)"

definition minv :: "cstr \<Rightarrow> cstr \<Rightarrow> mstate \<Rightarrow> bool" where
  "minv M S st \<longleftrightarrow>
     ma st \<le> mm st \<and> mm st \<le> length M \<and> nn st = na st + (mm st - ma st) \<and> nn st \<le> length S \<and>
     plain (segm M st) \<and> seg (segm M st) (take (mm st - ma st) (drop (na st) S)) \<and>
     (if wild st
      then 0 < ma st \<and> M ! (ma st - 1) = CHR ''*'' \<and> at M (ma st) \<noteq> CHR ''*'' \<and>
           glob M S = later M S (ma st) (na st)
      else ma st = 0 \<and> na st = 0)"

lemma later_Suc:
  "n < length S \<Longrightarrow> later M S a n \<longleftrightarrow> glob (drop a M) (drop n S) \<or> later M S a (Suc n)"
proof -
  assume n: "n < length S"
  have "n \<le> k \<longleftrightarrow> k = n \<or> Suc n \<le> k" for k by auto
  then show ?thesis using n unfolding later_def by (simp only:) (blast intro: less_imp_le)
qed

lemma segm_split: "ma st \<le> mm st \<Longrightarrow> drop (ma st) M = segm M st @ drop (mm st) M"
  unfolding segm_def by (metis append_take_drop_id drop_drop le_add_diff_inverse2)

lemma minv_bounds:
  assumes "minv M S st"
  shows "ma st \<le> mm st" "mm st \<le> length M" "nn st = na st + (mm st - ma st)"
    "nn st \<le> length S" "na st \<le> nn st"
  using assms by (auto simp: minv_def)

lemma minv_init: "minv M S match_init"
  by (simp add: minv_def match_init_def segm_def)

lemma glob_here:
  assumes "minv M S st"
  shows "glob (drop (ma st) M) (drop (na st) S) = glob (drop (mm st) M) (drop (nn st) S)"
proof -
  have len: "length (segm M st) = mm st - ma st"
    using assms by (auto simp: minv_def segm_def)
  have le: "mm st - ma st \<le> length (drop (na st) S)"
    using assms by (auto simp: minv_def)
  have "drop (mm st - ma st) (drop (na st) S) = drop (nn st) S"
    using assms by (auto simp: minv_def add.commute)
  then show ?thesis
    using assms len le by (simp add: segm_split [of st M] glob_append_plain minv_def)
qed

text \<open>What the mask means in a state that satisfies the invariant.\<close>

lemma glob_by_state:
  assumes "minv M S st"
  shows "glob M S \<longleftrightarrow>
    (if wild st then glob (drop (mm st) M) (drop (nn st) S) \<or> (na st < length S \<and> later M S (ma st) (Suc (na st)))
     else glob (drop (mm st) M) (drop (nn st) S))"
proof (cases "wild st")
  case True
  show ?thesis
  proof (cases "na st < length S")
    case lt: True
    then show ?thesis using True assms glob_here [OF assms] by (simp add: minv_def later_Suc)
  next
    case False
    then have "na st = length S" using assms by (auto simp: minv_def)
    then show ?thesis using True assms glob_here [OF assms] by (auto simp: minv_def later_def)
  qed
next
  case False
  then show ?thesis using assms glob_here [OF assms] by (simp add: minv_def)
qed

definition mmeasure :: "cstr \<Rightarrow> cstr \<Rightarrow> mstate \<Rightarrow> nat" where
  "mmeasure M S st = (length S + 1 - na st) * (length M + 2) - (mm st - ma st)"

lemma mmeasure_next:
  assumes "na st < length S + 1" "mm st \<le> length M"
    "ma st' = mm st'" "na st < na st'"
  shows "mmeasure M S st' < mmeasure M S st"
proof -
  have "(length S + 1 - na st') + 1 \<le> length S + 1 - na st"
    using assms by simp
  then have "((length S + 1 - na st') + 1) * (length M + 2) \<le> (length S + 1 - na st) * (length M + 2)"
    by (rule mult_right_mono) simp
  then have "(length S + 1 - na st') * (length M + 2) + (length M + 2)
      \<le> (length S + 1 - na st) * (length M + 2)"
    by (simp only: distrib_right mult_1)
  moreover have "mm st - ma st \<le> length M" using assms by simp
  ultimately show ?thesis
    unfolding mmeasure_def using assms(3) by linarith
qed

section \<open>One round\<close>

lemma skip_stars_spec:
  assumes "cstring M" "m \<le> length M"
  shows "m \<le> skip_stars M m \<and> skip_stars M m \<le> length M \<and> at M (skip_stars M m) \<noteq> CHR ''*'' \<and>
    (m < skip_stars M m \<longrightarrow> M ! (skip_stars M m - 1) = CHR ''*'' \<and>
       (\<forall>s. glob (drop m M) s = glob (CHR ''*'' # drop (skip_stars M m) M) s))"
  using assms
proof (induction M m rule: skip_stars.induct)
  case (1 M m)
  show ?case
  proof (cases "at M m = CHR ''*''")
    case True
    then have m: "m < length M" by (auto intro: at_not_NUL_lt)
    have IH: "Suc m \<le> skip_stars M (Suc m) \<and> skip_stars M (Suc m) \<le> length M \<and>
      at M (skip_stars M (Suc m)) \<noteq> CHR ''*'' \<and>
      (Suc m < skip_stars M (Suc m) \<longrightarrow> M ! (skip_stars M (Suc m) - 1) = CHR ''*'' \<and>
       (\<forall>s. glob (drop (Suc m) M) s = glob (CHR ''*'' # drop (skip_stars M (Suc m)) M) s))"
      using "1.IH" [OF True] "1.prems" m by simp
    have eq: "skip_stars M m = skip_stars M (Suc m)"
      using True by (simp add: skip_stars.simps [of M m])
    have d: "drop m M = CHR ''*'' # drop (Suc m) M"
      using True m by (simp add: drop_at)
    show ?thesis
    proof (cases "Suc m < skip_stars M (Suc m)")
      case lt: True
      then have "glob (drop m M) s = glob (CHR ''*'' # drop (skip_stars M (Suc m)) M) s" for s
        using IH lt glob_star_cong [of "drop (Suc m) M" "CHR ''*'' # drop (skip_stars M (Suc m)) M" s]
        by (simp only: d glob_star_star) blast
      then show ?thesis using IH lt eq by auto
    next
      case False
      then have "skip_stars M (Suc m) = Suc m" using IH by simp
      then show ?thesis using IH eq d True m by (simp add: at_lt)
    qed
  next
    case False
    then show ?thesis using "1.prems" by (simp add: skip_stars.simps [of M m])
  qed
qed

lemma glob_star_later:
  assumes "n \<le> length S"
  shows "glob (CHR ''*'' # drop a M) (drop n S) \<longleftrightarrow> later M S a n"
proof
  assume "glob (CHR ''*'' # drop a M) (drop n S)"
  then obtain k where "k \<le> length S - n" "glob (drop a M) (drop (k + n) S)"
    by (auto simp: glob_star)
  then show "later M S a n"
    using assms unfolding later_def by (intro exI [of _ "k + n"]) auto
next
  assume "later M S a n"
  then obtain k where "k \<le> length S" "n \<le> k" "glob (drop a M) (drop k S)"
    by (auto simp: later_def)
  then show "glob (CHR ''*'' # drop a M) (drop n S)"
    by (auto simp: glob_star intro!: exI [of _ "k - n"])
qed

lemma later_past_segment:
  assumes inv: "minv M S st" and n: "na st \<le> n" and l: "later M S (ma st) n"
  shows "\<exists>k\<le>length S. nn st \<le> k \<and> glob (drop (mm st) M) (drop k S)"
proof -
  obtain k where k: "k \<le> length S" "n \<le> k" "glob (drop (ma st) M) (drop k S)"
    using l by (auto simp: later_def)
  have len: "length (segm M st) = mm st - ma st"
    using inv by (auto simp: minv_def segm_def)
  have "glob (segm M st @ drop (mm st) M) (drop k S)"
    using k inv segm_split [of st M] by (simp add: minv_def)
  then have "mm st - ma st \<le> length S - k"
    and "glob (drop (mm st) M) (drop (k + (mm st - ma st)) S)"
    using inv by (simp_all add: minv_def glob_append_plain len add.commute)
  then show ?thesis
    using k n inv by (intro exI [of _ "k + (mm st - ma st)"]) (auto simp: minv_def)
qed

lemma match_star_spec:
  assumes M: "cstring M" and inv: "minv M S st"
  shows "minv M S (match_star M st) \<and> at M (mm (match_star M st)) \<noteq> CHR ''*'' \<and>
    mmeasure M S (match_star M st) \<le> mmeasure M S st"
proof (cases "at M (mm st) = CHR ''*''")
  case True
  define m where "m = skip_stars M (mm st)"
  have mlen: "mm st < length M" using True by (auto intro: at_not_NUL_lt)
  note sp = skip_stars_spec [OF M less_imp_le [OF mlen], folded m_def]
  have lt: "mm st < m"
    using sp True by (metis le_neq_implies_less)
  have st': "match_star M st = st\<lparr>mm := m, wild := True, ma := m, na := nn st\<rparr>"
    using True by (simp add: match_star_def m_def Let_def)
  have nle: "nn st \<le> length S" using minv_bounds [OF inv] by simp
  have here: "glob (drop (mm st) M) (drop k S) \<longleftrightarrow> later M S m k" if "k \<le> length S" for k
    using sp lt glob_star_later [OF that] by simp
  have weaken: "later M S m (nn st)" if w: "later M S (ma st) (Suc (na st))"
  proof -
    obtain k where "k \<le> length S" "nn st \<le> k" "glob (drop (mm st) M) (drop k S)"
      using later_past_segment [OF inv le_SucI [OF le_refl] w] by auto
    then have "nn st \<le> k" "later M S m k" using here by auto
    then show ?thesis by (auto simp: later_def intro: order_trans)
  qed
  have "glob M S = later M S m (nn st)"
    using glob_by_state [OF inv] here [OF nle] weaken by (auto split: if_splits)
  then have "minv M S (match_star M st)"
    using sp lt nle by (simp add: st' minv_def segm_def)
  moreover have "mmeasure M S (match_star M st) \<le> mmeasure M S st"
  proof (cases "na st < nn st")
    case True
    then show ?thesis
      using minv_bounds [OF inv] by (intro less_imp_le [OF mmeasure_next]) (simp_all add: st')
  next
    case False
    then show ?thesis using inv by (auto simp: st' minv_def mmeasure_def)
  qed
  ultimately show ?thesis using sp by (simp add: st')
next
  case False
  then show ?thesis using inv by (simp add: match_star_def)
qed

text \<open>The comparison: a mismatch tries the next offset, a match extends the segment.\<close>

lemma segm_extend:
  assumes inv: "minv M S st" and lt: "mm st < length M" "nn st < length S"
    and eq: "ToLower (M ! mm st) = ToLower (S ! nn st) \<or> M ! mm st = CHR ''?''"
    and ns: "M ! mm st \<noteq> CHR ''*''"
  shows "minv M S (st\<lparr>mm := Suc (mm st), nn := Suc (nn st)\<rparr>)"
proof -
  let ?d = "mm st - ma st" and ?st = "st\<lparr>mm := Suc (mm st), nn := Suc (nn st)\<rparr>"
  have le: "ma st \<le> mm st" "nn st = na st + ?d" using inv by (auto simp: minv_def)
  have seg1: "segm M ?st = segm M st @ [M ! mm st]"
    using le lt by (simp add: segm_def Suc_diff_le take_Suc_conv_app_nth)
  have sub1: "take (Suc ?d) (drop (na st) S) = take ?d (drop (na st) S) @ [S ! nn st]"
    using le lt by (simp add: take_Suc_conv_app_nth)
  have "length (segm M st) = length (take ?d (drop (na st) S))"
    using le lt by (simp add: segm_def)
  then have "seg (segm M ?st) (take (Suc ?d) (drop (na st) S))"
    using inv eq unfolding seg1 sub1 by (auto simp: seg_append1 minv_def)
  then show ?thesis
    using inv lt ns le seg1 by (auto simp: minv_def Suc_diff_le)
qed

lemma retry_later:
  assumes "minv M S st" "wild st" "na st < length S" "\<not> glob (drop (mm st) M) (drop (nn st) S)"
  shows "minv M S (st\<lparr>mm := ma st, na := Suc (na st), nn := Suc (na st)\<rparr>)"
    "mmeasure M S (st\<lparr>mm := ma st, na := Suc (na st), nn := Suc (na st)\<rparr>) < mmeasure M S st"
proof -
  show "minv M S (st\<lparr>mm := ma st, na := Suc (na st), nn := Suc (na st)\<rparr>)"
    using assms glob_by_state [OF assms(1)] by (simp add: minv_def segm_def)
  show "mmeasure M S (st\<lparr>mm := ma st, na := Suc (na st), nn := Suc (na st)\<rparr>) < mmeasure M S st"
    using assms by (intro mmeasure_next) (auto simp: minv_def)
qed

lemma match_compare_spec:
  assumes str: "cstring M" "cstring S" and inv: "minv M S st"
    and ns: "at M (mm st) \<noteq> CHR ''*''"
    and ends: "nn st = length S \<longrightarrow> mm st = length M" "mm st = length M \<longrightarrow> wild st"
  shows "(case match_compare M S st of
      Inl r \<Rightarrow> r = glob M S
    | Inr st' \<Rightarrow> minv M S st' \<and> mmeasure M S st' \<le> mmeasure M S st \<and>
        (mm st < length M \<longrightarrow> mmeasure M S st' < mmeasure M S st))"
proof (cases "ToLower (at M (mm st)) \<noteq> ToLower (at S (nn st)) \<and> at M (mm st) \<noteq> CHR ''?''")
  case True
  have le: "mm st \<le> length M" "nn st \<le> length S" using inv by (auto simp: minv_def)
  have nlt: "nn st < length S"
    using True ends(1) le by (cases "nn st = length S") (auto simp: at_ge)
  have no: "\<not> glob (drop (mm st) M) (drop (nn st) S)"
    using True nlt le ns
    by (cases "mm st = length M") (auto simp: drop_at [symmetric] at_lt Cons_nth_drop_Suc [symmetric])
  show ?thesis
  proof (cases "wild st")
    case w: True
    have "na st < length S" using nlt inv by (auto simp: minv_def)
    from retry_later [OF inv w this no] show ?thesis
      using True w by (simp add: match_compare_def)
  next
    case False
    then show ?thesis
      using True no glob_by_state [OF inv] by (simp add: match_compare_def)
  qed
next
  case False
  show ?thesis
  proof (cases "mm st = length M")
    case fin: True
    then have "nn st = length S"
      using False str(2) minv_bounds(4) [OF inv] by (auto simp: at_ge at_NUL_iff)
    then have "match_compare M S st = Inr st"
      using fin by (cases st) (simp add: match_compare_def at_ge)
    then show ?thesis using fin inv by simp
  next
    case lt: False
    have mlt: "mm st < length M" using lt inv by (auto simp: minv_def)
    have nlt: "nn st < length S" using lt ends inv by (auto simp: minv_def)
    have nz: "at M (mm st) \<noteq> NUL" "at S (nn st) \<noteq> NUL"
      using str mlt nlt by (auto simp: at_NUL_iff)
    have "minv M S (st\<lparr>mm := Suc (mm st), nn := Suc (nn st)\<rparr>)"
      using segm_extend [OF inv mlt nlt] False ns mlt nlt by (auto simp: at_lt)
    moreover have "mmeasure M S (st\<lparr>mm := Suc (mm st), nn := Suc (nn st)\<rparr>) < mmeasure M S st"
    proof -
      define X where "X = (length S + 1 - na st) * (length M + 2)"
      have "1 * (length M + 2) \<le> X"
        unfolding X_def using minv_bounds [OF inv] nlt by (intro mult_right_mono) auto
      moreover have "mm st - ma st < length M" "Suc (mm st) - ma st = Suc (mm st - ma st)"
        using minv_bounds [OF inv] mlt by auto
      moreover have "mmeasure M S st = X - (mm st - ma st)"
        "mmeasure M S (st\<lparr>mm := Suc (mm st), nn := Suc (nn st)\<rparr>) = X - (Suc (mm st) - ma st)"
        by (simp_all add: mmeasure_def X_def)
      moreover have "X - Suc d < X - d" if "d < length M" "1 * (length M + 2) \<le> X" for d
        using that by (intro diff_less_mono2) auto
      ultimately show ?thesis by (simp only:)
    qed
    ultimately show ?thesis using False nz by (auto simp: match_compare_def)
  qed
qed

text \<open>The end of the mask: only \<open>?\<close> after the last star means that the rest fits.\<close>

lemma back_over_quests_spec:
  assumes "0 < m" "m \<le> length M"
  shows "back_over_quests M m < m \<and>
    (\<forall>j. back_over_quests M m < j \<and> j < m \<longrightarrow> M ! j = CHR ''?'')"
  using assms
proof (induction M m rule: back_over_quests.induct)
  case (2 M m)
  show ?case
  proof (cases "0 < m \<and> at M m = CHR ''?''")
    case True
    then show ?thesis using "2.IH" "2.prems" by (auto simp: less_Suc_eq at_lt)
  next
    case False
    then show ?thesis by auto
  qed
qed simp

lemma back_over_quests_end:
  assumes "0 < back_over_quests M (length M)"
  shows "back_over_quests M (length M) < length M \<and>
    (\<forall>j. back_over_quests M (length M) < j \<and> j < length M \<longrightarrow> M ! j = CHR ''?'')"
  using back_over_quests_spec [of "length M" M] assms by (cases "M = []") auto

lemma seg_quests:
  "\<forall>c \<in> set p. c = CHR ''?'' \<Longrightarrow> length p = length u \<Longrightarrow> seg p u"
proof (induction p arbitrary: u)
  case (Cons a p)
  then show ?case by (cases u) auto
qed simp

lemma trailing_quests_match:
  assumes inv: "minv M S st" and fin: "mm st = length M"
    and b: "b = back_over_quests M (mm st)" "0 < b" "M ! b = CHR ''*''"
  shows "glob M S"
proof -
  note bd = minv_bounds [OF inv]
  have bs: "b < length M" "\<And>j. b < j \<Longrightarrow> j < length M \<Longrightarrow> M ! j = CHR ''?''"
    using back_over_quests_end [of M] b fin by auto
  have seg: "segm M st = drop (ma st) M" by (simp add: segm_def fin)
  have notin: "\<not> ma st \<le> b"
  proof
    assume "ma st \<le> b"
    then have "M ! b \<in> set (segm M st)"
      using bs by (auto simp: seg in_set_conv_nth intro!: exI [of _ "b - ma st"])
    then show False using inv b by (auto simp: minv_def plain_def)
  qed
  then have w: "wild st" "0 < ma st" "M ! (ma st - 1) = CHR ''*''" "glob M S = later M S (ma st) (na st)"
    using inv by (auto simp: minv_def split: if_splits)
  have "ma st - 1 = b"
    using bs(2) [of "ma st - 1"] w notin bd fin by (cases "ma st - 1 = b") auto
  then have quests: "\<forall>c \<in> set (segm M st). c = CHR ''?''"
    using bs(2) w by (auto simp: seg in_set_conv_nth)
  let ?k = "length S - (mm st - ma st)"
  have len: "length (segm M st) = length (drop ?k S)" using bd by (simp add: segm_def)
  have "plain (segm M st)" using inv by (simp add: minv_def)
  then have "glob (segm M st @ []) (drop ?k S)"
    using seg_quests [OF quests len] len by (subst glob_append_plain) simp_all
  then have "glob (drop (ma st) M) (drop ?k S)" by (simp only: seg append_Nil2)
  moreover have "na st \<le> ?k" using bd by simp
  ultimately show ?thesis using w by (auto simp: later_def intro!: exI [of _ ?k])
qed

text \<open>The end of the name before the end of the mask: no match is left.\<close>

lemma name_ended:
  assumes inv: "minv M S st" and lt: "mm st < length M" and fin: "nn st = length S"
    and ns: "M ! mm st \<noteq> CHR ''*''"
  shows "\<not> glob M S"
proof -
  note bd = minv_bounds [OF inv]
  have d: "drop (mm st) M = M ! mm st # drop (Suc (mm st)) M" using lt by (simp add: Cons_nth_drop_Suc)
  have "\<not> later M S (ma st) (Suc (na st))"
  proof
    assume "later M S (ma st) (Suc (na st))"
    then obtain k where k: "k \<le> length S" "Suc (na st) \<le> k" "glob (drop (ma st) M) (drop k S)"
      by (auto simp: later_def)
    have "glob ((segm M st @ [M ! mm st]) @ drop (Suc (mm st)) M) (drop k S)"
      using k bd segm_split [of st M] d by simp
    then have "length (segm M st) + 1 \<le> length S - k"
      using inv ns by (subst (asm) glob_append_plain) (auto simp: minv_def)
    then show False using k bd fin by (simp add: segm_def)
  qed
  moreover have "\<not> glob (drop (mm st) M) (drop (nn st) S)"
    using ns by (simp add: fin d)
  ultimately show ?thesis using glob_by_state [OF inv] by (auto split: if_splits)
qed

lemma match_step_spec:
  assumes str: "cstring M" "cstring S" and inv: "minv M S st"
  shows "case match_step M S st of
      Inl r \<Rightarrow> r = glob M S
    | Inr st' \<Rightarrow> minv M S st' \<and> mmeasure M S st' < mmeasure M S st"
proof -
  let ?st = "match_star M st"
  have i1: "minv M S ?st" and ns: "at M (mm ?st) \<noteq> CHR ''*''"
    and le: "mmeasure M S ?st \<le> mmeasure M S st"
    using match_star_spec [OF str(1) inv] by auto
  note bd = minv_bounds [OF i1]
  have mend: "at M (mm ?st) = NUL \<longleftrightarrow> mm ?st = length M" using str bd by (auto simp: at_NUL_iff)
  have nend: "at S (nn ?st) = NUL \<longleftrightarrow> nn ?st = length S" using str bd by (auto simp: at_NUL_iff)
  consider (both) "mm ?st = length M" "nn ?st = length S"
    | (mask) "mm ?st = length M" "nn ?st < length S"
    | (name) "mm ?st < length M" "nn ?st = length S"
    | (none) "mm ?st < length M" "nn ?st < length S"
    using bd by linarith
  then show ?thesis
  proof cases
    case both
    then show ?thesis using mend nend glob_by_state [OF i1] by (simp add: match_step_def)
  next
    case name
    have "skip_stars M (mm ?st) = mm ?st" using ns by (simp add: skip_stars.simps [of M "mm ?st"])
    then show ?thesis
      using name mend nend ns name_ended [OF i1 name] by (simp add: match_step_def at_lt)
  next
    case none
    then show ?thesis
      using match_compare_spec [OF str i1 ns] mend nend le
      by (auto simp: match_step_def Let_def split: sum.splits)
  next
    case mask
    define b where "b = back_over_quests M (mm ?st)"
    have no: "\<not> glob (drop (mm ?st) M) (drop (nn ?st) S)" using mask by simp
    have blt: "b < length M \<or> b = 0"
      using back_over_quests_end [of M] mask by (auto simp: b_def)
    show ?thesis
    proof (cases "0 < b \<and> at M b = CHR ''*''")
      case True
      have "match_step M S st = Inl True"
        using True mask mend nend unfolding b_def by (simp add: match_step_def Let_def)
      then show ?thesis
        using True trailing_quests_match [OF i1 mask(1) b_def] blt by (simp add: at_lt)
    next
      case nb: False
      show ?thesis
      proof (cases "wild ?st")
        case False
        then show ?thesis
          using nb mask mend nend no glob_by_state [OF i1] by (auto simp: match_step_def b_def)
      next
        case w: True
        let ?st2 = "?st\<lparr>mm := ma ?st, na := Suc (na ?st), nn := Suc (na ?st)\<rparr>"
        have "na ?st < length S" using bd mask by simp
        note r = retry_later [OF i1 w this no]
        have "match_step M S st = match_compare M S ?st2"
          using nb mask mend nend w by (auto simp: match_step_def b_def Let_def)
        moreover have "at M (mm ?st2) \<noteq> CHR ''*''" using i1 w by (simp add: minv_def)
        moreover have "nn ?st2 = length S \<longrightarrow> mm ?st2 = length M" using bd mask by auto
        ultimately show ?thesis
          using match_compare_spec [OF str r(1)] r(2) le w
          by (auto split: sum.splits)
      qed
    qed
  qed
qed

section \<open>The whole loop\<close>

lemma match_loop_sound:
  assumes "cstring M" "cstring S"
  shows "minv M S st \<Longrightarrow> match_loop k M S st \<Longrightarrow> glob M S"
proof (induction k arbitrary: st)
  case (Suc k)
  then show ?case
    using match_step_spec [OF assms Suc.prems(1)] by (auto split: sum.splits)
qed simp

lemma match_loop_complete:
  assumes "cstring M" "cstring S"
  shows "minv M S st \<Longrightarrow> mmeasure M S st < k \<Longrightarrow> match_loop k M S st = glob M S"
proof (induction k arbitrary: st)
  case (Suc k)
  then show ?case
    using match_step_spec [OF assms Suc.prems(1)] by (auto split: sum.splits)
qed simp

lemma match_irc_sound: "cstring M \<Longrightarrow> cstring S \<Longrightarrow> match_irc M S \<Longrightarrow> glob M S"
  unfolding match_irc_def by (rule match_loop_sound [OF _ _ minv_init])

definition small_match :: "cstr \<Rightarrow> cstr \<Rightarrow> bool" where
  "small_match M S = ((length S + 1) * (length M + 2) < MATCH_MAX_CALLS)"

lemma match_irc_small:
  "cstring M \<Longrightarrow> cstring S \<Longrightarrow> small_match M S \<Longrightarrow> match_irc M S = glob M S"
  unfolding match_irc_def
  by (rule match_loop_complete [OF _ _ minv_init])
    (simp_all add: small_match_def mmeasure_def match_init_def)

text \<open>The claims on matching.\<close>

lemma glob_collapse: "glob (collapse m) s = glob m s"
proof (induction m arbitrary: s rule: collapse.induct)
  case (2 c m)
  show ?case
  proof (cases "c = CHR ''*''")
    case True
    have "glob (CHR ''*'' # dropWhile (\<lambda>d. d = CHR ''*'') m) t = glob (CHR ''*'' # m) t" for t
      by (induction m) (auto simp: glob_star_star)
    then show ?thesis
      using True "2.IH"(1) [OF True] by (simp add: glob_star)
  next
    case False
    then show ?thesis using "2.IH"(2) [OF False] by (cases s) auto
  qed
qed simp

fun no_double_star :: "cstr \<Rightarrow> bool" where
  "no_double_star (a # b # s) = (\<not> (a = CHR ''*'' \<and> b = CHR ''*'') \<and> no_double_star (b # s))"
| "no_double_star _ = True"

lemma hd_collapse: "collapse m = [] \<longleftrightarrow> m = []" "m \<noteq> [] \<Longrightarrow> hd (collapse m) = hd m"
  by (cases m; simp)+

lemma no_double_star_Cons:
  "no_double_star (a # s) \<longleftrightarrow> (s \<noteq> [] \<and> a = CHR ''*'' \<longrightarrow> hd s \<noteq> CHR ''*'') \<and> no_double_star s"
  by (cases s) auto

lemma no_double_star_collapse: "no_double_star (collapse m)"
proof (induction m rule: collapse.induct)
  case (2 c m)
  have "dropWhile (\<lambda>d. d = CHR ''*'') m \<noteq> [] \<Longrightarrow> hd (dropWhile (\<lambda>d. d = CHR ''*'') m) \<noteq> CHR ''*''"
    using hd_dropWhile [of "\<lambda>d. d = CHR ''*''" m] by blast
  then show ?case
    using 2 by (cases "c = CHR ''*''") (simp_all add: no_double_star_Cons hd_collapse)
qed simp

lemma collapse_fixed: "no_double_star m \<Longrightarrow> collapse m = m"
proof (induction m rule: collapse.induct)
  case (2 c m)
  then show ?case by (cases m) (auto simp: no_double_star_Cons)
qed simp

lemma collapse_idem: "collapse (collapse m) = collapse m"
  by (rule collapse_fixed [OF no_double_star_collapse])

lemma set_collapse: "set (collapse m) \<subseteq> set m"
proof (induction m rule: collapse.induct)
  case (2 c m)
  then show ?case by (auto dest: set_dropWhileD split: if_splits)
qed simp

lemma cstring_collapse [simp]: "cstring m \<Longrightarrow> cstring (collapse m)"
  using set_collapse by (auto simp: cstring_def)

lemma length_collapse: "length (collapse m) \<le> length m"
proof (induction m rule: collapse.induct)
  case (2 c m)
  then show ?case
    using length_dropWhile_le [of "\<lambda>d. d = CHR ''*''" m] by (auto intro: order_trans)
qed simp

section \<open>Masks that exhaust the call bound\<close>

text \<open>
  The mask \<open>*aa..ab\<close> with \<open>k\<close> letters \<open>a\<close> against a name of \<open>n\<close> letters \<open>a\<close> and a \<open>b\<close>: each
  restart of the loop costs \<open>k + 1\<close> of the \<open>MATCH_MAX_CALLS\<close> rounds.
\<close>

definition slow_mask :: "nat \<Rightarrow> cstr" where
  "slow_mask k = CHR ''*'' # replicate k CHR ''a'' @ ''b''"

definition slow_name :: "nat \<Rightarrow> cstr" where
  "slow_name n = replicate n CHR ''a'' @ ''b''"

definition scan_at :: "nat \<Rightarrow> nat \<Rightarrow> mstate" where
  "scan_at i j = \<lparr>mm = Suc i, nn = j + i, ma = 1, na = j, wild = True\<rparr>"

lemma at_slow_mask: "i \<le> k \<Longrightarrow> at (slow_mask k) (Suc i) = (if i < k then CHR ''a'' else CHR ''b'')"
  by (auto simp: slow_mask_def at_def nth_append)

lemma at_slow_name: "i \<le> n \<Longrightarrow> at (slow_name n) i = (if i < n then CHR ''a'' else CHR ''b'')"
  by (auto simp: slow_name_def at_def nth_append)

lemma ToLower_a_b: "ToLower CHR ''b'' \<noteq> ToLower CHR ''a''"
  by (simp add: code_eq_char code_ToLower) (simp add: code_def)

lemma slow_step:
  assumes "i \<le> k" "j + k < n"
  shows "match_step (slow_mask k) (slow_name n) (scan_at i j) =
    Inr (if i < k then scan_at (Suc i) j else scan_at 0 (Suc j))"
  using assms ToLower_a_b
  by (auto simp: match_step_def match_star_def match_compare_def scan_at_def
      at_slow_mask at_slow_name)

lemma slow_loop:
  "i \<le> k \<Longrightarrow> j + k < n \<Longrightarrow> calls + i \<le> (n - k - j) * Suc k \<Longrightarrow>
     \<not> match_loop calls (slow_mask k) (slow_name n) (scan_at i j)"
proof (induction calls arbitrary: i j)
  case (Suc calls)
  show ?case
  proof (cases "i < k")
    case True
    then show ?thesis using Suc slow_step [OF Suc.prems(1,2)] by simp
  next
    case False
    then have i: "i = k" using Suc.prems by simp
    have d: "n - k - j = Suc (n - k - Suc j)" using Suc.prems(2) by linarith
    then have c: "calls \<le> (n - k - Suc j) * Suc k" using Suc.prems(3) i by simp
    show ?thesis
    proof (cases "Suc j + k < n")
      case True
      then show ?thesis using Suc.IH [of 0 "Suc j"] c slow_step [OF Suc.prems(1,2)] False by simp
    next
      case last: False
      then have "calls = 0" using c by simp
      then show ?thesis using slow_step [OF Suc.prems(1,2)] False by simp
    qed
  qed
qed simp

lemma glob_replicate_a: "glob (replicate k CHR ''a'' @ ''b'') (replicate k CHR ''a'' @ ''b'')"
  by (induction k) simp_all

lemma glob_slow: "k \<le> n \<Longrightarrow> glob (slow_mask k) (slow_name n)"
  unfolding slow_mask_def slow_name_def glob_star
  by (intro exI [of _ "n - k"]) (simp add: glob_replicate_a)

lemma match_step_slow_init:
  "match_step (slow_mask k) (slow_name n) match_init = match_step (slow_mask k) (slow_name n) (scan_at 0 0)"
proof -
  have "skip_stars (slow_mask k) 0 = 1"
    by (subst skip_stars.simps, simp add: slow_mask_def, subst skip_stars.simps)
      (cases k, simp_all)
  then have "match_star (slow_mask k) match_init = scan_at 0 0"
    by (simp add: match_star_def match_init_def scan_at_def) (simp add: slow_mask_def)
  moreover have "match_star (slow_mask k) (scan_at 0 0) = scan_at 0 0"
    by (cases k) (simp_all add: match_star_def scan_at_def slow_mask_def)
  ultimately show ?thesis by (simp add: match_step_def)
qed

text \<open>C11 (wildcard matching).
  \<open>match()\<close> never accepts a name that the mask does not denote, and within its call bound
  (\<open>small_match\<close>: (name + 1) * (mask + 2) below 512) it accepts exactly the names the mask
  denotes, where \<open>glob\<close> is the recursive meaning of \<open>*\<close>, \<open>?\<close> and case-folded letters.\<close>

theorem match_exact:
  "cstring M \<Longrightarrow> cstring S \<Longrightarrow>
     (match_irc M S \<longrightarrow> glob M S) \<and> (small_match M S \<longrightarrow> match_irc M S = glob M S)"
  by (simp add: match_irc_sound match_irc_small)

lemma glob_example:
  "glob ''*!*@*.EDU'' ''nick!user@mit.edu''" "\<not> glob ''*!*@*.EDU'' ''nick!user@mit.edx''"
  by code_simp+

theorem match_exact_witness:
  "match_irc ''*!*@*.EDU'' ''nick!user@mit.edu'' \<and> \<not> match_irc ''*!*@*.EDU'' ''nick!user@mit.edx''"
  using match_exact [of "''*!*@*.EDU''" "''nick!user@mit.edu''"]
    match_exact [of "''*!*@*.EDU''" "''nick!user@mit.edx''"] glob_example
  by (simp add: small_match_def MATCH_MAX_CALLS_def del: glob.simps)

text \<open>C39 (call bound of match).
  Beyond that bound \<open>match()\<close> gives up: for \<open>k < n\<close> with \<open>512 <= (k + 1) * (n - k)\<close> the mask
  \<open>*a^k b\<close> denotes the name \<open>a^n b\<close> and \<open>match()\<close> still answers 0.  The witness is a name of
  63 characters, the length of a host name, and a mask of 11.\<close>

theorem match_gives_up:
  assumes "k < n" "MATCH_MAX_CALLS \<le> (k + 1) * (n - k)"
  shows "glob (slow_mask k) (slow_name n) \<and> \<not> match_irc (slow_mask k) (slow_name n)"
proof -
  have "\<not> match_loop MATCH_MAX_CALLS (slow_mask k) (slow_name n) (scan_at 0 0)"
    using assms by (intro slow_loop) (simp_all add: mult.commute)
  then have "\<not> match_irc (slow_mask k) (slow_name n)"
    by (simp add: match_irc_def MATCH_MAX_CALLS_def match_step_slow_init numeral_eq_Suc)
  then show ?thesis using assms glob_slow by simp
qed

theorem match_gives_up_witness:
  "length (slow_name 62) = 63 \<and> glob (slow_mask 9) (slow_name 62) \<and> \<not> match_irc (slow_mask 9) (slow_name 62)"
  using match_gives_up [of 9 62] by (simp add: MATCH_MAX_CALLS_def slow_name_def)

text \<open>Collapse. \<open>collapse()\<close> keeps the meaning of a mask, leaves no two adjacent stars, never lengthens the
  mask and is idempotent, so it returns the normal form that \<open>match()\<close> expects.\<close>

theorem collapse_normal_form:
  "glob (collapse m) s = glob m s \<and> no_double_star (collapse m) \<and>
   length (collapse m) \<le> length m \<and> collapse (collapse m) = collapse m"
  by (simp add: glob_collapse no_double_star_collapse length_collapse collapse_idem)

end
