(* ===== verification/Dbuf.thy ===== *)
theory Dbuf
  imports CharTab
begin

text \<open>
  Dynamic buffers, \<open>src/dbuf.c\<close>.  A \<open>struct DBufBuffer\<close> holds \<open>data[0 .. end)\<close> and the
  offset \<open>start\<close>; the chain from \<open>dyn->head\<close> to \<open>dyn->tail\<close> is a list whose last element
  is the tail.  The allocator state (\<open>DBufUsedCount\<close>, \<open>DBufCount\<close> and the length of
  \<open>dbufFreeList\<close>) is threaded through every operation.  \<open>MyMalloc\<close> does not return on
  failure, so \<open>dbuf_alloc\<close> always succeeds.  A failed \<open>assert\<close> or a read outside the
  stored bytes is \<open>None\<close>.
\<close>

section \<open>State\<close>

definition DBUF_SIZE :: nat where "DBUF_SIZE = 1024"
definition BUFFERPOOL :: nat where "BUFFERPOOL = 15000000 * 4"
definition DBUF_USUAL_MAX_COUNT :: nat where "DBUF_USUAL_MAX_COUNT = BUFFERPOOL div DBUF_SIZE"
definition INITIAL_DBUFS :: nat where "INITIAL_DBUFS = 4000"

record dbuffer =
  db_start :: nat
  db_data :: "char list"

record dpool =
  DBufUsedCount :: nat
  DBufCount :: nat
  dbufFreeList :: nat

record dbuf =
  db_chain :: "dbuffer list"
  db_length :: nat

type_synonym dstate = "dpool \<times> dbuf"

definition avail :: "dbuffer \<Rightarrow> char list" where
  "avail d = drop (db_start d) (db_data d)"

definition empty_dbuf :: dbuf where
  "empty_dbuf = \<lparr>db_chain = [], db_length = 0\<rparr>"

lemma drop_eq_ConsD: "drop n xs = y # ys \<Longrightarrow> n < length xs"
  by (metis drop_eq_Nil list.simps(3) not_le_imp_less)

section \<open>Operations\<close>

text \<open>\<open>dbuf_init\<close> allocates one buffer before the loop and \<open>INITIAL_DBUFS\<close> in it.\<close>

definition dbuf_init :: dpool where
  "dbuf_init = \<lparr>DBufUsedCount = 0, DBufCount = INITIAL_DBUFS, dbufFreeList = Suc INITIAL_DBUFS\<rparr>"

definition dbuf_alloc :: "dpool \<Rightarrow> dpool \<times> dbuffer" where
  "dbuf_alloc p =
     (let p1 = (if dbufFreeList p \<noteq> 0 then p\<lparr>dbufFreeList := dbufFreeList p - 1\<rparr>
                else p\<lparr>DBufCount := Suc (DBufCount p)\<rparr>)
      in (p1\<lparr>DBufUsedCount := Suc (DBufUsedCount p1)\<rparr>, \<lparr>db_start = 0, db_data = []\<rparr>))"

definition dbuf_free :: "dpool \<Rightarrow> dpool" where
  "dbuf_free p =
     (let p1 = (if DBUF_USUAL_MAX_COUNT < DBufUsedCount p then p
                else p\<lparr>dbufFreeList := Suc (dbufFreeList p)\<rparr>)
      in p1\<lparr>DBufUsedCount := DBufUsedCount p1 - 1\<rparr>)"

text \<open>One chunk copied to the free end of a buffer: the buffer and what is left to store.\<close>

definition put_chunk :: "dbuffer \<Rightarrow> char list \<Rightarrow> dbuffer \<times> char list" where
  "put_chunk d buf =
     (let chunk = min (DBUF_SIZE - length (db_data d)) (length buf)
      in (d\<lparr>db_data := db_data d @ take chunk buf\<rparr>, drop chunk buf))"

function put_loop :: "dpool \<Rightarrow> dbuffer list \<Rightarrow> char list \<Rightarrow> dpool \<times> dbuffer list" where
  "put_loop p ds [] = (p, ds)"
| "put_loop p [] (b # bs) =
     (let (p1, d) = dbuf_alloc p; (d1, rest) = put_chunk d (b # bs);
          (p2, ds) = put_loop p1 [] rest
      in (p2, d1 # ds))"
| "put_loop p (d # ds) (b # bs) =
     (let (d1, rest) = put_chunk d (b # bs); (p2, ds2) = put_loop p ds rest
      in (p2, d1 # ds2))"
  by pat_completeness auto
termination
  by (relation "measure (\<lambda>(p, ds, bs). length ds + length bs)")
    (auto simp: put_chunk_def dbuf_alloc_def DBUF_SIZE_def Let_def)

text \<open>\<open>h\<close> starts at \<open>&dyn->head\<close> when the length is 0 and at \<open>&dyn->tail\<close> otherwise.\<close>

definition dbuf_put :: "dstate \<Rightarrow> char list \<Rightarrow> dstate" where
  "dbuf_put s buf =
     (let (p, dyn) = s;
          (before, from) = (if db_length dyn = 0 then ([], db_chain dyn)
                            else (butlast (db_chain dyn), [last (db_chain dyn)]));
          (p1, ds) = put_loop p from buf
      in (p1, \<lparr>db_chain = before @ ds, db_length = db_length dyn + length buf\<rparr>))"

definition dbuf_map :: "dstate \<Rightarrow> char list option" where
  "dbuf_map s =
     (if db_length (snd s) = 0 then None
      else case db_chain (snd s) of [] \<Rightarrow> None | d # _ \<Rightarrow> Some (avail d))"

function delete_loop :: "dpool \<Rightarrow> dbuffer list \<Rightarrow> nat \<Rightarrow> nat \<Rightarrow> dpool \<times> dbuffer list \<times> nat" where
  "delete_loop p ds len 0 = (p, ds, len)"
| "delete_loop p [] len (Suc n) = (p, [], len)"
| "delete_loop p (d # ds) len (Suc n) =
     (let chunk = min (length (avail d)) (Suc n);
          d1 = d\<lparr>db_start := db_start d + chunk\<rparr>
      in if db_start d1 = length (db_data d1)
         then delete_loop (dbuf_free p) ds (len - chunk) (Suc n - chunk)
         else if chunk = 0 then (p, d1 # ds, len)
         else delete_loop p (d1 # ds) (len - chunk) (Suc n - chunk))"
  by pat_completeness auto
termination
  by (relation "measure (\<lambda>(p, ds, len, n). length ds + n)") (auto simp: min_def split: if_splits)

definition dbuf_delete :: "dstate \<Rightarrow> nat \<Rightarrow> dstate" where
  "dbuf_delete s n =
     (let (p, dyn) = s;
          (p1, ds, len) = delete_loop p (db_chain dyn) (db_length dyn) (min n (db_length dyn))
      in (p1, \<lparr>db_chain = ds, db_length = (if ds = [] then 0 else len)\<rparr>))"

text \<open>\<open>DBufClear\<close>.\<close>

definition dbuf_clear :: "dstate \<Rightarrow> dstate" where
  "dbuf_clear s = dbuf_delete s (db_length (snd s))"

text \<open>
  The loop of \<open>dbuf_get\<close> over its two primitives: the bytes moved to the caller and the
  buffer left.  A chunk is never empty on a well formed buffer; an empty one would make
  the C loop spin, which the fuel (the number of bytes asked for) turns into a stop.
\<close>

fun get_loop :: "('q \<Rightarrow> char list option) \<Rightarrow> ('q \<Rightarrow> nat \<Rightarrow> 'q) \<Rightarrow> nat \<Rightarrow> 'q \<Rightarrow> nat \<Rightarrow> char list \<times> 'q" where
  "get_loop mp del 0 q n = ([], q)"
| "get_loop mp del (Suc fuel) q n =
     (if n = 0 then ([], q)
      else case mp q of
        None \<Rightarrow> ([], q)
      | Some b \<Rightarrow>
          let chunk = min (length b) n;
              (moved, q2) = get_loop mp del fuel (del q chunk) (n - chunk)
          in (take chunk b @ moved, q2))"

definition dbuf_get :: "dstate \<Rightarrow> nat \<Rightarrow> char list \<times> dstate" where
  "dbuf_get s n = get_loop dbuf_map dbuf_delete n s n"

text \<open>\<open>dbuf_flush\<close>: skip leading CR and LF.\<close>

function flush_loop :: "dpool \<Rightarrow> dbuffer list \<Rightarrow> nat \<Rightarrow> (dpool \<times> dbuffer list \<times> nat) option" where
  "flush_loop p [] len = Some (p, [], 0)"
| "flush_loop p (d # ds) len =
     (case avail d of
        [] \<Rightarrow> None
      | c # cs \<Rightarrow>
          if \<not> IsEol c then Some (p, d # ds, len)
          else if cs = [] then
            flush_loop (dbuf_free p) ds (len - 1)
          else flush_loop p (d\<lparr>db_start := Suc (db_start d)\<rparr> # ds) (len - 1))"
  by pat_completeness auto
termination
  by (relation "measure (\<lambda>(p, ds, len). sum_list (map (\<lambda>d. Suc (length (avail d))) ds))")
    (auto simp: avail_def intro!: diff_less_mono2 dest: drop_eq_ConsD)

definition dbuf_flush :: "dstate \<Rightarrow> dstate option" where
  "dbuf_flush s =
     (let (p, dyn) = s in
      case flush_loop p (db_chain dyn) (db_length dyn) of
        None \<Rightarrow> None
      | Some (p1, ds, len) \<Rightarrow>
          Some (p1, if db_chain dyn = [] then dyn else \<lparr>db_chain = ds, db_length = len\<rparr>))"

text \<open>The scan of \<open>dbuf_getmsg\<close>: the bytes copied to \<open>buf\<close> if an end of line was found.\<close>

fun getmsg_scan :: "dbuffer list \<Rightarrow> nat \<Rightarrow> char list option" where
  "getmsg_scan ds 0 = None"
| "getmsg_scan [] n = None"
| "getmsg_scan (d # ds) (Suc n) =
     (let win = take (Suc n) (avail d); l = takeWhile (\<lambda>c. \<not> IsEol c) win in
      if length l < length win then Some l
      else if ds = [] then None
      else map_option (\<lambda>r. l @ r) (getmsg_scan ds (Suc n - length l)))"

definition dbuf_getmsg :: "dstate \<Rightarrow> nat \<Rightarrow> (char list option \<times> dstate) option" where
  "dbuf_getmsg s n =
     (case dbuf_flush s of
        None \<Rightarrow> None
      | Some s1 \<Rightarrow>
          if db_chain (snd s1) = [] \<or> db_length (snd s1) = 0 then Some (None, s1)
          else case getmsg_scan (db_chain (snd s1)) (min n (db_length (snd s1))) of
            None \<Rightarrow> Some (None, s1)
          | Some l \<Rightarrow>
              (case dbuf_flush (dbuf_delete s1 (length l)) of
                 None \<Rightarrow> None
               | Some s2 \<Rightarrow> Some (Some l, s2)))"

section \<open>Contents and well-formedness\<close>

definition chain_bytes :: "dbuffer list \<Rightarrow> char list" where
  "chain_bytes ds = concat (map avail ds)"

definition dbytes :: "dstate \<Rightarrow> char list" where
  "dbytes s = chain_bytes (db_chain (snd s))"

definition buf_ok :: "dbuffer \<Rightarrow> bool" where
  "buf_ok d \<longleftrightarrow> db_start d < length (db_data d) \<and> length (db_data d) \<le> DBUF_SIZE"

definition dbuf_ok :: "dstate \<Rightarrow> bool" where
  "dbuf_ok s \<longleftrightarrow> list_all buf_ok (db_chain (snd s)) \<and> db_length (snd s) = length (dbytes s) \<and>
     length (db_chain (snd s)) \<le> DBufUsedCount (fst s)"

text \<open>Buffers in use outside this chain: no operation leaks or steals one.\<close>

definition others :: "dpool \<Rightarrow> dbuffer list \<Rightarrow> int" where
  "others p ds = int (DBufUsedCount p) - int (length ds)"

lemma chain_bytes_simps [simp]:
  "chain_bytes [] = []" "chain_bytes (d # ds) = avail d @ chain_bytes ds"
  "chain_bytes (ds @ es) = chain_bytes ds @ chain_bytes es"
  by (simp_all add: chain_bytes_def)

lemma avail_ok: "buf_ok d \<Longrightarrow> avail d \<noteq> []"
  by (simp add: buf_ok_def avail_def)

lemma chain_empty_iff: "list_all buf_ok ds \<Longrightarrow> chain_bytes ds = [] \<longleftrightarrow> ds = []"
  by (cases ds) (auto dest: avail_ok)

lemma dbuf_ok_empty: "dbuf_ok (p, empty_dbuf)"
  by (simp add: dbuf_ok_def empty_dbuf_def dbytes_def)

section \<open>\<open>dbuf_put\<close>\<close>

lemma put_chunk_spec:
  assumes "put_chunk d bs = (d1, rest)" "db_start d \<le> length (db_data d)" "length (db_data d) \<le> DBUF_SIZE"
  shows "avail d1 @ rest = avail d @ bs" "db_start d1 = db_start d"
    "length (db_data d1) \<le> DBUF_SIZE" "length (db_data d) \<le> length (db_data d1)"
    "bs \<noteq> [] \<Longrightarrow> length (db_data d) < DBUF_SIZE \<Longrightarrow> length (db_data d) < length (db_data d1)"
  using assms by (auto simp: put_chunk_def Let_def avail_def min_def)

lemma dbuf_alloc_spec:
  "dbuf_alloc p = (p1, d) \<Longrightarrow> d = \<lparr>db_start = 0, db_data = []\<rparr> \<and> DBufUsedCount p1 = Suc (DBufUsedCount p)"
  by (auto simp: dbuf_alloc_def Let_def)

lemma put_loop_Nil:
  "put_loop p [] bs = (p2, ds2) \<Longrightarrow>
     chain_bytes ds2 = bs \<and> list_all buf_ok ds2 \<and> DBufUsedCount p2 = DBufUsedCount p + length ds2"
proof (induction "length bs" arbitrary: p bs p2 ds2 rule: less_induct)
  case less
  show ?case
  proof (cases bs)
    case Nil
    then show ?thesis using less.prems by simp
  next
    case (Cons b bs')
    obtain p1 d where a: "dbuf_alloc p = (p1, d)" by (cases "dbuf_alloc p")
    obtain d1 rest where c: "put_chunk d bs = (d1, rest)" by (cases "put_chunk d bs")
    obtain p3 ds3 where l: "put_loop p1 [] rest = (p3, ds3)" by (cases "put_loop p1 [] rest")
    have d: "d = \<lparr>db_start = 0, db_data = []\<rparr>" "DBufUsedCount p1 = Suc (DBufUsedCount p)"
      using dbuf_alloc_spec [OF a] by auto
    note cs = put_chunk_spec [OF c]
    have "length rest < length bs"
      using c Cons d by (auto simp: put_chunk_def Let_def DBUF_SIZE_def)
    then have IH: "chain_bytes ds3 = rest \<and> list_all buf_ok ds3 \<and>
        DBufUsedCount p3 = DBufUsedCount p1 + length ds3"
      using less.hyps [OF _ l] by simp
    have "p2 = p3" "ds2 = d1 # ds3"
      using less.prems Cons a c l by (auto split: prod.splits)
    then show ?thesis
      using IH cs d Cons by (auto simp: buf_ok_def avail_def DBUF_SIZE_def)
  qed
qed

lemma put_loop_single:
  assumes "put_loop p [d] bs = (p2, ds2)" "buf_ok d"
  shows "chain_bytes ds2 = avail d @ bs \<and> list_all buf_ok ds2 \<and>
    DBufUsedCount p2 + 1 = DBufUsedCount p + length ds2"
proof (cases bs)
  case Nil
  then show ?thesis using assms by auto
next
  case (Cons b bs')
  obtain d1 rest where c: "put_chunk d bs = (d1, rest)" by (cases "put_chunk d bs")
  obtain p3 ds3 where l: "put_loop p [] rest = (p3, ds3)" by (cases "put_loop p [] rest")
  have "p2 = p3" "ds2 = d1 # ds3" using assms Cons c l by auto
  moreover have "db_start d \<le> length (db_data d)" "length (db_data d) \<le> DBUF_SIZE"
    using assms(2) by (auto simp: buf_ok_def)
  ultimately show ?thesis
    using put_loop_Nil [OF l] put_chunk_spec [OF c] assms(2)
    by (auto simp: buf_ok_def append_assoc [symmetric] simp del: append_assoc)
qed

lemma dbuf_put_spec:
  assumes ok: "dbuf_ok s"
  shows "dbuf_ok (dbuf_put s bs) \<and> dbytes (dbuf_put s bs) = dbytes s @ bs \<and>
    others (fst (dbuf_put s bs)) (db_chain (snd (dbuf_put s bs))) = others (fst s) (db_chain (snd s))"
proof -
  obtain p dyn where s: "s = (p, dyn)" by (cases s)
  have all: "list_all buf_ok (db_chain dyn)" and len: "db_length dyn = length (chain_bytes (db_chain dyn))"
    and used: "length (db_chain dyn) \<le> DBufUsedCount p"
    using ok by (auto simp: dbuf_ok_def dbytes_def s)
  show ?thesis
  proof (cases "db_length dyn = 0")
    case True
    then have "db_chain dyn = []" using all len chain_empty_iff by auto
    moreover obtain p2 ds2 where l: "put_loop p [] bs = (p2, ds2)" by (cases "put_loop p [] bs")
    ultimately show ?thesis
      using put_loop_Nil [OF l] True used
      by (simp add: s dbuf_put_def dbuf_ok_def dbytes_def others_def)
  next
    case False
    then have ne: "db_chain dyn \<noteq> []" using len by auto
    obtain k where k: "length (db_chain dyn) = Suc k" using ne by (cases "db_chain dyn") auto
    obtain p2 ds2 where l: "put_loop p [last (db_chain dyn)] bs = (p2, ds2)"
      by (cases "put_loop p [last (db_chain dyn)] bs")
    have okl: "buf_ok (last (db_chain dyn))" "list_all buf_ok (butlast (db_chain dyn))"
      using all ne by (auto simp: list_all_iff dest: in_set_butlastD)
    have "chain_bytes (butlast (db_chain dyn)) @ avail (last (db_chain dyn)) = chain_bytes (db_chain dyn)"
      using ne by (metis append_butlast_last_id chain_bytes_simps append_Nil2)
    then show ?thesis
      using put_loop_single [OF l okl(1)] False len ne okl used l k
      by (auto simp: s dbuf_put_def dbuf_ok_def dbytes_def others_def
          append_assoc [symmetric] simp del: append_assoc)
  qed
qed

section \<open>\<open>dbuf_map\<close> and \<open>dbuf_delete\<close>\<close>

lemma dbuf_map_spec:
  assumes "dbuf_ok s"
  shows "dbuf_map s = None \<longleftrightarrow> dbytes s = []"
    "dbuf_map s = Some b \<Longrightarrow> b \<noteq> [] \<and> (\<exists>r. dbytes s = b @ r)"
  using assms chain_empty_iff
  by (auto simp: dbuf_ok_def dbuf_map_def dbytes_def avail_ok split: list.splits if_splits)

lemma delete_loop_spec:
  "delete_loop p ds len n = (p1, ds1, len1) \<Longrightarrow> list_all buf_ok ds \<Longrightarrow>
   len = length (chain_bytes ds) \<Longrightarrow> n \<le> len \<Longrightarrow> length ds \<le> DBufUsedCount p \<Longrightarrow>
     chain_bytes ds1 = drop n (chain_bytes ds) \<and> list_all buf_ok ds1 \<and>
     len1 = length (chain_bytes ds1) \<and> length ds1 \<le> DBufUsedCount p1 \<and> others p1 ds1 = others p ds"
proof (induction p ds len n arbitrary: p1 ds1 len1 rule: delete_loop.induct)
  case (3 p d ds len n)
  define chunk where "chunk = min (length (avail d)) (Suc n)"
  let ?d1 = "d\<lparr>db_start := db_start d + chunk\<rparr>"
  have ok: "buf_ok d" using "3.prems" by simp
  have al: "length (avail d) = length (db_data d) - db_start d" "avail d \<noteq> []"
    using ok by (auto simp: avail_def buf_ok_def)
  have "0 < chunk" using al(2) by (simp add: chunk_def)
  show ?case
  proof (cases "db_start ?d1 = length (db_data ?d1)")
    case True
    then have ch: "chunk = length (avail d)" using al ok by (simp add: buf_ok_def)
    then have le: "chunk \<le> Suc n" by (simp add: chunk_def)
    have run: "delete_loop (dbuf_free p) ds (len - chunk) (Suc n - chunk) = (p1, ds1, len1)"
      using "3.prems"(1) True by (simp add: chunk_def Let_def)
    have used: "length ds \<le> DBufUsedCount (dbuf_free p)" "others (dbuf_free p) ds = others p (d # ds)"
      using "3.prems" by (auto simp: dbuf_free_def Let_def others_def)
    have len: "len - chunk = length (chain_bytes ds)" "Suc n - chunk \<le> len - chunk"
      using "3.prems" ch by simp_all
    have IH: "chain_bytes ds1 = drop (Suc n - chunk) (chain_bytes ds) \<and> list_all buf_ok ds1 \<and>
        len1 = length (chain_bytes ds1) \<and> length ds1 \<le> DBufUsedCount p1 \<and>
        others p1 ds1 = others (dbuf_free p) ds"
      using "3.IH"(1) [OF chunk_def refl True run _ len used(1)] "3.prems"(2) by simp
    have "drop (Suc n) (chain_bytes (d # ds)) = drop (Suc n - chunk) (chain_bytes ds)"
      using ch le by simp
    then show ?thesis using IH used(2) by simp
  next
    case False
    then have c: "chunk = Suc n" using al ok by (auto simp: chunk_def buf_ok_def min_def split: if_splits)
    then have "(p1, ds1, len1) = (p, ?d1 # ds, len - Suc n)"
      using "3.prems"(1) False by (simp add: chunk_def Let_def)
    moreover have "avail ?d1 = drop (Suc n) (avail d)" "Suc n \<le> length (avail d)"
      using c by (auto simp: avail_def chunk_def add.commute)
    moreover have "buf_ok ?d1" using False ok al c \<open>Suc n \<le> length (avail d)\<close> by (auto simp: buf_ok_def)
    ultimately show ?thesis using "3.prems" by (auto simp: others_def)
  qed
qed (auto simp: others_def)

lemma dbuf_delete_spec:
  assumes ok: "dbuf_ok s"
  shows "dbuf_ok (dbuf_delete s n) \<and> dbytes (dbuf_delete s n) = drop n (dbytes s) \<and>
    others (fst (dbuf_delete s n)) (db_chain (snd (dbuf_delete s n))) = others (fst s) (db_chain (snd s))"
proof -
  obtain p dyn where s: "s = (p, dyn)" by (cases s)
  obtain p1 ds len where l: "delete_loop p (db_chain dyn) (db_length dyn) (min n (db_length dyn)) = (p1, ds, len)"
    by (metis prod_cases3)
  have "dbuf_delete s n = (p1, \<lparr>db_chain = ds, db_length = (if ds = [] then 0 else len)\<rparr>)"
    by (simp add: s dbuf_delete_def l)
  moreover have "drop (min n (db_length dyn)) (chain_bytes (db_chain dyn)) = drop n (chain_bytes (db_chain dyn))"
    using ok by (auto simp: dbuf_ok_def dbytes_def s min_def)
  ultimately show ?thesis
    using delete_loop_spec [OF l] ok by (auto simp: s dbuf_ok_def dbytes_def)
qed

section \<open>The byte queue interface\<close>

text \<open>
  What the users of \<open>dbuf.h\<close> rely on: a queue of bytes that is extended by \<open>put\<close>, whose
  front is seen by \<open>map\<close> (a non-empty prefix, or nothing when empty) and dropped by
  \<open>delete\<close>.  \<open>dbuf_get\<close> is the first client; the send queue is another.
\<close>

locale byte_queue =
  fixes bytes :: "'q \<Rightarrow> char list"
    and inv :: "'q \<Rightarrow> bool"
    and put :: "'q \<Rightarrow> char list \<Rightarrow> 'q"
    and mp :: "'q \<Rightarrow> char list option"
    and del :: "'q \<Rightarrow> nat \<Rightarrow> 'q"
  assumes put_inv: "inv q \<Longrightarrow> inv (put q b)"
    and put_bytes: "inv q \<Longrightarrow> bytes (put q b) = bytes q @ b"
    and mp_None: "inv q \<Longrightarrow> mp q = None \<longleftrightarrow> bytes q = []"
    and mp_Some: "inv q \<Longrightarrow> mp q = Some b \<Longrightarrow> b \<noteq> [] \<and> (\<exists>r. bytes q = b @ r)"
    and del_inv: "inv q \<Longrightarrow> inv (del q n)"
    and del_bytes: "inv q \<Longrightarrow> bytes (del q n) = drop n (bytes q)"
begin

lemma get_loop_bytes:
  "inv q \<Longrightarrow> n \<le> fuel \<Longrightarrow> get_loop mp del fuel q n = (got, q2) \<Longrightarrow>
     got = take n (bytes q) \<and> inv q2 \<and> bytes q2 = drop n (bytes q)"
proof (induction fuel arbitrary: q n got q2)
  case (Suc fuel)
  show ?case
  proof (cases "n = 0")
    case False
    show ?thesis
    proof (cases "mp q")
      case None
      then show ?thesis using Suc.prems False mp_None [of q] by simp
    next
      case (Some b)
      define chunk where "chunk = min (length b) n"
      obtain r where r: "b \<noteq> []" "bytes q = b @ r" using mp_Some [OF Suc.prems(1) Some] by blast
      obtain moved q3 where l: "get_loop mp del fuel (del q chunk) (n - chunk) = (moved, q3)"
        by (cases "get_loop mp del fuel (del q chunk) (n - chunk)")
      have g: "got = take chunk b @ moved" "q2 = q3"
        using Suc.prems(3) False Some l by (simp_all add: chunk_def Let_def)
      have c: "chunk \<le> n" "0 < chunk" using r(1) False by (simp_all add: chunk_def)
      have f: "n - chunk \<le> fuel" using c Suc.prems(2) by linarith
      have IH: "moved = take (n - chunk) (bytes (del q chunk)) \<and> inv q3 \<and>
          bytes q3 = drop (n - chunk) (bytes (del q chunk))"
        by (rule Suc.IH [OF del_inv [OF Suc.prems(1)] f l])
      have d: "bytes (del q chunk) = drop chunk (bytes q)" by (rule del_bytes [OF Suc.prems(1)])
      have "take chunk b = take chunk (bytes q)" using r(2) by (simp add: chunk_def)
      then have "got = take (chunk + (n - chunk)) (bytes q)"
        using g(1) IH d by (simp only: take_add)
      moreover have "bytes q3 = drop (n - chunk + chunk) (bytes q)"
        using IH d by (simp only: drop_drop)
      ultimately show ?thesis using g(2) IH c(1) by simp
    qed
  qed (use Suc.prems in simp)
qed simp

end

interpretation dbuf: byte_queue dbytes dbuf_ok dbuf_put dbuf_map dbuf_delete
  by unfold_locales (use dbuf_put_spec dbuf_map_spec dbuf_delete_spec in blast)+

lemma dbuf_get_spec:
  assumes "dbuf_ok s" "dbuf_get s n = (got, s2)"
  shows "got = take n (dbytes s) \<and> dbuf_ok s2 \<and> dbytes s2 = drop n (dbytes s)"
  using dbuf.get_loop_bytes [OF assms(1) order_refl] assms(2) by (simp add: dbuf_get_def)

section \<open>\<open>dbuf_flush\<close> and \<open>dbuf_getmsg\<close>\<close>

lemma flush_loop_spec:
  "list_all buf_ok ds \<Longrightarrow> len = length (chain_bytes ds) \<Longrightarrow> length ds \<le> DBufUsedCount p \<Longrightarrow>
   \<exists>p1 ds1. flush_loop p ds len = Some (p1, ds1, length (chain_bytes ds1)) \<and>
     chain_bytes ds1 = dropWhile IsEol (chain_bytes ds) \<and> list_all buf_ok ds1 \<and>
     length ds1 \<le> DBufUsedCount p1 \<and> others p1 ds1 = others p ds"
proof (induction p ds len rule: flush_loop.induct)
  case (2 p d ds len)
  have ok: "buf_ok d" "list_all buf_ok ds" using "2.prems" by simp_all
  obtain c cs where a: "avail d = c # cs" using avail_ok [OF ok(1)] by (cases "avail d") auto
  have lt: "db_start d < length (db_data d)" using ok by (simp add: buf_ok_def)
  have cs: "cs = drop (Suc (db_start d)) (db_data d)"
    using a lt by (simp add: avail_def Cons_nth_drop_Suc [symmetric])
  show ?case
  proof (cases "IsEol c")
    case False
    then show ?thesis using a "2.prems" by (intro exI [of _ p] exI [of _ "d # ds"]) simp
  next
    case eol: True
    show ?thesis
    proof (cases "cs = []")
      case True
      have p: "len - 1 = length (chain_bytes ds)" "length ds \<le> DBufUsedCount (dbuf_free p)"
        "others (dbuf_free p) ds = others p (d # ds)"
        using "2.prems" a True by (auto simp: dbuf_free_def Let_def others_def)
      show ?thesis using "2.IH"(1) [OF a _ True ok(2) p(1,2)] p(3) eol True a by simp
    next
      case False
      let ?d1 = "d\<lparr>db_start := Suc (db_start d)\<rparr>"
      have d1: "avail ?d1 = cs" "buf_ok ?d1"
        using cs False lt ok by (auto simp: avail_def buf_ok_def)
      have p: "len - 1 = length (chain_bytes (?d1 # ds))" "length (?d1 # ds) \<le> DBufUsedCount p"
        "others p (?d1 # ds) = others p (d # ds)" "list_all buf_ok (?d1 # ds)"
        using "2.prems" a d1 by (auto simp: others_def)
      show ?thesis using "2.IH"(2) [OF a _ False p(4,1,2)] p(3) eol False a d1 by simp
    qed
  qed
qed (auto simp: others_def)

lemma dbuf_flush_spec:
  assumes ok: "dbuf_ok s"
  obtains s1 where "dbuf_flush s = Some s1" "dbuf_ok s1" "dbytes s1 = dropWhile IsEol (dbytes s)"
    "others (fst s1) (db_chain (snd s1)) = others (fst s) (db_chain (snd s))"
proof -
  obtain p dyn where s: "s = (p, dyn)" by (cases s)
  have w: "list_all buf_ok (db_chain dyn)" "db_length dyn = length (chain_bytes (db_chain dyn))"
    "length (db_chain dyn) \<le> DBufUsedCount p"
    using ok by (auto simp: dbuf_ok_def dbytes_def s)
  obtain p1 ds1 where f: "flush_loop p (db_chain dyn) (db_length dyn) = Some (p1, ds1, length (chain_bytes ds1))"
    and r: "chain_bytes ds1 = dropWhile IsEol (chain_bytes (db_chain dyn))" "list_all buf_ok ds1"
    "length ds1 \<le> DBufUsedCount p1" "others p1 ds1 = others p (db_chain dyn)"
    using flush_loop_spec [OF w] by blast
  show ?thesis
  proof (cases "db_chain dyn = []")
    case True
    then show ?thesis using f w r that [of "(p, dyn)"] ok by (simp add: s dbuf_flush_def dbytes_def)
  next
    case False
    then show ?thesis
      using f r that [of "(p1, \<lparr>db_chain = ds1, db_length = length (chain_bytes ds1)\<rparr>)"]
      by (simp add: s dbuf_flush_def dbytes_def dbuf_ok_def)
  qed
qed

text \<open>A line is found when an end of line stands among the first \<open>n\<close> bytes.\<close>

definition find_line :: "char list \<Rightarrow> nat \<Rightarrow> char list option" where
  "find_line b n =
     (let l = takeWhile (\<lambda>c. \<not> IsEol c) b in if length l < min n (length b) then Some l else None)"

lemma find_line_append:
  assumes "\<forall>c \<in> set b. \<not> IsEol c"
  shows "find_line (b @ r) n = map_option (\<lambda>l. b @ l) (find_line r (n - length b))"
proof -
  have "takeWhile (\<lambda>c. \<not> IsEol c) (b @ r) = b @ takeWhile (\<lambda>c. \<not> IsEol c) r"
    using assms by (simp add: takeWhile_append2)
  then show ?thesis by (auto simp: find_line_def Let_def)
qed

lemma takeWhile_take:
  "takeWhile P (take n xs) = take n (takeWhile P xs)"
  by (induction xs arbitrary: n) (auto simp: take_Cons split: nat.splits)

lemma find_line_prefix:
  assumes "length (takeWhile (\<lambda>c. \<not> IsEol c) (take n b)) < length (take n b)"
  shows "find_line (b @ r) n = Some (takeWhile (\<lambda>c. \<not> IsEol c) (take n b))"
proof -
  let ?l = "takeWhile (\<lambda>c. \<not> IsEol c) b"
  have lt: "min n (length ?l) < min n (length b)" using assms by (simp add: takeWhile_take min.commute)
  then have l: "length ?l < length b" "length ?l < n" by linarith+
  have "\<exists>x \<in> set b. IsEol x"
  proof (rule ccontr)
    assume "\<not> ?thesis"
    then have "?l = b" by (simp add: takeWhile_eq_all_conv)
    then show False using l by (metis less_irrefl)
  qed
  then have "takeWhile (\<lambda>c. \<not> IsEol c) (b @ r) = ?l" by (auto simp: takeWhile_append1)
  then show ?thesis using l by (auto simp: find_line_def Let_def takeWhile_take)
qed

lemma getmsg_scan_spec:
  "list_all buf_ok ds \<Longrightarrow> getmsg_scan ds n = find_line (chain_bytes ds) n"
proof (induction ds n rule: getmsg_scan.induct)
  case (3 d ds n)
  let ?w = "take (Suc n) (avail d)" and ?l = "takeWhile (\<lambda>c. \<not> IsEol c) (take (Suc n) (avail d))"
  show ?case
  proof (cases "length ?l < length ?w")
    case True
    then show ?thesis using find_line_prefix [OF True] by (simp add: Let_def)
  next
    case False
    then have lw: "?l = ?w"
      using length_takeWhile_le [of _ ?w] by (metis le_neq_implies_less takeWhile_eq_take take_all_iff not_le)
    then have no: "\<forall>c \<in> set ?w. \<not> IsEol c" by (metis takeWhile_eq_all_conv)
    have IH: "ds \<noteq> [] \<Longrightarrow> getmsg_scan ds (Suc n - length ?l) = find_line (chain_bytes ds) (Suc n - length ?l)"
      using "3.IH" [OF refl refl False] "3.prems" by simp
    have eq: "getmsg_scan (d # ds) (Suc n) = (if ds = [] then None
          else map_option (\<lambda>r. ?l @ r) (getmsg_scan ds (Suc n - length ?l)))"
        by (simp only: getmsg_scan.simps Let_def False if_False)
    show ?thesis
    proof (cases "Suc n < length (avail d)")
      case True
      then have "takeWhile (\<lambda>c. \<not> IsEol c) (avail d @ chain_bytes ds) =
          ?w @ takeWhile (\<lambda>c. \<not> IsEol c) (drop (Suc n) (avail d) @ chain_bytes ds)"
        using no by (metis append_assoc append_take_drop_id takeWhile_append2)
      then have "find_line (avail d @ chain_bytes ds) (Suc n) = None"
        using True by (simp add: find_line_def Let_def)
      moreover have "length ?l = Suc n" using True by (subst lw) simp
      ultimately show ?thesis using eq by (simp del: getmsg_scan.simps(3))
    next
      case all: False
      then have w: "?w = avail d" by simp
      have "find_line (avail d @ chain_bytes ds) (Suc n) =
          map_option (\<lambda>l. avail d @ l) (find_line (chain_bytes ds) (Suc n - length (avail d)))"
        using no w by (intro find_line_append) simp
      moreover have l2: "?l = avail d" by (rule trans [OF lw w])
      moreover have "ds \<noteq> [] \<Longrightarrow> getmsg_scan ds (Suc n - length (avail d)) =
          find_line (chain_bytes ds) (Suc n - length (avail d))"
        using IH unfolding l2 by blast
      moreover have "getmsg_scan (d # ds) (Suc n) = (if ds = [] then None
          else map_option (\<lambda>r. avail d @ r) (getmsg_scan ds (Suc n - length (avail d))))"
        using eq by (simp only: l2)
      moreover have "find_line [] k = None" for k by (simp add: find_line_def)
      ultimately show ?thesis by (cases "ds = []") (simp_all del: getmsg_scan.simps)
    qed
  qed
qed (simp_all add: find_line_def)

text \<open>The abstract operation on the stored bytes: the line returned and what stays queued.\<close>

definition next_line :: "char list \<Rightarrow> nat \<Rightarrow> char list option \<times> char list" where
  "next_line b n =
     (let b1 = dropWhile IsEol b in
      case find_line b1 n of
        None \<Rightarrow> (None, b1)
      | Some l \<Rightarrow> (Some l, dropWhile IsEol (drop (length l) b1)))"

lemma find_line_min: "find_line b (min n (length b)) = find_line b n"
  by (simp add: find_line_def)

lemma dbuf_getmsg_spec:
  assumes ok: "dbuf_ok s"
  obtains s2 where "dbuf_getmsg s n = Some (fst (next_line (dbytes s) n), s2)"
    "dbytes s2 = snd (next_line (dbytes s) n)" "dbuf_ok s2"
proof -
  obtain s1 where f: "dbuf_flush s = Some s1" and ok1: "dbuf_ok s1"
    and b1: "dbytes s1 = dropWhile IsEol (dbytes s)"
    using dbuf_flush_spec [OF ok] by blast
  have w: "list_all buf_ok (db_chain (snd s1))" "db_length (snd s1) = length (dbytes s1)"
    using ok1 by (simp_all add: dbuf_ok_def)
  have scan: "getmsg_scan (db_chain (snd s1)) (min n (db_length (snd s1))) = find_line (dbytes s1) n"
    using getmsg_scan_spec [OF w(1)] w(2) by (simp add: dbytes_def [symmetric] find_line_min)
  have empty: "db_chain (snd s1) = [] \<or> db_length (snd s1) = 0 \<longleftrightarrow> dbytes s1 = []"
    using w chain_empty_iff [OF w(1)] by (auto simp: dbytes_def)
  show ?thesis
  proof (cases "dbytes s1 = []")
    case True
    then have "next_line (dbytes s) n = (None, [])"
      using b1 by (simp add: next_line_def find_line_def Let_def del: dropWhile_eq_Nil_conv)
    then show ?thesis using that [of s1] f empty True ok1 by (simp add: dbuf_getmsg_def)
  next
    case ne: False
    show ?thesis
    proof (cases "find_line (dbytes s1) n")
      case None
      then show ?thesis using that [of s1] f empty ne b1 ok1 scan
        by (simp add: dbuf_getmsg_def next_line_def)
    next
      case (Some l)
      note d = dbuf_delete_spec [OF ok1, of "length l"]
      obtain s2 where "dbuf_flush (dbuf_delete s1 (length l)) = Some s2" "dbuf_ok s2"
        "dbytes s2 = dropWhile IsEol (dbytes (dbuf_delete s1 (length l)))"
        using dbuf_flush_spec [OF d [THEN conjunct1]] by blast
      moreover have "next_line (dbytes s) n = (Some l, dropWhile IsEol (drop (length l) (dbytes s1)))"
        using Some b1 by (simp add: next_line_def)
      ultimately show ?thesis using that [of s2] f empty ne scan Some d
        by (simp add: dbuf_getmsg_def)
    qed
  qed
qed

section \<open>Reading a stream of messages\<close>

text \<open>The reader of a client's receive queue: call \<open>dbuf_getmsg\<close> while it returns a line.\<close>

fun read_msgs :: "nat \<Rightarrow> nat \<Rightarrow> dstate \<Rightarrow> (char list list \<times> dstate) option" where
  "read_msgs 0 n s = Some ([], s)"
| "read_msgs (Suc fuel) n s =
     (case dbuf_getmsg s n of
        None \<Rightarrow> None
      | Some (None, s1) \<Rightarrow> Some ([], s1)
      | Some (Some l, s1) \<Rightarrow> map_option (\<lambda>(ls, s2). (l # ls, s2)) (read_msgs fuel n s1))"

definition eols :: "char list \<Rightarrow> bool" where
  "eols e \<longleftrightarrow> e \<noteq> [] \<and> (\<forall>c \<in> set e. IsEol c)"

definition msg_text :: "nat \<Rightarrow> char list \<Rightarrow> bool" where
  "msg_text n l \<longleftrightarrow> l \<noteq> [] \<and> length l < n \<and> (\<forall>c \<in> set l. \<not> IsEol c)"

lemma dropWhile_eols: "\<forall>c \<in> set e. IsEol c \<Longrightarrow> dropWhile IsEol (e @ b) = dropWhile IsEol b"
  by (induction e) auto

lemma next_line_frame:
  assumes "msg_text n l" "eols e"
  shows "next_line (l @ e @ b) n = (Some l, dropWhile IsEol b)"
proof -
  obtain c e' where e: "e = c # e'" "IsEol c" using assms(2) by (cases e) (auto simp: eols_def)
  obtain d l' where l: "l = d # l'" "\<not> IsEol d" using assms(1) by (cases l) (auto simp: msg_text_def)
  have "takeWhile (\<lambda>c. \<not> IsEol c) (l @ e @ b) = l"
    using assms(1) e by (simp add: msg_text_def takeWhile_append2)
  moreover have "dropWhile IsEol (l @ e @ b) = l @ e @ b" using l by simp
  ultimately show ?thesis
    using assms dropWhile_eols [of e b] e by (simp add: next_line_def find_line_def msg_text_def eols_def Let_def)
qed

lemma next_line_skip: "next_line (dropWhile IsEol b) n = next_line b n"
  by (simp add: next_line_def)

lemma next_line_bytes_cong:
  "dropWhile IsEol b = dropWhile IsEol b' \<Longrightarrow> next_line b n = next_line b' n"
  by (metis next_line_skip)

lemma read_msgs_frames:
  "list_all (\<lambda>(l, e). msg_text n l \<and> eols e) fs \<Longrightarrow> dbuf_ok s \<Longrightarrow>
   dropWhile IsEol (dbytes s) = concat (map (\<lambda>(l, e). l @ e) fs) \<Longrightarrow> length fs < fuel \<Longrightarrow>
   \<exists>s2. read_msgs fuel n s = Some (map fst fs, s2) \<and> dbytes s2 = []"
proof (induction fs arbitrary: s fuel)
  case Nil
  obtain k where k: "fuel = Suc k" using Nil.prems(4) by (cases fuel) auto
  have "next_line (dbytes s) n = (None, [])"
    using Nil.prems(3) by (simp add: next_line_def find_line_def Let_def del: dropWhile_eq_Nil_conv)
  then show ?case using dbuf_getmsg_spec [OF Nil.prems(2), of n] k by fastforce
next
  case (Cons f fs)
  obtain l e where f: "f = (l, e)" by (cases f)
  obtain k where k: "fuel = Suc k" using Cons.prems(4) by (cases fuel) auto
  let ?b = "concat (map (\<lambda>(l, e). l @ e) fs)"
  have le: "msg_text n l" "eols e" using Cons.prems(1) f by simp_all
  have b: "dropWhile IsEol (dbytes s) = l @ e @ ?b" using Cons.prems(3) f by simp
  have nl: "next_line (dbytes s) n = (Some l, dropWhile IsEol ?b)"
    using next_line_frame [OF le] b by (metis next_line_skip)
  have nb: "dropWhile IsEol ?b = ?b"
  proof (cases fs)
    case (Cons g gs)
    then show ?thesis using \<open>list_all _ (f # fs)\<close> by (cases "fst g") (auto simp: msg_text_def)
  qed simp
  obtain s2 where g: "dbuf_getmsg s n = Some (Some l, s2)" and s2: "dbytes s2 = ?b" "dbuf_ok s2"
    using dbuf_getmsg_spec [OF Cons.prems(2), of n] nl nb by (metis fst_conv snd_conv)
  have "\<exists>s3. read_msgs k n s2 = Some (map fst fs, s3) \<and> dbytes s3 = []"
    using Cons.IH [of s2 k] Cons.prems(1,4) s2 nb k by (simp del: dropWhile_eq_self_iff)
  then show ?case using g k f by auto
qed

lemma dbuf_put_chunks:
  "dbuf_ok s \<Longrightarrow> dbuf_ok (foldl dbuf_put s cs) \<and> dbytes (foldl dbuf_put s cs) = dbytes s @ concat cs"
  by (induction cs arbitrary: s) (simp_all add: dbuf_put_spec)

section \<open>Runs of operations\<close>

text \<open>Any interleaving of the writer and the readers, and the same operations on a plain list of bytes.\<close>

datatype queue_op = QPut "char list" | QGet nat | QDelete nat | QClear

fun dbuf_run :: "queue_op list \<Rightarrow> dstate \<Rightarrow> char list list \<times> dstate" where
  "dbuf_run [] s = ([], s)"
| "dbuf_run (QPut b # ops) s = dbuf_run ops (dbuf_put s b)"
| "dbuf_run (QGet n # ops) s =
     (let (got, s1) = dbuf_get s n; (gots, s2) = dbuf_run ops s1 in (got # gots, s2))"
| "dbuf_run (QDelete n # ops) s = dbuf_run ops (dbuf_delete s n)"
| "dbuf_run (QClear # ops) s = dbuf_run ops (dbuf_clear s)"

fun bytes_run :: "queue_op list \<Rightarrow> char list \<Rightarrow> char list list \<times> char list" where
  "bytes_run [] q = ([], q)"
| "bytes_run (QPut b # ops) q = bytes_run ops (q @ b)"
| "bytes_run (QGet n # ops) q = (let (gots, q2) = bytes_run ops (drop n q) in (take n q # gots, q2))"
| "bytes_run (QDelete n # ops) q = bytes_run ops (drop n q)"
| "bytes_run (QClear # ops) q = bytes_run ops []"

lemma dbuf_clear_spec: "dbuf_ok s \<Longrightarrow> dbuf_ok (dbuf_clear s) \<and> dbytes (dbuf_clear s) = []"
  using dbuf_delete_spec [of s "db_length (snd s)"] by (simp add: dbuf_clear_def dbuf_ok_def)

lemma dbuf_run_spec:
  "dbuf_ok s \<Longrightarrow> fst (dbuf_run ops s) = fst (bytes_run ops (dbytes s)) \<and>
     dbytes (snd (dbuf_run ops s)) = snd (bytes_run ops (dbytes s)) \<and> dbuf_ok (snd (dbuf_run ops s))"
proof (induction ops s rule: dbuf_run.induct)
  case (3 n ops s)
  obtain got s1 where g: "dbuf_get s n = (got, s1)" by (cases "dbuf_get s n")
  show ?case using 3(1) [OF g [symmetric] refl] dbuf_get_spec [OF 3(2) g] by (simp add: g split_beta)
qed (use dbuf_put_spec dbuf_delete_spec dbuf_clear_spec in \<open>simp_all\<close>)

section \<open>Properties\<close>

text \<open>C33 (the queue is first in, first out).
  A well-formed buffer, wherever in its first block the unread bytes start and however full its last
  block is, refines the plain list \<open>dbytes\<close> of its unread bytes: \<open>dbuf_put\<close> appends to it, \<open>dbuf_get\<close>
  returns its front and leaves the rest, \<open>dbuf_delete\<close> drops from the front, \<open>dbuf_map\<close> shows a
  non-empty part of the front unless nothing is queued, and \<open>length\<close> counts it; every operation
  leaves a well-formed buffer.  So any run of operations hands out what the list hands out.\<close>

theorem dbuf_fifo:
  assumes "dbuf_ok s"
  shows "dbytes (dbuf_put s b) = dbytes s @ b \<and> dbuf_ok (dbuf_put s b) \<and>
    fst (dbuf_get s n) = take n (dbytes s) \<and> dbytes (snd (dbuf_get s n)) = drop n (dbytes s) \<and> dbuf_ok (snd (dbuf_get s n)) \<and>
    dbytes (dbuf_delete s n) = drop n (dbytes s) \<and> dbuf_ok (dbuf_delete s n) \<and>
    (case dbuf_map s of None \<Rightarrow> dbytes s = [] | Some m \<Rightarrow> m \<noteq> [] \<and> m = take (length m) (dbytes s)) \<and>
    db_length (snd s) = length (dbytes s) \<and>
    fst (dbuf_run ops s) = fst (bytes_run ops (dbytes s)) \<and> dbytes (snd (dbuf_run ops s)) = snd (bytes_run ops (dbytes s))"
proof -
  have "case dbuf_map s of None \<Rightarrow> dbytes s = [] | Some m \<Rightarrow> m \<noteq> [] \<and> m = take (length m) (dbytes s)"
    using dbuf_map_spec [OF assms] by (fastforce split: option.split)
  moreover have "db_length (snd s) = length (dbytes s)" using assms by (simp add: dbuf_ok_def)
  ultimately show ?thesis
    using dbuf_put_spec [OF assms, of b] dbuf_delete_spec [OF assms, of n] dbuf_run_spec [OF assms, of ops]
      dbuf_get_spec [OF assms prod.collapse [symmetric], of n] by blast
qed

theorem dbuf_fifo_witness:
  "fst (dbuf_run [QPut ''PING a'', QGet 2, QPut ''bc'', QDelete 1, QGet 9] (dbuf_init, empty_dbuf)) = [''PI'', ''G abc'']"
  using dbuf_fifo [OF dbuf_ok_empty [of dbuf_init], of "[]" 0 "[QPut ''PING a'', QGet 2, QPut ''bc'', QDelete 1, QGet 9]"]
  by (simp add: dbytes_def empty_dbuf_def)

text \<open>C15 (message framing).
  Whatever the pieces in which a stream of messages arrives, \<open>dbuf_getmsg\<close> hands back
  exactly the messages: for non-empty texts shorter than the line limit, each followed by a
  non-empty run of CR and LF, the calls return the texts in order and leave nothing queued.\<close>

theorem dbuf_message_framing:
  assumes "list_all (\<lambda>(l, e). msg_text n l \<and> eols e) fs" "concat cs = concat (map (\<lambda>(l, e). l @ e) fs)"
  shows "\<exists>s2. read_msgs (Suc (length fs)) n (foldl dbuf_put (p, empty_dbuf) cs) = Some (map fst fs, s2) \<and>
    dbytes s2 = []"
proof -
  have "dbuf_ok (foldl dbuf_put (p, empty_dbuf) cs)" "dbytes (foldl dbuf_put (p, empty_dbuf) cs) = concat cs"
    using dbuf_put_chunks [OF dbuf_ok_empty, of p cs] by (simp_all add: dbytes_def empty_dbuf_def)
  moreover have "dropWhile IsEol (concat cs) = concat cs"
  proof (cases fs)
    case (Cons f r)
    then show ?thesis using assms by (cases "fst f") (auto simp: msg_text_def split: prod.splits)
  next
    case Nil
    then have "concat cs = []" using assms by simp
    then show ?thesis by (simp only: dropWhile.simps)
  qed
  ultimately show ?thesis using read_msgs_frames assms by (metis lessI)
qed

theorem dbuf_message_framing_witness:
  "\<exists>s2. read_msgs 3 512 (foldl dbuf_put (dbuf_init, empty_dbuf) [''PI'', ''NG\<newline>'', ''NICK a'', [CHR 0x0d], ''\<newline>'']) =
     Some ([''PING'', ''NICK a''], s2) \<and> dbytes s2 = []"
  using dbuf_message_framing [of 512 "[(''PING'', ''\<newline>''), (''NICK a'', CHR 0x0d # ''\<newline>'')]"
      "[''PI'', ''NG\<newline>'', ''NICK a'', [CHR 0x0d], ''\<newline>'']" dbuf_init]
  by (simp add: msg_text_def eols_def IsEol_iff code_def numeral_3_eq_3)

text \<open>One message. On a well formed chain \<open>dbuf_getmsg\<close> never trips an assertion or reads past the stored
  bytes: it drops leading CRs and LFs, returns the text up to the first end of line when
  there is one among the first \<open>n\<close> bytes, drops it with its line ends, and otherwise returns
  nothing and keeps the text.\<close>

theorem dbuf_getmsg_refines:
  assumes "dbuf_ok s"
  shows "\<exists>s2. dbuf_getmsg s n = Some (fst (next_line (dbytes s) n), s2) \<and>
    dbytes s2 = snd (next_line (dbytes s) n) \<and> dbuf_ok s2"
  using dbuf_getmsg_spec [OF assms] by metis

theorem dbuf_getmsg_refines_witness:
  "\<exists>s2. dbuf_getmsg (dbuf_put (dbuf_init, empty_dbuf) ''\<newline>QUIT\<newline>X'') 512 = Some (Some ''QUIT'', s2) \<and>
     dbytes s2 = ''X'' \<and> dbuf_ok s2"
  using dbuf_getmsg_refines [of "dbuf_put (dbuf_init, empty_dbuf) ''\<newline>QUIT\<newline>X''" 512]
    dbuf_put_spec [OF dbuf_ok_empty, of dbuf_init "''\<newline>QUIT\<newline>X''"]
  by (simp add: dbytes_def empty_dbuf_def next_line_def find_line_def IsEol_iff code_def)

text \<open>Buffer pool. No operation leaks a buffer or frees one twice: buffers in use outside the chain are the
  same before and after a put and a delete.\<close>

theorem dbuf_pool_conserved:
  assumes "dbuf_ok s"
  shows "others (fst (dbuf_put s b)) (db_chain (snd (dbuf_put s b))) = others (fst s) (db_chain (snd s)) \<and>
    others (fst (dbuf_delete s n)) (db_chain (snd (dbuf_delete s n))) = others (fst s) (db_chain (snd s))"
  using dbuf_put_spec [OF assms] dbuf_delete_spec [OF assms] by simp

theorem dbuf_pool_conserved_witness:
  "others (fst (dbuf_put (dbuf_init, empty_dbuf) ''PING'')) (db_chain (snd (dbuf_put (dbuf_init, empty_dbuf) ''PING''))) = 0"
  using dbuf_pool_conserved [OF dbuf_ok_empty, of dbuf_init "''PING''" 0]
  by (simp add: others_def dbuf_init_def empty_dbuf_def)

end
