(* ===== verification/IrcString.thy ===== *)
theory IrcString
  imports CharTab
begin

text \<open>
  String utilities, \<open>src/irc_string.c\<close> and \<open>canonize\<close>: bounded copy, tokens, the cleaning
  of strings shown to operators, dotted quads and the removal of duplicate list entries.
  \<open>atoi\<close> and the decimal format of \<open>%d\<close> are the C library's; a number outside the range
  of \<open>int\<close> is undefined there and read as an unbounded integer here.
\<close>

section \<open>Numbers\<close>

definition digit_char :: "nat \<Rightarrow> char" where
  "digit_char d = char_of (48 + d)"

fun dec :: "nat \<Rightarrow> cstr" where
  "dec n = (if n < 10 then [digit_char n] else dec (n div 10) @ [digit_char (n mod 10)])"

declare dec.simps [simp del]

definition dec_int :: "int \<Rightarrow> cstr" where
  "dec_int i = (if i < 0 then CHR ''-'' # dec (nat (- i)) else dec (nat i))"

fun read_digits :: "nat \<Rightarrow> cstr \<Rightarrow> nat" where
  "read_digits acc [] = acc"
| "read_digits acc (c # s) =
     (if 48 \<le> code c \<and> code c \<le> 57 then read_digits (10 * acc + (code c - 48)) s else acc)"

definition atoi :: "cstr \<Rightarrow> int" where
  "atoi s =
     (case dropWhile IsSpace s of
        [] \<Rightarrow> 0
      | c # r \<Rightarrow>
          if c = CHR ''-'' then - int (read_digits 0 r)
          else if c = CHR ''+'' then int (read_digits 0 r)
          else int (read_digits 0 (c # r)))"

lemma code_digit_char [simp]: "d < 10 \<Longrightarrow> code (digit_char d) = 48 + d"
  by (simp add: digit_char_def code_char_of)

lemma read_digits_append:
  "\<forall>c \<in> set s. 48 \<le> code c \<and> code c \<le> 57 \<Longrightarrow> read_digits acc (s @ t) = read_digits (read_digits acc s) t"
  by (induction acc s rule: read_digits.induct) simp_all

lemma mod10_le9 [simp]: "(n :: nat) mod 10 \<le> 9"
  using mod_less_divisor [of 10 n] by linarith

lemma dec_digits: "\<forall>c \<in> set (dec n). 48 \<le> code c \<and> code c \<le> 57"
proof (induction n rule: dec.induct)
  case (1 n)
  show ?case by (subst dec.simps) (use 1 in simp)
qed

lemma read_digits_dec: "read_digits 0 (dec n) = n"
proof (induction n rule: dec.induct)
  case (1 n)
  show ?case
    by (subst dec.simps) (use 1 dec_digits [of "n div 10"] in \<open>simp add: read_digits_append\<close>)
qed

lemma dec_nonempty [simp]: "dec n \<noteq> []"
  by (subst dec.simps) simp

lemma atoi_dec: "atoi (dec n) = int n"
proof -
  obtain c r where c: "dec n = c # r" by (cases "dec n") simp_all
  then have "48 \<le> code c" "code c \<le> 57" using dec_digits [of n] by simp_all
  then have "\<not> IsSpace c" "c \<noteq> CHR ''-''" "c \<noteq> CHR ''+''"
    by (auto simp: IsSpace_iff) (simp_all add: code_def)
  then show ?thesis using read_digits_dec [of n] c by (simp add: atoi_def)
qed

lemma length_dec: "n < 10 ^ k \<Longrightarrow> 0 < k \<Longrightarrow> length (dec n) \<le> k"
proof (induction k arbitrary: n)
  case (Suc k)
  show ?case
  proof (cases "n < 10")
    case False
    then have "k \<noteq> 0" using Suc.prems by (cases k) auto
    moreover have "n div 10 < 10 ^ k" using Suc.prems by (simp add: less_mult_imp_div_less mult.commute)
    ultimately have "length (dec (n div 10)) \<le> k" using Suc.IH by simp
    then show ?thesis using False by (subst dec.simps) simp
  qed (subst dec.simps, simp)
qed simp

section \<open>Bounded copy\<close>

text \<open>
  \<open>strncpy_irc(s1, s2, n)\<close> on the bytes of \<open>s1\<close>: copies up to and including the NUL, at
  most \<open>n\<close> bytes, and adds no NUL of its own.
\<close>

definition strncpy_irc :: "char list \<Rightarrow> cstr \<Rightarrow> nat \<Rightarrow> char list" where
  "strncpy_irc s1 s2 n = (let w = take n (s2 @ [NUL]) in w @ drop (length w) s1)"

definition c_str :: "char list \<Rightarrow> cstr" where
  "c_str b = takeWhile (\<lambda>c. c \<noteq> NUL) b"

lemma takeWhile_cstring: "cstring s \<Longrightarrow> takeWhile (\<lambda>c. c \<noteq> NUL) s = s"
  by (auto simp: takeWhile_eq_all_conv cstring_def)

lemma takeWhile_cstring_append:
  "cstring s \<Longrightarrow> takeWhile (\<lambda>c. c \<noteq> NUL) (s @ t) = s @ takeWhile (\<lambda>c. c \<noteq> NUL) t"
  by (rule takeWhile_append2) (auto simp: cstring_def)

lemma cstring_take: "cstring s \<Longrightarrow> cstring (take n s)"
  by (auto simp: cstring_def dest: in_set_takeD)

text \<open>A field of \<open>n + 1\<close> bytes whose last byte is NUL holds the first \<open>n\<close> bytes of the source.\<close>

lemma strncpy_irc_field:
  assumes "cstring s" "n < length b" "b ! n = NUL"
  shows "c_str (strncpy_irc b s n) = take n s" "length (strncpy_irc b s n) = length b"
    "strncpy_irc b s n ! n = NUL"
proof -
  show "length (strncpy_irc b s n) = length b"
    using assms by (simp add: strncpy_irc_def Let_def)
  have "drop n b = NUL # drop (Suc n) b" using assms by (simp add: Cons_nth_drop_Suc [symmetric])
  then show "c_str (strncpy_irc b s n) = take n s"
    using assms by (cases "length s < n")
      (simp_all add: strncpy_irc_def c_str_def takeWhile_cstring_append cstring_take Let_def)
  show "strncpy_irc b s n ! n = NUL"
    using assms by (cases "length s < n") (auto simp: strncpy_irc_def nth_append Let_def min_def)
qed

section \<open>Tokens\<close>

text \<open>
  \<open>strtoken\<close>: \<open>save\<close> is the saved position (what is left of the string, \<open>None\<close> for a null
  pointer), \<open>str\<close> the string of a new scan.
\<close>

definition strtoken :: "cstr option \<Rightarrow> cstr option \<Rightarrow> cstr \<Rightarrow> cstr option \<times> cstr option" where
  "strtoken save str fs =
     (let pos = (case str of Some s \<Rightarrow> Some s | None \<Rightarrow> save) in
      case pos of
        None \<Rightarrow> (None, None)
      | Some s \<Rightarrow>
          (case dropWhile (\<lambda>c. c \<in> set fs) s of
             [] \<Rightarrow> (None, None)
           | s1 \<Rightarrow>
               (Some (takeWhile (\<lambda>c. c \<notin> set fs) s1),
                case dropWhile (\<lambda>c. c \<notin> set fs) s1 of [] \<Rightarrow> None | _ # r \<Rightarrow> Some r)))"

lemma strtoken_rest:
  assumes "strtoken p q fs = (a, Some r)"
  obtains s where "(case q of Some s \<Rightarrow> Some s | None \<Rightarrow> p) = Some s" "length r < length s"
proof -
  obtain s where s: "(case q of Some s \<Rightarrow> Some s | None \<Rightarrow> p) = Some s"
    using assms by (cases "case q of Some s \<Rightarrow> Some s | None \<Rightarrow> p") (simp_all add: strtoken_def)
  obtain x xs where x: "dropWhile (\<lambda>c. c \<in> set fs) s = x # xs"
    using assms s by (cases "dropWhile (\<lambda>c. c \<in> set fs) s") (simp_all add: strtoken_def)
  obtain c where c: "dropWhile (\<lambda>c. c \<notin> set fs) (x # xs) = c # r"
    using assms s x
    by (cases "dropWhile (\<lambda>c. c \<notin> set fs) (x # xs)") (simp_all add: strtoken_def del: dropWhile.simps)
  have "length r < length s"
    using length_dropWhile_le [of "\<lambda>c. c \<notin> set fs" "x # xs"]
      length_dropWhile_le [of "\<lambda>c. c \<in> set fs" s] x c by simp
  then show ?thesis using that s by blast
qed

text \<open>The loop \<open>for (s = strtoken(&p, str, fs); s; s = strtoken(&p, NULL, fs))\<close>.\<close>

function strtokens :: "cstr option \<Rightarrow> cstr \<Rightarrow> cstr list" where
  "strtokens p fs =
     (case strtoken p None fs of
        (None, _) \<Rightarrow> []
      | (Some t, None) \<Rightarrow> [t]
      | (Some t, Some r) \<Rightarrow> t # strtokens (Some r) fs)"
  by pat_completeness auto
termination
proof (relation "measure (\<lambda>(p, fs). case p of None \<Rightarrow> 0 | Some s \<Rightarrow> length s)")
  fix p fs a b t r
  assume "(a, b) = strtoken p None fs" "a = Some t" "b = Some r"
  then have "\<exists>s. p = Some s \<and> length r < length s"
    using strtoken_rest [of p None fs a r] by fastforce
  then show "((Some r, fs), p, fs) \<in> measure (\<lambda>(p, fs). case p of None \<Rightarrow> 0 | Some s \<Rightarrow> length s)"
    by auto
qed simp

declare strtokens.simps [simp del]

lemma strtokens_None [simp]: "strtokens None fs = []"
  by (subst strtokens.simps) (simp add: strtoken_def)

lemma strtokens_Nil [simp]: "strtokens (Some []) fs = []"
  by (subst strtokens.simps) (simp add: strtoken_def)

lemma strtokens_sep: "c \<in> set fs \<Longrightarrow> strtokens (Some (c # s)) fs = strtokens (Some s) fs"
  by (subst (1 2) strtokens.simps) (simp add: strtoken_def)

lemma strtokens_token:
  assumes "t \<noteq> []" "\<forall>c \<in> set t. c \<notin> set fs"
  shows "strtokens (Some t) fs = [t]"
    "c \<in> set fs \<Longrightarrow> strtokens (Some (t @ c # s)) fs = t # strtokens (Some s) fs"
proof -
  obtain a t' where t: "t = a # t'" using assms(1) by (cases t) auto
  have a: "a \<notin> set fs" "\<forall>c \<in> set t'. c \<notin> set fs" using assms(2) t by simp_all
  show "strtokens (Some t) fs = [t]"
    by (subst strtokens.simps) (use a t in \<open>simp add: strtoken_def takeWhile_eq_all_conv [THEN iffD2] dropWhile_eq_Nil_conv [THEN iffD2]\<close>)
  show "strtokens (Some (t @ c # s)) fs = t # strtokens (Some s) fs" if "c \<in> set fs"
    by (subst strtokens.simps) (use a t that in \<open>simp add: strtoken_def takeWhile_append2 dropWhile_append2\<close>)
qed

definition token_of :: "cstr \<Rightarrow> cstr \<Rightarrow> bool" where
  "token_of fs t \<longleftrightarrow> t \<noteq> [] \<and> (\<forall>c \<in> set t. c \<notin> set fs)"

lemma strtoken_Some:
  assumes "strtoken None (Some s) fs = (Some t, r)"
  shows "token_of fs t" "set t \<subseteq> set s"
proof -
  obtain x xs where x: "dropWhile (\<lambda>c. c \<in> set fs) s = x # xs"
    using assms by (cases "dropWhile (\<lambda>c. c \<in> set fs) s") (simp_all add: strtoken_def)
  then have t: "t = takeWhile (\<lambda>c. c \<notin> set fs) (x # xs)"
    using assms by (simp add: strtoken_def del: takeWhile.simps)
  have "x \<notin> set fs" using x hd_dropWhile [of "\<lambda>c. c \<in> set fs" s] by simp
  then show "token_of fs t" using t by (auto simp: token_of_def dest: set_takeWhileD)
  have "set t \<subseteq> set (x # xs)" using t by (auto dest: set_takeWhileD simp del: takeWhile.simps)
  also have "\<dots> \<subseteq> set s" using x set_dropWhileD by (metis subsetI)
  finally show "set t \<subseteq> set s" .
qed

lemma strtoken_restD:
  "strtoken None (Some s) fs = (a, Some r) \<Longrightarrow> set r \<subseteq> set s"
proof -
  assume *: "strtoken None (Some s) fs = (a, Some r)"
  obtain x xs where x: "dropWhile (\<lambda>c. c \<in> set fs) s = x # xs"
    using * by (cases "dropWhile (\<lambda>c. c \<in> set fs) s") (simp_all add: strtoken_def)
  obtain c where c: "dropWhile (\<lambda>c. c \<notin> set fs) (x # xs) = c # r"
    using * x
    by (cases "dropWhile (\<lambda>c. c \<notin> set fs) (x # xs)") (simp_all add: strtoken_def del: dropWhile.simps)
  have "set r \<subseteq> set (x # xs)" using c by (metis list.set_intros(2) set_dropWhileD subsetI)
  then show ?thesis using x by (metis set_dropWhileD subset_code(1))
qed

lemma strtoken_save: "strtoken (Some s) None fs = strtoken None (Some s) fs"
  by (simp add: strtoken_def)

lemma strtokens_props:
  "t \<in> set (strtokens (Some s) fs) \<Longrightarrow> token_of fs t \<and> set t \<subseteq> set s"
proof (induction "Some s" fs arbitrary: s rule: strtokens.induct)
  case (1 fs)
  obtain a b where ab: "strtoken None (Some s) fs = (a, b)" by (cases "strtoken None (Some s) fs")
  have un: "strtokens (Some s) fs =
      (case a of None \<Rightarrow> [] | Some u \<Rightarrow> (case b of None \<Rightarrow> [u] | Some r \<Rightarrow> u # strtokens (Some r) fs))"
    by (subst strtokens.simps) (simp add: strtoken_save ab split: option.splits)
  obtain u where u: "a = Some u" using "1.prems" un by (cases a) simp_all
  note us = strtoken_Some [OF ab [unfolded u]]
  show ?case
  proof (cases b)
    case None
    then show ?thesis using "1.prems" un u us by simp
  next
    case (Some r)
    have "t = u \<or> t \<in> set (strtokens (Some r) fs)" using "1.prems" un u Some by simp
    then show ?thesis
    proof
      assume "t \<in> set (strtokens (Some r) fs)"
      then have "token_of fs t \<and> set t \<subseteq> set r"
        using "1.hyps" [OF _ u Some] ab by (simp add: strtoken_save)
      then show ?thesis using strtoken_restD [of s fs a r] ab Some by auto
    qed (use us in simp)
  qed
qed

lemma cstring_strtokens: "cstring s \<Longrightarrow> t \<in> set (strtokens (Some s) fs) \<Longrightarrow> cstring t"
  using strtokens_props unfolding cstring_def by fast

section \<open>\<open>clean_string\<close>\<close>

text \<open>\<open>room\<close> is \<open>endp - d\<close>, the bytes that can still be stored before the final NUL.\<close>

fun clean_loop :: "nat \<Rightarrow> cstr \<Rightarrow> cstr" where
  "clean_loop 0 src = []"
| "clean_loop room [] = []"
| "clean_loop (Suc room) (c # src) =
     (if code c < 32 then
        (if room = 0 then [CHR ''^''] else CHR ''^'' # char_of (0x40 + code c) # clean_loop (room - 1) src)
      else if 126 < code c then
        (if 4 < Suc room then (CHR 0x5C # dec (code c)) @ clean_loop (Suc room - Suc (length (dec (code c)))) src
         else clean_loop (Suc room) src)
      else c # clean_loop room src)"

definition clean_string :: "cstr \<Rightarrow> nat \<Rightarrow> cstr" where
  "clean_string src len = clean_loop (len - 1) src"

lemma code_chr:
  "code CHR ''^'' = 94" "code CHR 0x5C = 92" "code CHR ''*'' = 42"
  by (simp_all add: code_def)

lemma clean_loop_length: "length (clean_loop room src) \<le> room"
proof (induction room src rule: clean_loop.induct)
  case (3 room c src)
  have "length (dec (code c)) \<le> 3" using length_dec [of "code c" 3] code_less [of c] by simp
  then show ?case using 3 by (auto simp: not_less)
qed simp_all

lemma clean_loop_printable:
  "x \<in> set (clean_loop room src) \<Longrightarrow> 32 \<le> code x \<and> code x \<le> 126"
proof (induction room src rule: clean_loop.induct)
  case (3 room c src)
  have "code (char_of (64 + code c)) = 64 + code c" if "code c < 32"
    using that by (simp add: code_char_of)
  then show ?case
    using 3 dec_digits [of "code c"] by (auto simp: code_chr split: if_splits)
qed simp_all

section \<open>\<open>inetntoa\<close>\<close>

definition IpQuadTab :: "cstr list" where
  "IpQuadTab = map dec [0..<256]"

definition inetntoa :: "nat list \<Rightarrow> cstr" where
  "inetntoa a = IpQuadTab ! (a ! 0) @ ''.'' @ IpQuadTab ! (a ! 1) @ ''.'' @
                IpQuadTab ! (a ! 2) @ ''.'' @ IpQuadTab ! (a ! 3)"

section \<open>\<open>canonize\<close>\<close>

text \<open>
  One pass of the outer loop: \<open>cbuf\<close> is the string built so far (\<open>l\<close> is 0 while it is
  empty).  The scan of \<open>cbuf\<close> by \<open>strtoken\<close> puts every comma back that it overwrites.
\<close>

definition canon_add :: "cstr \<Rightarrow> cstr \<Rightarrow> cstr" where
  "canon_add cbuf s =
     (if cbuf = [] then s
      else if list_ex (\<lambda>t. irccmp s t = 0) (strtokens (Some cbuf) '','') then cbuf
      else cbuf @ '','' @ s)"

definition canonize :: "cstr \<Rightarrow> cstr" where
  "canonize buffer = foldl canon_add [] (strtokens (Some buffer) '','')"

definition dedup_add :: "cstr list \<Rightarrow> cstr \<Rightarrow> cstr list" where
  "dedup_add acc s = (if \<exists>t \<in> set acc. same_name s t then acc else acc @ [s])"

fun join_comma :: "cstr list \<Rightarrow> cstr" where
  "join_comma [] = []"
| "join_comma [t] = t"
| "join_comma (t # ts) = t @ CHR '','' # join_comma ts"

lemma join_comma_snoc: "ts \<noteq> [] \<Longrightarrow> join_comma (ts @ [s]) = join_comma ts @ CHR '','' # s"
  by (induction ts rule: join_comma.induct) simp_all

lemma join_comma_Nil_iff: "list_all (token_of '','') ts \<Longrightarrow> join_comma ts = [] \<longleftrightarrow> ts = []"
  by (cases ts rule: join_comma.cases) (simp_all add: token_of_def)

lemma strtokens_join: "list_all (token_of '','') ts \<Longrightarrow> strtokens (Some (join_comma ts)) '','' = ts"
  by (induction ts rule: join_comma.induct) (simp_all add: strtokens_token token_of_def)

lemma canonize_fold:
  "list_all (token_of '','') (acc @ ts) \<Longrightarrow> list_all cstring (acc @ ts) \<Longrightarrow>
     foldl canon_add (join_comma acc) ts = join_comma (foldl dedup_add acc ts)"
proof (induction ts arbitrary: acc)
  case (Cons t ts)
  have "list_ex (\<lambda>u. irccmp t u = 0) acc \<longleftrightarrow> (\<exists>u \<in> set acc. same_name t u)"
    using Cons.prems(2) by (auto simp: list_ex_iff list_all_iff irccmp_0_iff)
  then have "canon_add (join_comma acc) t = join_comma (dedup_add acc t)"
    using Cons.prems(1) join_comma_snoc [of acc t]
    by (cases "acc = []") (simp_all add: canon_add_def dedup_add_def join_comma_Nil_iff strtokens_join)
  then show ?case using Cons.IH [of "dedup_add acc t"] Cons.prems by (simp add: dedup_add_def)
qed simp

lemma foldl_dedup_tokens:
  "list_all P (acc @ ts) \<Longrightarrow> list_all P (foldl dedup_add acc ts)"
  by (induction ts arbitrary: acc) (auto simp: dedup_add_def)

text \<open>Canonize. \<open>canonize()\<close> rebuilds a comma list so that its entries are the entries of the argument, in
  order of first occurrence, with later duplicates (up to case) removed and nothing else
  lost or added.\<close>

theorem canonize_dedups:
  assumes "cstring b"
  shows "strtokens (Some (canonize b)) '','' = foldl dedup_add [] (strtokens (Some b) '','')"
proof -
  let ?ts = "strtokens (Some b) '',''"
  have ts: "list_all (token_of '','') ?ts" "list_all cstring ?ts"
    using strtokens_props cstring_strtokens assms unfolding list_all_iff by blast+
  then have "canonize b = join_comma (foldl dedup_add [] ?ts)"
    using canonize_fold [of "[]" ?ts] by (simp add: canonize_def)
  then show ?thesis using foldl_dedup_tokens [of _ "[]"] ts strtokens_join by simp
qed

theorem canonize_dedups_witness:
  "strtokens (Some (canonize ''#a,,#B,#b,#A,c'')) '','' = [''#a'', ''#B'', ''c'']"
proof -
  have "strtokens (Some ''#a,,#B,#b,#A,c'') '','' = [''#a'', ''#B'', ''#b'', ''#A'', ''c'']"
    by code_simp
  moreover have "foldl dedup_add [] [''#a'', ''#B'', ''#b'', ''#A'', ''c''] = [''#a'', ''#B'', ''c'']"
    by code_simp
  ultimately show ?thesis using canonize_dedups [of "''#a,,#B,#b,#A,c''"] by simp
qed

text \<open>Clean_string. Whatever the bytes of the argument, \<open>clean_string(dest, src, len)\<close> stores at most
  \<open>len - 1\<close> characters before the NUL and every one of them is printable ASCII, so no
  control character reaches an operator.\<close>

theorem clean_string_safe:
  "length (clean_string src len) \<le> len - 1 \<and>
   list_all (\<lambda>c. 32 \<le> code c \<and> code c \<le> 126) (clean_string src len)"
  using clean_loop_length clean_loop_printable by (auto simp: clean_string_def list_all_iff)

end
