(* ===== verification/Hash.thy ===== *)
theory Hash
  imports IrcString
begin

text \<open>
  The name tables, \<open>src/hash.c\<close>: chained hash tables of clients (by nick or server name)
  and of channels.  A bucket is the list of its chain from \<open>list\<close> along \<open>hnext\<close>; \<open>links\<close> and
  \<open>hits\<close> are the counters of \<open>struct HashEntry\<close>.  Entries are identities (pointers); the
  names are read from the entry, so the lookups take the naming as an argument.
\<close>

section \<open>Hash functions\<close>

definition U_MAX :: nat where "U_MAX = 65536"
definition CH_MAX :: nat where "CH_MAX = 16384"

fun hash_fold :: "32 word \<Rightarrow> cstr \<Rightarrow> 32 word" where
  "hash_fold h [] = h"
| "hash_fold h (c # s) = hash_fold (push_bit 4 h - (h + of_nat (code (ToLower c)))) s"

definition hash_nick_name :: "cstr \<Rightarrow> nat" where
  "hash_nick_name name = unat (hash_fold 0 name AND of_nat (U_MAX - 1))"

definition hash_channel_name :: "cstr \<Rightarrow> nat" where
  "hash_channel_name name = unat (hash_fold 0 name AND of_nat (CH_MAX - 1))"

lemma hash_fold_lower: "hash_fold h (map ToLower s) = hash_fold h s"
  by (induction h s rule: hash_fold.induct) simp_all

lemma hash_fold_same: "same_name s t \<Longrightarrow> hash_fold h s = hash_fold h t"
  unfolding same_name_def by (metis hash_fold_lower)

section \<open>Chained tables\<close>

record 'i htable =
  bucket :: "nat \<Rightarrow> 'i list"
  links :: "nat \<Rightarrow> nat"
  hits :: "nat \<Rightarrow> nat"

definition empty_table :: "'i htable" where
  "empty_table = \<lparr>bucket = \<lambda>_. [], links = \<lambda>_. 0, hits = \<lambda>_. 0\<rparr>"

definition tab_add :: "(cstr \<Rightarrow> nat) \<Rightarrow> cstr \<Rightarrow> 'i \<Rightarrow> 'i htable \<Rightarrow> 'i htable" where
  "tab_add h name x t =
     (let hashv = h name in
      t\<lparr>bucket := (bucket t)(hashv := x # bucket t hashv),
        links := (links t)(hashv := Suc (links t hashv)),
        hits := (hits t)(hashv := Suc (hits t hashv))\<rparr>)"

definition tab_del :: "(cstr \<Rightarrow> nat) \<Rightarrow> cstr \<Rightarrow> 'i \<Rightarrow> 'i htable \<Rightarrow> 'i htable" where
  "tab_del h name x t =
     (let hashv = h name in
      if x \<in> set (bucket t hashv)
      then t\<lparr>bucket := (bucket t)(hashv := unlink_first (\<lambda>y. y = x) (bucket t hashv)),
             links := (links t)(hashv := links t hashv - 1)\<rparr>
      else t)"

definition tab_find :: "(cstr \<Rightarrow> nat) \<Rightarrow> ('i \<Rightarrow> cstr) \<Rightarrow> cstr \<Rightarrow> 'i htable \<Rightarrow> 'i option" where
  "tab_find h nm name t = find (\<lambda>x. irccmp name (nm x) = 0) (bucket t (h name))"

section \<open>The table contract\<close>

text \<open>
  \<open>tab_ok h nm S t\<close>: the table holds exactly the entries of \<open>S\<close>, each once, in the bucket
  of its name, and \<open>links\<close> counts the chains.
\<close>

definition tab_ok :: "(cstr \<Rightarrow> nat) \<Rightarrow> ('i \<Rightarrow> cstr) \<Rightarrow> 'i set \<Rightarrow> 'i htable \<Rightarrow> bool" where
  "tab_ok h nm S t \<longleftrightarrow>
     (\<forall>i. distinct (bucket t i) \<and> set (bucket t i) = {x \<in> S. h (nm x) = i} \<and> links t i = length (bucket t i))"

definition names_ok :: "('i \<Rightarrow> cstr) \<Rightarrow> 'i set \<Rightarrow> bool" where
  "names_ok nm S \<longleftrightarrow> (\<forall>x \<in> S. cstring (nm x)) \<and> (\<forall>x \<in> S. \<forall>y \<in> S. same_name (nm x) (nm y) \<longrightarrow> x = y)"

locale name_hash =
  fixes h :: "cstr \<Rightarrow> nat"
  assumes h_same: "same_name s t \<Longrightarrow> h s = h t"
begin

lemma ok_empty: "tab_ok h nm {} empty_table"
  by (simp add: tab_ok_def empty_table_def)

lemma ok_add: "tab_ok h nm S t \<Longrightarrow> x \<notin> S \<Longrightarrow> tab_ok h nm (insert x S) (tab_add h (nm x) x t)"
  by (auto simp: tab_ok_def tab_add_def Let_def)

lemma ok_del: "tab_ok h nm S t \<Longrightarrow> x \<in> S \<Longrightarrow> tab_ok h nm (S - {x}) (tab_del h (nm x) x t)"
  by (auto simp: tab_ok_def tab_del_def Let_def distinct_unlink_first set_unlink_first_distinct
      length_unlink_first)

lemma ok_cong: "(\<And>x. x \<in> S \<Longrightarrow> nm x = nm' x) \<Longrightarrow> tab_ok h nm S t = tab_ok h nm' S t"
proof -
  assume eq: "\<And>x. x \<in> S \<Longrightarrow> nm x = nm' x"
  have "{x \<in> S. h (nm x) = i} = {x \<in> S. h (nm' x) = i}" for i using eq by auto
  then show ?thesis by (simp add: tab_ok_def)
qed

lemma find_Some:
  assumes "tab_ok h nm S t" "names_ok nm S" "cstring name"
  shows "tab_find h nm name t = Some x \<longleftrightarrow> x \<in> S \<and> same_name name (nm x)"
proof -
  have mem: "y \<in> set (bucket t (h name)) \<longleftrightarrow> y \<in> S \<and> h (nm y) = h name" for y
    using assms(1) by (auto simp: tab_ok_def)
  have cmp: "irccmp name (nm y) = 0 \<longleftrightarrow> same_name name (nm y)" if "y \<in> S" for y
    using assms(2,3) that by (simp add: irccmp_0_iff names_ok_def)
  show ?thesis
  proof
    assume f: "tab_find h nm name t = Some x"
    then have "x \<in> set (bucket t (h name))" "irccmp name (nm x) = 0"
      by (auto simp: tab_find_def find_Some_iff)
    then show "x \<in> S \<and> same_name name (nm x)" using mem cmp by auto
  next
    assume x: "x \<in> S \<and> same_name name (nm x)"
    then have inb: "x \<in> set (bucket t (h name))" using mem h_same same_name_sym by metis
    then have "tab_find h nm name t \<noteq> None"
      using x cmp by (auto simp: tab_find_def find_None_iff)
    then obtain y where y: "tab_find h nm name t = Some y" by auto
    then have "y \<in> set (bucket t (h name))" "irccmp name (nm y) = 0"
      by (auto simp: tab_find_def find_Some_iff)
    then have "y \<in> S" "same_name name (nm y)" using mem cmp by auto
    then have "same_name (nm x) (nm y)" using x same_name_sym same_name_trans by metis
    then show "tab_find h nm name t = Some x" using y x \<open>y \<in> S\<close> assms(2) by (auto simp: names_ok_def)
  qed
qed

lemma find_None:
  assumes "tab_ok h nm S t" "names_ok nm S" "cstring name"
  shows "tab_find h nm name t = None \<longleftrightarrow> (\<forall>x \<in> S. \<not> same_name name (nm x))"
  using find_Some [OF assms] by (metis not_None_eq)

end

interpretation nick: name_hash hash_nick_name
  by unfold_locales (simp only: hash_nick_name_def hash_fold_same [of _ _ 0])

interpretation chan: name_hash hash_channel_name
  by unfold_locales (simp only: hash_channel_name_def hash_fold_same [of _ _ 0])

section \<open>The operations of \<open>hash.c\<close>\<close>

definition add_to_client_hash_table :: "cstr \<Rightarrow> 'i \<Rightarrow> 'i htable \<Rightarrow> 'i htable" where
  "add_to_client_hash_table = tab_add hash_nick_name"

definition add_to_channel_hash_table :: "cstr \<Rightarrow> 'i \<Rightarrow> 'i htable \<Rightarrow> 'i htable" where
  "add_to_channel_hash_table = tab_add hash_channel_name"

definition del_from_client_hash_table :: "cstr \<Rightarrow> 'i \<Rightarrow> 'i htable \<Rightarrow> 'i htable" where
  "del_from_client_hash_table = tab_del hash_nick_name"

definition del_from_channel_hash_table :: "cstr \<Rightarrow> 'i \<Rightarrow> 'i htable \<Rightarrow> 'i htable" where
  "del_from_channel_hash_table = tab_del hash_channel_name"

text \<open>The second argument of the C finders is what they return when nothing is found.\<close>

definition hash_find_client :: "('i \<Rightarrow> cstr) \<Rightarrow> 'i htable \<Rightarrow> cstr \<Rightarrow> 'i option \<Rightarrow> 'i option" where
  "hash_find_client nm t name dflt =
     (case tab_find hash_nick_name nm name t of Some x \<Rightarrow> Some x | None \<Rightarrow> dflt)"

definition hash_find_channel :: "('i \<Rightarrow> cstr) \<Rightarrow> 'i htable \<Rightarrow> cstr \<Rightarrow> 'i option \<Rightarrow> 'i option" where
  "hash_find_channel nm t name dflt =
     (case tab_find hash_channel_name nm name t of Some x \<Rightarrow> Some x | None \<Rightarrow> dflt)"

text \<open>
  The names tried by \<open>hash_find_masked_server\<close>: the byte before each dot becomes a star.
  The name is first cut to \<open>HOSTLEN\<close> bytes.
\<close>

definition HOSTLEN :: nat where "HOSTLEN = 63"

function server_masks :: "cstr \<Rightarrow> cstr list" where
  "server_masks s =
     (case dropWhile (\<lambda>c. c \<noteq> CHR ''.'') s of
        [] \<Rightarrow> []
      | d # r \<Rightarrow> (CHR ''*'' # d # r) # server_masks r)"
  by pat_completeness auto
termination
proof (relation "measure length")
  fix s d r
  assume "dropWhile (\<lambda>c. c \<noteq> CHR ''.'') s = d # r"
  then have "length (d # r) \<le> length s" by (metis length_dropWhile_le)
  then show "(r, s) \<in> measure length" by simp
qed simp

declare server_masks.simps [simp del]

definition hash_find_masked_server :: "('i \<Rightarrow> cstr) \<Rightarrow> 'i htable \<Rightarrow> cstr \<Rightarrow> 'i option" where
  "hash_find_masked_server nm t name =
     (if name = [] then None
      else if hd name = CHR ''*'' \<or> hd name = CHR ''.'' then None
      else case List.find (\<lambda>m. hash_find_client nm t m None \<noteq> None) (server_masks (take HOSTLEN name)) of
        None \<Rightarrow> None
      | Some m \<Rightarrow> hash_find_client nm t m None)"

definition hash_find_server :: "('i \<Rightarrow> cstr) \<Rightarrow> ('i \<Rightarrow> bool) \<Rightarrow> 'i htable \<Rightarrow> cstr \<Rightarrow> 'i option" where
  "hash_find_server nm server_or_me t name =
     (case find (\<lambda>x. server_or_me x \<and> irccmp name (nm x) = 0) (bucket t (hash_nick_name name)) of
        Some x \<Rightarrow> Some x
      | None \<Rightarrow> hash_find_masked_server nm t name)"

lemma server_masks_suffix:
  "m \<in> set (server_masks s) \<Longrightarrow> \<exists>p q. s = p @ q \<and> m = CHR ''*'' # q \<and> q \<noteq> [] \<and> hd q = CHR ''.''"
proof (induction s rule: server_masks.induct)
  case (1 s)
  show ?case
  proof (cases "dropWhile (\<lambda>c. c \<noteq> CHR ''.'') s")
    case Nil
    have "server_masks s = []" by (subst server_masks.simps) (simp only: Nil list.case)
    then show ?thesis using "1.prems" by simp
  next
    case (Cons d r)
    have s: "s = takeWhile (\<lambda>c. c \<noteq> CHR ''.'') s @ d # r" using Cons by (metis takeWhile_dropWhile_id)
    have d: "d = CHR ''.''" using Cons hd_dropWhile [of "\<lambda>c. c \<noteq> CHR ''.''" s] by simp
    have "m = CHR ''*'' # d # r \<or> m \<in> set (server_masks r)"
    proof -
      have "server_masks s = (CHR ''*'' # d # r) # server_masks r" by (subst server_masks.simps) (simp only: Cons list.case)
      then show ?thesis using "1.prems" by simp
    qed
    then show ?thesis
    proof
      assume "m \<in> set (server_masks r)"
      then obtain p q where "r = p @ q" "m = CHR ''*'' # q" "q \<noteq> []" "hd q = CHR ''.''"
        using "1.IH" [OF Cons] by blast
      then have "s = (takeWhile (\<lambda>c. c \<noteq> CHR ''.'') s @ d # p) @ q" using s by simp
      then show ?thesis using \<open>m = CHR ''*'' # q\<close> \<open>q \<noteq> []\<close> \<open>hd q = CHR ''.''\<close> by blast
    qed (use s d in force)
  qed
qed

section \<open>The client table as a map\<close>

text \<open>What the lookups see: a map from folded names to entries.\<close>

definition name_map :: "('i \<Rightarrow> cstr) \<Rightarrow> 'i htable \<Rightarrow> cstr \<Rightarrow> 'i option" where
  "name_map nm t = (\<lambda>key. if cstring key \<and> map ToLower key = key then hash_find_client nm t key None else None)"

abbreviation client_tab_ok :: "('i \<Rightarrow> cstr) \<Rightarrow> 'i set \<Rightarrow> 'i htable \<Rightarrow> bool" where
  "client_tab_ok nm S t \<equiv> tab_ok hash_nick_name nm S t \<and> names_ok nm S"

lemma cstring_lower [simp]: "cstring (map ToLower s) = cstring s"
  by (auto simp: cstring_def image_iff)

lemma find_client_tab: "hash_find_client nm t key None = tab_find hash_nick_name nm key t"
  by (simp add: hash_find_client_def split: option.split)

lemma name_map_Some:
  assumes "client_tab_ok nm S t"
  shows "name_map nm t key = Some x \<longleftrightarrow> x \<in> S \<and> key = map ToLower (nm x)"
proof (cases "cstring key \<and> map ToLower key = key")
  case True
  then have "hash_find_client nm t key None = Some x \<longleftrightarrow> x \<in> S \<and> same_name key (nm x)"
    using nick.find_Some [of nm S t key x] assms by (simp add: find_client_tab)
  then show ?thesis using True by (auto simp: name_map_def same_name_def)
next
  case False
  then have "key \<noteq> map ToLower (nm x)" if "x \<in> S" using that assms by (auto simp: names_ok_def comp_def)
  then show ?thesis using False by (auto simp: name_map_def)
qed

lemma name_map_lookup:
  assumes "client_tab_ok nm S t" "cstring name"
  shows "hash_find_client nm t name None = name_map nm t (map ToLower name)"
proof -
  have "hash_find_client nm t name None = Some x \<longleftrightarrow> name_map nm t (map ToLower name) = Some x" for x
    using nick.find_Some [of nm S t name x] name_map_Some [of nm S t "map ToLower name" x] assms
    by (auto simp: find_client_tab same_name_def)
  then show ?thesis by (metis not_Some_eq)
qed

lemma map_eqI: "(\<And>k x. f k = Some x \<longleftrightarrow> g k = Some x) \<Longrightarrow> f = g"
  by (rule ext) (metis not_Some_eq)

lemma name_map_add:
  assumes "client_tab_ok nm S t" "x \<notin> S" "cstring (nm x)" "name_map nm t (map ToLower (nm x)) = None"
  shows "client_tab_ok nm (insert x S) (add_to_client_hash_table (nm x) x t)"
    "name_map nm (add_to_client_hash_table (nm x) x t) = (name_map nm t)(map ToLower (nm x) \<mapsto> x)"
proof -
  have new: "map ToLower (nm x) \<noteq> map ToLower (nm y)" if "y \<in> S" for y
    using name_map_Some [OF assms(1), of "map ToLower (nm x)" y] assms(4) that by auto
  have "names_ok nm (insert x S)" using new assms(1,3) unfolding names_ok_def same_name_def by (metis insert_iff)
  then show ok: "client_tab_ok nm (insert x S) (add_to_client_hash_table (nm x) x t)"
    using nick.ok_add [of nm S t x] assms(1,2) by (simp add: add_to_client_hash_table_def)
  show "name_map nm (add_to_client_hash_table (nm x) x t) = (name_map nm t)(map ToLower (nm x) \<mapsto> x)"
    by (rule map_eqI) (use new in \<open>auto simp: name_map_Some [OF ok] name_map_Some [OF assms(1)]\<close>)
qed

lemma name_map_del:
  assumes "client_tab_ok nm S t" "x \<in> S"
  shows "client_tab_ok nm (S - {x}) (del_from_client_hash_table (nm x) x t)"
    "name_map nm (del_from_client_hash_table (nm x) x t) = (name_map nm t)(map ToLower (nm x) := None)"
proof -
  have "names_ok nm (S - {x})" using assms(1) by (simp add: names_ok_def)
  then show ok: "client_tab_ok nm (S - {x}) (del_from_client_hash_table (nm x) x t)"
    using nick.ok_del [of nm S t x] assms by (simp add: del_from_client_hash_table_def)
  have "y = x" if "y \<in> S" "map ToLower (nm y) = map ToLower (nm x)" for y
    using that assms by (simp add: names_ok_def same_name_def)
  then show "name_map nm (del_from_client_hash_table (nm x) x t) = (name_map nm t)(map ToLower (nm x) := None)"
    by (intro map_eqI) (auto simp: name_map_Some [OF ok] name_map_Some [OF assms(1)])
qed

text \<open>C17 (name tables).
  The client table refines a map keyed by the case-folded nick.  In every well-formed table, in
  whatever order its chains are, a lookup under any spelling reads the map \<open>name_map\<close>; adding a client
  whose name is free extends the map at its name only; deleting any client of the table, wherever it
  stands in its chain, clears the map at its name only; and both leave a well-formed table, its
  chain counters exact, with that client added or gone.\<close>

theorem client_table_map:
  assumes "tab_ok hash_nick_name nm S t" "names_ok nm S"
  shows "(cstring name \<longrightarrow> hash_find_client nm t name None = name_map nm t (map ToLower name)) \<and>
    (x \<notin> S \<longrightarrow> cstring (nm x) \<longrightarrow> name_map nm t (map ToLower (nm x)) = None \<longrightarrow>
       name_map nm (add_to_client_hash_table (nm x) x t) = (name_map nm t)(map ToLower (nm x) \<mapsto> x) \<and>
       tab_ok hash_nick_name nm (insert x S) (add_to_client_hash_table (nm x) x t) \<and> names_ok nm (insert x S)) \<and>
    (x \<in> S \<longrightarrow>
       name_map nm (del_from_client_hash_table (nm x) x t) = (name_map nm t)(map ToLower (nm x) := None) \<and>
       tab_ok hash_nick_name nm (S - {x}) (del_from_client_hash_table (nm x) x t) \<and> names_ok nm (S - {x}))"
  using assms name_map_lookup [of nm S t name] name_map_add [of nm S t x] name_map_del [of nm S t x] by blast

theorem client_table_map_witness:
  "hash_find_client id (del_from_client_hash_table ''Bob[1]'' ''Bob[1]'' (add_to_client_hash_table ''al'' ''al''
     (add_to_client_hash_table ''Bob[1]'' ''Bob[1]'' empty_table))) ''AL'' None = Some ''al''"
proof -
  let ?t1 = "add_to_client_hash_table ''Bob[1]'' ''Bob[1]'' empty_table"
  let ?t2 = "add_to_client_hash_table ''al'' ''al'' ?t1"
  let ?t3 = "del_from_client_hash_table ''Bob[1]'' ''Bob[1]'' ?t2"
  have l: "ToLower CHR ''B'' = CHR ''b''" "ToLower CHR ''o'' = CHR ''o''" "ToLower CHR ''b'' = CHR ''b''"
    "ToLower CHR ''['' = CHR ''{''" "ToLower CHR ''1'' = CHR ''1''" "ToLower CHR '']'' = CHR ''}''"
    "ToLower CHR ''A'' = CHR ''a''" "ToLower CHR ''L'' = CHR ''l''" "ToLower CHR ''a'' = CHR ''a''" "ToLower CHR ''l'' = CHR ''l''"
    by code_simp+
  have z: "tab_ok hash_nick_name id {} empty_table" "names_ok id {}" by (simp_all add: nick.ok_empty names_ok_def)
  have 0: "name_map id empty_table k = None" for k :: cstr by (simp add: name_map_def hash_find_client_def tab_find_def empty_table_def)
  have t1: "tab_ok hash_nick_name id {''Bob[1]''} ?t1" "names_ok id {''Bob[1]''}"
    "name_map id ?t1 = (name_map id empty_table)(''bob{1}'' \<mapsto> ''Bob[1]'')"
    using client_table_map [OF z, of "[]" "''Bob[1]''"] by (simp_all add: l 0)
  have t2: "tab_ok hash_nick_name id {''al'', ''Bob[1]''} ?t2" "names_ok id {''al'', ''Bob[1]''}" "name_map id ?t2 = (name_map id ?t1)(''al'' \<mapsto> ''al'')"
    using client_table_map [OF t1(1,2), of "[]" "''al''"] by (simp_all add: l t1(3) 0)
  have t3: "tab_ok hash_nick_name id {''al''} ?t3" "names_ok id {''al''}" "name_map id ?t3 = (name_map id ?t2)(''bob{1}'' := None)"
    using client_table_map [OF t2(1,2), of "[]" "''Bob[1]''"] by (simp_all add: l insert_Diff_if)
  show ?thesis using client_table_map [OF t3(1,2), of "''AL''"] by (simp add: l t3(3) t2(3))
qed

end
