(* ===== verification/Whowas.thy ===== *)
theory Whowas
  imports Hash
begin

text \<open>
  Nick history, \<open>src/m_whowas.c\<close>: a ring of \<open>NICKNAMEHISTORYLENGTH\<close> entries, threaded on
  hash chains by name and on one chain per client that is still online
  (\<open>cptr->whowas\<close>).  Entries are known by their index in \<open>WHOWAS\<close>; a chain is the list of
  its indices, so unlinking through \<open>prev\<close> and \<open>next\<close> removes the index.
  \<open>ww_hashv\<close> is \<open>None\<close> for the initial -1.
\<close>

section \<open>State\<close>

definition NICKLEN :: nat where "NICKLEN = 9"
definition NICKNAMEHISTORYLENGTH :: nat where "NICKNAMEHISTORYLENGTH = 15000"
definition WW_MAX :: nat where "WW_MAX = 65536"

record whowas =
  ww_hashv :: "nat option"
  ww_name :: cstr
  ww_username :: cstr
  ww_hostname :: cstr
  ww_realname :: cstr
  ww_servername :: cstr
  ww_logoff :: int
  ww_online :: "cid option"

record whowas_db =
  WHOWAS :: "nat \<Rightarrow> whowas"
  WHOWASHASH :: "nat \<Rightarrow> nat list"
  ww_clist :: "cid \<Rightarrow> nat list"
  whowas_next :: nat

text \<open>What \<open>add_history\<close> copies out of the client.\<close>

record whowas_src =
  ws_name :: cstr
  ws_username :: cstr
  ws_host :: cstr
  ws_info :: cstr
  ws_server :: cstr

section \<open>Operations\<close>

definition hash_whowas_name :: "cstr \<Rightarrow> nat" where
  "hash_whowas_name name = unat (hash_fold 0 name AND of_nat (WW_MAX - 1))"

definition initwhowas :: whowas_db where
  "initwhowas =
     \<lparr>WHOWAS = \<lambda>_. \<lparr>ww_hashv = None, ww_name = [], ww_username = [], ww_hostname = [],
                     ww_realname = [], ww_servername = [], ww_logoff = 0, ww_online = None\<rparr>,
      WHOWASHASH = \<lambda>_. [], ww_clist = \<lambda>_. [], whowas_next = 0\<rparr>"

text \<open>The entry about to be reused leaves its chains.\<close>

definition unthread :: "whowas_db \<Rightarrow> nat \<Rightarrow> whowas_db" where
  "unthread db i =
     (case ww_hashv (WHOWAS db i) of
        None \<Rightarrow> db
      | Some hv \<Rightarrow>
          let db1 = (case ww_online (WHOWAS db i) of
                       None \<Rightarrow> db
                     | Some c \<Rightarrow> db\<lparr>ww_clist := (ww_clist db)(c := remove1 i (ww_clist db c))\<rparr>)
          in db1\<lparr>WHOWASHASH := (WHOWASHASH db1)(hv := remove1 i (WHOWASHASH db1 hv))\<rparr>)"

definition add_history :: "int \<Rightarrow> whowas_db \<Rightarrow> cid \<Rightarrow> whowas_src \<Rightarrow> bool \<Rightarrow> whowas_db" where
  "add_history CurrentTime db0 cptr src online =
     (let i = whowas_next db0;
          db = unthread db0 i;
          hv = hash_whowas_name (ws_name src);
          who = \<lparr>ww_hashv = Some hv, ww_name = take NICKLEN (ws_name src),
                 ww_username = ws_username src, ww_hostname = ws_host src,
                 ww_realname = ws_info src, ww_servername = ws_server src,
                 ww_logoff = CurrentTime, ww_online = (if online then Some cptr else None)\<rparr>
      in db\<lparr>WHOWAS := (WHOWAS db)(i := who),
            ww_clist := (if online then (ww_clist db)(cptr := i # ww_clist db cptr) else ww_clist db),
            WHOWASHASH := (WHOWASHASH db)(hv := i # WHOWASHASH db hv),
            whowas_next := (if Suc i = NICKNAMEHISTORYLENGTH then 0 else Suc i)\<rparr>)"

fun off_loop :: "nat list \<Rightarrow> (nat \<Rightarrow> whowas) \<Rightarrow> nat \<Rightarrow> whowas" where
  "off_loop [] W = W"
| "off_loop (i # is) W = off_loop is (W(i := (W i)\<lparr>ww_online := None\<rparr>))"

definition off_history :: "whowas_db \<Rightarrow> cid \<Rightarrow> whowas_db" where
  "off_history db cptr =
     db\<lparr>WHOWAS := off_loop (ww_clist db cptr) (WHOWAS db), ww_clist := (ww_clist db)(cptr := [])\<rparr>"

text \<open>The first entry of the right name that is recent enough decides, online or not.\<close>

definition get_history :: "int \<Rightarrow> whowas_db \<Rightarrow> cstr \<Rightarrow> int \<Rightarrow> cid option" where
  "get_history CurrentTime db nick timelimit =
     (case find (\<lambda>i. irccmp nick (ww_name (WHOWAS db i)) = 0 \<and>
                      \<not> ww_logoff (WHOWAS db i) < CurrentTime - timelimit)
             (WHOWASHASH db (hash_whowas_name nick)) of
        None \<Rightarrow> None
      | Some i \<Rightarrow> ww_online (WHOWAS db i))"

section \<open>Invariant\<close>

definition whowas_ok :: "whowas_db \<Rightarrow> bool" where
  "whowas_ok db \<longleftrightarrow>
     whowas_next db < NICKNAMEHISTORYLENGTH \<and>
     (\<forall>h. distinct (WHOWASHASH db h) \<and> (\<forall>i. i \<in> set (WHOWASHASH db h) \<longleftrightarrow> ww_hashv (WHOWAS db i) = Some h)) \<and>
     (\<forall>c. distinct (ww_clist db c) \<and> (\<forall>i. i \<in> set (ww_clist db c) \<longleftrightarrow> ww_online (WHOWAS db i) = Some c)) \<and>
     (\<forall>i. ww_online (WHOWAS db i) \<noteq> None \<longrightarrow> ww_hashv (WHOWAS db i) \<noteq> None) \<and>
     (\<forall>i. ww_hashv (WHOWAS db i) \<noteq> None \<longrightarrow> i < NICKNAMEHISTORYLENGTH)"

lemma whowas_ok_init: "whowas_ok initwhowas"
  by (simp add: whowas_ok_def initwhowas_def NICKNAMEHISTORYLENGTH_def)

text \<open>After \<open>unthread\<close> the entry is on no chain; every other entry keeps its place.\<close>

lemma unthread_spec:
  assumes "whowas_ok db"
  shows "WHOWAS (unthread db i) = WHOWAS db" "whowas_next (unthread db i) = whowas_next db"
    "distinct (WHOWASHASH (unthread db i) h)" "distinct (ww_clist (unthread db i) c)"
    "j \<in> set (WHOWASHASH (unthread db i) h) \<longleftrightarrow> j \<noteq> i \<and> ww_hashv (WHOWAS db j) = Some h"
    "j \<in> set (ww_clist (unthread db i) c) \<longleftrightarrow> j \<noteq> i \<and> ww_online (WHOWAS db j) = Some c"
  using assms
  by (auto simp: unthread_def whowas_ok_def Let_def split: option.splits)

lemma whowas_ok_add:
  assumes "whowas_ok db"
  shows "whowas_ok (add_history t db c src online)"
proof -
  let ?i = "whowas_next db"
  note u = unthread_spec [OF assms, where i = ?i]
  have lt: "?i < NICKNAMEHISTORYLENGTH" using assms by (simp add: whowas_ok_def)
  have rest: "\<And>i. ww_online (WHOWAS db i) \<noteq> None \<Longrightarrow> ww_hashv (WHOWAS db i) \<noteq> None"
    "\<And>i. ww_hashv (WHOWAS db i) \<noteq> None \<Longrightarrow> i < NICKNAMEHISTORYLENGTH"
    using assms by (auto simp: whowas_ok_def)
  show ?thesis
    unfolding whowas_ok_def
    using u lt rest by (auto simp: add_history_def Let_def)
qed

lemma off_loop_apply:
  "off_loop is W j = (if j \<in> set is then (W j)\<lparr>ww_online := None\<rparr> else W j)"
  by (induction "is" arbitrary: W) auto

lemma whowas_ok_off:
  assumes "whowas_ok db"
  shows "whowas_ok (off_history db c)"
  using assms unfolding whowas_ok_def by (auto simp: off_history_def off_loop_apply)

inductive history_reach :: "whowas_db \<Rightarrow> bool" where
  "history_reach initwhowas"
| "history_reach db \<Longrightarrow> history_reach (add_history t db c src online)"
| "history_reach db \<Longrightarrow> history_reach (off_history db c)"

lemma history_reach_ok: "history_reach db \<Longrightarrow> whowas_ok db"
  by (induction rule: history_reach.induct) (auto intro: whowas_ok_init whowas_ok_add whowas_ok_off)

lemma hash_whowas_same: "same_name s t \<Longrightarrow> hash_whowas_name s = hash_whowas_name t"
  by (simp only: hash_whowas_name_def hash_fold_same [of _ _ 0])

interpretation whowas: name_hash hash_whowas_name
  by unfold_locales (rule hash_whowas_same)

definition bob_src :: whowas_src where
  "bob_src = \<lparr>ws_name = ''Bob'', ws_username = ''b'', ws_host = ''h'', ws_info = [], ws_server = ''s''\<rparr>"

section \<open>How long an entry lasts\<close>

text \<open>What happens to the history: a nick is recorded, a client is released.\<close>

datatype history_op = Record_nick int cid whowas_src bool | Release_client cid

fun history_step :: "history_op \<Rightarrow> whowas_db \<Rightarrow> whowas_db" where
  "history_step (Record_nick t c src online) db = add_history t db c src online"
| "history_step (Release_client c) db = off_history db c"

fun is_record :: "history_op \<Rightarrow> bool" where
  "is_record (Record_nick t c src online) = True"
| "is_record (Release_client c) = False"

text \<open>The operation leaves the nick and the client alone: it records another nick, releases another client.\<close>

fun spares :: "cstr \<Rightarrow> cid \<Rightarrow> history_op \<Rightarrow> bool" where
  "spares nick c (Record_nick t d src online) = (\<not> same_name nick (take NICKLEN (ws_name src)) \<and> cstring (ws_name src))"
| "spares nick c (Release_client d) = (d \<noteq> c)"

definition ww_hit :: "int \<Rightarrow> whowas_db \<Rightarrow> cstr \<Rightarrow> int \<Rightarrow> nat \<Rightarrow> bool" where
  "ww_hit t db nick lim i \<longleftrightarrow> irccmp nick (ww_name (WHOWAS db i)) = 0 \<and> \<not> ww_logoff (WHOWAS db i) < t - lim"

text \<open>Entry \<open>i\<close> decides the lookups of \<open>nick\<close>, and \<open>a\<close> entries were used after it.\<close>

definition decides :: "int \<Rightarrow> cstr \<Rightarrow> int \<Rightarrow> cid \<Rightarrow> nat \<Rightarrow> nat \<Rightarrow> whowas_db \<Rightarrow> bool" where
  "decides t nick lim c i a db \<longleftrightarrow> whowas_ok db \<and> i < NICKNAMEHISTORYLENGTH \<and>
     whowas_next db = (i + 1 + a) mod NICKNAMEHISTORYLENGTH \<and> ww_online (WHOWAS db i) = Some c \<and>
     find (ww_hit t db nick lim) (WHOWASHASH db (hash_whowas_name nick)) = Some i"

lemma decides_found: "decides t nick lim c i a db \<Longrightarrow> get_history t db nick lim = Some c"
  by (simp add: decides_def get_history_def ww_hit_def [abs_def])

lemma find_remove1:
  "find P xs = Some i \<Longrightarrow> j \<noteq> i \<Longrightarrow> distinct xs \<Longrightarrow> (\<And>k. k \<noteq> j \<Longrightarrow> Q k = P k) \<Longrightarrow> find Q (remove1 j xs) = Some i"
proof (induction xs)
  case (Cons x xs)
  have "find Q xs = find P xs" if "x = j"
    by (rule find_cong [OF refl]) (use Cons.prems(3,4) that in \<open>metis distinct.simps(2)\<close>)
  then show ?case using Cons by (auto split: if_splits)
qed simp

lemma decides_record:
  assumes d: "decides t nick lim c i a db" and n: "\<not> same_name nick (take NICKLEN (ws_name src))" "cstring nick" "cstring (ws_name src)"
    and a: "Suc a < NICKNAMEHISTORYLENGTH"
  shows "decides t nick lim c i (Suc a) (add_history t' db d src online)"
proof -
  let ?j = "whowas_next db" and ?h = "hash_whowas_name nick" and ?db = "add_history t' db d src online"
  have ok: "whowas_ok db" "i < NICKNAMEHISTORYLENGTH" "?j = (i + 1 + a) mod NICKNAMEHISTORYLENGTH" "ww_online (WHOWAS db i) = Some c"
    and f: "find (ww_hit t db nick lim) (WHOWASHASH db ?h) = Some i"
    using d by (simp_all add: decides_def)
  have j: "?j \<noteq> i" "?j < NICKNAMEHISTORYLENGTH"
    using ok(1-3) a by (auto simp: whowas_ok_def mod_if split: if_splits)
  have W: "WHOWAS ?db k = WHOWAS db k" if "k \<noteq> ?j" for k
    using that by (simp add: add_history_def Let_def unthread_spec(1) [OF ok(1)])
  have miss: "\<not> ww_hit t ?db nick lim ?j"
    using n cstring_take [OF n(3)] by (simp add: ww_hit_def add_history_def Let_def irccmp_0_iff)
  have u: "WHOWASHASH (unthread db ?j) ?h = remove1 ?j (WHOWASHASH db ?h)"
    using ok(1) by (auto simp: unthread_def whowas_ok_def Let_def remove1_idem split: option.split)
  have "find (ww_hit t ?db nick lim) (remove1 ?j (WHOWASHASH db ?h)) = Some i"
    by (rule find_remove1 [OF f j(1)]) (use ok(1) W in \<open>simp_all add: whowas_ok_def ww_hit_def\<close>)
  moreover have "WHOWASHASH ?db ?h = (if hash_whowas_name (ws_name src) = ?h then ?j # remove1 ?j (WHOWASHASH db ?h) else remove1 ?j (WHOWASHASH db ?h))"
    by (simp add: add_history_def Let_def u)
  ultimately have "find (ww_hit t ?db nick lim) (WHOWASHASH ?db ?h) = Some i" using miss by simp
  moreover have "whowas_next ?db = Suc ?j mod NICKNAMEHISTORYLENGTH"
    using j(2) by (auto simp: add_history_def Let_def)
  then have "whowas_next ?db = (i + 1 + Suc a) mod NICKNAMEHISTORYLENGTH" unfolding ok(3) by (simp add: mod_Suc_eq)
  moreover have "ww_online (WHOWAS ?db i) = Some c" using W [of i] j(1) ok(4) by simp
  ultimately show ?thesis using whowas_ok_add [OF ok(1)] ok(2) by (simp add: decides_def)
qed

lemma decides_release:
  assumes d: "decides t nick lim c i a db" and "d \<noteq> c"
  shows "decides t nick lim c i a (off_history db d)"
proof -
  have ok: "whowas_ok db" using d by (simp add: decides_def)
  have h: "ww_hit t (off_history db d) nick lim = ww_hit t db nick lim"
    by (rule ext) (simp add: ww_hit_def off_history_def off_loop_apply)
  have "i \<notin> set (ww_clist db d)" using d assms(2) ok by (auto simp: decides_def whowas_ok_def)
  then show ?thesis
    using d whowas_ok_off [OF ok] unfolding decides_def h by (simp add: off_history_def off_loop_apply)
qed

lemma decides_run:
  "decides t nick lim c i a db \<Longrightarrow> list_all (spares nick c) ops \<Longrightarrow> cstring nick \<Longrightarrow>
     a + length (filter is_record ops) < NICKNAMEHISTORYLENGTH \<Longrightarrow>
     get_history t (fold history_step ops db) nick lim = Some c"
proof (induction ops arbitrary: a db)
  case Nil
  then show ?case using decides_found by simp
next
  case (Cons op ops)
  show ?case
  proof (cases op)
    case (Record_nick t' d src online)
    then show ?thesis
      using Cons.IH [OF decides_record [OF Cons.prems(1)]] Cons.prems(2-4) by simp
  next
    case (Release_client d)
    then show ?thesis using Cons.IH [OF decides_release [OF Cons.prems(1)]] Cons.prems(2-4) by simp
  qed
qed

lemma decides_added:
  assumes "whowas_ok db" "same_name nick (ws_name src)" "length (ws_name src) \<le> NICKLEN"
    "cstring nick" "cstring (ws_name src)" "now - lim \<le> t"
  shows "decides now nick lim c (whowas_next db) 0 (add_history t db c src True)"
proof -
  let ?i = "whowas_next db" and ?db = "add_history t db c src True"
  have lt: "?i < NICKNAMEHISTORYLENGTH" using assms(1) by (simp add: whowas_ok_def)
  have "hash_whowas_name nick = hash_whowas_name (ws_name src)" by (rule whowas.h_same [OF assms(2)])
  moreover have "irccmp nick (take NICKLEN (ws_name src)) = 0" using assms by (simp add: irccmp_0_iff)
  ultimately have "find (ww_hit now ?db nick lim) (WHOWASHASH ?db (hash_whowas_name nick)) = Some ?i"
    using assms(6) by (simp add: ww_hit_def add_history_def Let_def)
  moreover have "whowas_next ?db = Suc ?i mod NICKNAMEHISTORYLENGTH" "ww_online (WHOWAS ?db ?i) = Some c"
    using lt by (auto simp: add_history_def Let_def)
  ultimately show ?thesis using whowas_ok_add [OF assms(1)] lt by (simp add: decides_def)
qed
section \<open>Properties\<close>

text \<open>History stays threaded. In every history reachable by recording and clearing nicks, each used entry is on exactly
  the hash chain of its \<open>hashv\<close> and, when its client is online, on exactly that client's
  chain, with no entry twice on a chain and the ring index in range, however often the
  ring wraps.\<close>

theorem history_threaded: "history_reach db \<Longrightarrow> whowas_ok db"
  by (rule history_reach_ok)

theorem history_threaded_witness:
  "whowas_ok (off_history (add_history 5 initwhowas 7 bob_src True) 7)"
  by (rule history_threaded) (intro history_reach.intros)

text \<open>No dangling client. \<open>off_history(c)\<close>, called when the structure of \<open>c\<close> is released, removes exactly the
  references to \<open>c\<close>: no lookup returns \<open>c\<close> afterwards and every other lookup is unchanged.\<close>

theorem off_history_forgets:
  assumes "whowas_ok db"
  shows "get_history t (off_history db c) nick lim =
      (if get_history t db nick lim = Some c then None else get_history t db nick lim) \<and>
    get_history t (off_history db c) nick lim \<noteq> Some c"
proof -
  let ?db = "off_history db c"
  have on: "i \<in> set (ww_clist db c) \<longleftrightarrow> ww_online (WHOWAS db i) = Some c" for i
    using assms by (simp add: whowas_ok_def)
  have nm: "ww_name (WHOWAS ?db i) = ww_name (WHOWAS db i)" "ww_logoff (WHOWAS ?db i) = ww_logoff (WHOWAS db i)"
    "ww_online (WHOWAS ?db i) = (if ww_online (WHOWAS db i) = Some c then None else ww_online (WHOWAS db i))" for i
    using on [of i] by (auto simp: off_history_def off_loop_apply)
  have h: "WHOWASHASH ?db = WHOWASHASH db" by (simp add: off_history_def)
  show ?thesis
    unfolding get_history_def nm h by (auto split: option.splits)
qed

theorem off_history_forgets_witness:
  "get_history 6 (off_history (add_history 5 initwhowas 7 bob_src True) 7) ''bob'' 90 \<noteq> Some 7"
  using off_history_forgets [OF whowas_ok_add [OF whowas_ok_init], of 6 5 7 bob_src True 7 "''bob''" 90] by blast

text \<open>C38 (chasing a nick change).
  A nick recorded for an online client is found again under any spelling of it, as long as the time
  limit allows, and leads to that client, whatever else is recorded and released afterwards: until the
  same nick is recorded again, the client is released, or the ring comes round to the entry, which
  takes \<open>NICKNAMEHISTORYLENGTH\<close> further records.\<close>

theorem history_chases:
  assumes "whowas_ok db" "same_name nick (ws_name src)" "length (ws_name src) \<le> NICKLEN"
    "cstring nick" "cstring (ws_name src)" "now - lim \<le> t"
    "list_all (spares nick c) ops" "length (filter is_record ops) < NICKNAMEHISTORYLENGTH"
  shows "get_history now (fold history_step ops (add_history t db c src True)) nick lim = Some c"
  by (rule decides_run [OF decides_added [OF assms(1-6)] assms(7,4)]) (use assms(8) in simp)

theorem history_chases_witness:
  "get_history 95 (fold history_step [Record_nick 6 8 (bob_src\<lparr>ws_name := ''al''\<rparr>) True, Release_client 8]
     (add_history 5 initwhowas 7 bob_src True)) ''BOB'' 90 = Some 7"
proof -
  have "same_name ''BOB'' ''Bob''" "\<not> same_name ''BOB'' ''al''" by code_simp+
  then show ?thesis by (intro history_chases whowas_ok_init) (simp_all add: bob_src_def NICKLEN_def NICKNAMEHISTORYLENGTH_def)
qed

end
