(* ===== verification/IpHash.thy ===== *)
theory IpHash
  imports Prelude
begin

text \<open>
  The table of the addresses that clients are connected from, \<open>ip_hash_table\<close> of
  \<open>src/s_conf.c\<close>.  An entry counts the clients of one address; entries come from a free list
  that is allocated once, of which only the length matters.  Addresses are numbers in host
  order, so \<open>ntohl\<close> has been applied.
\<close>

definition IP_HASH_SIZE :: nat where "IP_HASH_SIZE = 0x1000"

record ip_entry =
  ie_ip :: nat
  ie_count :: int

record ip_table =
  ip_chain :: "nat \<Rightarrow> ip_entry list"
  free_ips :: nat

definition hash_ip :: "nat \<Rightarrow> nat" where
  "hash_ip ip = (ip div 2 ^ 12 + ip) mod IP_HASH_SIZE"

definition clear_ip_hash_table :: "nat \<Rightarrow> ip_table" where
  "clear_ip_hash_table n = \<lparr>ip_chain = \<lambda>_. [], free_ips = n\<rparr>"

text \<open>The entry of an address, made with count 0 when there is none; \<open>None\<close> when memory is out.\<close>

definition find_or_add_ip :: "nat \<Rightarrow> ip_table \<Rightarrow> ip_table option" where
  "find_or_add_ip ip t =
     (let h = hash_ip ip in
      if \<exists>e \<in> set (ip_chain t h). ie_ip e = ip then Some t
      else if free_ips t = 0 then None
      else Some (t\<lparr>ip_chain := (ip_chain t)(h := \<lparr>ie_ip = ip, ie_count = 0\<rparr> # ip_chain t h),
                   free_ips := free_ips t - 1\<rparr>))"

text \<open>A change of the first entry of an address in a chain.\<close>

fun upd_entry :: "nat \<Rightarrow> (ip_entry \<Rightarrow> ip_entry) \<Rightarrow> ip_entry list \<Rightarrow> ip_entry list" where
  "upd_entry ip f [] = []"
| "upd_entry ip f (e # es) = (if ie_ip e = ip then f e # es else e # upd_entry ip f es)"

text \<open>The lines of \<open>attach_iline\<close> that count the client: look up, then \<open>count++\<close>.\<close>

definition add_one_ip :: "nat \<Rightarrow> ip_table \<Rightarrow> ip_table option" where
  "add_one_ip ip t = map_option
     (\<lambda>u. u\<lparr>ip_chain := (ip_chain u)(hash_ip ip := upd_entry ip (\<lambda>e. e\<lparr>ie_count := ie_count e + 1\<rparr>) (ip_chain u (hash_ip ip)))\<rparr>)
     (find_or_add_ip ip t)"

fun remove_loop :: "nat \<Rightarrow> ip_entry list \<Rightarrow> (ip_entry list \<times> bool) option" where
  "remove_loop ip [] = None"
| "remove_loop ip (e # es) =
     (if ie_ip e = ip then
        let e' = (if ie_count e \<noteq> 0 then e\<lparr>ie_count := ie_count e - 1\<rparr> else e) in
        if ie_count e' = 0 then Some (es, True) else Some (e' # es, False)
      else map_option (\<lambda>(r, freed). (e # r, freed)) (remove_loop ip es))"

text \<open>\<open>None\<close>: the address is not in the table, which the code reports to the operators.\<close>

definition remove_one_ip :: "nat \<Rightarrow> ip_table \<Rightarrow> ip_table option" where
  "remove_one_ip ip t =
     map_option (\<lambda>(r, freed). t\<lparr>ip_chain := (ip_chain t)(hash_ip ip := r),
       free_ips := free_ips t + (if freed then 1 else 0)\<rparr>)
     (remove_loop ip (ip_chain t (hash_ip ip)))"

section \<open>The table as a count of clients per address\<close>

definition ip_users :: "ip_table \<Rightarrow> nat \<Rightarrow> int" where
  "ip_users t ip = (case find (\<lambda>e. ie_ip e = ip) (ip_chain t (hash_ip ip)) of None \<Rightarrow> 0 | Some e \<Rightarrow> ie_count e)"

definition ip_inv :: "nat \<Rightarrow> ip_table \<Rightarrow> bool" where
  "ip_inv n t \<longleftrightarrow> (\<forall>h. distinct (map ie_ip (ip_chain t h)) \<and> (\<forall>e \<in> set (ip_chain t h). hash_ip (ie_ip e) = h \<and> 0 < ie_count e)) \<and>
     (\<Sum>h<IP_HASH_SIZE. length (ip_chain t h)) + free_ips t = n"

lemma hash_ip_less [simp]: "hash_ip ip < IP_HASH_SIZE"
  by (simp add: hash_ip_def IP_HASH_SIZE_def)

lemma sum_upd:
  fixes f g :: "nat \<Rightarrow> nat"
  assumes "h < n" and "\<And>i. i \<noteq> h \<Longrightarrow> f i = g i"
  shows "(\<Sum>i<n. f i) + g h = (\<Sum>i<n. g i) + f h"
proof -
  have "(\<Sum>i<n. f i) = f h + (\<Sum>i\<in>{..<n} - {h}. f i)" "(\<Sum>i<n. g i) = g h + (\<Sum>i\<in>{..<n} - {h}. g i)"
    using assms(1) by (auto intro: sum.remove)
  moreover have "(\<Sum>i\<in>{..<n} - {h}. f i) = (\<Sum>i\<in>{..<n} - {h}. g i)"
    using assms(2) by (intro sum.cong) auto
  ultimately show ?thesis by simp
qed

text \<open>An operation that changes one chain and keeps its length and the free list in balance.\<close>

lemma ip_inv_step:
  assumes "(\<Sum>h<IP_HASH_SIZE. length (ip_chain t h)) + free_ips t = n"
    and "\<And>h. h \<noteq> hash_ip ip \<Longrightarrow> ip_chain u h = ip_chain t h"
    and "\<And>h. distinct (map ie_ip (ip_chain u h))"
    and "\<And>d h. d \<in> set (ip_chain u h) \<Longrightarrow> hash_ip (ie_ip d) = h \<and> 0 < ie_count d"
    and "length (ip_chain t (hash_ip ip)) + free_ips t = length (ip_chain u (hash_ip ip)) + free_ips u"
  shows "ip_inv n u"
proof -
  have "(\<Sum>h<IP_HASH_SIZE. length (ip_chain u h)) + length (ip_chain t (hash_ip ip)) =
      (\<Sum>h<IP_HASH_SIZE. length (ip_chain t h)) + length (ip_chain u (hash_ip ip))"
    using assms(2) by (intro sum_upd hash_ip_less) simp
  then have "(\<Sum>h<IP_HASH_SIZE. length (ip_chain u h)) + free_ips u = n" using assms(1,5) by linarith
  then show ?thesis using assms(3,4) by (simp add: ip_inv_def)
qed

lemma map_upd_entry [simp]: "(\<And>e. ie_ip (f e) = ie_ip e) \<Longrightarrow> map ie_ip (upd_entry ip f es) = map ie_ip es"
  by (induction es) auto

lemma length_upd_entry [simp]: "length (upd_entry ip f es) = length es"
  by (induction es) auto

lemma set_upd_entry: "e \<in> set (upd_entry ip f es) \<Longrightarrow> e \<in> set es \<or> (\<exists>d \<in> set es. ie_ip d = ip \<and> e = f d)"
  by (induction es) (auto split: if_splits)

lemma find_upd_entry:
  "(\<And>e. ie_ip (f e) = ie_ip e) \<Longrightarrow>
     find (\<lambda>e. ie_ip e = j) (upd_entry ip f es) =
       (if j = ip then map_option f (find (\<lambda>e. ie_ip e = ip) es) else find (\<lambda>e. ie_ip e = j) es)"
  by (induction es) auto

lemma find_ip_None: "find (\<lambda>e. ie_ip e = ip) es = None \<longleftrightarrow> ip \<notin> ie_ip ` set es"
  by (auto simp: find_None_iff)

lemma find_ip_Some: "find (\<lambda>e. ie_ip e = ip) es = Some e \<Longrightarrow> e \<in> set es \<and> ie_ip e = ip"
  by (auto simp: find_Some_iff)

lemma find_ip_unique:
  "distinct (map ie_ip es) \<Longrightarrow> d \<in> set es \<Longrightarrow> find (\<lambda>e. ie_ip e = ie_ip d) es = Some d"
  by (induction es) (auto simp: image_iff)

lemma ip_inv_clear: "ip_inv n (clear_ip_hash_table n)"
  by (simp add: ip_inv_def clear_ip_hash_table_def)

lemma ip_users_clear: "ip_users (clear_ip_hash_table n) ip = 0"
  by (simp add: ip_users_def clear_ip_hash_table_def)

text \<open>What adding and removing do to the chain of the address.\<close>

lemma add_chain:
  assumes "add_one_ip ip t = Some u"
  obtains (old) e where "find (\<lambda>e. ie_ip e = ip) (ip_chain t (hash_ip ip)) = Some e"
      "u = t\<lparr>ip_chain := (ip_chain t)(hash_ip ip := upd_entry ip (\<lambda>e. e\<lparr>ie_count := ie_count e + 1\<rparr>) (ip_chain t (hash_ip ip)))\<rparr>"
    | (new) "ip \<notin> ie_ip ` set (ip_chain t (hash_ip ip))" "free_ips t > 0"
      "u = t\<lparr>ip_chain := (ip_chain t)(hash_ip ip := \<lparr>ie_ip = ip, ie_count = 1\<rparr> # ip_chain t (hash_ip ip)), free_ips := free_ips t - 1\<rparr>"
proof (cases "ip \<in> ie_ip ` set (ip_chain t (hash_ip ip))")
  case True
  then obtain e where "find (\<lambda>e. ie_ip e = ip) (ip_chain t (hash_ip ip)) = Some e"
    using find_ip_None by fastforce
  moreover have "\<exists>e \<in> set (ip_chain t (hash_ip ip)). ie_ip e = ip" using True by auto
  ultimately show ?thesis using assms old by (simp add: add_one_ip_def find_or_add_ip_def Let_def)
next
  case False
  then have n: "\<not> (\<exists>e \<in> set (ip_chain t (hash_ip ip)). ie_ip e = ip)" by auto
  show ?thesis
    by (rule new [OF False])
      (use assms n in \<open>auto simp: add_one_ip_def find_or_add_ip_def Let_def split: if_splits\<close>)
qed

lemma remove_loop_chain:
  "distinct (map ie_ip es) \<Longrightarrow> \<forall>e \<in> set es. 0 < ie_count e \<Longrightarrow> remove_loop ip es = Some (r, freed) \<Longrightarrow>
     \<exists>e. find (\<lambda>e. ie_ip e = ip) es = Some e \<and> freed = (ie_count e = 1) \<and>
       r = (if ie_count e = 1 then filter (\<lambda>e. ie_ip e \<noteq> ip) es else upd_entry ip (\<lambda>e. e\<lparr>ie_count := ie_count e - 1\<rparr>) es) \<and>
       length es = length r + (if freed then 1 else 0)"
proof (induction es arbitrary: r)
  case (Cons a es)
  show ?case
  proof (cases "ie_ip a = ip")
    case True
    then have "\<forall>e \<in> set es. ie_ip e \<noteq> ip" using True Cons.prems(1) by (auto simp: image_iff)
    then have "filter (\<lambda>e. ie_ip e \<noteq> ip) es = es" by (simp add: filter_id_conv)
    then show ?thesis using True Cons.prems by (auto simp: Let_def split: if_splits)
  next
    case False
    then obtain r' where r: "remove_loop ip es = Some (r', freed)" "r = a # r'"
      using Cons.prems(3) by auto
    then show ?thesis using Cons.IH [of r'] Cons.prems False by auto
  qed
qed simp

lemma remove_loop_None: "remove_loop ip es = None \<longleftrightarrow> ip \<notin> ie_ip ` set es"
  by (induction es) (auto simp: Let_def)

lemma remove_chain:
  assumes "ip_inv n t" "remove_one_ip ip t = Some u"
  obtains e where "find (\<lambda>e. ie_ip e = ip) (ip_chain t (hash_ip ip)) = Some e" "0 < ie_count e"
    "u = t\<lparr>ip_chain := (ip_chain t)(hash_ip ip := (if ie_count e = 1 then filter (\<lambda>e. ie_ip e \<noteq> ip) (ip_chain t (hash_ip ip))
        else upd_entry ip (\<lambda>e. e\<lparr>ie_count := ie_count e - 1\<rparr>) (ip_chain t (hash_ip ip)))),
        free_ips := free_ips t + (if ie_count e = 1 then 1 else 0)\<rparr>"
    "length (ip_chain t (hash_ip ip)) = length (ip_chain u (hash_ip ip)) + (if ie_count e = 1 then 1 else 0)"
proof -
  obtain r freed where l: "remove_loop ip (ip_chain t (hash_ip ip)) = Some (r, freed)"
      "u = t\<lparr>ip_chain := (ip_chain t)(hash_ip ip := r), free_ips := free_ips t + (if freed then 1 else 0)\<rparr>"
    using assms(2) by (auto simp: remove_one_ip_def)
  have d: "distinct (map ie_ip (ip_chain t (hash_ip ip)))" "\<forall>e \<in> set (ip_chain t (hash_ip ip)). 0 < ie_count e"
    using assms(1) by (simp_all add: ip_inv_def)
  obtain e where e: "find (\<lambda>e. ie_ip e = ip) (ip_chain t (hash_ip ip)) = Some e" "freed = (ie_count e = 1)"
      "r = (if ie_count e = 1 then filter (\<lambda>e. ie_ip e \<noteq> ip) (ip_chain t (hash_ip ip))
            else upd_entry ip (\<lambda>e. e\<lparr>ie_count := ie_count e - 1\<rparr>) (ip_chain t (hash_ip ip)))"
      "length (ip_chain t (hash_ip ip)) = length r + (if freed then 1 else 0)"
    using remove_loop_chain [OF d l(1)] by blast
  moreover have "0 < ie_count e" using d(2) find_ip_Some [OF e(1)] by simp
  ultimately show ?thesis using l(2) by (intro that [of e]) auto
qed

lemma add_one_ip_inv:
  assumes "ip_inv n t" "add_one_ip ip t = Some u"
  shows "ip_inv n u"
proof -
  have "h \<noteq> hash_ip ip \<Longrightarrow> ip_chain u h = ip_chain t h" for h
    using assms(2) by (auto elim!: add_chain)
  moreover have "distinct (map ie_ip (ip_chain u h))" for h
    using assms(1) by (cases rule: add_chain [OF assms(2)]) (auto simp: ip_inv_def)
  moreover have "hash_ip (ie_ip d) = h \<and> 0 < ie_count d" if "d \<in> set (ip_chain u h)" for d h
    using assms(2)
  proof (cases rule: add_chain)
    case (old e)
    have "\<exists>d' \<in> set (ip_chain t h). ie_ip d = ie_ip d' \<and> ie_count d' \<le> ie_count d"
      using that old(2) by (auto split: if_splits dest!: set_upd_entry)
    then show ?thesis using assms(1) by (force simp: ip_inv_def)
  next
    case new
    then show ?thesis using assms(1) that by (auto simp: ip_inv_def split: if_splits)
  qed
  moreover have "length (ip_chain t (hash_ip ip)) + free_ips t = length (ip_chain u (hash_ip ip)) + free_ips u"
    by (cases rule: add_chain [OF assms(2)]) simp_all
  ultimately show ?thesis using assms(1) by (intro ip_inv_step [of t n ip u]) (auto simp: ip_inv_def)
qed

lemma remove_one_ip_inv:
  assumes "ip_inv n t" "remove_one_ip ip t = Some u"
  shows "ip_inv n u"
proof -
  from assms obtain e where e: "0 < ie_count e"
    "find (\<lambda>e. ie_ip e = ip) (ip_chain t (hash_ip ip)) = Some e"
    "u = t\<lparr>ip_chain := (ip_chain t)(hash_ip ip := (if ie_count e = 1 then filter (\<lambda>e. ie_ip e \<noteq> ip) (ip_chain t (hash_ip ip))
        else upd_entry ip (\<lambda>e. e\<lparr>ie_count := ie_count e - 1\<rparr>) (ip_chain t (hash_ip ip)))),
        free_ips := free_ips t + (if ie_count e = 1 then 1 else 0)\<rparr>"
    "length (ip_chain t (hash_ip ip)) = length (ip_chain u (hash_ip ip)) + (if ie_count e = 1 then 1 else 0)"
    by (blast elim: remove_chain)
  have uniq: "d \<in> set (ip_chain t (hash_ip ip)) \<Longrightarrow> ie_ip d = ip \<Longrightarrow> d = e" for d
    using assms(1) e(2) find_ip_unique [of "ip_chain t (hash_ip ip)" d] by (simp add: ip_inv_def)
  have "h \<noteq> hash_ip ip \<Longrightarrow> ip_chain u h = ip_chain t h" for h
    using e(3) by simp
  moreover have "distinct (map ie_ip (ip_chain u h))" for h
    using assms(1) e(3) by (auto simp: ip_inv_def distinct_map_filter)
  moreover have "hash_ip (ie_ip d) = h \<and> 0 < ie_count d" if "d \<in> set (ip_chain u h)" for d h
  proof -
    have inv: "hash_ip (ie_ip c) = k \<and> 0 < ie_count c" if "c \<in> set (ip_chain t k)" for c k
      using assms(1) that by (simp add: ip_inv_def)
    have c: "d \<in> set (ip_chain t h) \<or>
        h = hash_ip ip \<and> ie_count e \<noteq> 1 \<and> (\<exists>c \<in> set (ip_chain t h). ie_ip c = ip \<and> d = c\<lparr>ie_count := ie_count c - 1\<rparr>)"
      using that by (auto simp: e(3) split: if_splits dest!: set_upd_entry)
    then show ?thesis
    proof
      assume "h = hash_ip ip \<and> ie_count e \<noteq> 1 \<and> (\<exists>c \<in> set (ip_chain t h). ie_ip c = ip \<and> d = c\<lparr>ie_count := ie_count c - 1\<rparr>)"
      then show ?thesis using uniq e(1) by auto
    qed (rule inv)
  qed
  moreover have "length (ip_chain t (hash_ip ip)) + free_ips t = length (ip_chain u (hash_ip ip)) + free_ips u"
    using e(4) by (simp add: e(3))
  ultimately show ?thesis using assms(1) by (intro ip_inv_step [of t n ip u]) (auto simp: ip_inv_def)
qed

lemma add_one_ip_users:
  assumes "add_one_ip ip t = Some u"
  shows "ip_users u j = ip_users t j + (if j = ip then 1 else 0)"
  using assms
proof (cases rule: add_chain)
  case new
  then have "find (\<lambda>e. ie_ip e = ip) (ip_chain t (hash_ip ip)) = None" by (simp add: find_ip_None)
  then show ?thesis using new by (simp add: ip_users_def)
qed (simp add: ip_users_def find_upd_entry split: option.split)

lemma find_filter_other:
  "find (\<lambda>e. ie_ip e = j) (filter (\<lambda>e. ie_ip e \<noteq> ip) es) = (if j = ip then None else find (\<lambda>e. ie_ip e = j) es)"
  by (induction es) auto

lemma remove_one_ip_users:
  assumes "ip_inv n t" "remove_one_ip ip t = Some u"
  shows "ip_users u j = ip_users t j - (if j = ip then 1 else 0)"
proof -
  obtain e where e: "find (\<lambda>e. ie_ip e = ip) (ip_chain t (hash_ip ip)) = Some e"
    "u = t\<lparr>ip_chain := (ip_chain t)(hash_ip ip := (if ie_count e = 1 then filter (\<lambda>e. ie_ip e \<noteq> ip) (ip_chain t (hash_ip ip))
        else upd_entry ip (\<lambda>e. e\<lparr>ie_count := ie_count e - 1\<rparr>) (ip_chain t (hash_ip ip)))),
        free_ips := free_ips t + (if ie_count e = 1 then 1 else 0)\<rparr>"
    by (rule remove_chain [OF assms])
  show ?thesis
    by (cases "ie_count e = 1"; cases "j = ip") (simp_all add: ip_users_def e find_upd_entry find_filter_other)
qed

text \<open>The clients that come and go, in order; \<open>None\<close> as soon as an operation fails.\<close>

datatype ip_event = Attach nat | Detach nat

fun ip_run :: "ip_event list \<Rightarrow> ip_table \<Rightarrow> ip_table option" where
  "ip_run [] t = Some t"
| "ip_run (Attach ip # es) t = Option.bind (add_one_ip ip t) (ip_run es)"
| "ip_run (Detach ip # es) t = Option.bind (remove_one_ip ip t) (ip_run es)"

lemma ip_run_from:
  "ip_inv n t \<Longrightarrow> ip_run es t = Some u \<Longrightarrow> ip_inv n u \<and>
     ip_users u ip = ip_users t ip + int (count_list es (Attach ip)) - int (count_list es (Detach ip))"
proof (induction es t rule: ip_run.induct)
  case (2 i es t)
  then obtain v where v: "add_one_ip i t = Some v" "ip_run es v = Some u" by (auto split: bind_splits)
  then show ?case using 2 add_one_ip_inv [OF 2(2) v(1)] add_one_ip_users [OF v(1), of ip] by simp
next
  case (3 i es t)
  then obtain v where v: "remove_one_ip i t = Some v" "ip_run es v = Some u" by (auto split: bind_splits)
  then show ?case
    using 3 remove_one_ip_inv [OF 3(2) v(1)] remove_one_ip_users [OF 3(2) v(1), of ip] by simp
qed simp

text \<open>An operation fails only when it must: memory is out, or the address has no client.\<close>

lemma add_one_ip_None: "add_one_ip ip t = None \<longleftrightarrow> ip \<notin> ie_ip ` set (ip_chain t (hash_ip ip)) \<and> free_ips t = 0"
  by (auto simp: add_one_ip_def find_or_add_ip_def Let_def)

lemma remove_one_ip_None:
  assumes "ip_inv n t"
  shows "remove_one_ip ip t = None \<longleftrightarrow> ip_users t ip = 0"
proof -
  have pos: "\<forall>e \<in> set (ip_chain t (hash_ip ip)). 0 < ie_count e" using assms by (simp add: ip_inv_def)
  have "ip_users t ip = 0 \<longleftrightarrow> find (\<lambda>e. ie_ip e = ip) (ip_chain t (hash_ip ip)) = None"
    using pos by (auto simp: ip_users_def split: option.split dest!: find_ip_Some)
  then show ?thesis by (simp add: remove_one_ip_def remove_loop_None find_ip_None)
qed

text \<open>C28 (address counts).
  Started empty with \<open>n\<close> entries, the table after any run of connections and disconnections
  counts for every address exactly the clients still connected from it, and every entry is
  either in a chain or on the free list.\<close>

theorem ip_hash_counts:
  assumes "ip_run es (clear_ip_hash_table n) = Some t"
  shows "ip_users t ip = int (count_list es (Attach ip)) - int (count_list es (Detach ip)) \<and>
    (\<Sum>h<IP_HASH_SIZE. length (ip_chain t h)) + free_ips t = n"
  using ip_run_from [OF ip_inv_clear assms, of ip] by (simp add: ip_users_clear ip_inv_def)

theorem ip_hash_counts_witness:
  "ip_users (the (ip_run [Attach 7, Attach 7, Attach 4096, Detach 7] (clear_ip_hash_table 2))) 7 = 1"
proof -
  have r: "ip_run [Attach 7, Attach 7, Attach 4096, Detach 7] (clear_ip_hash_table 2) \<noteq> None" by code_simp
  then obtain t where t: "ip_run [Attach 7, Attach 7, Attach 4096, Detach 7] (clear_ip_hash_table 2) = Some t" by blast
  show ?thesis using ip_hash_counts [OF t, of 7] by (simp add: t del: ip_run.simps)
qed

end
