(* ===== verification/Scache.thy ===== *)
theory Scache
  imports CharTab
begin

text \<open>
  The cache of server names, \<open>src/scache.c\<close>: \<open>find_or_add\<close> maps a name to the one stored
  spelling of it.  An entry is its name; the table is a list for each hash value.
\<close>

type_synonym scache_tab = "nat \<Rightarrow> cstr list"

definition SCACHE_HASH_SIZE :: nat where "SCACHE_HASH_SIZE = 257"
definition SCACHE_NAMELEN :: nat where "SCACHE_NAMELEN = 63"

definition clear_scache_hash_table :: scache_tab where
  "clear_scache_hash_table = (\<lambda>_. [])"

fun scache_sum :: "cstr \<Rightarrow> nat" where
  "scache_sum [] = 0"
| "scache_sum (c # cs) = of_char (ToLower c) + scache_sum cs"

definition scache_hash :: "cstr \<Rightarrow> nat" where
  "scache_hash s = scache_sum s mod SCACHE_HASH_SIZE"

definition find_or_add :: "cstr \<Rightarrow> scache_tab \<Rightarrow> cstr \<times> scache_tab" where
  "find_or_add name t =
     (let h = scache_hash name in
      case find (\<lambda>e. irccmp e name = 0) (t h) of
        Some e \<Rightarrow> (e, t)
      | None \<Rightarrow> let e = take SCACHE_NAMELEN name in (e, t(h := e # t h)))"

lemma scache_sum_map: "scache_sum s = sum_list (map of_char (map ToLower s))"
  by (induction s) simp_all

lemma scache_sum_same: "map ToLower s = map ToLower u \<Longrightarrow> scache_sum s = scache_sum u"
  by (simp only: scache_sum_map)

lemma scache_hash_same: "same_name s u \<Longrightarrow> scache_hash s = scache_hash u"
  by (auto simp: scache_hash_def same_name_def dest: scache_sum_same)

text \<open>One spelling for each server name. \<open>find_or_add\<close> answers any spelling of a name that fits in an entry with one and the same stored
  string, that string is the name up to case, and every later call with any spelling gives it
  again and adds nothing.\<close>

theorem scache_one_spelling:
  assumes "cstring nm" "cstring nm'" "same_name nm nm'" "length nm \<le> SCACHE_NAMELEN" "\<forall>h. \<forall>e \<in> set (t h). cstring e"
  shows "same_name (fst (find_or_add nm t)) nm \<and>
    find_or_add nm' (snd (find_or_add nm t)) = find_or_add nm t"
proof -
  have h: "scache_hash nm' = scache_hash nm" using scache_hash_same [OF assms(3)] by simp
  have c: "irccmp e nm = 0 \<longleftrightarrow> same_name e nm" "irccmp e nm' = 0 \<longleftrightarrow> same_name e nm'" if "cstring e" for e
    using that assms(1,2) by (simp_all add: irccmp_0_iff)
  have eq: "irccmp e nm' = 0 \<longleftrightarrow> irccmp e nm = 0" if "cstring e" for e
    using c [OF that] assms(3) by (auto simp: same_name_def)
  show ?thesis
  proof (cases "find (\<lambda>e. irccmp e nm = 0) (t (scache_hash nm))")
    case None
    have n: "irccmp nm nm' = 0" "same_name nm nm" using assms(1-3) by (simp_all add: irccmp_0_iff same_name_def)
    then show ?thesis using None assms(4) h by (simp add: find_or_add_def Let_def)
  next
    case (Some e)
    then have e: "e \<in> set (t (scache_hash nm))" "irccmp e nm = 0" by (auto simp: find_Some_iff)
    have "find (\<lambda>e. irccmp e nm' = 0) (t (scache_hash nm)) = find (\<lambda>e. irccmp e nm = 0) (t (scache_hash nm))"
      by (rule find_cong) (use eq assms(5) in auto)
    then show ?thesis using Some e c(1) [of e] assms(5) h by (auto simp: find_or_add_def Let_def)
  qed
qed

theorem scache_one_spelling_witness:
  "find_or_add ''IRC.net'' (snd (find_or_add ''irc.NET'' clear_scache_hash_table)) = find_or_add ''irc.NET'' clear_scache_hash_table"
proof -
  have "same_name ''irc.NET'' ''IRC.net''" by code_simp
  then show ?thesis
    using scache_one_spelling [of "''irc.NET''" "''IRC.net''" clear_scache_hash_table]
    by (simp add: clear_scache_hash_table_def SCACHE_NAMELEN_def)
qed

end
