(* ===== verification/ConfItem.thy ===== *)
theory ConfItem
  imports Prelude
begin

text \<open>
  The data of the configuration: \<open>struct ConfItem\<close> and \<open>aQlineItem\<close> of \<open>include/s_conf.h\<close> and
  \<open>struct Class\<close> of \<open>include/class.h\<close>.  Items and classes are known by identity; a null string is
  \<open>None\<close>.  \<open>ci_freed\<close> and \<open>cls_freed\<close> record that the memory was freed.
\<close>

type_synonym confid = nat
type_synonym classid = nat

record conf_item =
  ci_status :: flags
  ci_flags :: flags
  ci_clients :: int
  ci_ipnum :: "nat list"
  ci_ip :: "32 word"
  ci_ip_mask :: "32 word"
  ci_name :: "cstr option"
  ci_host :: "cstr option"
  ci_passwd :: "cstr option"
  ci_user :: "cstr option"
  ci_port :: int
  ci_hold :: int
  ci_class :: "classid option"
  ci_freed :: bool

record qline_item =
  q_name :: "cstr option"
  q_confs :: "confid list"

record conn_class =
  cls_type :: int
  cls_conFreq :: int
  cls_pingFreq :: int
  cls_maxLinks :: int
  cls_maxSendq :: int
  cls_links :: int
  cls_freed :: bool

section \<open>Kinds of items\<close>

definition CONF_ILLEGAL :: flags where "CONF_ILLEGAL = 0x80000000"
definition CONF_CLIENT :: flags where "CONF_CLIENT = 0x0002"
definition CONF_CONNECT_SERVER :: flags where "CONF_CONNECT_SERVER = 0x0004"
definition CONF_NOCONNECT_SERVER :: flags where "CONF_NOCONNECT_SERVER = 0x0008"
definition CONF_LOCOP :: flags where "CONF_LOCOP = 0x0010"
definition CONF_OPERATOR :: flags where "CONF_OPERATOR = 0x0020"
definition CONF_KILL :: flags where "CONF_KILL = 0x0080"
definition CONF_LEAF :: flags where "CONF_LEAF = 0x0800"
definition CONF_HUB :: flags where "CONF_HUB = 0x2000"
definition CONF_ELINE :: flags where "CONF_ELINE = 0x4000"
definition CONF_DLINE :: flags where "CONF_DLINE = 0x20000"
definition CONF_XLINE :: flags where "CONF_XLINE = 0x40000"
definition CONF_ULINE :: flags where "CONF_ULINE = 0x80000"
definition CONF_OPS :: flags where "CONF_OPS = CONF_OPERATOR OR CONF_LOCOP"
definition CONF_SERVER_MASK :: flags where "CONF_SERVER_MASK = CONF_CONNECT_SERVER OR CONF_NOCONNECT_SERVER"
definition CONF_CLIENT_MASK :: flags where "CONF_CLIENT_MASK = CONF_CLIENT OR CONF_OPS OR CONF_SERVER_MASK"

lemmas conf_flag_defs = CONF_ILLEGAL_def CONF_CLIENT_def CONF_CONNECT_SERVER_def CONF_NOCONNECT_SERVER_def
  CONF_LOCOP_def CONF_OPERATOR_def CONF_KILL_def CONF_LEAF_def CONF_HUB_def CONF_ELINE_def CONF_DLINE_def
  CONF_XLINE_def CONF_ULINE_def CONF_OPS_def CONF_SERVER_MASK_def CONF_CLIENT_MASK_def

section \<open>Flags of items\<close>

definition CONF_FLAGS_NO_TILDE :: flags where "CONF_FLAGS_NO_TILDE = 0x000002"
definition CONF_FLAGS_NEED_IDENTD :: flags where "CONF_FLAGS_NEED_IDENTD = 0x000004"
definition CONF_FLAGS_E_LINED :: flags where "CONF_FLAGS_E_LINED = 0x000020"
definition CONF_FLAGS_F_LINED :: flags where "CONF_FLAGS_F_LINED = 0x000080"
definition CONF_FLAGS_CANFLOOD :: flags where "CONF_FLAGS_CANFLOOD = 0x004000"
definition CONF_FLAGS_DO_IDENTD :: flags where "CONF_FLAGS_DO_IDENTD = 0x000200"
definition CONF_FLAGS_ALLOW_AUTO_CONN :: flags where "CONF_FLAGS_ALLOW_AUTO_CONN = 0x000400"
definition CONF_FLAGS_ZIP_LINK :: flags where "CONF_FLAGS_ZIP_LINK = 0x000800"
definition CONF_FLAGS_SPOOF_IP :: flags where "CONF_FLAGS_SPOOF_IP = 0x001000"
definition CONF_FLAGS_RESOLVE :: flags where "CONF_FLAGS_RESOLVE = 0x010000"

definition IsIllegal :: "conf_item \<Rightarrow> bool" where "IsIllegal a = has_flag (ci_status a) CONF_ILLEGAL"
definition IsMustResolve :: "conf_item \<Rightarrow> bool" where "IsMustResolve a = has_flag (ci_flags a) CONF_FLAGS_RESOLVE"
definition IsNoTilde :: "conf_item \<Rightarrow> bool" where "IsNoTilde a = has_flag (ci_flags a) CONF_FLAGS_NO_TILDE"
definition IsNeedIdentd :: "conf_item \<Rightarrow> bool" where "IsNeedIdentd a = has_flag (ci_flags a) CONF_FLAGS_NEED_IDENTD"
definition IsConfElined :: "conf_item \<Rightarrow> bool" where "IsConfElined a = has_flag (ci_flags a) CONF_FLAGS_E_LINED"
definition IsConfFlined :: "conf_item \<Rightarrow> bool" where "IsConfFlined a = has_flag (ci_flags a) CONF_FLAGS_F_LINED"
definition IsConfCanFlood :: "conf_item \<Rightarrow> bool" where "IsConfCanFlood a = has_flag (ci_flags a) CONF_FLAGS_CANFLOOD"
definition IsConfDoIdentd :: "conf_item \<Rightarrow> bool" where "IsConfDoIdentd a = has_flag (ci_flags a) CONF_FLAGS_DO_IDENTD"
definition IsConfDoSpoofIp :: "conf_item \<Rightarrow> bool" where "IsConfDoSpoofIp a = has_flag (ci_flags a) CONF_FLAGS_SPOOF_IP"

definition zero_conf :: conf_item where
  "zero_conf = \<lparr>ci_status = CONF_ILLEGAL, ci_flags = 0, ci_clients = 0, ci_ipnum = [255, 255, 255, 255], ci_ip = 0,
     ci_ip_mask = 0, ci_name = None, ci_host = None, ci_passwd = None, ci_user = None, ci_port = 0, ci_hold = 0,
     ci_class = None, ci_freed = False\<rparr>"

definition zero_class :: conn_class where
  "zero_class = \<lparr>cls_type = 0, cls_conFreq = 600, cls_pingFreq = 120, cls_maxLinks = 1, cls_maxSendq = 15000000,
     cls_links = 0, cls_freed = False\<rparr>"

end
