(* ===== verification/World.thy ===== *)
theory World
  imports Whowas Match IpHash Scache ConfItem
begin

text \<open>
  The state of the server that the channel code reads and writes, and the sending
  primitives of \<open>src/send.c\<close> it calls.  Clients and channels live in total maps from their
  identity; \<open>chan_list\<close> is the list \<open>channel\<close> along \<open>nextch\<close>, \<open>chan_tab\<close> and \<open>client_tab\<close> the
  hash tables.  Links are list elements: \<open>members\<close> has the client and its flags, the other
  lists hold the value of the link.  \<open>outl\<close> is the log of what was handed to
  \<open>vsendto_one\<close> and \<open>vsendto_prefix_one\<close>, one entry per receiver, as format and arguments
  (the formatting itself is not part of this theory).

  Counters of type \<open>int\<close> and times are unbounded integers.
\<close>

section \<open>Data\<close>

definition USERLEN :: nat where "USERLEN = 10"
definition TOPICLEN :: nat where "TOPICLEN = 120"
definition CHANNELLEN :: nat where "CHANNELLEN = 200"
definition KEYLEN :: nat where "KEYLEN = 23"
definition BUFSIZE :: nat where "BUFSIZE = 512"
definition MODEBUFLEN :: nat where "MODEBUFLEN = 200"
definition MAXMODEPARAMS :: nat where "MAXMODEPARAMS = 4"
definition MAXCHANNELSPERUSER :: nat where "MAXCHANNELSPERUSER = 20"
definition KILLCHASETIMELIMIT :: int where "KILLCHASETIMELIMIT = 90"

text \<open>Arguments of a format, and formats: a literal or the text of a numeric.\<close>

datatype arg = Str cstr | Num int | Chr char

datatype fmt = Fmt cstr | form_str nat

datatype out =
    One cid fmt "arg list"             \<comment> \<open>\<open>vsendto_one(to, ...)\<close>\<close>
  | Prefix cid cid fmt "arg list"      \<comment> \<open>\<open>vsendto_prefix_one(to, from, ...)\<close>\<close>
  | Notice cid fmt "arg list"          \<comment> \<open>an operator notice: \<open>:me NOTICE oper :*** Notice --\<close> and the text\<close>

record user =
  u_channel :: "chid list"
  u_invited :: "chid list"
  u_joined :: int
  u_server :: cstr
  u_away :: "cstr option"
  u_last :: int

record server =
  sv_up :: "cstr option"
  sv_servers :: "cid list"
  sv_users :: "cid list"
  sv_usercnt :: int
  sv_nline :: "int option"

record fludbot =
  fl_fluder :: cid
  fl_count :: int
  fl_first_msg :: int
  fl_last_msg :: int

datatype target = TClient cid | TChannel chid

record client =
  name :: cstr
  username :: cstr
  host :: cstr
  info :: cstr
  ip :: "nat list"
  status :: flags
  umodes :: flags
  cflags :: flags
  flags2 :: flags
  local_flag :: bool
  fd :: int
  cfrom :: cid
  servptr :: cid
  hopcount :: int
  tsinfo :: int
  caps :: flags
  user :: "user option"
  fludees :: "target list"
  fluders :: "fludbot list"
  fludblock :: int
  last_join_time :: int
  last_leave_time :: int
  join_leave_count :: int
  oper_warn_count_down :: int
  cl_serv :: "server option"
  cl_since :: int
  cl_lasttime :: int
  cl_firsttime :: int
  cl_sockhost :: cstr
  cl_passwd :: cstr
  nick_changed_at :: int
  nick_changes :: int
  null_from :: bool
  null_servptr :: bool
  sentB :: nat
  sentK :: nat
  recvM :: int
  recvB :: nat
  recvK :: nat
  linebuf :: cstr
  first_msg_time :: int
  num_privmsgs :: int
  drone_noticed :: int
  recvq :: cstr
  sendq_len :: int
  sendq_max :: int
  cl_confs :: "confid list"
  listener_name :: cstr
  listener_port :: int

record ban =
  banstr :: cstr
  banwho :: cstr
  banwhen :: int

record member =
  m_client :: cid
  m_flags :: flags

record chanmode =
  modes :: flags
  limit :: int
  key :: cstr

record channel =
  chname :: cstr
  mode :: chanmode
  topic :: cstr
  topic_nick :: cstr
  topic_time :: int
  users :: int
  members :: "member list"
  invites :: "cid list"
  banlist :: "ban list"
  exceptlist :: "ban list"
  invexlist :: "ban list"
  num_bed :: int
  juped :: bool
  channelts :: int
  ch_fludblock :: int
  ch_fluders :: "fludbot list"
  ch_fluders_freed :: bool

text \<open>\<open>ch_fluders_freed\<close> records that the memory \<open>chptr->fluders\<close> points to was freed.\<close>

text \<open>
  Of \<open>struct ServerStatistics\<close> the counters of events; \<open>sv_nline\<close> is the \<open>port\<close> field of the link's
  N-line, \<open>local_conns\<close> the array \<open>local[]\<close> in the order of its descriptors.  \<open>linebuf\<close> is what
  \<open>buffer\<close> holds of a line that is not yet complete, so \<open>count\<close> is its length.  \<open>sendq_len\<close> and
  \<open>sendq_max\<close> stand for \<open>DBufLength(&sendQ)\<close> and \<open>get_sendq\<close>.  \<open>null_from\<close> and \<open>null_servptr\<close> say that the
  pointer \<open>from\<close> or \<open>servptr\<close> is null.
\<close>

record server_stats =
  is_cl :: int
  is_sv :: int
  is_ni :: int
  is_ref :: int
  is_unco :: int
  is_wrdi :: int
  is_unpf :: int
  is_empt :: int
  is_num :: int
  is_kill :: int
  is_cbs :: nat
  is_cbr :: nat
  is_sbs :: nat
  is_sbr :: nat
  is_cks :: nat
  is_ckr :: nat
  is_sks :: nat
  is_skr :: nat
  is_cti :: int
  is_sti :: int

record world =
  clients :: "cid \<Rightarrow> client"
  chans :: "chid \<Rightarrow> channel"
  chan_list :: "chid list"
  next_chan :: chid
  client_tab :: "cid htable"
  chan_tab :: "chid htable"
  history :: whowas_db
  me :: cid
  serv_list :: "cid list"
  oper_list :: "cid list"
  local_list :: "cid list"
  client_list :: "cid list"
  now :: int
  count_chan :: int
  count_server :: int
  count_total :: int
  count_oper :: int
  count_invisi :: int
  maxbans :: int
  spam_num :: int
  spam_time :: int
  splitdelay :: int
  splitnum :: int
  splitusers :: int
  server_was_split :: bool
  server_split_time :: int
  got_server_pong :: bool
  cold_start :: bool
  flud_num :: int
  flud_time :: int
  flud_block :: int
  is_flud :: int
  wall_clock :: int
  ts_last :: int
  ts_warnings :: int
  next_client :: cid
  local_conns :: "cid list"
  count_local :: int
  count_max_loc :: int
  count_max_tot :: int
  count_myserver :: int
  sstat :: server_stats
  msg_count :: "cstr \<Rightarrow> int"
  msg_bytes :: "cstr \<Rightarrow> int"
  dronetime :: int
  dronecount :: int
  iptab :: ip_table
  scache :: scache_tab
  count_restart :: int
  count_unknown :: int
  lusers_time :: int
  max_client_count :: int
  max_conn_count :: int
  nextping :: int
  confs :: "confid \<Rightarrow> conf_item"
  classes :: "classid \<Rightarrow> conn_class"
  next_class :: classid
  class_list :: "classid list"
  conf_list :: "confid list"
  q_conf :: "qline_item list"
  x_conf :: "confid list"
  u_conf :: "confid list"
  temporary_klines :: "confid list"
  temporary_ip_klines :: "confid list"
  mtrie :: "cstr \<Rightarrow> cstr \<Rightarrow> 32 word \<Rightarrow> confid option"
  nextconnect :: int
  autoconn :: int
  maxclients :: int
  ircd_version :: cstr
  creation :: cstr
  motd :: "cstr list option"
  outl :: "out list"

abbreviation cl :: "world \<Rightarrow> cid \<Rightarrow> client" where "cl w c \<equiv> clients w c"
abbreviation ch :: "world \<Rightarrow> chid \<Rightarrow> channel" where "ch w x \<equiv> chans w x"

abbreviation upd_cl :: "cid \<Rightarrow> (client \<Rightarrow> client) \<Rightarrow> world \<Rightarrow> world" where
  "upd_cl c f w \<equiv> w\<lparr>clients := (clients w)(c := f (clients w c))\<rparr>"

abbreviation upd_ch :: "chid \<Rightarrow> (channel \<Rightarrow> channel) \<Rightarrow> world \<Rightarrow> world" where
  "upd_ch x f w \<equiv> w\<lparr>chans := (chans w)(x := f (chans w x))\<rparr>"

section \<open>Status and flag macros\<close>

definition STAT_CONNECTING :: flags where "STAT_CONNECTING = 0x01"
definition STAT_HANDSHAKE :: flags where "STAT_HANDSHAKE = 0x02"
definition STAT_ME :: flags where "STAT_ME = 0x04"
definition STAT_UNKNOWN :: flags where "STAT_UNKNOWN = 0x08"
definition STAT_SERVER :: flags where "STAT_SERVER = 0x10"
definition STAT_CLIENT :: flags where "STAT_CLIENT = 0x20"

definition FLAGS_DEADSOCKET :: flags where "FLAGS_DEADSOCKET = 0x0002"
definition FLAGS_SERVNOTICE :: flags where "FLAGS_SERVNOTICE = 0x000001"
definition FLAGS_SKILL :: flags where "FLAGS_SKILL = 0x000008"
definition FLAGS_SPY :: flags where "FLAGS_SPY = 0x000020"
definition FLAGS_INVISIBLE :: flags where "FLAGS_INVISIBLE = 0x000400"
definition FLAGS_BOTS :: flags where "FLAGS_BOTS = 0x000800"
definition FLAGS_OPER :: flags where "FLAGS_OPER = 0x004000"
definition FLAGS_LOCOP :: flags where "FLAGS_LOCOP = 0x008000"

definition CAP_CHW :: flags where "CAP_CHW = 0x00000010"
definition CAP_KNOCK :: flags where "CAP_KNOCK = 0x00000020"
definition CAP_EX :: flags where "CAP_EX = 0x00000008"
definition CAP_IE :: flags where "CAP_IE = 0x00000400"

definition CHFL_CHANOP :: flags where "CHFL_CHANOP = 0x0001"
definition CHFL_VOICE :: flags where "CHFL_VOICE = 0x0002"
definition CHFL_DEOPPED :: flags where "CHFL_DEOPPED = 0x0004"
definition CHFL_BAN :: flags where "CHFL_BAN = 0x0008"
definition CHFL_EXCEPTION :: flags where "CHFL_EXCEPTION = 0x0010"
definition CHFL_INVEX :: flags where "CHFL_INVEX = 0x0020"

definition MODE_CHANOP :: flags where "MODE_CHANOP = CHFL_CHANOP"
definition MODE_VOICE :: flags where "MODE_VOICE = CHFL_VOICE"
definition MODE_DEOPPED :: flags where "MODE_DEOPPED = CHFL_DEOPPED"
definition MODE_PRIVATE :: flags where "MODE_PRIVATE = 0x0008"
definition MODE_SECRET :: flags where "MODE_SECRET = 0x0010"
definition MODE_MODERATED :: flags where "MODE_MODERATED = 0x0020"
definition MODE_TOPICLIMIT :: flags where "MODE_TOPICLIMIT = 0x0040"
definition MODE_INVITEONLY :: flags where "MODE_INVITEONLY = 0x0080"
definition MODE_NOPRIVMSGS :: flags where "MODE_NOPRIVMSGS = 0x0100"
definition MODE_LIMIT :: flags where "MODE_LIMIT = 0x2000"
definition MODE_FLAGS :: flags where "MODE_FLAGS = 0x2fff"
definition MODE_QUERY :: flags where "MODE_QUERY = 0x10000000"
definition MODE_ADD :: flags where "MODE_ADD = 0x40000000"
definition MODE_DEL :: flags where "MODE_DEL = 0x20000000"

lemmas chfl_defs = CHFL_CHANOP_def CHFL_VOICE_def CHFL_DEOPPED_def CHFL_BAN_def
  CHFL_EXCEPTION_def CHFL_INVEX_def MODE_CHANOP_def MODE_VOICE_def MODE_DEOPPED_def

lemmas mode_defs = MODE_PRIVATE_def MODE_SECRET_def MODE_MODERATED_def MODE_TOPICLIMIT_def
  MODE_INVITEONLY_def MODE_NOPRIVMSGS_def MODE_LIMIT_def MODE_FLAGS_def MODE_QUERY_def
  MODE_ADD_def MODE_DEL_def

definition IsServer :: "client \<Rightarrow> bool" where "IsServer c = (status c = STAT_SERVER)"
definition IsMe :: "client \<Rightarrow> bool" where "IsMe c = (status c = STAT_ME)"
definition IsClient :: "client \<Rightarrow> bool" where "IsClient c = (status c = STAT_CLIENT)"
definition IsPerson :: "client \<Rightarrow> bool" where "IsPerson c = (IsClient c \<and> user c \<noteq> None)"
definition IsUnknown :: "client \<Rightarrow> bool" where "IsUnknown c = (status c = STAT_UNKNOWN)"
definition IsConnecting :: "client \<Rightarrow> bool" where "IsConnecting c = (status c = STAT_CONNECTING)"
definition IsHandshake :: "client \<Rightarrow> bool" where "IsHandshake c = (status c = STAT_HANDSHAKE)"
definition IsRegistered :: "client \<Rightarrow> bool" where "IsRegistered c = (status c > STAT_UNKNOWN)"
definition IsRegisteredUser :: "client \<Rightarrow> bool" where "IsRegisteredUser c = (status c = STAT_CLIENT)"
definition MyConnect :: "client \<Rightarrow> bool" where "MyConnect c = local_flag c"
definition MyClient :: "client \<Rightarrow> bool" where "MyClient c = (MyConnect c \<and> IsClient c)"
definition IsDead :: "client \<Rightarrow> bool" where "IsDead c = has_flag (cflags c) FLAGS_DEADSOCKET"
definition IsOper :: "client \<Rightarrow> bool" where "IsOper c = has_flag (umodes c) FLAGS_OPER"
definition IsAnOper :: "client \<Rightarrow> bool" where "IsAnOper c = has_flag (umodes c) (FLAGS_OPER OR FLAGS_LOCOP)"
definition IsInvisible :: "client \<Rightarrow> bool" where "IsInvisible c = has_flag (umodes c) FLAGS_INVISIBLE"
definition IsCapable :: "client \<Rightarrow> flags \<Rightarrow> bool" where "IsCapable c cap = has_flag (caps c) cap"
definition SendServNotice :: "client \<Rightarrow> bool" where
  "SendServNotice c = (has_flag (umodes c) FLAGS_SERVNOTICE \<and> IsAnOper c)"

definition IsChannelName :: "cstr \<Rightarrow> bool" where
  "IsChannelName nm = (at nm 0 = CHR ''#'' \<or> at nm 0 = CHR ''&'')"

text \<open>\<open>BadPtr\<close>: a null pointer or an empty string.\<close>

definition BadPtr :: "cstr option \<Rightarrow> bool" where
  "BadPtr p = (case p of None \<Rightarrow> True | Some s \<Rightarrow> s = [])"

section \<open>Numerics\<close>

definition RPL_UMODEIS :: nat where "RPL_UMODEIS = 221"
definition RPL_AWAY :: nat where "RPL_AWAY = 301"
definition RPL_USERHOST :: nat where "RPL_USERHOST = 302"
definition RPL_ISON :: nat where "RPL_ISON = 303"
definition RPL_UNAWAY :: nat where "RPL_UNAWAY = 305"
definition RPL_NOWAWAY :: nat where "RPL_NOWAWAY = 306"
definition RPL_CHANNELMODEIS :: nat where "RPL_CHANNELMODEIS = 324"
definition RPL_CREATIONTIME :: nat where "RPL_CREATIONTIME = 329"
definition RPL_NOTOPIC :: nat where "RPL_NOTOPIC = 331"
definition RPL_TOPIC :: nat where "RPL_TOPIC = 332"
definition RPL_TOPICWHOTIME :: nat where "RPL_TOPICWHOTIME = 333"
definition RPL_INVITING :: nat where "RPL_INVITING = 341"
definition RPL_INVEXLIST :: nat where "RPL_INVEXLIST = 346"
definition RPL_ENDOFINVEXLIST :: nat where "RPL_ENDOFINVEXLIST = 347"
definition RPL_EXCEPTLIST :: nat where "RPL_EXCEPTLIST = 348"
definition RPL_ENDOFEXCEPTLIST :: nat where "RPL_ENDOFEXCEPTLIST = 349"
definition RPL_NAMREPLY :: nat where "RPL_NAMREPLY = 353"
definition RPL_ENDOFNAMES :: nat where "RPL_ENDOFNAMES = 366"
definition RPL_BANLIST :: nat where "RPL_BANLIST = 367"
definition RPL_ENDOFBANLIST :: nat where "RPL_ENDOFBANLIST = 368"
definition ERR_NOSUCHNICK :: nat where "ERR_NOSUCHNICK = 401"
definition ERR_NOSUCHSERVER :: nat where "ERR_NOSUCHSERVER = 402"
definition ERR_NOSUCHCHANNEL :: nat where "ERR_NOSUCHCHANNEL = 403"
definition ERR_CANNOTSENDTOCHAN :: nat where "ERR_CANNOTSENDTOCHAN = 404"
definition ERR_TOOMANYCHANNELS :: nat where "ERR_TOOMANYCHANNELS = 405"
definition ERR_TOOMANYTARGETS :: nat where "ERR_TOOMANYTARGETS = 407"
definition ERR_NOORIGIN :: nat where "ERR_NOORIGIN = 409"
definition ERR_NORECIPIENT :: nat where "ERR_NORECIPIENT = 411"
definition ERR_NOTEXTTOSEND :: nat where "ERR_NOTEXTTOSEND = 412"
definition ERR_NOTOPLEVEL :: nat where "ERR_NOTOPLEVEL = 413"
definition ERR_WILDTOPLEVEL :: nat where "ERR_WILDTOPLEVEL = 414"
definition ERR_UNKNOWNCOMMAND :: nat where "ERR_UNKNOWNCOMMAND = 421"
definition ERR_NONICKNAMEGIVEN :: nat where "ERR_NONICKNAMEGIVEN = 431"
definition ERR_ERRONEUSNICKNAME :: nat where "ERR_ERRONEUSNICKNAME = 432"
definition ERR_NICKNAMEINUSE :: nat where "ERR_NICKNAMEINUSE = 433"
definition ERR_NICKCOLLISION :: nat where "ERR_NICKCOLLISION = 436"
definition ERR_UNAVAILRESOURCE :: nat where "ERR_UNAVAILRESOURCE = 437"
definition ERR_NICKTOOFAST :: nat where "ERR_NICKTOOFAST = 438"
definition ERR_USERNOTINCHANNEL :: nat where "ERR_USERNOTINCHANNEL = 441"
definition ERR_NOTONCHANNEL :: nat where "ERR_NOTONCHANNEL = 442"
definition ERR_USERONCHANNEL :: nat where "ERR_USERONCHANNEL = 443"
definition ERR_NEEDMOREPARAMS :: nat where "ERR_NEEDMOREPARAMS = 461"
definition ERR_CHANNELISFULL :: nat where "ERR_CHANNELISFULL = 471"
definition ERR_UNKNOWNMODE :: nat where "ERR_UNKNOWNMODE = 472"
definition ERR_INVITEONLYCHAN :: nat where "ERR_INVITEONLYCHAN = 473"
definition ERR_BANNEDFROMCHAN :: nat where "ERR_BANNEDFROMCHAN = 474"
definition ERR_BADCHANNELKEY :: nat where "ERR_BADCHANNELKEY = 475"
definition ERR_BANLISTFULL :: nat where "ERR_BANLISTFULL = 478"
definition ERR_BADCHANNAME :: nat where "ERR_BADCHANNAME = 479"
definition ERR_NOPRIVILEGES :: nat where "ERR_NOPRIVILEGES = 481"
definition ERR_CHANOPRIVSNEEDED :: nat where "ERR_CHANOPRIVSNEEDED = 482"
definition ERR_CANTKILLSERVER :: nat where "ERR_CANTKILLSERVER = 483"
definition ERR_UMODEUNKNOWNFLAG :: nat where "ERR_UMODEUNKNOWNFLAG = 501"
definition ERR_USERSDONTMATCH :: nat where "ERR_USERSDONTMATCH = 502"

lemmas numeric_defs = RPL_UMODEIS_def RPL_AWAY_def RPL_USERHOST_def RPL_ISON_def RPL_UNAWAY_def
  RPL_NOWAWAY_def RPL_CHANNELMODEIS_def RPL_CREATIONTIME_def RPL_NOTOPIC_def RPL_TOPIC_def
  RPL_TOPICWHOTIME_def RPL_INVITING_def RPL_INVEXLIST_def RPL_ENDOFINVEXLIST_def
  RPL_EXCEPTLIST_def RPL_ENDOFEXCEPTLIST_def RPL_NAMREPLY_def RPL_ENDOFNAMES_def RPL_BANLIST_def
  RPL_ENDOFBANLIST_def ERR_NOSUCHNICK_def ERR_NOSUCHSERVER_def ERR_NOSUCHCHANNEL_def
  ERR_CANNOTSENDTOCHAN_def ERR_TOOMANYCHANNELS_def ERR_TOOMANYTARGETS_def ERR_NOORIGIN_def
  ERR_NORECIPIENT_def ERR_NOTEXTTOSEND_def ERR_NOTOPLEVEL_def ERR_WILDTOPLEVEL_def
  ERR_UNKNOWNCOMMAND_def ERR_NONICKNAMEGIVEN_def ERR_ERRONEUSNICKNAME_def ERR_NICKNAMEINUSE_def
  ERR_NICKCOLLISION_def ERR_UNAVAILRESOURCE_def ERR_NICKTOOFAST_def ERR_USERNOTINCHANNEL_def
  ERR_NOTONCHANNEL_def ERR_USERONCHANNEL_def ERR_NEEDMOREPARAMS_def ERR_CHANNELISFULL_def
  ERR_UNKNOWNMODE_def ERR_INVITEONLYCHAN_def ERR_BANNEDFROMCHAN_def ERR_BADCHANNELKEY_def
  ERR_BANLISTFULL_def ERR_BADCHANNAME_def ERR_NOPRIVILEGES_def ERR_CHANOPRIVSNEEDED_def
  ERR_CANTKILLSERVER_def ERR_UMODEUNKNOWNFLAG_def ERR_USERSDONTMATCH_def

text \<open>The parameters \<open>parv\<close> are a list of length \<open>parc\<close>; past its end there is a null pointer.\<close>

definition par :: "cstr list \<Rightarrow> nat \<Rightarrow> cstr option" where
  "par parv i = (if i < length parv then Some (parv ! i) else None)"

definition me_name :: "world \<Rightarrow> arg" where
  "me_name w = Str (name (cl w (me w)))"

section \<open>Sending\<close>

definition log_out :: "out list \<Rightarrow> world \<Rightarrow> world" where
  "log_out os w = w\<lparr>outl := outl w @ os\<rparr>"

text \<open>
  Each primitive logs a list of messages that depends on the state; \<open>send_defs\<close> turns a
  call into \<open>log_out\<close>.
\<close>

named_theorems send_defs \<open>sending as an extension of the log\<close>

definition sendto_one :: "cid \<Rightarrow> fmt \<Rightarrow> arg list \<Rightarrow> world \<Rightarrow> world" where
  [send_defs]: "sendto_one to f args w = log_out [One to f args] w"

text \<open>Local members of a channel; \<open>sendto_channel_butserv\<close> sends to each of them.\<close>

definition local_members :: "world \<Rightarrow> chid \<Rightarrow> cid list" where
  "local_members w x = filter (\<lambda>c. MyConnect (cl w c)) (map m_client (members (ch w x)))"

definition sendto_channel_butserv :: "chid \<Rightarrow> cid \<Rightarrow> fmt \<Rightarrow> arg list \<Rightarrow> world \<Rightarrow> world" where
  [send_defs]: "sendto_channel_butserv x frm f args w =
     log_out (map (\<lambda>c. Prefix c frm f args) (local_members w x)) w"

text \<open>Nothing about a local channel (\<open>&name\<close>) leaves the server.\<close>

definition chan_is_local :: "world \<Rightarrow> chid option \<Rightarrow> bool" where
  "chan_is_local w x = (case x of Some c \<Rightarrow> at (chname (ch w c)) 0 = CHR ''&'' | None \<Rightarrow> False)"

definition match_servs :: "world \<Rightarrow> chid option \<Rightarrow> cid \<Rightarrow> cid list" where
  "match_servs w x frm = (if chan_is_local w x then [] else filter (\<lambda>s. s \<noteq> frm) (serv_list w))"

definition sendto_match_servs :: "chid option \<Rightarrow> cid \<Rightarrow> fmt \<Rightarrow> arg list \<Rightarrow> world \<Rightarrow> world" where
  [send_defs]: "sendto_match_servs x frm f args w =
     log_out (map (\<lambda>s. One s f args) (match_servs w x frm)) w"

definition sendto_match_cap_servs :: "chid option \<Rightarrow> cid \<Rightarrow> flags \<Rightarrow> fmt \<Rightarrow> arg list \<Rightarrow> world \<Rightarrow> world" where
  [send_defs]: "sendto_match_cap_servs x frm cap f args w =
     log_out (map (\<lambda>s. One s f args) (filter (\<lambda>s. IsCapable (cl w s) cap) (match_servs w x frm))) w"

definition sendto_serv_butone :: "cid option \<Rightarrow> fmt \<Rightarrow> arg list \<Rightarrow> world \<Rightarrow> world" where
  [send_defs]: "sendto_serv_butone one f args w =
     log_out (map (\<lambda>s. One s f args)
       (filter (\<lambda>s. case one of None \<Rightarrow> True | Some c \<Rightarrow> s \<noteq> cfrom (cl w c)) (serv_list w))) w"

definition sendto_ops :: "fmt \<Rightarrow> arg list \<Rightarrow> world \<Rightarrow> world" where
  [send_defs]: "sendto_ops f args w =
     log_out (map (\<lambda>c. Notice c f args) (filter (\<lambda>c. SendServNotice (cl w c)) (local_list w))) w"

definition sendto_realops :: "fmt \<Rightarrow> arg list \<Rightarrow> world \<Rightarrow> world" where
  [send_defs]: "sendto_realops f args w =
     log_out (map (\<lambda>c. Notice c f args) (filter (\<lambda>c. SendServNotice (cl w c)) (oper_list w))) w"

definition sendto_realops_flags :: "flags \<Rightarrow> fmt \<Rightarrow> arg list \<Rightarrow> world \<Rightarrow> world" where
  [send_defs]: "sendto_realops_flags flg f args w =
     log_out (map (\<lambda>c. Notice c f args) (filter (\<lambda>c. has_flag (umodes (cl w c)) flg) (oper_list w))) w"

definition ops_flags_targets :: "world \<Rightarrow> flags \<Rightarrow> cid list" where
  "ops_flags_targets w flg =
     (if has_flag flg FLAGS_SKILL
      then filter (\<lambda>c. has_flag (umodes (cl w c)) FLAGS_SKILL) (local_list w) else []) @
     (let fl = flg AND NOT FLAGS_SKILL in
      if fl = 0 then [] else filter (\<lambda>c. has_flag (umodes (cl w c)) fl) (oper_list w))"

definition sendto_ops_flags :: "flags \<Rightarrow> fmt \<Rightarrow> arg list \<Rightarrow> world \<Rightarrow> world" where
  [send_defs]: "sendto_ops_flags flg f args w =
     log_out (map (\<lambda>c. Notice c f args) (ops_flags_targets w flg)) w"

text \<open>
  \<open>ts_warn\<close> lets at most six warnings pass in five seconds of the wall clock, which does
  not move while a command is handled.  Its line in the log file is not modelled.
\<close>

definition ts_warn :: "fmt \<Rightarrow> arg list \<Rightarrow> world \<Rightarrow> world" where
  "ts_warn f args w =
     (if wall_clock w - ts_last w < 5 then
        if ts_warnings w + 1 > 5 then w\<lparr>ts_warnings := ts_warnings w + 1\<rparr>
        else sendto_realops f args (w\<lparr>ts_warnings := ts_warnings w + 1\<rparr>)
      else sendto_realops f args (w\<lparr>ts_last := wall_clock w, ts_warnings := 0\<rparr>))"

text \<open>Sending changes nothing but the log.\<close>

lemma log_out_simps [simp]:
  "clients (log_out os w) = clients w" "chans (log_out os w) = chans w"
  "chan_list (log_out os w) = chan_list w" "next_chan (log_out os w) = next_chan w"
  "client_tab (log_out os w) = client_tab w" "chan_tab (log_out os w) = chan_tab w"
  "history (log_out os w) = history w" "me (log_out os w) = me w"
  "serv_list (log_out os w) = serv_list w" "oper_list (log_out os w) = oper_list w"
  "local_list (log_out os w) = local_list w" "client_list (log_out os w) = client_list w" "now (log_out os w) = now w"
  "count_chan (log_out os w) = count_chan w" "count_server (log_out os w) = count_server w"
  "count_total (log_out os w) = count_total w" "maxbans (log_out os w) = maxbans w"
  "spam_num (log_out os w) = spam_num w" "spam_time (log_out os w) = spam_time w"
  "splitdelay (log_out os w) = splitdelay w" "splitnum (log_out os w) = splitnum w"
  "splitusers (log_out os w) = splitusers w" "server_was_split (log_out os w) = server_was_split w"
  "server_split_time (log_out os w) = server_split_time w"
  "got_server_pong (log_out os w) = got_server_pong w" "cold_start (log_out os w) = cold_start w"
  "flud_num (log_out os w) = flud_num w" "flud_time (log_out os w) = flud_time w"
  "flud_block (log_out os w) = flud_block w" "is_flud (log_out os w) = is_flud w"
  "wall_clock (log_out os w) = wall_clock w"
  "count_oper (log_out os w) = count_oper w" "count_invisi (log_out os w) = count_invisi w"
  "next_client (log_out os w) = next_client w" "local_conns (log_out os w) = local_conns w"
  "count_local (log_out os w) = count_local w" "count_max_loc (log_out os w) = count_max_loc w"
  "count_max_tot (log_out os w) = count_max_tot w" "count_myserver (log_out os w) = count_myserver w"
  "sstat (log_out os w) = sstat w" "msg_count (log_out os w) = msg_count w"
  "msg_bytes (log_out os w) = msg_bytes w" "dronetime (log_out os w) = dronetime w"
  "dronecount (log_out os w) = dronecount w" "iptab (log_out os w) = iptab w"
  "scache (log_out os w) = scache w" "count_restart (log_out os w) = count_restart w"
  "count_unknown (log_out os w) = count_unknown w" "lusers_time (log_out os w) = lusers_time w"
  "max_client_count (log_out os w) = max_client_count w" "max_conn_count (log_out os w) = max_conn_count w"
  "nextping (log_out os w) = nextping w"
  "confs (log_out os w) = confs w" "classes (log_out os w) = classes w" "next_class (log_out os w) = next_class w"
  "class_list (log_out os w) = class_list w" "conf_list (log_out os w) = conf_list w"
  "q_conf (log_out os w) = q_conf w" "x_conf (log_out os w) = x_conf w" "u_conf (log_out os w) = u_conf w"
  "temporary_klines (log_out os w) = temporary_klines w" "temporary_ip_klines (log_out os w) = temporary_ip_klines w"
  "mtrie (log_out os w) = mtrie w" "nextconnect (log_out os w) = nextconnect w" "autoconn (log_out os w) = autoconn w"
  "maxclients (log_out os w) = maxclients w" "ircd_version (log_out os w) = ircd_version w"
  "creation (log_out os w) = creation w" "motd (log_out os w) = motd w"
  "outl (log_out os w) = outl w @ os"
  by (simp_all add: log_out_def)

lemma log_out_upd [simp]:
  "(log_out os w)\<lparr>chans := c\<rparr> = log_out os (w\<lparr>chans := c\<rparr>)"
  "(log_out os w)\<lparr>clients := d\<rparr> = log_out os (w\<lparr>clients := d\<rparr>)"
  by (simp_all add: log_out_def)

lemma ts_warn_simps [simp]:
  "clients (ts_warn f a w) = clients w" "chans (ts_warn f a w) = chans w"
  "chan_list (ts_warn f a w) = chan_list w" "next_chan (ts_warn f a w) = next_chan w"
  "chan_tab (ts_warn f a w) = chan_tab w" "client_tab (ts_warn f a w) = client_tab w"
  "count_chan (ts_warn f a w) = count_chan w" "me (ts_warn f a w) = me w" "now (ts_warn f a w) = now w"
  "history (ts_warn f a w) = history w" "serv_list (ts_warn f a w) = serv_list w"
  by (simp_all add: ts_warn_def sendto_realops_def)

section \<open>Looking up clients and channels\<close>

definition find_client :: "world \<Rightarrow> cstr \<Rightarrow> cid option \<Rightarrow> cid option" where
  "find_client w nm dflt = hash_find_client (\<lambda>c. name (cl w c)) (client_tab w) nm dflt"

definition find_channel :: "world \<Rightarrow> cstr \<Rightarrow> chid option" where
  "find_channel w nm = hash_find_channel (\<lambda>x. chname (ch w x)) (chan_tab w) nm None"

definition find_person :: "world \<Rightarrow> cstr \<Rightarrow> cid option \<Rightarrow> cid option" where
  "find_person w nm dflt =
     (case find_client w nm dflt of
        Some c \<Rightarrow> if IsClient (cl w c) \<and> user (cl w c) \<noteq> None then Some c else dflt
      | None \<Rightarrow> dflt)"

text \<open>\<open>find_chasing\<close>: the client found, the value of \<open>chasing\<close>, and the state with the error sent.\<close>


definition find_chasing :: "cid \<Rightarrow> cstr \<Rightarrow> world \<Rightarrow> cid option \<times> bool \<times> world" where
  "find_chasing sptr usr w =
     (case find_client w usr None of
        Some who \<Rightarrow> (Some who, False, w)
      | None \<Rightarrow>
          (case get_history (now w) (history w) usr KILLCHASETIMELIMIT of
             None \<Rightarrow> (None, False, sendto_one sptr (form_str ERR_NOSUCHNICK)
                       [Str (name (cl w (me w))), Str (name (cl w sptr)), Str usr] w)
           | Some who \<Rightarrow> (Some who, True, w)))"

text \<open>\<open>find_user_link\<close> on a member list and \<open>find_channel_link\<close> on a user's channels.\<close>

definition find_user_link :: "member list \<Rightarrow> cid \<Rightarrow> member option" where
  "find_user_link ms c = find (\<lambda>m. m_client m = c) ms"

definition u_chans :: "client \<Rightarrow> chid list" where
  "u_chans c = (case user c of None \<Rightarrow> [] | Some u \<Rightarrow> u_channel u)"

definition u_invs :: "client \<Rightarrow> chid list" where
  "u_invs c = (case user c of None \<Rightarrow> [] | Some u \<Rightarrow> u_invited u)"

text \<open>The pointers \<open>from\<close> and \<open>servptr\<close>.\<close>

definition from_of :: "client \<Rightarrow> cid option" where
  "from_of c = (if null_from c then None else Some (cfrom c))"

definition servptr_of :: "client \<Rightarrow> cid option" where
  "servptr_of c = (if null_servptr c then None else Some (servptr c))"

definition IsMember :: "world \<Rightarrow> cid \<Rightarrow> chid \<Rightarrow> bool" where
  "IsMember w c x = (x \<in> set (u_chans (cl w c)))"

section \<open>A freshly started server\<close>

text \<open>
  Zeroed structures as \<open>make_client\<close> and \<open>get_channel\<close> leave them, and the state after
  start-up with the default settings of \<open>config.h\<close>: no client but the server itself.
\<close>

definition zero_client :: client where
  "zero_client = \<lparr>name = [], username = [], host = [], info = [], ip = [0, 0, 0, 0], status = 0,
     umodes = 0, cflags = 0, flags2 = 0, local_flag = False, fd = -1, cfrom = 0, servptr = 0,
     hopcount = 0, tsinfo = 0, caps = 0, user = None, fludees = [], fluders = [], fludblock = 0,
     last_join_time = 0, last_leave_time = 0, join_leave_count = 0, oper_warn_count_down = 0,
     cl_serv = None, cl_since = 0, cl_lasttime = 0, cl_firsttime = 0, cl_sockhost = [], cl_passwd = [], nick_changed_at = 0,
     nick_changes = 0, null_from = False, null_servptr = False, sentB = 0, sentK = 0, recvM = 0, recvB = 0, recvK = 0, linebuf = [], first_msg_time = 0, num_privmsgs = 0,
     drone_noticed = 0, recvq = [], sendq_len = 0, sendq_max = 100000,
     cl_confs = [], listener_name = [], listener_port = 0\<rparr>"

definition zero_channel :: channel where
  "zero_channel = \<lparr>chname = [], mode = \<lparr>modes = 0, limit = 0, key = []\<rparr>, topic = [],
     topic_nick = [], topic_time = 0, users = 0, members = [], invites = [], banlist = [],
     exceptlist = [], invexlist = [], num_bed = 0, juped = False, channelts = 0,
     ch_fludblock = 0, ch_fluders = [], ch_fluders_freed = False\<rparr>"

definition boot :: world where
  "boot = \<lparr>clients = (\<lambda>_. zero_client)(0 := zero_client\<lparr>name := ''irc.example.net'', status := STAT_ME\<rparr>),
     chans = \<lambda>_. zero_channel, chan_list = [], next_chan = 0, client_tab = empty_table,
     chan_tab = empty_table, history = initwhowas, me = 0, serv_list = [], oper_list = [],
     local_list = [], client_list = [0], now = 1000000000, count_chan = 0, count_server = 1, count_total = 0, count_oper = 0, count_invisi = 0,
     maxbans = 100, spam_num = 25, spam_time = 60, splitdelay = 60, splitnum = 5, splitusers = 15000,
     server_was_split = True, server_split_time = 1000000000, got_server_pong = False, cold_start = True,
     flud_num = 4, flud_time = 3, flud_block = 15, is_flud = 0,
     wall_clock = 1000000000, ts_last = 0, ts_warnings = 0,
     next_client = 1, local_conns = [], count_local = 0, count_max_loc = 0, count_max_tot = 0, count_myserver = 0,
     sstat = \<lparr>is_cl = 0, is_sv = 0, is_ni = 0, is_ref = 0, is_unco = 0, is_wrdi = 0, is_unpf = 0, is_empt = 0,
       is_num = 0, is_kill = 0, is_cbs = 0, is_cbr = 0, is_sbs = 0, is_sbr = 0,
       is_cks = 0, is_ckr = 0, is_sks = 0, is_skr = 0, is_cti = 0, is_sti = 0\<rparr>,
     msg_count = (\<lambda>_. 0), msg_bytes = (\<lambda>_. 0), dronetime = 1, dronecount = 8, iptab = clear_ip_hash_table 100, scache = clear_scache_hash_table,
     count_restart = 0, count_unknown = 0, lusers_time = 0, max_client_count = 1, max_conn_count = 1, nextping = 1,
     confs = \<lambda>_. zero_conf, classes = \<lambda>_. zero_class, next_class = 1, class_list = [0], conf_list = [], q_conf = [], x_conf = [],
     u_conf = [], temporary_klines = [], temporary_ip_klines = [], mtrie = \<lambda>_ _ _. None, nextconnect = 1, autoconn = 1,
     maxclients = 180, ircd_version = ''2.8/hybrid-6.4.4'', creation = ''Sat Jan 1 2005'', motd = None,
     outl = []\<rparr>"

end
