(* ===== verification/Flud.thy ===== *)
theory Flud
  imports World
begin

text \<open>
  CTCP flood detection, \<open>src/flud.c\<close>.  Each target (a local client or a channel) keeps a
  list of \<open>fludbot\<close> records, one per sender; each sender keeps the list of its targets
  (\<open>fludees\<close>).  \<open>free_fluders\<close> frees the records of a target without clearing its pointer:
  a later use of the list is outside the model (\<open>None\<close>).
\<close>

definition fluders_of :: "world \<Rightarrow> target \<Rightarrow> fludbot list" where
  "fluders_of w t = (case t of TClient c \<Rightarrow> fluders (cl w c) | TChannel x \<Rightarrow> ch_fluders (ch w x))"

definition set_fluders :: "target \<Rightarrow> fludbot list \<Rightarrow> world \<Rightarrow> world" where
  "set_fluders t bs w =
     (case t of TClient c \<Rightarrow> upd_cl c (\<lambda>k. k\<lparr>fluders := bs\<rparr>) w
              | TChannel x \<Rightarrow> upd_ch x (\<lambda>k. k\<lparr>ch_fluders := bs\<rparr>) w)"

definition fludblock_of :: "world \<Rightarrow> target \<Rightarrow> int" where
  "fludblock_of w t = (case t of TClient c \<Rightarrow> fludblock (cl w c) | TChannel x \<Rightarrow> ch_fludblock (ch w x))"

definition set_fludblock :: "target \<Rightarrow> int \<Rightarrow> world \<Rightarrow> world" where
  "set_fludblock t n w =
     (case t of TClient c \<Rightarrow> upd_cl c (\<lambda>k. k\<lparr>fludblock := n\<rparr>) w
              | TChannel x \<Rightarrow> upd_ch x (\<lambda>k. k\<lparr>ch_fludblock := n\<rparr>) w)"

definition target_name :: "world \<Rightarrow> target \<Rightarrow> cstr" where
  "target_name w t = (case t of TClient c \<Rightarrow> name (cl w c) | TChannel x \<Rightarrow> chname (ch w x))"

definition dangling :: "world \<Rightarrow> target \<Rightarrow> bool" where
  "dangling w t = (case t of TClient c \<Rightarrow> False | TChannel x \<Rightarrow> ch_fluders_freed (ch w x))"

section \<open>Operations\<close>

definition announce_fluder :: "cid \<Rightarrow> target \<Rightarrow> world \<Rightarrow> world" where
  "announce_fluder fluder t w =
     sendto_ops_flags FLAGS_BOTS (Fmt ''Flooder %s [%s@%s] on %s target: %s'')
       [Str (name (cl w fluder)), Str (username (cl w fluder)), Str (host (cl w fluder)),
        Str (case user (cl w fluder) of Some u \<Rightarrow> u_server u | None \<Rightarrow> []), Str (target_name w t)] w"

definition remove_fluder_reference :: "fludbot list \<Rightarrow> cid \<Rightarrow> fludbot list" where
  "remove_fluder_reference bs fluder = filter (\<lambda>b. fl_fluder b \<noteq> fluder) bs"

definition remove_fludee_reference :: "cid \<Rightarrow> target \<Rightarrow> world \<Rightarrow> world" where
  "remove_fludee_reference fluder t w =
     upd_cl fluder (\<lambda>k. k\<lparr>fludees := filter (\<lambda>d. d \<noteq> t) (fludees k)\<rparr>) w"

function check_for_ctcp :: "cstr \<Rightarrow> bool" where
  "check_for_ctcp str =
     (case dropWhile (\<lambda>c. c \<noteq> CHR 0x01) str of
        [] \<Rightarrow> False
      | _ # p \<Rightarrow>
          if ircncmp p ''ACTION'' 6 \<noteq> Some 0 then True
          else case dropWhile (\<lambda>c. c \<noteq> CHR 0x01) p of
                 [] \<Rightarrow> False
               | _ # q \<Rightarrow> check_for_ctcp q)"
  by pat_completeness auto
termination
proof (relation "measure length")
  fix str :: cstr and a p b q
  assume 1: "dropWhile (\<lambda>c. c \<noteq> CHR 0x01) str = a # p" and 2: "dropWhile (\<lambda>c. c \<noteq> CHR 0x01) p = b # q"
  have "length (a # p) \<le> length str" using 1 by (metis length_dropWhile_le)
  moreover have "length (b # q) \<le> length p" using 2 by (metis length_dropWhile_le)
  ultimately show "(q, str) \<in> measure length" by simp
qed simp

declare check_for_ctcp.simps [simp del]

text \<open>Garbage collection: senders silent for \<open>FLUDTIME\<close> are dropped on both sides.\<close>

definition flud_gc :: "target \<Rightarrow> int \<Rightarrow> world \<Rightarrow> world" where
  "flud_gc t lim w =
     set_fluders t (filter (\<lambda>b. \<not> fl_last_msg b < lim) (fluders_of w t))
       (fold (\<lambda>b. remove_fludee_reference (fl_fluder b) t)
          (filter (\<lambda>b. fl_last_msg b < lim) (fluders_of w t)) w)"

text \<open>The counting loop: updated records, running total, whether the sender was found.\<close>

fun flud_count :: "cid \<Rightarrow> int \<Rightarrow> int \<Rightarrow> fludbot list \<Rightarrow> fludbot list \<times> int \<times> bool" where
  "flud_count fluder t lim [] = ([], 0, False)"
| "flud_count fluder t lim (b # bs) =
     (let b1 = (if fl_fluder b = fluder then b\<lparr>fl_last_msg := t, fl_count := fl_count b + 1\<rparr> else b);
          (bs1, n, found) = flud_count fluder t lim bs
      in (b1 # bs1, (if fl_first_msg b1 < lim then 1 else fl_count b1) + n,
          found \<or> fl_fluder b = fluder))"

definition flud_new :: "cid \<Rightarrow> target \<Rightarrow> int \<Rightarrow> world \<Rightarrow> world" where
  "flud_new fluder t tm w =
     upd_cl fluder (\<lambda>k. k\<lparr>fludees := t # fludees k\<rparr>)
       (set_fluders t (\<lparr>fl_fluder = fluder, fl_count = 1, fl_first_msg = tm, fl_last_msg = tm\<rparr> # fluders_of w t) w)"

text \<open>
  Find or create the record of the sender: whether the target was already blocking, the
  number of messages counted, and the new state.  \<open>tm\<close> is the wall clock read by
  \<open>time(&now)\<close>.
\<close>

definition flud_tally :: "int \<Rightarrow> cid \<Rightarrow> target \<Rightarrow> world \<Rightarrow> bool \<times> int \<times> world" where
  "flud_tally tm fluder t w =
     (let blocking = (fludblock_of w t > tm - flud_block w);
          w1 = (if blocking then w else flud_gc t (tm - flud_time w) w);
          (bs, n, found) = flud_count fluder tm (tm - flud_time w) (fluders_of w1 t);
          w2 = set_fluders t bs w1
      in if found then (blocking, n, w2)
         else let w3 = flud_new fluder t tm w2
              in (blocking, n + 1, if blocking then announce_fluder fluder t w3 else w3))"

definition flud_activate :: "target \<Rightarrow> world \<Rightarrow> world" where
  "flud_activate t w =
     (let wa = w\<lparr>is_flud := is_flud w + 1\<rparr>;
          f = Fmt '':%s NOTICE %s :*** Notice -- Server flood protection activated for %s'';
          args = [Str (name (cl w (me w))), Str (target_name w t), Str (target_name w t)];
          wb = (case t of TClient c \<Rightarrow> sendto_one c f args wa
                        | TChannel x \<Rightarrow> sendto_channel_butserv x (me w) f args wa)
      in fold (\<lambda>b. announce_fluder (fl_fluder b) t) (fluders_of wb t) wb)"

definition check_for_flud :: "int \<Rightarrow> cid \<Rightarrow> target option \<Rightarrow> world \<Rightarrow> (bool \<times> world) option" where
  "check_for_flud tm fluder tgt w =
     (if flud_block w = 0 then Some (False, w)
      else case tgt of
        None \<Rightarrow> Some (False, w)
      | Some t \<Rightarrow>
          if (case t of TClient c \<Rightarrow> \<not> MyConnect (cl w c) | TChannel x \<Rightarrow> False)
          then Some (False, sendto_realops (Fmt ''check_for_flud() called for non-local client'') [] w)
          else if dangling w t then None
          else
            let (blocking, count, w3) = flud_tally tm fluder t w;
                start = (\<not> blocking \<and> count > flud_num w);
                w4 = (if start then flud_activate t w3 else w3)
            in Some (blocking \<or> start, if blocking \<or> start then set_fludblock t tm w4 else w4))"

definition free_fluders_channel :: "chid \<Rightarrow> world \<Rightarrow> world" where
  "free_fluders_channel x w =
     upd_ch x (\<lambda>k. k\<lparr>ch_fluders_freed := (ch_fluders_freed k \<or> ch_fluders k \<noteq> [])\<rparr>)
       (fold (\<lambda>b. remove_fludee_reference (fl_fluder b) (TChannel x)) (ch_fluders (ch w x)) w)"

definition free_fluders_client :: "cid \<Rightarrow> world \<Rightarrow> world" where
  "free_fluders_client c w =
     (if \<not> MyConnect (cl w c) then w
      else fold (\<lambda>b. remove_fludee_reference (fl_fluder b) (TClient c)) (fluders (cl w c)) w)"

definition free_fludee :: "cid \<Rightarrow> target \<Rightarrow> world \<Rightarrow> world" where
  "free_fludee badguy t w =
     (case t of
        TChannel x \<Rightarrow> upd_ch x (\<lambda>k. k\<lparr>ch_fluders := remove_fluder_reference (ch_fluders k) badguy\<rparr>) w
      | TClient c \<Rightarrow>
          if \<not> MyConnect (cl w c)
          then sendto_realops (Fmt ''free_fludees() encountered non-local client'') [] w
          else upd_cl c (\<lambda>k. k\<lparr>fluders := remove_fluder_reference (fluders k) badguy\<rparr>) w)"

definition free_fludees :: "cid \<Rightarrow> world \<Rightarrow> world" where
  "free_fludees badguy w = fold (free_fludee badguy) (fludees (cl w badguy)) w"

section \<open>Sender and target lists agree\<close>

definition flud_sym :: "world \<Rightarrow> bool" where
  "flud_sym w \<longleftrightarrow>
     (\<forall>t. distinct (map fl_fluder (fluders_of w t))) \<and>
     (\<forall>t c. c \<in> fl_fluder ` set (fluders_of w t) \<longleftrightarrow> t \<in> set (fludees (cl w c)))"

lemma fluders_of_upd [simp]:
  "fluders_of (set_fluders t bs w) t' = (if t' = t then bs else fluders_of w t')"
  "fludees (cl (set_fluders t bs w) c) = fludees (cl w c)"
  by (auto simp: fluders_of_def set_fluders_def split: target.splits)

lemma fluders_of_log [simp]: "fluders_of (log_out os w) t = fluders_of w t"
  by (simp add: fluders_of_def split: target.splits)

lemma fluders_of_is_flud [simp]: "fluders_of (w\<lparr>is_flud := n\<rparr>) t = fluders_of w t"
  by (simp add: fluders_of_def split: target.splits)

lemma fluders_of_fludees [simp]:
  "fluders_of (w\<lparr>clients := (clients w)(c := (cl w c)\<lparr>fludees := ds\<rparr>)\<rparr>) t = fluders_of w t"
  by (auto simp: fluders_of_def split: target.splits)

lemma fluders_of_remove [simp]:
  "fluders_of (remove_fludee_reference f t' w) t = fluders_of w t"
  by (simp add: remove_fludee_reference_def)

lemma flud_sym_fludblock: "flud_sym (set_fludblock t n w) = flud_sym w"
proof -
  have "fluders_of (set_fludblock t n w) t' = fluders_of w t'" for t'
    by (auto simp: fluders_of_def set_fludblock_def split: target.splits)
  moreover have "fludees (cl (set_fludblock t n w) c) = fludees (cl w c)" for c
    by (auto simp: set_fludblock_def split: target.splits)
  ultimately show ?thesis by (simp add: flud_sym_def)
qed

lemma flud_sym_log [simp]: "flud_sym (log_out os w) = flud_sym w"
  by (simp add: flud_sym_def)

lemma flud_sym_announce [simp]: "flud_sym (announce_fluder f t w) = flud_sym w"
  by (simp add: announce_fluder_def send_defs)

lemma flud_sym_announce_all [simp]: "flud_sym (fold (\<lambda>b. announce_fluder (fl_fluder b) t) bs w) = flud_sym w"
  by (induction bs arbitrary: w) simp_all

lemma flud_sym_is_flud [simp]: "flud_sym (w\<lparr>is_flud := n\<rparr>) = flud_sym w"
  by (simp add: flud_sym_def)

lemma fold_remove_fludee:
  "set (fludees (cl (fold (\<lambda>b. remove_fludee_reference (fl_fluder b) t) bs w) c)) =
     (if c \<in> fl_fluder ` set bs then set (fludees (cl w c)) - {t} else set (fludees (cl w c)))"
  "fluders_of (fold (\<lambda>b. remove_fludee_reference (fl_fluder b) t) bs w) t' = fluders_of w t'"
  by (induction bs arbitrary: w) (auto simp: remove_fludee_reference_def)

lemma flud_sym_gc:
  assumes "flud_sym w"
  shows "flud_sym (flud_gc t lim w)"
proof -
  let ?old = "filter (\<lambda>b. fl_last_msg b < lim) (fluders_of w t)"
  let ?new = "filter (\<lambda>b. \<not> fl_last_msg b < lim) (fluders_of w t)"
  have d: "distinct (map fl_fluder (fluders_of w t))" using assms by (simp add: flud_sym_def)
  have part: "fl_fluder ` set ?new = fl_fluder ` set (fluders_of w t) - fl_fluder ` set ?old"
    using d by (auto simp: distinct_map inj_on_def image_iff)
  have "distinct (map fl_fluder ?new)" using d by (rule distinct_map_filter)
  then show ?thesis
    using assms part by (auto simp: flud_sym_def flud_gc_def fold_remove_fludee)
qed

lemma flud_count_fluders:
  "flud_count f t lim bs = (bs1, n, found) \<Longrightarrow>
     map fl_fluder bs1 = map fl_fluder bs \<and> (found \<longleftrightarrow> f \<in> fl_fluder ` set bs)"
proof (induction bs arbitrary: bs1 n found)
  case (Cons b bs)
  obtain bs2 n2 found2 where "flud_count f t lim bs = (bs2, n2, found2)" by (metis prod_cases3)
  then show ?case using Cons.IH [of bs2 n2 found2] Cons.prems by (auto simp: Let_def)
qed simp

lemma flud_sym_set:
  assumes "flud_sym w" "map fl_fluder bs = map fl_fluder (fluders_of w t)"
  shows "flud_sym (set_fluders t bs w)"
proof -
  have "fl_fluder ` set bs = fl_fluder ` set (fluders_of w t)" by (metis assms(2) list.set_map)
  then show ?thesis using assms by (simp add: flud_sym_def)
qed

lemma flud_sym_new:
  "flud_sym w \<Longrightarrow> f \<notin> fl_fluder ` set (fluders_of w t) \<Longrightarrow> flud_sym (flud_new f t tm w)"
  unfolding flud_sym_def flud_new_def by (auto simp: image_iff)

lemma flud_sym_tally:
  assumes "flud_sym w" "flud_tally tm fluder t w = (blocking, n, w3)"
  shows "flud_sym w3"
proof -
  define w1 where "w1 = (if fludblock_of w t > tm - flud_block w then w else flud_gc t (tm - flud_time w) w)"
  obtain bs n1 found where c: "flud_count fluder tm (tm - flud_time w) (fluders_of w1 t) = (bs, n1, found)"
    by (metis prod_cases3)
  have cf: "map fl_fluder bs = map fl_fluder (fluders_of w1 t)" "found \<longleftrightarrow> fluder \<in> fl_fluder ` set (fluders_of w1 t)"
    using flud_count_fluders [OF c] by simp_all
  have "flud_sym w1" using assms(1) flud_sym_gc by (simp add: w1_def)
  then have 2: "flud_sym (set_fluders t bs w1)" using cf(1) by (rule flud_sym_set)
  have "fl_fluder ` set bs = fl_fluder ` set (fluders_of w1 t)" by (metis cf(1) list.set_map)
  then have 3: "\<not> found \<Longrightarrow> flud_sym (flud_new fluder t tm (set_fluders t bs w1))"
    using 2 cf(2) by (intro flud_sym_new) simp_all
  have "w3 = set_fluders t bs w1 \<or> \<not> found \<and> (w3 = flud_new fluder t tm (set_fluders t bs w1) \<or>
      w3 = announce_fluder fluder t (flud_new fluder t tm (set_fluders t bs w1)))"
    using assms(2) c by (auto simp: flud_tally_def w1_def [symmetric] Let_def split: if_splits)
  then show ?thesis using 2 3 by auto
qed

lemma flud_sym_activate: "flud_sym w \<Longrightarrow> flud_sym (flud_activate t w)"
  by (cases t) (simp_all add: flud_activate_def Let_def send_defs)

section \<open>Properties\<close>

text \<open>C30 (flood records agree).
  \<open>check_for_flud\<close> keeps the two sides of the flood records in agreement: a sender is on a
  target's list, once, exactly when the target is on the sender's list, through garbage
  collection, new senders and the start of blocking.\<close>

theorem check_for_flud_sym:
  assumes "flud_sym w" "check_for_flud tm fluder tgt w = Some (b, w')"
  shows "flud_sym w'"
proof (cases tgt)
  case (Some t)
  obtain blocking n w3 where t: "flud_tally tm fluder t w = (blocking, n, w3)" by (metis prod_cases3)
  have 3: "flud_sym w3" by (rule flud_sym_tally [OF assms(1) t])
  show ?thesis
    using assms 3 flud_sym_activate [OF 3] Some t
    by (auto simp: check_for_flud_def Let_def send_defs flud_sym_fludblock split: if_splits)
qed (use assms in \<open>simp add: check_for_flud_def split: if_splits\<close>)

lemma boot_flud_sym: "flud_sym boot"
  by (auto simp: flud_sym_def fluders_of_def boot_def zero_client_def zero_channel_def split: target.splits)

theorem check_for_flud_sym_witness:
  "\<exists>b w'. check_for_flud 100 2 (Some (TChannel 0)) boot = Some (b, w') \<and> flud_sym w'"
proof -
  obtain b w' where c: "check_for_flud 100 2 (Some (TChannel 0)) boot = Some (b, w')"
    by (cases "flud_tally 100 2 (TChannel 0) boot")
      (auto simp: check_for_flud_def dangling_def Let_def boot_def zero_channel_def)
  then show ?thesis using check_for_flud_sym [OF boot_flud_sym c] by blast
qed

text \<open>Flood threshold. A target that is not blocking starts to block exactly when the messages counted in the
  last \<open>FLUDTIME\<close> seconds exceed \<open>FLUDNUM\<close>; from then on each message is blocked and
  restarts the clock, so the target blocks until \<open>FLUDBLOCK\<close> seconds pass without one.\<close>

theorem check_for_flud_decides:
  assumes "flud_block w \<noteq> 0" "case t of TClient c \<Rightarrow> MyConnect (cl w c) | TChannel x \<Rightarrow> \<not> ch_fluders_freed (ch w x)"
    "flud_tally tm fluder t w = (blocking, n, w3)"
  shows "\<exists>w'. check_for_flud tm fluder (Some t) w = Some (blocking \<or> flud_num w < n, w') \<and>
    blocking = (tm - flud_block w < fludblock_of w t) \<and>
    (blocking \<or> flud_num w < n \<longrightarrow> fludblock_of w' t = tm)"
proof -
  have f: "fludblock_of (set_fludblock t tm v) t = tm" for v
    by (cases t) (simp_all add: fludblock_of_def set_fludblock_def)
  have "blocking = (tm - flud_block w < fludblock_of w t)"
    using assms(3) by (auto simp: flud_tally_def Let_def split: prod.splits if_splits)
  then show ?thesis using assms f
    by (cases t) (auto simp: check_for_flud_def dangling_def Let_def)
qed

theorem check_for_flud_decides_witness:
  "\<exists>w'. check_for_flud 100 2 (Some (TChannel 0)) boot = Some (False, w')"
proof -
  have "flud_tally 100 2 (TChannel 0) boot = (False, 1, snd (snd (flud_tally 100 2 (TChannel 0) boot)))"
    by (simp add: flud_tally_def Let_def boot_def zero_channel_def fludblock_of_def flud_gc_def fluders_of_def
        set_fluders_def)
  then show ?thesis
    using check_for_flud_decides [of boot "TChannel 0" 100 2 False 1]
    by (simp add: boot_def zero_channel_def)
qed

end
