(* ===== verification/Channel.thy ===== *)
theory Channel
  imports Flud
begin

text \<open>
  The data operations of \<open>src/channel.c\<close>: ban, exception and invite-exception lists,
  membership, invitations, the life of a channel block, and the tests that decide who may
  join and speak.  Each operation is a function on the world; \<open>x\<close> is the channel, \<open>c\<close> the
  client.
\<close>

section \<open>Masks\<close>

definition check_string :: "cstr option \<Rightarrow> cstr" where
  "check_string s = (if BadPtr s then ''*'' else takeWhile (\<lambda>c. \<not> IsSpace c) (the s))"

definition make_nick_user_host :: "cstr \<Rightarrow> cstr \<Rightarrow> cstr \<Rightarrow> cstr" where
  "make_nick_user_host nick nm hst =
     take NICKLEN nick @ ''!'' @ take USERLEN nm @ ''@'' @ take HOSTLEN hst"

section \<open>Ban lists\<close>

datatype listtype = CHFL_BAN_LIST | CHFL_EXCEPTION_LIST | CHFL_INVEX_LIST

definition get_list :: "listtype \<Rightarrow> channel \<Rightarrow> ban list" where
  "get_list ty k = (case ty of CHFL_BAN_LIST \<Rightarrow> banlist k | CHFL_EXCEPTION_LIST \<Rightarrow> exceptlist k
                             | CHFL_INVEX_LIST \<Rightarrow> invexlist k)"

definition set_list :: "listtype \<Rightarrow> ban list \<Rightarrow> channel \<Rightarrow> channel" where
  "set_list ty bs k = (case ty of CHFL_BAN_LIST \<Rightarrow> k\<lparr>banlist := bs\<rparr> | CHFL_EXCEPTION_LIST \<Rightarrow> k\<lparr>exceptlist := bs\<rparr>
                                | CHFL_INVEX_LIST \<Rightarrow> k\<lparr>invexlist := bs\<rparr>)"


text \<open>
  \<open>add_id\<close>: the value returned (0 or -1) and the new state.  \<open>type\<close> is one of the three
  flags at every call, so the \<open>default\<close> branch of the switch is never taken.
\<close>

definition ban_setter :: "client \<Rightarrow> cstr" where
  "ban_setter c = (if IsPerson c then name c @ ''!'' @ username c @ ''@'' @ host c else name c)"

definition add_id :: "cid \<Rightarrow> chid \<Rightarrow> cstr \<Rightarrow> listtype \<Rightarrow> world \<Rightarrow> int \<times> world" where
  "add_id cptr x banid0 ty w =
     (let c = cl w cptr; k = ch w x in
      if \<not> IsServer c \<and> num_bed k \<ge> maxbans w \<and> MyClient c
      then (-1, sendto_one cptr (form_str ERR_BANLISTFULL)
                  [Str (name (cl w (me w))), Str (name c), Str (chname k), Str banid0] w)
      else
        let banid = (if MyClient c then collapse banid0 else banid0) in
        if (if MyClient c then list_ex (\<lambda>b. match_irc (banstr b) banid) (get_list ty k)
            else list_ex (\<lambda>b. irccmp (banstr b) banid = 0) (get_list ty k))
        then (-1, w)
        else
          let b = \<lparr>banstr = banid, banwho = ban_setter c, banwhen = now w\<rparr>
          in (0, upd_ch x (\<lambda>k. (set_list ty (b # get_list ty k) k)\<lparr>num_bed := num_bed k + 1\<rparr>) w))"

definition del_id :: "chid \<Rightarrow> cstr \<Rightarrow> listtype \<Rightarrow> world \<Rightarrow> int \<times> world" where
  "del_id x banid ty w =
     (let k = ch w x in
      if list_ex (\<lambda>b. irccmp banid (banstr b) = 0) (get_list ty k)
      then (0, upd_ch x (\<lambda>k. (set_list ty (unlink_first (\<lambda>b. irccmp banid (banstr b) = 0) (get_list ty k)) k)
                 \<lparr>num_bed := (if num_bed k > 0 then num_bed k - 1 else 0)\<rparr>) w)
      else (0, w))"

text \<open>\<open>free_bans_exceptions_denies\<close> leaves the invite exceptions alone.\<close>

definition free_bans_exceptions_denies :: "chid \<Rightarrow> world \<Rightarrow> world" where
  "free_bans_exceptions_denies x w = upd_ch x (\<lambda>k. k\<lparr>banlist := [], exceptlist := [], num_bed := 0\<rparr>) w"

text \<open>The two names a mask is tried on: with the host name and with the address.\<close>

definition nuh :: "client \<Rightarrow> cstr" where
  "nuh c = make_nick_user_host (name c) (username c) (host c)"

definition nuh_ip :: "client \<Rightarrow> cstr" where
  "nuh_ip c = make_nick_user_host (name c) (username c) (inetntoa (ip c))"

definition mask_hits :: "client \<Rightarrow> ban \<Rightarrow> bool" where
  "mask_hits c b = (match_irc (banstr b) (nuh c) \<or> match_irc (banstr b) (nuh_ip c))"

definition is_banned :: "client \<Rightarrow> channel \<Rightarrow> flags" where
  "is_banned c k =
     (if \<not> IsPerson c then 0
      else if list_ex (mask_hits c) (banlist k) then
        (if list_ex (mask_hits c) (exceptlist k) then CHFL_EXCEPTION else CHFL_BAN)
      else 0)"

definition is_invex :: "client \<Rightarrow> channel \<Rightarrow> flags" where
  "is_invex c k =
     (if \<not> IsPerson c then 0 else if list_ex (mask_hits c) (invexlist k) then CHFL_INVEX else 0)"

section \<open>Members\<close>

definition upd_user :: "cid \<Rightarrow> (user \<Rightarrow> user) \<Rightarrow> world \<Rightarrow> world" where
  "upd_user c f w = upd_cl c (\<lambda>k. k\<lparr>user := map_option f (user k)\<rparr>) w"

definition add_user_to_channel :: "chid \<Rightarrow> cid \<Rightarrow> flags \<Rightarrow> world \<Rightarrow> world" where
  "add_user_to_channel x who flg w =
     (if user (cl w who) = None then w
      else upd_user who (\<lambda>u. u\<lparr>u_channel := x # u_channel u, u_joined := u_joined u + 1\<rparr>)
        (upd_ch x (\<lambda>k. k\<lparr>members := \<lparr>m_client = who, m_flags = flg\<rparr> # members k, users := users k + 1\<rparr>) w))"

text \<open>The first member link of a client, changed in place.\<close>

fun upd_member :: "cid \<Rightarrow> (flags \<Rightarrow> flags) \<Rightarrow> member list \<Rightarrow> member list" where
  "upd_member c f [] = []"
| "upd_member c f (m # ms) =
     (if m_client m = c then m\<lparr>m_flags := f (m_flags m)\<rparr> # ms else m # upd_member c f ms)"

definition change_chan_flag :: "chid \<Rightarrow> cid \<Rightarrow> flags \<Rightarrow> world \<Rightarrow> world" where
  "change_chan_flag x c flag w =
     upd_ch x (\<lambda>k. k\<lparr>members := upd_member c (\<lambda>fl.
        if has_flag flag MODE_ADD
        then let fl1 = fl OR (flag AND MODE_FLAGS)
             in if has_flag flag MODE_CHANOP then fl1 AND NOT MODE_DEOPPED else fl1
        else fl AND (NOT flag AND MODE_FLAGS)) (members k)\<rparr>) w"

definition set_deopped :: "cid \<Rightarrow> chid \<Rightarrow> flags \<Rightarrow> world \<Rightarrow> world" where
  "set_deopped c x flag w =
     upd_ch x (\<lambda>k. k\<lparr>members := upd_member c (\<lambda>fl.
        if fl AND flag = 0 then fl OR MODE_DEOPPED else fl) (members k)\<rparr>) w"

definition user_channel_mode :: "cid \<Rightarrow> channel \<Rightarrow> flags" where
  "user_channel_mode c k = (case find_user_link (members k) c of Some m \<Rightarrow> m_flags m | None \<Rightarrow> 0)"

definition is_chan_op :: "cid \<Rightarrow> channel \<Rightarrow> bool" where
  "is_chan_op c k = has_flag (user_channel_mode c k) CHFL_CHANOP"

definition is_deopped :: "cid \<Rightarrow> channel \<Rightarrow> bool" where
  "is_deopped c k = has_flag (user_channel_mode c k) CHFL_DEOPPED"

definition has_voice :: "cid \<Rightarrow> channel \<Rightarrow> bool" where
  "has_voice c k = has_flag (user_channel_mode c k) CHFL_VOICE"

text \<open>\<open>can_send\<close>: 0 when the client may speak, else the reason.\<close>

definition can_send :: "world \<Rightarrow> cid \<Rightarrow> chid \<Rightarrow> flags" where
  "can_send w c x =
     (let k = ch w x; lp = find_user_link (members k) c in
      if MyClient (cl w c) \<and> juped k then 1
      else if has_flag (modes (mode k)) MODE_MODERATED \<and>
              (case lp of None \<Rightarrow> True | Some m \<Rightarrow> \<not> has_flag (m_flags m) (CHFL_CHANOP OR CHFL_VOICE))
      then MODE_MODERATED
      else if has_flag (modes (mode k)) MODE_NOPRIVMSGS \<and> lp = None then MODE_NOPRIVMSGS
      else 0)"

section \<open>Invitations\<close>

definition del_invite :: "cid \<Rightarrow> chid \<Rightarrow> world \<Rightarrow> world" where
  "del_invite c x w =
     upd_user c (\<lambda>u. u\<lparr>u_invited := remove1 x (u_invited u)\<rparr>)
       (upd_ch x (\<lambda>k. k\<lparr>invites := remove1 c (invites k)\<rparr>) w)"

definition add_invite :: "cid \<Rightarrow> chid \<Rightarrow> world \<Rightarrow> world" where
  "add_invite c x w =
     (let w1 = del_invite c x w;
          w2 = (if length (u_invs (cl w1 c)) \<ge> MAXCHANNELSPERUSER
                then del_invite c (hd (u_invs (cl w1 c))) w1 else w1)
      in upd_user c (\<lambda>u. u\<lparr>u_invited := u_invited u @ [x]\<rparr>)
           (upd_ch x (\<lambda>k. k\<lparr>invites := c # invites k\<rparr>) w2))"

text \<open>\<open>while ((tmp = chptr->invites)) del_invite(tmp->value.cptr, chptr);\<close>\<close>

definition del_all_invites :: "chid \<Rightarrow> world \<Rightarrow> world" where
  "del_all_invites x w = fold (\<lambda>c. del_invite c x) (invites (ch w x)) w"

section \<open>Life of a channel\<close>

text \<open>
  A freed block keeps its last contents in the map but is no longer in \<open>chan_list\<close> or in
  the hash table.
\<close>

definition free_channel :: "chid \<Rightarrow> world \<Rightarrow> world" where
  "free_channel x w =
     (let w1 = free_bans_exceptions_denies x (del_all_invites x w);
          w2 = w1\<lparr>chan_list := remove1 x (chan_list w1)\<rparr>;
          w3 = free_fluders_channel x w2
      in w3\<lparr>chan_tab := del_from_channel_hash_table (chname (ch w3 x)) x (chan_tab w3),
            count_chan := count_chan w3 - 1\<rparr>)"

definition sub1_from_channel :: "chid \<Rightarrow> world \<Rightarrow> world" where
  "sub1_from_channel x w =
     (let w1 = upd_ch x (\<lambda>k. k\<lparr>users := users k - 1\<rparr>) w in
      if users (ch w1 x) \<le> 0 then
        let w2 = upd_ch x (\<lambda>k. k\<lparr>users := 0\<rparr>) w1 in
        if juped (ch w2 x) then free_fluders_channel x (del_all_invites x w2)
        else free_channel x w2
      else w1)"

definition remove_user_from_channel :: "cid \<Rightarrow> chid \<Rightarrow> world \<Rightarrow> world" where
  "remove_user_from_channel c x w =
     sub1_from_channel x
       (upd_user c (\<lambda>u. u\<lparr>u_channel := remove1 x (u_channel u), u_joined := u_joined u - 1\<rparr>)
         (upd_ch x (\<lambda>k. k\<lparr>members := unlink_first (\<lambda>m. m_client m = c) (members k)\<rparr>) w))"

definition check_channel_name :: "cstr \<Rightarrow> bool" where
  "check_channel_name nm = list_all IsChanChar nm"

text \<open>
  \<open>get_channel\<close>: the channel (or a null pointer), the name as the call leaves it in the
  caller's buffer, and the state.
\<close>

definition new_channel :: "cstr \<Rightarrow> world \<Rightarrow> chid \<times> world" where
  "new_channel nm w =
     (let x = next_chan w in
      (x, w\<lparr>chans := (chans w)(x := zero_channel\<lparr>chname := nm, channelts := now w\<rparr>),
            chan_list := x # chan_list w, next_chan := Suc x,
            chan_tab := add_to_channel_hash_table nm x (chan_tab w),
            count_chan := count_chan w + 1\<rparr>))"

definition get_channel :: "cid \<Rightarrow> cstr \<Rightarrow> bool \<Rightarrow> world \<Rightarrow> chid option \<times> cstr \<times> world" where
  "get_channel cptr chname0 create w =
     (if chname0 = [] then (None, chname0, w)
      else
        let nm = (if MyClient (cl w cptr) \<and> length chname0 > CHANNELLEN then take CHANNELLEN chname0 else chname0) in
        case find_channel w nm of
          Some x \<Rightarrow> (Some x, nm, w)
        | None \<Rightarrow> if create then let (x, w1) = new_channel nm w in (Some x, nm, w1)
                  else (None, nm, w))"

section \<open>Joining\<close>


text \<open>The numeric refused with (0 for none), the flags, and the state.\<close>

definition can_join :: "cid \<Rightarrow> chid \<Rightarrow> cstr option \<Rightarrow> flags \<Rightarrow> world \<Rightarrow> nat \<times> flags \<times> world" where
  "can_join sptr x ky flg w =
     (let c = cl w sptr; k = ch w x in
      if juped k then
        (ERR_UNAVAILRESOURCE, flg,
         sendto_ops_flags FLAGS_SPY (Fmt ''User %s (%s@%s) is attempting to join locally juped channel %s'')
           [Str (name c), Str (username c), Str (host c), Str (chname k)] w)
      else if is_banned c k = CHFL_BAN then (ERR_BANNEDFROMCHAN, flg, w)
      else
        let flg1 = flg OR is_banned c k in
        if has_flag (modes (mode k)) MODE_INVITEONLY \<and> is_invex c k \<noteq> CHFL_INVEX \<and> x \<notin> set (u_invs c)
        then (ERR_INVITEONLYCHAN, flg1, w)
        else if key (mode k) \<noteq> [] \<and> (BadPtr ky \<or> irccmp (key (mode k)) (the ky) \<noteq> 0)
        then (ERR_BADCHANNELKEY, flg1, w)
        else if limit (mode k) \<noteq> 0 \<and> users k \<ge> limit (mode k)
        then (ERR_CHANNELISFULL, flg1, w)
        else (0, flg1, w))"

end
