(* ===== verification/ChanInv.thy ===== *)
theory ChanInv
  imports Channel
begin

text \<open>
  The consistency of the channel data: membership is recorded on both sides, counters
  agree with the lists they count, invitations are symmetric, the ban counter counts the
  three lists, and the hash table and the list of channels hold the same blocks.  Every
  operation of \<open>Channel\<close> preserves it.
\<close>

section \<open>The invariant\<close>

definition memb_ok :: "world \<Rightarrow> bool" where
  "memb_ok w \<longleftrightarrow>
     (\<forall>x c. c \<in> m_client ` set (members (ch w x)) \<longleftrightarrow> x \<in> set (u_chans (cl w c))) \<and>
     (\<forall>x. distinct (map m_client (members (ch w x)))) \<and> (\<forall>c. distinct (u_chans (cl w c)))"

definition count_ok :: "world \<Rightarrow> bool" where
  "count_ok w \<longleftrightarrow>
     (\<forall>x. users (ch w x) = int (length (members (ch w x)))) \<and>
     (\<forall>c u. user (cl w c) = Some u \<longrightarrow> u_joined u = int (length (u_channel u)))"

definition invite_ok :: "world \<Rightarrow> bool" where
  "invite_ok w \<longleftrightarrow>
     (\<forall>x c. c \<in> set (invites (ch w x)) \<longleftrightarrow> x \<in> set (u_invs (cl w c))) \<and>
     (\<forall>x. distinct (invites (ch w x))) \<and> (\<forall>c. distinct (u_invs (cl w c)))"

definition bed_count :: "channel \<Rightarrow> int" where
  "bed_count k = int (length (banlist k) + length (exceptlist k) + length (invexlist k))"

definition bed_ok :: "world \<Rightarrow> bool" where
  "bed_ok w \<longleftrightarrow> (\<forall>x \<in> set (chan_list w). num_bed (ch w x) = bed_count (ch w x))"

definition table_ok :: "world \<Rightarrow> bool" where
  "table_ok w \<longleftrightarrow>
     distinct (chan_list w) \<and> (\<forall>x \<in> set (chan_list w). x < next_chan w) \<and>
     count_chan w = int (length (chan_list w)) \<and>
     tab_ok hash_channel_name (\<lambda>x. chname (ch w x)) (set (chan_list w)) (chan_tab w) \<and>
     names_ok (\<lambda>x. chname (ch w x)) (set (chan_list w))"

definition dead_ok :: "world \<Rightarrow> bool" where
  "dead_ok w \<longleftrightarrow> (\<forall>x. x \<notin> set (chan_list w) \<longrightarrow> members (ch w x) = [] \<and> invites (ch w x) = [])"

definition chan_inv :: "world \<Rightarrow> bool" where
  "chan_inv w \<longleftrightarrow> memb_ok w \<and> count_ok w \<and> invite_ok w \<and> bed_ok w \<and> table_ok w \<and> dead_ok w"

lemmas inv_defs = memb_ok_def count_ok_def invite_ok_def bed_ok_def table_ok_def dead_ok_def

named_theorems chan_inv_intros \<open>preservation of the channel invariant\<close>

lemma chan_inv_log [simp]: "chan_inv (log_out os w) = chan_inv w"
  by (simp add: chan_inv_def inv_defs)

lemma chan_inv_ts_warn [simp]: "chan_inv (ts_warn f a w) = chan_inv w"
  by (simp add: chan_inv_def inv_defs)

text \<open>
  The invariant reads only these parts of the state; an update elsewhere keeps it.
\<close>

lemma chan_inv_cong_invites:
  assumes "\<And>c. u_chans (cl w' c) = u_chans (cl w c)"
    "\<And>c u. user (cl w' c) = Some u \<Longrightarrow> u_joined u = int (length (u_channel u))"
    "\<And>x. map m_client (members (ch w' x)) = map m_client (members (ch w x))"
    "\<And>x. users (ch w' x) = users (ch w x)"
    "\<And>x. chname (ch w' x) = chname (ch w x)"
    "\<And>x. x \<in> set (chan_list w) \<Longrightarrow> num_bed (ch w x) = bed_count (ch w x) \<Longrightarrow> num_bed (ch w' x) = bed_count (ch w' x)"
    "chan_list w' = chan_list w" "next_chan w' = next_chan w" "chan_tab w' = chan_tab w"
    "count_chan w' = count_chan w" "chan_inv w"
    "invite_ok w'" "\<And>x. x \<notin> set (chan_list w) \<Longrightarrow> invites (ch w' x) = []"
  shows "chan_inv w'"
proof -
  have len: "length (members (ch w' x)) = length (members (ch w x))" for x
    using assms(3) [of x] by (metis length_map)
  have img: "m_client ` set (members (ch w' x)) = m_client ` set (members (ch w x))" for x
    using assms(3) [of x] by (metis list.set_map)
  have emp: "members (ch w' x) = [] \<longleftrightarrow> members (ch w x) = []" for x
    using len [of x] by (metis length_0_conv)
  have "memb_ok w'" using assms by (simp add: chan_inv_def memb_ok_def img)
  moreover have "count_ok w'" using assms by (simp add: chan_inv_def count_ok_def len)
  moreover have "bed_ok w'" using assms by (simp add: chan_inv_def bed_ok_def)
  moreover have "table_ok w'" using assms by (simp add: chan_inv_def table_ok_def)
  moreover have "dead_ok w'" using assms by (simp add: chan_inv_def dead_ok_def emp)
  ultimately show ?thesis using assms(12) by (simp add: chan_inv_def)
qed

lemma chan_inv_cong:
  assumes "\<And>c. u_chans (cl w' c) = u_chans (cl w c)" "\<And>c. u_invs (cl w' c) = u_invs (cl w c)"
    "\<And>c u. user (cl w' c) = Some u \<Longrightarrow> u_joined u = int (length (u_channel u))"
    "\<And>x. map m_client (members (ch w' x)) = map m_client (members (ch w x))"
    "\<And>x. users (ch w' x) = users (ch w x)" "\<And>x. invites (ch w' x) = invites (ch w x)"
    "\<And>x. chname (ch w' x) = chname (ch w x)"
    "\<And>x. x \<in> set (chan_list w) \<Longrightarrow> num_bed (ch w x) = bed_count (ch w x) \<Longrightarrow> num_bed (ch w' x) = bed_count (ch w' x)"
    "chan_list w' = chan_list w" "next_chan w' = next_chan w" "chan_tab w' = chan_tab w"
    "count_chan w' = count_chan w" "chan_inv w"
  shows "chan_inv w'"
  by (rule chan_inv_cong_invites [OF assms(1,3,4,5,7-13)])
    (use assms(2,6,13) in \<open>simp_all add: chan_inv_def invite_ok_def dead_ok_def\<close>)

lemma chan_inv_joined:
  "chan_inv w \<Longrightarrow> user (cl w c) = Some u \<Longrightarrow> u_joined u = int (length (u_channel u))"
  by (simp add: chan_inv_def count_ok_def)

text \<open>Changes of fields of a channel or a client that the invariant does not read.\<close>

lemma chan_inv_upd_ch:
  assumes "chan_inv w" "map m_client (members k) = map m_client (members (ch w x))"
    "users k = users (ch w x)" "invites k = invites (ch w x)" "chname k = chname (ch w x)"
    "x \<in> set (chan_list w) \<Longrightarrow> num_bed (ch w x) = bed_count (ch w x) \<Longrightarrow> num_bed k = bed_count k"
  shows "chan_inv (w\<lparr>chans := (chans w)(x := k)\<rparr>)"
  by (rule chan_inv_cong [OF _ _ _ _ _ _ _ _ _ _ _ _ assms(1)])
    (use assms chan_inv_joined [OF assms(1)] in \<open>auto\<close>)

lemma chan_inv_upd_cl:
  assumes "chan_inv w" "user k = user (cl w c)"
  shows "chan_inv (w\<lparr>clients := (clients w)(c := k)\<rparr>)"
  by (rule chan_inv_cong [OF _ _ _ _ _ _ _ _ _ _ _ _ assms(1)])
    (use assms chan_inv_joined [OF assms(1)] in \<open>auto simp: u_chans_def u_invs_def split: if_splits\<close>)

lemma chan_inv_distinct: "chan_inv w \<Longrightarrow> distinct (map m_client (members (ch w x)))"
  by (simp add: chan_inv_def memb_ok_def)

section \<open>Ban lists\<close>

lemma get_set_list [simp]:
  "get_list ty (set_list ty bs k) = bs"
  "ty \<noteq> ty' \<Longrightarrow> get_list ty (set_list ty' bs k) = get_list ty k"
  "members (set_list ty bs k) = members k" "users (set_list ty bs k) = users k"
  "invites (set_list ty bs k) = invites k" "chname (set_list ty bs k) = chname k"
  "num_bed (set_list ty bs k) = num_bed k" "mode (set_list ty bs k) = mode k"
  by (cases ty; cases ty'; simp add: set_list_def get_list_def)+

lemma get_list_num_bed [simp]: "get_list ty (k\<lparr>num_bed := n\<rparr>) = get_list ty k"
  by (cases ty) (simp_all add: get_list_def)

lemma bed_count_set_list:
  "bed_count (set_list ty bs k) = bed_count k - int (length (get_list ty k)) + int (length bs)"
  by (cases ty) (simp_all add: bed_count_def set_list_def get_list_def)

lemma bed_count_num_bed [simp]: "bed_count (k\<lparr>num_bed := n\<rparr>) = bed_count k"
  by (simp add: bed_count_def)

lemma length_get_list: "int (length (get_list ty k)) \<le> bed_count k"
  by (cases ty) (simp_all add: bed_count_def get_list_def)

lemma add_id_inv [chan_inv_intros]:
  assumes "chan_inv w"
  shows "chan_inv (snd (add_id c x m ty w))"
proof -
  have "chan_inv (upd_ch x (\<lambda>k. (set_list ty (b # get_list ty k) k)\<lparr>num_bed := num_bed k + 1\<rparr>) w)" for b
    by (rule chan_inv_upd_ch [OF assms]) (simp_all add: bed_count_set_list)
  then show ?thesis using assms by (simp add: add_id_def Let_def send_defs)
qed

lemma del_id_inv [chan_inv_intros]:
  assumes "chan_inv w"
  shows "chan_inv (snd (del_id x m ty w))"
proof -
  let ?P = "\<lambda>b. irccmp m (banstr b) = 0" and ?k = "ch w x"
  let ?k' = "(set_list ty (unlink_first ?P (get_list ty ?k)) ?k)\<lparr>num_bed := (if num_bed ?k > 0 then num_bed ?k - 1 else 0)\<rparr>"
  have bed: "num_bed ?k' = bed_count ?k'" if eq: "num_bed ?k = bed_count ?k" and ex: "list_ex ?P (get_list ty ?k)"
  proof -
    obtain b where b: "b \<in> set (get_list ty ?k)" "?P b" using ex by (auto simp: list_ex_iff)
    then have "length (unlink_first ?P (get_list ty ?k)) = length (get_list ty ?k) - 1"
      by (subst length_unlink_first) auto
    moreover obtain n where "length (get_list ty ?k) = Suc n" using b by (cases "get_list ty ?k") auto
    moreover have "int (length (get_list ty ?k)) \<le> bed_count ?k" by (rule length_get_list)
    ultimately show ?thesis using eq by (simp add: bed_count_set_list)
  qed
  have "chan_inv (w\<lparr>chans := (chans w)(x := ?k')\<rparr>)" if "list_ex ?P (get_list ty ?k)"
    by (rule chan_inv_upd_ch [OF assms]) (use bed that in simp_all)
  then show ?thesis using assms by (simp add: del_id_def Let_def)
qed

section \<open>Member flags\<close>

lemma map_upd_member [simp]: "map m_client (upd_member c f ms) = map m_client ms"
  by (induction ms) auto

lemma change_chan_flag_inv [chan_inv_intros]: "chan_inv w \<Longrightarrow> chan_inv (change_chan_flag x c fl w)"
  unfolding change_chan_flag_def by (rule chan_inv_upd_ch) (simp_all add: bed_count_def)

lemma set_deopped_inv [chan_inv_intros]: "chan_inv w \<Longrightarrow> chan_inv (set_deopped c x fl w)"
  unfolding set_deopped_def by (rule chan_inv_upd_ch) (simp_all add: bed_count_def)

section \<open>Membership\<close>

lemma upd_user_simps [simp]:
  "chans (upd_user c f w) = chans w" "chan_list (upd_user c f w) = chan_list w"
  "next_chan (upd_user c f w) = next_chan w" "chan_tab (upd_user c f w) = chan_tab w"
  "count_chan (upd_user c f w) = count_chan w" "me (upd_user c f w) = me w" "now (upd_user c f w) = now w"
  "cl (upd_user c f w) d = (if d = c then (cl w c)\<lparr>user := map_option f (user (cl w c))\<rparr> else cl w d)"
  by (simp_all add: upd_user_def)

lemma add_user_inv [chan_inv_intros]:
  assumes "chan_inv w" "\<not> IsMember w c x" "x \<in> set (chan_list w)"
  shows "chan_inv (add_user_to_channel x c fl w)"
proof (cases "user (cl w c)")
  case None
  then show ?thesis using assms by (simp add: add_user_to_channel_def)
next
  case (Some u)
  let ?w = "add_user_to_channel x c fl w"
  have inv: "memb_ok w" "count_ok w" "invite_ok w" "bed_ok w" "table_ok w" "dead_ok w"
    using assms(1) by (simp_all add: chan_inv_def)
  have x: "x \<notin> set (u_channel u)" using assms(2) Some by (simp add: IsMember_def u_chans_def)
  then have c: "c \<notin> m_client ` set (members (ch w x))"
    using inv(1) Some by (simp add: memb_ok_def u_chans_def)
  have uc: "u_chans (cl ?w d) = (if d = c then x # u_channel u else u_chans (cl w d))" for d
    using Some by (simp add: add_user_to_channel_def u_chans_def)
  have ui: "u_invs (cl ?w d) = u_invs (cl w d)" for d
    using Some by (simp add: add_user_to_channel_def u_invs_def)
  have "distinct (u_chans (cl w c))" using inv(1) by (simp add: memb_ok_def)
  then have "distinct (u_channel u)" using Some by (simp add: u_chans_def)
  then have "memb_ok ?w"
    using inv(1) x c Some unfolding memb_ok_def uc
    by (auto simp: add_user_to_channel_def u_chans_def)
  moreover have "count_ok ?w"
    using inv(2) Some by (auto simp: count_ok_def add_user_to_channel_def)
  moreover have "invite_ok ?w"
    using inv(3) Some unfolding invite_ok_def ui by (auto simp: add_user_to_channel_def)
  moreover have "bed_ok ?w"
    using inv(4) Some by (auto simp: bed_ok_def add_user_to_channel_def bed_count_def)
  moreover have "(\<lambda>y. chname (ch ?w y)) = (\<lambda>y. chname (ch w y))"
    using Some by (auto simp: add_user_to_channel_def)
  then have "table_ok ?w"
    using inv(5) Some unfolding table_ok_def by (simp add: add_user_to_channel_def)
  moreover have "dead_ok ?w"
    using inv(6) Some assms(3) by (auto simp: dead_ok_def add_user_to_channel_def)
  ultimately show ?thesis by (simp add: chan_inv_def)
qed

section \<open>Invitations\<close>

lemma u_chans_upd_invited [simp]:
  "u_chans (k\<lparr>user := map_option (\<lambda>u. u\<lparr>u_invited := f u\<rparr>) (user k)\<rparr>) = u_chans k"
  by (cases "user k") (simp_all add: u_chans_def)

lemma u_invs_upd_invited:
  "u_invs (k\<lparr>user := map_option (\<lambda>u. u\<lparr>u_invited := f (u_invited u)\<rparr>) (user k)\<rparr>) =
     (if user k = None then [] else f (u_invs k))"
  by (cases "user k") (simp_all add: u_invs_def)

lemma u_invs_None: "user k = None \<Longrightarrow> u_invs k = []"
  by (simp add: u_invs_def)

lemma joined_upd_invited:
  "chan_inv w \<Longrightarrow> map_option (\<lambda>u. u\<lparr>u_invited := f u\<rparr>) (user (cl w c)) = Some u \<Longrightarrow>
     u_joined u = int (length (u_channel u))"
  by (auto simp: chan_inv_joined)

lemma del_invite_simps [simp]:
  "chan_list (del_invite c x w) = chan_list w" "next_chan (del_invite c x w) = next_chan w"
  "chan_tab (del_invite c x w) = chan_tab w" "count_chan (del_invite c x w) = count_chan w"
  "me (del_invite c x w) = me w" "now (del_invite c x w) = now w"
  "invites (ch (del_invite c x w) y) = (if y = x then remove1 c (invites (ch w x)) else invites (ch w y))"
  "members (ch (del_invite c x w) y) = members (ch w y)" "users (ch (del_invite c x w) y) = users (ch w y)"
  "chname (ch (del_invite c x w) y) = chname (ch w y)" "juped (ch (del_invite c x w) y) = juped (ch w y)"
  "num_bed (ch (del_invite c x w) y) = num_bed (ch w y)" "bed_count (ch (del_invite c x w) y) = bed_count (ch w y)"
  "mode (ch (del_invite c x w) y) = mode (ch w y)"
  "u_chans (cl (del_invite c x w) d) = u_chans (cl w d)"
  "u_invs (cl (del_invite c x w) d) = (if d = c then remove1 x (u_invs (cl w c)) else u_invs (cl w d))"
  "(user (cl (del_invite c x w) d) = None) = (user (cl w d) = None)"
  by (auto simp: del_invite_def bed_count_def u_invs_upd_invited u_invs_None)

lemma del_invite_inv [chan_inv_intros]:
  assumes "chan_inv w"
  shows "chan_inv (del_invite c x w)"
proof (rule chan_inv_cong_invites [OF _ _ _ _ _ _ _ _ _ _ assms])
  show "u_joined u = int (length (u_channel u))" if "user (cl (del_invite c x w) d) = Some u" for d u
    using that assms joined_upd_invited [OF assms] by (auto simp: del_invite_def chan_inv_joined split: if_splits)
  show "invite_ok (del_invite c x w)"
    using assms by (auto simp: chan_inv_def invite_ok_def)
  show "invites (ch (del_invite c x w) y) = []" if "y \<notin> set (chan_list w)" for y
    using that assms by (auto simp: chan_inv_def dead_ok_def)
qed simp_all

lemma fold_del_invite:
  assumes "chan_inv w"
  shows "chan_inv (fold (\<lambda>c. del_invite c x) cs w) \<and>
    chan_list (fold (\<lambda>c. del_invite c x) cs w) = chan_list w \<and>
    next_chan (fold (\<lambda>c. del_invite c x) cs w) = next_chan w \<and>
    chan_tab (fold (\<lambda>c. del_invite c x) cs w) = chan_tab w \<and>
    count_chan (fold (\<lambda>c. del_invite c x) cs w) = count_chan w \<and>
    set (invites (ch (fold (\<lambda>c. del_invite c x) cs w) x)) = set (invites (ch w x)) - set cs"
  using assms
proof (induction cs arbitrary: w)
  case (Cons c cs)
  have "distinct (invites (ch w x))" using Cons.prems by (simp add: chan_inv_def invite_ok_def)
  then show ?case using Cons.IH [OF del_invite_inv [OF Cons.prems, of c x]] by auto
qed simp

lemma fold_del_invite_fields [simp]:
  "members (ch (fold (\<lambda>c. del_invite c x) cs w) y) = members (ch w y)"
  "users (ch (fold (\<lambda>c. del_invite c x) cs w) y) = users (ch w y)"
  "chname (ch (fold (\<lambda>c. del_invite c x) cs w) y) = chname (ch w y)"
  "juped (ch (fold (\<lambda>c. del_invite c x) cs w) y) = juped (ch w y)"
  "u_chans (cl (fold (\<lambda>c. del_invite c x) cs w) d) = u_chans (cl w d)"
  by (induction cs arbitrary: w) simp_all

lemma del_all_invites_inv [chan_inv_intros]:
  "chan_inv w \<Longrightarrow> chan_inv (del_all_invites x w)"
  using fold_del_invite by (simp add: del_all_invites_def)

lemma del_all_invites_simps [simp]:
  "members (ch (del_all_invites x w) y) = members (ch w y)"
  "users (ch (del_all_invites x w) y) = users (ch w y)"
  "chname (ch (del_all_invites x w) y) = chname (ch w y)"
  "juped (ch (del_all_invites x w) y) = juped (ch w y)"
  "u_chans (cl (del_all_invites x w) d) = u_chans (cl w d)"
  by (simp_all add: del_all_invites_def)

lemma del_all_invites_fields:
  assumes "chan_inv w"
  shows "chan_list (del_all_invites x w) = chan_list w" "next_chan (del_all_invites x w) = next_chan w"
    "chan_tab (del_all_invites x w) = chan_tab w" "count_chan (del_all_invites x w) = count_chan w"
    "invites (ch (del_all_invites x w) x) = []"
  using fold_del_invite [OF assms, of x "invites (ch w x)"] by (simp_all add: del_all_invites_def)

lemma add_invite_inv [chan_inv_intros]:
  assumes "chan_inv w" "x \<in> set (chan_list w)" "user (cl w c) \<noteq> None"
  shows "chan_inv (add_invite c x w)"
proof -
  define w1 where "w1 = del_invite c x w"
  define w2 where "w2 = (if length (u_invs (cl w1 c)) \<ge> MAXCHANNELSPERUSER
      then del_invite c (hd (u_invs (cl w1 c))) w1 else w1)"
  let ?w = "add_invite c x w"
  have inv: "chan_inv w1" "chan_inv w2"
    using assms(1) by (simp_all add: w1_def w2_def del_invite_inv)
  have d: "distinct (invites (ch w x))" "distinct (u_invs (cl w c))"
    using assms(1) by (simp_all add: chan_inv_def invite_ok_def)
  then have n1: "c \<notin> set (invites (ch w1 x))" "x \<notin> set (u_invs (cl w1 c))" by (simp_all add: w1_def)
  then have n2: "c \<notin> set (invites (ch w2 x))" "x \<notin> set (u_invs (cl w2 c))"
    by (auto simp: w2_def dest: set_remove1_subset [THEN subsetD])
  have u2: "user (cl w2 c) \<noteq> None" "chan_list w2 = chan_list w" using assms(3) by (simp_all add: w2_def w1_def del: not_None_eq)
  have eq: "?w = upd_user c (\<lambda>u. u\<lparr>u_invited := u_invited u @ [x]\<rparr>)
      (upd_ch x (\<lambda>k. k\<lparr>invites := c # invites k\<rparr>) w2)"
    by (simp add: add_invite_def Let_def w1_def [symmetric] w2_def [symmetric])
  have ui: "u_invs (cl ?w d) = (if d = c then u_invs (cl w2 c) @ [x] else u_invs (cl w2 d))" for d
    using u2(1) by (auto simp: eq u_invs_def)
  have ci: "invites (ch ?w y) = (if y = x then c # invites (ch w2 x) else invites (ch w2 y))" for y
    by (simp add: eq)
  show ?thesis
  proof (rule chan_inv_cong_invites [OF _ _ _ _ _ _ _ _ _ _ inv(2)])
    show "u_joined u = int (length (u_channel u))" if "user (cl ?w d) = Some u" for d u
      using that inv(2) by (auto simp: eq chan_inv_joined split: if_splits)
    show "invite_ok ?w"
      using inv(2) n2 unfolding invite_ok_def ui ci by (auto simp: chan_inv_def invite_ok_def)
    show "invites (ch ?w y) = []" if "y \<notin> set (chan_list w2)" for y
      using that inv(2) assms(2) u2 by (auto simp: eq chan_inv_def dead_ok_def)
  qed (auto simp: eq bed_count_def)
qed

section \<open>Life of a channel\<close>

lemma fold_remove_fludee_other [simp]:
  "chans (fold (\<lambda>b. remove_fludee_reference (f b) t) bs w) = chans w"
  "chan_list (fold (\<lambda>b. remove_fludee_reference (f b) t) bs w) = chan_list w"
  "next_chan (fold (\<lambda>b. remove_fludee_reference (f b) t) bs w) = next_chan w"
  "chan_tab (fold (\<lambda>b. remove_fludee_reference (f b) t) bs w) = chan_tab w"
  "count_chan (fold (\<lambda>b. remove_fludee_reference (f b) t) bs w) = count_chan w"
  "user (cl (fold (\<lambda>b. remove_fludee_reference (f b) t) bs w) c) = user (cl w c)"
  by (induction bs arbitrary: w) (auto simp: remove_fludee_reference_def)

lemma u_sides_cong: "user k = user k' \<Longrightarrow> u_chans k = u_chans k' \<and> u_invs k = u_invs k'"
  by (simp add: u_chans_def u_invs_def)

lemma free_fluders_channel_simps [simp]:
  "chan_list (free_fluders_channel x w) = chan_list w"
  "next_chan (free_fluders_channel x w) = next_chan w"
  "chan_tab (free_fluders_channel x w) = chan_tab w"
  "count_chan (free_fluders_channel x w) = count_chan w"
  "user (cl (free_fluders_channel x w) c) = user (cl w c)"
  "u_chans (cl (free_fluders_channel x w) c) = u_chans (cl w c)"
  "u_invs (cl (free_fluders_channel x w) c) = u_invs (cl w c)"
  "members (ch (free_fluders_channel x w) y) = members (ch w y)"
  "users (ch (free_fluders_channel x w) y) = users (ch w y)"
  "invites (ch (free_fluders_channel x w) y) = invites (ch w y)"
  "chname (ch (free_fluders_channel x w) y) = chname (ch w y)"
  "num_bed (ch (free_fluders_channel x w) y) = num_bed (ch w y)"
  "bed_count (ch (free_fluders_channel x w) y) = bed_count (ch w y)"
  by (simp_all add: free_fluders_channel_def u_chans_def u_invs_def bed_count_def)

lemma free_fluders_channel_inv [chan_inv_intros]:
  assumes "chan_inv w"
  shows "chan_inv (free_fluders_channel x w)"
  by (rule chan_inv_cong [OF _ _ _ _ _ _ _ _ _ _ _ _ assms]) (simp_all add: chan_inv_joined [OF assms])

lemma free_bans_simps [simp]:
  "clients (free_bans_exceptions_denies x w) = clients w"
  "chan_list (free_bans_exceptions_denies x w) = chan_list w"
  "next_chan (free_bans_exceptions_denies x w) = next_chan w"
  "chan_tab (free_bans_exceptions_denies x w) = chan_tab w"
  "count_chan (free_bans_exceptions_denies x w) = count_chan w"
  "members (ch (free_bans_exceptions_denies x w) y) = members (ch w y)"
  "users (ch (free_bans_exceptions_denies x w) y) = users (ch w y)"
  "invites (ch (free_bans_exceptions_denies x w) y) = invites (ch w y)"
  "chname (ch (free_bans_exceptions_denies x w) y) = chname (ch w y)"
  "y \<noteq> x \<Longrightarrow> ch (free_bans_exceptions_denies x w) y = ch w y"
  by (simp_all add: free_bans_exceptions_denies_def)

lemma free_channel_inv [chan_inv_intros]:
  assumes inv: "chan_inv w" and x: "x \<in> set (chan_list w)" and empty: "members (ch w x) = []"
  shows "chan_inv (free_channel x w) \<and> chan_list (free_channel x w) = remove1 x (chan_list w)"
proof -
  define w1 where "w1 = del_all_invites x w"
  note f = del_all_invites_fields [OF inv, of x, folded w1_def]
  have inv1: "memb_ok w1" "count_ok w1" "invite_ok w1" "bed_ok w1" "table_ok w1" "dead_ok w1"
    using del_all_invites_inv [OF inv] by (simp_all add: w1_def chan_inv_def)
  have e1: "members (ch w1 x) = []" using empty by (simp add: w1_def)
  let ?w = "free_channel x w"
  have fields: "clients ?w = clients (free_fluders_channel x (free_bans_exceptions_denies x w1\<lparr>chan_list := remove1 x (chan_list w1)\<rparr>))"
    "chan_list ?w = remove1 x (chan_list w1)" "next_chan ?w = next_chan w1"
    "chan_tab ?w = del_from_channel_hash_table (chname (ch w1 x)) x (chan_tab w1)"
    "count_chan ?w = count_chan w1 - 1"
    "chans ?w = chans (free_fluders_channel x (free_bans_exceptions_denies x w1\<lparr>chan_list := remove1 x (chan_list w1)\<rparr>))"
    by (simp_all add: free_channel_def Let_def w1_def [symmetric])
  have us: "user (cl ?w c) = user (cl w1 c)" "u_chans (cl ?w c) = u_chans (cl w1 c)"
    "u_invs (cl ?w c) = u_invs (cl w1 c)" for c
    by (simp_all add: fields)
  have cs: "members (ch ?w y) = members (ch w1 y)" "users (ch ?w y) = users (ch w1 y)"
    "invites (ch ?w y) = invites (ch w1 y)" "chname (ch ?w y) = chname (ch w1 y)" for y
    by (simp_all add: fields)
  have bs: "num_bed (ch ?w y) = num_bed (ch w1 y)" "bed_count (ch ?w y) = bed_count (ch w1 y)" if "y \<noteq> x" for y
    using that by (simp_all add: fields)
  have d: "distinct (chan_list w1)" using inv1(5) by (simp add: table_ok_def)
  have x1: "x \<in> set (chan_list w1)" using x f(1) by simp
  have "memb_ok ?w" using inv1(1) unfolding memb_ok_def us cs .
  moreover have "count_ok ?w" using inv1(2) unfolding count_ok_def us cs .
  moreover have "invite_ok ?w" using inv1(3) unfolding invite_ok_def us cs .
  moreover have "bed_ok ?w" using inv1(4) d bs unfolding bed_ok_def fields(2) by simp
  moreover have "table_ok ?w"
  proof -
    have "tab_ok hash_channel_name (\<lambda>x. chname (ch w1 x)) (set (chan_list w1) - {x})
        (tab_del hash_channel_name (chname (ch w1 x)) x (chan_tab w1))"
      using chan.ok_del [of "\<lambda>x. chname (ch w1 x)"] inv1(5) x1 by (simp add: table_ok_def)
    moreover obtain n where "length (chan_list w1) = Suc n" using x1 by (cases "chan_list w1") auto
    ultimately show ?thesis
      using inv1(5) d x1 unfolding table_ok_def fields(2-5) cs
      by (auto simp: del_from_channel_hash_table_def length_remove1 names_ok_def)
  qed
  moreover have "dead_ok ?w"
    using inv1(6) d e1 f(5) unfolding dead_ok_def fields(2) cs by auto
  ultimately show ?thesis using f(1) fields(2) by (simp add: chan_inv_def)
qed

lemma sub1_from_channel_inv:
  assumes inv: "chan_inv (upd_ch x (\<lambda>k. k\<lparr>users := users k - 1\<rparr>) w)" and x: "x \<in> set (chan_list w)"
  shows "chan_inv (sub1_from_channel x w)"
    "chan_list (sub1_from_channel x w) =
       (if users (ch w x) \<le> 1 \<and> \<not> juped (ch w x) then remove1 x (chan_list w) else chan_list w)"
proof -
  let ?w1 = "upd_ch x (\<lambda>k. k\<lparr>users := users k - 1\<rparr>) w"
  let ?w2 = "upd_ch x (\<lambda>k. k\<lparr>users := 0\<rparr>) ?w1"
  have len: "users (ch ?w1 x) = int (length (members (ch ?w1 x)))"
    using inv unfolding chan_inv_def count_ok_def by blast
  have small: "chan_inv ?w2 \<and> members (ch ?w2 x) = []" if "users (ch ?w1 x) \<le> 0"
  proof
    have z: "users (ch ?w1 x) = 0" "members (ch ?w1 x) = []" using len that by simp_all
    then show "members (ch ?w2 x) = []" by simp
    show "chan_inv ?w2" by (rule chan_inv_upd_ch [OF inv]) (use z in \<open>simp_all add: bed_count_def\<close>)
  qed
  have l: "chan_list (free_fluders_channel x (del_all_invites x ?w2)) = chan_list w" if "users (ch ?w1 x) \<le> 0"
    using small [OF that] del_all_invites_fields(1) [of ?w2 x] by simp
  show "chan_inv (sub1_from_channel x w)"
    using small inv x free_channel_inv [of ?w2 x] free_fluders_channel_inv [OF del_all_invites_inv, of ?w2 x x]
    by (simp add: sub1_from_channel_def Let_def)
  show "chan_list (sub1_from_channel x w) =
       (if users (ch w x) \<le> 1 \<and> \<not> juped (ch w x) then remove1 x (chan_list w) else chan_list w)"
    using small l x free_channel_inv [of ?w2 x] by (simp add: sub1_from_channel_def Let_def)
qed

lemma map_unlink_remove1: "map f (unlink_first (\<lambda>m. f m = c) ms) = remove1 c (map f ms)"
  by (induction ms) auto

lemma IsMember_user: "IsMember w c x \<Longrightarrow> user (cl w c) \<noteq> None"
  by (cases "user (cl w c)") (auto simp: IsMember_def u_chans_def)

lemma IsMember_alive: "chan_inv w \<Longrightarrow> IsMember w c x \<Longrightarrow> x \<in> set (chan_list w)"
  unfolding chan_inv_def memb_ok_def dead_ok_def IsMember_def
  by (metis empty_iff image_empty set_empty2)

lemma length_remove1_int: "x \<in> set xs \<Longrightarrow> int (length (remove1 x xs)) = int (length xs) - 1"
  by (induction xs) auto

lemma remove_user_inv:
  assumes inv: "chan_inv w" and mem: "IsMember w c x"
  shows "chan_inv (remove_user_from_channel c x w)"
    "chan_list (remove_user_from_channel c x w) =
       (if users (ch w x) \<le> 1 \<and> \<not> juped (ch w x) then remove1 x (chan_list w) else chan_list w)"
proof -
  let ?w1 = "upd_user c (\<lambda>u. u\<lparr>u_channel := remove1 x (u_channel u), u_joined := u_joined u - 1\<rparr>)
         (upd_ch x (\<lambda>k. k\<lparr>members := unlink_first (\<lambda>m. m_client m = c) (members k)\<rparr>) w)"
  let ?w2 = "upd_ch x (\<lambda>k. k\<lparr>users := users k - 1\<rparr>) ?w1"
  have x: "x \<in> set (chan_list w)" by (rule IsMember_alive [OF inv mem])
  obtain u where u: "user (cl w c) = Some u" using IsMember_user [OF mem] by blast
  have xu: "x \<in> set (u_channel u)" using mem u by (simp add: IsMember_def u_chans_def)
  have i: "memb_ok w" "count_ok w" "invite_ok w" "bed_ok w" "table_ok w" "dead_ok w"
    using inv by (simp_all add: chan_inv_def)
  have cm: "c \<in> m_client ` set (members (ch w x))" using i(1) mem by (simp add: memb_ok_def IsMember_def)
  have us: "u_chans (cl ?w2 d) = (if d = c then remove1 x (u_chans (cl w c)) else u_chans (cl w d))"
    "u_invs (cl ?w2 d) = u_invs (cl w d)" for d
    using u by (simp_all add: u_chans_def u_invs_def)
  have cs: "map m_client (members (ch ?w2 y)) =
      (if y = x then remove1 c (map m_client (members (ch w x))) else map m_client (members (ch w y)))"
    "users (ch ?w2 y) = (if y = x then users (ch w x) - 1 else users (ch w y))"
    "invites (ch ?w2 y) = invites (ch w y)" "chname (ch ?w2 y) = chname (ch w y)"
    "num_bed (ch ?w2 y) = num_bed (ch w y)" "bed_count (ch ?w2 y) = bed_count (ch w y)" for y
    by (simp_all add: map_unlink_remove1 bed_count_def)
  have d: "distinct (map m_client (members (ch w y)))" "distinct (u_chans (cl w e))" for y e
    using i(1) by (simp_all add: memb_ok_def)
  have img: "m_client ` set (members (ch ?w2 y)) =
      (if y = x then m_client ` set (members (ch w x)) - {c} else m_client ` set (members (ch w y)))" for y
  proof -
    have "m_client ` set (members (ch ?w2 y)) = set (map m_client (members (ch ?w2 y)))" by simp
    then show ?thesis unfolding cs(1) using d(1) by (simp only: set_remove1_eq list.set_map split: if_split) simp
  qed
  have "memb_ok ?w2"
    using i(1) d unfolding memb_ok_def us cs(1) img by (auto simp: distinct_remove1)
  moreover have "count_ok ?w2"
  proof -
    have "length (members (ch ?w2 y)) = length (map m_client (members (ch ?w2 y)))" for y by simp
    then have "users (ch ?w2 y) = int (length (members (ch ?w2 y)))" for y
      using i(2) cm unfolding cs count_ok_def by (auto simp: length_remove1_int)
    moreover have "u_joined u' = int (length (u_channel u'))" if "user (cl ?w2 e) = Some u'" for e u'
      using that i(2) u xu by (auto simp: count_ok_def length_remove1_int split: if_splits)
    ultimately show ?thesis unfolding count_ok_def by blast
  qed
  moreover have "invite_ok ?w2" using i(3) unfolding invite_ok_def us cs .
  moreover have "bed_ok ?w2" using i(4) unfolding bed_ok_def cs by simp
  moreover have "table_ok ?w2" using i(5) unfolding table_ok_def cs by simp
  moreover have "dead_ok ?w2" using i(6) x by (auto simp: dead_ok_def)
  ultimately have inv2: "chan_inv ?w2" by (simp add: chan_inv_def)
  show "chan_inv (remove_user_from_channel c x w)"
    unfolding remove_user_from_channel_def by (rule sub1_from_channel_inv [OF inv2]) (use x in simp)
  show "chan_list (remove_user_from_channel c x w) =
       (if users (ch w x) \<le> 1 \<and> \<not> juped (ch w x) then remove1 x (chan_list w) else chan_list w)"
    unfolding remove_user_from_channel_def
    by (subst sub1_from_channel_inv(2) [OF inv2]) (use x in simp_all)
qed

lemma find_channel_Some:
  assumes "chan_inv w" "cstring nm"
  shows "find_channel w nm = Some x \<longleftrightarrow> x \<in> set (chan_list w) \<and> same_name nm (chname (ch w x))"
  using assms chan.find_Some [of "\<lambda>x. chname (ch w x)" "set (chan_list w)" "chan_tab w" nm x]
  by (auto simp: find_channel_def hash_find_channel_def chan_inv_def table_ok_def split: option.splits)

lemma find_channel_None:
  assumes "chan_inv w" "cstring nm"
  shows "find_channel w nm = None \<longleftrightarrow> (\<forall>x \<in> set (chan_list w). \<not> same_name nm (chname (ch w x)))"
  using find_channel_Some [OF assms] by (metis not_None_eq)

lemma new_channel_inv:
  assumes inv: "chan_inv w" and nm: "cstring nm" "find_channel w nm = None"
  shows "chan_inv (snd (new_channel nm w))" "fst (new_channel nm w) \<in> set (chan_list (snd (new_channel nm w)))"
    "members (ch (snd (new_channel nm w)) (fst (new_channel nm w))) = []"
    "\<not> IsMember (snd (new_channel nm w)) c (fst (new_channel nm w))"
proof -
  let ?x = "next_chan w" and ?w = "snd (new_channel nm w)"
  have i: "memb_ok w" "count_ok w" "invite_ok w" "bed_ok w" "table_ok w" "dead_ok w"
    using inv by (simp_all add: chan_inv_def)
  have fresh: "?x \<notin> set (chan_list w)" using i(5) by (auto simp: table_ok_def)
  then have dead: "members (ch w ?x) = []" "invites (ch w ?x) = []" using i(6) by (auto simp: dead_ok_def)
  have z: "members zero_channel = []" "invites zero_channel = []" "users zero_channel = 0"
    "num_bed zero_channel = 0" "bed_count zero_channel = 0"
    by (simp_all add: zero_channel_def bed_count_def)
  have zc: "bed_count (zero_channel\<lparr>chname := a, channelts := b\<rparr>) = 0" for a b
    by (simp add: zero_channel_def bed_count_def)
  have ux: "?x \<notin> set (u_chans (cl w d))" "?x \<notin> set (u_invs (cl w d))" for d
  proof -
    show "?x \<notin> set (u_chans (cl w d))" using i(1) dead(1) unfolding memb_ok_def by (metis empty_iff image_empty set_empty2)
    show "?x \<notin> set (u_invs (cl w d))" using i(3) dead(2) unfolding invite_ok_def by (metis empty_iff set_empty2)
  qed
  have "memb_ok ?w" using i(1) ux by (auto simp: memb_ok_def new_channel_def Let_def z)
  moreover have "count_ok ?w" using i(2) by (auto simp: count_ok_def new_channel_def Let_def z)
  moreover have "invite_ok ?w" using i(3) ux by (auto simp: invite_ok_def new_channel_def Let_def z)
  moreover have "bed_ok ?w" using i(4) fresh by (auto simp: bed_ok_def new_channel_def Let_def z zc)
  moreover have "table_ok ?w"
  proof -
    let ?n = "\<lambda>y. chname (ch ?w y)"
    have old: "?n y = chname (ch w y)" if "y \<in> set (chan_list w)" for y
      using that fresh by (auto simp: new_channel_def Let_def)
    have new: "?n ?x = nm" by (simp add: new_channel_def Let_def)
    have "tab_ok hash_channel_name ?n (set (chan_list w)) (chan_tab w)"
      using i(5) chan.ok_cong [of "set (chan_list w)" ?n "\<lambda>y. chname (ch w y)"] old by (simp add: table_ok_def)
    then have t: "tab_ok hash_channel_name ?n (insert ?x (set (chan_list w))) (tab_add hash_channel_name nm ?x (chan_tab w))"
      using chan.ok_add [of ?n "set (chan_list w)" "chan_tab w" ?x] fresh new by simp
    have none: "\<forall>y \<in> set (chan_list w). \<not> same_name nm (chname (ch w y))"
      using nm find_channel_None [OF inv] by blast
    have no: "names_ok (\<lambda>y. chname (ch w y)) (set (chan_list w))" using i(5) by (simp add: table_ok_def)
    have "names_ok ?n (insert ?x (set (chan_list w)))"
      unfolding names_ok_def
    proof (intro conjI ballI impI)
      show "cstring (?n y)" if "y \<in> insert ?x (set (chan_list w))" for y
        using that old new nm(1) no by (auto simp: names_ok_def)
      show "y = z" if "y \<in> insert ?x (set (chan_list w))" "z \<in> insert ?x (set (chan_list w))"
        "same_name (?n y) (?n z)" for y z
        using that old new none no same_name_sym unfolding names_ok_def by (metis insert_iff)
    qed
    then show ?thesis
      using i(5) fresh t by (auto simp: table_ok_def new_channel_def Let_def add_to_channel_hash_table_def less_Suc_eq)
  qed
  moreover have "dead_ok ?w" using i(6) by (auto simp: dead_ok_def new_channel_def Let_def)
  ultimately show "chan_inv ?w" by (simp add: chan_inv_def)
  show "fst (new_channel nm w) \<in> set (chan_list ?w)" "members (ch ?w (fst (new_channel nm w))) = []"
    by (simp_all add: new_channel_def Let_def z)
  show "\<not> IsMember ?w c (fst (new_channel nm w))" using ux by (simp add: new_channel_def Let_def IsMember_def)
qed

end
