(* ===== verification/ModeStr.thy ===== *)
theory ModeStr
  imports ChanInv "HOL-Library.Multiset"
begin

text \<open>
  The string side of channel modes in \<open>src/channel.c\<close>: ban masks in their full form, keys,
  the redundant signs of a mode string, the mode string of a channel, and the burst of a
  channel to a new server (\<open>send_channel_modes\<close>).
\<close>

section \<open>Masks and keys\<close>

text \<open>\<open>strchr\<close> and \<open>strrchr\<close> with the byte found overwritten by NUL: the text before and after.\<close>

definition split_first :: "char \<Rightarrow> cstr \<Rightarrow> cstr \<times> cstr option" where
  "split_first c s =
     (case dropWhile (\<lambda>d. d \<noteq> c) s of [] \<Rightarrow> (s, None) | _ # r \<Rightarrow> (takeWhile (\<lambda>d. d \<noteq> c) s, Some r))"

definition split_last :: "char \<Rightarrow> cstr \<Rightarrow> cstr \<times> cstr option" where
  "split_last c s =
     (case dropWhile (\<lambda>d. d \<noteq> c) (rev s) of
        [] \<Rightarrow> (s, None) | _ # r \<Rightarrow> (rev r, Some (rev (takeWhile (\<lambda>d. d \<noteq> c) (rev s)))))"

definition pretty_mask :: "cstr \<Rightarrow> cstr" where
  "pretty_mask msk =
     (let (cp, usr) = split_first CHR ''!'' msk;
          (body, hst) = split_last CHR ''@'' (case usr of Some u \<Rightarrow> u | None \<Rightarrow> cp)
      in case (usr, hst) of
           (None, Some h) \<Rightarrow> make_nick_user_host ''*'' (check_string (Some body)) (check_string (Some h))
         | (None, None) \<Rightarrow>
             if CHR ''.'' \<in> set cp then make_nick_user_host ''*'' ''*'' (check_string (Some cp))
             else make_nick_user_host (check_string (Some cp)) (check_string None) (check_string None)
         | (Some u, _) \<Rightarrow>
             make_nick_user_host (check_string (Some cp)) (check_string (Some body)) (check_string hst))"

definition fix_key :: "cstr \<Rightarrow> cstr" where
  "fix_key arg = filter (\<lambda>c. c \<noteq> CHR '':'' \<and> code c > 32) (map (\<lambda>c. char_of (code c mod 128)) arg)"

text \<open>
  \<open>fix_key_old\<close> keeps a byte 0x80, which it stores as NUL: the key ends there.
\<close>

definition fix_key_old :: "cstr \<Rightarrow> cstr" where
  "fix_key_old arg =
     c_str (filter (\<lambda>c. code c \<noteq> 10 \<and> c \<noteq> CHR '':'') (map (\<lambda>c. char_of (code c mod 128)) arg))"

definition is_sign :: "char \<Rightarrow> bool" where
  "is_sign c = (c = CHR ''+'' \<or> c = CHR ''-'')"

fun collapse_signs_from :: "char \<Rightarrow> cstr \<Rightarrow> cstr" where
  "collapse_signs_from sg [] = []"
| "collapse_signs_from sg (c # s) =
     (let rest = collapse_signs_from (if is_sign c then c else sg) s
      in if c \<noteq> sg then c # rest else rest)"

definition collapse_signs :: "cstr \<Rightarrow> cstr" where
  "collapse_signs s = collapse_signs_from NUL s"

text \<open>What a mode string means: each mode letter with the sign in force.\<close>

fun signed_modes :: "char \<Rightarrow> cstr \<Rightarrow> (char \<times> char) list" where
  "signed_modes sg [] = []"
| "signed_modes sg (c # s) =
     (if is_sign c then signed_modes c s else (sg, c) # signed_modes sg s)"

section \<open>The mode string of a channel\<close>

definition sees_params :: "world \<Rightarrow> cid \<Rightarrow> chid \<Rightarrow> bool" where
  "sees_params w c x = (IsMember w c x \<or> IsServer (cl w c))"

text \<open>
  \<open>channel_modes\<close>: the contents of \<open>mbuf\<close>, and of \<open>pbuf\<close> from its contents before the call.
\<close>

definition channel_modes :: "world \<Rightarrow> cid \<Rightarrow> cstr \<Rightarrow> chid \<Rightarrow> cstr \<times> cstr" where
  "channel_modes w c pbuf x =
     (let m = mode (ch w x); f = (\<lambda>fl c. if has_flag (modes m) fl then [c] else []) in
      (''+'' @ f MODE_SECRET CHR ''s'' @ f MODE_PRIVATE CHR ''p'' @ f MODE_MODERATED CHR ''m'' @
         f MODE_TOPICLIMIT CHR ''t'' @ f MODE_INVITEONLY CHR ''i'' @ f MODE_NOPRIVMSGS CHR ''n'' @
         (if limit m \<noteq> 0 then ''l'' else []) @ (if key m \<noteq> [] then ''k'' else []),
       (if limit m \<noteq> 0 \<and> sees_params w c x then dec_int (limit m) @ '' '' else pbuf) @
         (if key m \<noteq> [] \<and> sees_params w c x then key m else [])))"

section \<open>Bursting a channel\<close>

text \<open>
  \<open>send_mode_list\<close> over the masks of one list; every link of a list carries the flag of its
  list, so the test of \<open>mask\<close> always passes.  The buffers and the lines sent.
\<close>

fun mode_list_loop :: "char \<Rightarrow> cstr list \<Rightarrow> cstr \<Rightarrow> cstr \<Rightarrow> nat \<Rightarrow> (cstr \<times> cstr) list \<times> cstr \<times> cstr" where
  "mode_list_loop flag [] mb pb cnt = ([], mb, pb)"
| "mode_list_loop flag (nm # nms) mb pb cnt =
     (let fits = (length pb + length nm + 10 < MODEBUFLEN);
          mb1 = (if fits then mb @ [flag] else mb);
          pb1 = (if fits then pb @ '' '' @ nm else pb);
          cnt1 = (if fits then cnt + 1 else cnt)
      in if (\<not> fits \<and> pb \<noteq> []) \<or> cnt1 = 3 then
           let (ls, mb2, pb2) =
             (if cnt1 \<noteq> 3 then mode_list_loop flag nms (''+'' @ [flag]) nm 0
              else mode_list_loop flag nms ''+'' [] 0)
           in ((mb1, pb1) # ls, mb2, pb2)
         else mode_list_loop flag nms mb1 pb1 cnt1)"

definition mode_line :: "world \<Rightarrow> cid \<Rightarrow> cstr \<Rightarrow> cstr \<times> cstr \<Rightarrow> out" where
  "mode_line w cptr chnm l =
     One cptr (Fmt '':%s MODE %s %s %s'') [Str (name (cl w (me w))), Str chnm, Str (fst l), Str (snd l)]"

text \<open>One list of the burst: \<open>send_mode_list\<close> on fresh buffers and the line left over.\<close>

definition send_mode_list :: "char \<Rightarrow> cstr list \<Rightarrow> (cstr \<times> cstr) list" where
  "send_mode_list flag nms =
     (let (ls, mb, pb) = mode_list_loop flag nms ''+'' [] 0
      in ls @ (if at mb 1 \<noteq> NUL \<or> pb \<noteq> [] then [(mb, pb)] else []))"

definition sjoin_nick :: "world \<Rightarrow> member \<Rightarrow> cstr" where
  "sjoin_nick w m =
     (if has_flag (m_flags m) MODE_CHANOP then ''@'' else []) @
     (if has_flag (m_flags m) MODE_VOICE then ''+'' else []) @ name (cl w (m_client m))"

text \<open>The members, the first operator in front.\<close>

definition burst_order :: "member list \<Rightarrow> member list" where
  "burst_order ms =
     (case find (\<lambda>m. has_flag (m_flags m) MODE_CHANOP) ms of
        None \<Rightarrow> ms
      | Some a \<Rightarrow> a # unlink_first (\<lambda>m. has_flag (m_flags m) MODE_CHANOP) ms)"

text \<open>
  The loop that fills \<open>buf\<close>: a line goes out when less than 80 bytes are left.  The blank
  after the last nick stays, as the code tests the NUL it has just stored.
\<close>

fun burst_lines :: "cstr list \<Rightarrow> cstr \<Rightarrow> cstr \<Rightarrow> nat \<Rightarrow> cstr list" where
  "burst_lines [] again buf n = (if n = 0 then [] else [buf])"
| "burst_lines (t # ts) again buf n =
     (let buf1 = buf @ t @ '' '' in
      if length buf1 > BUFSIZE - 80 then buf1 # burst_lines ts again again 0
      else burst_lines ts again buf1 (n + 1))"

definition sjoin_head :: "world \<Rightarrow> chid \<Rightarrow> cstr \<Rightarrow> cstr" where
  "sjoin_head w x rest =
     '':'' @ name (cl w (me w)) @ '' SJOIN '' @ dec_int (channelts (ch w x)) @ '' '' @
     chname (ch w x) @ '' '' @ rest"

definition send_channel_modes :: "cid \<Rightarrow> chid \<Rightarrow> world \<Rightarrow> world" where
  "send_channel_modes cptr x w =
     (let k = ch w x in
      if at (chname k) 0 \<noteq> CHR ''#'' then w
      else
        let (mb, pb) = channel_modes w cptr [] x;
            pb1 = (if pb \<noteq> [] then pb @ '' '' else pb);
            sj = burst_lines (map (sjoin_nick w) (burst_order (members k)))
                   (sjoin_head w x ''0 :'') (sjoin_head w x (mb @ '' '' @ pb1 @ '':'')) 0;
            w1 = log_out (map (\<lambda>l. One cptr (Fmt ''%s'') [Str l]) sj) w;
            w2 = log_out (map (mode_line w cptr (chname k)) (send_mode_list CHR ''b'' (map banstr (banlist k)))) w1
        in if \<not> IsCapable (cl w cptr) CAP_EX then w2
           else
             let w3 = log_out (map (mode_line w cptr (chname k)) (send_mode_list CHR ''e'' (map banstr (exceptlist k)))) w2
             in if \<not> IsCapable (cl w cptr) CAP_IE then w3
                else log_out (map (mode_line w cptr (chname k)) (send_mode_list CHR ''I'' (map banstr (invexlist k)))) w3)"

section \<open>Lemmas\<close>

lemma collapse_signs_from_meaning:
  "sg = NUL \<or> is_sign sg \<Longrightarrow> cstring s \<Longrightarrow>
     signed_modes sg (collapse_signs_from sg s) = signed_modes sg s"
  by (induction sg s rule: collapse_signs_from.induct) (auto simp: Let_def)

text \<open>No sign follows the same sign without the other in between.\<close>

fun signs_alternate :: "char \<Rightarrow> cstr \<Rightarrow> bool" where
  "signs_alternate sg [] = True"
| "signs_alternate sg (c # s) =
     (if is_sign c then c \<noteq> sg \<and> signs_alternate c s else signs_alternate sg s)"

lemma collapse_signs_from_alternate:
  "sg = NUL \<or> is_sign sg \<Longrightarrow> cstring s \<Longrightarrow> signs_alternate sg (collapse_signs_from sg s)"
  by (induction sg s rule: collapse_signs_from.induct) (auto simp: Let_def)

lemma length_collapse_signs: "length (collapse_signs_from sg s) \<le> length s"
  by (induction sg s rule: collapse_signs_from.induct) (auto simp: Let_def)

lemma set_collapse_signs: "set (collapse_signs_from sg s) \<subseteq> set s"
  by (induction sg s rule: collapse_signs_from.induct) (auto simp: Let_def)

lemma length_make_nuh: "length (make_nick_user_host a b c) \<le> NICKLEN + USERLEN + HOSTLEN + 2"
  by (simp add: make_nick_user_host_def)

lemma make_nuh_parts:
  "\<exists>n u h. make_nick_user_host a b c = n @ ''!'' @ u @ ''@'' @ h \<and>
     length n \<le> NICKLEN \<and> length u \<le> USERLEN \<and> length h \<le> HOSTLEN"
  unfolding make_nick_user_host_def
  by (intro exI [of _ "take NICKLEN a"] exI [of _ "take USERLEN b"] exI [of _ "take HOSTLEN c"]) simp

lemma pretty_mask_nuh: "\<exists>a b c. pretty_mask m = make_nick_user_host a b c"
  by (auto simp: pretty_mask_def Let_def split: prod.split option.split)

lemma pretty_mask_parts:
  "\<exists>n u h. pretty_mask m = n @ ''!'' @ u @ ''@'' @ h \<and>
     length n \<le> NICKLEN \<and> length u \<le> USERLEN \<and> length h \<le> HOSTLEN"
  using pretty_mask_nuh [of m] make_nuh_parts by metis

lemma unlink_find_mset: "find P xs = Some a \<Longrightarrow> add_mset a (mset (unlink_first P xs)) = mset xs"
  by (induction xs) (auto split: if_splits)

lemma burst_order_mset: "mset (burst_order ms) = mset ms"
  by (simp add: burst_order_def unlink_find_mset split: option.split)

end
