(* ===== verification/SetMode.thy ===== *)
theory SetMode
  imports ModeStr
begin

text \<open>
  \<open>set_channel_mode\<close> of \<open>src/channel.c\<close>: one pass over the mode letters with their
  parameters.  The local variables are the record \<open>smode\<close>; the buffers \<open>modebuf\<close>,
  \<open>parabuf\<close> (and \<open>_new\<close> for +e, \<open>_new2\<close> for +I) are the text written to them so far, without the
  bound of their arrays.  \<open>parc\<close> and \<open>parv\<close> are the list of the parameters not yet read: the
  code decrements \<open>parc\<close> below 0 once they are used up, after which it reads none.
  Each \<open>case\<close> of the switch is a function; a \<open>break\<close> is returning the state.
\<close>

section \<open>State\<close>

record smenv =
  e_cptr :: cid
  e_sptr :: cid
  e_chan :: chid
  e_isok :: bool
  e_isdeop :: bool

record smode =
  sm_w :: world
  sm_args :: "cstr list"
  sm_whatt :: flags
  sm_plus :: char
  sm_errs :: flags
  sm_opcnt :: nat
  sm_len :: nat
  sm_keychange :: bool
  sm_limitset :: bool
  sm_done :: "char \<Rightarrow> bool"
  sm_mbuf :: cstr
  sm_pbuf :: cstr
  sm_mbuf_new :: cstr
  sm_pbuf_new :: cstr
  sm_mbuf_new2 :: cstr
  sm_pbuf_new2 :: cstr

definition SM_ERR_NOOPS :: flags where "SM_ERR_NOOPS = 0x02"
definition SM_ERR_UNKNOWN :: flags where "SM_ERR_UNKNOWN = 0x04"
definition SM_ERR_RPL_B :: flags where "SM_ERR_RPL_B = 0x10"
definition SM_ERR_RPL_E :: flags where "SM_ERR_RPL_E = 0x20"
definition SM_ERR_NOTONCHANNEL :: flags where "SM_ERR_NOTONCHANNEL = 0x40"
definition SM_ERR_RPL_I :: flags where "SM_ERR_RPL_I = 0x100"


abbreviation upd_w :: "(world \<Rightarrow> world) \<Rightarrow> smode \<Rightarrow> smode" where
  "upd_w f st \<equiv> st\<lparr>sm_w := f (sm_w st)\<rparr>"

definition mine :: "smenv \<Rightarrow> smode \<Rightarrow> bool" where
  "mine e st = MyClient (cl (sm_w st) (e_sptr e))"

definition my_name :: "smode \<Rightarrow> arg" where
  "my_name st = Str (name (cl (sm_w st) (me (sm_w st))))"

definition src_name :: "smenv \<Rightarrow> smode \<Rightarrow> arg" where
  "src_name e st = Str (name (cl (sm_w st) (e_sptr e)))"

definition chan_name :: "smenv \<Rightarrow> smode \<Rightarrow> arg" where
  "chan_name e st = Str (chname (ch (sm_w st) (e_chan e)))"

text \<open>\<open>errsent\<close>: whether the error was already sent, and the updated set.\<close>

definition errsent :: "flags \<Rightarrow> flags \<Rightarrow> bool \<times> flags" where
  "errsent err errs = (if err AND errs \<noteq> 0 then (True, errs) else (False, errs OR err))"

text \<open>\<open>if (MyClient(sptr) && !errsent(err, &errors_sent)) sendto_one(...)\<close>.\<close>

definition err_once :: "smenv \<Rightarrow> flags \<Rightarrow> nat \<Rightarrow> smode \<Rightarrow> smode" where
  "err_once e err num st =
     (if \<not> mine e st then st
      else case errsent err (sm_errs st) of
        (True, _) \<Rightarrow> st
      | (False, errs) \<Rightarrow>
          upd_w (sendto_one (e_sptr e) (form_str num) [my_name st, src_name e st, chan_name e st])
            (st\<lparr>sm_errs := errs\<rparr>))"

text \<open>\<open>if (!errsent(SM_ERR_NOOPS, &errors_sent) && MyClient(sptr)) sendto_one(...)\<close>: marked for any source.\<close>

definition noops_marked :: "smenv \<Rightarrow> smode \<Rightarrow> smode" where
  "noops_marked e st =
     (case errsent SM_ERR_NOOPS (sm_errs st) of
        (True, _) \<Rightarrow> st
      | (False, errs) \<Rightarrow>
          (let st1 = st\<lparr>sm_errs := errs\<rparr> in
           if mine e st1
           then upd_w (sendto_one (e_sptr e) (form_str ERR_CHANOPRIVSNEEDED)
                  [my_name st, src_name e st, chan_name e st]) st1
           else st1))"

definition eat :: "smode \<Rightarrow> smode" where
  "eat st = st\<lparr>sm_args := tl (sm_args st)\<rparr>"

definition push_mode :: "cstr \<Rightarrow> cstr \<Rightarrow> nat \<Rightarrow> smode \<Rightarrow> smode" where
  "push_mode m p n st = st\<lparr>sm_mbuf := sm_mbuf st @ m, sm_pbuf := sm_pbuf st @ p, sm_len := sm_len st + n\<rparr>"

section \<open>\<open>case 'o'\<close>, \<open>case 'v'\<close>\<close>

text \<open>The target is known and on the channel.\<close>

definition mode_ov_apply :: "smenv \<Rightarrow> char \<Rightarrow> cstr \<Rightarrow> cid \<Rightarrow> smode \<Rightarrow> smode" where
  "mode_ov_apply e c arg who st0 =
     (let the_mode = (if c = CHR ''o'' then MODE_CHANOP else MODE_VOICE);
          st = (if e_isdeop e \<and> c = CHR ''o'' \<and> sm_whatt st0 = MODE_ADD
                then upd_w (set_deopped who (e_chan e) the_mode) st0 else st0)
      in if \<not> e_isok e then err_once e SM_ERR_NOOPS ERR_CHANOPRIVSNEEDED st
         else if sm_len st + length arg + 2 \<ge> MODEBUFLEN then st
         else upd_w (change_chan_flag (e_chan e) who (the_mode OR sm_whatt st))
                ((push_mode [sm_plus st, c] (name (cl (sm_w st) who) @ '' '') (length arg + 1) st)
                   \<lparr>sm_opcnt := sm_opcnt st + 1\<rparr>))"

definition mode_ov :: "smenv \<Rightarrow> char \<Rightarrow> smode \<Rightarrow> smode" where
  "mode_ov e c st =
     (if mine e st \<and> \<not> IsMember (sm_w st) (e_sptr e) (e_chan e)
      then eat (err_once e SM_ERR_NOTONCHANNEL ERR_NOTONCHANNEL st)
      else if sm_whatt st = MODE_QUERY then st
      else case sm_args st of
        [] \<Rightarrow> st
      | a # rest \<Rightarrow>
          let arg = check_string (Some a); st1 = st\<lparr>sm_args := rest\<rparr> in
          if mine e st1 \<and> sm_opcnt st1 \<ge> MAXMODEPARAMS then st1
          else case find_chasing (e_sptr e) arg (sm_w st1) of
            (None, _, w1) \<Rightarrow> st1\<lparr>sm_w := w1\<rparr>
          | (Some who, _, w1) \<Rightarrow>
              let st2 = st1\<lparr>sm_w := w1\<rparr> in
              if user (cl w1 who) = None then st2
              else if \<not> IsMember w1 who (e_chan e) then
                (if mine e st2
                 then upd_w (sendto_one (e_sptr e) (form_str ERR_USERNOTINCHANNEL)
                        [my_name st2, src_name e st2, Str arg, chan_name e st2]) st2
                 else st2)
              else if who = e_sptr e \<and> c = CHR ''o'' \<and> sm_whatt st2 = MODE_ADD then st2
              else if IsServer (cl w1 (e_sptr e)) \<and> sm_whatt st2 = MODE_ADD then
                upd_w (ts_warn (Fmt ''MODE +%c on %s for %s from server %s (ignored)'')
                  [Chr c, chan_name e st2, Str (name (cl w1 who)), src_name e st2]) st2
              else mode_ov_apply e c arg who st2)"

section \<open>\<open>case 'k'\<close>\<close>

text \<open>The key and the parameters left; \<open>None\<close> is the \<open>break\<close> of a +k without one.\<close>

definition mode_k_arg :: "smenv \<Rightarrow> smode \<Rightarrow> (cstr \<times> cstr list) option" where
  "mode_k_arg e st =
     (case sm_args st of
        [] \<Rightarrow> if sm_whatt st = MODE_DEL then Some (''*'', []) else None
      | a # rest \<Rightarrow>
          Some (if sm_whatt st = MODE_DEL then check_string (Some a)
                else if mine e st then fix_key (check_string (Some a))
                else fix_key_old (check_string (Some a)), rest))"

definition set_key :: "chid \<Rightarrow> cstr \<Rightarrow> world \<Rightarrow> world" where
  "set_key x ky w = upd_ch x (\<lambda>k. k\<lparr>mode := (mode k)\<lparr>key := ky\<rparr>\<rparr>) w"

definition mode_k_apply :: "smenv \<Rightarrow> cstr \<Rightarrow> smode \<Rightarrow> smode" where
  "mode_k_apply e arg0 st =
     (let tmp = min (length arg0) KEYLEN; arg = take KEYLEN arg0;
          x = e_chan e; old = key (mode (ch (sm_w st) x))
      in if sm_len st + tmp + 2 \<ge> MODEBUFLEN then st
         else if sm_whatt st = MODE_ADD then
           (if old \<noteq> [] \<and> old = arg then st
            else
              let a3 = [src_name e st, chan_name e st, Str old];
                  st1 = (if old \<noteq> []
                         then upd_w (\<lambda>w. sendto_match_servs (Some x) (e_cptr e) (Fmt '':%s MODE %s -k %s'') a3
                                (sendto_channel_butserv x (e_sptr e) (Fmt '':%s MODE %s -k %s'') a3 w)) st
                         else st)
              in upd_w (set_key x (take KEYLEN arg)) (push_mode [sm_plus st, CHR ''k''] (arg @ '' '') (tmp + 1) st1))
         else
           let del = (if arg = ''*'' then Some old else if arg \<noteq> old then None else Some arg) in
           case del of
             None \<Rightarrow> st
           | Some a \<Rightarrow> upd_w (if sm_whatt st = MODE_DEL then set_key x [] else set_key x (take KEYLEN a))
                         (push_mode [sm_plus st, CHR ''k''] (a @ '' '') (tmp + 1) st))"

definition mode_k :: "smenv \<Rightarrow> smode \<Rightarrow> smode" where
  "mode_k e st =
     (if sm_whatt st = MODE_QUERY then st
      else case mode_k_arg e st of
        None \<Rightarrow> st
      | Some (arg, rest) \<Rightarrow>
          let st1 = st\<lparr>sm_args := rest\<rparr> in
          if sm_keychange st1 then st1
          else let st2 = st1\<lparr>sm_keychange := True\<rparr> in
            if arg = [] then st2
            else if \<not> e_isok e then noops_marked e st2
            else mode_k_apply e arg st2)"

section \<open>\<open>case 'e'\<close>, \<open>case 'I'\<close>, \<open>case 'b'\<close>\<close>

definition send_ban_list :: "smenv \<Rightarrow> nat \<Rightarrow> nat \<Rightarrow> listtype \<Rightarrow> smode \<Rightarrow> smode" where
  "send_ban_list e rpl rplend ty st =
     upd_w (\<lambda>w. sendto_one (e_sptr e) (form_str rplend) [my_name st, src_name e st, chan_name e st]
       (log_out (map (\<lambda>b. One (e_cptr e) (form_str rpl)
          [my_name st, Str (name (cl w (e_cptr e))), chan_name e st, Str (banstr b), Str (banwho b), Num (banwhen b)])
          (get_list ty (ch w (e_chan e)))) w)) st"

text \<open>\<open>add_id\<close> or \<open>del_id\<close> by the sign: whether it returned 0, and the state.\<close>

definition change_id :: "smenv \<Rightarrow> cstr \<Rightarrow> listtype \<Rightarrow> smode \<Rightarrow> bool \<times> smode" where
  "change_id e arg ty st =
     (if has_flag (sm_whatt st) MODE_ADD then
        let (r, w1) = add_id (e_sptr e) (e_chan e) arg ty (sm_w st) in (r = 0, st\<lparr>sm_w := w1\<rparr>)
      else if has_flag (sm_whatt st) MODE_DEL then
        let (r, w1) = del_id (e_chan e) arg ty (sm_w st) in (r = 0, st\<lparr>sm_w := w1\<rparr>)
      else (False, st))"

text \<open>The common body of +e and +I; they differ in their list, replies and buffers.\<close>

definition mode_exlist :: "smenv \<Rightarrow> flags \<Rightarrow> nat \<Rightarrow> nat \<Rightarrow> listtype \<Rightarrow> (cstr \<Rightarrow> smode \<Rightarrow> smode) \<Rightarrow> smode \<Rightarrow> smode" where
  "mode_exlist e err rpl rplend ty push st =
     (if sm_whatt st = MODE_QUERY \<or> sm_args st = [] then
        (if \<not> mine e st then st
         else case errsent err (sm_errs st) of
           (True, _) \<Rightarrow> st
         | (False, errs) \<Rightarrow>
             let st1 = st\<lparr>sm_errs := errs\<rparr> in
             if e_isok e then send_ban_list e rpl rplend ty st1
             else upd_w (sendto_one (e_sptr e) (form_str ERR_CHANOPRIVSNEEDED)
                    [my_name st1, src_name e st1, chan_name e st1]) st1)
      else
        let st1 = eat st; arg0 = check_string (Some (hd (sm_args st))) in
        if mine e st1 \<and> sm_opcnt st1 \<ge> MAXMODEPARAMS then st1
        else if \<not> e_isok e then noops_marked e st1
        else
          let arg = (if mine e st1 then collapse (pretty_mask arg0) else arg0) in
          if at arg 0 = CHR '':'' then eat st1
          else if sm_len st1 + length arg + 2 \<ge> MODEBUFLEN then st1
          else case change_id e arg ty st1 of
            (False, st2) \<Rightarrow> st2
          | (True, st2) \<Rightarrow> push arg (st2\<lparr>sm_len := sm_len st2 + length arg + 1, sm_opcnt := sm_opcnt st2 + 1\<rparr>))"

definition mode_e :: "smenv \<Rightarrow> smode \<Rightarrow> smode" where
  "mode_e e = mode_exlist e SM_ERR_RPL_E RPL_EXCEPTLIST RPL_ENDOFEXCEPTLIST CHFL_EXCEPTION_LIST
     (\<lambda>arg st. st\<lparr>sm_mbuf_new := sm_mbuf_new st @ [sm_plus st, CHR ''e''],
                  sm_pbuf_new := sm_pbuf_new st @ arg @ '' ''\<rparr>)"

definition mode_I :: "smenv \<Rightarrow> smode \<Rightarrow> smode" where
  "mode_I e = mode_exlist e SM_ERR_RPL_I RPL_INVEXLIST RPL_ENDOFINVEXLIST CHFL_INVEX_LIST
     (\<lambda>arg st. st\<lparr>sm_mbuf_new2 := sm_mbuf_new2 st @ [sm_plus st, CHR ''I''],
                  sm_pbuf_new2 := sm_pbuf_new2 st @ arg @ '' ''\<rparr>)"

definition mode_b :: "smenv \<Rightarrow> smode \<Rightarrow> smode" where
  "mode_b e st =
     (if sm_whatt st = MODE_QUERY \<or> sm_args st = [] then
        (if \<not> mine e st then st
         else case errsent SM_ERR_RPL_B (sm_errs st) of
           (True, _) \<Rightarrow> st
         | (False, errs) \<Rightarrow> send_ban_list e RPL_BANLIST RPL_ENDOFBANLIST CHFL_BAN_LIST (st\<lparr>sm_errs := errs\<rparr>))
      else
        let st1 = eat st; arg0 = check_string (Some (hd (sm_args st))) in
        if mine e st1 \<and> sm_opcnt st1 \<ge> MAXMODEPARAMS then st1
        else if \<not> e_isok e then noops_marked e st1
        else if mine e st1 \<and> at arg0 0 = CHR '':'' \<and> has_flag (sm_whatt st1) MODE_ADD then eat st1
        else
          let arg = (if mine e st1 then collapse (pretty_mask arg0) else arg0) in
          if sm_len st1 + length arg + 2 \<ge> MODEBUFLEN then st1
          else case change_id e arg CHFL_BAN_LIST st1 of
            (False, st2) \<Rightarrow> st2
          | (True, st2) \<Rightarrow>
              (push_mode [sm_plus st2, CHR ''b''] (arg @ '' '') (length arg + 1) st2)\<lparr>sm_opcnt := sm_opcnt st2 + 1\<rparr>)"

section \<open>\<open>case 'l'\<close>\<close>

definition set_limit :: "chid \<Rightarrow> int \<Rightarrow> world \<Rightarrow> world" where
  "set_limit x n w =
     upd_ch x (\<lambda>k. k\<lparr>mode := (mode k)\<lparr>limit := n,
        modes := (if n \<noteq> 0 then modes (mode k) OR MODE_LIMIT else modes (mode k) AND NOT MODE_LIMIT)\<rparr>\<rparr>) w"

definition mode_l :: "smenv \<Rightarrow> smode \<Rightarrow> smode" where
  "mode_l e st =
     (if sm_whatt st = MODE_QUERY then st
      else if \<not> e_isok e \<or> sm_limitset st then (if sm_whatt st = MODE_ADD then eat st else st)
      else
        let st1 = st\<lparr>sm_limitset := True\<rparr> in
        if sm_whatt st1 = MODE_ADD then
          (case sm_args st1 of
             [] \<Rightarrow> if mine e st1
                   then upd_w (sendto_one (e_sptr e) (form_str ERR_NEEDMOREPARAMS)
                          [my_name st1, src_name e st1, Str ''MODE +l'']) st1
                   else st1
           | a # rest \<Rightarrow>
               let st2 = st1\<lparr>sm_args := rest\<rparr>; nusers = atoi (check_string (Some a)) in
               if nusers \<le> 0 then st2
               else let arg = dec_int nusers in
                 if sm_len st2 + length arg + 2 \<ge> MODEBUFLEN then st2
                 else push_mode ''+l'' (arg @ '' '') (length arg + 1) (upd_w (set_limit (e_chan e) nusers) st2))
        else upd_w (set_limit (e_chan e) 0) (push_mode ''-l'' [] 0 st1))"

section \<open>The modes without parameter\<close>

definition set_flag :: "chid \<Rightarrow> bool \<Rightarrow> flags \<Rightarrow> world \<Rightarrow> world" where
  "set_flag x on fl w =
     upd_ch x (\<lambda>k. k\<lparr>mode := (mode k)\<lparr>modes :=
       (if on then modes (mode k) OR fl else modes (mode k) AND NOT fl)\<rparr>\<rparr>) w"

text \<open>
  The bodies of \<open>m\<close>, \<open>n\<close>, \<open>p\<close>, \<open>s\<close> and \<open>t\<close> are the same up to the letter and the bit; \<open>i\<close> also
  forgets the invitations when it is cleared and tests for a query first.  In a query
  \<open>m\<close> to \<open>t\<close> take the branch that clears.
\<close>

definition mode_flag_with :: "smenv \<Rightarrow> char \<Rightarrow> flags \<Rightarrow> (world \<Rightarrow> world) \<Rightarrow> smode \<Rightarrow> smode" where
  "mode_flag_with e c fl on_clear st =
     (if \<not> e_isok e then err_once e SM_ERR_NOOPS ERR_CHANOPRIVSNEEDED st
      else if mine e st \<and> sm_done st c then st
      else
        let st1 = (if mine e st then st\<lparr>sm_done := (sm_done st)(c := True)\<rparr> else st) in
        if sm_len st1 + 2 \<ge> MODEBUFLEN then st1
        else if sm_whatt st1 = MODE_ADD
        then push_mode [CHR ''+'', c] [] 2 (upd_w (set_flag (e_chan e) True fl) st1)
        else push_mode [CHR ''-'', c] [] 2 (upd_w (set_flag (e_chan e) False fl) (upd_w on_clear st1)))"

definition mode_i :: "smenv \<Rightarrow> smode \<Rightarrow> smode" where
  "mode_i e st =
     (if sm_whatt st = MODE_QUERY then st
      else mode_flag_with e CHR ''i'' MODE_INVITEONLY (del_all_invites (e_chan e)) st)"

definition mode_m :: "smenv \<Rightarrow> smode \<Rightarrow> smode" where
  "mode_m e = mode_flag_with e CHR ''m'' MODE_MODERATED id"

definition mode_n :: "smenv \<Rightarrow> smode \<Rightarrow> smode" where
  "mode_n e = mode_flag_with e CHR ''n'' MODE_NOPRIVMSGS id"

definition mode_p :: "smenv \<Rightarrow> smode \<Rightarrow> smode" where
  "mode_p e = mode_flag_with e CHR ''p'' MODE_PRIVATE id"

definition mode_s :: "smenv \<Rightarrow> smode \<Rightarrow> smode" where
  "mode_s e = mode_flag_with e CHR ''s'' MODE_SECRET id"

definition mode_t :: "smenv \<Rightarrow> smode \<Rightarrow> smode" where
  "mode_t e = mode_flag_with e CHR ''t'' MODE_TOPICLIMIT id"

text \<open>
  \<open>case 'j'\<close>, the local jupe.  Clearing it on a channel without users frees the block, which
  the rest of the pass goes on using.
\<close>

definition mode_j :: "smenv \<Rightarrow> smode \<Rightarrow> smode" where
  "mode_j e st =
     (let w = sm_w st; s = cl w (e_sptr e); x = e_chan e;
          args = [Str (name s), Str (username s), Str (host s), chan_name e st]
      in if MyConnect s \<and> IsAnOper s then
           if sm_whatt st = MODE_ADD then
             upd_w (\<lambda>w. sendto_realops (Fmt ''%s!%s@%s locally juping channel %s'') args
               (upd_ch x (\<lambda>k. k\<lparr>juped := True\<rparr>) w)) st
           else if sm_whatt st = MODE_DEL then
             upd_w (\<lambda>w. let w1 = sendto_realops (Fmt ''%s!%s@%s locally unjuping channel %s'') args
                                    (upd_ch x (\<lambda>k. k\<lparr>juped := False\<rparr>) w)
                         in if users (ch w1 x) = 0 then sub1_from_channel x w1 else w1) st
           else st
         else st)"

definition mode_default :: "smenv \<Rightarrow> char \<Rightarrow> smode \<Rightarrow> smode" where
  "mode_default e c st =
     (if sm_whatt st = MODE_QUERY \<or> \<not> mine e st then st
      else case errsent SM_ERR_UNKNOWN (sm_errs st) of
        (True, _) \<Rightarrow> st
      | (False, errs) \<Rightarrow>
          upd_w (sendto_one (e_sptr e) (form_str ERR_UNKNOWNMODE) [my_name st, src_name e st, Chr c])
            (st\<lparr>sm_errs := errs\<rparr>))"

section \<open>The pass\<close>

definition mode_char :: "smenv \<Rightarrow> char \<Rightarrow> smode \<Rightarrow> smode" where
  "mode_char e c st =
     (if c = CHR ''+'' then st\<lparr>sm_whatt := MODE_ADD, sm_plus := CHR ''+''\<rparr>
      else if c = CHR ''-'' then st\<lparr>sm_whatt := MODE_DEL, sm_plus := CHR ''-''\<rparr>
      else if c = CHR ''='' then st\<lparr>sm_whatt := MODE_QUERY, sm_plus := CHR ''=''\<rparr>
      else if c = CHR ''o'' \<or> c = CHR ''v'' then mode_ov e c st
      else if c = CHR ''k'' then mode_k e st
      else if c = CHR ''e'' then mode_e e st
      else if c = CHR ''I'' then mode_I e st
      else if c = CHR ''b'' then mode_b e st
      else if c = CHR ''l'' then mode_l e st
      else if c = CHR ''i'' then mode_i e st
      else if c = CHR ''j'' then mode_j e st
      else if c = CHR ''m'' then mode_m e st
      else if c = CHR ''n'' then mode_n e st
      else if c = CHR ''p'' then mode_p e st
      else if c = CHR ''s'' then mode_s e st
      else if c = CHR ''t'' then mode_t e st
      else mode_default e c st)"

text \<open>Every case leaves the parameters as they are or drops some in front.\<close>

definition args_drop :: "smode \<Rightarrow> smode \<Rightarrow> bool" where
  "args_drop st st' \<longleftrightarrow> (\<exists>n. sm_args st' = drop n (sm_args st))"

lemma args_drop_refl: "sm_args st' = sm_args st \<Longrightarrow> args_drop st st'"
  unfolding args_drop_def by (rule exI [of _ 0]) simp

lemma args_drop_trans: "args_drop st st' \<Longrightarrow> args_drop st' st'' \<Longrightarrow> args_drop st st''"
  unfolding args_drop_def by (auto simp: drop_drop)

lemma args_err_once [simp]: "sm_args (err_once e er n st) = sm_args st"
  by (simp add: err_once_def split: prod.split bool.split)

lemma args_noops [simp]: "sm_args (noops_marked e st) = sm_args st"
  by (simp add: noops_marked_def Let_def split: prod.split bool.split)

lemma args_push [simp]: "sm_args (push_mode m p n st) = sm_args st"
  by (simp add: push_mode_def)

lemma args_eat [simp]: "sm_args (eat st) = tl (sm_args st)"
  by (simp add: eat_def)

lemma args_drop_eat: "sm_args st' = tl (sm_args st) \<Longrightarrow> args_drop st st'"
  unfolding args_drop_def by (rule exI [of _ 1]) (simp add: drop_Suc)

lemma args_drop_Cons: "sm_args st = a # r \<Longrightarrow> sm_args st' = r \<Longrightarrow> args_drop st st'"
  by (rule args_drop_eat) simp

lemma args_change_id: "change_id e arg ty st = (b, st') \<Longrightarrow> sm_args st' = sm_args st"
  by (auto simp: change_id_def split: if_splits prod.splits)

lemma args_ov_apply [simp]: "sm_args (mode_ov_apply e c arg who st) = sm_args st"
  by (simp add: mode_ov_apply_def Let_def)

lemma args_mode_ov: "args_drop st (mode_ov e c st)"
proof (cases "mine e st \<and> \<not> IsMember (sm_w st) (e_sptr e) (e_chan e) \<or> sm_whatt st = MODE_QUERY")
  case True
  then show ?thesis
    by (cases "mine e st \<and> \<not> IsMember (sm_w st) (e_sptr e) (e_chan e)")
      (auto simp: mode_ov_def intro: args_drop_eat args_drop_refl)
next
  case False
  show ?thesis
  proof (cases "sm_args st")
    case Nil
    then show ?thesis using False by (auto simp: mode_ov_def intro: args_drop_refl)
  next
    case (Cons a rest)
    have "sm_args (mode_ov e c st) = rest"
      using False Cons by (simp add: mode_ov_def Let_def split: prod.split option.split)
    then show ?thesis by (rule args_drop_Cons [OF Cons])
  qed
qed

lemma args_k_apply [simp]: "sm_args (mode_k_apply e arg st) = sm_args st"
  by (simp add: mode_k_apply_def Let_def split: option.split)

lemma args_mode_k: "args_drop st (mode_k e st)"
proof (cases "sm_whatt st = MODE_QUERY \<or> mode_k_arg e st = None")
  case True
  then show ?thesis by (auto simp: mode_k_def intro: args_drop_refl)
next
  case False
  then obtain arg rest where k: "mode_k_arg e st = Some (arg, rest)" by auto
  then have "rest = tl (sm_args st)" by (auto simp: mode_k_arg_def split: list.splits if_splits)
  moreover have "sm_args (mode_k e st) = rest" using False k by (simp add: mode_k_def Let_def)
  ultimately show ?thesis by (simp add: args_drop_eat)
qed

lemma args_exlist:
  assumes "\<And>arg s. sm_args (push arg s) = sm_args s"
  shows "args_drop st (mode_exlist e err r1 r2 ty push st)"
proof (cases "sm_whatt st = MODE_QUERY \<or> sm_args st = []")
  case True
  then have "sm_args (mode_exlist e err r1 r2 ty push st) = sm_args st"
    by (simp add: mode_exlist_def send_ban_list_def Let_def split: prod.split bool.split)
  then show ?thesis by (rule args_drop_refl)
next
  case False
  have "sm_args (mode_exlist e err r1 r2 ty push st) \<in> {tl (sm_args st), tl (tl (sm_args st))}"
    using False assms
    by (auto simp: mode_exlist_def Let_def dest: args_change_id split: prod.splits bool.splits)
  then show ?thesis
    by (auto intro: args_drop_eat simp: args_drop_def drop_Suc)
      (metis drop_0 drop_Suc)+
qed

lemma args_mode_b: "args_drop st (mode_b e st)"
proof (cases "sm_whatt st = MODE_QUERY \<or> sm_args st = []")
  case True
  then have "sm_args (mode_b e st) = sm_args st"
    by (simp add: mode_b_def send_ban_list_def Let_def split: prod.split bool.split)
  then show ?thesis by (rule args_drop_refl)
next
  case False
  have "sm_args (mode_b e st) \<in> {tl (sm_args st), tl (tl (sm_args st))}"
    using False
    by (auto simp: mode_b_def Let_def dest: args_change_id split: prod.splits bool.splits)
  then show ?thesis
    by (auto intro: args_drop_eat simp: args_drop_def drop_Suc)
      (metis drop_0 drop_Suc)+
qed

lemma args_mode_l: "args_drop st (mode_l e st)"
proof -
  have "sm_args (mode_l e st) = sm_args st \<or> sm_args (mode_l e st) = tl (sm_args st)"
    by (auto simp: mode_l_def Let_def split: list.splits)
  then show ?thesis by (auto intro: args_drop_eat args_drop_refl)
qed

lemma args_flag_with [simp]: "sm_args (mode_flag_with e c fl f st) = sm_args st"
  by (simp add: mode_flag_with_def Let_def)

lemma args_mode_j [simp]: "sm_args (mode_j e st) = sm_args st"
  by (simp add: mode_j_def Let_def)

lemma args_mode_default [simp]: "sm_args (mode_default e c st) = sm_args st"
  by (simp add: mode_default_def split: prod.split bool.split)

lemma args_mode_flags [simp]:
  "sm_args (mode_i e st) = sm_args st"
  "sm_args (mode_m e st) = sm_args st"
  "sm_args (mode_n e st) = sm_args st"
  "sm_args (mode_p e st) = sm_args st"
  "sm_args (mode_s e st) = sm_args st"
  "sm_args (mode_t e st) = sm_args st"
  by (simp_all add: mode_i_def mode_m_def mode_n_def mode_p_def mode_s_def mode_t_def)

lemma args_mode_e: "args_drop st (mode_e e st)"
  unfolding mode_e_def by (rule args_exlist) simp

lemma args_mode_I: "args_drop st (mode_I e st)"
  unfolding mode_I_def by (rule args_exlist) simp

text \<open>One rule for every property that each case has: the pass has it then.\<close>

lemma if_pred: "(b \<Longrightarrow> P x) \<Longrightarrow> (\<not> b \<Longrightarrow> P y) \<Longrightarrow> P (if b then x else y)"
  by simp

lemma mode_char_cases:
  assumes "P (st\<lparr>sm_whatt := MODE_ADD, sm_plus := CHR ''+''\<rparr>)"
    and "P (st\<lparr>sm_whatt := MODE_DEL, sm_plus := CHR ''-''\<rparr>)"
    and "P (st\<lparr>sm_whatt := MODE_QUERY, sm_plus := CHR ''=''\<rparr>)"
    and "c = CHR ''o'' \<or> c = CHR ''v'' \<Longrightarrow> P (mode_ov e c st)"
    and "P (mode_k e st)" and "P (mode_e e st)" and "P (mode_I e st)" and "P (mode_b e st)"
    and "P (mode_l e st)" and "P (mode_i e st)" and "P (mode_j e st)" and "P (mode_m e st)"
    and "P (mode_n e st)" and "P (mode_p e st)" and "P (mode_s e st)" and "P (mode_t e st)"
    and "P (mode_default e c st)"
  shows "P (mode_char e c st)"
  unfolding mode_char_def by (intro if_pred [where P = P] assms) assumption

lemma args_mode_char: "args_drop st (mode_char e c st)"
  by (rule mode_char_cases)
    (simp_all add: args_mode_ov args_mode_k args_mode_e args_mode_I args_mode_b args_mode_l args_drop_refl)

definition args_size :: "cstr list \<Rightarrow> nat" where
  "args_size as = sum_list (map (\<lambda>a. Suc (length a)) as)"

lemma args_size_drop: "args_size (drop n as) \<le> args_size as"
proof -
  have "args_size as = args_size (take n as) + args_size (drop n as)"
    unfolding args_size_def by (metis append_take_drop_id map_append sum_list_append)
  then show ?thesis by simp
qed

lemma args_size_mode_char: "args_size (sm_args (mode_char e c st)) \<le> args_size (sm_args st)"
  using args_mode_char [of st e c] args_size_drop by (auto simp: args_drop_def)

text \<open>The \<open>for (;;)\<close>: the letters of \<open>curr\<close>, then the next parameter as mode letters.\<close>

function mode_loop :: "smenv \<Rightarrow> cstr \<Rightarrow> smode \<Rightarrow> smode" where
  "mode_loop e [] st =
     (case sm_args st of [] \<Rightarrow> st | a # rest \<Rightarrow> mode_loop e a (st\<lparr>sm_args := rest\<rparr>))"
| "mode_loop e (c # cs) st = mode_loop e cs (mode_char e c st)"
  by pat_completeness auto
termination
  by (relation "measure (\<lambda>(e, cs, st). length cs + args_size (sm_args st))")
    (auto simp: args_size_def [of "_ # _"] args_size_def [symmetric] args_size_mode_char le_imp_less_Suc
       simp del: sum_list.Cons, simp_all add: args_size_def)

definition smode_init :: "cstr list \<Rightarrow> world \<Rightarrow> smode" where
  "smode_init args w =
     \<lparr>sm_w = w, sm_args = args, sm_whatt = MODE_ADD, sm_plus = CHR ''+'', sm_errs = 0, sm_opcnt = 0,
      sm_len = 0, sm_keychange = False, sm_limitset = False, sm_done = \<lambda>_. False, sm_mbuf = [],
      sm_pbuf = [], sm_mbuf_new = [], sm_pbuf_new = [], sm_mbuf_new2 = [], sm_pbuf_new2 = []\<rparr>"

definition mode_env :: "cid \<Rightarrow> cid \<Rightarrow> chid \<Rightarrow> world \<Rightarrow> smenv" where
  "mode_env cptr sptr x w =
     (let um = user_channel_mode sptr (ch w x);
          ischop = (IsServer (cl w sptr) \<or> has_flag um CHFL_CHANOP);
          isdeop = (\<not> ischop \<and> \<not> IsServer (cl w sptr) \<and> has_flag um CHFL_DEOPPED)
      in \<lparr>e_cptr = cptr, e_sptr = sptr, e_chan = x,
          e_isok = (ischop \<or> (\<not> isdeop \<and> IsServer (cl w cptr) \<and> channelts (ch w x) \<noteq> 0)),
          e_isdeop = isdeop\<rparr>)"

text \<open>The lines sent at the end, for one pair of buffers.\<close>

definition mode_args :: "smenv \<Rightarrow> cstr \<Rightarrow> cstr \<Rightarrow> world \<Rightarrow> arg list" where
  "mode_args e mb pb w = [Str (name (cl w (e_sptr e))), Str (chname (ch w (e_chan e))), Str mb, Str pb]"

definition send_modes :: "smenv \<Rightarrow> (fmt \<Rightarrow> arg list \<Rightarrow> world \<Rightarrow> world) \<Rightarrow> cstr \<Rightarrow> cstr \<Rightarrow> world \<Rightarrow> world" where
  "send_modes e to_servers mb pb w =
     (let f = Fmt '':%s MODE %s %s %s''; a = mode_args e mb pb w in
      if mb = [] then w else to_servers f a (sendto_channel_butserv (e_chan e) (e_sptr e) f a w))"

definition finish_modes :: "smenv \<Rightarrow> smode \<Rightarrow> world" where
  "finish_modes e st =
     (let x = Some (e_chan e);
          w1 = send_modes e (sendto_match_servs x (e_cptr e)) (collapse_signs (sm_mbuf st)) (sm_pbuf st) (sm_w st);
          w2 = send_modes e (sendto_match_cap_servs x (e_cptr e) CAP_EX)
                 (collapse_signs (sm_mbuf_new st)) (sm_pbuf_new st) w1
      in send_modes e (sendto_match_cap_servs x (e_cptr e) CAP_IE)
           (collapse_signs (sm_mbuf_new2 st)) (sm_pbuf_new2 st) w2)"

definition set_channel_mode :: "cid \<Rightarrow> cid \<Rightarrow> chid \<Rightarrow> cstr list \<Rightarrow> world \<Rightarrow> world" where
  "set_channel_mode cptr sptr x parv w =
     (let e = mode_env cptr sptr x w
      in finish_modes e (mode_loop e (hd parv) (smode_init (tl parv) w)))"

end
