(* ===== verification/ModeInv.thy ===== *)
theory ModeInv
  imports SetMode
begin

text \<open>
  What \<open>set_channel_mode\<close> guarantees.  The locale \<open>mode_pass\<close> states once which operations a
  pass is made of and when each may happen; a property of the world that they keep is kept
  by the whole pass.  It is interpreted for the consistency of the channel data, for the
  channels the command does not name, and for a source without rights.
\<close>

section \<open>The world of a state of the pass\<close>

lemma w_upd [simp]:
  "sm_w (err_once e er n st) = (if mine e st \<and> er AND sm_errs st = 0
     then sendto_one (e_sptr e) (form_str n) [my_name st, src_name e st, chan_name e st] (sm_w st) else sm_w st)"
  "sm_w (noops_marked e st) = (if mine e st \<and> SM_ERR_NOOPS AND sm_errs st = 0
     then sendto_one (e_sptr e) (form_str ERR_CHANOPRIVSNEEDED) [my_name st, src_name e st, chan_name e st] (sm_w st)
     else sm_w st)"
  "sm_w (push_mode m p n st) = sm_w st"
  "sm_w (eat st) = sm_w st"
  by (auto simp: err_once_def noops_marked_def errsent_def push_mode_def eat_def mine_def my_name_def
      src_name_def chan_name_def Let_def)

section \<open>The pass as an interface\<close>

locale mode_pass =
  fixes P :: "smenv \<Rightarrow> world \<Rightarrow> bool"
  assumes log: "P e w \<Longrightarrow> P e (log_out os w)"
    and warn: "P e w \<Longrightarrow> P e (ts_warn f a w)"
    and deop: "P e w \<Longrightarrow> e_isdeop e \<Longrightarrow> P e (set_deopped c (e_chan e) MODE_CHANOP w)"
    and flag: "P e w \<Longrightarrow> e_isok e \<Longrightarrow> P e (change_chan_flag (e_chan e) c fl w)"
    and ident_add: "P e w \<Longrightarrow> e_isok e \<Longrightarrow> P e (snd (add_id (e_sptr e) (e_chan e) m ty w))"
    and ident_del: "P e w \<Longrightarrow> e_isok e \<Longrightarrow> P e (snd (del_id (e_chan e) m ty w))"
    and key: "P e w \<Longrightarrow> e_isok e \<Longrightarrow> length ky \<le> KEYLEN \<Longrightarrow> P e (set_key (e_chan e) ky w)"
    and limit: "P e w \<Longrightarrow> e_isok e \<Longrightarrow> P e (set_limit (e_chan e) n w)"
    and bits: "P e w \<Longrightarrow> e_isok e \<Longrightarrow> P e (set_flag (e_chan e) on fl w)"
    and invs: "P e w \<Longrightarrow> e_isok e \<Longrightarrow> P e (del_all_invites (e_chan e) w)"
    and jupe: "P e w \<Longrightarrow> MyConnect (cl w (e_sptr e)) \<Longrightarrow> IsAnOper (cl w (e_sptr e)) \<Longrightarrow>
                 P e (upd_ch (e_chan e) (\<lambda>k. k\<lparr>juped := b\<rparr>) w)"
    and free: "P e w \<Longrightarrow> MyConnect (cl w (e_sptr e)) \<Longrightarrow> IsAnOper (cl w (e_sptr e)) \<Longrightarrow>
                 users (ch w (e_chan e)) = 0 \<Longrightarrow> P e (sub1_from_channel (e_chan e) w)"
begin

lemma sends:
  assumes "P e w"
  shows "P e (sendto_one to f a w)" "P e (sendto_channel_butserv x c f a w)"
    "P e (sendto_match_servs y c f a w)" "P e (sendto_match_cap_servs y c fl f a w)"
    "P e (sendto_realops f a w)"
  using assms log by (simp_all add: send_defs)

lemma ov_apply: "P e (sm_w st) \<Longrightarrow> P e (sm_w (mode_ov_apply e c arg who st))"
  by (auto simp: mode_ov_apply_def Let_def intro: sends flag deop)

lemma ov: "P e (sm_w st) \<Longrightarrow> P e (sm_w (mode_ov e c st))"
  by (simp add: mode_ov_def find_chasing_def Let_def sends warn ov_apply split: list.split option.split)

lemma k_apply: "P e (sm_w st) \<Longrightarrow> e_isok e \<Longrightarrow> P e (sm_w (mode_k_apply e arg st))"
  by (auto simp: mode_k_apply_def Let_def KEYLEN_def split: option.split intro!: sends key)

lemma k: "P e (sm_w st) \<Longrightarrow> P e (sm_w (mode_k e st))"
  by (auto simp: mode_k_def Let_def split: option.split intro: sends k_apply)

lemma change:
  assumes "P e (sm_w st)" "e_isok e"
  shows "P e (sm_w (snd (change_id e arg ty st)))"
  using ident_add [OF assms, of arg ty] ident_del [OF assms, of arg ty] assms(1)
  by (auto simp: change_id_def split: prod.splits)

lemma ban_list: "P e (sm_w st) \<Longrightarrow> P e (sm_w (send_ban_list e r1 r2 ty st))"
  by (simp add: send_ban_list_def sends log)

lemma exlist:
  assumes "P e (sm_w st)" "\<And>a s. sm_w (push a s) = sm_w s"
  shows "P e (sm_w (mode_exlist e err r1 r2 ty push st))"
proof -
  have "P e (sm_w s2)" if "change_id e a ty (eat st) = (b, s2)" "e_isok e" for a b s2
    using change [of e "eat st" a ty] that assms(1) by simp
  then show ?thesis
    using assms by (simp add: mode_exlist_def errsent_def Let_def sends ban_list split: prod.split bool.split)
qed

lemma b: "P e (sm_w st) \<Longrightarrow> P e (sm_w (mode_b e st))"
proof -
  assume p: "P e (sm_w st)"
  have "P e (sm_w s2)" if "change_id e a CHFL_BAN_LIST (eat st) = (r, s2)" "e_isok e" for a r s2
    using change [of e "eat st" a CHFL_BAN_LIST] that p by simp
  then show ?thesis
    using p by (simp add: mode_b_def errsent_def Let_def sends ban_list split: prod.split bool.split)
qed

lemma l: "P e (sm_w st) \<Longrightarrow> P e (sm_w (mode_l e st))"
  by (auto simp: mode_l_def Let_def split: list.split intro: sends limit)

lemma flag_with:
  assumes "P e (sm_w st)" "\<And>w. P e w \<Longrightarrow> e_isok e \<Longrightarrow> P e (g w)"
  shows "P e (sm_w (mode_flag_with e c fl g st))"
  using assms by (auto simp: mode_flag_with_def Let_def intro: sends bits)

lemma flags:
  assumes "P e (sm_w st)"
  shows "P e (sm_w (mode_i e st))" "P e (sm_w (mode_m e st))" "P e (sm_w (mode_n e st))"
    "P e (sm_w (mode_p e st))" "P e (sm_w (mode_s e st))" "P e (sm_w (mode_t e st))"
  using assms flag_with [OF assms] invs
  by (simp_all add: mode_i_def mode_m_def mode_n_def mode_p_def mode_s_def mode_t_def)

lemma j:
  assumes "P e (sm_w st)"
  shows "P e (sm_w (mode_j e st))"
proof (cases "MyConnect (cl (sm_w st) (e_sptr e)) \<and> IsAnOper (cl (sm_w st) (e_sptr e))")
  case True
  have "P e (sendto_realops f a (upd_ch (e_chan e) (\<lambda>k. k\<lparr>juped := b\<rparr>) (sm_w st)))" for f a b
    using True jupe [OF assms] by (simp add: sends)
  moreover have "clients (sendto_realops f a (upd_ch (e_chan e) (\<lambda>k. k\<lparr>juped := b\<rparr>) (sm_w st))) = clients (sm_w st)" for f a b
    by (simp add: send_defs)
  ultimately show ?thesis using True assms free by (simp add: mode_j_def Let_def)
qed (auto simp: mode_j_def Let_def assms)

lemma default: "P e (sm_w st) \<Longrightarrow> P e (sm_w (mode_default e c st))"
  by (auto simp: mode_default_def errsent_def split: prod.split bool.split intro: sends)

lemma char: "P e (sm_w st) \<Longrightarrow> P e (sm_w (mode_char e c st))"
  by (rule mode_char_cases)
    (simp_all add: ov k b l flags j default, simp_all add: mode_e_def mode_I_def exlist)

lemma loop: "P e (sm_w st) \<Longrightarrow> P e (sm_w (mode_loop e cs st))"
  by (induction e cs st rule: mode_loop.induct) (simp_all add: char split: list.split)

lemma finish: "P e (sm_w st) \<Longrightarrow> P e (finish_modes e st)"
  by (simp add: finish_modes_def send_modes_def Let_def sends)

lemma pass:
  assumes "P (mode_env cptr sptr x w) w"
  shows "P (mode_env cptr sptr x w) (set_channel_mode cptr sptr x parv w)"
  using assms unfolding set_channel_mode_def Let_def
  by (intro finish loop) (simp add: smode_init_def)

end

section \<open>Consistency\<close>

text \<open>A channel that has members stays allocated during the pass.\<close>

definition pass_w :: "chid \<Rightarrow> world \<Rightarrow> bool" where
  "pass_w x w \<longleftrightarrow> chan_inv w \<and> x \<in> set (chan_list w) \<and> members (ch w x) \<noteq> []"

lemma members_empty_users: "chan_inv w \<Longrightarrow> users (ch w x) = 0 \<longleftrightarrow> members (ch w x) = []"
  by (simp add: chan_inv_def count_ok_def)

lemma add_id_frame [simp]:
  "chan_list (snd (add_id c x m ty w)) = chan_list w" "clients (snd (add_id c x m ty w)) = clients w"
  "members (ch (snd (add_id c x m ty w)) y) = members (ch w y)"
  "y \<noteq> x \<Longrightarrow> ch (snd (add_id c x m ty w)) y = ch w y"
  by (simp_all add: add_id_def Let_def send_defs)

lemma del_id_frame [simp]:
  "chan_list (snd (del_id x m ty w)) = chan_list w" "clients (snd (del_id x m ty w)) = clients w"
  "members (ch (snd (del_id x m ty w)) y) = members (ch w y)"
  "y \<noteq> x \<Longrightarrow> ch (snd (del_id x m ty w)) y = ch w y"
  by (simp_all add: del_id_def Let_def)

lemma upd_member_Nil [simp]: "upd_member c f ms = [] \<longleftrightarrow> ms = []"
  by (cases ms) simp_all

lemma small_updates [simp]:
  "chan_list (change_chan_flag x c fl w) = chan_list w" "clients (change_chan_flag x c fl w) = clients w"
  "chan_list (set_deopped c x fl w) = chan_list w" "clients (set_deopped c x fl w) = clients w"
  "chan_list (set_key x ky w) = chan_list w" "clients (set_key x ky w) = clients w"
  "chan_list (set_limit x n w) = chan_list w" "clients (set_limit x n w) = clients w"
  "chan_list (set_flag x on fl w) = chan_list w" "clients (set_flag x on fl w) = clients w"
  "members (ch (set_key x ky w) y) = members (ch w y)"
  "members (ch (set_limit x n w) y) = members (ch w y)"
  "members (ch (set_flag x on fl w) y) = members (ch w y)"
  "members (ch (change_chan_flag x c fl w) y) = [] \<longleftrightarrow> members (ch w y) = []"
  "members (ch (set_deopped c x fl w) y) = [] \<longleftrightarrow> members (ch w y) = []"
  by (simp_all add: change_chan_flag_def set_deopped_def set_key_def set_limit_def set_flag_def)

lemma small_updates_frame [simp]:
  assumes "y \<noteq> x"
  shows "ch (change_chan_flag x c fl w) y = ch w y" "ch (set_deopped c x fl w) y = ch w y"
    "ch (set_key x ky w) y = ch w y" "ch (set_limit x n w) y = ch w y" "ch (set_flag x on fl w) y = ch w y"
  using assms by (simp_all add: change_chan_flag_def set_deopped_def set_key_def set_limit_def set_flag_def)

lemma set_mode_inv [chan_inv_intros]:
  "chan_inv w \<Longrightarrow> chan_inv (set_key x ky w)" "chan_inv w \<Longrightarrow> chan_inv (set_limit x n w)"
  "chan_inv w \<Longrightarrow> chan_inv (set_flag x on fl w)"
  "chan_inv w \<Longrightarrow> chan_inv (upd_ch x (\<lambda>k. k\<lparr>juped := b\<rparr>) w)"
  unfolding set_key_def set_limit_def set_flag_def
  by (rule chan_inv_upd_ch; simp add: bed_count_def)+

interpretation consistent: mode_pass "\<lambda>e. pass_w (e_chan e)"
proof unfold_locales
  show "pass_w (e_chan e) (sub1_from_channel (e_chan e) w)"
    if "pass_w (e_chan e) w" "users (ch w (e_chan e)) = 0" for e w
    using that members_empty_users by (simp add: pass_w_def)
qed (auto simp: pass_w_def chan_inv_intros del_all_invites_fields)

section \<open>Only the named channel\<close>

lemma fold_del_invite_frame: "y \<noteq> x \<Longrightarrow> ch (fold (\<lambda>c. del_invite c x) cs w) y = ch w y"
  by (induction cs arbitrary: w) (simp_all add: del_invite_def)

lemma del_all_invites_frame [simp]: "y \<noteq> x \<Longrightarrow> ch (del_all_invites x w) y = ch w y"
  by (simp add: del_all_invites_def fold_del_invite_frame)

lemma free_fluders_channel_frame [simp]: "y \<noteq> x \<Longrightarrow> ch (free_fluders_channel x w) y = ch w y"
  by (simp add: free_fluders_channel_def)

lemma sub1_frame [simp]: "y \<noteq> x \<Longrightarrow> ch (sub1_from_channel x w) y = ch w y"
  by (simp add: sub1_from_channel_def free_channel_def Let_def)

interpretation frame: mode_pass "\<lambda>e w. \<forall>y. y \<noteq> e_chan e \<longrightarrow> ch w y = k y" for k
  by unfold_locales simp_all

section \<open>A source without rights\<close>

text \<open>What an ordinary user may not change on a channel.\<close>

definition guarded :: "channel \<Rightarrow> chanmode \<times> ban list list \<times> cid list \<times> bool \<times> (cid \<times> flags) list" where
  "guarded k = (mode k, [banlist k, exceptlist k, invexlist k], invites k, juped k,
     map (\<lambda>m. (m_client m, m_flags m AND (CHFL_CHANOP OR CHFL_VOICE))) (members k))"

lemma upd_member_guarded:
  assumes "\<And>fl. f fl AND r = fl AND r"
  shows "map (\<lambda>m. (m_client m, m_flags m AND r)) (upd_member c f ms) = map (\<lambda>m. (m_client m, m_flags m AND r)) ms"
  by (induction ms) (simp_all add: assms)

lemma set_deopped_guarded: "guarded (ch (set_deopped c x fl w) y) = guarded (ch w y)"
proof -
  have "(f OR MODE_DEOPPED) AND (CHFL_CHANOP OR CHFL_VOICE) = f AND (CHFL_CHANOP OR CHFL_VOICE)" for f
    by (simp add: chfl_defs bit.conj_disj_distrib2)
  then show ?thesis by (simp add: guarded_def set_deopped_def upd_member_guarded)
qed

definition no_rights :: "smenv \<Rightarrow> world \<Rightarrow> bool" where
  "no_rights e w = (\<not> e_isok e \<and> \<not> (MyConnect (cl w (e_sptr e)) \<and> IsAnOper (cl w (e_sptr e))))"

interpretation rights: mode_pass "\<lambda>e w. \<not> e_isok e \<and> \<not> (MyConnect (cl w (e_sptr e)) \<and> IsAnOper (cl w (e_sptr e))) \<and>
    (\<forall>y. guarded (ch w y) = v y)" for v
  by unfold_locales (simp_all add: set_deopped_guarded)

end
