(* ===== verification/Demo.thy ===== *)
theory Demo
  imports ModeInv
begin

text \<open>
  A small concrete network for the closed examples: the server (client 0) with the local
  users \<open>alice\<close> (11), \<open>bob\<close> (12) and the local operator \<open>oper\<close> (15), a linked server \<open>hub\<close> (13) and \<open>carol\<close> (14)
  behind it.  On \<open>#test\<close> are \<open>alice\<close>, who has op, and \<open>bob\<close>.
\<close>

definition fresh_user :: user where
  "fresh_user = \<lparr>u_channel = [], u_invited = [], u_joined = 0, u_server = ''irc.example.net'', u_away = None, u_last = 0\<rparr>"

definition local_user :: "nat \<Rightarrow> cstr \<Rightarrow> client" where
  "local_user n nm = zero_client\<lparr>name := nm, username := ''~u'', host := ''host.example.org'', status := STAT_CLIENT,
     local_flag := True, fd := int n, cfrom := n, servptr := 0, tsinfo := 900000000, user := Some fresh_user\<rparr>"

definition demo0 :: world where
  "demo0 = boot\<lparr>clients := (clients boot)
       (11 := local_user 11 ''alice'',
        12 := local_user 12 ''bob'',
        13 := zero_client\<lparr>name := ''hub.example.net'', status := STAT_SERVER, local_flag := True, fd := 13, cfrom := 13,
               hopcount := 1, caps := CAP_EX OR CAP_IE\<rparr>,
        14 := (local_user 14 ''carol'')\<lparr>local_flag := False, fd := -1, cfrom := 13, servptr := 13, hopcount := 1\<rparr>,
        15 := (local_user 15 ''oper'')\<lparr>umodes := FLAGS_OPER OR FLAGS_SERVNOTICE\<rparr>),
     client_tab := fold (\<lambda>(n, c). add_to_client_hash_table n c)
       [(''alice'', 11), (''bob'', 12), (''hub.example.net'', 13), (''carol'', 14), (''oper'', 15)] empty_table,
     serv_list := [13], oper_list := [15], local_list := [15, 12, 11]\<rparr>"

definition demo1 :: world where
  "demo1 = snd (new_channel ''#test'' demo0)"

definition demo :: world where
  "demo = add_user_to_channel 0 12 0 (add_user_to_channel 0 11 CHFL_CHANOP demo1)"

lemma boot_inv: "chan_inv boot"
  by (simp add: chan_inv_def inv_defs boot_def zero_client_def zero_channel_def u_chans_def u_invs_def
      tab_ok_def names_ok_def empty_table_def)

lemma demo0_inv: "chan_inv demo0"
  by (rule chan_inv_cong [OF _ _ _ _ _ _ _ _ _ _ _ _ boot_inv])
    (auto simp: demo0_def boot_def zero_client_def u_chans_def u_invs_def local_user_def fresh_user_def split: if_splits)

lemma local_user_simps [simp]:
  "name (local_user n nm) = nm" "user (local_user n nm) = Some fresh_user" "status (local_user n nm) = STAT_CLIENT"
  "local_flag (local_user n nm) = True" "umodes (local_user n nm) = 0" "u_channel fresh_user = []"
  "u_invited fresh_user = []" "u_joined fresh_user = 0" "username (local_user n nm) = ''~u''"
  "host (local_user n nm) = ''host.example.org''"
  by (simp_all add: local_user_def fresh_user_def zero_client_def)

lemma demo0_cl:
  "cl demo0 11 = local_user 11 ''alice''" "cl demo0 12 = local_user 12 ''bob''"
  "user (cl demo0 11) = Some fresh_user" "user (cl demo0 12) = Some fresh_user"
  by (simp_all add: demo0_def local_user_def)

lemma demo0_chans: "chan_list demo0 = []" "chans demo0 = (\<lambda>_. zero_channel)" "next_chan demo0 = 0"
  "chan_tab demo0 = empty_table"
  by (simp_all add: demo0_def boot_def)

lemma demo1_inv: "chan_inv demo1"
  unfolding demo1_def
  by (rule new_channel_inv [OF demo0_inv])
    (simp_all add: cstring_def find_channel_def hash_find_channel_def demo0_chans tab_find_def empty_table_def)

lemma demo1_simps:
  "chan_list demo1 = [0]" "ch demo1 0 = zero_channel\<lparr>chname := ''#test'', channelts := 1000000000\<rparr>"
  "clients demo1 = clients demo0"
  by (simp_all add: demo1_def new_channel_def demo0_chans) (simp add: demo0_def boot_def)

lemma demo_inv: "chan_inv demo"
  unfolding demo_def
  by (rule add_user_inv, rule add_user_inv [OF demo1_inv])
    (simp_all add: IsMember_def demo1_simps add_user_to_channel_def u_chans_def demo0_cl fresh_user_def)

lemma demo_members:
  "members (ch demo 0) = [\<lparr>m_client = 12, m_flags = 0\<rparr>, \<lparr>m_client = 11, m_flags = CHFL_CHANOP\<rparr>]"
  by (simp add: demo_def add_user_to_channel_def demo1_simps demo0_cl zero_channel_def)

lemma demo_cl:
  "cl demo 11 = (local_user 11 ''alice'')\<lparr>user := Some (fresh_user\<lparr>u_channel := [0], u_joined := 1\<rparr>)\<rparr>"
  "cl demo 12 = (local_user 12 ''bob'')\<lparr>user := Some (fresh_user\<lparr>u_channel := [0], u_joined := 1\<rparr>)\<rparr>"
  "c \<noteq> 11 \<Longrightarrow> c \<noteq> 12 \<Longrightarrow> cl demo c = cl demo0 c"
  by (simp_all add: demo_def add_user_to_channel_def demo1_simps demo0_cl fresh_user_def local_user_def)

lemma demo_chan: "chname (ch demo 0) = ''#test''" "mode (ch demo 0) = mode zero_channel" "banlist (ch demo 0) = []"
  "exceptlist (ch demo 0) = []" "invexlist (ch demo 0) = []" "juped (ch demo 0) = False" "users (ch demo 0) = 2"
  "invites (ch demo 0) = []" "channelts (ch demo 0) = 1000000000" "num_bed (ch demo 0) = 0"
  by (simp_all add: demo_def add_user_to_channel_def demo1_simps demo0_cl zero_channel_def)

lemma demo_rest: "now demo = 1000000000" "me demo = 0" "maxbans demo = 100" "serv_list demo = [13]"
  by (simp_all add: demo_def add_user_to_channel_def demo1_simps demo0_cl demo1_def new_channel_def)
    (simp_all add: demo0_def boot_def upd_user_def)

lemma demo_tab: "client_tab demo = client_tab demo0"
  by (simp add: demo_def add_user_to_channel_def demo1_simps demo0_cl demo1_def new_channel_def upd_user_def Let_def)

lemma demo_chan_list: "chan_list demo = [0]"
  by (simp add: demo_def add_user_to_channel_def demo1_simps demo0_cl)

text \<open>Looking names up, through the contract of the tables.\<close>

definition demo_name :: "cid \<Rightarrow> cstr" where
  "demo_name c = name (cl demo0 c)"

lemma demo_names:
  "demo_name 11 = ''alice''" "demo_name 12 = ''bob''" "demo_name 13 = ''hub.example.net''"
  "demo_name 14 = ''carol''" "demo_name 15 = ''oper''"
  by (simp_all add: demo_name_def demo0_def)

lemma demo_name_eq [simp]: "name (cl demo c) = demo_name c" "name (cl demo0 c) = demo_name c"
  by (cases "c = 11"; cases "c = 12"; simp add: demo_cl demo0_cl demo_name_def)+

lemma same_name_length: "same_name s t \<Longrightarrow> length s = length t"
  unfolding same_name_def by (metis length_map)

lemma alice_carol: "\<not> same_name ''alice'' ''carol''" "\<not> same_name ''carol'' ''alice''"
proof -
  have "ToLower CHR ''a'' \<noteq> ToLower CHR ''c''" by code_simp
  then show "\<not> same_name ''alice'' ''carol''" "\<not> same_name ''carol'' ''alice''" by (simp_all add: same_name_def)
qed

lemma demo_names_ok: "names_ok demo_name {15, 14, 13, 12, 11}"
  unfolding names_ok_def
  by (auto simp: demo_names alice_carol dest: same_name_length)

lemma demo_tab_ok: "tab_ok hash_nick_name demo_name {15, 14, 13, 12, 11} (client_tab demo0)"
proof -
  have "tab_ok hash_nick_name demo_name {15, 14, 13, 12, 11}
    (tab_add hash_nick_name (demo_name 15) 15 (tab_add hash_nick_name (demo_name 14) 14
     (tab_add hash_nick_name (demo_name 13) 13 (tab_add hash_nick_name (demo_name 12) 12
      (tab_add hash_nick_name (demo_name 11) 11 empty_table)))))"
    by (intro nick.ok_add nick.ok_empty) simp_all
  then show ?thesis by (simp add: demo0_def demo_names add_to_client_hash_table_def)
qed

lemma demo_find_client:
  assumes "cstring nm" "same_name nm (demo_name c)" "c \<in> {15, 14, 13, 12, 11}"
  shows "find_client demo nm d = Some c"
  using assms nick.find_Some [OF demo_tab_ok demo_names_ok assms(1), of c]
  by (simp add: find_client_def hash_find_client_def demo_tab)

lemma demo_find_nick:
  "find_client demo ''bob'' d = Some 12" "find_client demo ''alice'' d = Some 11"
  "find_client demo ''carol'' d = Some 14"
  by (rule demo_find_client; simp add: demo_names)+

lemma demo_find_channel: "find_channel demo ''#test'' = Some 0"
  using find_channel_Some [OF demo_inv, of "''#test''" 0] by (simp add: demo_chan_list demo_chan)

end
