(* ===== verification/ModeSpec.thy ===== *)
theory ModeSpec
  imports Demo
begin

text \<open>
  The properties of \<open>set_channel_mode\<close>: what a command may change and what it never does,
  how much one command may do, and where its buffers are bounded and where they are not.
\<close>

section \<open>What a command may change\<close>

text \<open>C24 (mode commands keep the channel data consistent).
  On a channel with members every mode string, from any source and with any parameters,
  leaves the membership lists, counters, invitations, ban counters and tables consistent
  and the channel allocated.\<close>

theorem mode_consistent:
  assumes "chan_inv w" "members (ch w x) \<noteq> []"
  shows "chan_inv (set_channel_mode cptr sptr x parv w) \<and> x \<in> set (chan_list (set_channel_mode cptr sptr x parv w)) \<and>
    members (ch (set_channel_mode cptr sptr x parv w) x) \<noteq> []"
proof -
  have "x \<in> set (chan_list w)" using assms by (auto simp: chan_inv_def dead_ok_def)
  then have "pass_w x w" using assms by (simp add: pass_w_def)
  then show ?thesis using consistent.pass [of cptr sptr x w parv] by (simp add: mode_env_def Let_def pass_w_def)
qed

theorem mode_consistent_witness: "chan_inv (set_channel_mode 11 11 0 [''+tn-o'', ''bob''] demo)"
  using mode_consistent [OF demo_inv, of 0] by (simp add: demo_members)

text \<open>Mode commands stay on their channel. A mode command on one channel changes no other channel.\<close>

theorem mode_frame:
  assumes "y \<noteq> x"
  shows "ch (set_channel_mode cptr sptr x parv w) y = ch w y"
  using frame.pass [of cptr sptr x w "\<lambda>y. ch w y" parv] assms by (simp add: mode_env_def Let_def)

theorem mode_frame_witness: "ch (set_channel_mode 11 11 0 [''+tn-o'', ''bob''] demo) 1 = ch demo 1"
  by (rule mode_frame) simp

text \<open>C3 (modes need rights).
  A local user who has no op on the channel and is no operator changes none of its modes,
  key or limit, no ban, exception or invite-exception, no invitation, no jupe, and nobody's
  op or voice, whatever the mode string says.\<close>

theorem mode_needs_rights:
  assumes "MyClient (cl w sptr)" "\<not> is_chan_op sptr (ch w x)" "\<not> IsAnOper (cl w sptr)"
  shows "guarded (ch (set_channel_mode sptr sptr x parv w) y) = guarded (ch w y)"
proof -
  let ?e = "mode_env sptr sptr x w"
  have srv: "\<not> IsServer (cl w sptr)"
    using assms(1) by (simp add: MyClient_def IsClient_def IsServer_def STAT_CLIENT_def STAT_SERVER_def)
  have "\<not> e_isok ?e" "e_sptr ?e = sptr"
    using assms(2) srv by (simp_all add: mode_env_def Let_def is_chan_op_def)
  then show ?thesis
    using rights.pass [of sptr sptr x w "\<lambda>y. guarded (ch w y)" parv] assms(3) by simp
qed

theorem mode_needs_rights_witness:
  "guarded (ch (set_channel_mode 12 12 0 [''+o-o'', ''bob'', ''alice''] demo) 0) = guarded (ch demo 0)"
proof (rule mode_needs_rights)
  show "MyClient (cl demo 12)" "\<not> IsAnOper (cl demo 12)"
    by (simp_all add: demo_cl MyClient_def MyConnect_def IsClient_def IsAnOper_def has_flag_def)
  show "\<not> is_chan_op 12 (ch demo 0)"
    by (simp add: is_chan_op_def user_channel_mode_def find_user_link_def demo_members has_flag_def)
qed

section \<open>How much one command does\<close>

definition letters :: "cstr \<Rightarrow> cstr \<Rightarrow> nat" where
  "letters s m = length (filter (\<lambda>c. c \<in> set s) m)"

lemma letters_simps [simp]:
  "letters s [] = 0" "letters s (m @ n) = letters s m + letters s n"
  "letters s (c # m) = (if c \<in> set s then Suc (letters s m) else letters s m)"
  by (simp_all add: letters_def)

text \<open>Mode changes with a nick or mask that the pass has accepted.\<close>

definition accepted :: "smode \<Rightarrow> nat" where
  "accepted st = letters ''ovb'' (sm_mbuf st) + letters ''e'' (sm_mbuf_new st) + letters ''I'' (sm_mbuf_new2 st)"

text \<open>What a step of the pass keeps: one more counted change for each one written, no more than
  \<open>MAXMODEPARAMS\<close> of them for a local source.\<close>

definition counts :: "smenv \<Rightarrow> smode \<Rightarrow> bool" where
  "counts e st \<longleftrightarrow> accepted st = sm_opcnt st \<and> (mine e st \<longrightarrow> sm_opcnt st \<le> MAXMODEPARAMS) \<and> sm_plus st \<in> set ''+-=''"

lemma change_id_shape: "snd (change_id e a ty st) = st\<lparr>sm_w := sm_w (snd (change_id e a ty st))\<rparr>"
  by (simp add: change_id_def split: prod.split)

lemma change_id_clients: "clients (sm_w (snd (change_id e a ty st))) = clients (sm_w st)"
  by (simp add: change_id_def case_prod_unfold Let_def)

lemma change_id_result:
  assumes "change_id e a ty st = (b, st')"
  obtains w' where "st' = st\<lparr>sm_w := w'\<rparr>" "clients w' = clients (sm_w st)"
  using assms change_id_shape [of e a ty st] change_id_clients [of e a ty st] by simp

text \<open>\<open>step_ok\<close> is what one letter does to the counters.\<close>

definition step_ok :: "smenv \<Rightarrow> smode \<Rightarrow> smode \<Rightarrow> bool" where
  "step_ok e st st' \<longleftrightarrow>
     (\<exists>n. accepted st' = accepted st + n \<and> sm_opcnt st' = sm_opcnt st + n \<and> n \<le> 1 \<and>
          (n = 1 \<longrightarrow> mine e st \<longrightarrow> sm_opcnt st < MAXMODEPARAMS)) \<and>
     length (sm_pbuf_new st') + length (sm_pbuf_new2 st') + sm_len st
       \<le> length (sm_pbuf_new st) + length (sm_pbuf_new2 st) + sm_len st' \<and>
     (sm_len st' = sm_len st \<or> sm_len st' < MODEBUFLEN) \<and>
     (sm_plus st \<in> set ''+-='' \<longrightarrow> sm_plus st' \<in> set ''+-='')"

lemma step_ok_same:
  assumes "sm_mbuf st' = sm_mbuf st" "sm_mbuf_new st' = sm_mbuf_new st" "sm_mbuf_new2 st' = sm_mbuf_new2 st"
    "sm_opcnt st' = sm_opcnt st" "sm_pbuf_new st' = sm_pbuf_new st" "sm_pbuf_new2 st' = sm_pbuf_new2 st"
    "sm_len st' = sm_len st" "sm_plus st' = sm_plus st"
  shows "step_ok e st st'"
  using assms by (simp add: step_ok_def accepted_def)

lemma bufs_errs [simp]:
  "sm_mbuf (err_once e er n st) = sm_mbuf st" "sm_mbuf_new (err_once e er n st) = sm_mbuf_new st"
  "sm_mbuf_new2 (err_once e er n st) = sm_mbuf_new2 st" "sm_opcnt (err_once e er n st) = sm_opcnt st"
  "sm_pbuf_new (err_once e er n st) = sm_pbuf_new st" "sm_pbuf_new2 (err_once e er n st) = sm_pbuf_new2 st"
  "sm_len (err_once e er n st) = sm_len st" "sm_plus (err_once e er n st) = sm_plus st"
  "sm_mbuf (noops_marked e st) = sm_mbuf st" "sm_mbuf_new (noops_marked e st) = sm_mbuf_new st"
  "sm_mbuf_new2 (noops_marked e st) = sm_mbuf_new2 st" "sm_opcnt (noops_marked e st) = sm_opcnt st"
  "sm_pbuf_new (noops_marked e st) = sm_pbuf_new st" "sm_pbuf_new2 (noops_marked e st) = sm_pbuf_new2 st"
  "sm_len (noops_marked e st) = sm_len st" "sm_plus (noops_marked e st) = sm_plus st"
  "sm_mbuf (eat st) = sm_mbuf st" "sm_mbuf_new (eat st) = sm_mbuf_new st" "sm_mbuf_new2 (eat st) = sm_mbuf_new2 st"
  "sm_opcnt (eat st) = sm_opcnt st" "sm_pbuf_new (eat st) = sm_pbuf_new st" "sm_pbuf_new2 (eat st) = sm_pbuf_new2 st"
  "sm_len (eat st) = sm_len st" "sm_plus (eat st) = sm_plus st"
  by (simp_all add: err_once_def noops_marked_def errsent_def eat_def Let_def)

lemma step_ov_apply:
  assumes "sm_plus st \<in> set ''+-=''" "mine e st \<longrightarrow> sm_opcnt st < MAXMODEPARAMS" "c = CHR ''o'' \<or> c = CHR ''v''"
  shows "step_ok e st (mode_ov_apply e c arg who st)"
  using assms by (auto simp: mode_ov_apply_def Let_def step_ok_def accepted_def push_mode_def)

lemma find_chasing_clients: "find_chasing s u w = (r, b, w') \<Longrightarrow> clients w' = clients w"
  by (auto simp: find_chasing_def send_defs split: option.splits)

lemma step_simple [simp]:
  "step_ok e st st" "step_ok e st (eat st)" "step_ok e st (eat (eat st))" "step_ok e st (noops_marked e (eat st))"
  "step_ok e st (send_ban_list e r1 r2 ty (st\<lparr>sm_errs := er\<rparr>))" "step_ok e st (st\<lparr>sm_errs := er, sm_w := w'\<rparr>)"
  "step_ok e st (st\<lparr>sm_args := r\<rparr>)" "step_ok e st (st\<lparr>sm_args := r, sm_w := w'\<rparr>)"
  "step_ok e st (eat (err_once e er n st))"
  by (rule step_ok_same; simp add: send_ban_list_def)+

lemma mine_simps [simp]: "mine e (st\<lparr>sm_args := r\<rparr>) = mine e st" "mine e (eat st) = mine e st"
  by (simp_all add: mine_def)


lemma step_ov:
  assumes "sm_plus st \<in> set ''+-=''" "c = CHR ''o'' \<or> c = CHR ''v''"
  shows "step_ok e st (mode_ov e c st)"
proof -
  have apply_ok: "step_ok e st (mode_ov_apply e c a who (st\<lparr>sm_args := r, sm_w := w'\<rparr>))"
    if "find_chasing s u (sm_w st) = (Some who, b, w')" "mine e st \<longrightarrow> sm_opcnt st < MAXMODEPARAMS" for a who r w' s u b
    using that find_chasing_clients [OF that(1)] assms by (auto simp: mode_ov_apply_def Let_def step_ok_def accepted_def push_mode_def mine_def)
  show ?thesis
    by (simp add: mode_ov_def apply_ok find_chasing_clients Let_def not_le split: list.split option.split prod.split)
qed

lemma step_k: "sm_plus st \<in> set ''+-='' \<Longrightarrow> step_ok e st (mode_k e st)"
  by (auto simp: mode_k_def mode_k_apply_def Let_def step_ok_def accepted_def push_mode_def split: option.split)

lemma step_l: "step_ok e st (mode_l e st)"
  by (auto simp: mode_l_def Let_def step_ok_def accepted_def push_mode_def split: list.split)

lemma step_flag_with: "c \<in> set ''imnpst'' \<Longrightarrow> step_ok e st (mode_flag_with e c fl g st)"
  by (auto simp: mode_flag_with_def Let_def step_ok_def accepted_def push_mode_def)

lemma step_j: "step_ok e st (mode_j e st)"
  by (rule step_ok_same) (simp_all add: mode_j_def Let_def)

lemma step_default: "step_ok e st (mode_default e c st)"
  by (rule step_ok_same) (simp_all add: mode_default_def errsent_def)

lemma step_change_id [simp]: "change_id e a ty (eat st) = (b, s) \<Longrightarrow> step_ok e st s"
  by (erule change_id_result) (rule step_ok_same; simp)

lemma step_b:
  assumes "sm_plus st \<in> set ''+-=''"
  shows "step_ok e st (mode_b e st)"
proof -
  have push: "step_ok e st ((push_mode [sm_plus s, CHR ''b''] (a @ '' '') (Suc (length a)) s)\<lparr>sm_opcnt := Suc (sm_opcnt s)\<rparr>)"
    if "change_id e a CHFL_BAN_LIST (eat st) = (r, s)" "mine e st \<longrightarrow> sm_opcnt st < MAXMODEPARAMS"
      "\<not> MODEBUFLEN \<le> Suc (Suc (sm_len st + length a))" for a r s
    using that(1) by (rule change_id_result) (use that(2,3) assms in \<open>auto simp: step_ok_def accepted_def push_mode_def\<close>)
  show ?thesis
    using push by (simp add: mode_b_def errsent_def Let_def not_le split: prod.split bool.split)
qed

lemma step_eI:
  assumes "sm_plus st \<in> set ''+-=''"
  shows "step_ok e st (mode_e e st)" "step_ok e st (mode_I e st)"
proof -
  have push:
    "step_ok e st (s\<lparr>sm_len := Suc (sm_len s + length a), sm_opcnt := Suc (sm_opcnt s),
        sm_mbuf_new := sm_mbuf_new s @ [sm_plus s, CHR ''e''], sm_pbuf_new := sm_pbuf_new s @ a @ '' ''\<rparr>)"
    "step_ok e st (s\<lparr>sm_len := Suc (sm_len s + length a), sm_opcnt := Suc (sm_opcnt s),
        sm_mbuf_new2 := sm_mbuf_new2 s @ [sm_plus s, CHR ''I''], sm_pbuf_new2 := sm_pbuf_new2 s @ a @ '' ''\<rparr>)"
    if "change_id e a ty (eat st) = (r, s)" "mine e st \<longrightarrow> sm_opcnt st < MAXMODEPARAMS"
      "Suc (Suc (sm_len st + length a)) < MODEBUFLEN" for a r s ty
    using that(1) by (rule change_id_result, use that(2,3) assms in \<open>auto simp: step_ok_def accepted_def\<close>)+
  show "step_ok e st (mode_e e st)"
    by (cases "mine e st")
      (simp_all add: push mode_e_def mode_exlist_def errsent_def Let_def not_le split: prod.split bool.split)
  show "step_ok e st (mode_I e st)"
    by (cases "mine e st")
      (simp_all add: push mode_I_def mode_exlist_def errsent_def Let_def not_le split: prod.split bool.split)
qed

lemma step_sign: "s \<in> set ''+-='' \<Longrightarrow> step_ok e st (st\<lparr>sm_whatt := x, sm_plus := s\<rparr>)"
  by (simp add: step_ok_def accepted_def)

lemma step_char:
  assumes "sm_plus st \<in> set ''+-=''"
  shows "step_ok e st (mode_char e c st)"
  by (rule mode_char_cases)
    (use assms in \<open>simp_all add: step_sign step_ov step_k step_eI step_b step_l step_j step_default mode_i_def
      mode_m_def mode_n_def mode_p_def mode_s_def mode_t_def step_flag_with\<close>)

text \<open>Locality of the source does not change during the pass.\<close>

lemma fold_remove_fludee_status [simp]:
  "status (cl (fold (\<lambda>b. remove_fludee_reference (f b) t) bs w) c) = status (cl w c)"
  "local_flag (cl (fold (\<lambda>b. remove_fludee_reference (f b) t) bs w) c) = local_flag (cl w c)"
  by (induction bs arbitrary: w) (auto simp: remove_fludee_reference_def)

lemma fold_del_invite_status [simp]:
  "status (cl (fold (\<lambda>c. del_invite c x) cs w) c) = status (cl w c)"
  "local_flag (cl (fold (\<lambda>c. del_invite c x) cs w) c) = local_flag (cl w c)"
  by (induction cs arbitrary: w) (auto simp: del_invite_def)

lemma sub1_clients [simp]:
  "status (cl (sub1_from_channel x w) c) = status (cl w c)"
  "local_flag (cl (sub1_from_channel x w) c) = local_flag (cl w c)"
  "status (cl (del_all_invites x w) c) = status (cl w c)"
  "local_flag (cl (del_all_invites x w) c) = local_flag (cl w c)"
  by (simp_all add: sub1_from_channel_def free_channel_def free_fluders_channel_def del_all_invites_def
      free_bans_exceptions_denies_def Let_def)

interpretation locality: mode_pass "\<lambda>e w. MyClient (cl w (e_sptr e)) = v" for v
  by unfold_locales (simp_all add: MyClient_def IsClient_def MyConnect_def)

lemma mine_char: "mine e (mode_char e c st) = mine e st"
  using locality.char [of st e "mine e st" c] by (simp add: mine_def)

definition counts_ok :: "smenv \<Rightarrow> smode \<Rightarrow> bool" where
  "counts_ok e st \<longleftrightarrow> accepted st = sm_opcnt st \<and> (mine e st \<longrightarrow> sm_opcnt st \<le> MAXMODEPARAMS) \<and>
     length (sm_pbuf_new st) + length (sm_pbuf_new2 st) \<le> sm_len st \<and> sm_len st < MODEBUFLEN \<and>
     sm_plus st \<in> set ''+-=''"

lemma counts_char: "counts_ok e st \<Longrightarrow> counts_ok e (mode_char e c st)"
  using step_char [of st e c] mine_char [of e c st] by (auto simp: counts_ok_def step_ok_def)

lemma counts_loop: "counts_ok e st \<Longrightarrow> counts_ok e (mode_loop e cs st)"
proof (induction e cs st rule: mode_loop.induct)
  case (1 e st)
  then show ?case by (auto simp: counts_ok_def accepted_def split: list.split)
qed (simp add: counts_char)

lemma mine_loop: "mine e (mode_loop e cs st) = mine e st"
  by (induction e cs st rule: mode_loop.induct) (simp_all add: mine_char split: list.split)

text \<open>
  The mode letters still possible: each change to the exception lists uses up a parameter, and for a
  local source each other letter a counter or a mark.
\<close>

definition exroom :: "smode \<Rightarrow> nat" where
  "exroom st = length (sm_mbuf_new st) + length (sm_mbuf_new2 st) + 2 * length (sm_args st)"

definition marks_left :: "(char \<Rightarrow> bool) \<Rightarrow> nat" where
  "marks_left d = length (filter (\<lambda>c. \<not> d c) ''imnpst'')"

definition room :: "smode \<Rightarrow> nat" where
  "room st = length (sm_mbuf st) + 2 * (of_bool (\<not> sm_keychange st) + of_bool (\<not> sm_limitset st) +
     marks_left (sm_done st) + (MAXMODEPARAMS - sm_opcnt st))"

definition room_ok :: "smenv \<Rightarrow> smode \<Rightarrow> smode \<Rightarrow> bool" where
  "room_ok e st st' \<longleftrightarrow> exroom st' \<le> exroom st \<and> (mine e st \<longrightarrow> room st' \<le> room st)"

lemma room_same:
  assumes "sm_mbuf st' = sm_mbuf st" "sm_mbuf_new st' = sm_mbuf_new st" "sm_mbuf_new2 st' = sm_mbuf_new2 st"
    "sm_opcnt st' = sm_opcnt st" "sm_keychange st' = sm_keychange st" "sm_limitset st' = sm_limitset st"
    "sm_done st' = sm_done st" "length (sm_args st') \<le> length (sm_args st)"
  shows "room_ok e st st'"
  using assms by (simp add: room_ok_def exroom_def room_def)

lemma marks_errs [simp]:
  "sm_keychange (err_once e er n st) = sm_keychange st" "sm_limitset (err_once e er n st) = sm_limitset st"
  "sm_done (err_once e er n st) = sm_done st"
  "sm_keychange (noops_marked e st) = sm_keychange st" "sm_limitset (noops_marked e st) = sm_limitset st"
  "sm_done (noops_marked e st) = sm_done st"
  "sm_keychange (eat st) = sm_keychange st" "sm_limitset (eat st) = sm_limitset st" "sm_done (eat st) = sm_done st"
  by (simp_all add: err_once_def noops_marked_def errsent_def eat_def Let_def)

lemma room_simple [simp]:
  "room_ok e st st" "room_ok e st (eat st)" "room_ok e st (eat (eat st))" "room_ok e st (noops_marked e (eat st))"
  "room_ok e st (send_ban_list e r1 r2 ty (st\<lparr>sm_errs := er\<rparr>))" "room_ok e st (st\<lparr>sm_errs := er, sm_w := w'\<rparr>)"
  "room_ok e st (eat (err_once e er n st))"
  by (rule room_same; simp add: send_ban_list_def)+

lemma room_args [simp]:
  "sm_args st = a # r \<Longrightarrow> room_ok e st (st\<lparr>sm_args := r\<rparr>)"
  "sm_args st = a # r \<Longrightarrow> room_ok e st (st\<lparr>sm_args := r, sm_w := w'\<rparr>)"
  by (rule room_same; simp)+

lemma marks_left_upd: "c \<in> set ''imnpst'' \<Longrightarrow> \<not> d c \<Longrightarrow> Suc (marks_left (d(c := True))) = marks_left d"
  by (auto simp: marks_left_def)

lemma room_ov:
  assumes "c = CHR ''o'' \<or> c = CHR ''v''"
  shows "room_ok e st (mode_ov e c st)"
proof -
  have apply_ok: "room_ok e st (mode_ov_apply e c a who (st\<lparr>sm_args := r, sm_w := w'\<rparr>))"
    if "sm_args st = x # r" "mine e st \<longrightarrow> sm_opcnt st < MAXMODEPARAMS" for a who r w' x
    using that by (auto simp: mode_ov_apply_def Let_def room_ok_def exroom_def room_def push_mode_def)
  show ?thesis
    by (simp add: mode_ov_def apply_ok find_chasing_clients Let_def not_le split: list.split option.split prod.split)
qed

lemma room_k: "room_ok e st (mode_k e st)"
proof (cases "sm_whatt st = MODE_QUERY \<or> mode_k_arg e st = None \<or> sm_keychange st")
  case True
  then show ?thesis
    by (auto simp: mode_k_def Let_def mode_k_arg_def split: option.split list.splits if_splits intro!: room_same)
next
  case False
  then obtain arg rest where k: "mode_k_arg e st = Some (arg, rest)" by auto
  then have r: "length rest \<le> length (sm_args st)" by (auto simp: mode_k_arg_def split: list.splits if_splits)
  show ?thesis
    using False r by (auto simp: mode_k_def k mode_k_apply_def Let_def room_ok_def exroom_def room_def push_mode_def split: option.split)
qed

lemma room_l: "room_ok e st (mode_l e st)"
  by (auto simp: mode_l_def Let_def room_ok_def exroom_def room_def push_mode_def eat_def split: list.split)

lemma room_flag_with: "c \<in> set ''imnpst'' \<Longrightarrow> room_ok e st (mode_flag_with e c fl g st)"
  using marks_left_upd [of c "sm_done st"]
  by (auto simp: mode_flag_with_def Let_def room_ok_def exroom_def room_def push_mode_def simp del: set_simps)

lemma room_j: "room_ok e st (mode_j e st)"
  by (rule room_same) (simp_all add: mode_j_def Let_def)

lemma room_default: "room_ok e st (mode_default e c st)"
  by (rule room_same) (simp_all add: mode_default_def errsent_def)

lemma room_change_id [simp]: "change_id e a ty (eat st) = (b, s) \<Longrightarrow> room_ok e st s"
  by (erule change_id_result) (rule room_same; simp)

lemma change_id_fields:
  assumes "change_id e a ty (eat st) = (b, s)"
  shows "sm_mbuf s = sm_mbuf st" "sm_mbuf_new s = sm_mbuf_new st" "sm_mbuf_new2 s = sm_mbuf_new2 st" "sm_opcnt s = sm_opcnt st"
    "sm_keychange s = sm_keychange st" "sm_limitset s = sm_limitset st" "sm_done s = sm_done st" "sm_args s = tl (sm_args st)"
  using assms by (rule change_id_result; simp)+

lemma room_b: "room_ok e st (mode_b e st)"
proof -
  have push: "room_ok e st ((push_mode [sm_plus s, CHR ''b''] p n s)\<lparr>sm_opcnt := Suc (sm_opcnt s)\<rparr>)"
    if "change_id e a CHFL_BAN_LIST (eat st) = (r, s)" "mine e st \<longrightarrow> sm_opcnt st < MAXMODEPARAMS" for a r s p n
    using change_id_fields [OF that(1)] that(2) by (auto simp: room_ok_def exroom_def room_def push_mode_def)
  show ?thesis
    using push by (simp add: mode_b_def errsent_def Let_def not_le split: prod.split bool.split)
qed

lemma room_eI: "room_ok e st (mode_e e st)" "room_ok e st (mode_I e st)"
proof -
  have push:
    "room_ok e st (s\<lparr>sm_len := n, sm_opcnt := Suc (sm_opcnt s), sm_mbuf_new := sm_mbuf_new s @ [c1, c2], sm_pbuf_new := p\<rparr>)"
    "room_ok e st (s\<lparr>sm_len := n, sm_opcnt := Suc (sm_opcnt s), sm_mbuf_new2 := sm_mbuf_new2 s @ [c1, c2], sm_pbuf_new2 := p\<rparr>)"
    if "change_id e a ty (eat st) = (r, s)" "sm_args st \<noteq> []" for a r s ty p n c1 c2
    using change_id_fields [OF that(1)] that(2)
    by (cases "sm_args st"; auto simp: room_ok_def exroom_def room_def)+
  show "room_ok e st (mode_e e st)"
    by (cases "mine e st")
      (simp_all add: push mode_e_def mode_exlist_def errsent_def Let_def not_le split: prod.split bool.split)
  show "room_ok e st (mode_I e st)"
    by (cases "mine e st")
      (simp_all add: push mode_I_def mode_exlist_def errsent_def Let_def not_le split: prod.split bool.split)
qed

lemma room_char: "room_ok e st (mode_char e c st)"
proof (rule mode_char_cases)
  show "room_ok e st (mode_i e st)" by (simp add: mode_i_def room_flag_with)
qed (simp_all add: room_ov room_k room_eI room_b room_l room_j room_default mode_m_def mode_n_def mode_p_def mode_s_def
  mode_t_def room_flag_with, simp_all add: room_same)

lemma room_loop: "room_ok e st (mode_loop e cs st)"
proof (induction e cs st rule: mode_loop.induct)
  case (1 e st)
  then show ?case by (auto simp: room_ok_def exroom_def room_def mine_def split: list.split)
next
  case (2 e c cs st)
  then show ?case using room_char [of e st c] mine_char [of e c st] by (auto simp: room_ok_def)
qed

text \<open>C36 (bounds of one mode command).
  At the end of the pass, from any source: the parameter buffers of the exception and
  invite-exception modes together hold fewer than \<open>MODEBUFLEN\<close> bytes, and their letter buffers at most
  two bytes for each parameter given, so with the at most \<open>MAXPARA\<close> parameters of a command from the
  parser no more than 30.  For a local source, besides, at most \<open>MAXMODEPARAMS\<close> changes that take a nick
  or a mask (o, v, b, e, I) were accepted and written, and \<open>modebuf\<close> holds at most 24 bytes: one sign and
  letter for each of these, for one key, one limit and each of the six flags.  Where \<open>parabuf\<close> and, for a
  server, \<open>modebuf\<close> are not bounded is the subject of \<open>mode_buffers_overflow\<close>.\<close>

theorem mode_bounds:
  "let st = mode_loop (mode_env cptr sptr x w) (hd parv) (smode_init (tl parv) w) in
     length (sm_pbuf_new st) + length (sm_pbuf_new2 st) < MODEBUFLEN \<and>
     length (sm_mbuf_new st) + length (sm_mbuf_new2 st) \<le> 2 * length (tl parv) \<and>
     (MyClient (cl w sptr) \<longrightarrow>
       letters ''ovb'' (sm_mbuf st) + letters ''e'' (sm_mbuf_new st) + letters ''I'' (sm_mbuf_new2 st) \<le> MAXMODEPARAMS \<and>
       length (sm_mbuf st) \<le> 24)"
proof -
  let ?e = "mode_env cptr sptr x w" and ?s = "smode_init (tl parv) w"
  let ?st = "mode_loop ?e (hd parv) ?s"
  have s: "sm_w ?s = w" "e_sptr ?e = sptr" by (simp_all add: smode_init_def mode_env_def Let_def)
  have "counts_ok ?e ?s" by (simp add: counts_ok_def smode_init_def accepted_def MODEBUFLEN_def)
  then have "counts_ok ?e ?st" by (rule counts_loop)
  moreover have "room_ok ?e ?s ?st" by (rule room_loop)
  moreover have "exroom ?s = 2 * length (tl parv)" "room ?s = 24"
    by (simp_all add: exroom_def room_def smode_init_def marks_left_def MAXMODEPARAMS_def)
  moreover have "length (sm_mbuf_new ?st) + length (sm_mbuf_new2 ?st) \<le> exroom ?st" "length (sm_mbuf ?st) \<le> room ?st"
    by (simp_all add: exroom_def room_def)
  ultimately show ?thesis
    using mine_loop [of ?e "hd parv" ?s] s by (auto simp: counts_ok_def room_ok_def accepted_def mine_def Let_def)
qed

theorem mode_bounds_witness:
  "letters ''ovb'' (sm_mbuf (mode_loop (mode_env 11 11 0 demo) ''+vvvvvv''
     (smode_init (replicate 6 ''bob'') demo))) \<le> MAXMODEPARAMS"
proof -
  have "MyClient (cl demo 11)" by (simp add: demo_cl MyClient_def MyConnect_def IsClient_def)
  then show ?thesis
    using mode_bounds [of 11 11 0 demo "''+vvvvvv'' # replicate 6 ''bob''"] by (simp add: Let_def)
qed

section \<open>Clearing a jupe\<close>

lemma fold_del_invite_more [simp]:
  "count_chan (fold (\<lambda>c. del_invite c x) cs w) = count_chan w"
  "chan_list (fold (\<lambda>c. del_invite c x) cs w) = chan_list w"
  "umodes (cl (fold (\<lambda>c. del_invite c x) cs w) d) = umodes (cl w d)"
  by (induction cs arbitrary: w) (auto simp: del_invite_def)

lemma fold_remove_fludee_umodes [simp]:
  "umodes (cl (fold (\<lambda>b. remove_fludee_reference (f b) t) bs w) c) = umodes (cl w c)"
  by (induction bs arbitrary: w) (auto simp: remove_fludee_reference_def)

lemma sub1_frees:
  assumes "users (ch w x) \<le> 1" "\<not> juped (ch w x)"
  shows "count_chan (sub1_from_channel x w) = count_chan w - 1"
    "chan_list (sub1_from_channel x w) = remove1 x (chan_list w)"
    "users (ch (sub1_from_channel x w) x) = 0" "\<not> juped (ch (sub1_from_channel x w) x)"
    "umodes (cl (sub1_from_channel x w) c) = umodes (cl w c)"
  using assms
  by (simp_all add: sub1_from_channel_def free_channel_def free_fluders_channel_def del_all_invites_def
      free_bans_exceptions_denies_def Let_def)

lemma unjupe_step:
  assumes "MyConnect (cl (sm_w st) (e_sptr e))" "IsAnOper (cl (sm_w st) (e_sptr e))" "sm_whatt st = MODE_DEL"
    "users (ch (sm_w st) (e_chan e)) = 0"
  shows "count_chan (sm_w (mode_char e CHR ''j'' st)) = count_chan (sm_w st) - 1 \<and>
    chan_list (sm_w (mode_char e CHR ''j'' st)) = remove1 (e_chan e) (chan_list (sm_w st)) \<and>
    users (ch (sm_w (mode_char e CHR ''j'' st)) (e_chan e)) = 0 \<and>
    (\<forall>c. umodes (cl (sm_w (mode_char e CHR ''j'' st)) c) = umodes (cl (sm_w st) c)) \<and>
    (\<forall>c. local_flag (cl (sm_w (mode_char e CHR ''j'' st)) c) = local_flag (cl (sm_w st) c)) \<and>
    sm_whatt (mode_char e CHR ''j'' st) = MODE_DEL \<and> sm_args (mode_char e CHR ''j'' st) = sm_args st \<and>
    sm_mbuf (mode_char e CHR ''j'' st) = sm_mbuf st \<and>
    sm_mbuf_new (mode_char e CHR ''j'' st) = sm_mbuf_new st \<and> sm_mbuf_new2 (mode_char e CHR ''j'' st) = sm_mbuf_new2 st"
proof -
  let ?w = "sendto_realops (Fmt ''%s!%s@%s locally unjuping channel %s'')
    [Str (name (cl (sm_w st) (e_sptr e))), Str (username (cl (sm_w st) (e_sptr e))), Str (host (cl (sm_w st) (e_sptr e))), chan_name e st]
    (upd_ch (e_chan e) (\<lambda>k. k\<lparr>juped := False\<rparr>) (sm_w st))"
  have "mode_char e CHR ''j'' st = st\<lparr>sm_w := sub1_from_channel (e_chan e) ?w\<rparr>"
    using assms by (simp add: mode_char_def mode_j_def Let_def mode_defs send_defs)
  moreover have w: "count_chan ?w = count_chan (sm_w st)" "chan_list ?w = chan_list (sm_w st)" "clients ?w = clients (sm_w st)"
    "users (ch ?w (e_chan e)) = 0" "\<not> juped (ch ?w (e_chan e))"
    using assms(4) by (simp_all add: send_defs)
  ultimately show ?thesis using sub1_frees [of ?w "e_chan e"] assms(3) by simp
qed

text \<open>Unjuping twice frees twice. On a locally juped channel without members, which \<open>chan_inv\<close> allows, an operator's \<open>MODE -jj\<close>
  runs \<open>sub1_from_channel\<close> on the freed block again: the channel leaves the list once and the
  channel counter drops by two.\<close>

theorem unjupe_twice:
  assumes "MyConnect (cl w sptr)" "IsAnOper (cl w sptr)" "users (ch w x) = 0" "x \<in> set (chan_list w)" "chan_inv w"
  shows "count_chan (set_channel_mode sptr sptr x [''-jj''] w) = count_chan w - 2 \<and>
    chan_list (set_channel_mode sptr sptr x [''-jj''] w) = remove1 x (chan_list w) \<and>
    \<not> chan_inv (set_channel_mode sptr sptr x [''-jj''] w)"
proof -
  define e where "e = mode_env sptr sptr x w"
  define s0 where "s0 = (smode_init [] w)\<lparr>sm_whatt := MODE_DEL, sm_plus := CHR ''-''\<rparr>"
  define s1 where "s1 = mode_char e CHR ''j'' s0"
  define s2 where "s2 = mode_char e CHR ''j'' s1"
  have e: "e_sptr e = sptr" "e_chan e = x" by (simp_all add: e_def mode_env_def Let_def)
  have s0: "sm_w s0 = w" "sm_whatt s0 = MODE_DEL" "sm_args s0 = []" "sm_mbuf s0 = []" "sm_mbuf_new s0 = []"
    "sm_mbuf_new2 s0 = []" by (simp_all add: s0_def smode_init_def)
  have 1: "count_chan (sm_w s1) = count_chan w - 1" "chan_list (sm_w s1) = remove1 x (chan_list w)"
    "users (ch (sm_w s1) x) = 0" "umodes (cl (sm_w s1) sptr) = umodes (cl w sptr)"
    "local_flag (cl (sm_w s1) sptr) = local_flag (cl w sptr)"
    "sm_whatt s1 = MODE_DEL" "sm_args s1 = []" "sm_mbuf s1 = []" "sm_mbuf_new s1 = []" "sm_mbuf_new2 s1 = []"
    using unjupe_step [of s0 e] assms(1-3) s0 e by (simp_all add: s1_def)
  have o1: "MyConnect (cl (sm_w s1) sptr)" "IsAnOper (cl (sm_w s1) sptr)"
    using assms(1,2) 1 by (simp_all add: MyConnect_def IsAnOper_def)
  have d: "distinct (chan_list w)" using assms(5) by (simp add: chan_inv_def table_ok_def)
  have 2: "count_chan (sm_w s2) = count_chan w - 2" "chan_list (sm_w s2) = remove1 x (chan_list w)"
    "sm_args s2 = []" "sm_mbuf s2 = []" "sm_mbuf_new s2 = []" "sm_mbuf_new2 s2 = []"
    using unjupe_step [of s1 e] 1 o1 e d by (simp_all add: s2_def remove1_idem)
  have "mode_loop e ''-jj'' (smode_init [] w) = s2"
    using 2(3) by (simp add: s2_def s1_def s0_def mode_char_def [of e "CHR ''-''"])
  moreover have "finish_modes e s2 = sm_w s2"
    using 2 by (simp add: finish_modes_def send_modes_def collapse_signs_def)
  ultimately have r: "set_channel_mode sptr sptr x [''-jj''] w = sm_w s2"
    by (simp add: set_channel_mode_def e_def)
  have "int (length (remove1 x (chan_list w))) = count_chan w - 1"
    using assms(4,5) length_remove1_int [of x "chan_list w"] by (simp add: chan_inv_def table_ok_def)
  then have "\<not> chan_inv (sm_w s2)"
    using 2 by (simp add: chan_inv_def table_ok_def)
  then show ?thesis using 2 r by simp
qed

theorem unjupe_twice_witness:
  "\<exists>w. chan_inv w \<and> juped (ch w 0) \<and> count_chan (set_channel_mode 15 15 0 [''-jj''] w) = count_chan w - 2"
proof -
  have "MyConnect (cl demo1 15)" "IsAnOper (cl demo1 15)"
    by (simp_all add: demo1_simps demo0_def MyConnect_def IsAnOper_def has_flag_def FLAGS_OPER_def FLAGS_LOCOP_def FLAGS_SERVNOTICE_def)
  moreover have "users (ch demo1 0) = 0" "0 \<in> set (chan_list demo1)"
    by (simp_all add: demo1_simps zero_channel_def)
  moreover note inv = set_mode_inv(4) [OF demo1_inv, of 0 True]
  ultimately show ?thesis using unjupe_twice [OF _ _ _ _ inv, of 15 0] inv by (intro exI conjI) auto
qed

section \<open>Giving op\<close>

lemma find_upd_member:
  "find (\<lambda>m. m_client m = d) (upd_member c f ms) =
     (if d = c then map_option (\<lambda>m. m\<lparr>m_flags := f (m_flags m)\<rparr>) (find (\<lambda>m. m_client m = d) ms)
      else find (\<lambda>m. m_client m = d) ms)"
  by (induction ms) auto

lemma op_bits:
  "has_flag (((fl OR ((MODE_CHANOP OR MODE_ADD) AND MODE_FLAGS)) AND NOT MODE_DEOPPED)) CHFL_CHANOP"
  "\<not> has_flag (((fl OR ((MODE_CHANOP OR MODE_ADD) AND MODE_FLAGS)) AND NOT MODE_DEOPPED)) CHFL_DEOPPED"
  "has_flag (MODE_CHANOP OR MODE_ADD) MODE_ADD" "has_flag (MODE_CHANOP OR MODE_ADD) MODE_CHANOP"
  by (simp_all add: has_flag_def chfl_defs mode_defs bit.conj_disj_distrib2 and.assoc)

lemma change_chan_flag_op:
  assumes "find_user_link (members (ch w x)) who \<noteq> None"
  shows "is_chan_op who (ch (change_chan_flag x who (MODE_CHANOP OR MODE_ADD) w) x)"
    "\<not> is_deopped who (ch (change_chan_flag x who (MODE_CHANOP OR MODE_ADD) w) x)"
    "d \<noteq> who \<Longrightarrow> user_channel_mode d (ch (change_chan_flag x who fl w) x) = user_channel_mode d (ch w x)"
  using assms op_bits
  by (auto simp: is_chan_op_def is_deopped_def user_channel_mode_def change_chan_flag_def find_user_link_def
      find_upd_member Let_def split: option.split)

text \<open>C16 (giving op).
  When a local user with op on the channel says \<open>MODE #chan +o nick\<close> for another member, that
  member gets op and loses the deopped mark, nobody else's flags change, and exactly one
  line goes to each local member and to each linked server (none for a local channel).\<close>

theorem op_given:
  assumes "MyClient (cl w sptr)" "is_chan_op sptr (ch w x)" "IsMember w sptr x"
    "find_client w nick None = Some who" "user (cl w who) \<noteq> None" "IsMember w who x" "who \<noteq> sptr"
    "find_user_link (members (ch w x)) who \<noteq> None"
    "nick \<noteq> []" "list_all (\<lambda>c. \<not> IsSpace c) nick" "length nick + 2 < MODEBUFLEN"
  defines "w' \<equiv> set_channel_mode sptr sptr x [''+o'', nick] w"
    and "a \<equiv> [Str (name (cl w sptr)), Str (chname (ch w x)), Str ''+o'', Str (name (cl w who) @ '' '')]"
  shows "is_chan_op who (ch w' x) \<and> \<not> is_deopped who (ch w' x) \<and>
    (\<forall>d. d \<noteq> who \<longrightarrow> user_channel_mode d (ch w' x) = user_channel_mode d (ch w x)) \<and>
    outl w' = outl w @ map (\<lambda>c. Prefix c sptr (Fmt '':%s MODE %s %s %s'') a) (local_members w x) @
      map (\<lambda>s. One s (Fmt '':%s MODE %s %s %s'') a) (match_servs w (Some x) sptr)"
proof -
  define e where "e = mode_env sptr sptr x w"
  define s0 where "s0 = smode_init [nick] w"
  define w1 where "w1 = change_chan_flag x who (MODE_CHANOP OR MODE_ADD) w"
  have e: "e_sptr e = sptr" "e_chan e = x" "e_cptr e = sptr" "e_isok e" "\<not> e_isdeop e"
    using assms(2) by (simp_all add: e_def mode_env_def Let_def is_chan_op_def)
  have s0: "sm_w s0 = w" "sm_whatt s0 = MODE_ADD" "sm_plus s0 = CHR ''+''" "sm_args s0 = [nick]" "sm_opcnt s0 = 0"
    "sm_len s0 = 0" "s0\<lparr>sm_whatt := MODE_ADD, sm_plus := CHR ''+''\<rparr> = s0"
    "sm_mbuf s0 = []" "sm_pbuf s0 = []" "sm_mbuf_new s0 = []" "sm_mbuf_new2 s0 = []"
    by (simp_all add: s0_def smode_init_def)
  have arg: "check_string (Some nick) = nick"
    using assms(9,10) by (simp add: check_string_def BadPtr_def takeWhile_eq_all_conv list_all_iff)
  have srv: "\<not> IsServer (cl w sptr)"
    using assms(1) by (simp add: MyClient_def IsClient_def IsServer_def STAT_CLIENT_def STAT_SERVER_def)
  have f: "find_chasing sptr nick w = (Some who, False, w)" using assms(4) by (simp add: find_chasing_def)
  have m: "mine e s0" using assms(1) s0 e by (simp add: mine_def)
  let ?s = "((push_mode ''+o'' (name (cl w who) @ '' '') (length nick + 1) (s0\<lparr>sm_args := []\<rparr>))\<lparr>sm_opcnt := 1\<rparr>)\<lparr>sm_w := w1\<rparr>"
  obtain u where u: "user (cl w who) = Some u" using assms(5) by blast
  have "mode_char e CHR ''o'' s0 = ?s"
    using assms(3,6,7,11) m srv
    by (simp add: mode_char_def mode_ov_def mode_ov_apply_def s0 e u arg f Let_def mode_defs MAXMODEPARAMS_def w1_def push_mode_def)
  then have l: "mode_loop e ''+o'' s0 = ?s"
    by (simp add: mode_char_def [of e "CHR ''+''"] s0(7) push_mode_def)
  have "w' = finish_modes e (mode_loop e ''+o'' s0)"
    unfolding w'_def set_channel_mode_def Let_def e_def s0_def by simp
  then have w': "w' = finish_modes e ?s" by (simp only: l)
  have lm: "local_members w1 x = local_members w x"
    by (simp add: local_members_def w1_def change_chan_flag_def)
  have ms: "match_servs w1 (Some x) sptr = match_servs w (Some x) sptr"
    by (simp add: match_servs_def chan_is_local_def w1_def change_chan_flag_def)
  have "w' = sendto_match_servs (Some x) sptr (Fmt '':%s MODE %s %s %s'') a
      (sendto_channel_butserv x sptr (Fmt '':%s MODE %s %s %s'') a w1)"
    unfolding w' finish_modes_def send_modes_def mode_args_def Let_def a_def
    by (simp add: push_mode_def s0 e collapse_signs_def is_sign_def w1_def change_chan_flag_def)
  then have "ch w' x = ch w1 x"
    "outl w' = outl w1 @ map (\<lambda>c. Prefix c sptr (Fmt '':%s MODE %s %s %s'') a) (local_members w1 x) @
      map (\<lambda>s. One s (Fmt '':%s MODE %s %s %s'') a) (match_servs w1 (Some x) sptr)"
    by (simp_all add: send_defs match_servs_def chan_is_local_def)
  moreover have "outl w1 = outl w" by (simp add: w1_def change_chan_flag_def)
  ultimately show ?thesis
    using change_chan_flag_op [of w x who] assms(8) lm ms by (simp add: w1_def)
qed

theorem op_given_witness: "is_chan_op 12 (ch (set_channel_mode 11 11 0 [''+o'', ''bob''] demo) 0)"
proof -
  have "\<not> IsSpace CHR ''b''" "\<not> IsSpace CHR ''o''" by code_simp+
  moreover have "is_chan_op 11 (ch demo 0)"
    by (simp add: is_chan_op_def user_channel_mode_def find_user_link_def demo_members has_flag_def CHFL_CHANOP_def)
  moreover have "MyClient (cl demo 11)" by (simp add: demo_cl MyClient_def MyConnect_def IsClient_def)
  ultimately show ?thesis
    using op_given [of demo 11 0 "''bob''" 12]
    by (simp add: demo_find_nick demo_cl IsMember_def u_chans_def demo_members find_user_link_def MODEBUFLEN_def)
qed

section \<open>Where the buffers are too small\<close>

text \<open>
  \<open>alice\<close> has op on a channel with a key of full length.  Her bans are counted with their length,
  the key removed by \<open>-k *\<close> as one byte.
\<close>

definition full_key :: world where
  "full_key = boot\<lparr>clients := (clients boot)
       (11 := (local_user 11 ''alice'')\<lparr>user := Some (fresh_user\<lparr>u_channel := [0]\<rparr>)\<rparr>,
        13 := zero_client\<lparr>name := ''hub.example.net'', status := STAT_SERVER, local_flag := True, fd := 13, cfrom := 13\<rparr>),
     chans := (\<lambda>_. zero_channel)
       (0 := zero_channel\<lparr>chname := ''#c'', mode := \<lparr>modes = 0, limit = 0, key = replicate KEYLEN CHR ''k''\<rparr>,
               users := 1, members := [\<lparr>m_client = 11, m_flags = CHFL_CHANOP\<rparr>]\<rparr>)\<rparr>"

definition long_mask :: "char \<Rightarrow> cstr" where
  "long_mask c = replicate 9 c @ ''!'' @ replicate 10 c @ ''@'' @ replicate 63 c"

lemma remote_letters:
  assumes "e_isok e" "\<not> mine e st" "sm_len st + 2 * n < MODEBUFLEN" "sm_args st = []" "\<not> sm_limitset st"
    "sm_whatt st = MODE_ADD"
  shows "length (sm_mbuf (mode_loop e (replicate n CHR ''m'' @ ''-l'') st)) = length (sm_mbuf st) + 2 * n + 2"
  using assms(2-6)
proof (induction n arbitrary: st)
  case 0
  then show ?case
    using assms(1) by (simp add: mode_char_def mode_l_def push_mode_def mode_defs Let_def)
next
  case (Suc n)
  let ?s = "mode_char e CHR ''m'' st"
  have "sm_len ?s = sm_len st + 2" "sm_args ?s = []" "\<not> sm_limitset ?s" "sm_whatt ?s = MODE_ADD"
    "length (sm_mbuf ?s) = length (sm_mbuf st) + 2"
    using Suc.prems assms(1) by (simp_all add: mode_char_def mode_m_def mode_flag_with_def push_mode_def Let_def)
  then show ?case using Suc.IH [of ?s] Suc.prems mine_char [of e "CHR ''m''" st] by simp
qed

text \<open>The pass after three of her bans, with \<open>*\<close> still to read.\<close>

definition after_bans :: smode where
  "after_bans =
     (let e = mode_env 11 11 0 full_key;
          st = smode_init [long_mask CHR ''a'', long_mask CHR ''b'', ''c!u@'' @ replicate 20 CHR ''h'', ''*''] full_key
      in mode_char e CHR ''b'' (mode_char e CHR ''b'' (mode_char e CHR ''b'' (mode_char e CHR ''+'' st))))"

definition pass_view :: "smode \<Rightarrow> cstr list \<times> bool \<times> nat \<times> nat \<times> nat" where
  "pass_view st = (sm_args st, sm_keychange st, sm_len st, length (sm_pbuf st), length (key (mode (ch (sm_w st) 0))))"

lemma bans_view: "pass_view after_bans = ([''*''], False, 195, 195, 23)"
  by code_simp

lemma server_source: "IsServer (cl w sptr) \<Longrightarrow> e_isok (mode_env cptr sptr x w) \<and> \<not> mine (mode_env cptr sptr x w) (smode_init as w)"
  by (simp add: mode_env_def mine_def smode_init_def MyClient_def IsClient_def IsServer_def STAT_CLIENT_def STAT_SERVER_def Let_def)

lemma star_key: "check_string (Some ''*'') = ''*''"
  by code_simp

lemma key_removed:
  assumes "e_isok e" "sm_args st = [''*'']" "\<not> sm_keychange st" "sm_len st + 3 < MODEBUFLEN"
  shows "sm_pbuf (mode_loop e ''-k'' st) = sm_pbuf st @ key (mode (ch (sm_w st) (e_chan e))) @ '' ''"
    "sm_len (mode_loop e ''-k'' st) = sm_len st + 2"
  using assms by (simp_all add: mode_char_def mode_k_def mode_k_arg_def mode_k_apply_def push_mode_def star_key Let_def mode_defs KEYLEN_def)

text \<open>The mode buffers can be overrun. \<open>parabuf\<close> and \<open>modebuf\<close> have \<open>MODEBUFLEN\<close> bytes, guarded by the counter \<open>len\<close>.  Whenever a pass with
  the right to change modes comes to \<open>-k *\<close>, wherever the counter still leaves room for the one byte
  \<open>*\<close>, it copies the whole key of the channel to \<open>parabuf\<close> and counts two bytes: what was copied runs
  past the buffer as soon as the key is longer than the room left.  And \<open>-l\<close> is written without any
  test: from a server, on every channel, 99 flags and \<open>-l\<close> fill \<open>modebuf\<close> to its last byte, so that the
  terminating NUL lands behind it.\<close>

theorem mode_buffers_overflow:
  assumes "e_isok e" "sm_args st = [''*'']" "\<not> sm_keychange st" "sm_len st + 3 < MODEBUFLEN" "IsServer (cl w sptr)"
  shows "sm_len (mode_loop e ''-k'' st) = sm_len st + 2 \<and>
    length (sm_pbuf (mode_loop e ''-k'' st)) = length (sm_pbuf st) + length (key (mode (ch (sm_w st) (e_chan e)))) + 1 \<and>
    (MODEBUFLEN \<le> length (sm_pbuf st) + length (key (mode (ch (sm_w st) (e_chan e)))) \<longrightarrow>
       MODEBUFLEN < length (sm_pbuf (mode_loop e ''-k'' st))) \<and>
    length (sm_mbuf (mode_loop (mode_env cptr sptr x w) (replicate 99 CHR ''m'' @ ''-l'') (smode_init [] w))) = MODEBUFLEN"
  using key_removed [OF assms(1-4)] server_source [OF assms(5), of cptr x "[]"]
    remote_letters [of "mode_env cptr sptr x w" "smode_init [] w" 99]
  by (simp add: smode_init_def MODEBUFLEN_def)

text \<open>A local user with op gets there: three bans are counted with their length and leave room for \<open>*\<close>.\<close>

theorem mode_buffers_overflow_witness:
  "MyClient (cl full_key 11) \<and> is_chan_op 11 (ch full_key 0) \<and>
   MODEBUFLEN < length (sm_pbuf (mode_loop (mode_env 11 11 0 full_key) ''+bbb-k''
     (smode_init [long_mask CHR ''a'', long_mask CHR ''b'', ''c!u@'' @ replicate 20 CHR ''h'', ''*''] full_key)))"
proof (intro conjI)
  let ?e = "mode_env 11 11 0 full_key"
  show "MyClient (cl full_key 11)" "is_chan_op 11 (ch full_key 0)" by code_simp+
  have e: "e_isok ?e" "e_chan ?e = 0" "IsServer (cl full_key 13)" by code_simp+
  have st: "sm_args after_bans = [''*'']" "\<not> sm_keychange after_bans" "sm_len after_bans + 3 < MODEBUFLEN"
    "MODEBUFLEN \<le> length (sm_pbuf after_bans) + length (key (mode (ch (sm_w after_bans) 0)))"
    using bans_view by (simp_all add: pass_view_def MODEBUFLEN_def)
  have "mode_loop ?e ''+bbb-k'' (smode_init [long_mask CHR ''a'', long_mask CHR ''b'', ''c!u@'' @ replicate 20 CHR ''h'', ''*''] full_key) =
      mode_loop ?e ''-k'' after_bans" by (simp only: mode_loop.simps(2) after_bans_def Let_def)
  then show "MODEBUFLEN < length (sm_pbuf (mode_loop ?e ''+bbb-k''
      (smode_init [long_mask CHR ''a'', long_mask CHR ''b'', ''c!u@'' @ replicate 20 CHR ''h'', ''*''] full_key)))"
    using mode_buffers_overflow [OF e(1) st(1-3) e(3), of 13 0] st(4) e(2) by simp
qed

section \<open>Signs\<close>

text \<open>Collapsing signs keeps the meaning. \<open>collapse_signs\<close> drops exactly the redundant signs: each mode letter keeps the sign in force,
  no sign is repeated, and the result, a rewrite in place, is never longer.\<close>

theorem collapse_signs_meaning:
  assumes "cstring s"
  shows "signed_modes NUL (collapse_signs s) = signed_modes NUL s \<and> signs_alternate NUL (collapse_signs s) \<and>
    length (collapse_signs s) \<le> length s"
  using assms collapse_signs_from_meaning collapse_signs_from_alternate length_collapse_signs
  by (simp add: collapse_signs_def)

theorem collapse_signs_meaning_witness:
  "signed_modes NUL (collapse_signs ''+o+o-v-n'') = signed_modes NUL ''+o+o-v-n'' \<and> collapse_signs ''+o+o-v-n'' = ''+oo-vn''"
  using collapse_signs_meaning [of "''+o+o-v-n''"] by (simp add: collapse_signs_def is_sign_def)

end
