(* ===== verification/UMode.thy ===== *)
theory UMode
  imports Channel
begin

text \<open>
  User modes: \<open>user_mode\<close>, \<open>send_umode\<close> and \<open>send_umode_out\<close> of \<open>src/s_user.c\<close>.  \<open>parv\<close> is the list
  of parameters, \<open>parc\<close> its length; a parameter past the end is a null pointer.  Releasing the
  operator's configuration block and the file descriptor lists is not modelled.
\<close>

section \<open>Flags\<close>

definition FLAGS_CCONN :: flags where "FLAGS_CCONN = 0x000002"
definition FLAGS_REJ :: flags where "FLAGS_REJ = 0x000004"
definition FLAGS_FULL :: flags where "FLAGS_FULL = 0x000010"
definition FLAGS_DEBUG :: flags where "FLAGS_DEBUG = 0x000040"
definition FLAGS_NCHANGE :: flags where "FLAGS_NCHANGE = 0x000080"
definition FLAGS_WALLOP :: flags where "FLAGS_WALLOP = 0x000100"
definition FLAGS_OPERWALL :: flags where "FLAGS_OPERWALL = 0x000200"
definition FLAGS_EXTERNAL :: flags where "FLAGS_EXTERNAL = 0x001000"
definition FLAGS_STATSPHIDE :: flags where "FLAGS_STATSPHIDE = 0x010000"
definition FLAGS_ADMIN :: flags where "FLAGS_ADMIN = 0x020000"
definition FLAGS_OSPYLOG :: flags where "FLAGS_OSPYLOG = 0x040000"
definition FLAGS_UNIDLE :: flags where "FLAGS_UNIDLE = 0x080000"
definition FLAGS_LOCOPS :: flags where "FLAGS_LOCOPS = 0x100000"

definition FLAGS2_OPER_N :: flags where "FLAGS2_OPER_N = 0x00200"
definition FLAGS2_OPER_STATSPHIDE :: flags where "FLAGS2_OPER_STATSPHIDE = 0x0800000"
definition FLAGS2_OPER_ADMIN :: flags where "FLAGS2_OPER_ADMIN = 0x1000000"
definition FLAGS2_OPER_OSPYLOG :: flags where "FLAGS2_OPER_OSPYLOG = 0x4000000"
definition FLAGS2_OPER_UNIDLE :: flags where "FLAGS2_OPER_UNIDLE = 0x8000000"
definition FLAGS2_OPER_FLAGS :: flags where
  "FLAGS2_OPER_FLAGS = 0x00020 OR 0x00040 OR 0x00080 OR 0x00100 OR FLAGS2_OPER_N OR 0x00400 OR 0x00800 OR
     0x01000 OR FLAGS2_OPER_STATSPHIDE OR FLAGS2_OPER_ADMIN OR 0x2000000 OR FLAGS2_OPER_OSPYLOG OR FLAGS2_OPER_UNIDLE"

lemmas umode_flag_defs = FLAGS_CCONN_def FLAGS_REJ_def FLAGS_FULL_def FLAGS_DEBUG_def FLAGS_NCHANGE_def
  FLAGS_WALLOP_def FLAGS_OPERWALL_def FLAGS_EXTERNAL_def FLAGS_STATSPHIDE_def FLAGS_ADMIN_def FLAGS_OSPYLOG_def
  FLAGS_UNIDLE_def FLAGS_LOCOPS_def FLAGS_SERVNOTICE_def FLAGS_SKILL_def FLAGS_SPY_def FLAGS_INVISIBLE_def
  FLAGS_BOTS_def FLAGS_OPER_def FLAGS_LOCOP_def

definition SEND_UMODES :: flags where "SEND_UMODES = FLAGS_INVISIBLE OR FLAGS_OPER OR FLAGS_WALLOP"
definition ALL_UMODES :: flags where
  "ALL_UMODES = SEND_UMODES OR FLAGS_SERVNOTICE OR FLAGS_CCONN OR FLAGS_REJ OR FLAGS_SKILL OR FLAGS_FULL OR
     FLAGS_SPY OR FLAGS_NCHANGE OR FLAGS_OPERWALL OR FLAGS_DEBUG OR FLAGS_BOTS OR FLAGS_EXTERNAL OR
     FLAGS_LOCOP OR FLAGS_STATSPHIDE OR FLAGS_ADMIN OR FLAGS_OSPYLOG OR FLAGS_UNIDLE OR FLAGS_LOCOPS"

definition SendWallops :: "client \<Rightarrow> bool" where
  "SendWallops c = (has_flag (umodes c) FLAGS_WALLOP \<and> IsAnOper c)"

definition user_modes :: "(flags \<times> char) list" where
  "user_modes = [(FLAGS_ADMIN, CHR ''a''), (FLAGS_BOTS, CHR ''b''), (FLAGS_CCONN, CHR ''c''), (FLAGS_DEBUG, CHR ''d''),
     (FLAGS_FULL, CHR ''f''), (FLAGS_INVISIBLE, CHR ''i''), (FLAGS_SKILL, CHR ''k''), (FLAGS_LOCOPS, CHR ''l''),
     (FLAGS_NCHANGE, CHR ''n''), (FLAGS_OPER, CHR ''o''), (FLAGS_LOCOP, CHR ''O''), (FLAGS_STATSPHIDE, CHR ''p''),
     (FLAGS_REJ, CHR ''r''), (FLAGS_SERVNOTICE, CHR ''s''), (FLAGS_UNIDLE, CHR ''u''), (FLAGS_WALLOP, CHR ''w''),
     (FLAGS_EXTERNAL, CHR ''x''), (FLAGS_SPY, CHR ''y''), (FLAGS_OPERWALL, CHR ''z''), (FLAGS_OSPYLOG, CHR ''Z'')]"

definition user_modes_from_c_to_bitmask :: "flags list" where
  "user_modes_from_c_to_bitmask =
     replicate 64 0 @ replicate 15 0 @ [FLAGS_LOCOP] @ replicate 10 0 @ [FLAGS_OSPYLOG] @ replicate 5 0 @
     [0, FLAGS_ADMIN, FLAGS_BOTS, FLAGS_CCONN, FLAGS_DEBUG, 0, FLAGS_FULL, 0, 0, FLAGS_INVISIBLE, 0, FLAGS_SKILL,
      FLAGS_LOCOPS, 0, FLAGS_NCHANGE, FLAGS_OPER, FLAGS_STATSPHIDE, 0, FLAGS_REJ, FLAGS_SERVNOTICE, 0,
      FLAGS_UNIDLE, 0, FLAGS_WALLOP, FLAGS_EXTERNAL, FLAGS_SPY, FLAGS_OPERWALL] @ replicate 5 0 @ replicate 128 0"

section \<open>Sending\<close>


text \<open>\<open>sendto_ops_butone\<close>: once for each connection with operators behind it, whose socket is \<open>fd\<close>.\<close>

fun ops_links :: "world \<Rightarrow> cid option \<Rightarrow> int list \<Rightarrow> cid list \<Rightarrow> cid list" where
  "ops_links w one sent [] = []"
| "ops_links w one sent (c # cs) =
     (let l = cfrom (cl w c) in
      if \<not> SendWallops (cl w c) \<or> fd (cl w l) \<in> set sent \<or> one = Some l then ops_links w one sent cs
      else l # ops_links w one (fd (cl w l) # sent) cs)"

definition sendto_ops_butone :: "cid option \<Rightarrow> cid \<Rightarrow> fmt \<Rightarrow> arg list \<Rightarrow> world \<Rightarrow> world" where
  [send_defs]: "sendto_ops_butone one frm f args w =
     log_out (map (\<lambda>l. Prefix l frm f args) (ops_links w one [] (client_list w))) w"

text \<open>The text \<open>send_umode\<close> builds for the change from \<open>old\<close> to \<open>new\<close>.\<close>

fun umode_text :: "bool \<Rightarrow> flags \<Rightarrow> flags \<Rightarrow> flags \<Rightarrow> (flags \<times> char) list \<Rightarrow> flags \<Rightarrow> cstr" where
  "umode_text mine msk old new [] what = []"
| "umode_text mine msk old new ((fl, c) # ms) what =
     (if mine \<and> \<not> has_flag fl msk then umode_text mine msk old new ms what
      else if has_flag fl old \<and> \<not> has_flag new fl then
        (if what = MODE_DEL then [c] else [CHR ''-'', c]) @ umode_text mine msk old new ms MODE_DEL
      else if \<not> has_flag fl old \<and> has_flag new fl then
        (if what = MODE_ADD then [c] else [CHR ''+'', c]) @ umode_text mine msk old new ms MODE_ADD
      else umode_text mine msk old new ms what)"

definition send_umode :: "cid option \<Rightarrow> cid \<Rightarrow> flags \<Rightarrow> flags \<Rightarrow> world \<Rightarrow> cstr \<times> world" where
  "send_umode cptr sptr old sendmask w =
     (let s = cl w sptr; t = umode_text (MyClient s) sendmask old (umodes s) user_modes 0 in
      (t, case cptr of
            Some c \<Rightarrow> if t \<noteq> [] then sendto_one c (Fmt '':%s MODE %s :%s'') [Str (name s), Str (name s), Str t] w else w
          | None \<Rightarrow> w))"

definition send_umode_out :: "cid \<Rightarrow> cid \<Rightarrow> flags \<Rightarrow> world \<Rightarrow> world" where
  "send_umode_out cptr sptr old w =
     (let s = cl w sptr; (t, w1) = send_umode None sptr old SEND_UMODES w;
          w2 = log_out (map (\<lambda>a. One a (Fmt '':%s MODE %s :%s'') [Str (name s), Str (name s), Str t])
                 (filter (\<lambda>a. a \<noteq> cptr \<and> a \<noteq> sptr \<and> t \<noteq> []) (serv_list w1))) w1
      in if MyClient (cl w2 cptr) then snd (send_umode (Some cptr) sptr old ALL_UMODES w2) else w2)"

section \<open>\<open>user_mode\<close>\<close>

definition upd_umodes :: "cid \<Rightarrow> (flags \<Rightarrow> flags) \<Rightarrow> world \<Rightarrow> world" where
  "upd_umodes c f w = upd_cl c (\<lambda>k. k\<lparr>umodes := f (umodes k)\<rparr>) w"

definition umode_oper :: "cid \<Rightarrow> cid \<Rightarrow> flags \<Rightarrow> world \<Rightarrow> world" where
  "umode_oper cptr sptr what w =
     (if what = MODE_ADD then
        (if IsServer (cl w cptr) \<and> \<not> IsOper (cl w sptr)
         then upd_umodes sptr (\<lambda>m. m OR FLAGS_OPER) (w\<lparr>count_oper := count_oper w + 1\<rparr>) else w)
      else if \<not> IsAnOper (cl w sptr) then w
      else
        let w1 = upd_umodes sptr (\<lambda>m. m AND NOT (FLAGS_OPER OR FLAGS_LOCOP OR FLAGS_STATSPHIDE OR FLAGS_OSPYLOG OR
                   FLAGS_UNIDLE OR FLAGS_ADMIN)) (w\<lparr>count_oper := count_oper w - 1\<rparr>)
        in if MyConnect (cl w1 sptr)
           then upd_cl sptr (\<lambda>k. k\<lparr>flags2 := flags2 k AND NOT FLAGS2_OPER_FLAGS\<rparr>)
                  (w1\<lparr>oper_list := remove1 sptr (oper_list w1)\<rparr>)
           else w1)"

text \<open>One letter; the direction, whether a bad letter was seen, and the state.\<close>

definition umode_char :: "cid \<Rightarrow> cid \<Rightarrow> char \<Rightarrow> flags \<times> bool \<times> world \<Rightarrow> flags \<times> bool \<times> world" where
  "umode_char cptr sptr c st =
     (case st of (what, bad, w) \<Rightarrow>
        if c = CHR ''+'' then (MODE_ADD, bad, w)
        else if c = CHR ''-'' then (MODE_DEL, bad, w)
        else if c = CHR ''O'' \<or> c = CHR ''o'' then (what, bad, umode_oper cptr sptr what w)
        else if code c \<in> {32, 10, 13, 9} then (what, bad, w)
        else
          let flag = user_modes_from_c_to_bitmask ! code c in
          if flag \<noteq> 0 then
            (what, bad, upd_umodes sptr (\<lambda>m. if what = MODE_ADD then m OR flag else m AND NOT flag) w)
          else (what, bad \<or> MyConnect (cl w sptr), w))"

text \<open>A flag that needs an operator privilege is taken back, with a notice.\<close>

definition umode_deny :: "cid \<Rightarrow> cstr \<Rightarrow> flags \<Rightarrow> flags \<Rightarrow> bool \<Rightarrow> cstr \<Rightarrow> world \<Rightarrow> world" where
  "umode_deny sptr p0 fl priv remote_too txt w =
     (let s = cl w sptr in
      if has_flag (umodes s) fl \<and> \<not> has_flag (flags2 s) priv \<and> (remote_too \<or> MyConnect s)
      then upd_umodes sptr (\<lambda>m. m AND NOT fl) (sendto_one sptr (Fmt txt) [me_name w, Str p0] w)
      else w)"

definition count_invisible :: "cid \<Rightarrow> flags \<Rightarrow> world \<Rightarrow> world" where
  "count_invisible sptr old w =
     (let new = IsInvisible (cl w sptr); was = has_flag old FLAGS_INVISIBLE in
      w\<lparr>count_invisi := count_invisi w + (if \<not> was \<and> new then 1 else 0) - (if was \<and> \<not> new then 1 else 0)\<rparr>)"

definition user_mode :: "cid \<Rightarrow> cid \<Rightarrow> cstr list \<Rightarrow> world \<Rightarrow> world" where
  "user_mode cptr sptr parv w =
     (let p0 = parv ! 0; s = cl w sptr in
      if length parv < 2
      then sendto_one sptr (form_str ERR_NEEDMOREPARAMS) [me_name w, Str p0, Str ''MODE''] w
      else case find_person w (parv ! 1) None of
        None \<Rightarrow> if MyConnect s then sendto_one sptr (form_str ERR_NOSUCHCHANNEL) [me_name w, Str p0, Str (parv ! 1)] w else w
      | Some acptr \<Rightarrow>
          if IsServer s \<or> sptr \<noteq> acptr \<or> cfrom (cl w acptr) \<noteq> cfrom s then
            (if IsServer (cl w cptr)
             then sendto_ops_butone None (me w) (Fmt '':%s WALLOPS :MODE for User %s From %s!%s'')
                    [me_name w, Str (parv ! 1), Str (name (cl w cptr)), Str (name s)] w
             else sendto_one sptr (form_str ERR_USERSDONTMATCH) [me_name w, Str p0] w)
          else if length parv < 3
          then sendto_one sptr (form_str RPL_UMODEIS)
                 [me_name w, Str p0, Str (CHR ''+'' # map snd (filter (\<lambda>(fl, c). has_flag (umodes s) fl) user_modes))] w
          else
            let setflags = umodes s;
                (_, bad, w1) = fold (umode_char cptr sptr) (concat (drop 2 parv)) (MODE_ADD, False, w);
                w2 = (if bad then sendto_one sptr (form_str ERR_UMODEUNKNOWNFLAG) [me_name w1, Str p0] w1 else w1);
                w3 = umode_deny sptr p0 FLAGS_NCHANGE FLAGS2_OPER_N True '':%s NOTICE %s :*** You need oper and N flag for +n'' w2;
                w4 = umode_deny sptr p0 FLAGS_ADMIN FLAGS2_OPER_ADMIN False '':%s NOTICE %s :*** You need oper and A flag for +a'' w3;
                w5 = umode_deny sptr p0 FLAGS_OSPYLOG FLAGS2_OPER_OSPYLOG False '':%s NOTICE %s :*** You need oper and Z flag for +Z'' w4;
                w6 = umode_deny sptr p0 FLAGS_STATSPHIDE FLAGS2_OPER_STATSPHIDE False '':%s NOTICE %s :*** You need oper and P flag for +p'' w5;
                w7 = umode_deny sptr p0 FLAGS_UNIDLE FLAGS2_OPER_UNIDLE False '':%s NOTICE %s :*** You need oper and I flag for +u'' w6
            in send_umode_out cptr sptr setflags (count_invisible sptr setflags w7))"

section \<open>What a pass keeps\<close>

lemma upd_umodes_simps [simp]:
  "cl (upd_umodes s f w) c = (if c = s then (cl w s)\<lparr>umodes := f (umodes (cl w s))\<rparr> else cl w c)"
  "oper_list (upd_umodes s f w) = oper_list w" "me (upd_umodes s f w) = me w"
  "chans (upd_umodes s f w) = chans w"
  by (simp_all add: upd_umodes_def)

definition OPER_BITS :: flags where "OPER_BITS = FLAGS_OPER OR FLAGS_LOCOP"

lemma bitmask_length: "length user_modes_from_c_to_bitmask = 256"
  by (simp add: user_modes_from_c_to_bitmask_def)

lemma bitmask_no_oper:
  assumes "c \<noteq> CHR ''o''" "c \<noteq> CHR ''O''"
  shows "user_modes_from_c_to_bitmask ! code c AND OPER_BITS = 0"
proof -
  have "list_all (\<lambda>i. i = 79 \<or> i = 111 \<or> user_modes_from_c_to_bitmask ! i AND OPER_BITS = 0) [0..<256]"
    by code_simp
  then have "code c = 79 \<or> code c = 111 \<or> user_modes_from_c_to_bitmask ! code c AND OPER_BITS = 0"
    by (simp only: list_all_iff set_upt) simp
  moreover have "code c \<noteq> 79" "code c \<noteq> 111"
    using assms code_inj [of c "CHR ''O''"] code_inj [of c "CHR ''o''"] by (auto simp: code_def)
  ultimately show ?thesis by blast
qed

text \<open>Who is an operator, for a state reached from \<open>w0\<close> by a command of a client that is no server.\<close>

definition opers_within :: "world \<Rightarrow> cid \<Rightarrow> world \<Rightarrow> bool" where
  "opers_within w0 s w \<longleftrightarrow>
     (\<forall>c. c \<noteq> s \<longrightarrow> cl w c = cl w0 c) \<and> (IsAnOper (cl w s) \<longrightarrow> IsAnOper (cl w0 s)) \<and>
     status (cl w s) = status (cl w0 s)"

definition opers_listed :: "world \<Rightarrow> bool" where
  "opers_listed w \<longleftrightarrow> distinct (oper_list w) \<and> (\<forall>c \<in> set (oper_list w). IsAnOper (cl w c) \<and> MyConnect (cl w c))"

lemma IsAnOper_upd:
  "IsAnOper (k\<lparr>umodes := m\<rparr>) = has_flag m OPER_BITS" "IsAnOper (k\<lparr>flags2 := g\<rparr>) = IsAnOper k"
  by (simp_all add: IsAnOper_def OPER_BITS_def)

lemma IsAnOper_bits: "IsAnOper k = has_flag (umodes k) OPER_BITS"
  by (simp add: IsAnOper_def OPER_BITS_def)

lemma oper_cleared:
  "\<not> has_flag (m AND NOT (FLAGS_OPER OR FLAGS_LOCOP OR FLAGS_STATSPHIDE OR FLAGS_OSPYLOG OR FLAGS_UNIDLE OR FLAGS_ADMIN)) OPER_BITS"
  by (auto simp: has_flag_iff_bit OPER_BITS_def bit_and_iff bit_not_iff bit_or_iff)

lemma flag_or_other: "fl AND OPER_BITS = 0 \<Longrightarrow> has_flag (m OR fl) OPER_BITS = has_flag m OPER_BITS"
  by (auto simp: has_flag_or) (simp add: has_flag_def)

lemma flag_off_other: "fl AND OPER_BITS = 0 \<Longrightarrow> has_flag (m AND NOT fl) OPER_BITS = has_flag m OPER_BITS"
  using has_flag_andnot [of OPER_BITS fl m] by (simp add: and.commute)

text \<open>
  The steps \<open>user_mode\<close> is made of, as an interface: what they keep, a whole command keeps.
\<close>

locale umode_pass =
  fixes P :: "world \<Rightarrow> bool" and cptr sptr :: cid
  assumes oper: "P w \<Longrightarrow> P (umode_oper cptr sptr what w)"
    and flag_on: "P w \<Longrightarrow> fl AND OPER_BITS = 0 \<Longrightarrow> P (upd_umodes sptr (\<lambda>m. m OR fl) w)"
    and flag_off: "P w \<Longrightarrow> fl AND OPER_BITS = 0 \<Longrightarrow> P (upd_umodes sptr (\<lambda>m. m AND NOT fl) w)"
    and log: "P w \<Longrightarrow> P (log_out os w)"
    and invisible: "P w \<Longrightarrow> P (w\<lparr>count_invisi := n\<rparr>)"
begin

lemma letter: "P w \<Longrightarrow> P (snd (snd (umode_char cptr sptr c (what, bad, w))))"
  by (cases "what = MODE_ADD") (simp_all add: umode_char_def Let_def oper flag_on flag_off bitmask_no_oper)

lemma letters: "P (snd (snd st)) \<Longrightarrow> P (snd (snd (fold (umode_char cptr sptr) s st)))"
proof (induction s arbitrary: st)
  case (Cons c s)
  then show ?case using letter [of "snd (snd st)" c "fst st" "fst (snd st)"] by simp
qed simp

lemma deny: "P w \<Longrightarrow> fl AND OPER_BITS = 0 \<Longrightarrow> P (umode_deny sptr p0 fl pr r txt w)"
  by (simp add: umode_deny_def Let_def sendto_one_def flag_off log)

lemma count: "P w \<Longrightarrow> P (count_invisible sptr old w)"
  by (simp add: count_invisible_def Let_def invisible)

lemma deny_flags:
  "FLAGS_NCHANGE AND OPER_BITS = 0" "FLAGS_ADMIN AND OPER_BITS = 0" "FLAGS_OSPYLOG AND OPER_BITS = 0"
  "FLAGS_STATSPHIDE AND OPER_BITS = 0" "FLAGS_UNIDLE AND OPER_BITS = 0"
  by (simp_all add: OPER_BITS_def umode_flag_defs)

lemma out: "P w \<Longrightarrow> P (send_umode_out cptr sptr old w)"
  by (simp add: send_umode_out_def send_umode_def Let_def sendto_one_def log)

lemma whole:
  assumes "P w"
  shows "P (user_mode cptr sptr parv w)"
proof -
  let ?r = "fold (umode_char cptr sptr) (concat (drop 2 parv)) (MODE_ADD, False, w)"
  have "P (snd (snd ?r))" by (rule letters) (simp add: assms)
  moreover obtain d bad w1 where r: "?r = (d, bad, w1)" by (metis prod_cases3)
  ultimately have "P w1" by simp
  then have "P (if bad then sendto_one sptr f a w1 else w1)" for f a by (simp add: log sendto_one_def)
  with r show ?thesis
    by (simp add: user_mode_def Let_def sendto_one_def sendto_ops_butone_def deny_flags assms log out deny count
        split: option.split)
qed

end

lemma umode_oper_cl:
  "c \<noteq> s \<Longrightarrow> cl (umode_oper cptr s what w) c = cl w c"
  "status (cl (umode_oper cptr s what w) c) = status (cl w c)"
  "local_flag (cl (umode_oper cptr s what w) c) = local_flag (cl w c)"
  "user (cl (umode_oper cptr s what w) c) = user (cl w c)"
  by (simp_all add: umode_oper_def Let_def)

lemma umode_oper_down:
  "\<not> IsServer (cl w cptr) \<Longrightarrow> IsAnOper (cl (umode_oper cptr s what w) s) \<Longrightarrow> IsAnOper (cl w s)"
  by (auto simp: umode_oper_def Let_def IsAnOper_upd oper_cleared MyConnect_def split: if_splits)

interpretation within: umode_pass "\<lambda>w. opers_within w0 sptr w \<and> \<not> IsServer (cl w0 cptr)" cptr sptr for w0 cptr sptr
proof
  fix w what assume P: "opers_within w0 sptr w \<and> \<not> IsServer (cl w0 cptr)"
  then have "\<not> IsServer (cl w cptr)" unfolding opers_within_def IsServer_def by (cases "cptr = sptr") auto
  then show "opers_within w0 sptr (umode_oper cptr sptr what w) \<and> \<not> IsServer (cl w0 cptr)"
    using P umode_oper_down [of w cptr sptr what] by (auto simp: opers_within_def umode_oper_cl)
qed (auto simp: opers_within_def IsAnOper_upd IsAnOper_bits flag_or_other flag_off_other)

interpretation listed: umode_pass opers_listed cptr sptr for cptr sptr
proof
  fix w what assume "opers_listed w"
  then show "opers_listed (umode_oper cptr sptr what w)"
    by (auto simp: opers_listed_def umode_oper_def Let_def IsAnOper_upd IsAnOper_bits MyConnect_def has_flag_or
        distinct_remove1)
qed (auto simp: opers_listed_def IsAnOper_upd IsAnOper_bits flag_or_other flag_off_other MyConnect_def)

end
