(* ===== verification/UModeSpec.thy ===== *)
theory UModeSpec
  imports UMode Demo
begin

text \<open>
  What \<open>user_mode\<close> guarantees: nobody becomes an operator by the command, the list of local
  operators stays right, a flag that needs a privilege is only kept with it, and the text
  sent to the other servers carries the change.
\<close>

section \<open>Operators\<close>

text \<open>C19: a MODE command that does not come from a server makes nobody an operator, and it
  touches no client but its source.\<close>
theorem user_mode_no_oper:
  assumes "\<not> IsServer (cl w cptr)"
  shows "(\<forall>c. c \<noteq> sptr \<longrightarrow> cl (user_mode cptr sptr parv w) c = cl w c) \<and>
    (IsAnOper (cl (user_mode cptr sptr parv w) sptr) \<longrightarrow> IsAnOper (cl w sptr))"
proof -
  have "opers_within w sptr w \<and> \<not> IsServer (cl w cptr)" using assms by (simp add: opers_within_def)
  from within.whole [OF this, of parv] show ?thesis by (simp add: opers_within_def)
qed

theorem user_mode_no_oper_witness:
  "\<not> IsServer (cl demo0 11) \<and> \<not> IsAnOper (cl (user_mode 11 11 [''alice'', ''alice'', ''+oOw''] demo0) 11)"
proof -
  have "\<not> IsServer (cl demo0 11)" "\<not> IsAnOper (cl demo0 11)"
    by (simp_all add: demo0_cl IsServer_def STAT_CLIENT_def STAT_SERVER_def IsAnOper_def)
  then show ?thesis using user_mode_no_oper [of demo0 11 11] by blast
qed

text \<open>: the list \<open>oper_cptr_list\<close> holds local operators only, each once, and a MODE command
  keeps it so: who gives up the flag is unlinked.\<close>
theorem user_mode_oper_list:
  assumes "opers_listed w"
  shows "opers_listed (user_mode cptr sptr parv w)"
  by (rule listed.whole [OF assms])

theorem user_mode_oper_list_witness:
  "opers_listed demo0 \<and> opers_listed (user_mode 15 15 [''oper'', ''oper'', ''-o''] demo0)"
proof -
  have "opers_listed demo0"
    by (simp add: opers_listed_def demo0_def local_user_def IsAnOper_def MyConnect_def umode_flag_defs has_flag_def)
  then show ?thesis using user_mode_oper_list [of demo0] by simp
qed

section \<open>Privileges\<close>

definition priv_flags :: "(flags \<times> flags) list" where
  "priv_flags = [(FLAGS_NCHANGE, FLAGS2_OPER_N), (FLAGS_ADMIN, FLAGS2_OPER_ADMIN), (FLAGS_OSPYLOG, FLAGS2_OPER_OSPYLOG),
     (FLAGS_STATSPHIDE, FLAGS2_OPER_STATSPHIDE), (FLAGS_UNIDLE, FLAGS2_OPER_UNIDLE)]"

definition privileged :: "client \<Rightarrow> bool" where
  "privileged c = list_all (\<lambda>(fl, pr). has_flag (umodes c) fl \<longrightarrow> has_flag (flags2 c) pr) priv_flags"

definition keeps_priv :: "cid \<Rightarrow> flags \<Rightarrow> flags \<Rightarrow> world \<Rightarrow> bool" where
  "keeps_priv s fl pr w = (has_flag (umodes (cl w s)) fl \<longrightarrow> has_flag (flags2 (cl w s)) pr)"

lemma deny_local: "local_flag (cl (umode_deny s p fl pr r txt w) c) = local_flag (cl w c)"
  by (simp add: umode_deny_def Let_def sendto_one_def)

lemma deny_gives: "local_flag (cl w s) \<Longrightarrow> keeps_priv s fl pr (umode_deny s p fl pr r txt w)"
  by (simp add: umode_deny_def Let_def sendto_one_def MyConnect_def keeps_priv_def has_flag_clear)

lemma deny_keeps: "keeps_priv s g q w \<Longrightarrow> keeps_priv s g q (umode_deny s p fl pr r txt w)"
  by (auto simp: umode_deny_def Let_def sendto_one_def keeps_priv_def has_flag_iff_bit bit_and_iff)

lemma privileged_iff: "privileged (cl w s) = list_all (\<lambda>(fl, pr). keeps_priv s fl pr w) priv_flags"
  by (simp add: privileged_def keeps_priv_def)

lemma send_umode_out_cl [simp]: "clients (send_umode_out a b old w) = clients w"
  by (simp add: send_umode_out_def send_umode_def Let_def sendto_one_def)

lemma count_invisible_cl [simp]: "clients (count_invisible s old w) = clients w"
  by (simp add: count_invisible_def Let_def)

lemma umode_char_local: "local_flag (cl (snd (snd (umode_char a b c st))) d) = local_flag (cl (snd (snd st)) d)"
  by (cases st) (simp add: umode_char_def Let_def umode_oper_def)

lemma umode_chars_local: "local_flag (cl (snd (snd (fold (umode_char a b) s st))) d) = local_flag (cl (snd (snd st)) d)"
  by (induction s arbitrary: st) (simp_all add: umode_char_local)

text \<open>C34: a local user has +n, +a, +Z, +p and +u only with the operator privilege for it; a
  MODE command keeps that, also when it drops the privileges with -o.\<close>
theorem user_mode_privileged:
  assumes "local_flag (cl w sptr)" "privileged (cl w sptr)"
  shows "privileged (cl (user_mode cptr sptr parv w) sptr)"
proof -
  let ?r = "fold (umode_char cptr sptr) (concat (drop 2 parv)) (MODE_ADD, False, w)"
  obtain d bad w1 where r: "?r = (d, bad, w1)" by (metis prod_cases3)
  have l: "local_flag (cl w1 sptr)" using umode_chars_local [of cptr sptr "concat (drop 2 parv)"] r assms(1) by (metis snd_conv)
  have deny: "local_flag (cl w1 sptr) \<Longrightarrow> privileged (cl (umode_deny sptr p FLAGS_UNIDLE FLAGS2_OPER_UNIDLE r5 t5
      (umode_deny sptr p FLAGS_STATSPHIDE FLAGS2_OPER_STATSPHIDE r4 t4 (umode_deny sptr p FLAGS_OSPYLOG FLAGS2_OPER_OSPYLOG r3 t3
      (umode_deny sptr p FLAGS_ADMIN FLAGS2_OPER_ADMIN r2 t2 (umode_deny sptr p FLAGS_NCHANGE FLAGS2_OPER_N r1 t1 w1))))) sptr)"
    for p r1 r2 r3 r4 r5 t1 t2 t3 t4 t5 w1
    unfolding privileged_iff priv_flags_def by (simp add: deny_local deny_gives deny_keeps)
  show ?thesis using assms(2) r l by (simp add: user_mode_def Let_def sendto_one_def sendto_ops_butone_def deny split: option.split)
qed

theorem user_mode_privileged_witness:
  "local_flag (cl demo0 12) \<and> privileged (cl demo0 12) \<and>
   privileged (cl (user_mode 12 12 [''bob'', ''bob'', ''+pn''] demo0) 12)"
proof -
  have "local_flag (cl demo0 12)" "privileged (cl demo0 12)"
    by (simp_all add: demo0_cl privileged_def priv_flags_def)
  then show ?thesis using user_mode_privileged [of demo0 12] by simp
qed

section \<open>The text of a change\<close>

text \<open>How a MODE text is read, by the table of the parser.\<close>

definition umode_read :: "char \<Rightarrow> flags \<times> flags \<Rightarrow> flags \<times> flags" where
  "umode_read c st = (case st of (what, m) \<Rightarrow>
     if c = CHR ''+'' then (MODE_ADD, m) else if c = CHR ''-'' then (MODE_DEL, m)
     else (what, if what = MODE_ADD then m OR user_modes_from_c_to_bitmask ! code c
                 else m AND NOT (user_modes_from_c_to_bitmask ! code c)))"

definition entry_ok :: "flags \<times> char \<Rightarrow> bool" where
  "entry_ok e = (case e of (fl, c) \<Rightarrow> c \<noteq> CHR ''+'' \<and> c \<noteq> CHR ''-'' \<and>
     user_modes_from_c_to_bitmask ! code c = fl \<and> list_ex (\<lambda>k. fl = push_bit k 1) [0..<32])"

lemma user_modes_ok: "list_all entry_ok user_modes"
  by code_simp

lemma entry_bit:
  assumes "entry_ok (fl, c)" "bit fl n"
  shows "has_flag m fl = bit m n"
proof -
  obtain k where k: "k < 32" "fl = push_bit k 1" using assms(1) by (auto simp: entry_ok_def list_ex_iff)
  then have "bit fl j \<longleftrightarrow> j = k" for j by (auto simp: bit_exp_iff)
  then show ?thesis using assms(2) by (auto simp: has_flag_iff_bit)
qed

definition sends :: "bool \<Rightarrow> flags \<Rightarrow> flags \<Rightarrow> flags \<Rightarrow> (flags \<times> char) list \<Rightarrow> nat \<Rightarrow> bool" where
  "sends own msk old new ms n =
     list_ex (\<lambda>(fl, c). (own \<longrightarrow> has_flag fl msk) \<and> bit fl n \<and> bit old n \<noteq> bit new n) ms"

lemma read_text:
  assumes "list_all entry_ok ms" "what = 0 \<or> what' = what" "what \<in> {0, MODE_ADD, MODE_DEL}" "n < 32"
  shows "bit (snd (fold umode_read (umode_text own msk old new ms what) (what', m))) n =
     (if sends own msk old new ms n then bit new n else bit m n)"
  using assms
proof (induction ms arbitrary: what what' m)
  case Nil
  then show ?case by (simp add: sends_def)
next
  case (Cons e ms)
  obtain fl c where e: "e = (fl, c)" by (cases e)
  have ok: "entry_ok (fl, c)" "list_all entry_ok ms" using Cons.prems(1) by (simp_all add: e)
  then have c: "c \<noteq> CHR ''+''" "c \<noteq> CHR ''-''" "user_modes_from_c_to_bitmask ! code c = fl" by (auto simp: entry_ok_def)
  have neq: "MODE_ADD \<noteq> MODE_DEL" "MODE_ADD \<noteq> 0" "MODE_DEL \<noteq> 0" by (simp_all add: mode_defs)
  have bits: "bit fl n \<Longrightarrow> has_flag fl m = bit m n" for m
    using entry_bit [OF ok(1), of n m] by (simp add: has_flag_def and.commute [of fl])
  note IH = Cons.IH [OF ok(2) _ _ Cons.prems(4)]
  have com: "has_flag new fl = has_flag fl new" by (simp add: has_flag_def and.commute)
  have rec: "sends own msk old new (e # ms) n \<longleftrightarrow>
      (own \<longrightarrow> has_flag fl msk) \<and> bit fl n \<and> bit old n \<noteq> bit new n \<or> sends own msk old new ms n"
    by (simp add: sends_def e)
  consider (skip) "own \<and> \<not> has_flag fl msk" | (same) "own \<longrightarrow> has_flag fl msk" "has_flag fl old = has_flag fl new"
    | (off) "own \<longrightarrow> has_flag fl msk" "has_flag fl old" "\<not> has_flag fl new"
    | (on) "own \<longrightarrow> has_flag fl msk" "\<not> has_flag fl old" "has_flag fl new" by blast
  then show ?case
  proof cases
    case skip
    then show ?thesis using IH [OF Cons.prems(2,3)] rec by (simp add: e)
  next
    case same
    then have eq: "umode_text own msk old new (e # ms) what = umode_text own msk old new ms what" by (auto simp: e com)
    have "bit fl n \<Longrightarrow> bit old n = bit new n" using same(2) bits [of old] bits [of new] by blast
    then show ?thesis unfolding eq rec IH [OF Cons.prems(2,3)] by auto
  next
    case off
    have "fold umode_read (if what = MODE_DEL then [c] else [CHR ''-'', c]) (what', m) = (MODE_DEL, m AND NOT fl)"
      using Cons.prems(2) neq c by (auto simp: umode_read_def)
    then have eq: "fold umode_read (umode_text own msk old new (e # ms) what) (what', m) =
        fold umode_read (umode_text own msk old new ms MODE_DEL) (MODE_DEL, m AND NOT fl)"
      using off by (auto simp: e com)
    have "\<not> sends own msk old new ms n \<Longrightarrow> bit (m AND NOT fl) n = (if bit fl n then bit new n else bit m n)"
      using off(3) bits [of new] Cons.prems(4) by (auto simp: bit_and_iff bit_not_iff)
    then show ?thesis unfolding eq rec using IH [of MODE_DEL MODE_DEL "m AND NOT fl"] off bits [of old] bits [of new] by auto
  next
    case on
    have "fold umode_read (if what = MODE_ADD then [c] else [CHR ''+'', c]) (what', m) = (MODE_ADD, m OR fl)"
      using Cons.prems(2) neq c by (auto simp: umode_read_def)
    then have eq: "fold umode_read (umode_text own msk old new (e # ms) what) (what', m) =
        fold umode_read (umode_text own msk old new ms MODE_ADD) (MODE_ADD, m OR fl)"
      using on by (auto simp: e com)
    have "\<not> sends own msk old new ms n \<Longrightarrow> bit (m OR fl) n = (if bit fl n then bit new n else bit m n)"
      using on(3) bits [of new] by (auto simp: bit_or_iff)
    then show ?thesis unfolding eq rec using IH [of MODE_ADD MODE_ADD "m OR fl"] on bits [of old] bits [of new] by auto
  qed
qed

text \<open>C37: what \<open>send_umode\<close> writes for a change from \<open>old\<close> to \<open>new\<close> carries exactly the change:
  read over \<open>old\<close> by the parser's table, it sets every mode that is sent to its new value
  and leaves the others, and the bits that are no user mode, as they were.\<close>
theorem umode_text_roundtrip:
  assumes "n < 32"
  shows "bit (snd (fold umode_read (umode_text own msk old new user_modes 0) (MODE_ADD, old))) n =
     (if list_ex (\<lambda>(fl, c). (own \<longrightarrow> has_flag fl msk) \<and> bit fl n) user_modes then bit new n else bit old n)"
proof -
  have "bit (snd (fold umode_read (umode_text own msk old new user_modes 0) (MODE_ADD, old))) n =
      (if sends own msk old new user_modes n then bit new n else bit old n)"
    by (rule read_text [OF user_modes_ok]) (simp_all add: assms)
  then show ?thesis by (auto simp: sends_def list_ex_iff)
qed

theorem umode_text_roundtrip_witness:
  "(15::nat) < 32 \<and> umode_text False 0 (FLAGS_INVISIBLE OR FLAGS_OPER) (FLAGS_WALLOP OR FLAGS_SKILL) user_modes 0 = ''-i+k-o+w'' \<and>
   bit (snd (fold umode_read ''-i+k-o+w'' (MODE_ADD, FLAGS_INVISIBLE OR FLAGS_OPER))) 14 = False"
proof -
  have t: "umode_text False 0 (FLAGS_INVISIBLE OR FLAGS_OPER) (FLAGS_WALLOP OR FLAGS_SKILL) user_modes 0 = ''-i+k-o+w''"
    by code_simp
  show ?thesis using umode_text_roundtrip [of 14 False 0 "FLAGS_INVISIBLE OR FLAGS_OPER" "FLAGS_WALLOP OR FLAGS_SKILL"]
    unfolding t by (simp add: user_modes_def umode_flag_defs)
qed

end
