(* ===== verification/Names.thy ===== *)
theory Names
  imports ModeStr
begin

text \<open>
  \<open>m_names\<close> of \<open>src/channel.c\<close>: the names on a channel, cut into lines that fit the protocol's
  bound.  \<open>buf\<close> and \<open>idx\<close> are the text of the line so far and the length the code reckons for it.
\<close>

section \<open>Which channels are shown\<close>

definition SecretChannel :: "channel \<Rightarrow> bool" where "SecretChannel k = has_flag (modes (mode k)) MODE_SECRET"
definition PubChannel :: "channel \<Rightarrow> bool" where
  "PubChannel k = (modes (mode k) AND (MODE_PRIVATE OR MODE_SECRET) = 0)"
definition ShowChannel :: "world \<Rightarrow> cid \<Rightarrow> chid \<Rightarrow> bool" where
  "ShowChannel w c x = (PubChannel (ch w x) \<or> IsMember w c x)"

section \<open>Lines\<close>

definition names_head :: "channel \<Rightarrow> cstr" where
  "names_head k = (if PubChannel k then CHR ''='' else if SecretChannel k then CHR ''@'' else CHR ''*'')
     # '' '' @ chname k @ '' :''"

text \<open>
  Each entry is the prefix and the name of a client.  After an entry that fills the line the
  line is sent and the next one starts with the head; \<open>flag\<close> tells whether the rest is sent.
\<close>

fun names_lines :: "nat \<Rightarrow> cstr \<Rightarrow> cstr \<Rightarrow> nat \<Rightarrow> bool \<Rightarrow> (cstr \<times> cstr) list \<Rightarrow> cstr list" where
  "names_lines mlen hd0 buf idx flag [] = (if flag then [buf] else [])"
| "names_lines mlen hd0 buf idx flag ((pre, nm) # es) =
     (let buf1 = buf @ pre @ take NICKLEN nm @ '' ''; idx1 = idx + length pre + length nm + 1 in
      if mlen + idx1 + NICKLEN > BUFSIZE - 3
      then buf1 # names_lines mlen hd0 hd0 (length hd0) False es
      else names_lines mlen hd0 buf1 idx1 True es)"

definition names_entry :: "world \<Rightarrow> member \<Rightarrow> cstr \<times> cstr" where
  "names_entry w m =
     (if has_flag (m_flags m) CHFL_CHANOP then ''@'' else if has_flag (m_flags m) CHFL_VOICE then ''+'' else [],
      name (cl w (m_client m)))"

definition names_listed :: "world \<Rightarrow> cid \<Rightarrow> chid \<Rightarrow> member list" where
  "names_listed w c x =
     filter (\<lambda>m. \<not> (IsInvisible (cl w (m_client m)) \<and> \<not> IsMember w c x)) (members (ch w x))"

definition names_mlen :: "world \<Rightarrow> nat" where
  "names_mlen w = length (name (cl w (me w))) + NICKLEN + 7"

definition channel_names :: "world \<Rightarrow> cid \<Rightarrow> chid \<Rightarrow> cstr list" where
  "channel_names w c x =
     (let h = names_head (ch w x)
      in names_lines (names_mlen w) h h (length h) True (map (names_entry w) (names_listed w c x)))"

text \<open>The sweep over the clients that are on no shown and on no secret channel.\<close>

definition in_sweep :: "world \<Rightarrow> cid \<Rightarrow> cid \<Rightarrow> bool" where
  "in_sweep w sptr c =
     (IsPerson (cl w c) \<and> \<not> IsInvisible (cl w c) \<and>
      \<not> list_ex (\<lambda>x. PubChannel (ch w x) \<or> IsMember w sptr x) (u_chans (cl w c)) \<and>
      \<not> list_ex (\<lambda>x. SecretChannel (ch w x)) (u_chans (cl w c)))"

definition sweep_names :: "world \<Rightarrow> cid \<Rightarrow> cstr list" where
  "sweep_names w sptr =
     names_lines (names_mlen w) ''* * :'' ''* * :'' 5 False
       (map (\<lambda>c. ([], name (cl w c))) (filter (in_sweep w sptr) (client_list w)))"

section \<open>\<open>m_names\<close>\<close>

definition send_names :: "cid \<Rightarrow> cstr \<Rightarrow> cstr list \<Rightarrow> world \<Rightarrow> world" where
  "send_names sptr p0 ls w = log_out (map (\<lambda>l. One sptr (form_str RPL_NAMREPLY) [me_name w, Str p0, Str l]) ls) w"

definition m_names :: "cid \<Rightarrow> cid \<Rightarrow> cstr list \<Rightarrow> world \<Rightarrow> world" where
  "m_names cptr sptr parv w =
     (let s = cl w sptr; p0 = parv ! 0; given = (case par parv 1 of None \<Rightarrow> [] | Some p \<Rightarrow> p);
          para = takeWhile (\<lambda>c. c \<noteq> CHR '','') given in
      if \<not> MyConnect s then w
      else if length (filter (\<lambda>c. c = CHR '','') given) > 1
      then sendto_one sptr (form_str ERR_TOOMANYTARGETS) [me_name w, Str (name s), Str ''NAMES'', Num 1] w
      else if \<not> check_channel_name para
      then sendto_one sptr (form_str ERR_BADCHANNAME) [me_name w, Str p0, Str para] w
      else
        let ch2 = (if given = [] then None else find_channel w para);
            shown = filter (\<lambda>x. (Some x = ch2 \<or> para = []) \<and> ShowChannel w sptr x) (chan_list w);
            w1 = send_names sptr p0 (concat (map (channel_names w sptr) shown)) w
        in if para \<noteq> [] then sendto_one sptr (form_str RPL_ENDOFNAMES) [me_name w, Str p0, Str para] w1
           else sendto_one sptr (form_str RPL_ENDOFNAMES) [me_name w, Str p0, Str ''*'']
                  (send_names sptr p0 (sweep_names w sptr) w1))"

end
