(* ===== verification/Join.thy ===== *)
theory Join
  imports Names
begin

text \<open>
  \<open>m_join\<close> and \<open>m_part\<close> of \<open>src/channel.c\<close> with the accounting of clients that join and leave
  too often.  \<open>cptr\<close> is the link the command came over, \<open>sptr\<close> its source.
\<close>

definition OPER_SPAM_COUNTDOWN :: int where "OPER_SPAM_COUNTDOWN = 5"
definition JOIN_LEAVE_COUNT_EXPIRE_TIME :: int where "JOIN_LEAVE_COUNT_EXPIRE_TIME = 120"

definition PartFmt :: fmt where "PartFmt = Fmt '':%s PART %s :%s''"

section \<open>Splits and spam\<close>

definition check_still_split :: "world \<Rightarrow> world" where
  "check_still_split w =
     (if server_split_time w + splitdelay w < now w then
        if count_server w \<ge> splitnum w \<and> got_server_pong w \<and> count_total w \<ge> splitusers w
        then sendto_ops (Fmt ''Net Rejoined, split-mode deactivated'') [] (w\<lparr>server_was_split := False\<rparr>)
               \<lparr>cold_start := False\<rparr>
        else w\<lparr>server_split_time := now w, server_was_split := True\<rparr>
      else w)"

text \<open>The accounting when a client leaves a channel.\<close>

definition spam_leave :: "cid \<Rightarrow> world \<Rightarrow> world" where
  "spam_leave sptr w =
     (let s = cl w sptr in
      if spam_num w \<noteq> 0 \<and> join_leave_count s \<ge> spam_num w then
        upd_cl sptr (\<lambda>k. k\<lparr>oper_warn_count_down := OPER_SPAM_COUNTDOWN\<rparr>)
          (sendto_ops_flags FLAGS_BOTS (Fmt ''User %s (%s@%s) is a possible spambot'')
             [Str (name s), Str (username s), Str (host s)] w)
      else
        let delta = now w - last_leave_time s;
            dec = delta div JOIN_LEAVE_COUNT_EXPIRE_TIME;
            n = (if delta > JOIN_LEAVE_COUNT_EXPIRE_TIME
                 then if dec > join_leave_count s then 0 else join_leave_count s - dec
                 else if now w - last_join_time s < spam_time w then join_leave_count s + 1
                 else join_leave_count s)
        in upd_cl sptr (\<lambda>k. k\<lparr>join_leave_count := n, last_leave_time := now w\<rparr>) w)"

text \<open>A known spambot tries to join: every fifth try is told to the operators.\<close>

definition spam_join :: "cid \<Rightarrow> cstr \<Rightarrow> world \<Rightarrow> world" where
  "spam_join sptr nm w =
     (let s = cl w sptr;
          n = (if oper_warn_count_down s > 0 then oper_warn_count_down s - 1 else 0) in
      if n = 0 then
        upd_cl sptr (\<lambda>k. k\<lparr>oper_warn_count_down := OPER_SPAM_COUNTDOWN\<rparr>)
          (sendto_ops_flags FLAGS_BOTS (Fmt ''User %s (%s@%s) trying to join %s is a possible spambot'')
             [Str (name s), Str (username s), Str (host s), Str nm] w)
      else upd_cl sptr (\<lambda>k. k\<lparr>oper_warn_count_down := n\<rparr>) w)"

section \<open>The list of channels\<close>

definition is_zero :: "cstr \<Rightarrow> bool" where
  "is_zero nm = (at nm 0 = CHR ''0'' \<and> atoi nm = 0)"

text \<open>
  One name of the parameter: the list \<open>jbuf\<close> and the length \<open>i\<close> the code reckons for it.  The
  room given to \<open>strncat\<close> is an unsigned difference; a negative one is no bound at all.
\<close>

definition join_scan :: "cid \<Rightarrow> cstr \<Rightarrow> cstr \<Rightarrow> cstr \<times> nat \<times> world \<Rightarrow> cstr \<times> nat \<times> world" where
  "join_scan sptr p0 nm st =
     (case st of (jbuf, i, w) \<Rightarrow>
        if \<not> check_channel_name nm then
          (jbuf, i, sendto_one sptr (form_str ERR_BADCHANNAME) [me_name w, Str p0, Str nm] w)
        else if at nm 0 = CHR ''&'' \<and> \<not> MyConnect (cl w sptr) then (jbuf, i, w)
        else if \<not> is_zero nm \<and> \<not> IsChannelName nm then
          (jbuf, i, if MyClient (cl w sptr)
                    then sendto_one sptr (form_str ERR_NOSUCHCHANNEL) [me_name w, Str p0, Str nm] w else w)
        else
          let j1 = (if is_zero nm then [] else jbuf); j2 = (if j1 \<noteq> [] then j1 @ '','' else j1)
          in (j2 @ (if i + 1 \<le> BUFSIZE then take (BUFSIZE - i - 1) nm else nm), i + length nm + 1, w))"

section \<open>Leaving everything\<close>

fun part_all :: "cid \<Rightarrow> cstr \<Rightarrow> chid list \<Rightarrow> world \<Rightarrow> world" where
  "part_all sptr p0 [] w = w"
| "part_all sptr p0 (x # xs) w =
     part_all sptr p0 xs
       (remove_user_from_channel sptr x
         (sendto_channel_butserv x sptr PartFmt [Str p0, Str (chname (ch w x)), Str []] w))"

section \<open>Joining one channel\<close>

text \<open>
  The state of the loop over the names is \<open>chptr\<close> (a null pointer is \<open>None\<close>, and it is not reset
  between names) and \<open>successful_join_count\<close>; a step that returns from the handler gives no
  loop state.
\<close>

type_synonym join_state = "(chid option \<times> nat) option \<times> world"

definition new_modes :: "chid \<Rightarrow> cid \<Rightarrow> world \<Rightarrow> world" where
  "new_modes x sptr w =
     (let w1 = upd_ch x (\<lambda>k. k\<lparr>mode := (mode k)\<lparr>modes := modes (mode k) OR MODE_TOPICLIMIT OR MODE_NOPRIVMSGS\<rparr>\<rparr>) w;
          args = [me_name w, Str (chname (ch w x))]
      in sendto_match_servs (Some x) sptr (Fmt '':%s MODE %s +nt'') args
           (sendto_channel_butserv x sptr (Fmt '':%s MODE %s +nt'') args w1))"

definition send_topic :: "cid \<Rightarrow> cstr \<Rightarrow> cstr \<Rightarrow> chid \<Rightarrow> world \<Rightarrow> world" where
  "send_topic sptr p0 nm x w =
     (let k = ch w x in
      sendto_one sptr (form_str RPL_TOPICWHOTIME) [me_name w, Str p0, Str nm, Str (topic_nick k), Num (topic_time k)]
        (sendto_one sptr (form_str RPL_TOPIC) [me_name w, Str p0, Str nm, Str (topic k)] w))"

text \<open>What follows \<open>add_user_to_channel\<close>.\<close>

definition join_done :: "cid \<Rightarrow> cid \<Rightarrow> cstr \<Rightarrow> chid \<Rightarrow> flags \<Rightarrow> cstr \<Rightarrow> world \<Rightarrow> world" where
  "join_done cptr sptr p0 x flg nm w =
     (let mine = MyClient (cl w sptr); op = has_flag flg CHFL_CHANOP;
          w1 = (if mine \<and> op then
                  let v = upd_ch x (\<lambda>k. k\<lparr>channelts := now w\<rparr>) w
                  in sendto_match_servs (Some x) cptr (Fmt '':%s SJOIN %lu %s + :@%s'')
                       [me_name v, Num (channelts (ch v x)), Str nm, Str p0] v
                else if mine then
                  sendto_match_servs (Some x) cptr (Fmt '':%s SJOIN %lu %s + :%s'')
                    [me_name w, Num (channelts (ch w x)), Str nm, Str p0] w
                else sendto_match_servs (Some x) cptr (Fmt '':%s JOIN :%s'') [Str p0, Str nm] w);
          w2 = sendto_channel_butserv x sptr (Fmt '':%s JOIN :%s'') [Str p0, Str nm] w1
      in if mine then
           let w3 = (if op then new_modes x sptr w2 else w2);
               w4 = del_invite sptr x w3;
               w5 = (if topic (ch w4 x) \<noteq> [] then send_topic sptr p0 nm x w4 else w4)
           in m_names cptr sptr [p0, nm] w5
         else w2)"

definition join_enter :: "cid \<Rightarrow> cid \<Rightarrow> cstr \<Rightarrow> cstr option \<Rightarrow> flags \<Rightarrow> chid option \<Rightarrow> nat \<Rightarrow> cstr \<Rightarrow> world \<Rightarrow> join_state" where
  "join_enter cptr sptr p0 ky flg chptr n nm w =
     (case (case chptr of Some x \<Rightarrow> (Some x, nm, w) | None \<Rightarrow> get_channel sptr nm True w) of
        (None, nm', w1) \<Rightarrow>
          (Some (None, n - 1), sendto_one sptr (form_str ERR_UNAVAILRESOURCE) [me_name w1, Str p0, Str nm'] w1)
      | (Some x, nm', w1) \<Rightarrow>
          if IsMember w1 sptr x then (Some (Some x, n), w1)
          else
            (case (if MyConnect (cl w1 sptr) then can_join sptr x ky flg w1 else (0, flg, w1)) of
               (i, fl, w2) \<Rightarrow>
                 if i \<noteq> 0 then
                   (Some (Some x, n - 1), sendto_one sptr (form_str i) [me_name w2, Str p0, Str nm'] w2)
                 else (Some (Some x, n), join_done cptr sptr p0 x fl nm' (add_user_to_channel x sptr fl w2))))"

definition joined_count :: "client \<Rightarrow> int" where
  "joined_count c = (case user c of Some u \<Rightarrow> u_joined u | None \<Rightarrow> 0)"

definition set_last_join :: "cid \<Rightarrow> nat \<Rightarrow> world \<Rightarrow> world" where
  "set_last_join sptr n w = (if n > 0 then upd_cl sptr (\<lambda>k. k\<lparr>last_join_time := now w\<rparr>) w else w)"

definition join_local :: "cid \<Rightarrow> cid \<Rightarrow> cstr \<Rightarrow> cstr option \<Rightarrow> nat \<Rightarrow> cstr \<Rightarrow> world \<Rightarrow> join_state" where
  "join_local cptr sptr p0 ky n nm w =
     (let s = cl w sptr; found = find_channel w nm; flg = (if found = None then CHFL_CHANOP else 0) in
      if found = None \<and> \<not> IsAnOper s \<and> server_was_split w \<and> MyClient s \<and> at nm 0 \<noteq> CHR ''&'' then
        (Some (None, n), sendto_one sptr (form_str ERR_UNAVAILRESOURCE) [me_name w, Str p0, Str nm] w)
      else if joined_count s \<ge> int MAXCHANNELSPERUSER \<and>
              (\<not> IsAnOper s \<or> joined_count s \<ge> int (MAXCHANNELSPERUSER * 3)) then
        (None, set_last_join sptr n
                 (sendto_one sptr (form_str ERR_TOOMANYCHANNELS) [me_name w, Str p0, Str nm] w))
      else if spam_num w \<noteq> 0 \<and> join_leave_count s \<ge> spam_num w then (None, spam_join sptr nm w)
      else join_enter cptr sptr p0 ky flg found (if flg = 0 then n + 1 else n) nm w)"

definition join_remote :: "cid \<Rightarrow> cid \<Rightarrow> cstr \<Rightarrow> cstr option \<Rightarrow> chid option \<Rightarrow> nat \<Rightarrow> cstr \<Rightarrow> world \<Rightarrow> join_state" where
  "join_remote cptr sptr p0 ky chptr n nm w =
     join_enter cptr sptr p0 ky 0 chptr n nm
       (if find_channel w nm = None
        then ts_warn (Fmt ''User on %s remotely JOINing new channel'')
               [Str (case user (cl w sptr) of Some u \<Rightarrow> u_server u | None \<Rightarrow> [])] w
        else w)"

definition join_zero :: "cid \<Rightarrow> cid \<Rightarrow> cstr \<Rightarrow> chid option \<Rightarrow> nat \<Rightarrow> world \<Rightarrow> join_state" where
  "join_zero cptr sptr p0 chptr n w =
     (let xs = u_chans (cl w sptr) in
      if xs = [] then (Some (chptr, n), w)
      else
        let w1 = part_all sptr p0 xs w;
            w2 = (if MyConnect (cl w1 sptr) \<and> \<not> IsAnOper (cl w1 sptr) then spam_leave sptr w1 else w1)
        in (Some (Some (last xs), n), sendto_match_servs None cptr (Fmt '':%s JOIN 0'') [Str p0] w2))"

definition join_step :: "cid \<Rightarrow> cid \<Rightarrow> cstr \<Rightarrow> cstr option \<Rightarrow> chid option \<Rightarrow> nat \<Rightarrow> cstr \<Rightarrow> world \<Rightarrow> join_state" where
  "join_step cptr sptr p0 ky chptr n nm w =
     (if is_zero nm then join_zero cptr sptr p0 chptr n w
      else if MyConnect (cl w sptr) then join_local cptr sptr p0 ky n nm w
      else join_remote cptr sptr p0 ky chptr n nm w)"

fun join_loop :: "cid \<Rightarrow> cid \<Rightarrow> cstr \<Rightarrow> chid option \<Rightarrow> nat \<Rightarrow> cstr list \<Rightarrow> cstr list \<Rightarrow> world \<Rightarrow> world" where
  "join_loop cptr sptr p0 chptr n [] ks w = (if MyConnect (cl w sptr) then set_last_join sptr n w else w)"
| "join_loop cptr sptr p0 chptr n (nm # nms) ks w =
     (case join_step cptr sptr p0 (case ks of [] \<Rightarrow> None | k # _ \<Rightarrow> Some k) chptr n nm w of
        (None, w1) \<Rightarrow> w1
      | (Some (chptr1, n1), w1) \<Rightarrow> join_loop cptr sptr p0 chptr1 n1 nms (tl ks) w1)"

text \<open>The names left of the parameter, after the checks.\<close>

definition join_list :: "cid \<Rightarrow> cstr list \<Rightarrow> world \<Rightarrow> cstr list \<times> world" where
  "join_list sptr parv w =
     (let w1 = (if server_was_split w then check_still_split w else w);
          (jbuf, _, w2) = fold (join_scan sptr (parv ! 0)) (strtokens (Some (parv ! 1)) '','') ([], 0, w1)
      in (strtokens (Some jbuf) '','', w2))"

definition m_join :: "cid \<Rightarrow> cid \<Rightarrow> cstr list \<Rightarrow> world \<Rightarrow> world" where
  "m_join cptr sptr parv w =
     (if user (cl w sptr) = None then w
      else if length parv < 2 \<or> parv ! 1 = [] then
        sendto_one sptr (form_str ERR_NEEDMOREPARAMS) [me_name w, Str (parv ! 0), Str ''JOIN''] w
      else
        let (names, w1) = join_list sptr parv w
        in join_loop cptr sptr (parv ! 0) None 0 names (strtokens (par parv 2) '','') w1)"

section \<open>\<open>m_part\<close>\<close>

definition part_one :: "cid \<Rightarrow> cid \<Rightarrow> cstr \<Rightarrow> cstr \<Rightarrow> cstr \<Rightarrow> world \<Rightarrow> world" where
  "part_one cptr sptr p0 msg nm w =
     (case get_channel sptr nm False w of
        (None, nm', w1) \<Rightarrow> sendto_one sptr (form_str ERR_NOSUCHCHANNEL) [me_name w1, Str p0, Str nm'] w1
      | (Some x, nm', w1) \<Rightarrow>
          if \<not> IsMember w1 sptr x
          then sendto_one sptr (form_str ERR_NOTONCHANNEL) [me_name w1, Str p0, Str nm'] w1
          else
            let args = [Str p0, Str nm', Str msg]
            in remove_user_from_channel sptr x
                 (sendto_channel_butserv x sptr PartFmt args (sendto_match_servs (Some x) cptr PartFmt args w1)))"

definition m_part :: "cid \<Rightarrow> cid \<Rightarrow> cstr list \<Rightarrow> world \<Rightarrow> world" where
  "m_part cptr sptr parv w =
     (let p0 = parv ! 0 in
      if length parv < 2 \<or> parv ! 1 = [] then
        sendto_one sptr (form_str ERR_NEEDMOREPARAMS) [me_name w, Str p0, Str ''PART''] w
      else
        let names = strtokens (Some (parv ! 1)) '','';
            w1 = (if names \<noteq> [] \<and> MyConnect (cl w sptr) \<and> \<not> IsAnOper (cl w sptr) then spam_leave sptr w else w)
        in fold (part_one cptr sptr p0 (if length parv = 3 then parv ! 2 else [])) names w1)"

end
