(* ===== verification/Cmds.thy ===== *)
theory Cmds
  imports Join UMode SetMode
begin

text \<open>
  The other commands on channels: \<open>m_kick\<close>, \<open>m_topic\<close>, \<open>m_invite\<close> and \<open>m_knock\<close> of
  \<open>src/channel.c\<close>, and \<open>m_mode\<close> of \<open>src/m_mode.c\<close>, which hands over to the channel or the user
  modes.  A handler that cuts a parameter at the first comma writes a NUL there.
\<close>

section \<open>\<open>m_mode\<close>\<close>

definition m_mode :: "cid \<Rightarrow> cid \<Rightarrow> cstr list \<Rightarrow> world \<Rightarrow> world" where
  "m_mode cptr sptr parv w =
     (let p0 = parv ! 0 in
      if length parv \<le> 1 then
        sendto_one sptr (form_str ERR_NEEDMOREPARAMS) [me_name w, Str p0, Str ''MODE''] w
      else if \<not> IsChanPrefix (at (parv ! 1) 0) then user_mode cptr sptr parv w
      else if \<not> check_channel_name (parv ! 1) then
        sendto_one sptr (form_str ERR_BADCHANNAME) [me_name w, Str p0, Str (parv ! 1)] w
      else case find_channel w (parv ! 1) of
        None \<Rightarrow> user_mode cptr sptr parv w
      | Some x \<Rightarrow>
          if length parv < 3 then
            let (mb, pb) = channel_modes w sptr [] x; nm = Str (chname (ch w x)) in
            sendto_one sptr (form_str RPL_CREATIONTIME) [me_name w, Str p0, nm, Num (channelts (ch w x))]
              (sendto_one sptr (form_str RPL_CHANNELMODEIS) [me_name w, Str p0, nm, Str mb, Str pb] w)
          else set_channel_mode cptr sptr x (drop 2 parv) w)"

section \<open>\<open>m_kick\<close>\<close>

definition up_to_comma :: "cstr \<Rightarrow> cstr" where
  "up_to_comma s = takeWhile (\<lambda>c. c \<noteq> CHR '','') s"

definition kick_who :: "cid \<Rightarrow> cid \<Rightarrow> cstr \<Rightarrow> cstr \<Rightarrow> cstr \<Rightarrow> cstr \<Rightarrow> chid \<Rightarrow> world \<Rightarrow> world" where
  "kick_who cptr sptr p0 nm usr comment x w =
     (case find_chasing sptr usr w of
        (None, _, w1) \<Rightarrow> w1
      | (Some who, _, w1) \<Rightarrow>
          if IsMember w1 who x then
            let f = Fmt '':%s KICK %s %s :%s''; args = [Str p0, Str nm, Str (name (cl w1 who)), Str comment]
            in remove_user_from_channel who x
                 (sendto_match_servs (Some x) cptr f args (sendto_channel_butserv x sptr f args w1))
          else sendto_one sptr (form_str ERR_USERNOTINCHANNEL) [me_name w1, Str p0, Str usr, Str nm] w1)"

text \<open>The comment is cut in place; without one it is the source's name itself.\<close>

definition m_kick :: "cid \<Rightarrow> cid \<Rightarrow> cstr list \<Rightarrow> world \<Rightarrow> world" where
  "m_kick cptr sptr parv w =
     (if length parv < 3 \<or> parv ! 2 = [] then
        sendto_one sptr (form_str ERR_NEEDMOREPARAMS) [me_name w, Str (parv ! 0), Str ''KICK''] w
      else
        let s = cl w sptr;
            w0 = (if IsServer s then sendto_ops (Fmt ''KICK from %s for %s %s'')
                    [Str (parv ! 0), Str (parv ! 1), Str (parv ! 2)] w else w);
            own = BadPtr (par parv 3);
            comment = take TOPICLEN (if own then parv ! 0 else parv ! 3);
            p0 = (if own then comment else parv ! 0)
        in case get_channel sptr (up_to_comma (parv ! 1)) False w0 of
             (None, nm, w1) \<Rightarrow> sendto_one sptr (form_str ERR_NOSUCHCHANNEL) [me_name w1, Str p0, Str nm] w1
           | (Some x, nm, w1) \<Rightarrow>
               let k = ch w1 x in
               if \<not> IsServer s \<and> \<not> is_chan_op sptr k \<and> (MyConnect s \<or> channelts k = 0) then
                 sendto_one sptr (form_str ERR_CHANOPRIVSNEEDED) [me_name w1, Str p0, Str (chname k)] w1
               else kick_who cptr sptr p0 nm (up_to_comma (parv ! 2)) comment x w1)"

section \<open>\<open>m_topic\<close>\<close>

definition set_topic :: "cid \<Rightarrow> cid \<Rightarrow> cstr \<Rightarrow> chid \<Rightarrow> cstr \<Rightarrow> world \<Rightarrow> world" where
  "set_topic cptr sptr p0 x txt w =
     (let w1 = upd_ch x (\<lambda>k. k\<lparr>topic := take TOPICLEN txt, topic_nick := take NICKLEN (name (cl w sptr)),
                 topic_time := now w\<rparr>) w;
          f = Fmt '':%s TOPIC %s :%s'';
          args = [Str p0, Str (chname (ch w1 x)), Str (topic (ch w1 x))]
      in sendto_channel_butserv x sptr f args (sendto_match_servs (Some x) cptr f args w1))"

definition m_topic :: "cid \<Rightarrow> cid \<Rightarrow> cstr list \<Rightarrow> world \<Rightarrow> world" where
  "m_topic cptr sptr parv w =
     (let p0 = parv ! 0 in
      if length parv < 2 then
        sendto_one sptr (form_str ERR_NEEDMOREPARAMS) [me_name w, Str p0, Str ''TOPIC''] w
      else
        let nm = up_to_comma (parv ! 1) in
        if \<not> IsChannelName nm
        then sendto_one sptr (form_str ERR_NOSUCHCHANNEL) [me_name w, Str p0, Str nm] w
        else case find_channel w nm of
          None \<Rightarrow> sendto_one sptr (form_str ERR_NOSUCHCHANNEL) [me_name w, Str p0, Str nm] w
        | Some x \<Rightarrow>
            let k = ch w x in
            if \<not> IsMember w sptr x
            then sendto_one sptr (form_str ERR_NOTONCHANNEL) [me_name w, Str p0, Str nm] w
            else if length parv > 2 then
              (if \<not> has_flag (modes (mode k)) MODE_TOPICLIMIT \<or> is_chan_op sptr k
               then set_topic cptr sptr p0 x (parv ! 2) w
               else sendto_one sptr (form_str ERR_CHANOPRIVSNEEDED) [me_name w, Str p0, Str (chname k)] w)
            else if topic k = []
            then sendto_one sptr (form_str RPL_NOTOPIC) [me_name w, Str p0, Str (chname k)] w
            else send_topic sptr p0 (chname k) x w)"

section \<open>\<open>m_invite\<close>\<close>

text \<open>
  \<open>sendto_channel_type\<close>: to the local members with the flag, and to the remote ones over their
  links, once for a link that knows \<open>@#channel\<close> and once for each member otherwise.  \<open>sent\<close>
  are the sockets of the links already served.
\<close>

fun type_lines :: "world \<Rightarrow> cid \<Rightarrow> cid \<Rightarrow> flags \<Rightarrow> cstr \<Rightarrow> cstr \<Rightarrow> cstr \<Rightarrow> int list \<Rightarrow> member list \<Rightarrow> out list" where
  "type_lines w one frm ty nck cmd msg sent [] = []"
| "type_lines w one frm ty nck cmd msg sent (m # ms) =
     (let a = m_client m; l = cfrom (cl w a); c = (if has_flag ty MODE_CHANOP then CHR ''@'' else CHR ''+'');
          src = Str (name (cl w frm)) in
      if \<not> has_flag (m_flags m) ty \<or> l = one then type_lines w one frm ty nck cmd msg sent ms
      else if MyConnect (cl w a) \<and> IsRegisteredUser (cl w a) then
        Prefix a frm (Fmt '':%s %s %c%s :%s'') [src, Str cmd, Chr c, Str nck, Str msg]
          # type_lines w one frm ty nck cmd msg sent ms
      else if \<not> IsCapable (cl w l) CAP_CHW then
        Prefix a frm (Fmt '':%s NOTICE %s :%s'') [src, Str (name (cl w a)), Str msg]
          # type_lines w one frm ty nck cmd msg sent ms
      else if fd (cl w l) \<notin> set sent then
        Prefix a frm (Fmt '':%s NOTICE %c%s :%s'') [src, Chr c, Str nck, Str msg]
          # type_lines w one frm ty nck cmd msg (fd (cl w l) # sent) ms
      else type_lines w one frm ty nck cmd msg sent ms)"

definition sendto_channel_type :: "cid \<Rightarrow> cid \<Rightarrow> chid \<Rightarrow> flags \<Rightarrow> cstr \<Rightarrow> cstr \<Rightarrow> cstr \<Rightarrow> world \<Rightarrow> world" where
  [send_defs]: "sendto_channel_type one frm x ty nck cmd msg w =
     log_out (type_lines w one frm ty nck cmd msg [] (members (ch w x))) w"

definition invite_message :: "world \<Rightarrow> chid \<Rightarrow> cid \<Rightarrow> cid \<Rightarrow> cstr" where
  "invite_message w x sptr acptr =
     ''INVITE: '' @ chname (ch w x) @ '' ('' @ name (cl w sptr) @ '' invited '' @ name (cl w acptr) @ '' ['' @
     username (cl w acptr) @ ''@'' @ host (cl w acptr) @ ''])''"

text \<open>The invitation itself, when every test is passed.\<close>

definition do_invite :: "cid \<Rightarrow> cid \<Rightarrow> cstr list \<Rightarrow> cid \<Rightarrow> chid \<Rightarrow> world \<Rightarrow> world" where
  "do_invite cptr sptr parv acptr x w =
     (let p0 = parv ! 0; s = cl w sptr; a = cl w acptr; k = ch w x;
          need = has_flag (modes (mode k)) MODE_INVITEONLY;
          w1 = (if MyConnect s then
                  let v1 = sendto_one sptr (form_str RPL_INVITING) [me_name w, Str p0, Str (name a), Str (chname k)] w;
                      v2 = (case user a of
                              Some u \<Rightarrow> (case u_away u of
                                  Some t \<Rightarrow> sendto_one sptr (form_str RPL_AWAY) [me_name w, Str p0, Str (name a), Str t] v1
                                | None \<Rightarrow> v1)
                            | None \<Rightarrow> v1)
                  in if need \<and> has_flag (modes (mode k)) MODE_PRIVATE \<and> user a \<noteq> None
                     then sendto_channel_type cptr sptr x MODE_CHANOP (chname k) ''PRIVMSG''
                            (invite_message w x sptr acptr) v2
                     else v2
                else w);
          w2 = (if MyConnect a \<and> need then add_invite acptr x w1 else w1)
      in log_out [Prefix acptr sptr (Fmt '':%s INVITE %s :%s'') [Str p0, Str (name a), Str (parv ! 2)]] w2)"

definition m_invite :: "cid \<Rightarrow> cid \<Rightarrow> cstr list \<Rightarrow> world \<Rightarrow> world" where
  "m_invite cptr sptr parv w =
     (let p0 = parv ! 0; s = cl w sptr;
          tell = (\<lambda>e args. if MyClient s then sendto_one sptr (form_str e) ([me_name w, Str p0] @ args) w else w) in
      if length parv < 3 \<or> parv ! 2 = []
      then sendto_one sptr (form_str ERR_NEEDMOREPARAMS) [me_name w, Str p0, Str ''INVITE''] w
      else if user s = None then w
      else case find_person w (parv ! 1) None of
        None \<Rightarrow> sendto_one sptr (form_str ERR_NOSUCHNICK) [me_name w, Str p0, Str (parv ! 1)] w
      | Some acptr \<Rightarrow>
          if \<not> check_channel_name (parv ! 2)
          then sendto_one sptr (form_str ERR_BADCHANNAME) [me_name w, Str p0, Str (parv ! 2)] w
          else if \<not> IsChannelName (parv ! 2) then tell ERR_NOSUCHCHANNEL [Str (parv ! 2)]
          else if \<not> MyConnect (cl w acptr) \<and> at (parv ! 2) 0 = CHR ''&'' then w
          else case find_channel w (parv ! 2) of
            None \<Rightarrow> tell ERR_NOSUCHCHANNEL [Str (parv ! 2)]
          | Some x \<Rightarrow>
              if \<not> IsMember w sptr x then tell ERR_NOTONCHANNEL [Str (parv ! 2)]
              else if IsMember w acptr x then tell ERR_USERONCHANNEL [Str (parv ! 1), Str (parv ! 2)]
              else if has_flag (modes (mode (ch w x))) MODE_INVITEONLY \<and> \<not> is_chan_op sptr (ch w x)
              then tell ERR_CHANOPRIVSNEEDED [Str (parv ! 2)]
              else do_invite cptr sptr parv acptr x w)"

section \<open>\<open>m_knock\<close>\<close>

text \<open>Without \<open>USE_KNOCK\<close> the command is unknown to users and passed on between servers.\<close>

definition m_knock :: "cid \<Rightarrow> cid \<Rightarrow> cstr list \<Rightarrow> world \<Rightarrow> world" where
  "m_knock cptr sptr parv w =
     (let s = cl w sptr in
      if IsServer s then w
      else if MyClient s
      then sendto_one sptr (form_str ERR_UNKNOWNCOMMAND) [me_name w, Str (name s), Str ''knock''] w
      else if length parv < 2 \<or> parv ! 1 = []
      then sendto_one sptr (form_str ERR_NEEDMOREPARAMS) [me_name w, Str (parv ! 0), Str ''KNOCK''] w
      else sendto_match_cap_servs None cptr CAP_KNOCK (Fmt '':%s KNOCK %s %s'')
             [Str (name s), Str (up_to_comma (parv ! 1)), Str (if length parv > 3 then parv ! 3 else [])] w)"

end
