(* ===== verification/Sjoin.thy ===== *)
theory Sjoin
  imports Cmds
begin

text \<open>
  \<open>m_sjoin\<close> of \<open>src/channel.c\<close>: the members, modes and time stamp of a channel as another
  server has them, merged with ours by the TS rules.  The static buffers are the text written
  to them, without the bound of their arrays.
\<close>

text \<open>The C library's \<open>strcmp\<close>, by the values of the bytes.\<close>

fun strcmp :: "cstr \<Rightarrow> cstr \<Rightarrow> int" where
  "strcmp [] [] = 0"
| "strcmp [] (b # t) = - int (code b)"
| "strcmp (a # s) [] = int (code a)"
| "strcmp (a # s) (b # t) = (if a = b then strcmp s t else int (code a) - int (code b))"

section \<open>The modes they have\<close>

definition sjoin_flags :: "(flags \<times> char) list" where
  "sjoin_flags = [(MODE_PRIVATE, CHR ''p''), (MODE_SECRET, CHR ''s''), (MODE_MODERATED, CHR ''m''),
     (MODE_NOPRIVMSGS, CHR ''n''), (MODE_TOPICLIMIT, CHR ''t''), (MODE_INVITEONLY, CHR ''i'')]"

text \<open>\<open>None\<close> is the early return when the parameters run out.\<close>

fun sjoin_parse :: "cstr list \<Rightarrow> cstr \<Rightarrow> chanmode \<Rightarrow> nat \<Rightarrow> (chanmode \<times> nat) option" where
  "sjoin_parse parv [] m a = Some (m, a)"
| "sjoin_parse parv (c # s) m a =
     (if c = CHR ''k'' then
        (if length parv < 5 + Suc a then None
         else sjoin_parse parv s (m\<lparr>key := take KEYLEN (parv ! (4 + a))\<rparr>) (Suc a))
      else if c = CHR ''l'' then
        (if length parv < 5 + Suc a then None
         else sjoin_parse parv s (m\<lparr>limit := atoi (parv ! (4 + a))\<rparr>) (Suc a))
      else case map_of (map (\<lambda>(fl, d). (d, fl)) sjoin_flags) c of
        Some fl \<Rightarrow> sjoin_parse parv s (m\<lparr>modes := modes m OR fl\<rparr>) a
      | None \<Rightarrow> sjoin_parse parv s m a)"

definition no_modes :: chanmode where "no_modes = \<lparr>modes = 0, limit = 0, key = []\<rparr>"

text \<open>
  The time stamps: what is sent on, what the channel gets, and whether our modes and theirs
  are kept.
\<close>

definition sjoin_ts :: "bool \<Rightarrow> int \<Rightarrow> int \<Rightarrow> bool \<Rightarrow> int \<times> int \<times> bool \<times> bool" where
  "sjoin_ts isnew newts oldts free =
     (if isnew then (newts, newts, True, True)
      else if newts = 0 \<or> oldts = 0 then (0, 0, True, True)
      else if newts = oldts then (oldts, oldts, True, True)
      else if newts < oldts then (newts, newts, False, True)
      else if free then (newts, newts, True, True)
      else (oldts, oldts, True, False))"

definition merge_modes :: "bool \<Rightarrow> bool \<Rightarrow> chanmode \<Rightarrow> chanmode \<Rightarrow> chanmode" where
  "merge_modes keep_our keep_new old new =
     (if \<not> keep_new then old
      else if keep_our then
        \<lparr>modes = modes new OR modes old,
         limit = (if limit old > limit new then limit old else limit new),
         key = (if strcmp (key new) (key old) < 0 then key old else key new)\<rparr>
      else new)"

section \<open>The text of a change\<close>

record sj =
  sj_what :: int
  sj_mbuf :: cstr
  sj_pbuf :: cstr
  sj_pargs :: nat

definition sj_letter :: "int \<Rightarrow> char \<Rightarrow> sj \<Rightarrow> sj" where
  "sj_letter d c s =
     s\<lparr>sj_mbuf := sj_mbuf s @ (if sj_what s \<noteq> d then [if d = 1 then CHR ''+'' else CHR ''-''] else []) @ [c],
       sj_what := d\<rparr>"

definition sj_param :: "cstr \<Rightarrow> sj \<Rightarrow> sj" where
  "sj_param t s = s\<lparr>sj_pbuf := sj_pbuf s @ t @ '' '', sj_pargs := sj_pargs s + 1\<rparr>"

definition sj_flags :: "int \<Rightarrow> flags \<Rightarrow> flags \<Rightarrow> sj \<Rightarrow> sj" where
  "sj_flags d a b s = fold (\<lambda>(fl, c) s. if has_flag a fl \<and> \<not> has_flag b fl then sj_letter d c s else s) sjoin_flags s"

definition sj_changes :: "chanmode \<Rightarrow> chanmode \<Rightarrow> sj" where
  "sj_changes old new =
     (let s1 = sj_flags (- 1) (modes old) (modes new)
                 (sj_flags 1 (modes new) (modes old) \<lparr>sj_what = 0, sj_mbuf = [], sj_pbuf = [], sj_pargs = 0\<rparr>);
          s2 = (if limit old \<noteq> 0 \<and> limit new = 0 then sj_letter (- 1) CHR ''l'' s1 else s1);
          s3 = (if key old \<noteq> [] \<and> key new = [] then sj_param (key old) (sj_letter (- 1) CHR ''k'' s2) else s2);
          s4 = (if limit new \<noteq> 0 \<and> limit old \<noteq> limit new
                then sj_param (dec_int (limit new)) (sj_letter 1 CHR ''l'' s3) else s3)
      in if key new \<noteq> [] \<and> strcmp (key old) (key new) \<noteq> 0
         then sj_param (key new) (sj_letter 1 CHR ''k'' s4) else s4)"

definition sjoin_sendit :: "cid \<Rightarrow> cstr \<Rightarrow> chid \<Rightarrow> cstr \<times> cstr \<Rightarrow> world \<Rightarrow> world" where
  "sjoin_sendit sptr p0 x l w =
     sendto_channel_butserv x sptr (Fmt '':%s MODE %s %s %s'')
       [Str p0, Str (chname (ch w x)), Str (fst l), Str (snd l)] w"

text \<open>Taking op and voice from our members: the lines that are full, and the line begun.\<close>

definition strip_flag :: "char \<Rightarrow> cstr \<Rightarrow> (cstr \<times> cstr) list \<times> sj \<Rightarrow> (cstr \<times> cstr) list \<times> sj" where
  "strip_flag c nm st =
     (case st of (ls, s) \<Rightarrow>
        let s1 = sj_param nm (sj_letter (- 1) c s) in
        if sj_pargs s1 \<ge> MAXMODEPARAMS
        then (ls @ [(sj_mbuf s1, sj_pbuf s1)], \<lparr>sj_what = 0, sj_mbuf = [], sj_pbuf = [], sj_pargs = 0\<rparr>)
        else (ls, s1))"

definition strip_member :: "world \<Rightarrow> member \<Rightarrow> (cstr \<times> cstr) list \<times> sj \<Rightarrow> (cstr \<times> cstr) list \<times> sj" where
  "strip_member w m st =
     (let nm = name (cl w (m_client m));
          st1 = (if has_flag (m_flags m) MODE_CHANOP then strip_flag CHR ''o'' nm st else st)
      in if has_flag (m_flags m) MODE_VOICE then strip_flag CHR ''v'' nm st1 else st1)"

definition strip_status :: "chid \<Rightarrow> world \<Rightarrow> world" where
  "strip_status x w =
     upd_ch x (\<lambda>k. k\<lparr>members := map (\<lambda>m. m\<lparr>m_flags := m_flags m AND NOT MODE_CHANOP AND NOT MODE_VOICE\<rparr>) (members k)\<rparr>) w"

text \<open>The modes of the channel are replaced and the change is told to the local members.\<close>

definition sjoin_modes :: "cid \<Rightarrow> cstr \<Rightarrow> chid \<Rightarrow> bool \<Rightarrow> chanmode \<Rightarrow> int \<Rightarrow> int \<Rightarrow> world \<Rightarrow> world" where
  "sjoin_modes sptr p0 x keep_our new oldts newts w =
     (let s = sj_changes (mode (ch w x)) new;
          w1 = upd_ch x (\<lambda>k. k\<lparr>mode := new\<rparr>) w;
          (s2, w2) =
            (if keep_our then (s, w1)
             else
               let (ls, s1) = fold (strip_member w1) (members (ch w1 x)) ([], s\<lparr>sj_what := 0\<rparr>);
                   nm = Str (chname (ch w1 x))
               in (s1, sendto_channel_butserv x (me w1) (Fmt '':%s NOTICE %s :*** Notice -- TS for %s changed from %lu to %lu'')
                         [me_name w1, nm, nm, Num oldts, Num newts]
                         (strip_status x (fold (sjoin_sendit sptr p0 x) ls w1))))
      in if sj_mbuf s2 \<noteq> [] then sjoin_sendit sptr p0 x (sj_mbuf s2, sj_pbuf s2) w2 else w2)"

section \<open>The members they have\<close>

record sjn =
  sn_mbuf :: cstr
  sn_pbuf :: cstr
  sn_pargs :: nat
  sn_names :: "cstr list"
  sn_people :: nat

definition nick_flags :: "bool \<Rightarrow> cstr \<Rightarrow> flags" where
  "nick_flags keep_new s0 =
     (let op = at s0 0 = CHR ''@'' \<or> at s0 1 = CHR ''@''; vo = at s0 0 = CHR ''+'' \<or> at s0 1 = CHR ''+'' in
      if keep_new then (if op then MODE_CHANOP else 0) OR (if vo then MODE_VOICE else 0)
      else if op then MODE_DEOPPED else 0)"

definition nick_of :: "cstr \<Rightarrow> cstr" where
  "nick_of s0 = dropWhile (\<lambda>c. c = CHR ''@'' \<or> c = CHR ''+'') s0"

text \<open>One status letter announced; a line with \<open>MAXMODEPARAMS\<close> of them is sent.\<close>

definition nick_mode :: "cid \<Rightarrow> cstr \<Rightarrow> chid \<Rightarrow> char \<Rightarrow> cstr \<Rightarrow> sjn \<times> world \<Rightarrow> sjn \<times> world" where
  "nick_mode sptr p0 x c s st =
     (case st of (n, w) \<Rightarrow>
        let n1 = n\<lparr>sn_mbuf := sn_mbuf n @ [c], sn_pbuf := sn_pbuf n @ s @ '' '', sn_pargs := sn_pargs n + 1\<rparr> in
        if sn_pargs n1 \<ge> MAXMODEPARAMS
        then (n1\<lparr>sn_mbuf := ''+'', sn_pbuf := [], sn_pargs := 0\<rparr>, sjoin_sendit sptr p0 x (sn_mbuf n1, sn_pbuf n1) w)
        else (n1, w))"

definition sjoin_nicks1 :: "cid \<Rightarrow> cid \<Rightarrow> cstr \<Rightarrow> cstr \<Rightarrow> chid \<Rightarrow> bool \<Rightarrow> cstr \<Rightarrow> sjn \<times> world \<Rightarrow> sjn \<times> world" where
  "sjoin_nicks1 cptr sptr p0 nm x keep_new s0 st =
     (case st of (n, w) \<Rightarrow>
        let fl = nick_flags keep_new s0; s = nick_of s0 in
        case find_chasing sptr s w of
          (None, _, w1) \<Rightarrow> (n, w1)
        | (Some a, _, w1) \<Rightarrow>
            if cfrom (cl w1 a) \<noteq> cptr then (n, w1)
            else
              let w2 = (if IsMember w1 a x then w1
                        else sendto_channel_butserv x a (Fmt '':%s JOIN :%s'') [Str s, Str nm]
                               (add_user_to_channel x a fl w1));
                  n2 = n\<lparr>sn_people := sn_people n + 1, sn_names := sn_names n @ [if keep_new then s0 else s]\<rparr>;
                  st3 = (if has_flag fl MODE_CHANOP then nick_mode sptr p0 x CHR ''o'' s (n2, w2) else (n2, w2))
              in if has_flag fl MODE_VOICE then nick_mode sptr p0 x CHR ''v'' s st3 else st3)"

definition join_space :: "cstr list \<Rightarrow> cstr" where
  "join_space ss = (case ss of [] \<Rightarrow> [] | s # r \<Rightarrow> s @ concat (map (\<lambda>t. CHR '' '' # t) r))"

text \<open>The text in \<open>sjbuf\<close> up to the list of nicks.\<close>

definition sjoin_line :: "world \<Rightarrow> cid \<Rightarrow> cstr \<Rightarrow> cstr \<Rightarrow> chid \<Rightarrow> int \<Rightarrow> bool \<Rightarrow> cstr" where
  "sjoin_line w sptr p0 nm x ts with_modes =
     (let (mb, pb) = (if with_modes then channel_modes w sptr [] x else (''0'', []))
      in '':'' @ p0 @ '' SJOIN '' @ dec_int ts @ '' '' @ nm @ '' '' @ mb @ '' '' @ pb @ '' :'')"

definition sjoin_nicks :: "cid \<Rightarrow> cid \<Rightarrow> cstr list \<Rightarrow> chid \<Rightarrow> int \<Rightarrow> bool \<Rightarrow> cstr list \<Rightarrow> world \<Rightarrow> world" where
  "sjoin_nicks cptr sptr parv x ts keep_new nicks w =
     (let p0 = parv ! 0; nm = parv ! 2;
          line = sjoin_line w sptr p0 nm x ts (at (parv ! 3) 0 \<noteq> CHR ''0'' \<and> keep_new);
          (n, w1) = fold (sjoin_nicks1 cptr sptr p0 nm x keep_new) nicks
                      (\<lparr>sn_mbuf = ''+'', sn_pbuf = [], sn_pargs = 0, sn_names = [], sn_people = 0\<rparr>, w);
          w2 = (if sn_pargs n > 0 then sjoin_sendit sptr p0 x (sn_mbuf n, sn_pbuf n) w1 else w1)
      in if sn_people n > 0
         then sendto_match_servs (Some x) cptr (Fmt ''%s'') [Str (line @ join_space (sn_names n))] w2 else w2)"

section \<open>\<open>m_sjoin\<close>\<close>

definition sjoin_on :: "cid \<Rightarrow> cid \<Rightarrow> cstr list \<Rightarrow> chanmode \<Rightarrow> cstr \<Rightarrow> bool \<Rightarrow> chid \<Rightarrow> world \<Rightarrow> world" where
  "sjoin_on cptr sptr parv m nicks isnew x w =
     (let newts = atoi (parv ! 1); k = ch w x; oldts = channelts k; nm = Str (chname k);
          w1 = (if \<not> isnew \<and> newts = 0 \<and> oldts \<noteq> 0 then
                  sendto_realops (Fmt ''Server %s changing TS on %s from %lu to 0'')
                    [Str (name (cl w sptr)), Str (parv ! 2), Num oldts]
                    (sendto_channel_butserv x (me w) (Fmt '':%s NOTICE %s :*** Notice -- TS for %s changed from %lu to 0'')
                      [me_name w, nm, nm, Num oldts] w)
                else w);
          (tosend, ts, keep_our, keep_new) = sjoin_ts isnew newts oldts (juped k \<and> users k = 0);
          w2 = upd_ch x (\<lambda>k. k\<lparr>channelts := ts\<rparr>) w1;
          w3 = sjoin_modes sptr (parv ! 0) x keep_our (merge_modes keep_our keep_new (mode k) m) oldts newts w2
      in sjoin_nicks cptr sptr parv x tosend keep_new (strtokens (Some nicks) '' '') w3)"

definition m_sjoin :: "cid \<Rightarrow> cid \<Rightarrow> cstr list \<Rightarrow> world \<Rightarrow> world" where
  "m_sjoin cptr sptr parv w =
     (if IsClient (cl w sptr) \<or> length parv < 5 \<or> \<not> IsChannelName (parv ! 2) \<or>
         \<not> check_channel_name (parv ! 2) \<or> at (parv ! 2) 0 = CHR ''&'' then w
      else case sjoin_parse parv (parv ! 3) no_modes 0 of
        None \<Rightarrow> w
      | Some (m, a) \<Rightarrow>
          (case get_channel sptr (parv ! 2) True w of
             (None, _, w1) \<Rightarrow> w1
           | (Some x, _, w1) \<Rightarrow>
               sjoin_on cptr sptr parv m (parv ! (4 + a)) (find_channel w (parv ! 2) = None) x w1))"

end
