(* ===== verification/ChanOps.thy ===== *)
theory ChanOps
  imports Sjoin ModeSpec
begin

text \<open>
  The commands on channels as one interface.  The locale \<open>chan_ops\<close> lists the operations on
  the state that \<open>m_join\<close>, \<open>m_part\<close>, \<open>m_kick\<close>, \<open>m_topic\<close>, \<open>m_invite\<close>, \<open>m_sjoin\<close> and \<open>m_mode\<close> are
  made of, each with the conditions under which the handlers use it; a property that these
  keep is kept by every command.  It is interpreted for the consistency of the channels,
  the bounds of the fields of fixed size, and the identity of clients.
\<close>

section \<open>What is kept\<close>

text \<open>The arrays of the structures: \<open>topic[TOPICLEN + 1]\<close>, \<open>topic_nick[NICKLEN + 1]\<close>, \<open>key[KEYLEN + 1]\<close>.\<close>

definition fields_ok :: "world \<Rightarrow> bool" where
  "fields_ok w \<longleftrightarrow> (\<forall>x. length (topic (ch w x)) \<le> TOPICLEN \<and> length (topic_nick (ch w x)) \<le> NICKLEN \<and>
     length (key (mode (ch w x))) \<le> KEYLEN)"

definition ident :: "client \<Rightarrow> cstr \<times> cstr \<times> cstr \<times> flags \<times> bool \<times> cid \<times> cid \<times> bool" where
  "ident c = (name c, username c, host c, status c, local_flag c, cfrom c, servptr c, user c = None)"

definition around :: "world \<Rightarrow> cid htable \<times> whowas_db \<times> cid \<times> cid list \<times> cid list \<times> int" where
  "around w = (client_tab w, history w, me w, serv_list w, client_list w, now w)"

lemma ident_simps [simp]:
  "ident (k\<lparr>user := map_option f (user k)\<rparr>) = ident k" "ident (k\<lparr>fludees := fs\<rparr>) = ident k"
  "ident (k\<lparr>umodes := u\<rparr>) = ident k" "ident (k\<lparr>flags2 := u\<rparr>) = ident k"
  "ident (k\<lparr>join_leave_count := n, last_leave_time := t\<rparr>) = ident k"
  "ident (k\<lparr>oper_warn_count_down := n\<rparr>) = ident k" "ident (k\<lparr>last_join_time := n\<rparr>) = ident k"
  by (simp_all add: ident_def)

lemma around_simps [simp]:
  "around (log_out os w) = around w" "around (w\<lparr>clients := d\<rparr>) = around w" "around (w\<lparr>chans := k\<rparr>) = around w"
  "around (w\<lparr>chan_list := l\<rparr>) = around w" "around (w\<lparr>chan_tab := t\<rparr>) = around w"
  "around (w\<lparr>count_chan := n\<rparr>) = around w" "around (w\<lparr>next_chan := i\<rparr>) = around w"
  "around (w\<lparr>server_was_split := b\<rparr>) = around w" "around (w\<lparr>server_split_time := n\<rparr>) = around w"
  "around (w\<lparr>cold_start := b\<rparr>) = around w" "around (upd_user c f w) = around w"
  by (simp_all add: around_def upd_user_def)

lemma around_ts_warn [simp]: "around (ts_warn f a w) = around w"
  by (simp add: ts_warn_def sendto_realops_def around_def)

lemma around_remove_fludee [simp]: "around (remove_fludee_reference c t w) = around w"
  by (simp add: remove_fludee_reference_def)

lemma ident_remove_fludee [simp]: "ident (cl (remove_fludee_reference c t w) d) = ident (cl w d)"
  by (simp add: remove_fludee_reference_def)

lemma fold_remove_fludee_ident [simp]:
  "around (fold (\<lambda>b. remove_fludee_reference (f b) t) bs w) = around w"
  "ident (cl (fold (\<lambda>b. remove_fludee_reference (f b) t) bs w) d) = ident (cl w d)"
  by (induction bs arbitrary: w) simp_all

lemma free_fluders_ident [simp]:
  "around (free_fluders_channel x w) = around w" "ident (cl (free_fluders_channel x w) d) = ident (cl w d)"
  by (simp_all add: free_fluders_channel_def)

lemma del_invite_ident [simp]: "around (del_invite c x w) = around w" "ident (cl (del_invite c x w) d) = ident (cl w d)"
  by (simp_all add: del_invite_def)

lemma del_all_invites_ident [simp]:
  "around (del_all_invites x w) = around w" "ident (cl (del_all_invites x w) d) = ident (cl w d)"
proof -
  have "around (fold (\<lambda>c. del_invite c x) cs w) = around w \<and> ident (cl (fold (\<lambda>c. del_invite c x) cs w) d) = ident (cl w d)" for cs
    by (induction cs arbitrary: w) simp_all
  then show "around (del_all_invites x w) = around w" "ident (cl (del_all_invites x w) d) = ident (cl w d)"
    by (simp_all add: del_all_invites_def)
qed

lemma free_bans_around [simp]: "around (free_bans_exceptions_denies x w) = around w"
  by (simp add: free_bans_exceptions_denies_def)

lemma sub1_ident [simp]:
  "around (sub1_from_channel x w) = around w" "ident (cl (sub1_from_channel x w) d) = ident (cl w d)"
  by (simp_all add: sub1_from_channel_def free_channel_def Let_def)

lemma remove_user_ident [simp]:
  "around (remove_user_from_channel c x w) = around w" "ident (cl (remove_user_from_channel c x w) d) = ident (cl w d)"
  by (simp_all add: remove_user_from_channel_def)

lemma add_user_ident [simp]:
  "around (add_user_to_channel x c fl w) = around w" "ident (cl (add_user_to_channel x c fl w) d) = ident (cl w d)"
  by (simp_all add: add_user_to_channel_def)

lemma add_invite_ident [simp]: "around (add_invite c x w) = around w" "ident (cl (add_invite c x w) d) = ident (cl w d)"
  by (simp_all add: add_invite_def Let_def)

text \<open>The fields of fixed size: only the topic and the key are ever written.\<close>

definition sized :: "channel \<Rightarrow> cstr \<times> cstr \<times> chanmode" where
  "sized k = (topic k, topic_nick k, mode k)"

lemma fields_ok_cong: "(\<And>x. sized (ch w' x) = sized (ch w x)) \<Longrightarrow> fields_ok w \<Longrightarrow> fields_ok w'"
  by (simp add: fields_ok_def sized_def)

lemma sized_simps [simp]:
  "sized (k\<lparr>members := m\<rparr>) = sized k" "sized (k\<lparr>users := n\<rparr>) = sized k" "sized (k\<lparr>members := m, users := n\<rparr>) = sized k"
  "sized (k\<lparr>invites := i\<rparr>) = sized k" "sized (k\<lparr>channelts := t\<rparr>) = sized k" "sized (k\<lparr>juped := j\<rparr>) = sized k"
  "sized (k\<lparr>ch_fluders := fs\<rparr>) = sized k" "sized (k\<lparr>ch_fluders_freed := b\<rparr>) = sized k"
  "sized (set_list ty bs k) = sized k" "sized (k\<lparr>num_bed := n\<rparr>) = sized k"
  "sized (k\<lparr>banlist := a, exceptlist := e, num_bed := n\<rparr>) = sized k"
  "sized (k\<lparr>banlist := a, exceptlist := e\<rparr>) = sized k"
  by (simp_all add: sized_def set_list_def split: listtype.split)

lemma sized_del_invite [simp]: "sized (ch (del_invite c x w) y) = sized (ch w y)"
  by (simp add: del_invite_def)

lemma sized_del_all [simp]: "sized (ch (del_all_invites x w) y) = sized (ch w y)"
proof -
  have "sized (ch (fold (\<lambda>c. del_invite c x) cs w) y) = sized (ch w y)" for cs
    by (induction cs arbitrary: w) simp_all
  then show ?thesis by (simp add: del_all_invites_def)
qed

lemma sized_sub1 [simp]: "sized (ch (sub1_from_channel x w) y) = sized (ch w y)"
  by (simp add: sub1_from_channel_def free_channel_def free_bans_exceptions_denies_def free_fluders_channel_def Let_def)

lemma sized_members [simp]:
  "sized (ch (remove_user_from_channel c x w) y) = sized (ch w y)"
  "sized (ch (add_user_to_channel x c fl w) y) = sized (ch w y)"
  "sized (ch (add_invite c x w) y) = sized (ch w y)"
  by (simp_all add: remove_user_from_channel_def add_user_to_channel_def add_invite_def Let_def)

lemma sized_lists [simp]:
  "sized (ch (snd (add_id c x m ty w)) y) = sized (ch w y)" "sized (ch (snd (del_id x m ty w)) y) = sized (ch w y)"
  by (simp_all add: add_id_def del_id_def Let_def send_defs)

lemma sized_flags [simp]:
  "sized (ch (change_chan_flag x c fl w) y) = sized (ch w y)" "sized (ch (set_deopped c x fl w) y) = sized (ch w y)"
  by (simp_all add: change_chan_flag_def set_deopped_def)

lemma fields_ok_mode:
  "fields_ok w \<Longrightarrow> length (key m) \<le> KEYLEN \<Longrightarrow> fields_ok (upd_ch x (\<lambda>k. k\<lparr>mode := m\<rparr>) w)"
  by (simp add: fields_ok_def)

lemma fields_ok_small:
  assumes "fields_ok w"
  shows "length ky \<le> KEYLEN \<Longrightarrow> fields_ok (set_key x ky w)" "fields_ok (set_limit x n w)" "fields_ok (set_flag x on fl w)"
  using assms by (auto simp: fields_ok_def set_key_def set_limit_def set_flag_def)

text \<open>A mode command keeps the sizes and the identities.\<close>

lemma fields_ok_ops:
  assumes "fields_ok w"
  shows "fields_ok (log_out os w)" "fields_ok (ts_warn f a w)" "fields_ok (set_deopped c x fl w)"
    "fields_ok (change_chan_flag x c fl w)" "fields_ok (snd (add_id c x m ty w))" "fields_ok (snd (del_id x m ty w))"
    "fields_ok (del_all_invites x w)" "fields_ok (upd_ch x (\<lambda>k. k\<lparr>juped := b\<rparr>) w)" "fields_ok (sub1_from_channel x w)"
  by (rule fields_ok_cong [OF _ assms], simp)+

interpretation sizes: mode_pass "\<lambda>e. fields_ok"
  by unfold_locales (simp_all add: fields_ok_ops fields_ok_small)

interpretation idents: mode_pass "\<lambda>e w. (\<forall>c. ident (cl w c) = I c) \<and> around w = A" for I A
  by unfold_locales (simp_all add: change_chan_flag_def set_deopped_def set_key_def set_limit_def set_flag_def
      add_id_def del_id_def Let_def send_defs)

section \<open>Facts on the operations\<close>

lemma remove_user_chans:
  "u_chans (cl (remove_user_from_channel c x w) d) = (if d = c then remove1 x (u_chans (cl w c)) else u_chans (cl w d))"
proof -
  have s: "u_chans (cl (sub1_from_channel x w) e) = u_chans (cl w e)" for w e
    by (simp add: sub1_from_channel_def free_channel_def Let_def)
  show ?thesis by (cases "user (cl w c)") (auto simp: remove_user_from_channel_def s, simp_all add: u_chans_def)
qed

lemma get_channel_cases:
  assumes "get_channel c nm b w = (r, nm', w')"
  obtains "r = None" "w' = w"
  | x where "r = Some x" "w' = w" "find_channel w nm' = Some x" "nm' = nm \<or> nm' = take CHANNELLEN nm"
  | "r = Some (fst (new_channel nm' w))" "w' = snd (new_channel nm' w)" "find_channel w nm' = None" "b"
    "nm' = nm \<or> nm' = take CHANNELLEN nm"
proof (cases "nm = []")
  case True
  have "r = None" "w' = w" using assms by (simp_all add: True get_channel_def)
  then show ?thesis by (rule that(1))
next
  case False
  define n where "n = (if MyClient (cl w c) \<and> length nm > CHANNELLEN then take CHANNELLEN nm else nm)"
  have n: "n = nm \<or> n = take CHANNELLEN nm" by (simp add: n_def)
  have eq: "get_channel c nm b w = (case find_channel w n of Some x \<Rightarrow> (Some x, n, w)
      | None \<Rightarrow> if b then let (x, w1) = new_channel n w in (Some x, n, w1) else (None, n, w))"
    using False unfolding get_channel_def Let_def n_def [symmetric] by simp
  show ?thesis
  proof (cases "find_channel w n")
    case None
    show ?thesis
    proof (cases b)
      case True
      have r: "r = Some (fst (new_channel n w))" "nm' = n" "w' = snd (new_channel n w)"
        using assms unfolding eq None by (auto simp: True split: prod.splits)
      show ?thesis by (rule that(3); simp only: r True None n)
    next
      case False
      have "r = None" "w' = w" using assms unfolding eq None by (simp_all add: False)
      then show ?thesis by (rule that(1))
    qed
  next
    case (Some x)
    have r: "r = Some x" "nm' = n" "w' = w" using assms unfolding eq Some by simp_all
    show ?thesis by (rule that(2); simp only: r Some n)
  qed
qed

lemma find_alive: "chan_inv w \<Longrightarrow> cstring nm \<Longrightarrow> find_channel w nm = Some x \<Longrightarrow> x \<in> set (chan_list w)"
  by (simp add: find_channel_Some)

lemma find_channel_listed: "chan_inv w \<Longrightarrow> find_channel w nm = Some x \<Longrightarrow> x \<in> set (chan_list w)"
  by (auto simp: find_channel_def hash_find_channel_def tab_find_def find_Some_iff chan_inv_def table_ok_def tab_ok_def
      split: option.splits dest!: nth_mem)

text \<open>Steps that only send.\<close>

definition logs :: "world \<Rightarrow> world \<Rightarrow> bool" where "logs w v \<longleftrightarrow> (\<exists>os. v = log_out os w)"

lemma logs_refl [simp]: "logs w w"
  unfolding logs_def by (rule exI [of _ "[]"]) (simp add: log_out_def)

lemma logs_step [simp]: "logs w v \<Longrightarrow> logs w (log_out os v)"
  by (auto simp: logs_def log_out_def)

lemma can_join_logs: "can_join c x ky fl w = (i, fl', w') \<Longrightarrow> logs w w'"
  unfolding can_join_def Let_def sendto_ops_flags_def by (auto split: if_splits)

lemma find_chasing_logs: "find_chasing c nm w = (r, b, w') \<Longrightarrow> logs w w'"
  unfolding find_chasing_def sendto_one_def by (auto split: option.splits)

lemma m_names_logs: "logs w (m_names cptr sptr parv w)"
  by (simp add: m_names_def Let_def send_names_def sendto_one_def)

section \<open>The interface\<close>

text \<open>Who may jupe a channel: a MODE of theirs on a channel without members is left out, since
  \<open>-j\<close> frees it (\<open>unjupe_twice\<close>).\<close>

definition local_oper :: "client \<Rightarrow> bool" where
  "local_oper k \<longleftrightarrow> MyConnect k \<and> IsAnOper k"

locale chan_ops =
  fixes P :: "world \<Rightarrow> bool" and L :: "cid \<Rightarrow> bool"
  assumes inv: "P w \<Longrightarrow> chan_inv w"
    and loc: "P w \<Longrightarrow> MyConnect (cl w c) = L c"
    and key_len: "P w \<Longrightarrow> length (key (mode (ch w x))) \<le> KEYLEN"
    and log: "P w \<Longrightarrow> P (log_out os w)"
    and warn: "P w \<Longrightarrow> P (ts_warn f a w)"
    and split: "P w \<Longrightarrow> P (w\<lparr>server_was_split := b\<rparr>)" "P w \<Longrightarrow> P (w\<lparr>cold_start := b\<rparr>)"
      "P w \<Longrightarrow> P (w\<lparr>server_split_time := n\<rparr>)"
    and spam: "P w \<Longrightarrow> P (upd_cl c (\<lambda>k. k\<lparr>oper_warn_count_down := n\<rparr>) w)"
      "P w \<Longrightarrow> P (upd_cl c (\<lambda>k. k\<lparr>join_leave_count := n, last_leave_time := t\<rparr>) w)"
      "P w \<Longrightarrow> P (upd_cl c (\<lambda>k. k\<lparr>last_join_time := n\<rparr>) w)"
    and enter: "P w \<Longrightarrow> \<not> IsMember w c x \<Longrightarrow> x \<in> set (chan_list w) \<Longrightarrow> P (add_user_to_channel x c fl w)"
    and leave: "P w \<Longrightarrow> IsMember w c x \<Longrightarrow> P (remove_user_from_channel c x w)"
    and create: "P w \<Longrightarrow> cstring nm \<Longrightarrow> find_channel w nm = None \<Longrightarrow> P (snd (new_channel nm w))"
    and uninvite: "P w \<Longrightarrow> P (del_invite c x w)"
    and invite: "P w \<Longrightarrow> x \<in> set (chan_list w) \<Longrightarrow> user (cl w c) \<noteq> None \<Longrightarrow> P (add_invite c x w)"
    and stamp: "P w \<Longrightarrow> P (upd_ch x (\<lambda>k. k\<lparr>channelts := n\<rparr>) w)"
    and topics: "P w \<Longrightarrow> length txt \<le> TOPICLEN \<Longrightarrow> length who \<le> NICKLEN \<Longrightarrow>
      P (upd_ch x (\<lambda>k. k\<lparr>topic := txt, topic_nick := who, topic_time := n\<rparr>) w)"
    and modes: "P w \<Longrightarrow> length (key m) \<le> KEYLEN \<Longrightarrow> P (upd_ch x (\<lambda>k. k\<lparr>mode := m\<rparr>) w)"
    and strip: "P w \<Longrightarrow> P (strip_status x w)"
    and pass: "P w \<Longrightarrow> x \<in> set (chan_list w) \<Longrightarrow> members (ch w x) \<noteq> [] \<or> \<not> local_oper (cl w sptr) \<Longrightarrow>
      P (set_channel_mode cptr sptr x parv w)"
    and umode: "P w \<Longrightarrow> P (user_mode cptr sptr parv w)"
begin

lemma sends:
  assumes "P w"
  shows "P (sendto_one to f a w)" "P (sendto_channel_butserv x c f a w)" "P (sendto_match_servs y c f a w)"
    "P (sendto_match_cap_servs y c fl f a w)" "P (sendto_ops f a w)" "P (sendto_realops f a w)"
    "P (sendto_ops_flags fl f a w)" "P (sendto_channel_type one frm x fl s1 s2 s3 w)" "P (send_topic c p n x w)"
  using assms log by (simp_all add: send_defs send_topic_def Let_def)

lemma names: "P w \<Longrightarrow> P (m_names cptr sptr parv w)"
  using m_names_logs [of w cptr sptr parv] log by (auto simp: logs_def)

lemma get:
  assumes "P w" "cstring nm" "get_channel c nm b w = (r, nm', w')"
  shows "P w'" "cstring nm'" "\<And>x. r = Some x \<Longrightarrow> x \<in> set (chan_list w')"
proof -
  have n: "cstring (take CHANNELLEN nm)" using assms(2) by (rule cstring_take)
  show "P w'" "\<And>x. r = Some x \<Longrightarrow> x \<in> set (chan_list w')"
    by (rule get_channel_cases [OF assms(3)];
        use assms n create inv in \<open>auto simp: new_channel_inv dest: find_alive [OF inv]\<close>)+
  show "cstring nm'" using assms(2,3) n by (auto simp: get_channel_def Let_def split: if_splits option.splits prod.splits)
qed

lemma get':
  assumes "P w" "cstring nm"
  shows "P (snd (snd (get_channel c nm b w)))"
    "\<And>x. fst (get_channel c nm b w) = Some x \<Longrightarrow> x \<in> set (chan_list (snd (snd (get_channel c nm b w))))"
  using get [OF assms, of c b] by (metis prod.collapse)+

lemma chasing: "P w \<Longrightarrow> find_chasing c nm w = (r, b, w') \<Longrightarrow> P w'"
  using find_chasing_logs [of c nm w r b w'] log by (auto simp: logs_def)

lemma leave_spam: "P w \<Longrightarrow> P (spam_leave c w)"
  by (simp add: spam_leave_def Let_def sends spam)

lemma join_spam: "P w \<Longrightarrow> P (spam_join c nm w)"
  by (simp add: spam_join_def Let_def sends spam)

lemma still_split: "P w \<Longrightarrow> P (check_still_split w)"
  by (simp add: check_still_split_def sends split)

end

section \<open>Leaving\<close>

context chan_ops
begin

lemma part_one:
  assumes "P w" "cstring nm"
  shows "P (part_one cptr sptr p0 msg nm w)"
proof -
  obtain r nm' w' where g: "get_channel sptr nm False w = (r, nm', w')" by (metis prod_cases3)
  show ?thesis
    using get(1) [OF assms g] by (auto simp: part_one_def g Let_def sends IsMember_def send_defs log intro!: leave split: option.split)
qed

lemma parts: "P w \<Longrightarrow> \<forall>nm \<in> set nms. cstring nm \<Longrightarrow> P (fold (part_one cptr sptr p0 msg) nms w)"
  by (induction nms arbitrary: w) (simp_all add: part_one)

lemma part:
  assumes "P w" "\<And>p. par parv 1 = Some p \<Longrightarrow> cstring p"
  shows "P (m_part cptr sptr parv w)"
proof -
  have "\<forall>nm \<in> set (strtokens (Some (parv ! 1)) '',''). cstring nm" if "\<not> length parv < 2"
    using that assms(2) by (auto simp: par_def intro: cstring_strtokens)
  then show ?thesis using assms(1) by (simp add: m_part_def Let_def sends leave_spam parts)
qed

lemma part_all: "P w \<Longrightarrow> u_chans (cl w sptr) = xs \<Longrightarrow> P (part_all sptr p0 xs w)"
proof (induction xs arbitrary: w)
  case (Cons x xs)
  let ?w = "sendto_channel_butserv x sptr PartFmt [Str p0, Str (chname (ch w x)), Str []] w"
  have "P ?w" using Cons.prems by (simp add: sends)
  moreover have "IsMember ?w sptr x" using Cons.prems by (simp add: IsMember_def send_defs)
  ultimately have "P (remove_user_from_channel sptr x ?w)" by (rule leave)
  then show ?case using Cons.IH Cons.prems by (simp add: remove_user_chans send_defs)
qed simp

lemma kick_who:
  assumes "P w"
  shows "P (kick_who cptr sptr p0 nm usr msg x w)"
proof -
  obtain r b w' where f: "find_chasing sptr usr w = (r, b, w')" by (metis prod_cases3)
  show ?thesis
    using chasing [OF assms f] by (auto simp: kick_who_def f Let_def sends IsMember_def send_defs log intro!: leave split: option.split)
qed

lemma kick:
  assumes "P w" "\<And>p. par parv 1 = Some p \<Longrightarrow> cstring p"
  shows "P (m_kick cptr sptr parv w)"
proof -
  define w0 where "w0 = (if IsServer (cl w sptr) then sendto_ops (Fmt ''KICK from %s for %s %s'')
      [Str (parv ! 0), Str (parv ! 1), Str (parv ! 2)] w else w)"
  obtain r nm' w' where g: "get_channel sptr (up_to_comma (parv ! 1)) False w0 = (r, nm', w')" by (metis prod_cases3)
  have c: "cstring (up_to_comma (parv ! 1))" if "\<not> length parv < 3"
    using that assms(2) by (auto simp: par_def up_to_comma_def cstring_def dest: set_takeWhileD)
  have "P w0" using assms(1) by (simp add: w0_def sends)
  then have "P w'" if "\<not> length parv < 3" using get(1) [OF _ c g] that by simp
  then show ?thesis
    using assms(1) unfolding m_kick_def Let_def w0_def [symmetric] g by (simp add: sends kick_who split: option.split)
qed

section \<open>Topics and invitations\<close>

lemma set_topic: "P w \<Longrightarrow> P (set_topic cptr sptr p0 x txt w)"
  by (simp add: set_topic_def Let_def sends topics)

lemma topic: "P w \<Longrightarrow> P (m_topic cptr sptr parv w)"
  by (simp add: m_topic_def Let_def sends set_topic split: option.split)

lemma do_invite:
  assumes "P w" "x \<in> set (chan_list w)" "user (cl w a) \<noteq> None"
  shows "P (do_invite cptr sptr parv a x w)"
  using assms by (auto simp: do_invite_def Let_def send_defs intro!: invite log split: option.split)

lemma invites:
  assumes "P w" "\<And>p. par parv 2 = Some p \<Longrightarrow> cstring p"
  shows "P (m_invite cptr sptr parv w)"
proof -
  have "x \<in> set (chan_list w)" if "find_channel w (parv ! 2) = Some x" "\<not> length parv < 3" for x
    using that assms(2) find_alive [OF inv [OF assms(1)]] by (simp add: par_def)
  moreover have "user (cl w a) \<noteq> None" if "find_person w nm None = Some a" for a nm
    using that by (auto simp: find_person_def split: option.splits if_splits)
  ultimately show ?thesis
    using assms(1) by (auto simp: m_invite_def Let_def sends do_invite split: option.split)
qed

lemma knock: "P w \<Longrightarrow> P (m_knock cptr sptr parv w)"
  by (simp add: m_knock_def Let_def sends)

lemma mode:
  assumes "P w" "\<And>x. 3 \<le> length parv \<Longrightarrow> find_channel w (parv ! 1) = Some x \<Longrightarrow> members (ch w x) \<noteq> [] \<or> \<not> local_oper (cl w sptr)"
  shows "P (m_mode cptr sptr parv w)"
  using assms find_channel_listed [OF inv [OF assms(1)]] by (auto simp: m_mode_def Let_def sends umode pass split: option.split prod.split)

end

section \<open>Joining\<close>

lemma chan_list_sends [simp]:
  "chan_list (sendto_one to f a w) = chan_list w" "chan_list (sendto_match_servs y c f a w) = chan_list w"
  "chan_list (sendto_channel_butserv x c f a w) = chan_list w" "chan_list (add_user_to_channel x c fl w) = chan_list w"
  by (simp_all add: send_defs add_user_to_channel_def upd_user_def)

lemma logs_chan_list: "logs w w' \<Longrightarrow> chan_list w' = chan_list w"
  by (auto simp: logs_def)

lemma join_done_chan_list: "chan_list (join_done cptr sptr p0 x fl nm w) = chan_list w"
  by (simp add: join_done_def Let_def new_modes_def send_topic_def logs_chan_list [OF m_names_logs])

context chan_ops
begin

lemma new_modes: "P w \<Longrightarrow> P (new_modes x c w)"
  by (simp add: new_modes_def Let_def sends modes key_len)

lemma join_done: "P w \<Longrightarrow> P (join_done cptr sptr p0 x fl nm w)"
  by (auto simp: join_done_def Let_def intro!: names sends uninvite new_modes stamp)

text \<open>The loop over the names: a channel carried over from one name to the next is alive.\<close>

definition alive :: "chid option \<Rightarrow> world \<Rightarrow> bool" where
  "alive r w \<longleftrightarrow> (\<forall>x. r = Some x \<longrightarrow> x \<in> set (chan_list w))"

definition good :: "join_state \<Rightarrow> bool" where
  "good st \<longleftrightarrow> P (snd st) \<and> (\<forall>r n. fst st = Some (r, n) \<longrightarrow> alive r (snd st))"

lemma join_enter:
  assumes "P w" "cstring nm" "alive chptr w"
  shows "good (join_enter cptr sptr p0 ky flg chptr n nm w)"
proof -
  obtain r nm' w1 where g: "(case chptr of Some x \<Rightarrow> (Some x, nm, w) | None \<Rightarrow> get_channel sptr nm True w) = (r, nm', w1)"
    by (metis prod_cases3)
  have w1: "P w1" "alive r w1"
    using g assms get [OF assms(1,2), of sptr True r nm' w1] by (auto simp: alive_def split: option.splits)
  show ?thesis
  proof (cases r)
    case None
    then show ?thesis using w1 unfolding join_enter_def g by (simp add: good_def sends alive_def)
  next
    case (Some x)
    obtain i fl w2 where j: "(if MyConnect (cl w1 sptr) then can_join sptr x ky flg w1 else (0, flg, w1)) = (i, fl, w2)"
      by (metis prod_cases3)
    have l: "logs w1 w2" using j can_join_logs by (auto split: if_splits)
    then have w2: "P w2" "chan_list w2 = chan_list w1" "IsMember w2 sptr x = IsMember w1 sptr x"
      using log [OF w1(1)] by (auto simp: logs_def IsMember_def)
    have x: "x \<in> set (chan_list w1)" using w1(2) Some by (simp add: alive_def)
    have "P (join_done cptr sptr p0 x fl nm' (add_user_to_channel x sptr fl w2))" if "\<not> IsMember w1 sptr x"
      by (rule join_done, rule enter) (use that x w2 in simp_all)
    then show ?thesis
      using w1 w2 x Some unfolding join_enter_def g by (simp add: good_def sends alive_def j join_done_chan_list)
  qed
qed

lemma last_join: "P w \<Longrightarrow> P (set_last_join c n w)"
  by (simp add: set_last_join_def spam)

lemma join_zero: "P w \<Longrightarrow> P (snd (join_zero cptr sptr p0 chptr n w))"
  by (simp add: join_zero_def Let_def sends leave_spam part_all)

lemma join_step:
  assumes "P w" "cstring nm" "L sptr \<or> alive chptr w" "L sptr \<or> \<not> is_zero nm"
  shows "P (snd (join_step cptr sptr p0 ky chptr n nm w))"
    "\<not> L sptr \<Longrightarrow> good (join_step cptr sptr p0 ky chptr n nm w)"
proof -
  have f: "alive (find_channel w nm) w" using find_alive [OF inv [OF assms(1)] assms(2)] by (simp add: alive_def)
  have "P (snd (join_local cptr sptr p0 ky n nm w))"
    using join_enter [OF assms(1,2) f] assms(1)
    by (simp add: join_local_def Let_def sends last_join join_spam good_def)
  moreover have r: "good (join_remote cptr sptr p0 ky chptr n nm w)" if "alive chptr w"
    unfolding join_remote_def by (rule join_enter) (use assms(1,2) that in \<open>auto simp: warn alive_def\<close>)
  ultimately show "P (snd (join_step cptr sptr p0 ky chptr n nm w))"
    using assms by (auto simp: join_step_def join_zero loc good_def)
  show "good (join_step cptr sptr p0 ky chptr n nm w)" if "\<not> L sptr"
    using that assms(1,3,4) r by (simp add: join_step_def loc)
qed

lemma join_loop:
  assumes "P w" "\<forall>nm \<in> set nms. cstring nm" "L sptr \<or> alive chptr w \<and> \<not> list_ex is_zero nms"
  shows "P (join_loop cptr sptr p0 chptr n nms ks w)"
  using assms
proof (induction nms arbitrary: chptr n ks w)
  case Nil
  then show ?case by (simp add: last_join)
next
  case (Cons nm nms)
  let ?st = "join_step cptr sptr p0 (case ks of [] \<Rightarrow> None | k # _ \<Rightarrow> Some k) chptr n nm w"
  have st: "P (snd ?st)" "\<not> L sptr \<Longrightarrow> good ?st"
    using join_step [OF Cons.prems(1), of nm sptr chptr] Cons.prems(2,3) by auto
  show ?case
  proof (cases "L sptr")
    case True
    then show ?thesis using st(1) Cons.IH Cons.prems(2) by (auto split: option.split prod.split)
  next
    case False
    then show ?thesis using st(2) Cons.IH Cons.prems(2,3) by (auto simp: good_def split: option.split prod.split)
  qed
qed

lemma scan:
  assumes "P w" "cstring jbuf" "\<forall>nm \<in> set nms. cstring nm" "fold (join_scan sptr p0) nms (jbuf, i, w) = (jbuf', i', w')"
  shows "P w' \<and> cstring jbuf'"
  using assms
proof (induction nms arbitrary: jbuf i w)
  case (Cons nm nms)
  obtain j1 i1 w1 where s: "join_scan sptr p0 nm (jbuf, i, w) = (j1, i1, w1)" by (metis prod_cases3)
  have p: "P w1" using s Cons.prems(1) by (auto simp: join_scan_def Let_def sends split: if_splits)
  have c: "cstring j1"
    using s Cons.prems(2,3) cstring_take [of nm] by (auto simp: join_scan_def Let_def split: if_splits)
  show ?case using Cons.IH [OF p c] Cons.prems(3,4) by (simp add: s)
qed simp

lemma list:
  assumes "P w" "cstring (parv ! 1)" "join_list sptr parv w = (nms, w')"
  shows "P w'" "\<forall>nm \<in> set nms. cstring nm"
proof -
  define w1 where "w1 = (if server_was_split w then check_still_split w else w)"
  obtain jbuf i w2 where f: "fold (join_scan sptr (parv ! 0)) (strtokens (Some (parv ! 1)) '','') ([], 0, w1) = (jbuf, i, w2)"
    by (metis prod_cases3)
  have "P w1" using assms(1) by (simp add: w1_def still_split)
  then have "P w2 \<and> cstring jbuf"
    by (rule scan [OF _ _ _ f]) (use assms(2) cstring_strtokens in auto)
  moreover have "nms = strtokens (Some jbuf) '',''" "w' = w2"
    using assms(3) f unfolding join_list_def w1_def [symmetric] by (simp_all add: Let_def)
  ultimately show "P w'" "\<forall>nm \<in> set nms. cstring nm" using cstring_strtokens by auto
qed

lemma join:
  assumes "P w" "\<And>p. par parv 1 = Some p \<Longrightarrow> cstring p"
    "L sptr \<or> length (fst (join_list sptr parv w)) \<le> 1 \<or> \<not> list_ex is_zero (fst (join_list sptr parv w))"
  shows "P (m_join cptr sptr parv w)"
proof -
  obtain nms w1 where l: "join_list sptr parv w = (nms, w1)" by fastforce
  have "P (join_loop cptr sptr p0 None 0 nms ks w1)" if c: "cstring (parv ! 1)" for p0 ks
  proof -
    note l' = list [OF assms(1) c l]
    consider "L sptr \<or> \<not> list_ex is_zero nms" | nm where "nms = [nm]" "\<not> L sptr" "is_zero nm"
    proof (cases "L sptr \<or> \<not> list_ex is_zero nms")
      case False
      then have "length nms \<le> 1" "list_ex is_zero nms" "\<not> L sptr" using assms(3) l by auto
      then show ?thesis using that(2) by (cases nms) auto
    qed (rule that(1))
    then show ?thesis
    proof cases
      case 1
      then show ?thesis by (intro join_loop) (use l' in \<open>auto simp: alive_def\<close>)
    next
      case (2 nm)
      obtain r w2 where z: "join_zero cptr sptr p0 None 0 w1 = (r, w2)" by fastforce
      have "P w2" using join_zero [OF l'(1), of cptr sptr p0 None 0] by (simp add: z)
      then show ?thesis by (simp add: 2 join_step_def z last_join split: option.split prod.split)
    qed
  qed
  then show ?thesis using assms(1,2) l by (auto simp: m_join_def sends par_def)
qed

end

section \<open>Bursts\<close>

lemma sjoin_parse_key:
  "sjoin_parse parv s m a = Some (m', a') \<Longrightarrow> length (key m) \<le> KEYLEN \<Longrightarrow> length (key m') \<le> KEYLEN"
  by (induction parv s m a arbitrary: m' a' rule: sjoin_parse.induct) (auto split: if_splits option.splits)

lemma merge_key:
  "length (key old) \<le> KEYLEN \<Longrightarrow> length (key new) \<le> KEYLEN \<Longrightarrow> length (key (merge_modes a b old new)) \<le> KEYLEN"
  by (simp add: merge_modes_def)

lemma sendit_log: "sjoin_sendit s p x l w = log_out (map (\<lambda>c. Prefix c s (Fmt '':%s MODE %s %s %s'')
    [Str p, Str (chname (ch w x)), Str (fst l), Str (snd l)]) (local_members w x)) w"
  by (simp add: sjoin_sendit_def sendto_channel_butserv_def)

lemma fold_sendit_chan_list [simp]: "chan_list (fold (sjoin_sendit s p x) ls w) = chan_list w"
  by (induction ls arbitrary: w) (simp_all add: sendit_log)

lemma sjoin_modes_chan_list: "chan_list (sjoin_modes s p0 x b new o1 n1 w) = chan_list w"
  by (auto simp: sjoin_modes_def Let_def sendit_log strip_status_def split: prod.split)

lemma nick_mode_simps [simp]:
  "chan_list (snd (nick_mode s p0 x c nm st)) = chan_list (snd st)"
  "clients (snd (nick_mode s p0 x c nm st)) = clients (snd st)"
  "chans (snd (nick_mode s p0 x c nm st)) = chans (snd st)"
  by (cases st; simp add: nick_mode_def Let_def sendit_log)+

lemma sjoin_nicks1_chan_list: "chan_list (snd (sjoin_nicks1 cptr sptr p0 nm x k s0 st)) = chan_list (snd st)"
proof -
  obtain n w where st: "st = (n, w)" by fastforce
  obtain r b w1 where f: "find_chasing sptr (nick_of s0) w = (r, b, w1)" by (metis prod_cases3)
  then have "chan_list w1 = chan_list w" by (rule find_chasing_logs [THEN logs_chan_list])
  then show ?thesis by (simp add: st sjoin_nicks1_def Let_def f split: option.split)
qed

context chan_ops
begin

lemma sendit: "P w \<Longrightarrow> P (sjoin_sendit s p x l w)"
  by (simp add: sendit_log log)

lemma fold_sendit: "P w \<Longrightarrow> P (fold (sjoin_sendit s p x) ls w)"
  by (induction ls arbitrary: w) (simp_all add: sendit)

lemma sjoin_modes: "P w \<Longrightarrow> length (key new) \<le> KEYLEN \<Longrightarrow> P (sjoin_modes s p0 x b new o1 n1 w)"
  by (auto simp: sjoin_modes_def Let_def intro!: sendit sends strip fold_sendit modes split: prod.split)

lemma nick_mode: "P (snd st) \<Longrightarrow> P (snd (nick_mode s p0 x c nm st))"
  by (cases st) (simp add: nick_mode_def Let_def sendit)

lemma nicks1:
  assumes "P (snd st)" "x \<in> set (chan_list (snd st))"
  shows "P (snd (sjoin_nicks1 cptr sptr p0 nm x k s0 st))"
proof -
  obtain n w where st: "st = (n, w)" by fastforce
  obtain r b w1 where f: "find_chasing sptr (nick_of s0) w = (r, b, w1)" by (metis prod_cases3)
  have w1: "P w1" "chan_list w1 = chan_list w"
    using chasing [OF _ f] assms(1) f by (simp_all add: st find_chasing_logs [THEN logs_chan_list])
  then show ?thesis
    using assms(2) by (auto simp: st sjoin_nicks1_def Let_def f intro!: nick_mode sends enter split: option.split)
qed

lemma nicks_fold:
  "P (snd st) \<Longrightarrow> x \<in> set (chan_list (snd st)) \<Longrightarrow> P (snd (fold (sjoin_nicks1 cptr sptr p0 nm x k) ss st))"
  by (induction ss arbitrary: st) (simp_all add: nicks1 sjoin_nicks1_chan_list)

lemma nicks:
  assumes "P w" "x \<in> set (chan_list w)"
  shows "P (sjoin_nicks cptr sptr parv x ts k ss w)"
proof -
  obtain n w1 where f: "fold (sjoin_nicks1 cptr sptr (parv ! 0) (parv ! 2) x k) ss
      (\<lparr>sn_mbuf = ''+'', sn_pbuf = [], sn_pargs = 0, sn_names = [], sn_people = 0\<rparr>, w) = (n, w1)" by fastforce
  have "P w1" using nicks_fold [of "(\<lparr>sn_mbuf = ''+'', sn_pbuf = [], sn_pargs = 0, sn_names = [], sn_people = 0\<rparr>, w)" x]
    assms f by (metis snd_conv)
  then show ?thesis by (simp add: sjoin_nicks_def Let_def f sends sendit)
qed

lemma sjoin_on:
  assumes "P w" "x \<in> set (chan_list w)" "length (key m) \<le> KEYLEN"
  shows "P (sjoin_on cptr sptr parv m ns isnew x w)"
proof -
  obtain tosend ts ko kn where t:
    "sjoin_ts isnew (atoi (parv ! 1)) (channelts (ch w x)) (juped (ch w x) \<and> users (ch w x) = 0) = (tosend, ts, ko, kn)"
    by (metis prod_cases4)
  have k: "length (key (merge_modes ko kn (mode (ch w x)) m)) \<le> KEYLEN" by (rule merge_key [OF key_len [OF assms(1)] assms(3)])
  show ?thesis
    unfolding sjoin_on_def Let_def t prod.case
    by (rule nicks, rule sjoin_modes [OF _ k])
      (use assms in \<open>simp_all add: stamp sends sjoin_modes_chan_list, simp_all add: send_defs\<close>)
qed

lemma sjoin:
  assumes "P w" "\<And>p. par parv 2 = Some p \<Longrightarrow> cstring p"
  shows "P (m_sjoin cptr sptr parv w)"
proof -
  obtain r nm w1 where g: "get_channel sptr (parv ! 2) True w = (r, nm, w1)" by (metis prod_cases3)
  have c: "cstring (parv ! 2)" if "\<not> length parv < 5" using that assms(2) by (simp add: par_def)
  have "P w1" "\<And>x. r = Some x \<Longrightarrow> x \<in> set (chan_list w1)" if "\<not> length parv < 5"
    using get [OF assms(1) c g] that by simp_all
  moreover have "length (key m) \<le> KEYLEN" if "sjoin_parse parv (parv ! 3) no_modes 0 = Some (m, a)" for m a
    using sjoin_parse_key [OF that] by (simp add: no_modes_def)
  ultimately show ?thesis
    using assms(1) by (auto simp: m_sjoin_def g sjoin_on split: option.split)
qed

end

section \<open>The interface on the code's model\<close>

text \<open>Consistent channels, fields within their arrays, and every client who it was at the start.\<close>

type_synonym identity = "cstr \<times> cstr \<times> cstr \<times> flags \<times> bool \<times> cid \<times> cid \<times> bool"
type_synonym surroundings = "cid htable \<times> whowas_db \<times> cid \<times> cid list \<times> cid list \<times> int"

definition kept :: "(cid \<Rightarrow> identity) \<Rightarrow> surroundings \<Rightarrow> world \<Rightarrow> bool" where
  "kept I A w \<longleftrightarrow> chan_inv w \<and> fields_ok w \<and> (\<forall>c. ident (cl w c) = I c) \<and> around w = A"

definition is_local :: "(cid \<Rightarrow> identity) \<Rightarrow> cid \<Rightarrow> bool" where
  "is_local I c = (case I c of (_, _, _, _, l, _) \<Rightarrow> l)"

lemma kept_local: "kept I A w \<Longrightarrow> MyConnect (cl w c) = is_local I c"
proof -
  assume "kept I A w"
  then have "I c = ident (cl w c)" by (simp add: kept_def)
  then show ?thesis by (simp add: is_local_def ident_def MyConnect_def)
qed

lemma kept_cl:
  assumes "kept I A w" "user k = user (cl w c)" "ident k = ident (cl w c)"
  shows "kept I A (w\<lparr>clients := (clients w)(c := k)\<rparr>)"
  using assms chan_inv_upd_cl [of w k c] by (auto simp: kept_def fields_ok_def)

lemma kept_ch:
  assumes "kept I A w" "map m_client (members k) = map m_client (members (ch w x))" "users k = users (ch w x)"
    "invites k = invites (ch w x)" "chname k = chname (ch w x)" "num_bed k = num_bed (ch w x)" "bed_count k = bed_count (ch w x)"
    "length (topic k) \<le> TOPICLEN" "length (topic_nick k) \<le> NICKLEN" "length (key (mode k)) \<le> KEYLEN"
  shows "kept I A (w\<lparr>chans := (chans w)(x := k)\<rparr>)"
  using assms chan_inv_upd_ch [of w k x] by (auto simp: kept_def fields_ok_def)

lemma kept_fields: "kept I A w \<Longrightarrow> length (topic (ch w x)) \<le> TOPICLEN \<and> length (topic_nick (ch w x)) \<le> NICKLEN \<and>
    length (key (mode (ch w x))) \<le> KEYLEN"
  by (simp add: kept_def fields_ok_def)

lemma kept_cong:
  assumes "kept I A w" "\<And>c. user (cl v c) = user (cl w c)" "\<And>c. ident (cl v c) = ident (cl w c)" "chans v = chans w"
    "chan_list v = chan_list w" "next_chan v = next_chan w" "chan_tab v = chan_tab w" "count_chan v = count_chan w"
    "around v = around w"
  shows "kept I A v"
  using assms by (simp add: kept_def chan_inv_def inv_defs fields_ok_def u_chans_def u_invs_def)

lemma around_counts [simp]:
  "around (w\<lparr>count_oper := n\<rparr>) = around w" "around (w\<lparr>oper_list := l\<rparr>) = around w" "around (w\<lparr>count_invisi := n\<rparr>) = around w"
  by (simp_all add: around_def)

interpretation kept_umode: umode_pass "kept I A" cptr sptr for I A cptr sptr
  by unfold_locales (erule kept_cong; simp add: umode_oper_def upd_umodes_def Let_def)+

text \<open>A pass of a source that may not jupe keeps the channel data also of a channel without members.\<close>

definition pass_plain :: "smenv \<Rightarrow> world \<Rightarrow> bool" where
  "pass_plain e w \<longleftrightarrow> chan_inv w \<and> e_chan e \<in> set (chan_list w) \<and> \<not> local_oper (cl w (e_sptr e))"

lemma local_oper_cong: "local_flag k = local_flag j \<Longrightarrow> umodes k = umodes j \<Longrightarrow> local_oper k = local_oper j"
  by (simp add: local_oper_def MyConnect_def IsAnOper_def)

lemma del_all_invites_oper: "local_oper (cl (del_all_invites x w) c) = local_oper (cl w c)"
proof -
  have "local_flag (cl (fold (\<lambda>c. del_invite c x) cs w) c) = local_flag (cl w c) \<and>
      umodes (cl (fold (\<lambda>c. del_invite c x) cs w) c) = umodes (cl w c)" for cs
    by (induction cs arbitrary: w) (simp_all add: del_invite_def upd_user_def)
  then show ?thesis by (intro local_oper_cong) (simp_all add: del_all_invites_def)
qed

interpretation plain: mode_pass pass_plain
proof unfold_locales
  show "pass_plain e (del_all_invites (e_chan e) w)" if "pass_plain e w" for e w
    using that by (simp add: pass_plain_def chan_inv_intros del_all_invites_fields del_all_invites_oper)
qed (auto simp: pass_plain_def local_oper_def chan_inv_intros)

interpretation ops: chan_ops "kept I A" "is_local I" for I A
proof
  fix w assume w: "kept I A w"
  then have k: "chan_inv w" "fields_ok w" "\<And>c. ident (cl w c) = I c" "around w = A" by (simp_all add: kept_def)
  note f = kept_fields [OF w]
  show "chan_inv w" by fact
  show "MyConnect (cl w c) = is_local I c" for c by (rule kept_local [OF w])
  show "length (key (mode (ch w x))) \<le> KEYLEN" for x using f by blast
  show "kept I A (log_out os w)" for os using w by (simp add: kept_def fields_ok_def)
  show "kept I A (ts_warn g a w)" for g a using w by (simp add: kept_def fields_ok_def)
  show "kept I A (w\<lparr>server_was_split := b\<rparr>)" "kept I A (w\<lparr>cold_start := b\<rparr>)" "kept I A (w\<lparr>server_split_time := n\<rparr>)" for b n
    using w by (simp_all add: kept_def chan_inv_def inv_defs fields_ok_def)
  show "kept I A (upd_cl c (\<lambda>k. k\<lparr>oper_warn_count_down := n\<rparr>) w)"
    "kept I A (upd_cl c (\<lambda>k. k\<lparr>join_leave_count := n, last_leave_time := t\<rparr>) w)"
    "kept I A (upd_cl c (\<lambda>k. k\<lparr>last_join_time := n\<rparr>) w)" for c n t
    by (rule kept_cl [OF w]; simp)+
  have sz: "kept I A v" if "chan_inv v" "\<And>x. sized (ch v x) = sized (ch w x)" "\<And>c. ident (cl v c) = ident (cl w c)"
    "around v = around w" for v
    using that k fields_ok_cong [of v w] by (simp add: kept_def)
  show "kept I A (add_user_to_channel x c fl w)" if "\<not> IsMember w c x" "x \<in> set (chan_list w)" for c x fl
    by (rule sz) (use that k in \<open>simp_all add: add_user_inv\<close>)
  show "kept I A (remove_user_from_channel c x w)" if "IsMember w c x" for c x
    by (rule sz) (use that k in \<open>simp_all add: remove_user_inv\<close>)
  show "kept I A (snd (new_channel nm w))" if "cstring nm" "find_channel w nm = None" for nm
  proof -
    have "fields_ok (snd (new_channel nm w))"
      using k(2) by (auto simp: fields_ok_def new_channel_def Let_def zero_channel_def)
    then show ?thesis using new_channel_inv(1) [OF k(1) that] k by (simp add: kept_def new_channel_def Let_def around_def)
  qed
  show "kept I A (del_invite c x w)" for c x by (rule sz) (use k in \<open>simp_all add: del_invite_inv\<close>)
  show "kept I A (add_invite c x w)" if "x \<in> set (chan_list w)" "user (cl w c) \<noteq> None" for c x
    by (rule sz) (use that k in \<open>simp_all add: add_invite_inv\<close>)
  show "kept I A (upd_ch x (\<lambda>k. k\<lparr>channelts := n\<rparr>) w)" for x n
    by (rule kept_ch [OF w]) (use f in \<open>simp_all add: bed_count_def\<close>)
  show "kept I A (upd_ch x (\<lambda>k. k\<lparr>topic := tx, topic_nick := who, topic_time := n\<rparr>) w)"
    if "length tx \<le> TOPICLEN" "length who \<le> NICKLEN" for x tx who n
    by (rule kept_ch [OF w]) (use f that in \<open>simp_all add: bed_count_def\<close>)
  show "kept I A (upd_ch x (\<lambda>k. k\<lparr>mode := m\<rparr>) w)" if "length (key m) \<le> KEYLEN" for x m
    by (rule kept_ch [OF w]) (use f that in \<open>simp_all add: bed_count_def\<close>)
  show "kept I A (strip_status x w)" for x
    unfolding strip_status_def by (rule kept_ch [OF w]) (use f in \<open>simp_all add: bed_count_def comp_def\<close>)
  show "kept I A (set_channel_mode cptr sptr x parv w)" if "x \<in> set (chan_list w)" "members (ch w x) \<noteq> [] \<or> \<not> local_oper (cl w sptr)" for cptr sptr x parv
  proof -
    have e: "e_chan (mode_env cptr sptr x w) = x" "e_sptr (mode_env cptr sptr x w) = sptr" by (simp_all add: mode_env_def Let_def)
    have "chan_inv (set_channel_mode cptr sptr x parv w)"
      using consistent.pass [of cptr sptr x w parv] plain.pass [of cptr sptr x w parv] k(1) that
      by (auto simp: pass_w_def pass_plain_def e)
    moreover have "fields_ok (set_channel_mode cptr sptr x parv w)" by (rule sizes.pass [OF k(2)])
    ultimately show ?thesis using idents.pass [of w I A cptr sptr x parv] k by (simp add: kept_def)
  qed
  show "kept I A (user_mode cptr sptr parv w)" for cptr sptr parv by (rule kept_umode.whole [OF w])
qed

end
