(* ===== verification/JoinSpec.thy ===== *)
theory JoinSpec
  imports ChanOps UModeSpec
begin

text \<open>
  What \<open>m_join\<close> does for a local user who names one channel: joining an existing channel
  needs the consent of \<open>can_join\<close> and gives no op; a new channel belongs to who created it;
  a name longer than a channel name may be gets op on the channel it is cut to.
\<close>

section \<open>One name\<close>

lemma logs_fields: "logs w v \<Longrightarrow> chans v = chans w \<and> clients v = clients w \<and> now v = now w \<and> me v = me w
    \<and> chan_tab v = chan_tab w \<and> next_chan v = next_chan w"
  by (auto simp: logs_def)

lemma m_names_fields [simp]:
  "chans (m_names cptr sptr parv w) = chans w" "clients (m_names cptr sptr parv w) = clients w"
  "chan_list (m_names cptr sptr parv w) = chan_list w" "chan_tab (m_names cptr sptr parv w) = chan_tab w"
  using logs_fields [OF m_names_logs] logs_chan_list [OF m_names_logs] by blast+

lemma set_last_join_simps [simp]:
  "chans (set_last_join c n w) = chans w" "chan_list (set_last_join c n w) = chan_list w"
  "chan_tab (set_last_join c n w) = chan_tab w" "user (cl (set_last_join c n w) d) = user (cl w d)"
  by (simp_all add: set_last_join_def)

lemma find_channel_set_last_join [simp]: "find_channel (set_last_join c n w) nm = find_channel w nm"
  by (simp add: find_channel_def)

text \<open>The outcome of a step as the loop's last name leaves it.\<close>

definition after_last :: "cid \<Rightarrow> join_state \<Rightarrow> world" where
  "after_last sptr st =
     (case st of (None, w) \<Rightarrow> w | (Some (_, n), w) \<Rightarrow> if MyConnect (cl w sptr) then set_last_join sptr n w else w)"

lemma after_last_simps [simp]:
  "chans (after_last c st) = chans (snd st)" "chan_list (after_last c st) = chan_list (snd st)"
  "chan_tab (after_last c st) = chan_tab (snd st)" "find_channel (after_last c st) nm = find_channel (snd st) nm"
  by (auto simp: after_last_def split: prod.split option.split)

definition channel_param :: "cstr \<Rightarrow> bool" where
  "channel_param nm \<longleftrightarrow> cstring nm \<and> IsChannelName nm \<and> check_channel_name nm \<and> CHR '','' \<notin> set nm \<and> length nm < BUFSIZE"

lemma channel_param_simps:
  assumes "channel_param nm"
  shows "nm \<noteq> []" "\<not> is_zero nm" "strtokens (Some nm) '','' = [nm]"
proof -
  show n: "nm \<noteq> []" using assms by (auto simp: channel_param_def IsChannelName_def)
  show "\<not> is_zero nm" using assms by (auto simp: channel_param_def IsChannelName_def is_zero_def)
  show "strtokens (Some nm) '','' = [nm]" by (rule strtokens_token(1) [OF n]) (use assms in \<open>auto simp: channel_param_def\<close>)
qed

definition first_key :: "cstr list \<Rightarrow> cstr option" where
  "first_key parv = (case strtokens (par parv 2) '','' of [] \<Rightarrow> None | k # _ \<Rightarrow> Some k)"

lemma m_join_one:
  assumes "channel_param nm" "MyConnect (cl w sptr)" "user (cl w sptr) \<noteq> None" "\<not> server_was_split w"
    "parv = p0 # nm # rest"
  shows "m_join cptr sptr parv w = after_last sptr (join_local cptr sptr p0 (first_key parv) 0 nm w)"
proof -
  note c = channel_param_simps [OF assms(1)]
  have "join_scan sptr p0 nm ([], 0, w) = (nm, length nm + 1, w)"
    using assms(1,2) c(2) by (auto simp: join_scan_def channel_param_def BUFSIZE_def)
  then have l: "join_list sptr parv w = ([nm], w)"
    using assms(4) c(3) unfolding assms(5) by (simp add: join_list_def)
  have "m_join cptr sptr parv w = join_loop cptr sptr p0 None 0 [nm] (strtokens (par parv 2) '','') w"
    using assms(3) c(1) l unfolding m_join_def by (auto simp: assms(5))
  also have "\<dots> = after_last sptr (join_step cptr sptr p0 (first_key parv) None 0 nm w)"
    by (simp add: after_last_def first_key_def split: prod.split option.split)
  also have "\<dots> = after_last sptr (join_local cptr sptr p0 (first_key parv) 0 nm w)"
    using assms(2) c(2) by (simp add: join_step_def)
  finally show ?thesis .
qed

section \<open>Members and flags\<close>

lemma join_done_members [simp]: "members (ch (join_done cptr sptr p0 x fl nm w) y) = members (ch w y)"
  by (simp add: join_done_def Let_def new_modes_def send_topic_def send_defs)

lemma can_join_flags: "can_join c x ky fl w = (i, fl', w') \<Longrightarrow> \<not> has_flag fl CHFL_CHANOP \<Longrightarrow> \<not> has_flag fl' CHFL_CHANOP"
proof -
  have b: "\<not> has_flag (is_banned (cl w c) (ch w x)) CHFL_CHANOP"
    by (simp add: is_banned_def has_flag_def chfl_defs)
  assume "can_join c x ky fl w = (i, fl', w')" "\<not> has_flag fl CHFL_CHANOP"
  then show ?thesis using b by (auto simp: can_join_def Let_def has_flag_or split: if_splits)
qed

lemma add_user_members:
  "user (cl w c) \<noteq> None \<Longrightarrow> members (ch (add_user_to_channel x c fl w) y) =
     (if y = x then \<lparr>m_client = c, m_flags = fl\<rparr> # members (ch w x) else members (ch w y))"
  by (auto simp: add_user_to_channel_def)

text \<open>Entering a channel that is given: nothing, or a new member at the head with the consent of \<open>can_join\<close>.\<close>

lemma join_enter_members:
  fixes w ky flg n nm x p0 sptr cptr
  defines "st \<equiv> join_enter cptr sptr p0 ky flg (Some x) n nm w"
  assumes "MyConnect (cl w sptr)" "user (cl w sptr) \<noteq> None"
  shows "members (ch (snd st) y) = members (ch w y) \<or>
    y = x \<and> (\<exists>fl w1. can_join sptr x ky flg w = (0, fl, w1) \<and> members (ch (snd st) x) = \<lparr>m_client = sptr, m_flags = fl\<rparr> # members (ch w x))"
proof -
  obtain i fl w2 where j: "can_join sptr x ky flg w = (i, fl, w2)" by (metis prod_cases3)
  then have "chans w2 = chans w" "clients w2 = clients w" using logs_fields can_join_logs by blast+
  then show ?thesis using assms by (auto simp: st_def join_enter_def j add_user_members send_defs)
qed

text \<open>C10: a local user who asks for a channel that exists gets on it only with the consent of
  \<open>can_join\<close>, becomes no operator of it, and nothing else happens to anybody's membership.\<close>
theorem join_existing:
  assumes "channel_param nm" "MyConnect (cl w sptr)" "user (cl w sptr) \<noteq> None" "\<not> server_was_split w"
    "find_channel w nm = Some x"
  shows "members (ch (m_join cptr sptr (p0 # nm # rest) w) y) = members (ch w y) \<or>
    y = x \<and> fst (can_join sptr x (first_key (p0 # nm # rest)) 0 w) = 0 \<and>
      (\<exists>fl. \<not> has_flag fl CHFL_CHANOP \<and>
        members (ch (m_join cptr sptr (p0 # nm # rest) w) x) = \<lparr>m_client = sptr, m_flags = fl\<rparr> # members (ch w x))"
proof -
  let ?ky = "first_key (p0 # nm # rest)"
  have l: "chans (snd (join_local cptr sptr p0 ?ky 0 nm w)) = chans w \<or>
      join_local cptr sptr p0 ?ky 0 nm w = join_enter cptr sptr p0 ?ky 0 (Some x) 1 nm w"
    using assms(5) by (simp add: join_local_def Let_def send_defs spam_join_def)
  have "can_join sptr x ?ky 0 w = (0, fl, w1) \<Longrightarrow> \<not> has_flag fl CHFL_CHANOP" for fl w1
    using can_join_flags by fastforce
  then show ?thesis
    using l join_enter_members [OF assms(2,3), of cptr p0 ?ky 0 x 1 nm y]
    unfolding m_join_one [OF assms(1-4) refl] after_last_simps by auto
qed

text \<open>The example network after the split is over.\<close>

definition calm :: world where "calm = demo\<lparr>server_was_split := False\<rparr>"

lemma calm_simps [simp]:
  "clients calm = clients demo" "chans calm = chans demo" "chan_list calm = chan_list demo" "server_was_split calm = False"
  "chan_tab calm = chan_tab demo" "now calm = now demo" "me calm = me demo"
  "find_channel calm nm = find_channel demo nm"
  by (simp_all add: calm_def find_channel_def)

lemma calm_inv: "chan_inv calm"
  using demo_inv by (simp add: calm_def chan_inv_def inv_defs)

lemma test_param: "channel_param ''#test''"
  by (simp add: channel_param_def IsChannelName_def BUFSIZE_def cstring_def) code_simp

theorem join_existing_witness:
  "find_channel calm ''#test'' = Some 0 \<and>
   (members (ch (m_join 15 15 [''oper'', ''#test''] calm) 0) = members (ch calm 0) \<or>
    (\<exists>fl. \<not> has_flag fl CHFL_CHANOP \<and>
       members (ch (m_join 15 15 [''oper'', ''#test''] calm) 0) = \<lparr>m_client = 15, m_flags = fl\<rparr> # members (ch calm 0)))"
proof -
  have f: "find_channel calm ''#test'' = Some 0" by (simp add: demo_find_channel)
  have "MyConnect (cl calm 15)" "user (cl calm 15) \<noteq> None"
    by (simp_all add: MyConnect_def demo_cl demo0_def local_user_def)
  from join_existing [OF test_param this _ f, of 15 "''oper''" "[]" 0] show ?thesis using f by auto
qed

section \<open>A new channel\<close>

lemma join_done_op:
  assumes "MyClient (cl w sptr)" "has_flag fl CHFL_CHANOP"
  shows "ch (join_done cptr sptr p0 x fl nm w) y = (if y = x
     then (ch w x)\<lparr>channelts := now w, mode := (mode (ch w x))\<lparr>modes := modes (mode (ch w x)) OR MODE_TOPICLIMIT OR MODE_NOPRIVMSGS\<rparr>,
             invites := remove1 sptr (invites (ch w x))\<rparr> else ch w y)"
proof -
  let ?w = "upd_ch x (\<lambda>k. k\<lparr>channelts := now w\<rparr>) w"
  have t: "chans (if b then send_topic d e g x' v else v) = chans v" for b d e g x' v
    by (simp add: send_topic_def Let_def send_defs)
  have "chans (join_done cptr sptr p0 x fl nm w) = chans (del_invite sptr x (new_modes x sptr
      (sendto_channel_butserv x sptr (Fmt '':%s JOIN :%s'') [Str p0, Str nm]
        (sendto_match_servs (Some x) cptr (Fmt '':%s SJOIN %lu %s + :@%s'')
           [me_name ?w, Num (channelts (ch ?w x)), Str nm, Str p0] ?w))))"
    unfolding join_done_def Let_def by (simp only: assms simp_thms if_True m_names_fields t)
  then show ?thesis by (simp add: new_modes_def Let_def send_defs del_invite_def)
qed

lemma can_join_fresh:
  assumes "ch w x = zero_channel\<lparr>chname := nm, channelts := t\<rparr>"
  shows "can_join c x ky fl w = (0, fl, w)"
  using assms by (simp add: can_join_def is_banned_def zero_channel_def Let_def chfl_defs)

lemma not_spam:
  assumes "joined_count (cl w sptr) < int MAXCHANNELSPERUSER" "spam_num w = 0 \<or> join_leave_count (cl w sptr) < spam_num w"
    "\<not> server_was_split w"
  shows "join_local cptr sptr p0 ky n nm w = join_enter cptr sptr p0 ky (if find_channel w nm = None then CHFL_CHANOP else 0)
     (find_channel w nm) (if find_channel w nm = None then n else n + 1) nm w"
  using assms by (auto simp: join_local_def Let_def chfl_defs)

text \<open>C20: a local user who joins a channel that does not exist creates it: the channel is
  entered in the list and the table under its name, with the user as its only member and
  operator, the modes +nt and the present as its time stamp; no other channel changes.\<close>
theorem join_creates:
  fixes cptr p0 rest
  assumes "chan_inv w" "fields_ok w" "channel_param nm" "length nm \<le> CHANNELLEN" "MyClient (cl w sptr)"
    "user (cl w sptr) \<noteq> None" "\<not> server_was_split w" "find_channel w nm = None"
    "joined_count (cl w sptr) < int MAXCHANNELSPERUSER" "spam_num w = 0 \<or> join_leave_count (cl w sptr) < spam_num w"
  defines "w' \<equiv> m_join cptr sptr (p0 # nm # rest) w" and "x \<equiv> next_chan w"
  shows "chan_list w' = x # chan_list w \<and> find_channel w' nm = Some x \<and> chname (ch w' x) = nm \<and>
    members (ch w' x) = [\<lparr>m_client = sptr, m_flags = CHFL_CHANOP\<rparr>] \<and>
    modes (mode (ch w' x)) = MODE_TOPICLIMIT OR MODE_NOPRIVMSGS \<and> channelts (ch w' x) = now w \<and>
    (\<forall>y. y \<noteq> x \<longrightarrow> ch w' y = ch w y)"
proof -
  let ?ky = "first_key (p0 # nm # rest)"
  have mc: "MyConnect (cl w sptr)" and nm: "cstring nm" "nm \<noteq> []"
    using assms(3,5) channel_param_simps by (auto simp: MyClient_def channel_param_def)
  define v where "v = snd (new_channel nm w)"
  have v: "get_channel sptr nm True w = (Some x, nm, v)" "clients v = clients w" "chan_list v = x # chan_list w" "now v = now w"
    "ch v y = (if y = x then zero_channel\<lparr>chname := nm, channelts := now w\<rparr> else ch w y)" for y
    using assms(4,8) nm by (simp_all add: get_channel_def new_channel_def v_def x_def Let_def)
  have nmem: "\<not> IsMember v sptr x"
    using new_channel_inv(4) [OF assms(1) nm(1) assms(8)] by (simp add: v_def x_def new_channel_def Let_def)
  define u where "u = add_user_to_channel x sptr CHFL_CHANOP v"
  have u: "clients u = clients (add_user_to_channel x sptr CHFL_CHANOP v)" "MyClient (cl u sptr)" "now u = now w"
    "ch u y = (if y = x then (ch v x)\<lparr>members := [\<lparr>m_client = sptr, m_flags = CHFL_CHANOP\<rparr>], users := 1\<rparr> else ch w y)" for y
    using assms(5,6) v by (auto simp: u_def add_user_to_channel_def MyClient_def MyConnect_def IsClient_def zero_channel_def upd_user_def)
  have "join_enter cptr sptr p0 ?ky CHFL_CHANOP None 0 nm w = (Some (Some x, 0), join_done cptr sptr p0 x CHFL_CHANOP nm u)"
    using mc nmem v can_join_fresh [OF v(5) [of x, simplified]] by (simp add: join_enter_def u_def)
  then have eq: "w' = after_last sptr (Some (Some x, 0), join_done cptr sptr p0 x CHFL_CHANOP nm u)"
    unfolding w'_def m_join_one [OF assms(3) mc assms(6,7) refl] not_spam [OF assms(9,10,7)] by (simp add: assms(8))
  have op: "has_flag CHFL_CHANOP CHFL_CHANOP" by (simp add: has_flag_def chfl_defs)
  note d = join_done_op [OF u(2) op, of cptr p0 x nm]
  have cl: "chan_list w' = x # chan_list w"
    using v(3) by (simp add: eq join_done_chan_list u_def)
  have "kept (\<lambda>c. ident (cl w c)) (around w) w" using assms(1,2) by (simp add: kept_def)
  then have "kept (\<lambda>c. ident (cl w c)) (around w) w'"
    unfolding w'_def by (rule ops.join) (use mc nm in \<open>auto simp: is_local_def ident_def MyConnect_def par_def\<close>)
  then have "chan_inv w'" by (simp add: kept_def)
  moreover have k: "ch w' x = (ch u x)\<lparr>channelts := now w, mode := (mode (ch u x))\<lparr>modes := modes (mode (ch u x)) OR MODE_TOPICLIMIT OR MODE_NOPRIVMSGS\<rparr>,
             invites := remove1 sptr (invites (ch u x))\<rparr>" using d u(3) by (simp add: eq)
  moreover have "ch w' y = ch w y" if "y \<noteq> x" for y using that d u(4) by (simp add: eq)
  ultimately show ?thesis
    using cl nm by (simp add: find_channel_Some u v zero_channel_def)
qed

lemma demo_fields: "fields_ok demo"
  by (simp add: fields_ok_def demo_def add_user_to_channel_def demo1_def new_channel_def demo0_chans demo0_cl zero_channel_def)

lemma calm_fields: "fields_ok calm"
  using demo_fields by (simp add: fields_ok_def)

lemma calm_absent:
  assumes "cstring nm" "length nm \<noteq> 5"
  shows "find_channel calm nm = None"
  unfolding calm_simps find_channel_None [OF demo_inv assms(1)]
  using assms(2) by (auto simp: demo_chan_list demo_chan dest: same_name_length)

lemma calm_15:
  "MyClient (cl calm 15)" "user (cl calm 15) = Some fresh_user" "joined_count (cl calm 15) = 0"
  "join_leave_count (cl calm 15) = 0" "spam_num calm = 25" "name (cl calm 15) = ''oper''"
  by (simp_all add: MyClient_def MyConnect_def IsClient_def demo_cl demo0_def joined_count_def, simp_all add: local_user_def zero_client_def fresh_user_def)
    (simp add: calm_def demo_def add_user_to_channel_def demo1_def new_channel_def demo0_cl demo0_def boot_def upd_user_def)

theorem join_creates_witness:
  "members (ch (m_join 15 15 [''oper'', ''#new''] calm) (next_chan calm)) = [\<lparr>m_client = 15, m_flags = CHFL_CHANOP\<rparr>] \<and>
   find_channel (m_join 15 15 [''oper'', ''#new''] calm) ''#new'' = Some (next_chan calm)"
proof -
  have "channel_param ''#new''" by (simp add: channel_param_def IsChannelName_def BUFSIZE_def cstring_def) code_simp
  moreover have "length ''#new'' \<le> CHANNELLEN" "user (cl calm 15) \<noteq> None" "\<not> server_was_split calm" "find_channel calm ''#new'' = None"
    "joined_count (cl calm 15) < int MAXCHANNELSPERUSER" "spam_num calm = 0 \<or> join_leave_count (cl calm 15) < spam_num calm"
    by (simp add: CHANNELLEN_def, simp only: calm_15 option.distinct not_False_eq_True, simp, rule calm_absent, simp_all only: calm_15)
      (simp_all add: cstring_def MAXCHANNELSPERUSER_def)
  ultimately show ?thesis
    using join_creates [OF calm_inv calm_fields _ _ calm_15(1), of "''#new''" 15 "''oper''" "[]"] by blast
qed

section \<open>A name that is too long\<close>

text \<open>C29: the name is looked up as given and cut to \<open>CHANNELLEN\<close> only afterwards: a local user
  who names a channel that does not exist, but whose first 200 characters are an existing
  channel he may join, becomes its operator and resets its time stamp.\<close>
theorem join_long_name_op:
  fixes cptr p0 rest
  assumes "channel_param nm" "MyClient (cl w sptr)" "user (cl w sptr) \<noteq> None" "\<not> server_was_split w"
    "length nm > CHANNELLEN" "find_channel w nm = None" "find_channel w (take CHANNELLEN nm) = Some x" "\<not> IsMember w sptr x"
    "joined_count (cl w sptr) < int MAXCHANNELSPERUSER" "spam_num w = 0 \<or> join_leave_count (cl w sptr) < spam_num w"
    "fst (can_join sptr x (first_key (p0 # nm # rest)) CHFL_CHANOP w) = 0"
  defines "w' \<equiv> m_join cptr sptr (p0 # nm # rest) w"
  shows "is_chan_op sptr (ch w' x) \<and> channelts (ch w' x) = now w"
proof -
  let ?ky = "first_key (p0 # nm # rest)"
  have mc: "MyConnect (cl w sptr)" using assms(2) by (simp add: MyClient_def)
  obtain fl w1 where j: "can_join sptr x ?ky CHFL_CHANOP w = (0, fl, w1)"
    using assms(11) by (cases "can_join sptr x ?ky CHFL_CHANOP w") auto
  then have w1: "clients w1 = clients w" "chans w1 = chans w" "now w1 = now w"
    using logs_fields can_join_logs by blast+
  have op: "has_flag fl CHFL_CHANOP"
    using j by (auto simp: can_join_def Let_def has_flag_or has_flag_def chfl_defs ERR_UNAVAILRESOURCE_def
        ERR_BANNEDFROMCHAN_def ERR_INVITEONLYCHAN_def ERR_BADCHANNELKEY_def ERR_CHANNELISFULL_def split: if_splits)
  have g: "get_channel sptr nm True w = (Some x, take CHANNELLEN nm, w)"
    using assms(2,5,7) channel_param_simps(1) [OF assms(1)] by (simp add: get_channel_def)
  define u where "u = add_user_to_channel x sptr fl w1"
  have u: "MyClient (cl u sptr)" "now u = now w" "members (ch u x) = \<lparr>m_client = sptr, m_flags = fl\<rparr> # members (ch w x)"
    using assms(2,3) w1 by (auto simp: u_def add_user_to_channel_def MyClient_def MyConnect_def IsClient_def upd_user_def)
  have "join_enter cptr sptr p0 ?ky CHFL_CHANOP None 0 nm w = (Some (Some x, 0), join_done cptr sptr p0 x fl (take CHANNELLEN nm) u)"
    using mc assms(8) by (simp add: join_enter_def g j u_def)
  then have "ch w' x = ch (join_done cptr sptr p0 x fl (take CHANNELLEN nm) u) x"
    unfolding w'_def m_join_one [OF assms(1) mc assms(3,4) refl] not_spam [OF assms(9,10,4)] by (simp add: assms(6))
  then show ?thesis
    using op u by (simp add: join_done_op [OF u(1) op] is_chan_op_def user_channel_mode_def find_user_link_def)
qed

text \<open>A channel with a name of 200 characters on which \<open>alice\<close> is the only member and operator.\<close>

definition long_name :: "nat \<Rightarrow> cstr" where "long_name n = CHR ''#'' # replicate n CHR ''a''"

definition big0 :: world where "big0 = snd (new_channel (long_name 199) calm)"
definition big :: world where "big = add_user_to_channel (next_chan calm) 11 CHFL_CHANOP big0"

lemma long_name_simps [simp]:
  "length (long_name n) = Suc n" "cstring (long_name n)" "take CHANNELLEN (long_name 250) = long_name 199"
  by (simp_all add: long_name_def cstring_def CHANNELLEN_def take_Cons')

lemma long_param: "n < 500 \<Longrightarrow> channel_param (long_name n)"
proof -
  have "IsChanChar CHR ''a''" "IsChanChar CHR ''#''" by code_simp+
  then show "n < 500 \<Longrightarrow> channel_param (long_name n)"
    by (auto simp: channel_param_def IsChannelName_def check_channel_name_def long_name_def BUFSIZE_def cstring_def list_all_iff)
qed

lemma big0_simps:
  "chan_list big0 = next_chan calm # chan_list demo" "ch big0 (next_chan calm) = zero_channel\<lparr>chname := long_name 199, channelts := now calm\<rparr>"
  "clients big0 = clients demo" "ch big0 0 = ch demo 0" "spam_num big0 = spam_num calm" "now big0 = now calm"
  "server_was_split big0 = False"
proof -
  have "next_chan calm \<noteq> 0"
    using calm_inv demo_chan_list by (auto simp: chan_inv_def table_ok_def)
  then show "chan_list big0 = next_chan calm # chan_list demo"
    "ch big0 (next_chan calm) = zero_channel\<lparr>chname := long_name 199, channelts := now calm\<rparr>"
    "clients big0 = clients demo" "ch big0 0 = ch demo 0" "spam_num big0 = spam_num calm" "now big0 = now calm"
    "server_was_split big0 = False"
    by (simp_all add: big0_def new_channel_def Let_def)
qed

lemma big0_inv: "chan_inv big0"
  unfolding big0_def by (rule new_channel_inv(1) [OF calm_inv]) (simp_all add: calm_absent del: calm_simps(8))

lemma big0_member: "\<not> IsMember big0 c (next_chan calm)"
  unfolding big0_def
  using new_channel_inv(4) [OF calm_inv, of "long_name 199" c] calm_absent [of "long_name 199"] by (simp add: new_channel_def Let_def)

lemma big_inv: "chan_inv big"
  unfolding big_def by (rule add_user_inv [OF big0_inv big0_member]) (simp add: big0_simps del: calm_simps(8))

lemma big_chname: "chname (ch big x) = chname (ch big0 x)"
  by (simp add: big_def add_user_to_channel_def big0_simps(3) demo_cl)

lemma big_simps:
  "chan_list big = chan_list big0" "find_channel big nm = find_channel big0 nm" "c \<noteq> 11 \<Longrightarrow> cl big c = cl calm c"
  "spam_num big = spam_num calm" "now big = now calm" "server_was_split big = False"
  "ch big (next_chan calm) = (ch big0 (next_chan calm))\<lparr>members := [\<lparr>m_client = 11, m_flags = CHFL_CHANOP\<rparr>], users := 1\<rparr>"
proof -
  have "chan_tab big = chan_tab big0" by (simp add: big_def add_user_to_channel_def big0_simps(3) demo_cl upd_user_def)
  then show "find_channel big nm = find_channel big0 nm" by (simp add: find_channel_def big_chname)
qed (simp_all add: big_def add_user_to_channel_def big0_simps demo_cl upd_user_def zero_channel_def)

theorem join_long_name_op_witness:
  "\<not> IsMember big 15 (next_chan calm) \<and> is_chan_op 15 (ch (m_join 15 15 [''oper'', long_name 250] big) (next_chan calm))"
proof -
  have nm: "\<not> IsMember big 15 (next_chan calm)"
    using big0_member [of 15] by (simp add: IsMember_def big_simps big0_simps)
  have f1: "find_channel big (long_name 250) = None"
    unfolding find_channel_None [OF big_inv long_name_simps(2)]
    by (auto simp: big_simps(1) big_chname big0_simps demo_chan_list demo_chan simp del: calm_simps(8) dest: same_name_length)
  have f2: "find_channel big (take CHANNELLEN (long_name 250)) = Some (next_chan calm)"
    unfolding long_name_simps find_channel_Some [OF big_inv long_name_simps(2)]
    by (simp add: big_simps(1) big_chname big0_simps del: calm_simps(8))
  have j: "fst (can_join 15 (next_chan calm) ky CHFL_CHANOP big) = 0" for ky
    by (simp add: can_join_def is_banned_def big_simps(7) big0_simps(2) zero_channel_def Let_def chfl_defs)
  have "channel_param (long_name 250)" by (rule long_param) simp
  then have "is_chan_op 15 (ch (m_join 15 15 (''oper'' # long_name 250 # []) big) (next_chan calm)) \<and>
      channelts (ch (m_join 15 15 (''oper'' # long_name 250 # []) big) (next_chan calm)) = now big"
    by (rule join_long_name_op [OF _ _ _ _ _ f1 f2 nm _ _ j])
      (simp_all only: big_simps calm_15 long_name_simps, simp_all add: CHANNELLEN_def MAXCHANNELSPERUSER_def calm_15 big_simps)
  then show ?thesis using nm by simp
qed

end
