(* ===== verification/CmdSpec.thy ===== *)
theory CmdSpec
  imports JoinSpec
begin

text \<open>
  The commands on channels together: every sequence of them keeps the channels consistent;
  who may kick, set a topic and invite; what PART does; and what a remote JOIN does when it
  names \<open>0\<close> before a channel.
\<close>

section \<open>Sequences of commands\<close>

definition params_ok :: "cstr list \<Rightarrow> bool" where
  "params_ok parv \<longleftrightarrow> (\<forall>p \<in> set parv. cstring p)"

lemma params_par: "params_ok parv \<Longrightarrow> par parv i = Some p \<Longrightarrow> cstring p"
  by (auto simp: params_ok_def par_def split: if_splits)

text \<open>
  One command, with any source and parameters but for two cases in which the code breaks the data:
  a MODE with changes by a local operator on a channel without members, where \<open>-jj\<close> frees the
  channel twice (\<open>unjupe_twice\<close>), and a JOIN of a remote user that names further channels beside
  \<open>0\<close>, which uses the channel left last (\<open>remote_join_zero\<close>).
\<close>

inductive cmd_step :: "world \<Rightarrow> world \<Rightarrow> bool" where
  join: "params_ok parv \<Longrightarrow> MyConnect (cl w sptr) \<or> length (fst (join_list sptr parv w)) \<le> 1 \<or>
      \<not> list_ex is_zero (fst (join_list sptr parv w)) \<Longrightarrow> cmd_step w (m_join cptr sptr parv w)"
| part: "params_ok parv \<Longrightarrow> cmd_step w (m_part cptr sptr parv w)"
| kick: "params_ok parv \<Longrightarrow> cmd_step w (m_kick cptr sptr parv w)"
| topic: "cmd_step w (m_topic cptr sptr parv w)"
| invite: "params_ok parv \<Longrightarrow> cmd_step w (m_invite cptr sptr parv w)"
| names: "cmd_step w (m_names cptr sptr parv w)"
| knock: "cmd_step w (m_knock cptr sptr parv w)"
| sjoin: "params_ok parv \<Longrightarrow> cmd_step w (m_sjoin cptr sptr parv w)"
| mode: "(\<And>x. 3 \<le> length parv \<Longrightarrow> find_channel w (parv ! 1) = Some x \<Longrightarrow>
        members (ch w x) \<noteq> [] \<or> \<not> local_oper (cl w sptr)) \<Longrightarrow>
      cmd_step w (m_mode cptr sptr parv w)"

inductive reach :: "world \<Rightarrow> world \<Rightarrow> bool" for w0 where
  start: "reach w0 w0"
| step: "reach w0 w \<Longrightarrow> cmd_step w w' \<Longrightarrow> reach w0 w'"

lemma step_kept:
  assumes "cmd_step w w'" "kept I A w"
  shows "kept I A w'"
  using assms
proof (induction rule: cmd_step.induct)
  case (join parv w sptr cptr)
  then show ?case using kept_local [of I A w sptr] by (intro ops.join) (auto dest: params_par)
next
  case (mode parv w cptr sptr)
  then show ?case by (intro ops.mode) auto
qed (auto intro: ops.part ops.kick ops.topic ops.invites ops.names ops.knock ops.sjoin dest: params_par)

text \<open>C1: from a consistent state every sequence of the commands of \<open>cmd_step\<close> leads to consistent
  states; these are all JOIN, PART, KICK, TOPIC, INVITE, NAMES, KNOCK, SJOIN and MODE commands except
  a MODE with changes by a local operator on a channel without members and a remote JOIN of \<open>0\<close>
  together with other names, which do break them.  In the states reached membership is recorded on both sides, counters and tables agree with the lists,
  topics, topic setters and keys fit their arrays; and no client changes its name or its place.\<close>
theorem commands_consistent:
  assumes "reach w0 w" "chan_inv w0" "fields_ok w0"
  shows "chan_inv w \<and> fields_ok w \<and> (\<forall>c. ident (cl w c) = ident (cl w0 c)) \<and> around w = around w0"
proof -
  have "kept (\<lambda>c. ident (cl w0 c)) (around w0) w0" using assms(2,3) by (simp add: kept_def)
  with assms(1) have "kept (\<lambda>c. ident (cl w0 c)) (around w0) w"
    by (induction rule: reach.induct) (auto intro: step_kept)
  then show ?thesis by (simp add: kept_def)
qed

theorem commands_consistent_witness:
  "chan_inv (m_part 12 12 [''bob'', ''#test''] (m_join 15 15 [''oper'', ''#test,#new''] calm)) \<and>
   fields_ok (m_part 12 12 [''bob'', ''#test''] (m_join 15 15 [''oper'', ''#test,#new''] calm))"
proof -
  have "reach calm (m_join 15 15 [''oper'', ''#test,#new''] calm)"
    by (rule reach.step [OF reach.start cmd_step.join])
      (simp_all add: params_ok_def cstring_def MyConnect_def demo_cl demo0_def local_user_def)
  then have "reach calm (m_part 12 12 [''bob'', ''#test''] (m_join 15 15 [''oper'', ''#test,#new''] calm))"
    by (rule reach.step [OF _ cmd_step.part]) (simp add: params_ok_def cstring_def)
  then show ?thesis using commands_consistent [OF _ calm_inv calm_fields] by blast
qed

section \<open>Who may kick, set a topic, invite\<close>

lemma find_chasing_fields: "find_chasing c nm w = (r, b, w') \<Longrightarrow> chans w' = chans w \<and> clients w' = clients w"
  using logs_fields find_chasing_logs by blast

lemma remove_user_frame: "y \<noteq> x \<Longrightarrow> ch (remove_user_from_channel c x w) y = ch w y"
  by (simp add: remove_user_from_channel_def)

lemma kick_who_frame: "y \<noteq> x \<Longrightarrow> ch (kick_who cptr sptr p0 nm usr msg x w) y = ch w y"
  by (auto simp: kick_who_def Let_def send_defs remove_user_frame dest: find_chasing_fields split: option.split prod.split)

lemma get_channel_old: "get_channel c nm False w = (r, nm', w') \<Longrightarrow> w' = w"
  by (auto simp: get_channel_def Let_def split: if_splits option.splits)

text \<open>C18: a KICK of a local user changes no channel but one on which he has op.\<close>
theorem kick_needs_op:
  assumes "MyConnect (cl w sptr)" "\<not> IsServer (cl w sptr)"
  shows "ch (m_kick cptr sptr parv w) y = ch w y \<or> is_chan_op sptr (ch w y)"
proof -
  obtain r nm' w1 where g: "get_channel sptr (up_to_comma (parv ! 1)) False w = (r, nm', w1)" by (metis prod_cases3)
  have "w1 = w" by (rule get_channel_old [OF g])
  moreover have "ch (kick_who cptr sptr p0 nm' u c x w) y = ch w y"
    if "is_chan_op sptr (ch w x)" "\<not> is_chan_op sptr (ch w y)" for p0 u c x
    by (rule kick_who_frame) (use that in auto)
  ultimately show ?thesis
    using assms g by (cases r) (auto simp: m_kick_def Let_def send_defs kick_who_frame)
qed

theorem kick_needs_op_witness:
  "\<not> is_chan_op 12 (ch demo 0) \<and> ch (m_kick 12 12 [''bob'', ''#test'', ''alice''] demo) 0 = ch demo 0"
proof -
  have "\<not> is_chan_op 12 (ch demo 0)"
    by (simp add: is_chan_op_def user_channel_mode_def find_user_link_def demo_members has_flag_def)
  moreover have "MyConnect (cl demo 12)" "\<not> IsServer (cl demo 12)"
    by (simp_all add: demo_cl MyConnect_def IsServer_def STAT_SERVER_def STAT_CLIENT_def)
  ultimately show ?thesis using kick_needs_op [of demo 12 12 _ 0] by blast
qed

text \<open>C32: the topic of a channel only changes to the one given, cut to its array, by a member
  who has op or when the channel is not +t, on the channel named.\<close>
theorem topic_rights:
  "topic (ch (m_topic cptr sptr parv w) y) = topic (ch w y) \<or>
   find_channel w (up_to_comma (parv ! 1)) = Some y \<and> IsMember w sptr y \<and>
   (is_chan_op sptr (ch w y) \<or> modes (mode (ch w y)) AND MODE_TOPICLIMIT = 0) \<and>
   topic (ch (m_topic cptr sptr parv w) y) = take TOPICLEN (parv ! 2)"
  by (auto simp: m_topic_def Let_def set_topic_def send_topic_def send_defs has_flag_def split: option.split)

lemma add_invite_new:
  "a \<in> set (invites (ch (add_invite c x w) y)) \<Longrightarrow> a \<notin> set (invites (ch w y)) \<Longrightarrow> a = c \<and> y = x"
  by (auto simp: add_invite_def Let_def split: if_splits dest: set_remove1_subset [THEN subsetD])

text \<open>C31: an invitation that lets its target pass +i only comes from a member of the channel
  with op, on a channel that is +i, for a local user who is not on it.\<close>
theorem invite_rights:
  assumes "a \<in> set (invites (ch (m_invite cptr sptr parv w) y))" "a \<notin> set (invites (ch w y))"
  shows "IsMember w sptr y \<and> is_chan_op sptr (ch w y) \<and> has_flag (modes (mode (ch w y))) MODE_INVITEONLY \<and>
    MyConnect (cl w a) \<and> \<not> IsMember w a y \<and> find_channel w (parv ! 2) = Some y \<and> find_person w (parv ! 1) None = Some a"
proof -
  have d: "a = b \<and> y = x \<and> MyConnect (cl w b) \<and> has_flag (modes (mode (ch w x))) MODE_INVITEONLY"
    if "a \<in> set (invites (ch (do_invite cptr sptr parv b x w) y))" for b x
    using that assms(2)
    by (auto simp: do_invite_def Let_def send_defs split: if_splits option.splits dest: add_invite_new)
  show ?thesis
    using assms d by (auto simp: m_invite_def Let_def send_defs split: if_splits option.splits)
qed

definition demo_i :: world where
  "demo_i = upd_ch 0 (\<lambda>k. k\<lparr>mode := (mode k)\<lparr>modes := MODE_INVITEONLY\<rparr>\<rparr>) demo"

lemma demo_i_simps [simp]:
  "clients demo_i = clients demo" "ch demo_i 0 = (ch demo 0)\<lparr>mode := (mode (ch demo 0))\<lparr>modes := MODE_INVITEONLY\<rparr>\<rparr>"
  "find_client demo_i nm d = find_client demo nm d" "find_channel demo_i nm = find_channel demo nm"
proof -
  have "(\<lambda>x. chname (ch demo_i x)) = (\<lambda>x. chname (ch demo x))" by (auto simp: demo_i_def)
  then show "find_channel demo_i nm = find_channel demo nm" by (simp add: find_channel_def demo_i_def)
qed (simp_all add: demo_i_def find_client_def)

theorem invite_rights_witness:
  "15 \<in> set (invites (ch (m_invite 11 11 [''alice'', ''oper'', ''#test''] demo_i) 0)) \<and> 15 \<notin> set (invites (ch demo_i 0)) \<and>
   is_chan_op 11 (ch demo_i 0)"
proof -
  have oper: "find_client demo ''oper'' None = Some 15" by (rule demo_find_client) (simp_all add: demo_names cstring_def)
  have p: "find_person demo_i ''oper'' None = Some 15"
    by (simp add: find_person_def oper IsClient_def demo_cl demo0_def)
  have c: "check_channel_name ''#test''" "IsChannelName ''#test''" using test_param by (simp_all add: channel_param_def)
  have m: "IsMember demo_i 11 0" "\<not> IsMember demo_i 15 0" "user (cl demo 11) \<noteq> None"
    by (simp_all add: IsMember_def u_chans_def demo_cl demo0_def fresh_user_def)
  have u: "user (cl demo 15) = Some fresh_user" "MyConnect (cl demo 15)" by (simp_all add: demo_cl demo0_def MyConnect_def)
  have op: "is_chan_op 11 (ch demo_i 0)"
    by (simp add: is_chan_op_def user_channel_mode_def find_user_link_def demo_members has_flag_def chfl_defs)
  have "15 \<in> set (invites (ch (do_invite 11 11 [''alice'', ''oper'', ''#test''] 15 0 demo_i) 0))"
    using u by (auto simp: do_invite_def Let_def send_defs has_flag_def mode_defs add_invite_def MAXCHANNELSPERUSER_def u_invs_def fresh_user_def
        split: option.split)
  then have i: "15 \<in> set (invites (ch (m_invite 11 11 [''alice'', ''oper'', ''#test''] demo_i) 0))"
    using m op c by (auto simp: m_invite_def Let_def p demo_find_channel simp del: demo_i_simps(2))
  have n: "15 \<notin> set (invites (ch demo_i 0))" by (simp add: demo_chan)
  show ?thesis using invite_rights [OF i n] i n by blast
qed

section \<open>PART\<close>

lemma remove_user_members:
  "map m_client (members (ch (remove_user_from_channel c x w) x)) = remove1 c (map m_client (members (ch w x)))"
proof -
  have s: "members (ch (sub1_from_channel x w) x) = members (ch w x)" for w
    by (simp add: sub1_from_channel_def free_channel_def Let_def)
  show ?thesis by (simp add: remove_user_from_channel_def s map_unlink_remove1)
qed

text \<open>C23: a member who names one channel in PART leaves it and nobody else does; the channel is
  freed, and its name no longer known, exactly when it has no members left and is not juped.\<close>
theorem part_leaves:
  fixes cptr p0 rest
  assumes "chan_inv w" "channel_param nm" "length nm \<le> CHANNELLEN" "find_channel w nm = Some x" "IsMember w sptr x"
  defines "w' \<equiv> m_part cptr sptr (p0 # nm # rest) w"
  shows "chan_inv w' \<and> map m_client (members (ch w' x)) = remove1 sptr (map m_client (members (ch w x))) \<and>
    (find_channel w' nm = None \<longleftrightarrow> members (ch w' x) = [] \<and> \<not> juped (ch w x)) \<and> (\<forall>y. y \<noteq> x \<longrightarrow> ch w' y = ch w y)"
proof -
  note c = channel_param_simps [OF assms(2)]
  have nm: "cstring nm" using assms(2) by (simp add: channel_param_def)
  define w1 where "w1 = (if MyConnect (cl w sptr) \<and> \<not> IsAnOper (cl w sptr) then spam_leave sptr w else w)"
  have same: "chans w1 = chans w" "chan_list w1 = chan_list w" "chan_tab w1 = chan_tab w" "u_chans (cl w1 d) = u_chans (cl w d)" for d
    by (simp_all add: w1_def spam_leave_def Let_def sendto_ops_flags_def u_chans_def)
  have inv1: "chan_inv w1"
    using assms(1) chan_inv_upd_cl [of w _ sptr] by (auto simp: w1_def spam_leave_def Let_def sendto_ops_flags_def)
  have g: "get_channel sptr nm False w1 = (Some x, nm, w1)"
    using c(1) assms(3,4) by (simp add: get_channel_def find_channel_def same)
  have m1: "IsMember w1 sptr x" using assms(5) by (simp add: IsMember_def same)
  obtain os where eq: "w' = remove_user_from_channel sptr x (log_out os w1)"
    using c m1 by (simp add: w'_def m_part_def part_one_def Let_def w1_def [symmetric] g send_defs)
      (auto simp: log_out_def)
  let ?v = "log_out os w1"
  have v: "chan_inv ?v" "IsMember ?v sptr x" using inv1 m1 by (simp_all add: IsMember_def)
  note r = remove_user_inv [OF v]
  have mem: "map m_client (members (ch w' x)) = remove1 sptr (map m_client (members (ch w x)))"
    unfolding eq remove_user_members by (simp add: same)
  have frame: "ch w' y = ch w y" if "y \<noteq> x" for y using that by (simp add: eq remove_user_frame same)
  have alive: "x \<in> set (chan_list w)" "same_name nm (chname (ch w x))"
    using assms(4) find_channel_Some [OF assms(1) nm] by auto
  have cn: "chname (ch w' y) = chname (ch w y)" for y
    by (simp add: eq remove_user_from_channel_def sub1_from_channel_def free_channel_def Let_def same)
  have "sptr \<in> set (map m_client (members (ch w x)))"
    using assms(1,5) by (simp add: chan_inv_def memb_ok_def IsMember_def)
  then have us: "users (ch w x) \<le> 1 \<longleftrightarrow> members (ch w' x) = []"
    using assms(1) arg_cong [OF mem, of length] by (auto simp: chan_inv_def count_ok_def length_remove1)
  have cl: "chan_list w' = (if members (ch w' x) = [] \<and> \<not> juped (ch w x) then remove1 x (chan_list w) else chan_list w)"
    unfolding us [symmetric] using r(2) by (simp add: eq same)
  have d: "distinct (chan_list w)" and n: "names_ok (\<lambda>x. chname (ch w x)) (set (chan_list w))"
    using assms(1) by (simp_all add: chan_inv_def table_ok_def)
  have only: "y = x" if "y \<in> set (chan_list w)" "same_name nm (chname (ch w y))" for y
    using that alive n same_name_sym same_name_trans unfolding names_ok_def by metis
  have f: "find_channel w' nm = None \<longleftrightarrow> members (ch w' x) = [] \<and> \<not> juped (ch w x)"
    unfolding find_channel_None [OF r(1) [folded eq] nm] cn
  proof (cases "members (ch w' x) = [] \<and> \<not> juped (ch w x)")
    case True
    then have "set (chan_list w') = set (chan_list w) - {x}" using d by (simp add: cl)
    then show "(\<forall>y \<in> set (chan_list w'). \<not> same_name nm (chname (ch w y))) \<longleftrightarrow> members (ch w' x) = [] \<and> \<not> juped (ch w x)"
      using True only by blast
  next
    case False
    then have "x \<in> set (chan_list w')" using alive by (simp only: cl if_False)
    then show "(\<forall>y \<in> set (chan_list w'). \<not> same_name nm (chname (ch w y))) \<longleftrightarrow> members (ch w' x) = [] \<and> \<not> juped (ch w x)"
      using False alive by blast
  qed
  have "chan_inv w'" using r(1) by (simp only: eq)
  with mem f frame show ?thesis by blast
qed

theorem part_leaves_witness:
  "map m_client (members (ch (m_part 12 12 [''bob'', ''#test''] demo) 0)) = [11] \<and>
   find_channel (m_part 12 12 [''bob'', ''#test''] demo) ''#test'' \<noteq> None"
proof -
  have m: "IsMember demo 12 0" by (simp add: IsMember_def u_chans_def demo_cl fresh_user_def)
  have len: "length ''#test'' \<le> CHANNELLEN" by (simp add: CHANNELLEN_def)
  have e: "map m_client (members (ch (m_part 12 12 [''bob'', ''#test''] demo) 0)) = [11]"
    using part_leaves [OF demo_inv test_param len demo_find_channel m, of 12 "''bob''" "[]"] by (simp add: demo_members)
  then have "members (ch (m_part 12 12 [''bob'', ''#test''] demo) 0) \<noteq> []" by auto
  with e show ?thesis using part_leaves [OF demo_inv test_param len demo_find_channel m, of 12 "''bob''" "[]"] by blast
qed

section \<open>A remote JOIN of \<open>0\<close> and a channel\<close>

lemma zero_scan:
  assumes "\<not> MyConnect (cl w sptr)" "\<not> server_was_split w" "channel_param nm" "at nm 0 = CHR ''#''" "length nm \<le> 509"
  shows "join_list sptr (p0 # (''0,'' @ nm) # rest) w = ([''0'', nm], w)"
proof -
  note c = channel_param_simps [OF assms(3)]
  have z: "check_channel_name ''0''" "is_zero ''0''" by code_simp+
  have t: "strtokens (Some (''0'' @ CHR '','' # nm)) '','' = ''0'' # strtokens (Some nm) '',''"
    by (rule strtokens_token(2)) simp_all
  have s: "join_scan sptr p0 ''0'' ([], 0, w) = (''0'', 2, w)"
    using z by (simp add: join_scan_def BUFSIZE_def)
  have "join_scan sptr p0 nm (''0'', 2, w) = (''0,'' @ nm, length nm + 3, w)"
    using assms c by (simp add: join_scan_def BUFSIZE_def channel_param_def)
  then show ?thesis using t s assms(2) c by (simp add: join_list_def)
qed

lemma join_done_chans_of: "\<not> MyClient (cl w s) \<Longrightarrow> u_chans (cl (join_done cptr s p0 x fl nm w) d) = u_chans (cl w d)"
  by (simp add: join_done_def Let_def send_defs)

text \<open>: the channel pointer of \<open>m_join\<close> is not reset between names: when a remote user on one
  channel sends \<open>JOIN 0,#name\<close>, he leaves his channel and is then put on it again, not on the
  one he named; if he was its last member he is put on a channel that has been freed.\<close>
theorem remote_join_zero:
  fixes cptr p0 rest
  assumes "\<not> MyConnect (cl w sptr)" "user (cl w sptr) \<noteq> None" "\<not> server_was_split w" "u_chans (cl w sptr) = [x]"
    "channel_param nm" "at nm 0 = CHR ''#''" "length nm \<le> 509"
  defines "w' \<equiv> m_join cptr sptr (p0 # (''0,'' @ nm) # rest) w"
  shows "u_chans (cl w' sptr) = [x] \<and>
    (chan_inv w \<and> users (ch w x) = 1 \<and> \<not> juped (ch w x) \<longrightarrow> x \<notin> set (chan_list w') \<and> \<not> chan_inv w')"
proof -
  note l = zero_scan [OF assms(1,3,5-7), of p0 rest]
  define w0 where "w0 = sendto_channel_butserv x sptr PartFmt [Str p0, Str (chname (ch w x)), Str []] w"
  define w1 where "w1 = remove_user_from_channel sptr x w0"
  define w2 where "w2 = sendto_match_servs None cptr (Fmt '':%s JOIN 0'') [Str p0] w1"
  define w3 where "w3 = (if find_channel w2 nm = None then ts_warn (Fmt ''User on %s remotely JOINing new channel'')
      [Str (case user (cl w2 sptr) of Some u \<Rightarrow> u_server u | None \<Rightarrow> [])] w2 else w2)"
  have id: "ident (cl w3 sptr) = ident (cl w sptr)" and cl3: "clients w3 = clients w1" "chan_list w3 = chan_list w1"
    by (simp_all add: w3_def w2_def w1_def w0_def send_defs)
  then have loc: "\<not> MyConnect (cl w1 sptr)" "user (cl w1 sptr) \<noteq> None" using assms(1,2) by (auto simp: ident_def MyConnect_def)
  have u1: "u_chans (cl w1 sptr) = []" using assms(4) by (simp add: w1_def remove_user_chans w0_def send_defs)
  have z: "is_zero ''0''" by code_simp
  have s1: "join_step cptr sptr p0 ky None 0 ''0'' w = (Some (Some x, 0), w2)" for ky
    using z loc(1) assms(4) by (simp add: join_step_def join_zero_def Let_def w0_def [symmetric] w1_def [symmetric] w2_def [symmetric])
  define v where "v = join_done cptr sptr p0 x 0 nm (add_user_to_channel x sptr 0 w3)"
  have "\<not> IsMember w3 sptr x" using u1 by (simp add: IsMember_def cl3)
  then have s2: "join_step cptr sptr p0 ky (Some x) 0 nm w2 = (Some (Some x, 0), v)" for ky
    using channel_param_simps(2) [OF assms(5)] loc(1) cl3
    by (simp add: join_step_def join_remote_def w3_def [symmetric] join_enter_def v_def) (simp add: w2_def send_defs)
  have a: "\<not> MyClient (cl (add_user_to_channel x sptr 0 w3) sptr)" "u_chans (cl (add_user_to_channel x sptr 0 w3) sptr) = [x]"
    using loc u1 by (auto simp: cl3 add_user_to_channel_def MyClient_def MyConnect_def u_chans_def)
  have v: "u_chans (cl v sptr) = [x]" "chan_list v = chan_list w1"
    using a by (simp_all add: v_def join_done_chans_of join_done_chan_list cl3)
  have "w' = (if MyConnect (cl v sptr) then set_last_join sptr 0 v else v)"
    using assms(2) l unfolding w'_def m_join_def by (auto simp: s1 s2)
  then have w': "w' = v" by (simp add: set_last_join_def)
  have "x \<notin> set (chan_list w') \<and> \<not> chan_inv w'" if i: "chan_inv w" "users (ch w x) = 1" "\<not> juped (ch w x)"
  proof -
    have "chan_inv w0" "IsMember w0 sptr x" using i(1) assms(4) by (simp_all add: w0_def send_defs IsMember_def)
    then have "chan_list w1 = remove1 x (chan_list w0)"
      using i remove_user_inv(2) [of w0 sptr x] by (simp add: w1_def) (simp add: w0_def send_defs)
    then have out: "x \<notin> set (chan_list w')"
      using i(1) by (simp add: w' v w0_def send_defs chan_inv_def table_ok_def)
    moreover have "IsMember w' sptr x" using v by (simp add: w' IsMember_def)
    ultimately show ?thesis using IsMember_alive by blast
  qed
  then show ?thesis using v w' by blast
qed

text \<open>The remote user \<open>carol\<close> alone on a channel.\<close>

definition solo :: world where
  "solo = add_user_to_channel (next_chan calm) 14 0 (snd (new_channel ''#alone'' calm))"

lemma carol: "cl calm 14 = (local_user 14 ''carol'')\<lparr>local_flag := False, fd := -1, cfrom := 13, servptr := 13, hopcount := 1\<rparr>"
  by (simp add: demo_cl demo0_def)

lemma solo_facts:
  "chan_inv solo" "\<not> MyConnect (cl solo 14)" "u_chans (cl solo 14) = [next_chan calm]" "users (ch solo (next_chan calm)) = 1"
  "\<not> juped (ch solo (next_chan calm))" "\<not> server_was_split solo" "user (cl solo 14) \<noteq> None"
proof -
  let ?v = "snd (new_channel ''#alone'' calm)"
  have f: "find_channel calm ''#alone'' = None" by (rule calm_absent) (simp_all add: cstring_def)
  have c: "cstring ''#alone''" by (simp add: cstring_def)
  note n = new_channel_inv [OF calm_inv c f]
  have x: "fst (new_channel ''#alone'' calm) = next_chan calm" by (simp add: new_channel_def Let_def)
  show "chan_inv solo" unfolding solo_def
    by (rule add_user_inv [OF n(1)]) (use n(2,4) in \<open>simp_all only: x not_False_eq_True\<close>)
  have v: "cl ?v 14 = cl calm 14" "users (ch ?v (next_chan calm)) = 0" "juped (ch ?v (next_chan calm)) = False" "server_was_split ?v = False"
    by (simp_all add: new_channel_def Let_def zero_channel_def)
  then show "\<not> MyConnect (cl solo 14)" "u_chans (cl solo 14) = [next_chan calm]" "users (ch solo (next_chan calm)) = 1"
    "\<not> juped (ch solo (next_chan calm))" "\<not> server_was_split solo" "user (cl solo 14) \<noteq> None"
    by (simp_all add: solo_def add_user_to_channel_def carol MyConnect_def u_chans_def local_user_def fresh_user_def upd_user_def del: calm_simps)
qed

theorem remote_join_zero_witness:
  "chan_inv solo \<and> u_chans (cl (m_join 13 14 [''carol'', ''0,#test''] solo) 14) = [next_chan calm] \<and>
   \<not> chan_inv (m_join 13 14 [''carol'', ''0,#test''] solo)"
proof -
  have n: "at ''#test'' 0 = CHR ''#''" "length ''#test'' \<le> 509" by simp_all
  show ?thesis
    using remote_join_zero [OF solo_facts(2,7,6,3) test_param n, of 13 "''carol''" "[]"] solo_facts by simp
qed

end
