(* ===== verification/NamesSpec.thy ===== *)
theory NamesSpec
  imports JoinSpec
begin

text \<open>
  The lines of a NAMES reply: together they carry every listed member once, in order, and
  each fits the buffer and the bound of the protocol.
\<close>

definition entry_text :: "cstr \<times> cstr \<Rightarrow> cstr" where
  "entry_text e = fst e @ snd e @ '' ''"

definition names_text :: "cstr \<Rightarrow> (cstr \<times> cstr) list \<Rightarrow> cstr" where
  "names_text h es = h @ concat (map entry_text es)"

definition entries_short :: "(cstr \<times> cstr) list \<Rightarrow> bool" where
  "entries_short es \<longleftrightarrow> (\<forall>(pre, nm) \<in> set es. length pre \<le> 1 \<and> length nm \<le> NICKLEN)"

lemma names_text_snoc: "names_text h (es @ [e]) = names_text h es @ entry_text e"
  by (simp add: names_text_def)

lemma names_lines_split:
  assumes "mlen + length h + NICKLEN \<le> BUFSIZE - 3" "entries_short es"
    "mlen + length (names_text h es0) + NICKLEN \<le> BUFSIZE - 3" "flag \<or> es0 = []"
  shows "\<exists>ess. names_lines mlen h (names_text h es0) (length (names_text h es0)) flag es = map (names_text h) ess \<and>
    concat ess = es0 @ es \<and> (\<forall>e \<in> set ess. mlen + length (names_text h e) < BUFSIZE)"
  using assms(2-4)
proof (induction es arbitrary: es0 flag)
  case Nil
  show ?case
  proof (cases flag)
    case True
    then show ?thesis using Nil by (intro exI [of _ "[es0]"]) (simp add: BUFSIZE_def)
  next
    case False
    then show ?thesis using Nil by (intro exI [of _ "[]"]) simp
  qed
next
  case (Cons e es)
  obtain pre nm where e: "e = (pre, nm)" by fastforce
  have sh: "length pre \<le> 1" "length nm \<le> NICKLEN" "entries_short es"
    using Cons.prems(1) by (auto simp: entries_short_def e)
  let ?b = "names_text h (es0 @ [e])"
  have b: "names_text h es0 @ pre @ take NICKLEN nm @ '' '' = ?b"
    "length (names_text h es0) + length pre + length nm + 1 = length ?b"
    using sh(2) by (simp_all add: names_text_snoc entry_text_def e)
  show ?case
  proof (cases "mlen + length ?b + NICKLEN > BUFSIZE - 3")
    case True
    have p: "mlen + length (names_text h []) + NICKLEN \<le> BUFSIZE - 3" using assms(1) by (simp add: names_text_def)
    obtain ess where ess: "names_lines mlen h (names_text h []) (length (names_text h [])) False es = map (names_text h) ess"
      "concat ess = es" "\<forall>e \<in> set ess. mlen + length (names_text h e) < BUFSIZE"
      using Cons.IH [OF sh(3) p, of False] by auto
    have "mlen + length ?b < BUFSIZE" using Cons.prems(2) sh b(2) by (simp add: BUFSIZE_def)
    moreover have "names_lines mlen h (names_text h es0) (length (names_text h es0)) flag (e # es) =
        ?b # names_lines mlen h (names_text h []) (length (names_text h [])) False es"
      using True unfolding e names_lines.simps Let_def b [unfolded e] by (simp add: names_text_def)
    ultimately show ?thesis using ess by (intro exI [of _ "(es0 @ [e]) # ess"]) simp
  next
    case False
    have "names_lines mlen h (names_text h es0) (length (names_text h es0)) flag (e # es) =
        names_lines mlen h ?b (length ?b) True es"
      using False unfolding e names_lines.simps Let_def b [unfolded e] by simp
    then show ?thesis using Cons.IH [OF sh(3), of "es0 @ [e]" True] False by simp
  qed
qed

text \<open>C35: the lines of a NAMES reply for a channel carry each listed member exactly once and in
  order, with its prefix, and with the numeric, the server's and the client's name before it
  each line stays below \<open>BUFSIZE\<close>, provided nicks are at most \<open>NICKLEN\<close> and the head fits.\<close>
theorem names_complete:
  assumes "\<And>m. m \<in> set (members (ch w x)) \<Longrightarrow> length (name (cl w (m_client m))) \<le> NICKLEN"
    "names_mlen w + length (names_head (ch w x)) + NICKLEN \<le> BUFSIZE - 3"
  shows "\<exists>ess. channel_names w c x = map (names_text (names_head (ch w x))) ess \<and>
    concat ess = map (names_entry w) (names_listed w c x) \<and> (\<forall>l \<in> set (channel_names w c x). names_mlen w + length l < BUFSIZE)"
proof -
  let ?es = "map (names_entry w) (names_listed w c x)" and ?h = "names_head (ch w x)"
  have "entries_short ?es" using assms(1) by (auto simp: entries_short_def names_entry_def names_listed_def)
  then obtain ess where "names_lines (names_mlen w) ?h (names_text ?h []) (length (names_text ?h [])) True ?es = map (names_text ?h) ess"
    "concat ess = ?es" "\<forall>e \<in> set ess. names_mlen w + length (names_text ?h e) < BUFSIZE"
    using names_lines_split [OF assms(2), of ?es "[]" True] assms(2) by (auto simp: names_text_def)
  then show ?thesis by (intro exI [of _ ess]) (simp add: channel_names_def names_text_def)
qed

theorem names_complete_witness:
  "\<exists>ess. channel_names demo 12 0 = map (names_text (names_head (ch demo 0))) ess \<and>
     concat ess = [([], ''bob''), (''@'', ''alice'')]"
proof -
  have n: "length (name (cl demo (m_client m))) \<le> NICKLEN" if "m \<in> set (members (ch demo 0))" for m
    using that by (auto simp: demo_members demo_names NICKLEN_def)
  have me: "demo_name (me demo) = ''irc.example.net''"
    by (simp add: demo_rest demo_name_def demo0_def boot_def)
  have h: "names_mlen demo + length (names_head (ch demo 0)) + NICKLEN \<le> BUFSIZE - 3"
    by (simp add: names_mlen_def me names_head_def demo_chan NICKLEN_def BUFSIZE_def)
  have "map (names_entry demo) (names_listed demo 12 0) = [([], ''bob''), (''@'', ''alice'')]"
    by (simp add: names_listed_def names_entry_def demo_members demo_names IsInvisible_def demo_cl has_flag_def chfl_defs)
  then show ?thesis using names_complete [OF n h, of 12] by auto
qed

end
