(* ===== verification/SjoinSpec.thy ===== *)
theory SjoinSpec
  imports JoinSpec
begin

text \<open>
  The time-stamp rules of \<open>m_sjoin\<close> on a channel that exists: the older side's modes and
  operators win, equal sides are merged, and a newer side brings members but no operators.
\<close>

section \<open>What the list of nicks adds\<close>

definition grows :: "bool \<Rightarrow> chid \<Rightarrow> world \<Rightarrow> world \<Rightarrow> bool" where
  "grows k x w v \<longleftrightarrow> (\<exists>new. members (ch v x) = new @ members (ch w x) \<and>
     (\<forall>m \<in> set new. \<exists>s. m_flags m = nick_flags k s)) \<and>
     mode (ch v x) = mode (ch w x) \<and> channelts (ch v x) = channelts (ch w x) \<and> chname (ch v x) = chname (ch w x) \<and>
     (\<forall>y. y \<noteq> x \<longrightarrow> ch v y = ch w y)"

lemma grows_same: "chans v = chans w \<Longrightarrow> grows k x w v"
  by (simp add: grows_def)

lemma grows_trans:
  assumes "grows k x w v" "grows k x v u"
  shows "grows k x w u"
proof -
  obtain new where new: "members (ch v x) = new @ members (ch w x)" "\<forall>m \<in> set new. \<exists>s. m_flags m = nick_flags k s"
    using assms(1) by (auto simp: grows_def)
  obtain new' where new': "members (ch u x) = new' @ members (ch v x)" "\<forall>m \<in> set new'. \<exists>s. m_flags m = nick_flags k s"
    using assms(2) by (auto simp: grows_def)
  show ?thesis using assms new new' unfolding grows_def by (intro conjI exI [of _ "new' @ new"]) auto
qed

lemma grows_add: "grows k x w (add_user_to_channel x c (nick_flags k s) w)"
  by (auto simp: grows_def add_user_to_channel_def)

lemma grows_nick: "grows k x (snd st) (snd (sjoin_nicks1 cptr sptr p0 nm x k s0 st))"
proof -
  obtain n w where st: "st = (n, w)" by fastforce
  obtain r b w1 where f: "find_chasing sptr (nick_of s0) w = (r, b, w1)" by (metis prod_cases3)
  have w1: "chans w1 = chans w" using logs_fields find_chasing_logs [OF f] by blast
  let ?fl = "nick_flags k s0"
  have "grows k x w1 (add_user_to_channel x a ?fl w1)" for a by (rule grows_add)
  then have g: "grows k x w (add_user_to_channel x a ?fl w1)" for a
    using grows_trans grows_same [OF w1] by blast
  have "\<exists>u. grows k x w u \<and> chans (snd (sjoin_nicks1 cptr sptr p0 nm x k s0 st)) = chans u"
  proof (cases r)
    case None
    then show ?thesis using grows_same [OF w1] by (auto simp: st sjoin_nicks1_def f Let_def)
  next
    case (Some a)
    show ?thesis
    proof (cases "cfrom (cl w1 a) \<noteq> cptr \<or> IsMember w1 a x")
      case True
      then have "chans (snd (sjoin_nicks1 cptr sptr p0 nm x k s0 st)) = chans w1"
        by (auto simp: st sjoin_nicks1_def f Let_def Some)
      then show ?thesis using grows_same [OF w1] by blast
    next
      case False
      then have "chans (snd (sjoin_nicks1 cptr sptr p0 nm x k s0 st)) = chans (add_user_to_channel x a ?fl w1)"
        by (auto simp: st sjoin_nicks1_def f Let_def Some send_defs)
      then show ?thesis using g by blast
    qed
  qed
  then show ?thesis using grows_trans [OF _ grows_same] by (auto simp: st)
qed

lemma grows_nicks: "grows k x (snd st) (snd (fold (sjoin_nicks1 cptr sptr p0 nm x k) ss st))"
proof (induction ss arbitrary: st)
  case Nil
  then show ?case by (simp add: grows_same)
next
  case (Cons s ss)
  then show ?case using grows_trans [OF grows_nick] by simp blast
qed

lemma sendit_chans [simp]: "chans (sjoin_sendit s p x l w) = chans w"
  by (simp add: sendit_log)

lemma grows_list: "grows k x w (sjoin_nicks cptr sptr parv x ts k ss w)"
proof -
  let ?n0 = "\<lparr>sn_mbuf = ''+'', sn_pbuf = [], sn_pargs = 0, sn_names = [], sn_people = 0\<rparr>"
  obtain n v where f: "fold (sjoin_nicks1 cptr sptr (parv ! 0) (parv ! 2) x k) ss (?n0, w) = (n, v)" by fastforce
  have "grows k x w v" using grows_nicks [of k x "(?n0, w)" cptr sptr "parv ! 0" "parv ! 2" ss] by (simp add: f)
  then show ?thesis
    by (rule grows_trans, intro grows_same) (simp add: sjoin_nicks_def Let_def f send_defs)
qed

section \<open>The modes and our members\<close>

definition stripped :: "member list \<Rightarrow> member list" where
  "stripped ms = map (\<lambda>m. m\<lparr>m_flags := m_flags m AND NOT MODE_CHANOP AND NOT MODE_VOICE\<rparr>) ms"

lemma fold_sendit_chans [simp]: "chans (fold (sjoin_sendit s p x) ls w) = chans w"
  by (induction ls arbitrary: w) simp_all

lemma sjoin_modes_effect:
  "ch (sjoin_modes sptr p0 x keep new o1 n1 w) y = (if y = x
     then (ch w x)\<lparr>mode := new, members := (if keep then members (ch w x) else stripped (members (ch w x)))\<rparr> else ch w y)"
  by (auto simp: sjoin_modes_def Let_def strip_status_def stripped_def send_defs split: prod.split)

lemma stripped_no_status: "m \<in> set (stripped ms) \<Longrightarrow> \<not> has_flag (m_flags m) (CHFL_CHANOP OR CHFL_VOICE)"
  by (auto simp: stripped_def has_flag_iff_bit bit_and_iff bit_or_iff bit_not_iff MODE_CHANOP_def MODE_VOICE_def)

lemma nick_flags_new: "\<not> has_flag (nick_flags False s) (CHFL_CHANOP OR CHFL_VOICE)"
  by (simp add: nick_flags_def has_flag_def chfl_defs Let_def)

text \<open>A burst for a channel that exists, taken by the handler.\<close>

definition burst_ok :: "world \<Rightarrow> cid \<Rightarrow> cstr list \<Rightarrow> chanmode \<Rightarrow> nat \<Rightarrow> chid \<Rightarrow> bool" where
  "burst_ok w sptr parv m a x \<longleftrightarrow>
     \<not> IsClient (cl w sptr) \<and> \<not> MyClient (cl w sptr) \<and> length parv \<ge> 5 \<and> IsChannelName (parv ! 2) \<and> check_channel_name (parv ! 2) \<and>
     at (parv ! 2) 0 \<noteq> CHR ''&'' \<and> sjoin_parse parv (parv ! 3) no_modes 0 = Some (m, a) \<and> find_channel w (parv ! 2) = Some x"

lemma sjoin_effect:
  fixes cptr
  assumes "burst_ok w sptr parv m a x"
    "sjoin_ts False (atoi (parv ! 1)) (channelts (ch w x)) (juped (ch w x) \<and> users (ch w x) = 0) = (tosend, ts, ko, kn)"
  defines "w' \<equiv> m_sjoin cptr sptr parv w"
  shows "mode (ch w' x) = merge_modes ko kn (mode (ch w x)) m" "channelts (ch w' x) = ts"
    "\<exists>new. members (ch w' x) = new @ (if ko then members (ch w x) else stripped (members (ch w x))) \<and>
       (\<forall>m \<in> set new. \<exists>s. m_flags m = nick_flags kn s)" "\<And>y. y \<noteq> x \<Longrightarrow> ch w' y = ch w y"
proof -
  have ne: "parv ! 2 \<noteq> []" using assms(1) by (auto simp: burst_ok_def IsChannelName_def)
  have g: "get_channel sptr (parv ! 2) True w = (Some x, parv ! 2, w)"
    using assms(1) ne by (simp add: burst_ok_def get_channel_def)
  have eq: "w' = sjoin_on cptr sptr parv m (parv ! (4 + a)) False x w"
    using assms(1) unfolding w'_def m_sjoin_def g by (simp add: burst_ok_def)
  obtain v where v: "grows kn x v w'"
    "ch v y = (if y = x then (ch w x)\<lparr>channelts := ts, mode := merge_modes ko kn (mode (ch w x)) m,
       members := (if ko then members (ch w x) else stripped (members (ch w x)))\<rparr> else ch w y)" for y
  proof (rule that)
    let ?w1 = "(if \<not> False \<and> atoi (parv ! 1) = 0 \<and> channelts (ch w x) \<noteq> 0 then
                  sendto_realops (Fmt ''Server %s changing TS on %s from %lu to 0'')
                    [Str (name (cl w sptr)), Str (parv ! 2), Num (channelts (ch w x))]
                    (sendto_channel_butserv x (me w) (Fmt '':%s NOTICE %s :*** Notice -- TS for %s changed from %lu to 0'')
                      [me_name w, Str (chname (ch w x)), Str (chname (ch w x)), Num (channelts (ch w x))] w)
                else w)"
    let ?v = "sjoin_modes sptr (parv ! 0) x ko (merge_modes ko kn (mode (ch w x)) m) (channelts (ch w x)) (atoi (parv ! 1))
                (upd_ch x (\<lambda>k. k\<lparr>channelts := ts\<rparr>) ?w1)"
    show "grows kn x ?v w'"
      unfolding eq sjoin_on_def Let_def assms(2) prod.case by (rule grows_list)
    have "chans ?w1 = chans w" by (simp add: send_defs)
    then show "ch ?v y = (if y = x then (ch w x)\<lparr>channelts := ts, mode := merge_modes ko kn (mode (ch w x)) m,
       members := (if ko then members (ch w x) else stripped (members (ch w x)))\<rparr> else ch w y)" for y
      unfolding sjoin_modes_effect by (simp del: if_not_P)
  qed
  then show "mode (ch w' x) = merge_modes ko kn (mode (ch w x)) m" "channelts (ch w' x) = ts"
    "\<exists>new. members (ch w' x) = new @ (if ko then members (ch w x) else stripped (members (ch w x))) \<and>
       (\<forall>m \<in> set new. \<exists>s. m_flags m = nick_flags kn s)" "\<And>y. y \<noteq> x \<Longrightarrow> ch w' y = ch w y"
    by (auto simp: grows_def)
qed

text \<open>C5: the TS rules.  When their time stamp is older, their modes replace ours, their time is
  taken and every member we had loses op and voice; when it is newer (and the channel is no
  empty juped one) our modes, time and status stay and nobody they bring has op or voice;
  when it is equal the modes are merged and our status stays.  No other channel changes.\<close>
theorem sjoin_ts_rules:
  fixes cptr
  assumes "burst_ok w sptr parv m a x" "atoi (parv ! 1) \<noteq> 0" "channelts (ch w x) \<noteq> 0"
  defines "w' \<equiv> m_sjoin cptr sptr parv w" and "theirs \<equiv> atoi (parv ! 1)" and "ours \<equiv> channelts (ch w x)"
  shows "(theirs < ours \<longrightarrow> mode (ch w' x) = m \<and> channelts (ch w' x) = theirs \<and>
      (\<exists>new. members (ch w' x) = new @ stripped (members (ch w x)))) \<and>
    (theirs > ours \<and> \<not> (juped (ch w x) \<and> users (ch w x) = 0) \<longrightarrow> mode (ch w' x) = mode (ch w x) \<and> channelts (ch w' x) = ours \<and>
      (\<exists>new. members (ch w' x) = new @ members (ch w x) \<and> (\<forall>n \<in> set new. \<not> has_flag (m_flags n) (CHFL_CHANOP OR CHFL_VOICE)))) \<and>
    (theirs = ours \<longrightarrow> mode (ch w' x) = merge_modes True True (mode (ch w x)) m \<and> channelts (ch w' x) = ours \<and>
      (\<exists>new. members (ch w' x) = new @ members (ch w x))) \<and>
    (\<forall>y. y \<noteq> x \<longrightarrow> ch w' y = ch w y)"
proof -
  obtain tosend ts ko kn where t:
    "sjoin_ts False theirs ours (juped (ch w x) \<and> users (ch w x) = 0) = (tosend, ts, ko, kn)" by (metis prod_cases4)
  note e = sjoin_effect [OF assms(1) t [unfolded theirs_def ours_def], where cptr = cptr, folded w'_def]
  obtain new where new: "members (ch w' x) = new @ (if ko then members (ch w x) else stripped (members (ch w x)))"
    "\<forall>m \<in> set new. \<exists>s. m_flags m = nick_flags kn s" using e(3) by blast
  have nf: "\<not> has_flag (m_flags n) (CHFL_CHANOP OR CHFL_VOICE)" if "n \<in> set new" "\<not> kn" for n
    using that new(2) nick_flags_new by fastforce
  consider "theirs < ours" | "theirs > ours" | "theirs = ours" by linarith
  then show ?thesis
  proof cases
    case 1
    then have "ts = theirs" "\<not> ko" "kn" using t assms(2,3) by (auto simp: sjoin_ts_def theirs_def ours_def)
    then show ?thesis using 1 e(1,2,4) new(1) by (simp add: merge_modes_def)
  next
    case 2
    then have "\<not> (juped (ch w x) \<and> users (ch w x) = 0) \<Longrightarrow> ts = ours \<and> ko \<and> \<not> kn"
      using t assms(2,3) by (auto simp: sjoin_ts_def theirs_def ours_def)
    then show ?thesis using 2 e(1,2,4) new(1) nf by (auto simp: merge_modes_def)
  next
    case 3
    then have "ts = ours" "ko" "kn" using t assms(2,3) by (auto simp: sjoin_ts_def theirs_def ours_def)
    then show ?thesis using 3 e(1,2,4) new(1) by simp
  qed
qed

text \<open>A burst from the linked server for the channel \<open>#test\<close>, whose time is 1000000000.\<close>

lemma demo_burst:
  assumes "parv = [p0, ts, ''#test'', md, nicks]" "sjoin_parse parv md no_modes 0 = Some (m, a)"
  shows "burst_ok demo 13 parv m a 0"
proof -
  have "status (cl demo 13) = STAT_SERVER" by (simp add: demo_cl demo0_def)
  then show ?thesis using assms test_param
    by (simp add: burst_ok_def IsClient_def MyClient_def STAT_SERVER_def STAT_CLIENT_def channel_param_def demo_find_channel)
qed

theorem sjoin_ts_rules_witness:
  "mode (ch (m_sjoin 13 13 [''hub'', ''5'', ''#test'', ''+s'', ''@carol''] demo) 0) = \<lparr>modes = MODE_SECRET, limit = 0, key = []\<rparr> \<and>
   (\<exists>new. members (ch (m_sjoin 13 13 [''hub'', ''5'', ''#test'', ''+s'', ''@carol''] demo) 0) =
      new @ [\<lparr>m_client = 12, m_flags = 0\<rparr>, \<lparr>m_client = 11, m_flags = 0\<rparr>])"
proof -
  let ?parv = "[''hub'', ''5'', ''#test'', ''+s'', ''@carol'']"
  have p: "sjoin_parse ?parv ''+s'' no_modes 0 = Some (\<lparr>modes = MODE_SECRET, limit = 0, key = []\<rparr>, 0)" by code_simp
  have ts: "atoi (?parv ! 1) = 5" by code_simp
  have st: "stripped (members (ch demo 0)) = [\<lparr>m_client = 12, m_flags = 0\<rparr>, \<lparr>m_client = 11, m_flags = 0\<rparr>]"
    by (simp add: stripped_def demo_members chfl_defs)
  have nz: "atoi (?parv ! 1) \<noteq> 0" "channelts (ch demo 0) \<noteq> 0" and lt: "atoi (?parv ! 1) < channelts (ch demo 0)"
    unfolding ts demo_chan by simp_all
  show ?thesis using mp [OF conjunct1 [OF sjoin_ts_rules [OF demo_burst [OF refl p] nz, of 13]] lt] unfolding st by blast
qed

section \<open>Naming a member as operator\<close>

lemma sendit_clients [simp]:
  "clients (sjoin_sendit s p x l w) = clients w" "client_tab (sjoin_sendit s p x l w) = client_tab w"
  by (simp_all add: sendit_log)

lemma fold_sendit_clients [simp]:
  "clients (fold (sjoin_sendit s p x) ls w) = clients w" "client_tab (fold (sjoin_sendit s p x) ls w) = client_tab w"
  by (induction ls arbitrary: w) simp_all

lemma sjoin_modes_clients:
  "clients (sjoin_modes s p0 x b new o1 n1 w) = clients w" "client_tab (sjoin_modes s p0 x b new o1 n1 w) = client_tab w"
  by (auto simp: sjoin_modes_def Let_def strip_status_def send_defs split: prod.split)

lemma local_members_cong:
  "clients v = clients w \<Longrightarrow> map m_client (members (ch v x)) = map m_client (members (ch w x)) \<Longrightarrow> local_members v x = local_members w x"
  by (simp add: local_members_def)

lemma sjoin_ts_equal: "n \<noteq> 0 \<Longrightarrow> sjoin_ts False n n fr = (n, n, True, True)"
  by (simp add: sjoin_ts_def)

text \<open>: a burst with our time stamp that names a member as operator does not give him op: no
  membership changes, yet each local member is told that he got \<open>+o\<close>.\<close>
theorem sjoin_phantom_op:
  fixes cptr p0 s ts nm md
  defines "parv \<equiv> [p0, ts, nm, md, CHR ''@'' # s]"
  assumes "burst_ok w sptr parv m 0 x" "atoi ts = channelts (ch w x)" "channelts (ch w x) \<noteq> 0"
    "s \<noteq> []" "CHR '' '' \<notin> set s" "hd s \<noteq> CHR ''@''" "hd s \<noteq> CHR ''+''"
    "find_client w s None = Some c" "cfrom (cl w c) = cptr" "IsMember w c x" "d \<in> set (local_members w x)"
  shows "members (ch (m_sjoin cptr sptr parv w) x) = members (ch w x) \<and>
    Prefix d sptr (Fmt '':%s MODE %s %s %s'') [Str p0, Str (chname (ch w x)), Str ''+o'', Str (s @ '' '')]
      \<in> set (outl (m_sjoin cptr sptr parv w))"
proof -
  have ne: "nm \<noteq> []" using assms(2) by (auto simp: burst_ok_def IsChannelName_def parv_def)
  have p: "parv ! 0 = p0" "parv ! Suc 0 = ts" "parv ! 2 = nm" "parv ! 3 = md" "parv ! 4 = CHR ''@'' # s" by (simp_all add: parv_def)
  have g: "get_channel sptr nm True w = (Some x, nm, w)" and f0: "find_channel w nm = Some x"
    using assms(2) ne by (simp_all add: burst_ok_def get_channel_def p)
  have tok: "strtokens (Some (CHR ''@'' # s)) '' '' = [CHR ''@'' # s]"
    by (rule strtokens_token(1)) (use assms(6) in auto)
  obtain h t where ht: "s = h # t" using assms(5) by (cases s) auto
  have nk: "nick_of (CHR ''@'' # s) = s" "nick_flags True (CHR ''@'' # s) = MODE_CHANOP"
    using assms(7,8) by (simp_all add: nick_of_def nick_flags_def ht Let_def)
  let ?v = "sjoin_modes sptr p0 x True (merge_modes True True (mode (ch w x)) m) (channelts (ch w x)) (atoi ts)
      (upd_ch x (\<lambda>k. k\<lparr>channelts := atoi ts\<rparr>) w)"
  have eq: "m_sjoin cptr sptr parv w = sjoin_nicks cptr sptr parv x (atoi ts) True [CHR ''@'' # s] ?v"
    using assms(2-4) g f0 tok
    by (simp add: m_sjoin_def burst_ok_def p sjoin_on_def Let_def sjoin_ts_equal)
  have v: "clients ?v = clients w" "client_tab ?v = client_tab w" "members (ch ?v x) = members (ch w x)"
    "chname (ch ?v x) = chname (ch w x)"
    by (simp_all add: sjoin_modes_clients sjoin_modes_effect)
  have fc: "find_chasing sptr s ?v = (Some c, False, ?v)"
    using assms(9) by (simp add: find_chasing_def find_client_def v)
  have op: "has_flag MODE_CHANOP MODE_CHANOP" "\<not> has_flag MODE_CHANOP MODE_VOICE" by (simp_all add: has_flag_def chfl_defs)
  let ?n0 = "\<lparr>sn_mbuf = ''+'', sn_pbuf = [], sn_pargs = 0, sn_names = [], sn_people = 0\<rparr>"
  have st: "sjoin_nicks1 cptr sptr p0 nm x True (CHR ''@'' # s) (?n0, ?v) =
      (?n0\<lparr>sn_mbuf := ''+o'', sn_pbuf := s @ '' '', sn_pargs := 1, sn_names := [CHR ''@'' # s], sn_people := 1\<rparr>, ?v)"
    using assms(10,11) op
    by (simp add: sjoin_nicks1_def nk fc v IsMember_def Let_def nick_mode_def MAXMODEPARAMS_def)
  have "local_members ?v x = local_members w x" by (rule local_members_cong) (simp_all add: v)
  then have "Prefix d sptr (Fmt '':%s MODE %s %s %s'') [Str p0, Str (chname (ch w x)), Str ''+o'', Str (s @ '' '')]
      \<in> set (outl (sjoin_sendit sptr p0 x (''+o'', s @ '' '') ?v))"
    using assms(12) by (simp add: sendit_log v)
  moreover have "chans (m_sjoin cptr sptr parv w) = chans ?v"
    by (simp add: eq sjoin_nicks_def Let_def p st send_defs)
  ultimately show ?thesis
    unfolding eq by (simp add: sjoin_nicks_def Let_def p st v send_defs)
qed

text \<open>The example with \<open>carol\<close> on the channel too.\<close>

definition demo2 :: world where "demo2 = add_user_to_channel 0 14 0 demo"

lemma demo2_simps:
  "members (ch demo2 0) = \<lparr>m_client = 14, m_flags = 0\<rparr> # members (ch demo 0)" "c \<noteq> 14 \<Longrightarrow> cl demo2 c = cl demo c"
  "chname (ch demo2 y) = chname (ch demo y)" "channelts (ch demo2 0) = 1000000000"
  "find_channel demo2 nm = find_channel demo nm" "find_client demo2 nm e = find_client demo nm e"
  "cfrom (cl demo2 14) = 13" "u_chans (cl demo2 14) = [0]"
proof -
  have u: "user (cl demo 14) = Some fresh_user" "cfrom (cl demo 14) = 13" by (simp_all add: demo_cl demo0_def)
  show "members (ch demo2 0) = \<lparr>m_client = 14, m_flags = 0\<rparr> # members (ch demo 0)" "c \<noteq> 14 \<Longrightarrow> cl demo2 c = cl demo c"
    "channelts (ch demo2 0) = 1000000000" "cfrom (cl demo2 14) = 13" "u_chans (cl demo2 14) = [0]"
    by (simp_all add: demo2_def add_user_to_channel_def u demo_chan u_chans_def fresh_user_def)
  have n: "(\<lambda>y. chname (ch demo2 y)) = (\<lambda>y. chname (ch demo y))" "(\<lambda>c. name (cl demo2 c)) = (\<lambda>c. name (cl demo c))"
    by (auto simp: demo2_def add_user_to_channel_def u)
  show "chname (ch demo2 y) = chname (ch demo y)" using fun_cong [OF n(1), of y] .
  have t: "chan_tab demo2 = chan_tab demo" "client_tab demo2 = client_tab demo"
    by (simp_all add: demo2_def add_user_to_channel_def upd_user_def)
  show "find_channel demo2 nm = find_channel demo nm" unfolding find_channel_def n t ..
  show "find_client demo2 nm e = find_client demo nm e" unfolding find_client_def n t ..
qed

theorem sjoin_phantom_op_witness:
  "\<not> is_chan_op 14 (ch (m_sjoin 13 13 [''hub'', dec 1000000000, ''#test'', ''+'', ''@carol''] demo2) 0) \<and>
   Prefix 12 13 (Fmt '':%s MODE %s %s %s'') [Str ''hub'', Str ''#test'', Str ''+o'', Str ''carol '']
     \<in> set (outl (m_sjoin 13 13 [''hub'', dec 1000000000, ''#test'', ''+'', ''@carol''] demo2))"
proof -
  let ?parv = "[''hub'', dec 1000000000, ''#test'', ''+'', CHR ''@'' # ''carol'']"
  have "status (cl demo2 13) = STAT_SERVER" by (simp add: demo2_simps demo_cl demo0_def)
  then have b: "burst_ok demo2 13 ?parv no_modes 0 0" using test_param
    by (simp add: burst_ok_def IsClient_def MyClient_def STAT_SERVER_def STAT_CLIENT_def channel_param_def demo2_simps demo_find_channel)
      (simp add: sjoin_flags_def)
  have ts: "atoi (dec 1000000000) = channelts (ch demo2 0)" "channelts (ch demo2 0) \<noteq> 0" by (simp_all add: atoi_dec demo2_simps)
  have c: "find_client demo2 ''carol'' None = Some 14" by (simp add: demo2_simps demo_find_nick)
  have m: "IsMember demo2 14 0" by (simp add: IsMember_def demo2_simps)
  have l: "12 \<in> set (local_members demo2 0)" by (simp add: local_members_def demo2_simps demo_members MyConnect_def demo_cl)
  have s: "''carol'' \<noteq> []" "CHR '' '' \<notin> set ''carol''" "hd ''carol'' \<noteq> CHR ''@''" "hd ''carol'' \<noteq> CHR ''+''" by simp_all
  have n: "chname (ch demo2 0) = ''#test''" by (simp add: demo2_simps demo_chan)
  have "\<not> has_flag (user_channel_mode 14 k) CHFL_CHANOP" if "members k = members (ch demo2 0)" for k
    using that by (simp add: user_channel_mode_def find_user_link_def demo2_simps)
  then show ?thesis
    using sjoin_phantom_op [OF b ts s c demo2_simps(7) m l] unfolding n by (simp add: is_chan_op_def)
qed

end
