(* ===== verification/MsgTree.thy ===== *)
theory MsgTree
  imports CharTab "HOL-Library.List_Lexorder" "HOL-Library.Char_ord" "HOL-Library.Sublist"
begin

text \<open>
  The command table \<open>msgtab\<close> of \<open>include/msg.h\<close> and the prefix tree that \<open>src/parse.c\<close> makes of
  it: \<open>mcmp\<close>, \<open>init_tree_parse\<close>, \<open>do_msg_tree\<close> and \<open>tree_parse\<close>.  The pointer into the sorted table is
  the list of the entries from there on; the entry with the null command ends it.  A handler
  is known by the name of its command.  The configuration is that of \<open>include/config.h\<close>:
  \<open>IDLE_FROM_MSG\<close>, \<open>LTRACE\<close> and \<open>LWALLOPS\<close> defined, \<open>IDLE_CHECK\<close> and \<open>notyet\<close> not.
\<close>

section \<open>Commands\<close>

record message =
  cmd :: cstr
  parameters :: nat
  rate_limited :: bool
  allow_unregistered_use :: bool
  reset_idle :: bool

definition MAXPARA :: nat where "MAXPARA = 15"

definition msg :: "cstr \<Rightarrow> message" where
  "msg c = \<lparr>cmd = c, parameters = MAXPARA, rate_limited = True, allow_unregistered_use = False, reset_idle = False\<rparr>"

definition unreg :: "message \<Rightarrow> message" where
  "unreg m = m\<lparr>allow_unregistered_use := True\<rparr>"

definition msgtab :: "message list" where
  "msgtab = [(msg ''PRIVMSG'')\<lparr>reset_idle := True\<rparr>, unreg (msg ''NICK''), msg ''NOTICE'', msg ''JOIN'',
     msg ''MODE'', unreg (msg ''QUIT''), msg ''PART'', msg ''KNOCK'', msg ''TOPIC'', msg ''INVITE'', msg ''KICK'',
     msg ''WALLOPS'', msg ''LOCOPS'', msg ''LWALLOPS'', msg ''PONG'', msg ''PING'', unreg (msg ''ERROR''),
     msg ''KILL'', unreg (msg ''USER''), msg ''AWAY'', (msg ''ISON'')\<lparr>parameters := 1\<rparr>, unreg (msg ''SERVER''),
     msg ''SQUIT'', msg ''WHOIS'', msg ''WHO'', msg ''WHOWAS'', msg ''LIST'', msg ''NAMES'',
     (msg ''USERHOST'')\<lparr>parameters := 1\<rparr>, msg ''TRACE'', msg ''LTRACE'', unreg (msg ''PASS''), msg ''LUSERS'',
     msg ''TIME'', msg ''OPER'', msg ''CONNECT'', msg ''VERSION'', msg ''STATS'', msg ''LINKS'', unreg (msg ''ADMIN''),
     msg ''USERS'', msg ''HELP'', msg ''INFO'', msg ''MOTD'', unreg (msg ''SVINFO''), msg ''SJOIN'',
     unreg (msg ''CAPAB''), msg ''OPERWALL'', msg ''CLOSE'', msg ''KLINE'', msg ''UNKLINE'', msg ''DLINE'',
     msg ''UNDLINE'', msg ''GLINE'', msg ''UNGLINE'', msg ''HASH'', msg ''REHASH'', msg ''RESTART'', msg ''DIE'',
     msg ''HTM'', msg ''SET'', msg ''TESTLINE'', msg ''ENCAP'', msg ''OPERSPY'', msg ''MAP'', msg ''ETRACE'',
     msg ''SINFO'', msg ''XLINE'', msg ''UNXLINE'', msg ''RESV'', msg ''UNRESV'']"

section \<open>The tree\<close>

text \<open>\<open>final\<close>: null, the value 1, or a pointer to the rest of the only command.\<close>

datatype final = NoFinal | Ambig | Final cstr

datatype mtree = MNode final "message option" "nat \<Rightarrow> mtree option"

definition letter :: "nat \<Rightarrow> char" where
  "letter i = char_of (i + 0x41)"

text \<open>\<open>strncmp(cmd, prefix, strlen(prefix)) == 0\<close>.\<close>

definition has_prefix :: "cstr \<Rightarrow> message \<Rightarrow> bool" where
  "has_prefix pre m = (take (length pre) (cmd m) = pre)"

text \<open>
  \<open>do_msg_tree\<close> returns the node and where the table goes on.  \<open>newpref\<close> has 64 bytes; the
  first argument is how many letters still fit.  \<open>None\<close>: the program stops (\<open>exit(1)\<close>, or it
  reads or writes out of bounds).
\<close>

function (sequential) do_msg_tree :: "nat \<Rightarrow> cstr \<Rightarrow> message list \<Rightarrow> (mtree \<times> message list) option"
  and msg_letters :: "nat \<Rightarrow> cstr \<Rightarrow> final \<Rightarrow> message option \<Rightarrow> (nat \<Rightarrow> mtree option) \<Rightarrow> message list \<Rightarrow> nat list \<Rightarrow>
     (mtree \<times> message list) option" where
  "do_msg_tree n pre [] = None"
| "do_msg_tree n pre (m # ms) =
     (if pre = [] \<or> has_prefix pre m then
        if ms = [] \<or> (pre \<noteq> [] \<and> \<not> has_prefix pre (hd ms)) then
          Some (MNode (Final (drop (length pre) (cmd m))) (Some m) (\<lambda>_. None), ms)
        else if irccmp (cmd m) pre = 0 then msg_letters n pre Ambig (Some m) (\<lambda>_. None) ms [0..<26]
        else msg_letters n pre NoFinal None (\<lambda>_. None) (m # ms) [0..<26]
      else None)"
| "msg_letters n pre fin mg ptrs tab [] = Some (MNode fin mg ptrs, tab)"
| "msg_letters n pre fin mg ptrs [] (i # is) = None"
| "msg_letters n pre fin mg ptrs (m # ms) (i # is) =
     (if at (cmd m) (length pre) = letter i then
        (case n of 0 \<Rightarrow> None
         | Suc k \<Rightarrow>
             (case do_msg_tree k (pre @ [letter i]) (m # ms) of None \<Rightarrow> None
              | Some (t, tab) \<Rightarrow>
                  if tab = [] \<or> \<not> has_prefix pre (hd tab) then Some (MNode fin mg (ptrs(i := Some t)), tab)
                  else msg_letters n pre fin mg (ptrs(i := Some t)) tab is))
      else msg_letters n pre fin mg ptrs (m # ms) is)"
  by pat_completeness auto

termination
proof (relation "inv_image (less_than <*lex*> less_than)
     (case_sum (\<lambda>(n, _, _). (n, 27)) (\<lambda>(n, _, _, _, _, _, is). (n, length is)))")
qed (simp_all add: wf_lex_prod)

definition init_tree_parse :: "message list \<Rightarrow> mtree option" where
  "init_tree_parse tab =
     (case do_msg_tree 63 [] (sort_key cmd tab) of
        Some (t, []) \<Rightarrow> Some t
      | _ \<Rightarrow> None)"

text \<open>\<open>r &= 0xdf\<close>, then the test for a letter; the index is \<open>r - 'A'\<close>.\<close>

definition letter_index :: "char \<Rightarrow> nat option" where
  "letter_index c =
     (let r = code c AND 0xdf in
      if r < 0x41 \<or> 0x5a < r then None else Some (r - 0x41))"

fun tree_parse :: "mtree \<Rightarrow> cstr \<Rightarrow> message option" where
  "tree_parse t [] = None"
| "tree_parse (MNode fin mg ptrs) (c # cs) =
     (case letter_index c of None \<Rightarrow> None
      | Some i \<Rightarrow>
          (case ptrs i of None \<Rightarrow> None
           | Some (MNode fin' mg' ptrs') \<Rightarrow>
               (case fin' of
                  Ambig \<Rightarrow> if cs = [] then mg' else tree_parse (MNode fin' mg' ptrs') cs
                | Final f \<Rightarrow> if irccmp f cs = 0 then mg' else tree_parse (MNode fin' mg' ptrs') cs
                | NoFinal \<Rightarrow> tree_parse (MNode fin' mg' ptrs') cs)))"

section \<open>Strings in the order of \<open>strcmp\<close>\<close>

lemma append_less_append [simp]: "u @ x < u @ y \<longleftrightarrow> x < (y :: cstr)"
  by (induction u) simp_all

text \<open>What lies beyond an extension of \<open>u\<close> without extending \<open>u\<close> lies beyond all extensions.\<close>

lemma beyond_prefix: "u @ x < b \<Longrightarrow> \<not> prefix u b \<Longrightarrow> u @ y < (b :: cstr)"
proof (induction u arbitrary: b)
  case (Cons p u)
  then show ?case by (cases b) auto
qed simp

lemma same_prefix_head: "u @ c # x < u @ d # y \<Longrightarrow> c \<le> (d :: char)"
  by auto

lemma has_prefix_iff: "has_prefix pre m \<longleftrightarrow> prefix pre (cmd m)"
  by (auto simp: has_prefix_def prefix_def) (metis append_take_drop_id)

section \<open>Letters\<close>

definition upper :: "cstr \<Rightarrow> bool" where
  "upper s = (\<forall>c \<in> set s. c \<in> letter ` {..<26})"

lemma code_letter: "i < 26 \<Longrightarrow> code (letter i) = i + 0x41"
  by (simp add: letter_def code_char_of)

lemma letter_range: "c \<in> letter ` {..<26} \<longleftrightarrow> 0x41 \<le> code c \<and> code c < 0x5b"
proof
  assume "0x41 \<le> code c \<and> code c < 0x5b"
  then have "c = letter (code c - 0x41)" "code c - 0x41 < 26" by (auto simp: letter_def)
  then show "c \<in> letter ` {..<26}" by blast
qed (auto simp: code_letter)

lemma letter_inj [simp]: "i < 26 \<Longrightarrow> j < 26 \<Longrightarrow> letter i = letter j \<longleftrightarrow> i = j"
  by (metis add_right_imp_eq code_letter)

lemma letter_less: "i < 26 \<Longrightarrow> j < 26 \<Longrightarrow> letter i \<le> letter j \<longleftrightarrow> i \<le> j"
  by (simp add: less_eq_char_def letter_def)

lemma upper_simps [simp]: "upper []" "upper (c # s) \<longleftrightarrow> c \<in> letter ` {..<26} \<and> upper s"
  "upper (s @ t) \<longleftrightarrow> upper s \<and> upper t"
  by (auto simp: upper_def)

lemma ToUpper_letter: "c \<in> letter ` {..<26} \<Longrightarrow> ToUpper c = c"
  by (simp add: letter_range code_eq_char [of "ToUpper c"] code_ToUpper)

lemma upper_cstring: "upper s \<Longrightarrow> cstring s"
  by (auto simp: upper_def cstring_def letter_range)

lemma upper_ToUpper: "upper s \<Longrightarrow> map ToUpper s = s"
  by (induction s) (auto simp: ToUpper_letter)

text \<open>The mask accepts exactly the bytes whose upper case is a letter.\<close>

lemma and_0xdf_table: "list_all (\<lambda>n. n AND 0xdf = (if 32 \<le> n mod 64 then n - 32 else n)) [0..<256]"
  by (simp add: upt_256)

lemma and_0xdf: "n < 256 \<Longrightarrow> n AND 0xdf = (if 32 \<le> n mod 64 then n - 32 else n)" for n :: nat
  using and_0xdf_table by (simp add: list_all_iff)

lemma letter_arith:
  fixes n :: nat
  assumes "n < 256"
  shows "(let r = (if 32 \<le> n mod 64 then n - 32 else n) in 0x41 \<le> r \<and> r \<le> 0x5a \<and> r - 0x41 = i) \<longleftrightarrow>
    i < 26 \<and> (if 0x61 \<le> n \<and> n < 0x7f then n - 32 else n) = i + 0x41"
proof -
  consider "n < 64" | "64 \<le> n" "n < 128" "n mod 64 = n - 64" | "128 \<le> n" by (cases "n < 64"; cases "n < 128") (auto simp: mod_if)
  then show ?thesis using assms by cases (auto simp: Let_def)
qed

lemma letter_index_Some: "letter_index c = Some i \<longleftrightarrow> i < 26 \<and> ToUpper c = letter i"
proof -
  have "letter_index c = Some i \<longleftrightarrow> i < 26 \<and> code (ToUpper c) = i + 0x41"
    using letter_arith [OF code_less, of c i] by (auto simp: letter_index_def and_0xdf code_ToUpper Let_def split: if_splits)
  also have "\<dots> \<longleftrightarrow> i < 26 \<and> ToUpper c = letter i" by (auto simp: code_eq_char [of "ToUpper c"] code_letter)
  finally show ?thesis .
qed

lemma letter_index_None: "letter_index c = None \<longleftrightarrow> ToUpper c \<notin> letter ` {..<26}"
  using letter_index_Some [of c] by (cases "letter_index c") auto

lemma same_upper: "upper t \<Longrightarrow> same_name s t \<longleftrightarrow> map ToUpper s = t"
proof -
  assume u: "upper t"
  have "same_name s t \<longleftrightarrow> map ToUpper s = map ToUpper t"
    unfolding same_name_def
  proof (induction s arbitrary: t)
    case (Cons a s)
    then show ?case by (cases t) (simp_all add: ToLower_eq_iff_ToUpper_eq)
  qed simp
  then show ?thesis by (simp add: upper_ToUpper u)
qed

lemma irccmp_upper: "upper t \<Longrightarrow> cstring s \<Longrightarrow> irccmp t s = 0 \<longleftrightarrow> map ToUpper s = t"
  using same_upper [of t s] by (simp add: irccmp_0_iff upper_cstring) (metis same_name_sym)

section \<open>The tree finds what the table holds\<close>

definition msgs_ok :: "message list \<Rightarrow> bool" where
  "msgs_ok tab \<longleftrightarrow> sorted_wrt (\<lambda>a b. cmd a < cmd b) tab \<and> (\<forall>m \<in> set tab. upper (cmd m))"

text \<open>The look-up from a node, its \<open>final\<close> included; \<open>tree_parse\<close> goes to a child and does this there.\<close>

fun node_find :: "mtree \<Rightarrow> cstr \<Rightarrow> message option" where
  "node_find (MNode fin mg ptrs) cs =
     (case fin of
        Ambig \<Rightarrow> if cs = [] then mg else tree_parse (MNode fin mg ptrs) cs
      | Final f \<Rightarrow> if irccmp f cs = 0 then mg else tree_parse (MNode fin mg ptrs) cs
      | NoFinal \<Rightarrow> tree_parse (MNode fin mg ptrs) cs)"

definition slot_find :: "(nat \<Rightarrow> mtree option) \<Rightarrow> nat \<Rightarrow> cstr \<Rightarrow> message option" where
  "slot_find ptrs i cs = (case ptrs i of None \<Rightarrow> None | Some t \<Rightarrow> node_find t cs)"

lemma tree_parse_Cons:
  "tree_parse (MNode fin mg ptrs) (c # cs) = Option.bind (letter_index c) (\<lambda>i. slot_find ptrs i cs)"
  by (auto simp: slot_find_def split: option.split mtree.split final.split)

lemma tree_parse_empty: "tree_parse (MNode fin mg (\<lambda>_. None)) s = None"
  by (cases s) (simp_all add: tree_parse_Cons slot_find_def split: bind_split del: tree_parse.simps(2))

definition finds :: "mtree \<Rightarrow> cstr \<Rightarrow> message list \<Rightarrow> bool" where
  "finds t pre tab \<longleftrightarrow>
     (\<forall>s x. cstring s \<longrightarrow> (node_find t s = Some x \<longleftrightarrow> x \<in> set tab \<and> cmd x = pre @ map ToUpper s))"

lemma prefix_le: "prefix u (v :: cstr) \<Longrightarrow> u \<le> v"
  by (auto simp: prefix_def) (metis append.right_neutral append_less_append less_list_code(1) linorder_not_less)

lemma msgs_ok_Cons: "msgs_ok (m # ms) \<longleftrightarrow> upper (cmd m) \<and> (\<forall>x \<in> set ms. cmd m < cmd x) \<and> msgs_ok ms"
  by (auto simp: msgs_ok_def)

lemma msgs_ok_dropWhile: "msgs_ok tab \<Longrightarrow> msgs_ok (dropWhile P tab)"
  by (induction tab) (auto simp: msgs_ok_Cons)

lemma msgs_ok_inj: "msgs_ok tab \<Longrightarrow> x \<in> set tab \<Longrightarrow> y \<in> set tab \<Longrightarrow> cmd x = cmd y \<Longrightarrow> x = y"
  by (induction tab) (auto simp: msgs_ok_Cons)

text \<open>The commands with one prefix are next to each other.\<close>

lemma group_rest:
  "msgs_ok (m # ms) \<Longrightarrow> has_prefix pre m \<Longrightarrow> x \<in> set (dropWhile (has_prefix pre) ms) \<Longrightarrow> \<not> has_prefix pre x"
proof (induction ms)
  case (Cons b ms)
  show ?case
  proof (cases "has_prefix pre b")
    case True
    then show ?thesis using Cons by (simp add: msgs_ok_Cons)
  next
    case False
    obtain u where u: "cmd m = pre @ u" using Cons.prems(2) by (auto simp: has_prefix_iff prefix_def)
    show ?thesis
    proof
      assume x: "has_prefix pre x"
      then obtain v where v: "cmd x = pre @ v" by (auto simp: has_prefix_iff prefix_def)
      have "pre @ v < cmd b"
        by (rule beyond_prefix [of pre u]) (use Cons.prems(1) False u in \<open>auto simp: msgs_ok_Cons has_prefix_iff\<close>)
      moreover have "x = b \<or> cmd b < cmd x" using Cons.prems(1,3) False by (auto simp: msgs_ok_Cons)
      ultimately show False using v by auto
    qed
  qed
qed simp

lemma dropWhile_weaker: "(\<And>x. P x \<Longrightarrow> Q x) \<Longrightarrow> dropWhile Q (dropWhile P xs) = dropWhile Q xs"
  by (induction xs) auto

lemma in_dropWhile: "x \<in> set xs \<Longrightarrow> \<not> P x \<Longrightarrow> x \<in> set (dropWhile P xs)"
  by (induction xs) auto

lemma upper_split: "upper (pre @ u) \<Longrightarrow> u \<noteq> [] \<Longrightarrow> \<exists>j r. j < 26 \<and> u = letter j # r"
  by (cases u) auto

lemma has_prefix_snoc: "has_prefix (pre @ [c]) m \<longleftrightarrow> (\<exists>r. cmd m = pre @ c # r)"
  by (auto simp: has_prefix_iff prefix_def)

lemma longer_letter:
  assumes "msgs_ok (m # ms)" "x \<in> set ms" "has_prefix pre m" "has_prefix pre x"
  obtains j r where "j < 26" "cmd x = pre @ letter j # r"
proof -
  obtain u where u: "cmd x = pre @ u" using assms(4) by (auto simp: has_prefix_iff prefix_def)
  have "pre \<le> cmd m" using assms(3) by (simp add: has_prefix_iff prefix_le)
  moreover have "cmd m < cmd x" "upper (cmd x)" using assms(1,2) by (auto simp: msgs_ok_def)
  ultimately have "u \<noteq> []" using u by auto
  then show ?thesis using upper_split [of pre u] \<open>upper (cmd x)\<close> u that by auto
qed

text \<open>What a loop over the letters must deliver for the letters from \<open>i\<close> on.\<close>

definition slots_ok :: "(nat \<Rightarrow> mtree option) \<Rightarrow> cstr \<Rightarrow> message list \<Rightarrow> nat \<Rightarrow> bool" where
  "slots_ok ptrs pre tab i \<longleftrightarrow> (\<forall>j s x. i \<le> j \<longrightarrow> j < 26 \<longrightarrow> cstring s \<longrightarrow>
     (slot_find ptrs j s = Some x \<longleftrightarrow> x \<in> set tab \<and> cmd x = pre @ letter j # map ToUpper s))"

definition builds :: "nat \<Rightarrow> cstr \<Rightarrow> message list \<Rightarrow> bool" where
  "builds n pre tab \<longleftrightarrow>
     (\<exists>t. do_msg_tree n pre tab = Some (t, dropWhile (has_prefix pre) tab) \<and> finds t pre tab)"

lemma letters_ok:
  assumes IH: "\<And>pre' m ms. msgs_ok (m # ms) \<Longrightarrow> has_prefix pre' m \<Longrightarrow>
      \<forall>x \<in> set (m # ms). length (cmd x) \<le> k + length pre' \<Longrightarrow> builds k pre' (m # ms)"
  shows "msgs_ok (m # ms) \<Longrightarrow> cmd m = pre @ letter j # r \<Longrightarrow> i \<le> j \<Longrightarrow> j < 26 \<Longrightarrow> (\<And>j. i \<le> j \<Longrightarrow> ptrs j = None) \<Longrightarrow>
    \<forall>x \<in> set (m # ms). length (cmd x) \<le> Suc k + length pre \<Longrightarrow>
    \<exists>ptrs'. msg_letters (Suc k) pre fin mg ptrs (m # ms) [i..<26] = Some (MNode fin mg ptrs', dropWhile (has_prefix pre) (m # ms)) \<and>
      (\<forall>j<i. ptrs' j = ptrs j) \<and> slots_ok ptrs' pre (m # ms) i"
proof (induction "26 - i" arbitrary: i m ms j r ptrs)
  case 0
  then show ?case by simp
next
  case (Suc d)
  have i: "i < 26" "[i..<26] = i # [Suc i..<26]" "d = 26 - Suc i" using Suc.prems(3,4) Suc.hyps(2) by (auto simp: upt_conv_Cons)
  have hp: "has_prefix pre m" using Suc.prems(2) by (simp add: has_prefix_iff)
  have at: "at (cmd m) (length pre) = letter j" using Suc.prems(2) by (simp add: at_def)
  show ?case
  proof (cases "j = i")
    case False
    then have "i < j" using Suc.prems(3) by simp
    then obtain ptrs' where p: "msg_letters (Suc k) pre fin mg ptrs (m # ms) [Suc i..<26] =
        Some (MNode fin mg ptrs', dropWhile (has_prefix pre) (m # ms))" "\<forall>j<Suc i. ptrs' j = ptrs j" "slots_ok ptrs' pre (m # ms) (Suc i)"
      using Suc.hyps(1) [OF i(3) Suc.prems(1,2) _ Suc.prems(4) _ Suc.prems(6), of ptrs] Suc.prems(5) by auto
    have none: "cmd x \<noteq> pre @ letter i # s" if "x \<in> set (m # ms)" for x s
    proof
      assume x: "cmd x = pre @ letter i # s"
      then have "x \<noteq> m" using Suc.prems(2) False i(1) Suc.prems(4) by auto
      then have "cmd m < cmd x" using Suc.prems(1) that by (auto simp: msgs_ok_Cons)
      then have "letter j \<le> letter i" unfolding Suc.prems(2) x by (rule same_prefix_head)
      then show False using \<open>i < j\<close> i(1) Suc.prems(4) by (simp add: letter_less)
    qed
    have "slot_find ptrs' i s = None" for s using p(2) Suc.prems(5) by (simp add: slot_find_def)
    then have "slots_ok ptrs' pre (m # ms) i"
      using p(3) none unfolding slots_ok_def by (metis Suc_leI le_neq_implies_less option.distinct(1))
    then show ?thesis using p(1,2) i(2) at False i(1) Suc.prems(4) by auto
  next
    case True
    let ?pre = "pre @ [letter i]" and ?rest = "dropWhile (has_prefix (pre @ [letter i])) (m # ms)"
    have hp': "has_prefix ?pre m" using Suc.prems(2) True by (simp add: has_prefix_snoc)
    have "\<forall>x \<in> set (m # ms). length (cmd x) \<le> k + length ?pre" using Suc.prems(6) by simp
    from IH [OF Suc.prems(1) hp' this] obtain t where t: "do_msg_tree k ?pre (m # ms) = Some (t, ?rest)" "finds t ?pre (m # ms)"
      unfolding builds_def by blast
    have w: "dropWhile (has_prefix pre) ?rest = dropWhile (has_prefix pre) (m # ms)"
      by (rule dropWhile_weaker) (auto simp: has_prefix_iff dest: append_prefixD)
    have slot_i: "slot_find p i s = Some x \<longleftrightarrow> x \<in> set (m # ms) \<and> cmd x = pre @ letter i # map ToUpper s"
      if "p i = Some t" "cstring s" for p s x
      using t(2) that by (simp add: slot_find_def finds_def)
    have other: "x \<in> set ?rest" if "x \<in> set (m # ms)" "cmd x = pre @ letter l # s" "l \<noteq> i" "l < 26" for x l s
      by (rule in_dropWhile [OF that(1)]) (use that(2,3,4) i(1) in \<open>auto simp: has_prefix_snoc\<close>)
    show ?thesis
    proof (cases "?rest = [] \<or> \<not> has_prefix pre (hd ?rest)")
      case end': True
      have r: "dropWhile (has_prefix pre) (m # ms) = ?rest" unfolding w [symmetric] using end' by (cases ?rest) auto
      have no: "\<not> has_prefix pre x" if "x \<in> set ?rest" for x
        by (rule group_rest [OF Suc.prems(1) hp]) (use that r hp in simp)
      have "slots_ok (ptrs(i := Some t)) pre (m # ms) i"
        unfolding slots_ok_def
      proof (intro allI impI)
        fix l s x assume l: "i \<le> l" "l < 26" "cstring s"
        show "slot_find (ptrs(i := Some t)) l s = Some x \<longleftrightarrow> x \<in> set (m # ms) \<and> cmd x = pre @ letter l # map ToUpper s"
        proof (cases "l = i")
          case False
          then have "slot_find (ptrs(i := Some t)) l s = None" using Suc.prems(5) [OF l(1)] by (simp add: slot_find_def)
          moreover have "\<not> (x \<in> set (m # ms) \<and> cmd x = pre @ letter l # map ToUpper s)"
            using no [of x] other [of x l "map ToUpper s"] False l(2) by (auto simp: has_prefix_iff)
          ultimately show ?thesis by simp
        qed (use slot_i l in simp)
      qed
      moreover have "msg_letters (Suc k) pre fin mg ptrs (m # ms) [i..<26] = Some (MNode fin mg (ptrs(i := Some t)), ?rest)"
        using end' at True t(1) by (auto simp: i(2))
      ultimately show ?thesis unfolding r by auto
    next
      case False
      then obtain m' ms' where m': "?rest = m' # ms'" "has_prefix pre m'" by (cases ?rest) auto
      have tab': "msgs_ok (m' # ms')" using msgs_ok_dropWhile [OF Suc.prems(1)] m'(1) by metis
      have "m' \<in> set ?rest" using m'(1) by simp
      then have "m' \<in> set (m # ms)" by (meson set_dropWhileD)
      moreover have np: "\<not> has_prefix ?pre m'" using hd_dropWhile [of "has_prefix ?pre" "m # ms"] m'(1) by (metis list.distinct(1) list.sel(1))
      ultimately have in_ms: "m' \<in> set ms" using hp' by auto
      obtain j' r' where j': "j' < 26" "cmd m' = pre @ letter j' # r'" by (rule longer_letter [OF Suc.prems(1) in_ms hp m'(2)])
      have "cmd m < cmd m'" using Suc.prems(1) in_ms by (simp add: msgs_ok_Cons)
      then have "letter j \<le> letter j'" unfolding Suc.prems(2) j'(2) by (rule same_prefix_head)
      then have "i \<le> j'" using True j'(1) i(1) by (simp add: letter_less)
      moreover have "j' \<noteq> i" using np j'(2) by (auto simp: has_prefix_snoc)
      ultimately have ij: "Suc i \<le> j'" by simp
      have sub: "set (m' # ms') \<subseteq> set (m # ms)" unfolding m'(1) [symmetric] by (auto dest: set_dropWhileD simp del: dropWhile.simps)
      obtain ptrs' where p: "msg_letters (Suc k) pre fin mg (ptrs(i := Some t)) (m' # ms') [Suc i..<26] =
          Some (MNode fin mg ptrs', dropWhile (has_prefix pre) (m' # ms'))" "\<forall>j<Suc i. ptrs' j = (ptrs(i := Some t)) j"
          "slots_ok ptrs' pre (m' # ms') (Suc i)"
        using Suc.hyps(1) [OF i(3) tab' j'(2) ij j'(1), of "ptrs(i := Some t)"] Suc.prems(5,6) sub by fastforce
      have "slots_ok ptrs' pre (m # ms) i"
        unfolding slots_ok_def
      proof (intro allI impI)
        fix l s x assume l: "i \<le> l" "l < 26" "cstring s"
        show "slot_find ptrs' l s = Some x \<longleftrightarrow> x \<in> set (m # ms) \<and> cmd x = pre @ letter l # map ToUpper s"
        proof (cases "l = i")
          case False
          then have "slot_find ptrs' l s = Some x \<longleftrightarrow> x \<in> set (m' # ms') \<and> cmd x = pre @ letter l # map ToUpper s"
            using p(3) l(1) l(2,3) by (simp add: slots_ok_def)
          then show ?thesis using other [of x l "map ToUpper s"] False l(2) sub m'(1) by auto
        qed (use slot_i [of ptrs'] p(2) l in simp)
      qed
      moreover have "msg_letters (Suc k) pre fin mg ptrs (m # ms) [i..<26] = Some (MNode fin mg ptrs', dropWhile (has_prefix pre) (m # ms))"
        using at True t(1) p(1) m' w by (simp add: i(2) del: dropWhile.simps)
      ultimately show ?thesis using p(2) by auto
    qed
  qed
qed

theorem do_msg_tree_builds:
  "msgs_ok (m # ms) \<Longrightarrow> has_prefix pre m \<Longrightarrow> \<forall>x \<in> set (m # ms). length (cmd x) \<le> n + length pre \<Longrightarrow> builds n pre (m # ms)"
proof (induction n arbitrary: pre m ms rule: less_induct)
  case (less n)
  obtain u where u: "cmd m = pre @ u" using less.prems(2) by (auto simp: has_prefix_iff prefix_def)
  have up: "upper pre" "upper u" using less.prems(1) u by (auto simp: msgs_ok_Cons)
  have irc: "irccmp (cmd m) pre = 0 \<longleftrightarrow> u = []"
    using irccmp_upper [of "cmd m" pre] up u by (auto simp: upper_ToUpper upper_cstring)
  have loop: "\<exists>ptrs. msg_letters n pre fin mg (\<lambda>_. None) (b # bs) [0..<26] =
        Some (MNode fin mg ptrs, dropWhile (has_prefix pre) (b # bs)) \<and> slots_ok ptrs pre (b # bs) 0"
    if b: "msgs_ok (b # bs)" "cmd b = pre @ letter j # r" "j < 26" "set (b # bs) \<subseteq> set (m # ms)" for b bs j r fin mg
  proof -
    have "length (cmd b) \<le> n + length pre" using less.prems(3) b(4) by auto
    then obtain k where k: "n = Suc k" using b(2) by (cases n) auto
    have "\<exists>ptrs'. msg_letters (Suc k) pre fin mg (\<lambda>_. None) (b # bs) [0..<26] = Some (MNode fin mg ptrs', dropWhile (has_prefix pre) (b # bs)) \<and>
      (\<forall>j<0. ptrs' j = None) \<and> slots_ok ptrs' pre (b # bs) 0"
      by (rule letters_ok [OF _ b(1,2) _ b(3)]) (use less.IH [of k] less.prems(3) b(4) k in auto)
    then show ?thesis using k by blast
  qed
  have node: "finds (MNode fin mg ptrs) pre (m # ms)"
    if "slots_ok ptrs pre tab 0" "\<And>x j s. cmd x = pre @ letter j # s \<Longrightarrow> x \<in> set tab \<longleftrightarrow> x \<in> set (m # ms)"
      "fin = NoFinal \<and> (\<forall>x \<in> set (m # ms). cmd x \<noteq> pre) \<or> fin = Ambig \<and> mg = Some m \<and> cmd m = pre" for fin mg ptrs tab
    unfolding finds_def
  proof (intro allI impI)
    fix s x assume s: "cstring s"
    show "node_find (MNode fin mg ptrs) s = Some x \<longleftrightarrow> x \<in> set (m # ms) \<and> cmd x = pre @ map ToUpper s"
    proof (cases s)
      case Nil
      then show ?thesis using that(3) msgs_ok_inj [OF less.prems(1), of x m] by auto
    next
      case (Cons c cs)
      have "node_find (MNode fin mg ptrs) s = tree_parse (MNode fin mg ptrs) (c # cs)"
        using that(3) Cons by auto
      also have "\<dots> = Some x \<longleftrightarrow> (\<exists>i. i < 26 \<and> ToUpper c = letter i \<and> slot_find ptrs i cs = Some x)"
        by (auto simp: tree_parse_Cons letter_index_Some bind_eq_Some_conv simp del: tree_parse.simps(2))
      also have "\<dots> \<longleftrightarrow> (\<exists>i. i < 26 \<and> ToUpper c = letter i \<and> x \<in> set tab \<and> cmd x = pre @ letter i # map ToUpper cs)"
        using that(1) s Cons by (auto simp: slots_ok_def)
      also have "\<dots> \<longleftrightarrow> x \<in> set (m # ms) \<and> cmd x = pre @ map ToUpper s"
      proof
        assume x: "x \<in> set (m # ms) \<and> cmd x = pre @ map ToUpper s"
        then have "upper (pre @ map ToUpper s)" using less.prems(1) by (auto simp: msgs_ok_def)
        then obtain i where "i < 26" "ToUpper c = letter i" using Cons by auto
        then show "\<exists>i. i < 26 \<and> ToUpper c = letter i \<and> x \<in> set tab \<and> cmd x = pre @ letter i # map ToUpper cs"
          using x Cons that(2) [of x i "map ToUpper cs"] by auto
      qed (use Cons that(2) in auto)
      finally show ?thesis .
    qed
  qed
  show ?case
  proof (cases "ms = [] \<or> \<not> has_prefix pre (hd ms)")
    case True
    have f: "drop (length pre) (cmd m) = u" using u by simp
    have only: "x \<in> set (m # ms) \<and> has_prefix pre x \<longleftrightarrow> x = m" for x
      using group_rest [OF less.prems(1,2), of x] True less.prems(2) by (cases ms) auto
    have "finds (MNode (Final u) (Some m) (\<lambda>_. None)) pre (m # ms)"
      unfolding finds_def
    proof (intro allI impI)
      fix s x assume "cstring s"
      then have "node_find (MNode (Final u) (Some m) (\<lambda>_. None)) s = Some x \<longleftrightarrow> x = m \<and> map ToUpper s = u"
        by (auto simp: tree_parse_empty irccmp_upper up)
      also have "\<dots> \<longleftrightarrow> x \<in> set (m # ms) \<and> cmd x = pre @ map ToUpper s"
        using only [of x] u by (auto simp: has_prefix_iff)
      finally show "node_find (MNode (Final u) (Some m) (\<lambda>_. None)) s = Some x \<longleftrightarrow> x \<in> set (m # ms) \<and> cmd x = pre @ map ToUpper s" .
    qed
    moreover have "dropWhile (has_prefix pre) (m # ms) = ms" using True less.prems(2) by (cases ms) auto
    ultimately show ?thesis using True less.prems(2) f by (auto simp: builds_def has_prefix_def)
  next
    case amb: False
    then obtain b bs where ms: "ms = b # bs" "has_prefix pre b" by (cases ms) auto
    have call: "do_msg_tree n pre (m # ms) = (if u = [] then msg_letters n pre Ambig (Some m) (\<lambda>_. None) ms [0..<26]
        else msg_letters n pre NoFinal None (\<lambda>_. None) (m # ms) [0..<26])"
      using amb less.prems(2) irc ms by (auto simp: has_prefix_def)
    show ?thesis
    proof (cases "u = []")
      case True
      obtain j r where j: "j < 26" "cmd b = pre @ letter j # r"
        by (rule longer_letter [OF less.prems(1) _ less.prems(2) ms(2)]) (simp add: ms)
      obtain ptrs where p: "msg_letters n pre Ambig (Some m) (\<lambda>_. None) ms [0..<26] = Some (MNode Ambig (Some m) ptrs, dropWhile (has_prefix pre) ms)"
          "slots_ok ptrs pre ms 0"
        using loop [of b bs j r Ambig "Some m"] j less.prems(1) by (auto simp: ms msgs_ok_Cons)
      have "finds (MNode Ambig (Some m) ptrs) pre (m # ms)"
        by (rule node [OF p(2)]) (use True u in auto)
      then show ?thesis using p(1) call True less.prems(2) by (simp add: builds_def)
    next
      case False
      obtain j r where j: "j < 26" "u = letter j # r" using upper_split [of pre u] up False by auto
      obtain ptrs where p: "msg_letters n pre NoFinal None (\<lambda>_. None) (m # ms) [0..<26] =
          Some (MNode NoFinal None ptrs, dropWhile (has_prefix pre) (m # ms))" "slots_ok ptrs pre (m # ms) 0"
        using loop [OF less.prems(1), of j r NoFinal None] j u by auto
      have "cmd x \<noteq> pre" if "x \<in> set (m # ms)" for x
      proof
        assume x: "cmd x = pre"
        have "pre < cmd m" using u False append_less_append [of pre "[]" u] by (cases u) auto
        moreover have "x = m \<or> cmd m < cmd x" using less.prems(1) that by (auto simp: msgs_ok_Cons)
        ultimately show False using x by auto
      qed
      then have "finds (MNode NoFinal None ptrs) pre (m # ms)"
        by (intro node [OF p(2)]) auto
      then show ?thesis using p(1) call False by (simp add: builds_def)
    qed
  qed
qed

section \<open>The table of the program\<close>

lemma sorted_wrt_less_distinct: "sorted (map f xs) \<Longrightarrow> distinct (map f xs) \<Longrightarrow> sorted_wrt (\<lambda>a b. f a < (f b :: 'b :: linorder)) xs"
  by (induction xs) (auto simp: order_less_le image_iff)

lemma msgs_ok_sort:
  "distinct (map cmd tab) \<Longrightarrow> \<forall>m \<in> set tab. upper (cmd m) \<Longrightarrow> msgs_ok (sort_key cmd tab)"
  unfolding msgs_ok_def by (intro conjI sorted_wrt_less_distinct sorted_sort_key) (simp_all add: distinct_map)

lemma find_unique: "distinct (map f xs) \<Longrightarrow> (\<And>x y. x \<in> set xs \<Longrightarrow> y \<in> set xs \<Longrightarrow> P x \<Longrightarrow> P y \<Longrightarrow> f x = f y) \<Longrightarrow>
    find P xs = Some x \<longleftrightarrow> x \<in> set xs \<and> P x"
proof (induction xs)
  case (Cons a xs)
  show ?case
  proof (cases "P a")
    case True
    then show ?thesis using Cons.prems by (auto simp: image_iff)
  next
    case False
    then show ?thesis using Cons by auto
  qed
qed simp

lemma letters_final: "msg_letters n pre fin mg ptrs tab is = Some (MNode f a b, r) \<Longrightarrow> f = fin"
  by (induction n pre fin mg ptrs tab "is" rule: do_msg_tree_msg_letters.induct(2) [of "\<lambda>_ _ _. True"])
    (auto split: if_splits nat.splits option.splits prod.splits)

lemma init_tree_parse_ok:
  assumes "distinct (map cmd tab)" "\<forall>m \<in> set tab. upper (cmd m) \<and> cmd m \<noteq> [] \<and> length (cmd m) < 64" "2 \<le> length tab"
  obtains t where "init_tree_parse tab = Some t"
    "\<And>s. cstring s \<Longrightarrow> tree_parse t s = find (\<lambda>m. same_name s (cmd m)) tab"
proof -
  define st where "st = sort_key cmd tab"
  have st: "msgs_ok st" "set st = set tab" "length st = length tab"
    using msgs_ok_sort assms(1,2) by (auto simp: st_def)
  then obtain m m' ms where m: "st = m # m' # ms" using assms(3) by (cases st; cases "tl st") auto
  have "builds 63 [] st"
    unfolding m by (rule do_msg_tree_builds) (use assms(2) st m in \<open>auto simp: has_prefix_def\<close>)
  then obtain t where t: "do_msg_tree 63 [] st = Some (t, [])" "finds t [] st"
    by (auto simp: builds_def has_prefix_def)
  have "\<not> (\<exists>f mg ptrs. t = MNode (Final f) mg ptrs)"
  proof
    assume "\<exists>f mg ptrs. t = MNode (Final f) mg ptrs"
    then obtain f mg ptrs where n: "t = MNode (Final f) mg ptrs" by blast
    show False using t(1) unfolding m n by (auto simp: has_prefix_def split: if_splits dest: letters_final)
  qed
  have find_iff: "find (\<lambda>m. same_name s (cmd m)) tab = Some x \<longleftrightarrow> x \<in> set tab \<and> cmd x = map ToUpper s" for s x
    using assms(2) by (subst find_unique [OF assms(1)]) (auto simp: same_upper)
  have "tree_parse t s = find (\<lambda>m. same_name s (cmd m)) tab" if s: "cstring s" for s
  proof (cases "s = []")
    case True
    have "find (\<lambda>m. same_name s (cmd m)) tab = None"
      using find_iff [of s] assms(2) True by (cases "find (\<lambda>m. same_name s (cmd m)) tab") auto
    then show ?thesis using True by simp
  next
    case False
    obtain fin mg ptrs where n: "t = MNode fin mg ptrs" "\<forall>f. fin \<noteq> Final f"
      using \<open>\<not> (\<exists>f mg ptrs. t = MNode (Final f) mg ptrs)\<close> by (cases t) auto
    then have "tree_parse t s = node_find t s" using False by (cases fin) auto
    then have "tree_parse t s = Some x \<longleftrightarrow> x \<in> set tab \<and> cmd x = map ToUpper s" for x
      using t(2) s st(2) by (simp add: finds_def)
    then show ?thesis using find_iff [of s] by (metis option.exhaust)
  qed
  moreover have "init_tree_parse tab = Some t" using t(1) by (simp add: init_tree_parse_def st_def)
  ultimately show ?thesis by (rule that [rotated])
qed

lemma msgtab_ok: "distinct (map cmd msgtab)" "\<forall>m \<in> set msgtab. upper (cmd m) \<and> cmd m \<noteq> [] \<and> length (cmd m) < 64"
  "2 \<le> length msgtab"
  by (simp_all add: msgtab_def msg_def unreg_def upper_def letter_range code_def)

definition msg_tree_root :: mtree where
  "msg_tree_root = the (init_tree_parse msgtab)"

lemma tree_parse_msgtab:
  "init_tree_parse msgtab = Some msg_tree_root"
  "cstring s \<Longrightarrow> tree_parse msg_tree_root s = find (\<lambda>m. same_name s (cmd m)) msgtab"
  unfolding msg_tree_root_def by (rule init_tree_parse_ok [OF msgtab_ok]; simp)+

text \<open>C25 (command look-up).
  The prefix tree made of the command table is complete (\<open>init_tree_parse\<close> does not stop the
  program) and finds for every word exactly the command that the word spells in any
  mixture of cases, which is what a search of the whole table with \<open>irccmp\<close> would find.\<close>

theorem command_lookup:
  assumes "cstring s"
  shows "init_tree_parse msgtab = Some msg_tree_root \<and>
    tree_parse msg_tree_root s = find (\<lambda>m. irccmp s (cmd m) = 0) msgtab"
proof -
  have "find (\<lambda>m. same_name s (cmd m)) msgtab = find (\<lambda>m. irccmp s (cmd m) = 0) msgtab"
    by (rule find_cong) (use msgtab_ok(2) assms in \<open>auto simp: irccmp_0_iff upper_cstring\<close>)
  then show ?thesis using tree_parse_msgtab assms by simp
qed

theorem command_lookup_witness:
  "map_option cmd (tree_parse msg_tree_root ''operWall'') = Some ''OPERWALL'' \<and>
   tree_parse msg_tree_root ''OPERW'' = None"
proof -
  have c: "cstring ''operWall''" "cstring ''OPERW''" by (simp_all add: cstring_def)
  have f: "map_option cmd (find (\<lambda>m. irccmp ''operWall'' (cmd m) = 0) msgtab) = Some ''OPERWALL''"
    "find (\<lambda>m. irccmp ''OPERW'' (cmd m) = 0) msgtab = None"
    by code_simp+
  show ?thesis using command_lookup [OF c(1)] command_lookup [OF c(2)] f by metis
qed

end
