(* ===== verification/Conf.thy ===== *)
theory Conf
  imports UMode IrcString
begin

text \<open>
  Configuration items and connection classes: attaching items to clients and finding them
  (\<open>src/s_conf.c\<close>), temporary K-lines, and the classes of \<open>src/class.c\<close>.  \<open>confs\<close> and \<open>classes\<close> are the
  store of the structures, \<open>conf_list\<close> is \<open>ConfigItemList\<close>.  What the tree of I- and K-lines
  (\<open>src/mtrie_conf.c\<close>) answers to a host, a user and an address is the field \<open>mtrie\<close> of the world.
\<close>

abbreviation cf :: "world \<Rightarrow> confid \<Rightarrow> conf_item" where "cf w a \<equiv> confs w a"

abbreviation upd_conf :: "confid \<Rightarrow> (conf_item \<Rightarrow> conf_item) \<Rightarrow> world \<Rightarrow> world" where
  "upd_conf a f w \<equiv> w\<lparr>confs := (confs w)(a := f (confs w a))\<rparr>"

abbreviation upd_class :: "classid \<Rightarrow> (conn_class \<Rightarrow> conn_class) \<Rightarrow> world \<Rightarrow> world" where
  "upd_class k f w \<equiv> w\<lparr>classes := (classes w)(k := f (classes w k))\<rparr>"

text \<open>
  The class of an item.  Every line for clients and servers has one; \<open>zero_class\<close> stands for a read
  through a null pointer.
\<close>

definition conf_class :: "world \<Rightarrow> confid \<Rightarrow> conn_class" where
  "conf_class w a = (case ci_class (cf w a) of None \<Rightarrow> zero_class | Some k \<Rightarrow> classes w k)"

definition ConfLinks :: "world \<Rightarrow> confid \<Rightarrow> int" where "ConfLinks w a = cls_links (conf_class w a)"
definition ConfMaxLinks :: "world \<Rightarrow> confid \<Rightarrow> int" where "ConfMaxLinks w a = cls_maxLinks (conf_class w a)"
definition ConfConFreq :: "world \<Rightarrow> confid \<Rightarrow> int" where "ConfConFreq w a = cls_conFreq (conf_class w a)"
definition ConfPingFreq :: "world \<Rightarrow> confid \<Rightarrow> int" where "ConfPingFreq w a = cls_pingFreq (conf_class w a)"

definition add_links :: "confid \<Rightarrow> int \<Rightarrow> world \<Rightarrow> world" where
  "add_links a n w =
     (case ci_class (cf w a) of None \<Rightarrow> w
      | Some k \<Rightarrow> upd_class k (\<lambda>y. y\<lparr>cls_links := cls_links y + n\<rparr>) w)"

text \<open>\<open>match\<close> with a null mask matches nothing.\<close>

definition match_ptr :: "cstr option \<Rightarrow> cstr \<Rightarrow> bool" where
  "match_ptr m s = (case m of None \<Rightarrow> False | Some p \<Rightarrow> match_irc p s)"

definition same_ptr :: "cstr option \<Rightarrow> cstr \<Rightarrow> bool" where
  "same_ptr m s = (case m of None \<Rightarrow> False | Some p \<Rightarrow> irccmp p s = 0)"

section \<open>Attaching and detaching\<close>

definition FLAGS2_F_LINED :: flags where "FLAGS2_F_LINED = 0x0010"
definition FLAGS2_E_LINED :: flags where "FLAGS2_E_LINED = 0x0004"
definition FLAGS2_CANFLOOD :: flags where "FLAGS2_CANFLOOD = 0x10000000"

text \<open>The end of \<open>attach_conf\<close>, where the item goes on the list of the client and is counted.\<close>

definition link_conf :: "cid \<Rightarrow> confid \<Rightarrow> world \<Rightarrow> world" where
  "link_conf c a w =
     (let w1 = upd_conf a (\<lambda>i. i\<lparr>ci_clients := ci_clients i + 1\<rparr>) (upd_cl c (\<lambda>k. k\<lparr>cl_confs := a # cl_confs k\<rparr>) w)
      in if has_flag (ci_status (cf w a)) CONF_CLIENT_MASK then add_links a 1 w1 else w1)"

definition attach_conf :: "cid \<Rightarrow> confid \<Rightarrow> world \<Rightarrow> int \<times> world" where
  "attach_conf c a w =
     (let st = ci_status (cf w a);
          full = (\<not> has_flag st (CONF_LOCOP OR CONF_OPERATOR) \<and> has_flag st CONF_CLIENT \<and>
                  ConfLinks w a \<ge> ConfMaxLinks w a \<and> ConfMaxLinks w a > 0)
      in if a \<in> set (cl_confs (cl w c)) then (1, w)
         else if IsIllegal (cf w a) then (-1, w)
         else if full \<and> \<not> IsConfFlined (cf w a) then (-3, w)
         else
           (0, link_conf c a
                 (if full then upd_cl c (\<lambda>k. k\<lparr>flags2 := flags2 k OR FLAGS2_F_LINED\<rparr>)
                    (sendto_one c (Fmt ('':%s NOTICE %s :*** I: line is full, but you have an >I: line!'' @ [CHR 0x0a]))
                       [me_name w, Str (name (cl w c))] w)
                  else w)))"

definition drop_class :: "confid \<Rightarrow> world \<Rightarrow> world" where
  "drop_class a w =
     (case ci_class (cf w a) of None \<Rightarrow> w
      | Some k \<Rightarrow>
          let w1 = (if has_flag (ci_status (cf w a)) CONF_CLIENT_MASK \<and> cls_links (classes w k) > 0
                    then add_links a (-1) w else w)
          in if cls_maxLinks (classes w1 k) = -1 \<and> cls_links (classes w1 k) = 0
             then upd_conf a (\<lambda>i. i\<lparr>ci_class := None\<rparr>) (upd_class k (\<lambda>y. y\<lparr>cls_freed := True\<rparr>) w1)
             else w1)"

definition detach_conf :: "cid \<Rightarrow> confid \<Rightarrow> world \<Rightarrow> int \<times> world" where
  "detach_conf c a w =
     (if a \<notin> set (cl_confs (cl w c)) then (-1, w)
      else
        let w1 = upd_conf a (\<lambda>i. i\<lparr>ci_clients := ci_clients i - 1\<rparr>) (drop_class a w);
            w2 = (if ci_clients (cf w1 a) = 0 \<and> IsIllegal (cf w1 a) then upd_conf a (\<lambda>i. i\<lparr>ci_freed := True\<rparr>) w1 else w1)
        in (0, upd_cl c (\<lambda>k. k\<lparr>cl_confs := remove1 a (cl_confs k)\<rparr>) w2))"

definition detach_unless :: "flags \<Rightarrow> cid \<Rightarrow> confid \<Rightarrow> world \<Rightarrow> world" where
  "detach_unless msk c a w = (if has_flag (ci_status (cf w a)) msk then w else snd (detach_conf c a w))"

definition det_confs_butmask :: "cid \<Rightarrow> flags \<Rightarrow> world \<Rightarrow> world" where
  "det_confs_butmask c msk w = fold (detach_unless msk c) (cl_confs (cl w c)) w"

definition attach_confs :: "cid \<Rightarrow> cstr \<Rightarrow> flags \<Rightarrow> world \<Rightarrow> int \<times> world" where
  "attach_confs c nm statmask w =
     fold (\<lambda>a (n, w).
        if has_flag (ci_status (cf w a)) statmask \<and> \<not> IsIllegal (cf w a) \<and>
           (match_ptr (ci_name (cf w a)) nm \<or> same_ptr (ci_name (cf w a)) nm)
        then (let (r, w1) = attach_conf c a w in (if r > -1 then n + 1 else n, w1))
        else (n, w)) (conf_list w) (0, w)"

text \<open>The two flags say whether a C-line and an N-line were found.\<close>

fun attach_cn_loop :: "cid \<Rightarrow> cstr \<Rightarrow> cstr \<Rightarrow> bool \<Rightarrow> bool \<Rightarrow> confid list \<Rightarrow> world \<Rightarrow> bool \<times> world" where
  "attach_cn_loop c nm hst fc fn [] w = (False, w)"
| "attach_cn_loop c nm hst fc fn (a # as) w =
     (let i = cf w a; w1 = snd (attach_conf c a w) in
      if IsIllegal i then attach_cn_loop c nm hst fc fn as w
      else if \<not> fc \<and> ci_status i = CONF_CONNECT_SERVER \<and> same_ptr (ci_host i) hst \<and> match_ptr (ci_name i) nm
      then if fn then (True, w1) else attach_cn_loop c nm hst True fn as w1
      else if \<not> fn \<and> ci_status i = CONF_NOCONNECT_SERVER \<and> same_ptr (ci_host i) hst \<and> match_ptr (ci_name i) nm
      then if fc then (True, w1) else attach_cn_loop c nm hst fc True as w1
      else attach_cn_loop c nm hst fc fn as w)"

definition attach_cn_lines :: "cid \<Rightarrow> cstr \<Rightarrow> cstr \<Rightarrow> world \<Rightarrow> bool \<times> world" where
  "attach_cn_lines c nm hst w = attach_cn_loop c nm hst False False (conf_list w) w"

section \<open>Finding items\<close>

definition find_first_nline :: "world \<Rightarrow> confid list \<Rightarrow> confid option" where
  "find_first_nline w lp = find (\<lambda>a. ci_status (cf w a) = CONF_NOCONNECT_SERVER) lp"

definition find_conf_exact :: "world \<Rightarrow> cstr \<Rightarrow> cstr \<Rightarrow> cstr \<Rightarrow> flags \<Rightarrow> confid option" where
  "find_conf_exact w nm usr hst statmask =
     find (\<lambda>a. let i = cf w a in
        has_flag (ci_status i) statmask \<and> same_ptr (ci_name i) nm \<and> match_ptr (ci_host i) hst \<and>
        match_ptr (ci_user i) usr \<and>
        (has_flag (ci_status i) (CONF_OPERATOR OR CONF_LOCOP) \<longrightarrow> ci_clients i < ConfMaxLinks w a)) (conf_list w)"

definition find_conf_name :: "world \<Rightarrow> confid list \<Rightarrow> cstr \<Rightarrow> flags \<Rightarrow> confid option" where
  "find_conf_name w lp nm statmask =
     find (\<lambda>a. has_flag (ci_status (cf w a)) statmask \<and>
        (same_ptr (ci_name (cf w a)) nm \<or> match_ptr (ci_name (cf w a)) nm)) lp"

definition find_conf_host :: "world \<Rightarrow> confid list \<Rightarrow> cstr \<Rightarrow> flags \<Rightarrow> confid option" where
  "find_conf_host w lp hst statmask =
     find (\<lambda>a. has_flag (ci_status (cf w a)) statmask \<and> match_ptr (ci_host (cf w a)) hst) lp"

definition find_conf_ip :: "world \<Rightarrow> confid list \<Rightarrow> nat list \<Rightarrow> cstr \<Rightarrow> flags \<Rightarrow> confid option" where
  "find_conf_ip w lp addr usr statmask =
     find (\<lambda>a. has_flag (ci_status (cf w a)) statmask \<and> match_ptr (ci_user (cf w a)) usr \<and> ci_ipnum (cf w a) = addr) lp"

definition find_conf_by_name :: "world \<Rightarrow> cstr \<Rightarrow> flags \<Rightarrow> confid option" where
  "find_conf_by_name w nm st =
     find (\<lambda>a. ci_status (cf w a) = st \<and> (case ci_name (cf w a) of None \<Rightarrow> False | Some n \<Rightarrow> match_irc nm n)) (conf_list w)"

definition find_conf_by_host :: "world \<Rightarrow> cstr \<Rightarrow> flags \<Rightarrow> confid option" where
  "find_conf_by_host w hst st =
     find (\<lambda>a. ci_status (cf w a) = st \<and> (case ci_host (cf w a) of None \<Rightarrow> False | Some h \<Rightarrow> match_irc hst h)) (conf_list w)"

definition both_same :: "cstr option \<Rightarrow> cstr option \<Rightarrow> bool" where
  "both_same p q =
     (if BadPtr p then BadPtr q else \<not> BadPtr q \<and> irccmp (the p) (the q) = 0)"

definition find_conf_entry :: "world \<Rightarrow> conf_item \<Rightarrow> flags \<Rightarrow> confid option" where
  "find_conf_entry w i msk =
     find (\<lambda>b. let j = cf w b in
        has_flag (ci_status j) (msk AND NOT CONF_ILLEGAL) \<and> ci_port j = ci_port i \<and>
        both_same (ci_host j) (ci_host i) \<and> both_same (ci_passwd j) (ci_passwd i) \<and> both_same (ci_name j) (ci_name i))
       (conf_list w)"

definition find_special_conf :: "world \<Rightarrow> cstr \<Rightarrow> flags \<Rightarrow> confid option" where
  "find_special_conf w to_find msk =
     (let this_conf = (if has_flag msk CONF_XLINE then x_conf w else if has_flag msk CONF_ULINE then u_conf w else [])
      in find (\<lambda>a. has_flag (ci_status (cf w a)) msk \<and> \<not> BadPtr (ci_name (cf w a)) \<and> match_ptr (ci_name (cf w a)) to_find) this_conf)"

definition find_q_line :: "world \<Rightarrow> cstr \<Rightarrow> cstr \<Rightarrow> cstr \<Rightarrow> bool" where
  "find_q_line w nick usr hst =
     (case find (\<lambda>q. \<not> BadPtr (q_name q) \<and> match_ptr (q_name q) nick) (q_conf w) of
        None \<Rightarrow> False
      | Some q \<Rightarrow> \<not> list_ex (\<lambda>a. match_ptr (ci_user (cf w a)) usr \<and> match_ptr (ci_host (cf w a)) hst) (q_confs q))"

section \<open>Temporary K-lines\<close>

text \<open>The items that are not expired; the others are reported and freed.\<close>

definition expire_temp_klines :: "confid list \<Rightarrow> world \<Rightarrow> confid list \<times> world" where
  "expire_temp_klines ks w =
     (filter (\<lambda>a. ci_hold (cf w a) > now w) ks,
      fold (\<lambda>a w. if ci_hold (cf w a) \<le> now w
         then upd_conf a (\<lambda>i. i\<lparr>ci_freed := True\<rparr>)
                (sendto_realops (Fmt ''Temporary K-line for [%s@%s] expired'')
                   [Str (case ci_user (cf w a) of None \<Rightarrow> ''*'' | Some u \<Rightarrow> u),
                    Str (case ci_host (cf w a) of None \<Rightarrow> ''*'' | Some h \<Rightarrow> h)] w)
         else w) ks w)"

definition find_tkline :: "cstr \<Rightarrow> cstr \<Rightarrow> 32 word \<Rightarrow> world \<Rightarrow> confid option \<times> world" where
  "find_tkline hst usr addr w =
     (let (ks, v) = expire_temp_klines (temporary_klines w) w;
          w1 = v\<lparr>temporary_klines := ks\<rparr>
      in case find (\<lambda>a. match_ptr (ci_user (cf w1 a)) usr \<and> match_ptr (ci_host (cf w1 a)) hst) ks of
           Some a \<Rightarrow> (Some a, w1)
         | None \<Rightarrow>
             let (is, u) = expire_temp_klines (temporary_ip_klines w1) w1;
                 w2 = u\<lparr>temporary_ip_klines := is\<rparr>
             in (find (\<lambda>a. match_ptr (ci_user (cf w2 a)) usr \<and> ci_ip (cf w2 a) \<noteq> 0 \<and>
                        addr AND ci_ip_mask (cf w2 a) = ci_ip (cf w2 a)) is, w2))"

definition find_is_klined :: "cstr \<Rightarrow> cstr \<Rightarrow> 32 word \<Rightarrow> world \<Rightarrow> confid option \<times> world" where
  "find_is_klined hst nm addr w =
     (case find_tkline hst nm addr w of
        (Some a, w1) \<Rightarrow> (Some a, w1)
      | (None, w1) \<Rightarrow>
          (case mtrie w1 hst nm addr of
             None \<Rightarrow> (None, w1)
           | Some a \<Rightarrow> (if has_flag (ci_status (cf w1 a)) (CONF_ELINE OR CONF_DLINE OR CONF_KILL) then Some a else None, w1)))"

definition is_klined :: "cstr \<Rightarrow> cstr \<Rightarrow> 32 word \<Rightarrow> world \<Rightarrow> confid option \<times> world" where
  "is_klined hst nm addr w =
     (case find_tkline hst nm addr w of
        (Some a, w1) \<Rightarrow> (Some a, w1)
      | (None, w1) \<Rightarrow>
          (case mtrie w1 hst nm addr of
             None \<Rightarrow> (None, w1)
           | Some a \<Rightarrow> (if has_flag (ci_status (cf w1 a)) CONF_KILL then Some a else None, w1)))"

text \<open>The address of a client as a number, \<open>ntohl(cptr->ip.s_addr)\<close>.\<close>

definition ip_number :: "client \<Rightarrow> nat" where
  "ip_number k = foldl (\<lambda>n b. n * 256 + b) 0 (ip k)"

definition find_kill :: "cid \<Rightarrow> world \<Rightarrow> confid option \<times> world" where
  "find_kill c w =
     (if has_flag (flags2 (cl w c)) FLAGS2_E_LINED then (None, w)
      else find_is_klined (host (cl w c)) (username (cl w c)) (of_nat (ip_number (cl w c))) w)"

definition add_temp_kline :: "confid \<Rightarrow> world \<Rightarrow> world" where
  "add_temp_kline a w =
     (if ci_ip (cf w a) = 0 then w\<lparr>temporary_klines := a # temporary_klines w\<rparr>
      else w\<lparr>temporary_ip_klines := a # temporary_ip_klines w\<rparr>)"

definition flush_temp_klines :: "world \<Rightarrow> world" where
  "flush_temp_klines w =
     (fold (\<lambda>a. upd_conf a (\<lambda>i. i\<lparr>ci_freed := True\<rparr>)) (temporary_klines w @ temporary_ip_klines w) w)
       \<lparr>temporary_klines := [], temporary_ip_klines := []\<rparr>"

section \<open>Access for clients\<close>

definition FLAGS_CHKACCESS :: flags where "FLAGS_CHKACCESS = 0x0040"
definition FLAGS_GOTID :: flags where "FLAGS_GOTID = 0x0080"
definition FLAGS_NEEDID :: flags where "FLAGS_NEEDID = 0x0100"
definition FLAGS_IPHASH :: flags where "FLAGS_IPHASH = 0x1000"
definition FLAGS2_IP_SPOOFING :: flags where "FLAGS2_IP_SPOOFING = 0x100000"
definition FLAGS2_IP_HIDDEN :: flags where "FLAGS2_IP_HIDDEN = 0x200000"

definition IsGotId :: "client \<Rightarrow> bool" where "IsGotId k = has_flag (cflags k) FLAGS_GOTID"
definition IsNeedId :: "client \<Rightarrow> bool" where "IsNeedId k = has_flag (cflags k) FLAGS_NEEDID"
definition IsFlined :: "client \<Rightarrow> bool" where "IsFlined k = has_flag (flags2 k) FLAGS2_F_LINED"
definition IsIPSpoof :: "client \<Rightarrow> bool" where "IsIPSpoof k = has_flag (flags2 k) FLAGS2_IP_SPOOFING"

definition NOT_AUTHORIZED :: int where "NOT_AUTHORIZED = -1"
definition SOCKET_ERROR :: int where "SOCKET_ERROR = -2"
definition I_LINE_FULL :: int where "I_LINE_FULL = -3"
definition I_LINE_FULL2 :: int where "I_LINE_FULL2 = -4"
definition BANNED_CLIENT :: int where "BANNED_CLIENT = -5"

text \<open>\<open>None\<close>: memory for the table of addresses is out, and the server restarts.\<close>

definition attach_iline :: "cid \<Rightarrow> confid \<Rightarrow> world \<Rightarrow> (int \<times> world) option" where
  "attach_iline c a w =
     (let addr = ip_number (cl w c) in
      map_option (\<lambda>t.
        let w1 = upd_cl c (\<lambda>k. k\<lparr>cflags := cflags k OR FLAGS_IPHASH\<rparr>) (w\<lparr>iptab := t\<rparr>)
        in if ConfConFreq w1 a \<noteq> 0 \<and> ip_users t addr > ConfConFreq w1 a
           then if \<not> IsConfFlined (cf w1 a) then (I_LINE_FULL2, w1)
                else attach_conf c a
                  (sendto_one c (Fmt '':%s NOTICE %s :*** I: line is full, but you have an >I: line!'')
                     [me_name w1, Str (name (cl w1 c))] w1)
           else attach_conf c a w1) (add_one_ip addr (iptab w)))"

text \<open>The user name the access lists are searched for.\<close>

definition access_user :: "client \<Rightarrow> cstr \<Rightarrow> cstr" where
  "access_user k usr = (if IsGotId k then username k else CHR ''~'' # take (USERLEN - 1) usr)"

definition verify_access :: "cid \<Rightarrow> cstr \<Rightarrow> world \<Rightarrow> (int \<times> cstr option \<times> world) option" where
  "verify_access c usr w =
     (let k = cl w c; u = access_user k usr; addr = of_nat (ip_number k) in
      case mtrie w (host k) u addr of
        None \<Rightarrow> Some (-1, None, w)
      | Some b \<Rightarrow>
          let (a, w1) = (if IsConfElined (cf w b) then (b, w)
                         else case find_tkline (host k) u addr w of (None, v) \<Rightarrow> (b, v) | (Some t, v) \<Rightarrow> (t, v));
              i = cf w1 a
          in if has_flag (ci_status i) CONF_CLIENT then
               if IsMustResolve i \<and> host k \<noteq> [] \<and> IsDigit (last (host k)) then
                 Some (-1, None, sendto_one c (Fmt '':%s NOTICE %s :*** Your IP must resolve to use this server'')
                   [me_name w1, Str (name k)] w1)
               else
                 let w2 = (if IsConfDoIdentd i then upd_cl c (\<lambda>k. k\<lparr>cflags := cflags k OR FLAGS_NEEDID\<rparr>) w1 else w1);
                     w3 = (if IsConfDoSpoofIp i
                           then upd_cl c (\<lambda>k. k\<lparr>host := take HOSTLEN (case ci_name i of None \<Rightarrow> [] | Some n \<Rightarrow> n),
                                  flags2 := flags2 k OR FLAGS2_IP_SPOOFING OR FLAGS2_IP_HIDDEN\<rparr>)
                             (sendto_realops_flags FLAGS_ADMIN (Fmt ''%s spoofing: %s(%s) as %s'')
                               [Str (name k), Str (host k), Str (inetntoa (ip k)), Str (case ci_name i of None \<Rightarrow> [] | Some n \<Rightarrow> n)] w2)
                           else w2)
                 in map_option (\<lambda>(r, v). (r, None, v)) (attach_iline c a w3)
             else if has_flag (ci_status i) CONF_KILL then Some (BANNED_CLIENT, ci_passwd i, w1)
             else Some (-1, None, w1))"

definition check_client :: "cid \<Rightarrow> cstr \<Rightarrow> world \<Rightarrow> (int \<times> cstr option \<times> world) option" where
  "check_client c usr w = verify_access c usr (upd_cl c (\<lambda>k. k\<lparr>cflags := cflags k AND NOT FLAGS_CHKACCESS\<rparr>) w)"

section \<open>Classes\<close>

definition BAD_CONF_CLASS :: int where "BAD_CONF_CLASS = -1"
definition BAD_PING :: int where "BAD_PING = -2"
definition BAD_CLIENT_CLASS :: int where "BAD_CLIENT_CLASS = -3"
definition PINGFREQUENCY :: int where "PINGFREQUENCY = 120"
definition CONNECTFREQUENCY :: int where "CONNECTFREQUENCY = 600"
definition MAXSENDQLENGTH :: int where "MAXSENDQLENGTH = 15000000"

definition get_conf_class :: "world \<Rightarrow> confid option \<Rightarrow> int" where
  "get_conf_class w p =
     (case p of None \<Rightarrow> BAD_CONF_CLASS
      | Some a \<Rightarrow> (case ci_class (cf w a) of None \<Rightarrow> BAD_CONF_CLASS | Some k \<Rightarrow> cls_type (classes w k)))"

definition get_conf_ping :: "world \<Rightarrow> confid \<Rightarrow> int" where
  "get_conf_ping w a = (case ci_class (cf w a) of None \<Rightarrow> BAD_PING | Some k \<Rightarrow> cls_pingFreq (classes w k))"

definition client_classes :: "world \<Rightarrow> cid \<Rightarrow> conn_class list" where
  "client_classes w c =
     (if IsMe (cl w c) then []
      else map (classes w) (concat (map (\<lambda>a. case ci_class (cf w a) of None \<Rightarrow> [] | Some k \<Rightarrow> [k]) (cl_confs (cl w c)))))"

definition get_client_class :: "world \<Rightarrow> cid \<Rightarrow> int" where
  "get_client_class w c =
     foldl (\<lambda>retc y. if cls_type y > retc then cls_type y else retc) BAD_CLIENT_CLASS (client_classes w c)"

definition get_client_ping :: "world \<Rightarrow> cid \<Rightarrow> int" where
  "get_client_ping w c =
     (let ping = (if cl_confs (cl w c) = [] then PINGFREQUENCY
         else foldl (\<lambda>ping a.
            if has_flag (ci_status (cf w a)) (CONF_CLIENT OR CONF_CONNECT_SERVER OR CONF_NOCONNECT_SERVER) then
              let ping2 = get_conf_ping w a in
              if ping2 \<noteq> BAD_PING \<and> (ping > ping2 \<or> ping = 0) then ping2 else ping
            else ping) 0 (cl_confs (cl w c)))
      in if ping \<le> 0 then PINGFREQUENCY else ping)"

definition get_con_freq :: "world \<Rightarrow> classid option \<Rightarrow> int" where
  "get_con_freq w k = (case k of None \<Rightarrow> CONNECTFREQUENCY | Some k \<Rightarrow> cls_conFreq (classes w k))"

text \<open>The best class so far is not remembered, so every class of type 0 or above sets the limit.\<close>

definition get_sendq :: "world \<Rightarrow> cid \<Rightarrow> int" where
  "get_sendq w c =
     foldl (\<lambda>sendq y. if cls_type y > BAD_CLIENT_CLASS then cls_maxSendq y else sendq) MAXSENDQLENGTH (client_classes w c)"

text \<open>\<open>class_list\<close> is \<open>ClassList\<close>, with class 0 at its head.\<close>

definition find_class :: "world \<Rightarrow> int \<Rightarrow> classid" where
  "find_class w t =
     (case find (\<lambda>k. cls_type (classes w k) = t) (class_list w) of None \<Rightarrow> hd (class_list w) | Some k \<Rightarrow> k)"

definition set_class :: "int \<Rightarrow> int \<Rightarrow> int \<Rightarrow> int \<Rightarrow> int \<Rightarrow> bool \<Rightarrow> conn_class \<Rightarrow> conn_class" where
  "set_class t ping confreq maxli sendq fresh y =
     y\<lparr>cls_type := t, cls_conFreq := confreq, cls_pingFreq := ping, cls_maxLinks := maxli,
       cls_maxSendq := (if sendq > 0 then sendq else MAXSENDQLENGTH), cls_links := (if fresh then 0 else cls_links y)\<rparr>"

definition add_class :: "int \<Rightarrow> int \<Rightarrow> int \<Rightarrow> int \<Rightarrow> int \<Rightarrow> world \<Rightarrow> world" where
  "add_class t ping confreq maxli sendq w =
     (let k = find_class w t in
      if k = hd (class_list w) \<and> t \<noteq> 0 then
        let p = next_class w in
        upd_class p (\<lambda>_. set_class t ping confreq maxli sendq True zero_class)
          (w\<lparr>next_class := p + 1, class_list := k # p # tl (class_list w)\<rparr>)
      else upd_class k (set_class t ping confreq maxli sendq False) w)"

text \<open>Classes marked for deletion leave the list, but for its head; the memory goes when nothing uses them.\<close>

definition check_class :: "world \<Rightarrow> world" where
  "check_class w =
     (let gone = (\<lambda>k. cls_maxLinks (classes w k) < 0)
      in (fold (\<lambda>k w. if gone k \<and> cls_links (classes w k) \<le> 0 then upd_class k (\<lambda>y. y\<lparr>cls_freed := True\<rparr>) w else w)
            (class_list w) w)\<lparr>class_list := hd (class_list w) # filter (\<lambda>k. \<not> gone k) (tl (class_list w))\<rparr>)"

definition initclass :: "world \<Rightarrow> world" where
  "initclass w =
     (let p = next_class w in upd_class p (\<lambda>_. zero_class) (w\<lparr>next_class := p + 1, class_list := [p]\<rparr>))"

section \<open>What detaching leaves alone\<close>

text \<open>The state without the configuration and without what is attached to one client.\<close>

definition unconf :: "cid \<Rightarrow> world \<Rightarrow> world" where
  "unconf c w = upd_cl c (\<lambda>k. k\<lparr>cl_confs := []\<rparr>) (w\<lparr>confs := \<lambda>_. zero_conf, classes := \<lambda>_. zero_class\<rparr>)"

lemma unconf_upd [simp]:
  "unconf c (w\<lparr>confs := f\<rparr>) = unconf c w" "unconf c (w\<lparr>classes := g\<rparr>) = unconf c w"
  "unconf c (upd_cl c (\<lambda>k. k\<lparr>cl_confs := q\<rparr>) w) = unconf c w"
  "unconf c (w\<lparr>confs := f, clients := (clients w)(c := (cl w c)\<lparr>cl_confs := q\<rparr>)\<rparr>) = unconf c w"
  by (simp_all add: unconf_def)

lemma unconf_add_links [simp]: "unconf c (add_links a n w) = unconf c w"
  by (simp add: add_links_def split: option.split)

lemma unconf_drop_class [simp]: "unconf c (drop_class a w) = unconf c w"
  by (simp add: drop_class_def Let_def split: option.split)

lemma unconf_detach [simp]: "unconf c (snd (detach_conf c a w)) = unconf c w"
  by (simp add: detach_conf_def Let_def)

lemma unconf_detach_unless [simp]: "unconf c (detach_unless m c a w) = unconf c w"
  by (simp add: detach_unless_def)

lemma unconf_det_confs: "unconf c (det_confs_butmask c m w) = unconf c w"
proof -
  have "unconf c (fold (detach_unless m c) l w) = unconf c w" for l
    by (induction l arbitrary: w) simp_all
  then show ?thesis by (simp add: det_confs_butmask_def)
qed

lemma unconf_eqD:
  assumes "unconf c v = unconf c w"
  shows "chans v = chans w" "chan_list v = chan_list w" "next_chan v = next_chan w" "client_tab v = client_tab w"
    "chan_tab v = chan_tab w" "history v = history w" "me v = me w" "serv_list v = serv_list w" "oper_list v = oper_list w"
    "local_list v = local_list w" "client_list v = client_list w" "count_chan v = count_chan w" "count_server v = count_server w"
    "count_total v = count_total w" "count_oper v = count_oper w" "count_invisi v = count_invisi w" "local_conns v = local_conns w"
    "count_local v = count_local w" "count_myserver v = count_myserver w" "now v = now w" "conf_list v = conf_list w" "outl v = outl w"
    "d \<noteq> c \<Longrightarrow> cl v d = cl w d" "cl v c = (cl w c)\<lparr>cl_confs := cl_confs (cl v c)\<rparr>"
proof -
  note e = arg_cong [OF assms]
  show "chans v = chans w" "chan_list v = chan_list w" "next_chan v = next_chan w" "client_tab v = client_tab w"
    "chan_tab v = chan_tab w" "history v = history w" "me v = me w" "serv_list v = serv_list w" "oper_list v = oper_list w"
    using e [of chans] e [of chan_list] e [of next_chan] e [of client_tab] e [of chan_tab] e [of history] e [of me]
      e [of serv_list] e [of oper_list] by (simp_all add: unconf_def)
  show "local_list v = local_list w" "client_list v = client_list w" "count_chan v = count_chan w" "count_server v = count_server w"
    "count_total v = count_total w" "count_oper v = count_oper w" "count_invisi v = count_invisi w" "local_conns v = local_conns w"
    "count_local v = count_local w" "count_myserver v = count_myserver w" "now v = now w" "conf_list v = conf_list w" "outl v = outl w"
    using e [of local_list] e [of client_list] e [of count_chan] e [of count_server] e [of count_total] e [of count_oper]
      e [of count_invisi] e [of local_conns] e [of count_local] e [of count_myserver] e [of now] e [of conf_list] e [of outl]
    by (simp_all add: unconf_def)
  show "cl v d = cl w d" if "d \<noteq> c" using e [of "\<lambda>w. cl w d"] that by (simp add: unconf_def)
  have "(cl v c)\<lparr>cl_confs := []\<rparr> = (cl w c)\<lparr>cl_confs := []\<rparr>" using e [of "\<lambda>w. cl w c"] by (simp add: unconf_def)
  then have "((cl v c)\<lparr>cl_confs := []\<rparr>)\<lparr>cl_confs := cl_confs (cl v c)\<rparr> = ((cl w c)\<lparr>cl_confs := []\<rparr>)\<lparr>cl_confs := cl_confs (cl v c)\<rparr>"
    by (rule arg_cong)
  then show "cl v c = (cl w c)\<lparr>cl_confs := cl_confs (cl v c)\<rparr>" by simp
qed

lemmas det_confs_eqD = unconf_eqD [OF unconf_det_confs]

lemma detach_confs:
  "cl_confs (cl (snd (detach_conf c a w)) c) = remove1 a (cl_confs (cl w c))"
proof -
  have "cl (drop_class a w) = cl w" by (simp add: drop_class_def add_links_def Let_def split: option.split)
  then show ?thesis by (simp add: detach_conf_def Let_def remove1_idem)
qed

lemma has_flag_zero: "\<not> has_flag x 0"
  by (simp add: has_flag_def)

lemma fold_remove1_self: "fold remove1 l l = []"
  by (induction l) auto

lemma det_confs_all [simp]: "cl_confs (cl (det_confs_butmask c 0 w) c) = []"
proof -
  have "cl_confs (cl (fold (detach_unless 0 c) l w) c) = fold remove1 l (cl_confs (cl w c))" for l
    by (induction l arbitrary: w) (simp_all add: detach_unless_def has_flag_zero detach_confs)
  then show ?thesis by (simp add: det_confs_butmask_def fold_remove1_self)
qed

end
