(* ===== verification/Exit.thy ===== *)
theory Exit
  imports ChanInv Conf
begin

text \<open>
  Clients leave: \<open>exit_client\<close> of \<open>src/client.c\<close> with what it calls there, \<open>close_connection\<close> of
  \<open>src/s_bsd.c\<close>, \<open>my_name_for_link\<close> of \<open>src/s_serv.c\<close> and \<open>sendto_common_channels\<close> of \<open>src/send.c\<close>.
  \<open>SERVERHIDE\<close> and \<open>LIMIT_UH\<close> are not defined; \<open>HIDE_SERVERS_IPS\<close>, \<open>HIDE_SPOOF_IPS\<close>, \<open>WINTRHAWK\<close> and the
  split code are.

  A client is alive while it is on \<open>client_list\<close>; the structures of one that left are freed, so
  \<open>user\<close>, \<open>serv\<close> and the flood lists are gone.  Left out are the log files, the descriptor
  lists, compression and the listener of the connection.
\<close>

section \<open>Names and constants\<close>

definition CLIENT_EXITED :: int where "CLIENT_EXITED = -2"
definition FLAGS_KILLED :: flags where "FLAGS_KILLED = 0x0004"
definition FLAGS_CLOSING :: flags where "FLAGS_CLOSING = 0x0020"
definition CAP_QS :: flags where "CAP_QS = 0x00000002"

lemmas exit_flag_defs = FLAGS_KILLED_def FLAGS_CLOSING_def FLAGS_IPHASH_def FLAGS2_IP_SPOOFING_def CAP_QS_def

datatype show_ip = HIDE_IP | SHOW_IP | MASK_IP

definition get_client_name :: "client \<Rightarrow> show_ip \<Rightarrow> cstr" where
  "get_client_name c showip =
     (if MyConnect c then
        if irccmp (name c) (host c) = 0 then name c
        else if IsServer c \<or> IsHandshake c \<or> IsConnecting c
        then name c @ ''['' @ username c @ ''@255.255.255.255]''
        else name c @ ''['' @ username c @ ''@'' @
          (case showip of SHOW_IP \<Rightarrow> cl_sockhost c | MASK_IP \<Rightarrow> ''255.255.255.255'' | HIDE_IP \<Rightarrow> host c) @ '']''
      else name c)"

text \<open>
  The wildcard name of this server on a link whose N-line asks to hide \<open>count\<close> components of
  the name; \<open>strchr\<close> gives the string from the dot.
\<close>

definition strchr :: "cstr \<Rightarrow> char \<Rightarrow> cstr option" where
  "strchr s c = (case dropWhile (\<lambda>d. d \<noteq> c) s of [] \<Rightarrow> None | r \<Rightarrow> Some r)"

fun hide_components :: "nat \<Rightarrow> cstr \<Rightarrow> cstr option" where
  "hide_components 0 nm = Some nm"
| "hide_components (Suc n) nm = Option.bind (strchr (tl nm) CHR ''.'') (hide_components n)"

definition my_name_for_link :: "cstr \<Rightarrow> int \<Rightarrow> cstr" where
  "my_name_for_link nm count =
     (if count \<le> 0 \<or> count > 5 then nm
      else case hide_components (nat count) nm of
        None \<Rightarrow> nm
      | Some r \<Rightarrow> CHR ''*'' # take (HOSTLEN - 1) r)"

section \<open>Common channels\<close>

text \<open>\<open>sentalong\<close> marks the descriptors that were served; \<open>seen\<close> is the set of marks.\<close>

fun common_targets :: "world \<Rightarrow> int list \<Rightarrow> cid list \<Rightarrow> cid list" where
  "common_targets w seen [] = []"
| "common_targets w seen (c # cs) =
     (if \<not> MyConnect (cl w c) \<or> fd (cl w c) < 0 \<or> fd (cl w c) \<in> set seen then common_targets w seen cs
      else c # common_targets w (fd (cl w c) # seen) cs)"

definition common_list :: "world \<Rightarrow> cid \<Rightarrow> cid list" where
  "common_list w c =
     common_targets w (if fd (cl w c) \<ge> 0 then [fd (cl w c)] else [])
       (concat (map (\<lambda>x. map m_client (members (ch w x))) (u_chans (cl w c)))) @
     (if MyConnect (cl w c) then [c] else [])"

definition sendto_common_channels :: "cid \<Rightarrow> fmt \<Rightarrow> arg list \<Rightarrow> world \<Rightarrow> world" where
  [send_defs]: "sendto_common_channels c f args w = log_out (map (\<lambda>d. Prefix d c f args) (common_list w c)) w"

section \<open>The lists of clients\<close>

definition upd_serv :: "cid \<Rightarrow> (server \<Rightarrow> server) \<Rightarrow> world \<Rightarrow> world" where
  "upd_serv c f w = upd_cl c (\<lambda>k. k\<lparr>cl_serv := map_option f (cl_serv k)\<rparr>) w"

definition has_serv :: "world \<Rightarrow> cid option \<Rightarrow> bool" where
  "has_serv w p = (case p of None \<Rightarrow> False | Some s \<Rightarrow> cl_serv (cl w s) \<noteq> None)"

definition unlink_from_server :: "cid \<Rightarrow> world \<Rightarrow> world" where
  "unlink_from_server c w =
     (let k = cl w c; p = servptr_of k in
      if IsServer k then
        if has_serv w p then upd_serv (the p) (\<lambda>s. s\<lparr>sv_servers := remove1 c (sv_servers s)\<rparr>) w
        else ts_warn (Fmt ''server %s without servptr!'') [Str (name k)] w
      else if has_serv w p
      then upd_serv (the p) (\<lambda>s. s\<lparr>sv_users := remove1 c (sv_users s), sv_usercnt := sv_usercnt s - 1\<rparr>) w
      else w)"

definition update_client_exit_stats :: "cid \<Rightarrow> world \<Rightarrow> world" where
  "update_client_exit_stats c w =
     (let k = cl w c in
      if IsServer k then
        let w1 = sendto_realops_flags FLAGS_EXTERNAL (Fmt ''Server %s split from %s'')
                   [Str (name k), Str (name (cl w (servptr k)))] (w\<lparr>count_server := count_server w - 1\<rparr>)
        in if splitdelay w1 \<noteq> 0 \<and> count_server w1 < splitnum w1 then
             let w2 = (if server_was_split w1 then w1
                       else (sendto_ops (Fmt ''Netsplit detected, split-mode activated'') [] w1)\<lparr>server_was_split := True\<rparr>)
             in w2\<lparr>server_split_time := now w2\<rparr>
           else w1
      else if IsClient k then
        w\<lparr>count_total := count_total w - 1,
          count_oper := (if IsAnOper k then count_oper w - 1 else count_oper w),
          count_invisi := (if IsInvisible k then count_invisi w - 1 else count_invisi w)\<rparr>
      else w)"

text \<open>A person is on record with \<open>add_history\<close>, and entries that chase to it are cut.\<close>

definition whowas_of :: "client \<Rightarrow> whowas_src" where
  "whowas_of k = \<lparr>ws_name = name k, ws_username = username k, ws_host = host k, ws_info = info k,
     ws_server = (case user k of None \<Rightarrow> [] | Some u \<Rightarrow> u_server u)\<rparr>"

definition free_user :: "cid \<Rightarrow> world \<Rightarrow> world" where
  "free_user c w =
     (case user (cl w c) of None \<Rightarrow> w
      | Some u \<Rightarrow>
          if u_joined u \<noteq> 0 \<or> u_invited u \<noteq> [] \<or> u_channel u \<noteq> []
          then sendto_realops (Fmt ''* %#x user (%s!%s@%s) %#x %#x %#x %d %d *'')
                 [Num (int c), Str (name (cl w c)), Str (username (cl w c)), Str (host (cl w c)), Num (u_joined u)] w
          else w)"

definition release_client_state :: "cid \<Rightarrow> world \<Rightarrow> world" where
  "release_client_state c w =
     (let k = cl w c;
          w1 = (if user k = None then w
                else free_user c
                  (if IsPerson k
                   then w\<lparr>history := off_history (add_history (now w) (history w) c (whowas_of k) False) c\<rparr> else w))
      in free_fludees c (free_fluders_client c w1))"

text \<open>\<open>free_client\<close>: the memory of the client is gone.\<close>

definition free_client :: "cid \<Rightarrow> world \<Rightarrow> world" where
  "free_client c w = upd_cl c (\<lambda>k. k\<lparr>user := None, cl_serv := None, fludees := [], fluders := []\<rparr>) w"

definition remove_client_from_list :: "cid \<Rightarrow> world \<Rightarrow> world" where
  "remove_client_from_list c w =
     (if c \<notin> set (client_list w) \<or> client_list w = [c] then w
      else free_client c (release_client_state c (update_client_exit_stats c
             (w\<lparr>client_list := remove1 c (client_list w)\<rparr>))))"

section \<open>One client\<close>

text \<open>
  \<open>while ((lp = sptr->user->channel)) remove_user_from_channel(...)\<close>: each call unlinks the
  first channel (lemma \<open>remove_user_chans\<close>), so the loop walks the list; likewise the invitations.
\<close>

definition leave_channels :: "cid \<Rightarrow> world \<Rightarrow> world" where
  "leave_channels c w =
     (let w1 = fold (remove_user_from_channel c) (u_chans (cl w c)) w
      in fold (del_invite c) (u_invs (cl w1 c)) w1)"

definition exit_notify :: "cid option \<Rightarrow> cid \<Rightarrow> cid \<Rightarrow> cstr \<Rightarrow> world \<Rightarrow> world" where
  "exit_notify cptr sptr frm comment w =
     (let s = cl w sptr; killed = has_flag (cflags s) FLAGS_KILLED in
      if IsServer s then
        (case from_of s of
           None \<Rightarrow> w
         | Some a \<Rightarrow>
             if IsServer (cl w a) \<and> Some a \<noteq> cptr \<and> \<not> IsMe (cl w a) \<and> \<not> killed
             then sendto_one a (Fmt '':%s SQUIT %s :%s'') [Str (name (cl w frm)), Str (name s), Str comment] w
             else w)
      else if \<not> IsPerson s then w
      else if name s \<noteq> [] then
        let w1 = (if killed then w else sendto_serv_butone cptr (Fmt '':%s QUIT :%s'') [Str (name s), Str comment] w)
        in leave_channels sptr (sendto_common_channels sptr (Fmt '':%s QUIT :%s'') [Str (name s), Str comment] w1)
      else w)"

definition exit_one_client :: "cid option \<Rightarrow> cid \<Rightarrow> cid \<Rightarrow> cstr \<Rightarrow> world \<Rightarrow> world" where
  "exit_one_client cptr sptr frm comment w =
     (let w1 = unlink_from_server sptr w in
      if IsMe (cl w sptr) then sendto_ops (Fmt ''ERROR: tried to exit me! : %s'') [Str comment] w1
      else
        let w2 = exit_notify cptr sptr frm comment w1;
            w3 = w2\<lparr>client_tab := del_from_client_hash_table (name (cl w2 sptr)) sptr (client_tab w2)\<rparr>
        in remove_client_from_list sptr w3)"

section \<open>A server and what is behind it\<close>

text \<open>
  The recursion descends the tree of servers.  The first argument bounds the depth; \<open>None\<close> is
  a recursion that is too deep or the dereference of a null \<open>serv\<close>.
\<close>

fun send_quits :: "nat \<Rightarrow> cid \<Rightarrow> cid \<Rightarrow> cstr \<Rightarrow> cstr \<Rightarrow> world \<Rightarrow> world option"
  and send_quits_below :: "nat \<Rightarrow> cid list \<Rightarrow> cid \<Rightarrow> cstr \<Rightarrow> cstr \<Rightarrow> world \<Rightarrow> world option" where
  "send_quits 0 sptr to comment myname w = None"
| "send_quits (Suc n) sptr to comment myname w =
     (let s = cl w sptr;
          masked = match_irc myname (name s);
          squit = sendto_one to (Fmt ''SQUIT %s :%s'') [Str (name s), me_name w];
          below = (case cl_serv s of
             None \<Rightarrow> None
           | Some sv \<Rightarrow> send_quits_below n (sv_servers sv) to comment myname
               (fold (\<lambda>u. sendto_one to (Fmt '':%s QUIT :%s'') [Str (name (cl w u)), Str comment]) (sv_users sv) w))
      in if IsCapable (cl w to) CAP_QS then if masked then below else Some (squit w)
         else map_option (\<lambda>w1. if masked then w1 else squit w1) below)"
| "send_quits_below n [] to comment myname w = Some w"
| "send_quits_below n (a # as) to comment myname w =
     Option.bind (send_quits n a to comment myname w) (send_quits_below n as to comment myname)"

definition kill_mark :: "cid \<Rightarrow> world \<Rightarrow> world" where
  "kill_mark c w = upd_cl c (\<lambda>k. k\<lparr>cflags := cflags k OR FLAGS_KILLED\<rparr>) w"

fun remove_users :: "nat \<Rightarrow> cid \<Rightarrow> cstr \<Rightarrow> world \<Rightarrow> world option" where
  "remove_users 0 sptr comment w = None"
| "remove_users (Suc n) sptr comment w =
     (case cl_serv (cl w sptr) of None \<Rightarrow> None
      | Some sv \<Rightarrow>
          (case sv_users sv of [] \<Rightarrow> Some w
           | u # us \<Rightarrow> remove_users n sptr comment (exit_one_client None u (me w) comment (kill_mark u w))))"

fun remove_clients :: "nat \<Rightarrow> cid \<Rightarrow> cstr \<Rightarrow> world \<Rightarrow> world option"
  and remove_servers :: "nat \<Rightarrow> cid \<Rightarrow> cstr \<Rightarrow> world \<Rightarrow> world option" where
  "remove_clients 0 sptr comment w = None"
| "remove_clients (Suc n) sptr comment w =
     (if IsMe (cl w sptr) \<or> cl_serv (cl w sptr) = None then Some w
      else Option.bind (remove_servers n sptr comment w) (remove_users n sptr comment))"
| "remove_servers 0 sptr comment w = None"
| "remove_servers (Suc n) sptr comment w =
     (case cl_serv (cl w sptr) of None \<Rightarrow> None
      | Some sv \<Rightarrow>
          (case sv_servers sv of [] \<Rightarrow> Some w
           | a # as \<Rightarrow>
               Option.bind (remove_clients n a comment w) (\<lambda>w1. remove_servers n sptr comment
                 (exit_one_client None a (me w1) (name (cl w1 (me w1))) (kill_mark a w1)))))"

text \<open>
  The links that must be told one by one; \<open>sptr\<close> is still on the lists.  The loops below a
  server walk over living clients, and \<open>exit_fuel\<close> counts these twice, which is enough when
  the lists are sound (theorem \<open>exit_returns\<close>).
\<close>

definition exit_fuel :: "world \<Rightarrow> nat" where
  "exit_fuel w = 2 * length (client_list w)"

definition link_name :: "world \<Rightarrow> server \<Rightarrow> cstr" where
  "link_name w sv = take HOSTLEN
     (case sv_nline sv of None \<Rightarrow> name (cl w (me w)) | Some n \<Rightarrow> my_name_for_link (name (cl w (me w))) n)"

fun quits_to_links :: "cid option \<Rightarrow> cid \<Rightarrow> cstr \<Rightarrow> cid list \<Rightarrow> world \<Rightarrow> world option" where
  "quits_to_links cptr sptr comment [] w = Some w"
| "quits_to_links cptr sptr comment (to # ts) w =
     (if \<not> IsServer (cl w to) \<or> IsMe (cl w to) \<or> from_of (cl w sptr) = Some to \<or>
         (cptr = Some to \<and> IsCapable (cl w to) CAP_QS)
      then quits_to_links cptr sptr comment ts w
      else case cl_serv (cl w to) of None \<Rightarrow> None
      | Some sv \<Rightarrow> Option.bind (send_quits (exit_fuel w) sptr to comment (link_name w sv) w)
                     (quits_to_links cptr sptr comment ts))"

definition remove_dependents :: "cid option \<Rightarrow> cid \<Rightarrow> cstr \<Rightarrow> world \<Rightarrow> world option" where
  "remove_dependents cptr sptr comment1 w =
     Option.bind (quits_to_links cptr sptr comment1 (local_conns w) w)
       (\<lambda>w1. remove_clients (exit_fuel w1) sptr comment1 w1)"

section \<open>Any client\<close>

definition whole_kb :: "nat \<Rightarrow> nat" where
  "whole_kb b = (if b > 2047 then b div 1024 else 0)"

definition rest_kb :: "nat \<Rightarrow> nat" where
  "rest_kb b = (if b > 2047 then b mod 1024 else b)"

definition count_closed :: "client \<Rightarrow> int \<Rightarrow> server_stats \<Rightarrow> server_stats" where
  "count_closed k t s =
     (if IsServer k then
        s\<lparr>is_sv := is_sv s + 1,
          is_sks := is_sks s + sentK k + whole_kb (is_sbs s + sentB k), is_sbs := rest_kb (is_sbs s + sentB k),
          is_skr := is_skr s + recvK k + whole_kb (is_sbr s + recvB k), is_sbr := rest_kb (is_sbr s + recvB k),
          is_sti := is_sti s + t - cl_firsttime k\<rparr>
      else if IsClient k then
        s\<lparr>is_cl := is_cl s + 1,
          is_cks := is_cks s + sentK k + whole_kb (is_cbs s + sentB k), is_cbs := rest_kb (is_cbs s + sentB k),
          is_ckr := is_ckr s + recvK k + whole_kb (is_cbr s + recvB k), is_cbr := rest_kb (is_cbr s + recvB k),
          is_cti := is_cti s + t - cl_firsttime k\<rparr>
      else s\<lparr>is_ni := is_ni s + 1\<rparr>)"

definition HANGONGOODLINK :: int where "HANGONGOODLINK = 3600"
definition HANGONRETRYDELAY :: int where "HANGONRETRYDELAY = 60"

text \<open>When a lost link is tried again.\<close>

definition hold_reconnect :: "cid \<Rightarrow> world \<Rightarrow> world" where
  "hold_reconnect c w =
     (let k = cl w c in
      if IsServer k then
        (case find_conf_exact w (name k) (username k) (host k) CONF_CONNECT_SERVER of
           None \<Rightarrow> w
         | Some a \<Rightarrow>
             let h = wall_clock w + (if wall_clock w - cl_since k > HANGONGOODLINK then HANGONRETRYDELAY else ConfConFreq w a)
             in upd_conf a (\<lambda>i. i\<lparr>ci_hold := h\<rparr>) (w\<lparr>nextconnect := min (nextconnect w) h\<rparr>))
      else w)"

definition close_connection :: "cid \<Rightarrow> world \<Rightarrow> world" where
  "close_connection c w =
     (let k = cl w c;
          w1 = hold_reconnect c (w\<lparr>sstat := count_closed k (now w) (sstat w)\<rparr>);
          w2 = (if fd k > -1 then upd_cl c (\<lambda>k. k\<lparr>fd := -1\<rparr>) (w1\<lparr>local_conns := remove1 c (local_conns w1)\<rparr>) else w1)
      in upd_cl c (\<lambda>k. k\<lparr>null_from := True\<rparr>)
           (det_confs_butmask c 0 (upd_cl c (\<lambda>k. k\<lparr>sendq_len := 0, cl_passwd := []\<rparr>) w2)))"

text \<open>The part of \<open>exit_client\<close> for a local client.\<close>

definition exit_ip :: "cid \<Rightarrow> world \<Rightarrow> world" where
  "exit_ip c w =
     (if has_flag (cflags (cl w c)) FLAGS_IPHASH then
        (case remove_one_ip (foldl (\<lambda>n b. n * 256 + b) 0 (ip (cl w c))) (iptab w) of
           Some t \<Rightarrow> w\<lparr>iptab := t\<rparr>
         | None \<Rightarrow> sendto_realops (Fmt ''Please report to the hybrid team! bugs@ircd-hybrid.org'') []
             (sendto_realops (Fmt ''s_conf.c couldn't find ip# in hash table in remove_one_ip()'') [] w))
      else w)"

definition exit_lists :: "cid \<Rightarrow> world \<Rightarrow> world" where
  "exit_lists c w =
     (let k = cl w c;
          w1 = (if IsAnOper k then w\<lparr>oper_list := remove1 c (oper_list w)\<rparr> else w);
          w2 = (if IsClient k then
                  w1\<lparr>count_local := count_local w1 - 1,
                     local_list := (if IsPerson k then remove1 c (local_list w1) else local_list w1)\<rparr>
                else w1)
      in if IsServer k then w2\<lparr>count_myserver := count_myserver w2 - 1, serv_list := remove1 c (serv_list w2)\<rparr>
         else w2)"

definition exit_local :: "cid \<Rightarrow> cstr \<Rightarrow> world \<Rightarrow> world" where
  "exit_local c comment w =
     (let w1 = upd_cl c (\<lambda>k. k\<lparr>cflags := cflags k OR FLAGS_CLOSING\<rparr>) (exit_lists c (exit_ip c w));
          k = cl w1 c;
          w2 = (if IsPerson k then
                  sendto_realops_flags FLAGS_CCONN (Fmt ''Client exiting: %s (%s@%s) [%s] [%s]'')
                    [Str (name k), Str (username k), Str (host k), Str comment,
                     Str (if has_flag (flags2 k) FLAGS2_IP_SPOOFING then ''255.255.255.255'' else cl_sockhost k)] w1
                else w1);
          w3 = (if fd k \<ge> 0 then
                  sendto_one c (Fmt ''ERROR :Closing Link: %s (%s)'')
                    [Str (get_client_name k (if IsRegistered k \<and> \<not> IsServer k then SHOW_IP else MASK_IP)), Str comment] w2
                else w2)
      in close_connection c w3)"

text \<open>
  After the dependents, two walks over all clients pick up any that still come from the
  closed link; \<open>next\<close> is read before a client goes, so each walk is over the list as it was.
\<close>

definition exit_stray :: "bool \<Rightarrow> cid \<Rightarrow> cstr \<Rightarrow> cid \<Rightarrow> world \<Rightarrow> world" where
  "exit_stray srv sptr comment c w =
     (if (IsServer (cl w c) \<longleftrightarrow> srv) \<and> from_of (cl w c) = Some sptr then
        exit_one_client None c (me w) (if srv then name (cl w (me w)) else comment)
          (ts_warn (if srv then Fmt ''Dependent server %s not on llist!?'' else Fmt ''Dependent client %s not on llist!?'')
            [Str (name (cl w c))] w)
      else w)"

definition exit_strays :: "cid \<Rightarrow> cstr \<Rightarrow> world \<Rightarrow> world" where
  "exit_strays sptr comment w =
     (let w1 = fold (exit_stray False sptr comment) (client_list w) w
      in fold (exit_stray True sptr comment) (client_list w1) w1)"

definition exit_server :: "cid option \<Rightarrow> cid \<Rightarrow> world \<Rightarrow> world option" where
  "exit_server cptr sptr w =
     (let s = cl w sptr;
          up = (case cl_serv s of None \<Rightarrow> None | Some sv \<Rightarrow> sv_up sv);
          comment1 = (case up of None \<Rightarrow> ''<Unknown>'' | Some u \<Rightarrow> u) @ '' '' @ name s
      in map_option
           (\<lambda>w1. if servptr_of (cl w1 sptr) = Some (me w1) then
              exit_strays sptr comment1
                (sendto_ops (Fmt ''%s was connected for %d seconds.  %d/%d sendK/recvK.'')
                  [Str (name (cl w1 sptr)), Num (now w1 - cl_firsttime (cl w1 sptr)), Num (int (sentK (cl w1 sptr))),
                   Num (int (recvK (cl w1 sptr)))] w1)
            else w1)
           (remove_dependents cptr sptr comment1 w))"

definition exit_client :: "cid option \<Rightarrow> cid \<Rightarrow> cid \<Rightarrow> cstr \<Rightarrow> world \<Rightarrow> (int \<times> world) option" where
  "exit_client cptr sptr frm comment w =
     (let w1 = (if MyConnect (cl w sptr) then exit_local sptr comment w else w)
      in map_option (\<lambda>w2. (if cptr = Some sptr then CLIENT_EXITED else 0, exit_one_client cptr sptr frm comment w2))
           (if IsServer (cl w1 sptr) then exit_server cptr sptr w1 else Some w1))"

end
