(* ===== verification/ExitFrame.thy ===== *)
theory ExitFrame
  imports Exit ChanOps
begin

text \<open>
  What the steps of \<open>exit_one_client\<close> leave alone.  \<open>outer\<close> is the state without clients,
  channels, warnings and output; \<open>bare\<close> is a client without its channels, invitations and flood
  lists.  \<open>chan_change\<close> relates states that differ only in these, and \<open>exit_one_effect\<close> says what
  the exit of one client changes.
\<close>

definition outer :: "world \<Rightarrow> world" where
  "outer w = w\<lparr>clients := \<lambda>_. zero_client, chans := \<lambda>_. zero_channel, chan_list := [], next_chan := 0,
     chan_tab := empty_table, count_chan := 0, ts_last := 0, ts_warnings := 0, outl := []\<rparr>"

definition bare :: "client \<Rightarrow> client" where
  "bare k = k\<lparr>user := None, fludees := [], fluders := []\<rparr>"

definition chan_change :: "world \<Rightarrow> world \<Rightarrow> bool" where
  "chan_change w w' \<longleftrightarrow> outer w' = outer w \<and>
     (\<forall>d. bare (cl w' d) = bare (cl w d) \<and> (user (cl w' d) = None) = (user (cl w d) = None))"

lemma bare_simps [simp]:
  "bare (k\<lparr>user := u\<rparr>) = bare k" "bare (k\<lparr>fludees := l\<rparr>) = bare k" "bare (k\<lparr>fluders := b\<rparr>) = bare k"
  by (simp_all add: bare_def)

lemma outer_simps [simp]:
  "outer (w\<lparr>clients := c\<rparr>) = outer w" "outer (w\<lparr>chans := h\<rparr>) = outer w" "outer (w\<lparr>chan_list := l\<rparr>) = outer w"
  "outer (w\<lparr>next_chan := n\<rparr>) = outer w" "outer (w\<lparr>chan_tab := t\<rparr>) = outer w" "outer (w\<lparr>count_chan := i\<rparr>) = outer w"
  "outer (log_out os w) = outer w" "outer (w\<lparr>ts_last := i\<rparr>) = outer w" "outer (w\<lparr>ts_warnings := i\<rparr>) = outer w"
  "outer (w\<lparr>chan_tab := t, count_chan := i\<rparr>) = outer w"
  by (simp_all add: outer_def log_out_def)

lemma outer_ts_warn [simp]: "outer (ts_warn f a w) = outer w"
  by (simp add: ts_warn_def sendto_realops_def)

lemma outer_fields:
  assumes "outer w' = outer w"
  shows "client_tab w' = client_tab w" "history w' = history w" "me w' = me w" "serv_list w' = serv_list w"
    "oper_list w' = oper_list w" "local_list w' = local_list w" "client_list w' = client_list w" "now w' = now w"
    "count_server w' = count_server w" "count_total w' = count_total w" "count_oper w' = count_oper w"
    "count_invisi w' = count_invisi w" "count_local w' = count_local w" "count_myserver w' = count_myserver w"
    "local_conns w' = local_conns w" "splitdelay w' = splitdelay w" "splitnum w' = splitnum w"
    "server_was_split w' = server_was_split w" "iptab w' = iptab w" "next_client w' = next_client w"
proof -
  have "client_tab (outer v) = client_tab v \<and> history (outer v) = history v \<and> me (outer v) = me v \<and>
      serv_list (outer v) = serv_list v \<and> oper_list (outer v) = oper_list v \<and> local_list (outer v) = local_list v \<and>
      client_list (outer v) = client_list v \<and> now (outer v) = now v \<and> count_server (outer v) = count_server v \<and>
      count_total (outer v) = count_total v \<and> count_oper (outer v) = count_oper v \<and> count_invisi (outer v) = count_invisi v \<and>
      count_local (outer v) = count_local v \<and> count_myserver (outer v) = count_myserver v \<and>
      local_conns (outer v) = local_conns v \<and> splitdelay (outer v) = splitdelay v \<and> splitnum (outer v) = splitnum v \<and>
      server_was_split (outer v) = server_was_split v \<and> iptab (outer v) = iptab v \<and> next_client (outer v) = next_client v" for v
    by (simp add: outer_def)
  from this [of w] this [of w'] assms
  show "client_tab w' = client_tab w" "history w' = history w" "me w' = me w" "serv_list w' = serv_list w"
    "oper_list w' = oper_list w" "local_list w' = local_list w" "client_list w' = client_list w" "now w' = now w"
    "count_server w' = count_server w" "count_total w' = count_total w" "count_oper w' = count_oper w"
    "count_invisi w' = count_invisi w" "count_local w' = count_local w" "count_myserver w' = count_myserver w"
    "local_conns w' = local_conns w" "splitdelay w' = splitdelay w" "splitnum w' = splitnum w"
    "server_was_split w' = server_was_split w" "iptab w' = iptab w" "next_client w' = next_client w"
    by simp_all
qed

lemma bare_fields:
  assumes "bare k' = bare k"
  shows "name k' = name k" "username k' = username k" "host k' = host k" "info k' = info k" "status k' = status k" "umodes k' = umodes k"
    "cflags k' = cflags k" "flags2 k' = flags2 k" "local_flag k' = local_flag k" "fd k' = fd k" "caps k' = caps k"
    "cl_serv k' = cl_serv k" "from_of k' = from_of k" "servptr_of k' = servptr_of k" "servptr k' = servptr k"
    "IsServer k' = IsServer k" "IsMe k' = IsMe k" "IsClient k' = IsClient k" "IsAnOper k' = IsAnOper k"
    "IsInvisible k' = IsInvisible k" "MyConnect k' = MyConnect k" "cl_sockhost k' = cl_sockhost k"
proof -
  have b: "name (bare v) = name v \<and> username (bare v) = username v \<and> host (bare v) = host v \<and> info (bare v) = info v \<and> status (bare v) = status v \<and>
      umodes (bare v) = umodes v \<and> cflags (bare v) = cflags v \<and> flags2 (bare v) = flags2 v \<and> local_flag (bare v) = local_flag v \<and>
      fd (bare v) = fd v \<and> caps (bare v) = caps v \<and> cl_serv (bare v) = cl_serv v \<and> null_from (bare v) = null_from v \<and>
      cfrom (bare v) = cfrom v \<and> null_servptr (bare v) = null_servptr v \<and> servptr (bare v) = servptr v \<and>
      cl_sockhost (bare v) = cl_sockhost v" for v
    by (simp add: bare_def)
  from b [of k] b [of k'] assms
  show "name k' = name k" "username k' = username k" "host k' = host k" "info k' = info k" "status k' = status k" "umodes k' = umodes k"
    "cflags k' = cflags k" "flags2 k' = flags2 k" "local_flag k' = local_flag k" "fd k' = fd k" "caps k' = caps k"
    "cl_serv k' = cl_serv k" "from_of k' = from_of k" "servptr_of k' = servptr_of k" "servptr k' = servptr k"
    "IsServer k' = IsServer k" "IsMe k' = IsMe k" "IsClient k' = IsClient k" "IsAnOper k' = IsAnOper k"
    "IsInvisible k' = IsInvisible k" "MyConnect k' = MyConnect k" "cl_sockhost k' = cl_sockhost k"
    by (simp_all add: from_of_def servptr_of_def IsServer_def IsMe_def IsClient_def IsAnOper_def IsInvisible_def MyConnect_def)
qed

section \<open>Operations on channels\<close>

lemma change_refl [simp]: "chan_change w w"
  by (simp add: chan_change_def)

lemma change_trans [trans]: "chan_change w w1 \<Longrightarrow> chan_change w1 w2 \<Longrightarrow> chan_change w w2"
  by (simp add: chan_change_def)

lemma change_iff: "chan_change v v' \<Longrightarrow> chan_change w v' = chan_change w v"
  by (simp add: chan_change_def)

named_theorems change_simps \<open>steps that only change channels, their sides at the clients, and output\<close>

lemma change_upd_cl [change_simps]:
  "bare k = bare (cl v c) \<Longrightarrow> (user k = None) = (user (cl v c) = None) \<Longrightarrow>
    chan_change w (v\<lparr>clients := (clients v)(c := k)\<rparr>) = chan_change w v"
  by (rule change_iff) (simp add: chan_change_def)

lemma change_world [change_simps]:
  "chan_change w (v\<lparr>chans := h\<rparr>) = chan_change w v" "chan_change w (v\<lparr>chan_list := l\<rparr>) = chan_change w v"
  "chan_change w (v\<lparr>chan_tab := t\<rparr>) = chan_change w v" "chan_change w (v\<lparr>chan_tab := t, count_chan := i\<rparr>) = chan_change w v"
  "chan_change w (log_out os v) = chan_change w v" "chan_change w (ts_warn f a v) = chan_change w v"
  by (rule change_iff, simp add: chan_change_def)+

lemma change_fold: "(\<And>x v. chan_change v (f x v)) \<Longrightarrow> chan_change w (fold f xs v) = chan_change w v"
  by (induction xs arbitrary: v) (auto simp: change_iff)

lemma change_upd_user [change_simps]: "chan_change w (upd_user c f v) = chan_change w v"
  unfolding upd_user_def by (rule change_upd_cl) simp_all

lemma change_remove_fludee [change_simps]:
  "chan_change w (remove_fludee_reference c t v) = chan_change w v"
  "chan_change w (fold (\<lambda>b. remove_fludee_reference (g b) t) bs v) = chan_change w v"
  by (simp_all add: remove_fludee_reference_def change_simps change_fold)

lemma change_free_fluders [change_simps]:
  "chan_change w (free_fluders_channel x v) = chan_change w v" "chan_change w (free_fluders_client c v) = chan_change w v"
  by (simp_all add: free_fluders_channel_def free_fluders_client_def change_simps)

lemma change_free_fludees [change_simps]: "chan_change w (free_fludees c v) = chan_change w v"
proof -
  have "chan_change u (free_fludee c t u)" for t u
    by (cases t) (simp_all add: free_fludee_def sendto_realops_def change_simps)
  then show ?thesis unfolding free_fludees_def by (rule change_fold)
qed

lemma change_invites [change_simps]:
  "chan_change w (del_invite c x v) = chan_change w v" "chan_change w (del_all_invites x v) = chan_change w v"
  by (simp_all add: del_invite_def del_all_invites_def change_simps change_fold)

lemma change_bans [change_simps]: "chan_change w (free_bans_exceptions_denies x v) = chan_change w v"
  by (simp add: free_bans_exceptions_denies_def change_simps)

lemma change_leave [change_simps]: "chan_change w (remove_user_from_channel c x v) = chan_change w v"
  by (simp add: remove_user_from_channel_def sub1_from_channel_def free_channel_def Let_def change_simps)

lemma change_leave_channels [change_simps]: "chan_change w (leave_channels c v) = chan_change w v"
  by (simp add: leave_channels_def Let_def change_fold change_simps)

lemma change_notify: "chan_change w (exit_notify cptr c frm cm w)"
  by (simp add: exit_notify_def Let_def send_defs change_simps split: option.split)

section \<open>Leaving every channel\<close>

lemma fold_leave:
  "chan_inv w \<Longrightarrow> u_chans (cl w c) = xs \<Longrightarrow>
     chan_inv (fold (remove_user_from_channel c) xs w) \<and> u_chans (cl (fold (remove_user_from_channel c) xs w) c) = []"
proof (induction xs arbitrary: w)
  case (Cons x xs)
  have "IsMember w c x" using Cons.prems(2) by (simp add: IsMember_def)
  then have "chan_inv (remove_user_from_channel c x w)" using Cons.prems(1) by (simp add: remove_user_inv)
  then show ?case using Cons.IH [of "remove_user_from_channel c x w"] Cons.prems(2) by (simp add: remove_user_chans)
qed simp

lemma fold_uninvite:
  "chan_inv w \<Longrightarrow> u_invs (cl w c) = xs \<Longrightarrow>
     chan_inv (fold (del_invite c) xs w) \<and> u_invs (cl (fold (del_invite c) xs w) c) = [] \<and>
     u_chans (cl (fold (del_invite c) xs w) c) = u_chans (cl w c)"
proof (induction xs arbitrary: w)
  case (Cons x xs)
  then show ?case using Cons.IH [of "del_invite c x w"] by (simp add: del_invite_inv)
qed simp

lemma leave_channels_ok:
  assumes "chan_inv w"
  shows "chan_inv (leave_channels c w)" "u_chans (cl (leave_channels c w) c) = []" "u_invs (cl (leave_channels c w) c) = []"
  using fold_leave [OF assms, of c] fold_uninvite [of "fold (remove_user_from_channel c) (u_chans (cl w c)) w" c]
  by (simp_all add: leave_channels_def Let_def)

lemma log_out_log_out [simp]: "log_out ps (log_out os w) = log_out (os @ ps) w"
  by (simp add: log_out_def)

lemma log_out_Nil: "log_out [] w = w"
  by (simp add: log_out_def)

lemma exit_notify_cases:
  obtains (logged) os where "exit_notify cptr c frm cm w = log_out os w" "\<not> (\<not> IsServer (cl w c) \<and> IsPerson (cl w c) \<and> name (cl w c) \<noteq> [])"
  | (left_all) os where "exit_notify cptr c frm cm w = leave_channels c (log_out os w)"
proof (cases "\<not> IsServer (cl w c) \<and> IsPerson (cl w c) \<and> name (cl w c) \<noteq> []")
  case True
  then show ?thesis
    by (cases "has_flag (cflags (cl w c)) FLAGS_KILLED") (auto simp: exit_notify_def Let_def send_defs intro!: left_all)
next
  case False
  have "\<exists>os. exit_notify cptr c frm cm w = log_out os w"
    using False log_out_Nil [of w, symmetric] by (auto simp: exit_notify_def Let_def send_defs split: option.split)
  then show ?thesis using False logged by blast
qed

lemma exit_notify_ok:
  assumes "chan_inv w" "u_chans (cl w c) \<noteq> [] \<or> u_invs (cl w c) \<noteq> [] \<Longrightarrow> \<not> IsServer (cl w c) \<and> IsPerson (cl w c) \<and> name (cl w c) \<noteq> []"
  shows "chan_inv (exit_notify cptr c frm cm w) \<and> u_chans (cl (exit_notify cptr c frm cm w) c) = [] \<and>
    u_invs (cl (exit_notify cptr c frm cm w) c) = []"
proof (cases rule: exit_notify_cases [of cptr c frm cm w])
  case logged
  then show ?thesis using assms by auto
next
  case left_all
  then show ?thesis using assms(1) by (auto simp: leave_channels_ok)
qed

section \<open>The other steps\<close>

lemma unlink_outer [simp]: "outer (unlink_from_server c w) = outer w" "chans (unlink_from_server c w) = chans w"
  by (simp_all add: unlink_from_server_def upd_serv_def Let_def)

lemma unlink_chan_inv: "chan_inv w \<Longrightarrow> chan_inv (unlink_from_server c w)"
  by (simp add: unlink_from_server_def upd_serv_def Let_def chan_inv_upd_cl)

definition unlinked :: "bool \<Rightarrow> cid \<Rightarrow> server \<Rightarrow> server" where
  "unlinked srv c s = (if srv then s\<lparr>sv_servers := remove1 c (sv_servers s)\<rparr>
     else s\<lparr>sv_users := remove1 c (sv_users s), sv_usercnt := sv_usercnt s - 1\<rparr>)"

lemma same_serv: "k\<lparr>cl_serv := cl_serv k\<rparr> = (k :: client)"
  by simp

lemma upd_serv_cl: "cl (upd_serv p f w) d = (cl w d)\<lparr>cl_serv := (if d = p then map_option f (cl_serv (cl w d)) else cl_serv (cl w d))\<rparr>"
  by (cases "d = p") (simp_all add: upd_serv_def same_serv)

lemma unlink_cl:
  "cl (unlink_from_server c w) d = (cl w d)\<lparr>cl_serv :=
     (if servptr_of (cl w c) = Some d then map_option (unlinked (IsServer (cl w c)) c) (cl_serv (cl w d)) else cl_serv (cl w d))\<rparr>"
proof (cases "servptr_of (cl w c)")
  case None
  then show ?thesis by (simp add: unlink_from_server_def Let_def has_serv_def same_serv)
next
  case (Some p)
  show ?thesis
  proof (cases "cl_serv (cl w p)")
    case None
    then have "cl (unlink_from_server c w) d = cl w d" using Some by (simp add: unlink_from_server_def Let_def has_serv_def)
    then show ?thesis using Some None by (cases "d = p") (simp_all add: same_serv)
  next
    case sv: (Some sv)
    have "unlink_from_server c w = upd_serv p (unlinked (IsServer (cl w c)) c) w"
      using Some sv by (simp add: unlink_from_server_def Let_def has_serv_def unlinked_def [abs_def])
    then show ?thesis using Some by (simp add: upd_serv_cl)
  qed
qed

lemma stats_simps [simp]:
  "clients (update_client_exit_stats c w) = clients w" "chans (update_client_exit_stats c w) = chans w"
  "client_tab (update_client_exit_stats c w) = client_tab w" "history (update_client_exit_stats c w) = history w"
  "me (update_client_exit_stats c w) = me w" "now (update_client_exit_stats c w) = now w"
  "serv_list (update_client_exit_stats c w) = serv_list w" "oper_list (update_client_exit_stats c w) = oper_list w"
  "local_list (update_client_exit_stats c w) = local_list w" "client_list (update_client_exit_stats c w) = client_list w"
  "local_conns (update_client_exit_stats c w) = local_conns w" "iptab (update_client_exit_stats c w) = iptab w"
  "count_local (update_client_exit_stats c w) = count_local w" "count_myserver (update_client_exit_stats c w) = count_myserver w"
  "count_server (update_client_exit_stats c w) = count_server w - (if IsServer (cl w c) then 1 else 0)"
  "count_total (update_client_exit_stats c w) = count_total w - (if IsClient (cl w c) then 1 else 0)"
  "count_oper (update_client_exit_stats c w) = count_oper w - (if IsClient (cl w c) \<and> IsAnOper (cl w c) then 1 else 0)"
  "count_invisi (update_client_exit_stats c w) = count_invisi w - (if IsClient (cl w c) \<and> IsInvisible (cl w c) then 1 else 0)"
  by (simp_all add: update_client_exit_stats_def Let_def send_defs IsServer_def IsClient_def STAT_SERVER_def STAT_CLIENT_def)

lemma stats_chan_inv [simp]: "chan_inv (update_client_exit_stats c w) = chan_inv w"
  by (simp add: update_client_exit_stats_def Let_def send_defs chan_inv_def inv_defs)

lemma change_free_user [change_simps]: "chan_change w (free_user c v) = chan_change w v"
  by (simp add: free_user_def sendto_realops_def change_simps split: option.split)

definition exit_history :: "cid \<Rightarrow> world \<Rightarrow> whowas_db" where
  "exit_history c w = (if IsPerson (cl w c)
     then off_history (add_history (now w) (history w) c (whowas_of (cl w c)) False) c else history w)"

lemma IsPerson_user: "IsPerson k \<Longrightarrow> user k \<noteq> None"
  by (simp add: IsPerson_def)

lemma release_change: "chan_change (w\<lparr>history := exit_history c w\<rparr>) (release_client_state c w)"
  by (auto simp: release_client_state_def Let_def change_simps exit_history_def IsPerson_def)

section \<open>One client goes\<close>

definition exit_mid :: "cid option \<Rightarrow> cid \<Rightarrow> cid \<Rightarrow> cstr \<Rightarrow> world \<Rightarrow> world" where
  "exit_mid cptr c frm cm w = exit_notify cptr c frm cm (unlink_from_server c w)"

lemma exit_mid_outer: "outer (exit_mid cptr c frm cm w) = outer w"
  using change_notify [of "unlink_from_server c w" cptr c frm cm] by (simp add: exit_mid_def chan_change_def)

lemma exit_mid_bare: "bare (cl (exit_mid cptr c frm cm w) d) = bare (cl (unlink_from_server c w) d)"
  "(user (cl (exit_mid cptr c frm cm w) d) = None) = (user (cl w d) = None)"
  using change_notify [of "unlink_from_server c w" cptr c frm cm] by (simp_all add: exit_mid_def chan_change_def unlink_cl)

lemma cl_serv_fields [simp]:
  "name (k\<lparr>cl_serv := s\<rparr>) = name k" "IsServer (k\<lparr>cl_serv := s\<rparr>) = IsServer k" "IsClient (k\<lparr>cl_serv := s\<rparr>) = IsClient k"
  "IsMe (k\<lparr>cl_serv := s\<rparr>) = IsMe k" "MyConnect (k\<lparr>cl_serv := s\<rparr>) = MyConnect k" "IsAnOper (k\<lparr>cl_serv := s\<rparr>) = IsAnOper k"
  "IsInvisible (k\<lparr>cl_serv := s\<rparr>) = IsInvisible k" "servptr_of (k\<lparr>cl_serv := s\<rparr>) = servptr_of k" "IsPerson (k\<lparr>cl_serv := s\<rparr>) = IsPerson k"
  "from_of (k\<lparr>cl_serv := s\<rparr>) = from_of k" "user (k\<lparr>cl_serv := s\<rparr>) = user k"
  by (simp_all add: IsServer_def IsClient_def IsMe_def MyConnect_def IsAnOper_def IsInvisible_def servptr_of_def IsPerson_def from_of_def)

lemma IsPerson_bare: "bare k' = bare k \<Longrightarrow> (user k' = None) = (user k = None) \<Longrightarrow> IsPerson k' = IsPerson k"
  by (drule bare_fields(18)) (simp add: IsPerson_def)

lemma exit_mid_fields:
  "name (cl (exit_mid cptr c frm cm w) d) = name (cl w d)"
  "IsServer (cl (exit_mid cptr c frm cm w) d) = IsServer (cl w d)" "IsClient (cl (exit_mid cptr c frm cm w) d) = IsClient (cl w d)"
  "IsPerson (cl (exit_mid cptr c frm cm w) d) = IsPerson (cl w d)"
  "IsAnOper (cl (exit_mid cptr c frm cm w) d) = IsAnOper (cl w d)" "IsInvisible (cl (exit_mid cptr c frm cm w) d) = IsInvisible (cl w d)"
proof -
  note b = exit_mid_bare(1) [of cptr c frm cm w d, unfolded unlink_cl]
  show "name (cl (exit_mid cptr c frm cm w) d) = name (cl w d)" using bare_fields(1) [OF b] by simp
  show "IsServer (cl (exit_mid cptr c frm cm w) d) = IsServer (cl w d)" using bare_fields(16) [OF b] by simp
  show "IsClient (cl (exit_mid cptr c frm cm w) d) = IsClient (cl w d)" using bare_fields(18) [OF b] by simp
  show "IsAnOper (cl (exit_mid cptr c frm cm w) d) = IsAnOper (cl w d)" using bare_fields(19) [OF b] by simp
  show "IsInvisible (cl (exit_mid cptr c frm cm w) d) = IsInvisible (cl w d)" using bare_fields(20) [OF b] by simp
  show "IsPerson (cl (exit_mid cptr c frm cm w) d) = IsPerson (cl w d)"
    using IsPerson_bare [OF b] exit_mid_bare(2) [of cptr c frm cm w d] by simp
qed

lemma upd_cl_bare: "bare (cl (upd_cl c f w) d) = (if d = c then bare (f (cl w c)) else bare (cl w d))"
  by simp

lemma exit_one_eq:
  fixes cptr :: "cid option" and c frm :: cid and cm :: cstr and w :: world
  assumes "\<not> IsMe (cl w c)" "c \<in> set (client_list w)" "client_list w \<noteq> [c]"
  defines "v \<equiv> exit_mid cptr c frm cm w"
  defines "u \<equiv> v\<lparr>client_tab := del_from_client_hash_table (name (cl w c)) c (client_tab w), client_list := remove1 c (client_list w)\<rparr>"
  shows "exit_one_client cptr c frm cm w = free_client c (release_client_state c (update_client_exit_stats c u))"
  using assms(1-3) outer_fields [OF exit_mid_outer [of cptr c frm cm w]] exit_mid_fields(1) [of cptr c frm cm w c]
  by (simp add: exit_one_client_def Let_def u_def v_def exit_mid_def remove_client_from_list_def)

lemma exit_history_cong:
  "history w' = history w \<Longrightarrow> now w' = now w \<Longrightarrow> IsPerson (cl w' c) = IsPerson (cl w c) \<Longrightarrow>
     \<exists>src. exit_history c w' = (if IsPerson (cl w c) then off_history (add_history (now w) (history w) c src False) c else history w)"
  by (auto simp: exit_history_def)

lemma exit_one_effect:
  fixes cptr :: "cid option" and c frm :: cid and cm :: cstr and w :: world
  assumes "\<not> IsMe (cl w c)" "c \<in> set (client_list w)" "client_list w \<noteq> [c]"
  defines "w' \<equiv> exit_one_client cptr c frm cm w"
  shows "client_list w' = remove1 c (client_list w)"
    and "\<And>d. d \<noteq> c \<Longrightarrow> bare (cl w' d) = bare (cl (unlink_from_server c w) d)"
    and "\<And>d. d \<noteq> c \<Longrightarrow> (user (cl w' d) = None) = (user (cl w d) = None)"
    and "user (cl w' c) = None" "cl_serv (cl w' c) = None" "name (cl w' c) = name (cl w c)"
    and "client_tab w' = del_from_client_hash_table (name (cl w c)) c (client_tab w)"
    and "\<exists>src. history w' = (if IsPerson (cl w c) then off_history (add_history (now w) (history w) c src False) c else history w)"
    and "oper_list w' = oper_list w" "local_list w' = local_list w" "serv_list w' = serv_list w" "me w' = me w" "now w' = now w"
      "local_conns w' = local_conns w" "count_local w' = count_local w" "count_myserver w' = count_myserver w" "iptab w' = iptab w"
    and "count_server w' = count_server w - (if IsServer (cl w c) then 1 else 0)"
    and "count_total w' = count_total w - (if IsClient (cl w c) then 1 else 0)"
    and "count_oper w' = count_oper w - (if IsClient (cl w c) \<and> IsAnOper (cl w c) then 1 else 0)"
    and "count_invisi w' = count_invisi w - (if IsClient (cl w c) \<and> IsInvisible (cl w c) then 1 else 0)"
proof -
  define v where "v = exit_mid cptr c frm cm w"
  define u where "u = update_client_exit_stats c (v\<lparr>client_tab := del_from_client_hash_table (name (cl w c)) c (client_tab w),
    client_list := remove1 c (client_list w)\<rparr>)"
  define r where "r = release_client_state c u"
  have w': "w' = free_client c r"
    unfolding w'_def r_def u_def v_def by (rule exit_one_eq [OF assms(1-3)])
  note o = outer_fields [OF exit_mid_outer [of cptr c frm cm w], folded v_def]
  note f = exit_mid_fields [of cptr c frm cm w, folded v_def]
  have rc: "outer r = outer (u\<lparr>history := exit_history c u\<rparr>)" "bare (cl r d) = bare (cl u d)" "(user (cl r d) = None) = (user (cl u d) = None)" for d
    using release_change [where w = u and c = c] by (simp_all add: chan_change_def r_def)
  note ro = outer_fields [OF rc(1)]
  have b: "bare (cl v d) = bare (cl (unlink_from_server c w) d)" "(user (cl v d) = None) = (user (cl w d) = None)" for d
    using exit_mid_bare [of cptr c frm cm w d] by (simp_all add: v_def)
  show "client_list w' = remove1 c (client_list w)" by (simp add: w' free_client_def ro u_def)
  show "bare (cl w' d) = bare (cl (unlink_from_server c w) d)" if "d \<noteq> c" for d
    using that by (simp add: w' free_client_def rc u_def b)
  show "(user (cl w' d) = None) = (user (cl w d) = None)" if "d \<noteq> c" for d
    using that by (simp add: w' free_client_def rc u_def b)
  show "user (cl w' c) = None" "cl_serv (cl w' c) = None" by (simp_all add: w' free_client_def)
  show "name (cl w' c) = name (cl w c)" using bare_fields(1) [OF rc(2) [of c]] by (simp add: w' free_client_def u_def f)
  show "client_tab w' = del_from_client_hash_table (name (cl w c)) c (client_tab w)" by (simp add: w' free_client_def ro u_def)
  show "\<exists>src. history w' = (if IsPerson (cl w c) then off_history (add_history (now w) (history w) c src False) c else history w)"
    using exit_history_cong [where w' = u and w = w and c = c] by (simp add: w' free_client_def ro u_def o f)
  show "oper_list w' = oper_list w" "local_list w' = local_list w" "serv_list w' = serv_list w" "me w' = me w" "now w' = now w"
      "local_conns w' = local_conns w" "count_local w' = count_local w" "count_myserver w' = count_myserver w" "iptab w' = iptab w"
      "count_server w' = count_server w - (if IsServer (cl w c) then 1 else 0)"
      "count_total w' = count_total w - (if IsClient (cl w c) then 1 else 0)"
      "count_oper w' = count_oper w - (if IsClient (cl w c) \<and> IsAnOper (cl w c) then 1 else 0)"
      "count_invisi w' = count_invisi w - (if IsClient (cl w c) \<and> IsInvisible (cl w c) then 1 else 0)"
    by (simp_all add: w' free_client_def ro u_def o f)
qed

lemma chan_inv_fold: "(\<And>x v. chan_inv v \<Longrightarrow> chan_inv (f x v)) \<Longrightarrow> chan_inv w \<Longrightarrow> chan_inv (fold f xs w)"
  by (induction xs arbitrary: w) auto

lemma chan_inv_fludees: "chan_inv w \<Longrightarrow> chan_inv (free_fludees c w)"
proof -
  have "chan_inv (free_fludee c t v)" if "chan_inv v" for t v
    using that by (cases t) (simp_all add: free_fludee_def sendto_realops_def chan_inv_upd_cl chan_inv_upd_ch bed_count_def)
  then show "chan_inv w \<Longrightarrow> chan_inv (free_fludees c w)" unfolding free_fludees_def by (rule chan_inv_fold)
qed

lemma chan_inv_fluders: "chan_inv w \<Longrightarrow> chan_inv (free_fluders_client c w)"
  unfolding free_fluders_client_def
  by (auto intro!: chan_inv_fold simp: remove_fludee_reference_def chan_inv_upd_cl)

lemma chan_inv_release: "chan_inv w \<Longrightarrow> chan_inv (release_client_state c w)"
proof -
  assume "chan_inv w"
  then have "chan_inv (w\<lparr>history := h\<rparr>)" for h by (simp add: chan_inv_def inv_defs)
  then have "chan_inv (free_user c (w\<lparr>history := h\<rparr>))" "chan_inv (free_user c w)" for h
    using \<open>chan_inv w\<close> by (simp_all add: free_user_def sendto_realops_def split: option.split)
  then show ?thesis
    using \<open>chan_inv w\<close> by (simp add: release_client_state_def Let_def chan_inv_fludees chan_inv_fluders)
qed

lemma chan_inv_free_client:
  assumes "chan_inv w" "u_chans (cl w c) = []" "u_invs (cl w c) = []"
  shows "chan_inv (free_client c w)"
  unfolding free_client_def
  by (rule chan_inv_cong [OF _ _ _ _ _ _ _ _ _ _ _ _ assms(1)])
    (use assms chan_inv_joined [OF assms(1)] in \<open>auto simp: u_chans_def u_invs_def split: if_splits\<close>)

lemma user_sides_release:
  "u_chans (cl (release_client_state c w) d) = u_chans (cl w d)" "u_invs (cl (release_client_state c w) d) = u_invs (cl w d)"
proof -
  have rf: "user (cl (remove_fludee_reference a t v) d) = user (cl v d)" for a t v by (simp add: remove_fludee_reference_def)
  have ff: "user (cl (free_fludee a t v) d) = user (cl v d)" for a t v by (cases t) (simp_all add: free_fludee_def sendto_realops_def)
  have fold_user: "user (cl (fold f xs v) d) = user (cl v d)" if "\<And>x v. user (cl (f x v) d) = user (cl v d)" for f :: "'x \<Rightarrow> world \<Rightarrow> world" and xs v
    using that by (induction xs arbitrary: v) simp_all
  have "user (cl (release_client_state c w) d) = user (cl w d)"
    by (simp add: release_client_state_def Let_def free_fludees_def free_fluders_client_def fold_user rf ff free_user_def sendto_realops_def
        split: option.split)
  then show "u_chans (cl (release_client_state c w) d) = u_chans (cl w d)" "u_invs (cl (release_client_state c w) d) = u_invs (cl w d)"
    by (simp_all add: u_chans_def u_invs_def)
qed

lemma exit_one_chan_inv:
  assumes "\<not> IsMe (cl w c)" "c \<in> set (client_list w)" "client_list w \<noteq> [c]" "chan_inv w"
    "u_chans (cl w c) \<noteq> [] \<or> u_invs (cl w c) \<noteq> [] \<Longrightarrow> \<not> IsServer (cl w c) \<and> IsPerson (cl w c) \<and> name (cl w c) \<noteq> []"
  shows "chan_inv (exit_one_client cptr c frm cm w)"
proof -
  define v where "v = exit_mid cptr c frm cm w"
  define u where "u = v\<lparr>client_tab := del_from_client_hash_table (name (cl w c)) c (client_tab w), client_list := remove1 c (client_list w)\<rparr>"
  have side: "u_chans (cl (unlink_from_server c w) d) = u_chans (cl w d)" "u_invs (cl (unlink_from_server c w) d) = u_invs (cl w d)" for d
    by (simp_all add: unlink_cl u_chans_def u_invs_def)
  have m: "chan_inv v \<and> u_chans (cl v c) = [] \<and> u_invs (cl v c) = []"
    unfolding v_def exit_mid_def
    by (rule exit_notify_ok [OF unlink_chan_inv [OF assms(4)]]) (use assms(5) side in \<open>auto simp: unlink_cl\<close>)
  have u: "chan_inv u" using m by (simp add: u_def chan_inv_def inv_defs)
  have "chan_inv (release_client_state c (update_client_exit_stats c u))" using u by (simp add: chan_inv_release)
  then show ?thesis
    unfolding exit_one_eq [OF assms(1-3), of cptr frm cm, folded v_def, folded u_def]
    by (rule chan_inv_free_client) (use m in \<open>simp_all add: user_sides_release u_def\<close>)
qed

text \<open>No step puts a client on a channel or on an invitation list.\<close>

definition fewer :: "world \<Rightarrow> world \<Rightarrow> bool" where
  "fewer w w' \<longleftrightarrow> (\<forall>d. set (u_chans (cl w' d)) \<subseteq> set (u_chans (cl w d)) \<and> set (u_invs (cl w' d)) \<subseteq> set (u_invs (cl w d)))"

lemma fewer_refl: "fewer w w"
  by (simp add: fewer_def)

lemma fewer_trans: "fewer u v \<Longrightarrow> fewer v w \<Longrightarrow> fewer u w"
  unfolding fewer_def by blast

lemma fewer_fold: "(\<And>x v. fewer v (f x v)) \<Longrightarrow> fewer w (fold f xs w)"
  by (induction xs arbitrary: w) (auto simp: fewer_refl intro: fewer_trans)

lemma fewer_same: "(\<And>d. user (cl w' d) = user (cl w d)) \<Longrightarrow> fewer w w'"
  by (simp add: fewer_def u_chans_def u_invs_def)

lemma fewer_sides: "(\<And>d. u_chans (cl w' d) = u_chans (cl w d)) \<Longrightarrow> (\<And>d. u_invs (cl w' d) = u_invs (cl w d)) \<Longrightarrow> fewer w w'"
  by (simp add: fewer_def)

lemma fewer_uninvite: "fewer w (del_invite c x w)" "fewer w (del_all_invites x w)"
proof -
  show u: "fewer w (del_invite c x w)" for w c using set_remove1_subset by (fastforce simp: fewer_def)
  show "fewer w (del_all_invites x w)" unfolding del_all_invites_def by (rule fewer_fold) (rule u)
qed

lemma fewer_sub1: "fewer w (sub1_from_channel x w)"
proof -
  have "fewer w (free_fluders_channel x (del_all_invites x (w\<lparr>chans := h\<rparr>)))" for h
    by (rule fewer_trans [OF fewer_trans [OF fewer_same [of "w\<lparr>chans := h\<rparr>"] fewer_uninvite(2)] fewer_sides]) simp_all
  moreover have "fewer w (free_channel x (w\<lparr>chans := h\<rparr>))" for h
    by (rule fewer_trans [OF fewer_trans [OF fewer_same [of "w\<lparr>chans := h\<rparr>"] fewer_uninvite(2)] fewer_sides])
      (simp_all add: free_channel_def Let_def free_bans_exceptions_denies_def)
  moreover have "fewer w (w\<lparr>chans := h\<rparr>)" for h by (rule fewer_same) simp
  ultimately show ?thesis by (simp add: sub1_from_channel_def Let_def)
qed

lemma fewer_upd_user:
  assumes "\<And>u. set (u_channel (f u)) \<subseteq> set (u_channel u)" "\<And>u. set (u_invited (f u)) \<subseteq> set (u_invited u)"
  shows "fewer w (upd_user c f w)"
  using assms by (cases "user (cl w c)") (auto simp: fewer_def upd_user_def u_chans_def u_invs_def)

lemma fewer_leave: "fewer w (remove_user_from_channel c x w)"
proof -
  have "fewer v (upd_user c (\<lambda>u. u\<lparr>u_channel := remove1 x (u_channel u), u_joined := u_joined u - 1\<rparr>) v)" for v
    by (rule fewer_upd_user) (simp_all add: set_remove1_subset)
  moreover have "fewer w (w\<lparr>chans := h\<rparr>)" for h by (rule fewer_same) simp
  ultimately show ?thesis
    unfolding remove_user_from_channel_def by (meson fewer_trans fewer_sub1)
qed

lemma fewer_leave_channels: "fewer w (leave_channels c w)"
  unfolding leave_channels_def Let_def
  by (rule fewer_trans [OF fewer_fold fewer_fold]) (rule fewer_leave fewer_uninvite)+

lemma fewer_exit_one:
  assumes "\<not> IsMe (cl w c)" "c \<in> set (client_list w)" "client_list w \<noteq> [c]"
  shows "fewer w (exit_one_client cptr c frm cm w)"
proof -
  have 1: "fewer w (unlink_from_server c w)" by (rule fewer_same) (simp add: unlink_cl)
  have 2: "fewer v (exit_notify cptr c frm cm v)" for v
  proof (cases rule: exit_notify_cases [of cptr c frm cm v])
    case (logged os)
    have "fewer v (log_out os v)" by (rule fewer_same) simp
    then show ?thesis using logged(1) by simp
  next
    case (left_all os)
    have "fewer v (log_out os v)" by (rule fewer_same) simp
    then show ?thesis using left_all fewer_trans [OF _ fewer_leave_channels] by simp
  qed
  have 3: "fewer v (free_client c (release_client_state c (update_client_exit_stats c (v\<lparr>client_tab := t, client_list := l\<rparr>))))" for v t l
    by (simp add: fewer_def free_client_def user_sides_release) (simp add: u_chans_def u_invs_def)
  show ?thesis
    unfolding exit_one_eq [OF assms] exit_mid_def by (rule fewer_trans [OF fewer_trans [OF 1 2] 3])
qed

end
