(* ===== verification/ExitInv.thy ===== *)
theory ExitInv
  imports ExitFrame
begin

text \<open>
  What the lists of clients mean.  \<open>hangs w c p\<close> says that \<open>c\<close> is alive and was introduced below
  \<open>p\<close>; \<open>tree_ok\<close> that these links form a tree rooted at this server and that the lists of each
  server in it name exactly what hangs there; \<open>net_inv X\<close> adds the channels, the name table,
  the history, the other lists and the counters, where \<open>X\<close> is taken off the lists of local
  clients already.
\<close>

section \<open>The invariant\<close>

abbreviation living :: "world \<Rightarrow> cid set" where "living w \<equiv> set (client_list w)"

definition hangs :: "world \<Rightarrow> cid \<Rightarrow> cid \<Rightarrow> bool" where
  "hangs w c p \<longleftrightarrow> c \<in> living w \<and> c \<noteq> me w \<and> servptr_of (cl w c) = Some p"

definition sv_holds :: "world \<Rightarrow> cid \<Rightarrow> server \<Rightarrow> bool" where
  "sv_holds w p sv \<longleftrightarrow>
     distinct (sv_servers sv) \<and> set (sv_servers sv) = {c. hangs w c p \<and> IsServer (cl w c)} \<and>
     distinct (sv_users sv) \<and> set (sv_users sv) = {c. hangs w c p \<and> \<not> IsServer (cl w c)} \<and>
     sv_usercnt sv = int (length (sv_users sv))"

definition roots_ok :: "world \<Rightarrow> bool" where
  "roots_ok w \<longleftrightarrow>
     distinct (client_list w) \<and> me w \<in> living w \<and> (\<forall>c \<in> living w. IsMe (cl w c) = (c = me w)) \<and>
     (\<forall>c \<in> living w. IsServer (cl w c) \<longrightarrow> servptr_of (cl w c) \<noteq> None)"

definition links_ok :: "world \<Rightarrow> bool" where
  "links_ok w \<longleftrightarrow>
     (\<forall>c p. hangs w c p \<longrightarrow>
        p \<in> living w \<and> (IsServer (cl w p) \<or> p = me w) \<and>
        (p \<noteq> me w \<longrightarrow> \<not> MyConnect (cl w c)) \<and> (p = me w \<longrightarrow> IsServer (cl w c) \<longrightarrow> MyConnect (cl w c))) \<and>
     (\<exists>rank :: cid \<Rightarrow> nat. \<forall>c p. hangs w c p \<longrightarrow> rank p < rank c)"

definition servs_ok :: "world \<Rightarrow> bool" where
  "servs_ok w \<longleftrightarrow>
     (\<forall>p \<in> living w. (IsServer (cl w p) \<or> p = me w \<longrightarrow> cl_serv (cl w p) \<noteq> None) \<and>
        (\<forall>sv. cl_serv (cl w p) = Some sv \<longrightarrow> sv_holds w p sv))"

definition froms_ok :: "world \<Rightarrow> bool" where
  "froms_ok w \<longleftrightarrow> (\<forall>c \<in> living w. \<forall>a. from_of (cl w c) = Some a \<longrightarrow> (hangs w)\<^sup>*\<^sup>* c a)"

definition people_ok :: "world \<Rightarrow> bool" where
  "people_ok w \<longleftrightarrow>
     (\<forall>c. c \<notin> living w \<longrightarrow> user (cl w c) = None) \<and>
     (\<forall>c. u_chans (cl w c) \<noteq> [] \<or> u_invs (cl w c) \<noteq> [] \<longrightarrow> \<not> IsServer (cl w c) \<and> IsPerson (cl w c) \<and> name (cl w c) \<noteq> [])"

definition nicks_ok :: "world \<Rightarrow> bool" where
  "nicks_ok w \<longleftrightarrow> (\<exists>S \<subseteq> living w.
     tab_ok hash_nick_name (\<lambda>c. name (cl w c)) S (client_tab w) \<and> names_ok (\<lambda>c. name (cl w c)) S)"

definition past_ok :: "world \<Rightarrow> bool" where
  "past_ok w \<longleftrightarrow> whowas_ok (history w) \<and>
     (\<forall>i c. ww_online (WHOWAS (history w) i) = Some c \<longrightarrow> c \<in> living w \<and> IsPerson (cl w c))"

definition local_set :: "cid set \<Rightarrow> world \<Rightarrow> (client \<Rightarrow> bool) \<Rightarrow> cid set" where
  "local_set X w P = {c \<in> living w - X. MyConnect (cl w c) \<and> P (cl w c)}"

definition locals_ok :: "cid set \<Rightarrow> world \<Rightarrow> bool" where
  "locals_ok X w \<longleftrightarrow>
     distinct (serv_list w) \<and> set (serv_list w) = local_set X w IsServer \<and>
     distinct (oper_list w) \<and> set (oper_list w) = local_set X w IsAnOper \<and>
     distinct (local_list w) \<and> set (local_list w) = local_set X w IsPerson \<and>
     distinct (local_conns w) \<and> set (local_conns w) = local_set X w (\<lambda>k. fd k > -1) \<and>
     count_local w = int (card (local_set X w IsClient)) \<and> count_myserver w = int (card (local_set X w IsServer))"

definition totals_ok :: "world \<Rightarrow> bool" where
  "totals_ok w \<longleftrightarrow>
     (let num = (\<lambda>P. int (card {c \<in> living w. P (cl w c)})) in
      count_server w = num IsServer + 1 \<and> count_total w = num IsClient \<and>
      count_oper w = num (\<lambda>k. IsClient k \<and> IsAnOper k) \<and> count_invisi w = num (\<lambda>k. IsClient k \<and> IsInvisible k))"

definition net_inv :: "cid set \<Rightarrow> world \<Rightarrow> bool" where
  "net_inv X w \<longleftrightarrow> roots_ok w \<and> links_ok w \<and> servs_ok w \<and> froms_ok w \<and> people_ok w \<and> nicks_ok w \<and> past_ok w \<and>
     locals_ok X w \<and> totals_ok w \<and> chan_inv w"

section \<open>States that differ by clients that left\<close>

definition core :: "client \<Rightarrow> cstr \<times> flags \<times> flags \<times> bool \<times> int \<times> cid option \<times> cid option \<times> bool" where
  "core k = (name k, status k, umodes k, local_flag k, fd k, from_of k, servptr_of k, user k = None)"

lemma core_fields:
  assumes "core k' = core k"
  shows "name k' = name k" "from_of k' = from_of k" "servptr_of k' = servptr_of k" "fd k' = fd k" "IsServer k' = IsServer k"
    "IsMe k' = IsMe k" "IsClient k' = IsClient k" "IsAnOper k' = IsAnOper k" "IsInvisible k' = IsInvisible k"
    "IsPerson k' = IsPerson k" "MyConnect k' = MyConnect k"
  using assms
  by (simp_all add: core_def IsServer_def IsMe_def IsClient_def IsAnOper_def IsInvisible_def IsPerson_def MyConnect_def)

lemma core_bare:
  assumes "bare k' = bare k" "(user k' = None) = (user k = None)"
  shows "core k' = core k"
  by (simp add: core_def bare_fields [OF assms(1)] assms(2))

definition parted :: "cid set \<Rightarrow> world \<Rightarrow> world \<Rightarrow> bool" where
  "parted D w w' \<longleftrightarrow> client_list w' = filter (\<lambda>c. c \<notin> D) (client_list w) \<and> me w' = me w \<and>
     (\<forall>c. c \<notin> D \<longrightarrow> core (cl w' c) = core (cl w c))"

lemma parted_refl: "parted {} w w"
  by (simp add: parted_def)

lemma parted_trans: "parted D w w1 \<Longrightarrow> parted E w1 w2 \<Longrightarrow> parted (D \<union> E) w w2"
  by (simp add: parted_def filter_filter)

lemma parted_living: "parted D w w' \<Longrightarrow> living w' = living w - D"
  by (auto simp: parted_def)

lemma parted_core: "parted D w w' \<Longrightarrow> c \<notin> D \<Longrightarrow> core (cl w' c) = core (cl w c)"
  by (simp add: parted_def)

lemma parted_hangs: "parted D w w' \<Longrightarrow> hangs w' c p \<longleftrightarrow> c \<notin> D \<and> hangs w c p"
  using parted_living [of D w w'] core_fields(3) [OF parted_core [of D w w' c]] by (auto simp: hangs_def parted_def)

text \<open>\<open>closed D\<close>: with a client, \<open>D\<close> has all that hangs below it.\<close>

definition closed :: "world \<Rightarrow> cid set \<Rightarrow> bool" where
  "closed w D \<longleftrightarrow> (\<forall>c p. hangs w c p \<longrightarrow> p \<in> D \<longrightarrow> c \<in> D)"

definition below :: "world \<Rightarrow> cid \<Rightarrow> cid set" where
  "below w c = {d. (hangs w)\<^sup>*\<^sup>* d c}"

lemma below_self: "c \<in> below w c"
  by (simp add: below_def)

lemma below_closed: "closed w (below w c)"
  by (auto simp: closed_def below_def intro: converse_rtranclp_into_rtranclp)

lemma closed_reaches:
  assumes "closed w D" "(hangs w)\<^sup>*\<^sup>* d a" "a \<in> D"
  shows "d \<in> D"
  using assms(2,3,1) by (induction rule: converse_rtranclp_induct) (auto simp: closed_def)

lemma parted_reaches:
  assumes "parted D w w'" "closed w D" "d \<notin> D"
  shows "(hangs w')\<^sup>*\<^sup>* d a \<longleftrightarrow> (hangs w)\<^sup>*\<^sup>* d a"
proof
  show "(hangs w)\<^sup>*\<^sup>* d a" if "(hangs w')\<^sup>*\<^sup>* d a"
    using that by (induction) (auto simp: parted_hangs [OF assms(1)] intro: rtranclp.rtrancl_into_rtrancl)
  show "(hangs w')\<^sup>*\<^sup>* d a" if "(hangs w)\<^sup>*\<^sup>* d a"
    using that assms(3)
  proof (induction rule: converse_rtranclp_induct)
    case (step y z)
    then have "z \<notin> D" "hangs w' y z" using assms(2) by (auto simp: closed_def parted_hangs [OF assms(1)])
    then show ?case using step.IH by (auto intro: converse_rtranclp_into_rtranclp)
  qed simp
qed

lemma parted_below:
  assumes "parted D w w'" "closed w D" "c \<notin> D"
  shows "below w' c = below w c - D"
proof -
  have "d \<in> D \<Longrightarrow> (hangs w')\<^sup>*\<^sup>* d c \<Longrightarrow> d = c" for d
    by (erule converse_rtranclpE) (auto simp: parted_hangs [OF assms(1)])
  then show ?thesis using parted_reaches [OF assms(1,2)] assms(3) by (auto simp: below_def)
qed

section \<open>The parts of the invariant, when a closed set of clients leaves\<close>

lemma roots_parted:
  assumes "parted D w w'" "roots_ok w" "me w \<notin> D"
  shows "roots_ok w'"
proof -
  have l: "c \<in> living w' \<longleftrightarrow> c \<in> living w \<and> c \<notin> D" for c using parted_living [OF assms(1)] by simp
  have d: "distinct (client_list w')" "me w' = me w" using assms(1,2) by (simp_all add: parted_def roots_ok_def)
  note f = core_fields(3,5,6) [OF parted_core [OF assms(1)]]
  have "IsMe (cl w' c) = (c = me w)" if "c \<in> living w'" for c
    using that assms(2) f(3) [of c] by (simp add: l roots_ok_def)
  moreover have "servptr_of (cl w' c) \<noteq> None" if "c \<in> living w'" "IsServer (cl w' c)" for c
    using that assms(2) f(1,2) [of c] by (simp add: l roots_ok_def)
  moreover have "me w \<in> living w'" using assms(2,3) by (simp add: l roots_ok_def)
  ultimately show ?thesis using d by (simp add: roots_ok_def)
qed

lemma links_parted:
  assumes "parted D w w'" "links_ok w" "closed w D"
  shows "links_ok w'"
proof -
  have h: "hangs w' c p \<longleftrightarrow> c \<notin> D \<and> hangs w c p" for c p by (rule parted_hangs [OF assms(1)])
  have p: "p \<notin> D" if "hangs w c p" "c \<notin> D" for c p using that assms(3) by (auto simp: closed_def)
  have me: "me w' = me w" using assms(1) by (simp add: parted_def)
  note f = core_fields(5,11) [OF parted_core [OF assms(1)]]
  obtain rank :: "cid \<Rightarrow> nat" where "\<forall>c p. hangs w c p \<longrightarrow> rank p < rank c" using assms(2) by (auto simp: links_ok_def)
  then have "\<exists>rank :: cid \<Rightarrow> nat. \<forall>c p. hangs w' c p \<longrightarrow> rank p < rank c" using h by blast
  moreover have "p \<in> living w' \<and> (IsServer (cl w' p) \<or> p = me w') \<and>
      (p \<noteq> me w' \<longrightarrow> \<not> MyConnect (cl w' c)) \<and> (p = me w' \<longrightarrow> IsServer (cl w' c) \<longrightarrow> MyConnect (cl w' c))" if "hangs w' c p" for c p
  proof -
    have c: "c \<notin> D" "hangs w c p" using that h by auto
    then show ?thesis using assms(2) p [OF c(2,1)] parted_living [OF assms(1)] by (simp add: links_ok_def f me)
  qed
  ultimately show ?thesis by (simp add: links_ok_def)
qed

lemma froms_parted:
  assumes "parted D w w'" "froms_ok w" "closed w D"
  shows "froms_ok w'"
  unfolding froms_ok_def
proof (intro ballI allI impI)
  fix c a assume c: "c \<in> living w'" "from_of (cl w' c) = Some a"
  then have "c \<notin> D" "c \<in> living w" using parted_living [OF assms(1)] by auto
  then show "(hangs w')\<^sup>*\<^sup>* c a"
    using assms(2) c(2) core_fields(2) [OF parted_core [OF assms(1)], of c] parted_reaches [OF assms(1,3)]
    by (simp add: froms_ok_def)
qed

lemma parted_set:
  assumes "parted D w w'" "\<And>k k'. core k' = core k \<Longrightarrow> P k' = P k"
  shows "{c \<in> living w' - X. Q (P (cl w' c))} = {c \<in> living w - X. Q (P (cl w c))} - D"
proof -
  have "P (cl w' c) = P (cl w c)" if "c \<notin> D" for c by (rule assms(2) [OF parted_core [OF assms(1) that]])
  then show ?thesis using parted_living [OF assms(1)] by auto
qed

lemma locals_parted:
  assumes "parted D w w'" "locals_ok X w" "\<And>c. c \<in> D \<Longrightarrow> c \<in> X \<or> \<not> MyConnect (cl w c)"
    "serv_list w' = serv_list w" "oper_list w' = oper_list w" "local_list w' = local_list w"
    "local_conns w' = local_conns w" "count_local w' = count_local w" "count_myserver w' = count_myserver w"
  shows "locals_ok X w'"
proof -
  have eq: "local_set X w' P = local_set X w P" if "\<And>k k'. core k' = core k \<Longrightarrow> P k' = P k" for P
  proof -
    have "MyConnect (cl w' c) \<and> P (cl w' c) \<longleftrightarrow> MyConnect (cl w c) \<and> P (cl w c)" if "c \<notin> D" for c
      using core_fields(11) [OF parted_core [OF assms(1) that]] \<open>\<And>k k'. core k' = core k \<Longrightarrow> P k' = P k\<close> [OF parted_core [OF assms(1) that]]
      by blast
    then show ?thesis using assms(3) parted_living [OF assms(1)] unfolding local_set_def by blast
  qed
  have "local_set X w' IsServer = local_set X w IsServer" "local_set X w' IsAnOper = local_set X w IsAnOper"
    "local_set X w' IsPerson = local_set X w IsPerson" "local_set X w' IsClient = local_set X w IsClient"
    by (rule eq, erule core_fields)+
  moreover have "local_set X w' (\<lambda>k. fd k > -1) = local_set X w (\<lambda>k. fd k > -1)"
    by (rule eq) (drule core_fields(4), simp)
  ultimately show ?thesis
    using assms(2) by (simp only: locals_ok_def assms(4-9))
qed

lemma locals_shrink:
  assumes "locals_ok X w" "c \<notin> living w"
  shows "locals_ok (X - {c}) w"
proof -
  have "living w - (X - {c}) = living w - X" using assms(2) by auto
  then show ?thesis using assms(1) by (simp only: locals_ok_def local_set_def)
qed

lemma card_parted:
  assumes "parted {c} w w'" "\<And>k k'. core k' = core k \<Longrightarrow> P k' = P k" "c \<in> living w"
  shows "int (card {d \<in> living w'. P (cl w' d)}) = int (card {d \<in> living w. P (cl w d)}) - (if P (cl w c) then 1 else 0)"
proof -
  let ?A = "{d \<in> living w. P (cl w d)}"
  have s: "{d \<in> living w'. P (cl w' d)} = ?A - {c}"
    using parted_set [OF assms(1,2), where Q = "\<lambda>b. b" and X = "{}"] by simp
  show ?thesis
  proof (cases "P (cl w c)")
    case True
    then have "card (?A - {c}) = card ?A - 1" "card ?A > 0" using assms(3) by (auto simp: card_Diff_singleton card_gt_0_iff)
    then show ?thesis using True unfolding s by (simp add: of_nat_diff)
  next
    case False
    then have "?A - {c} = ?A" by blast
    then show ?thesis using False unfolding s by simp
  qed
qed

section \<open>The exit of a client with nothing below it\<close>

lemma core_serv [simp]: "core (k\<lparr>cl_serv := s\<rparr>) = core k"
  by (simp add: core_def)

lemma exit_parted:
  fixes cptr :: "cid option" and c frm :: cid and cm :: cstr and w :: world
  assumes "roots_ok w" "c \<in> living w" "c \<noteq> me w"
  shows "\<not> IsMe (cl w c)" "client_list w \<noteq> [c]" "parted {c} w (exit_one_client cptr c frm cm w)"
proof -
  show 1: "\<not> IsMe (cl w c)" "client_list w \<noteq> [c]" using assms by (auto simp: roots_ok_def)
  note e = exit_one_effect [OF 1(1) assms(2) 1(2), where cptr = cptr and frm = frm and cm = cm]
  have "core (cl (exit_one_client cptr c frm cm w) d) = core (cl w d)" if "d \<noteq> c" for d
    using core_bare [of "cl (exit_one_client cptr c frm cm w) d" "cl (unlink_from_server c w) d"] e(2,3) [OF that]
    by (simp add: unlink_cl)
  then show "parted {c} w (exit_one_client cptr c frm cm w)"
    using assms(1) e(1,12) distinct_remove1_removeAll [of "client_list w" c]
    by (simp add: parted_def roots_ok_def removeAll_filter_not_eq neq_commute [of c])
qed

lemma sv_unlink:
  assumes "sv_holds w p sv" "hangs w c p"
    "{d. hangs w' d p \<and> IsServer (cl w' d)} = {d. hangs w d p \<and> IsServer (cl w d)} - {c}"
    "{d. hangs w' d p \<and> \<not> IsServer (cl w' d)} = {d. hangs w d p \<and> \<not> IsServer (cl w d)} - {c}"
  shows "sv_holds w' p (unlinked (IsServer (cl w c)) c sv)"
proof -
  have sv: "distinct (sv_servers sv)" "distinct (sv_users sv)" "set (sv_servers sv) = {d. hangs w d p \<and> IsServer (cl w d)}"
    "set (sv_users sv) = {d. hangs w d p \<and> \<not> IsServer (cl w d)}" "sv_usercnt sv = int (length (sv_users sv))"
    using assms(1) by (simp_all add: sv_holds_def)
  show ?thesis
  proof (cases "IsServer (cl w c)")
    case True
    then have "c \<notin> set (sv_users sv)" using sv(4) by simp
    then show ?thesis using True sv assms(3,4) by (simp add: sv_holds_def unlinked_def)
  next
    case False
    then have "c \<in> set (sv_users sv)" "c \<notin> set (sv_servers sv)" using sv(3,4) assms(2) by simp_all
    then have "length (sv_users sv) > 0" "length (remove1 c (sv_users sv)) = length (sv_users sv) - 1"
      by (auto simp: length_remove1)
    then show ?thesis using False sv assms(3,4) \<open>c \<notin> set (sv_servers sv)\<close> by (simp add: sv_holds_def unlinked_def of_nat_diff Suc_le_eq)
  qed
qed

lemma servs_exit:
  assumes "parted {c} w w'" "servs_ok w" "c \<in> living w" "c \<noteq> me w" "\<And>d. \<not> hangs w d c"
    "\<And>d. d \<noteq> c \<Longrightarrow> cl_serv (cl w' d) = (if servptr_of (cl w c) = Some d
       then map_option (unlinked (IsServer (cl w c)) c) (cl_serv (cl w d)) else cl_serv (cl w d))"
  shows "servs_ok w'"
proof -
  have me: "me w' = me w" using assms(1) by (simp add: parted_def)
  have h: "hangs w' d p \<longleftrightarrow> d \<noteq> c \<and> hangs w d p" for d p using parted_hangs [OF assms(1)] by simp
  have srv: "d \<noteq> c \<Longrightarrow> IsServer (cl w' d) = IsServer (cl w d)" for d using core_fields(5) [OF parted_core [OF assms(1)]] by simp
  have sets: "{d. hangs w' d p \<and> IsServer (cl w' d)} = {d. hangs w d p \<and> IsServer (cl w d)} - {c}"
    "{d. hangs w' d p \<and> \<not> IsServer (cl w' d)} = {d. hangs w d p \<and> \<not> IsServer (cl w d)} - {c}" for p
    using h srv by auto
  have "(IsServer (cl w' p) \<or> p = me w' \<longrightarrow> cl_serv (cl w' p) \<noteq> None) \<and> (\<forall>sv. cl_serv (cl w' p) = Some sv \<longrightarrow> sv_holds w' p sv)"
    if "p \<in> living w'" for p
  proof -
    have p: "p \<noteq> c" "p \<in> living w" using that parted_living [OF assms(1)] by auto
    then have old: "IsServer (cl w p) \<or> p = me w \<longrightarrow> cl_serv (cl w p) \<noteq> None" "\<And>sv. cl_serv (cl w p) = Some sv \<Longrightarrow> sv_holds w p sv"
      using assms(2) by (auto simp: servs_ok_def)
    show ?thesis
    proof (cases "servptr_of (cl w c) = Some p")
      case True
      then have "hangs w c p" using assms(3,4) by (simp add: hangs_def)
      then have "sv_holds w' p (unlinked (IsServer (cl w c)) c sv)" if "sv_holds w p sv" for sv
        using that by (intro sv_unlink) (simp_all add: sets)
      then show ?thesis using True old p assms(6) [OF p(1)] by (auto simp: srv me)
    next
      case False
      then have "\<not> hangs w c p" by (simp add: hangs_def)
      then have "sv_holds w' p sv" if "sv_holds w p sv" for sv using that by (auto simp: sv_holds_def sets)
      then show ?thesis using False old p assms(6) [OF p(1)] by (auto simp: srv me)
    qed
  qed
  then show ?thesis by (simp add: servs_ok_def)
qed

lemma fewer_empty:
  "fewer w w' \<Longrightarrow> u_chans (cl w d) = [] \<Longrightarrow> u_chans (cl w' d) = []" "fewer w w' \<Longrightarrow> u_invs (cl w d) = [] \<Longrightarrow> u_invs (cl w' d) = []"
  by (simp add: fewer_def, metis empty_set subset_empty set_empty)+

lemma no_user_sides: "user k = None \<Longrightarrow> u_chans k = []" "user k = None \<Longrightarrow> u_invs k = []"
  by (simp_all add: u_chans_def u_invs_def)

lemma people_exit:
  assumes "parted {c} w w'" "people_ok w" "user (cl w' c) = None" "fewer w w'"
  shows "people_ok w'"
  unfolding people_ok_def
proof (intro conjI allI impI)
  fix d
  note f = core_fields(1,5,10) [OF parted_core [OF assms(1)]]
  show "user (cl w' d) = None" if "d \<notin> living w'"
  proof (cases "d = c")
    case False
    then have "user (cl w d) = None" using that assms(2) parted_living [OF assms(1)] by (simp add: people_ok_def)
    then show ?thesis using parted_core [OF assms(1), of d] False by (simp add: core_def)
  qed (simp add: assms(3))
  assume "u_chans (cl w' d) \<noteq> [] \<or> u_invs (cl w' d) \<noteq> []"
  then have "d \<noteq> c" "u_chans (cl w d) \<noteq> [] \<or> u_invs (cl w d) \<noteq> []"
    using assms(3) fewer_empty [OF assms(4), of d] by (auto simp: no_user_sides)
  then have "\<not> IsServer (cl w d) \<and> IsPerson (cl w d) \<and> name (cl w d) \<noteq> []" using assms(2) unfolding people_ok_def by blast
  then show "\<not> IsServer (cl w' d)" "IsPerson (cl w' d)" "name (cl w' d) \<noteq> []" using f [of d] \<open>d \<noteq> c\<close> by simp_all
qed

lemma nicks_exit:
  assumes "parted {c} w w'" "nicks_ok w" "name (cl w' c) = name (cl w c)"
    "client_tab w' = del_from_client_hash_table (name (cl w c)) c (client_tab w)"
  shows "nicks_ok w'"
proof -
  have nm: "name (cl w' d) = name (cl w d)" for d
    using core_fields(1) [OF parted_core [OF assms(1)], of d] assms(3) by (cases "d = c") simp_all
  obtain S where S: "S \<subseteq> living w" "tab_ok hash_nick_name (\<lambda>c. name (cl w c)) S (client_tab w)" "names_ok (\<lambda>c. name (cl w c)) S"
    using assms(2) by (auto simp: nicks_ok_def)
  have "tab_ok hash_nick_name (\<lambda>c. name (cl w c)) (S - {c}) (client_tab w')"
  proof (cases "c \<in> S")
    case True
    then show ?thesis using nick.ok_del [OF S(2)] by (simp add: assms(4) del_from_client_hash_table_def)
  next
    case False
    then have "c \<notin> set (bucket (client_tab w) (hash_nick_name (name (cl w c))))" using S(2) by (simp add: tab_ok_def)
    then show ?thesis using S(2) False by (simp add: assms(4) del_from_client_hash_table_def tab_del_def Let_def)
  qed
  moreover have "S - {c} \<subseteq> living w'" using S(1) parted_living [OF assms(1)] by auto
  ultimately show ?thesis
    unfolding nicks_ok_def using S(3) by (intro exI [of _ "S - {c}"]) (simp add: nm names_ok_def)
qed

lemma off_online: "whowas_ok db \<Longrightarrow> ww_online (WHOWAS (off_history db c) i) = Some d \<longleftrightarrow> d \<noteq> c \<and> ww_online (WHOWAS db i) = Some d"
  by (auto simp: off_history_def off_loop_apply whowas_ok_def)

lemma add_online:
  "ww_online (WHOWAS (add_history t db c src False) i) = Some d \<Longrightarrow> ww_online (WHOWAS db i) = Some d"
proof -
  have "WHOWAS (unthread db j) = WHOWAS db" for j by (simp add: unthread_def Let_def split: option.split)
  then show "ww_online (WHOWAS (add_history t db c src False) i) = Some d \<Longrightarrow> ww_online (WHOWAS db i) = Some d"
    by (simp add: add_history_def Let_def split: if_splits)
qed

lemma past_exit:
  assumes "parted {c} w w'" "past_ok w" "c \<in> living w"
    "history w' = (if IsPerson (cl w c) then off_history (add_history (now w) (history w) c src False) c else history w)"
  shows "past_ok w'"
proof -
  have ok: "whowas_ok (add_history (now w) (history w) c src False)" using assms(2) by (intro whowas_ok_add) (simp add: past_ok_def)
  have "d \<noteq> c \<and> ww_online (WHOWAS (history w) i) = Some d" if "ww_online (WHOWAS (history w') i) = Some d" for d i
  proof (cases "IsPerson (cl w c)")
    case True
    then have "history w' = off_history (add_history (now w) (history w) c src False) c" using assms(4) by simp
    then show ?thesis using that off_online [OF ok, of c i d] add_online [of "now w" "history w" c src i d] by metis
  next
    case False
    then show ?thesis using that assms(2) by (auto simp: assms(4) past_ok_def)
  qed
  moreover have "whowas_ok (history w')" using ok whowas_ok_off assms(2) by (simp add: assms(4) past_ok_def)
  moreover have "d \<in> living w' \<and> IsPerson (cl w' d)" if "d \<noteq> c" "ww_online (WHOWAS (history w) i) = Some d" for d i
  proof -
    have "d \<in> living w" "IsPerson (cl w d)" using that assms(2) unfolding past_ok_def by blast+
    then show ?thesis using that(1) parted_living [OF assms(1)] core_fields(10) [OF parted_core [OF assms(1)], of d] by simp
  qed
  ultimately show ?thesis unfolding past_ok_def by blast
qed

lemma counts_exit:
  assumes "parted {c} w w'" "totals_ok w" "c \<in> living w"
    "count_server w' = count_server w - (if IsServer (cl w c) then 1 else 0)"
    "count_total w' = count_total w - (if IsClient (cl w c) then 1 else 0)"
    "count_oper w' = count_oper w - (if IsClient (cl w c) \<and> IsAnOper (cl w c) then 1 else 0)"
    "count_invisi w' = count_invisi w - (if IsClient (cl w c) \<and> IsInvisible (cl w c) then 1 else 0)"
  shows "totals_ok w'"
proof -
  note c = card_parted [OF assms(1) _ assms(3)]
  have 1: "count_server w' = int (card {d \<in> living w'. IsServer (cl w' d)}) + 1"
    using assms(2,4) by (subst c) (erule core_fields, simp add: totals_ok_def Let_def)
  have 2: "count_total w' = int (card {d \<in> living w'. IsClient (cl w' d)})"
    using assms(2,5) by (subst c) (erule core_fields, simp add: totals_ok_def Let_def)
  have 3: "count_oper w' = int (card {d \<in> living w'. IsClient (cl w' d) \<and> IsAnOper (cl w' d)})"
    using assms(2,6) by (subst c [where P = "\<lambda>k. IsClient k \<and> IsAnOper k"])
      (frule core_fields(7), drule core_fields(8), simp, simp add: totals_ok_def Let_def)
  have 4: "count_invisi w' = int (card {d \<in> living w'. IsClient (cl w' d) \<and> IsInvisible (cl w' d)})"
    using assms(2,7) by (subst c [where P = "\<lambda>k. IsClient k \<and> IsInvisible k"])
      (frule core_fields(7), drule core_fields(9), simp, simp add: totals_ok_def Let_def)
  show ?thesis using 1 2 3 4 unfolding totals_ok_def Let_def by (intro conjI)
qed

lemma exit_one_net:
  fixes cptr :: "cid option" and c frm :: cid and cm :: cstr and w :: world
  assumes "net_inv X w" "c \<in> living w" "c \<noteq> me w" "\<And>d. \<not> hangs w d c" "c \<in> X \<or> \<not> MyConnect (cl w c)"
  defines "w' \<equiv> exit_one_client cptr c frm cm w"
  shows "net_inv X w'" "parted {c} w w'"
proof -
  have inv: "roots_ok w" "links_ok w" "servs_ok w" "froms_ok w" "people_ok w" "nicks_ok w" "past_ok w" "locals_ok X w" "totals_ok w" "chan_inv w"
    using assms(1) by (simp_all add: net_inv_def)
  note p = exit_parted(1,2) [OF inv(1) assms(2,3)]
  note e = exit_one_effect [OF p(1) assms(2) p(2), where cptr = cptr and frm = frm and cm = cm, folded w'_def]
  show pt: "parted {c} w w'" unfolding w'_def by (rule exit_parted(3) [OF inv(1) assms(2,3)])
  have cl: "closed w {c}" using assms(4) by (simp add: closed_def)
  obtain src where src: "history w' = (if IsPerson (cl w c) then off_history (add_history (now w) (history w) c src False) c else history w)"
    using e(8) by blast
  have "roots_ok w'" by (rule roots_parted [OF pt inv(1)]) (use assms(3) in simp)
  moreover have "links_ok w'" by (rule links_parted [OF pt inv(2) cl])
  moreover have "servs_ok w'"
    by (rule servs_exit [OF pt inv(3) assms(2-4)]) (simp add: bare_fields(12) [OF e(2)] unlink_cl)
  moreover have "froms_ok w'" by (rule froms_parted [OF pt inv(4) cl])
  moreover have "people_ok w'"
    by (rule people_exit [OF pt inv(5) e(4)]) (simp add: w'_def fewer_exit_one [OF p(1) assms(2) p(2)])
  moreover have "nicks_ok w'" by (rule nicks_exit [OF pt inv(6) e(6,7)])
  moreover have "past_ok w'" by (rule past_exit [OF pt inv(7) assms(2) src])
  moreover have "locals_ok X w'" by (rule locals_parted [OF pt inv(8)]) (use assms(5) e in simp_all)
  moreover have "totals_ok w'" by (rule counts_exit [OF pt inv(9) assms(2)]) (use e in simp_all)
  moreover have "chan_inv w'"
    unfolding w'_def by (rule exit_one_chan_inv [OF p(1) assms(2) p(2) inv(10)]) (use inv(5) in \<open>auto simp: people_ok_def\<close>)
  ultimately show "net_inv X w'" by (simp add: net_inv_def)
qed

end
