(* ===== verification/ExitSpec.thy ===== *)
theory ExitSpec
  imports ExitInv
begin

text \<open>
  \<open>exit_client\<close> as a whole: the recursion over the servers behind a link returns (fuel of
  twice the clients is enough), what leaves is the client and all that hangs below it, and the
  invariant \<open>net_inv\<close> holds again.
\<close>

section \<open>Steps that leave the network alone\<close>

lemma net_fields:
  assumes "client_list w' = client_list w" "me w' = me w" "client_tab w' = client_tab w" "history w' = history w"
    "count_server w' = count_server w" "count_total w' = count_total w" "count_oper w' = count_oper w" "count_invisi w' = count_invisi w"
    and cl: "\<And>d. name (cl w' d) = name (cl w d)" "\<And>d. status (cl w' d) = status (cl w d)" "\<And>d. umodes (cl w' d) = umodes (cl w d)"
    "\<And>d. local_flag (cl w' d) = local_flag (cl w d)" "\<And>d. servptr_of (cl w' d) = servptr_of (cl w d)"
    "\<And>d. user (cl w' d) = user (cl w d)" "\<And>d. cl_serv (cl w' d) = cl_serv (cl w d)"
    and "net_inv X w" "froms_ok w'" "locals_ok X' w'" "chan_inv w'"
  shows "net_inv X' w'"
proof -
  have kind: "IsServer (cl w' d) = IsServer (cl w d)" "IsMe (cl w' d) = IsMe (cl w d)" "IsClient (cl w' d) = IsClient (cl w d)"
    "IsAnOper (cl w' d) = IsAnOper (cl w d)" "IsInvisible (cl w' d) = IsInvisible (cl w d)" "IsPerson (cl w' d) = IsPerson (cl w d)"
    "MyConnect (cl w' d) = MyConnect (cl w d)" for d
    by (simp_all add: IsServer_def IsMe_def IsClient_def IsAnOper_def IsInvisible_def IsPerson_def MyConnect_def cl)
  have h: "hangs w' = hangs w" by (simp add: hangs_def fun_eq_iff assms(1,2) cl)
  have inv: "roots_ok w" "links_ok w" "servs_ok w" "people_ok w" "nicks_ok w" "past_ok w" "totals_ok w"
    using \<open>net_inv X w\<close> by (simp_all add: net_inv_def)
  have "roots_ok w'" using inv(1) unfolding roots_ok_def assms(1,2) kind cl by blast
  moreover have "links_ok w'" using inv(2) unfolding links_ok_def assms(1,2) kind h by blast
  moreover have "servs_ok w'" using inv(3) unfolding servs_ok_def sv_holds_def assms(1,2) kind h cl by blast
  moreover have "people_ok w'" using inv(4) unfolding people_ok_def u_chans_def u_invs_def assms(1) kind cl by blast
  moreover have "nicks_ok w'" using inv(5) unfolding nicks_ok_def assms(1,3) cl by blast
  moreover have "past_ok w'" using inv(6) unfolding past_ok_def assms(1,4) kind by blast
  moreover have "totals_ok w'" using inv(7) unfolding totals_ok_def Let_def assms(1,5-8) kind by blast
  ultimately show ?thesis using \<open>froms_ok w'\<close> \<open>locals_ok X' w'\<close> \<open>chan_inv w'\<close> by (simp add: net_inv_def)
qed

lemma net_same:
  assumes "client_list w' = client_list w" "me w' = me w" "client_tab w' = client_tab w" "history w' = history w"
    "count_server w' = count_server w" "count_total w' = count_total w" "count_oper w' = count_oper w" "count_invisi w' = count_invisi w"
    "serv_list w' = serv_list w" "oper_list w' = oper_list w" "local_list w' = local_list w"
    "local_conns w' = local_conns w" "count_local w' = count_local w" "count_myserver w' = count_myserver w"
    and cl: "\<And>d. core (cl w' d) = core (cl w d)"
    "\<And>d. user (cl w' d) = user (cl w d)" "\<And>d. cl_serv (cl w' d) = cl_serv (cl w d)"
    and "net_inv X w" "chan_inv w'"
  shows "net_inv X w'"
proof -
  have p: "parted {} w w'" using assms(1,2) cl(1) by (simp add: parted_def)
  have inv: "froms_ok w" "locals_ok X w" using \<open>net_inv X w\<close> by (simp_all add: net_inv_def)
  have "froms_ok w'" by (rule froms_parted [OF p inv(1)]) (simp add: closed_def)
  moreover have "locals_ok X w'" by (rule locals_parted [OF p inv(2)]) (simp_all add: assms(9-14))
  moreover have f: "name (cl w' d) = name (cl w d)" "status (cl w' d) = status (cl w d)" "umodes (cl w' d) = umodes (cl w d)"
    "local_flag (cl w' d) = local_flag (cl w d)" "servptr_of (cl w' d) = servptr_of (cl w d)" for d
    using cl(1) [of d] by (simp_all add: core_def)
  ultimately show ?thesis by (intro net_fields [OF assms(1-8) f cl(2,3) \<open>net_inv X w\<close>] \<open>chan_inv w'\<close>)
qed

lemma core_cflags [simp]: "core (k\<lparr>cflags := f\<rparr>) = core k"
  by (simp add: core_def from_of_def servptr_of_def)

lemma net_log [simp]: "net_inv X w \<Longrightarrow> net_inv X (log_out os w)"
  by (rule net_same [where w = w]) (simp_all add: net_inv_def)

lemma net_ts_warn [simp]: "net_inv X w \<Longrightarrow> net_inv X (ts_warn f a w)"
  by (rule net_same [where w = w]; (simp add: net_inv_def; fail | simp add: ts_warn_def sendto_realops_def))

lemma net_kill_mark:
  assumes "net_inv X w"
  shows "net_inv X (kill_mark c w)" "parted {} w (kill_mark c w)" "user (cl (kill_mark c w) d) = user (cl w d)"
    "cl_serv (cl (kill_mark c w) d) = cl_serv (cl w d)" "me (kill_mark c w) = me w"
proof -
  have c: "core (cl (kill_mark c w) d) = core (cl w d)" for d by (simp add: kill_mark_def)
  show "user (cl (kill_mark c w) d) = user (cl w d)" "cl_serv (cl (kill_mark c w) d) = cl_serv (cl w d)" "me (kill_mark c w) = me w" for d
    by (simp_all add: kill_mark_def)
  show "net_inv X (kill_mark c w)"
    by (rule net_same [OF _ _ _ _ _ _ _ _ _ _ _ _ _ _ _ _ _ assms])
      (use assms in \<open>simp_all add: kill_mark_def net_inv_def chan_inv_upd_cl\<close>)
  show "parted {} w (kill_mark c w)" using c by (simp add: parted_def kill_mark_def)
qed

section \<open>The users of a server\<close>

lemma hangs_server: "net_inv X w \<Longrightarrow> hangs w c p \<Longrightarrow> p \<in> living w \<and> (IsServer (cl w p) \<or> p = me w)"
  by (simp add: net_inv_def links_ok_def)

lemma hangs_remote: "net_inv X w \<Longrightarrow> hangs w c p \<Longrightarrow> p \<noteq> me w \<Longrightarrow> \<not> MyConnect (cl w c)"
  by (simp add: net_inv_def links_ok_def)

lemma server_not_me: "net_inv X w \<Longrightarrow> c \<in> living w \<Longrightarrow> IsServer (cl w c) \<Longrightarrow> c \<noteq> me w"
  by (auto simp: net_inv_def roots_ok_def IsServer_def IsMe_def STAT_SERVER_def STAT_ME_def)

lemma leaf_no_server: "net_inv X w \<Longrightarrow> \<not> IsServer (cl w c) \<Longrightarrow> c \<noteq> me w \<Longrightarrow> \<not> hangs w d c"
  using hangs_server by blast

lemma server_serv:
  assumes "net_inv X w" "s \<in> living w" "IsServer (cl w s)"
  obtains sv where "cl_serv (cl w s) = Some sv" "sv_holds w s sv"
  using assms by (auto simp: net_inv_def servs_ok_def)

lemma parted_idle: "parted {} w w1 \<Longrightarrow> parted D w1 w2 \<Longrightarrow> parted D w w2"
  using parted_trans [of "{}" w w1 D w2] by simp

lemma exit_marked:
  fixes cptr :: "cid option" and c frm :: cid and cm :: cstr and w :: world
  assumes "net_inv X w" "c \<in> living w" "c \<noteq> me w" "\<And>d. \<not> hangs w d c" "\<not> MyConnect (cl w c)"
  defines "w' \<equiv> exit_one_client cptr c frm cm (kill_mark c w)"
  shows "net_inv X w'" "parted {c} w w'"
proof -
  note k = net_kill_mark [OF assms(1), of c]
  have "living (kill_mark c w) = living w" using parted_living [OF k(2)] by simp
  moreover have "hangs (kill_mark c w) = hangs w" using parted_hangs [OF k(2)] by (simp add: fun_eq_iff)
  moreover have "MyConnect (cl (kill_mark c w) c) = MyConnect (cl w c)" using core_fields(11) [OF parted_core [OF k(2)]] by simp
  ultimately have "net_inv X w'" "parted {c} (kill_mark c w) w'"
    using exit_one_net [OF k(1), of c cptr frm cm] assms(2-5) k(5) by (simp_all add: w'_def)
  then show "net_inv X w'" "parted {c} w w'" using parted_idle [OF k(2)] by blast+
qed

lemma remove_users_net:
  assumes "net_inv X w" "s \<in> living w" "IsServer (cl w s)" "cl_serv (cl w s) = Some sv" "length (sv_users sv) < n"
  shows "\<exists>w'. remove_users n s cm w = Some w' \<and> net_inv X w' \<and> parted (set (sv_users sv)) w w'"
  using assms
proof (induction n arbitrary: w sv)
  case (Suc n)
  have h: "sv_holds w s sv" using server_serv [OF Suc.prems(1-3)] Suc.prems(4) by auto
  show ?case
  proof (cases "sv_users sv")
    case Nil
    then show ?thesis using Suc.prems parted_refl [of w] by simp
  next
    case (Cons u us)
    have "u \<in> set (sv_users sv)" using Cons by simp
    then have u: "hangs w u s" "\<not> IsServer (cl w u)" using h by (auto simp: sv_holds_def)
    have me: "s \<noteq> me w" by (rule server_not_me [OF Suc.prems(1-3)])
    have ul: "u \<in> living w" "u \<noteq> me w" "u \<noteq> s" using u Suc.prems(3) by (auto simp: hangs_def)
    define w1 where "w1 = exit_one_client None u (me w) cm (kill_mark u w)"
    have w1: "net_inv X w1" "parted {u} w w1"
      unfolding w1_def using exit_marked [OF Suc.prems(1) ul(1,2) leaf_no_server [OF Suc.prems(1) u(2) ul(2)]]
        hangs_remote [OF Suc.prems(1) u(1) me] by blast+
    have s1: "s \<in> living w1" "IsServer (cl w1 s)"
      using Suc.prems(2,3) parted_living [OF w1(2)] core_fields(5) [OF parted_core [OF w1(2)], of s] ul(3) by auto
    obtain sv1 where sv1: "cl_serv (cl w1 s) = Some sv1" "sv_holds w1 s sv1" using server_serv [OF w1(1) s1] by auto
    have "set (sv_users sv1) = set (sv_users sv) - {u}"
      using sv1(2) h parted_hangs [OF w1(2)] core_fields(5) [OF parted_core [OF w1(2)]] by (auto simp: sv_holds_def)
    moreover have "distinct (sv_users sv1)" "distinct (u # us)" using sv1(2) h Cons by (simp_all add: sv_holds_def)
    ultimately have us: "set (sv_users sv1) = set us" "length (sv_users sv1) = length us"
      using Cons by (auto simp flip: distinct_card)
    then obtain w' where "remove_users n s cm w1 = Some w'" "net_inv X w'" "parted (set us) w1 w'"
      using Suc.IH [OF w1(1) s1 sv1(1)] Suc.prems(5) Cons by auto
    then show ?thesis using parted_trans [OF w1(2)] Cons Suc.prems(4) by (auto simp: w1_def)
  qed
qed simp

section \<open>The servers behind a server\<close>

definition behind :: "world \<Rightarrow> cid \<Rightarrow> cid set" where
  "behind w s = (\<Union>a \<in> {a. hangs w a s \<and> IsServer (cl w a)}. below w a)"

lemma below_trans: "x \<in> below w b \<Longrightarrow> b \<in> below w a \<Longrightarrow> x \<in> below w a"
  by (auto simp: below_def)

lemma below_step: "hangs w a s \<Longrightarrow> below w a \<subseteq> below w s"
  by (auto simp: below_def)

lemma finite_below: "finite (below w s)"
proof -
  have "d \<in> insert s (living w)" if "(hangs w)\<^sup>*\<^sup>* d s" for d
    using that by (cases rule: converse_rtranclpE) (auto simp: hangs_def)
  then have "below w s \<subseteq> insert s (living w)" by (auto simp: below_def)
  then show ?thesis by (rule finite_subset) simp
qed

lemma not_below_child:
  assumes "net_inv X w" "hangs w a s"
  shows "s \<notin> below w a"
proof
  assume "s \<in> below w a"
  then have r: "(hangs w)\<^sup>*\<^sup>* s a" by (simp add: below_def)
  obtain rank :: "cid \<Rightarrow> nat" where rank: "\<And>c p. hangs w c p \<Longrightarrow> rank p < rank c"
    using assms(1) by (auto simp: net_inv_def links_ok_def)
  from r have "rank a \<le> rank s" by (induction) (auto dest: rank)
  then show False using rank [OF assms(2)] by simp
qed

lemma below_split:
  assumes "net_inv X w"
  shows "below w s = {s} \<union> {u. hangs w u s \<and> \<not> IsServer (cl w u)} \<union> behind w s"
proof
  show "below w s \<subseteq> {s} \<union> {u. hangs w u s \<and> \<not> IsServer (cl w u)} \<union> behind w s"
  proof
    fix d assume "d \<in> below w s"
    then have "(hangs w)\<^sup>*\<^sup>* d s" by (simp add: below_def)
    then show "d \<in> {s} \<union> {u. hangs w u s \<and> \<not> IsServer (cl w u)} \<union> behind w s"
    proof (cases rule: rtranclp.cases)
      case (rtrancl_into_rtrancl b)
      show ?thesis
      proof (cases "IsServer (cl w b)")
        case False
        have "b \<noteq> me w" using rtrancl_into_rtrancl(2) by (simp add: hangs_def)
        have "d = b" using rtrancl_into_rtrancl(1) leaf_no_server [OF assms False \<open>b \<noteq> me w\<close>] by (auto elim: rtranclp.cases)
        then show ?thesis using rtrancl_into_rtrancl(2) False by simp
      qed (use rtrancl_into_rtrancl in \<open>auto simp: behind_def below_def\<close>)
    qed simp
  qed
  show "{s} \<union> {u. hangs w u s \<and> \<not> IsServer (cl w u)} \<union> behind w s \<subseteq> below w s"
    using below_step [of w _ s] below_self [of _ w] by (auto simp: behind_def)
qed

lemma behind_no_self: "net_inv X w \<Longrightarrow> s \<notin> behind w s"
  using not_below_child by (auto simp: behind_def)

lemma closed_behind: "closed w (behind w s)"
  using below_closed by (fastforce simp: closed_def behind_def)

lemma closed_below_rest: "net_inv X w \<Longrightarrow> closed w (below w s - {s})"
  unfolding closed_def
proof (intro allI impI)
  fix c p assume net: "net_inv X w" and h: "hangs w c p" "p \<in> below w s - {s}"
  then have "c \<in> below w s" using below_closed unfolding closed_def by blast
  moreover have "c \<noteq> s"
  proof
    assume "c = s"
    then show False using not_below_child [OF net h(1)] h(2) by (simp add: below_def)
  qed
  ultimately show "c \<in> below w s - {s}" by simp
qed

lemma behind_parted:
  assumes "net_inv X w" "parted (below w a) w w2" "hangs w a s" "IsServer (cl w a)"
  shows "below w a \<union> behind w2 s = behind w s"
proof -
  have h: "hangs w2 c p \<longleftrightarrow> c \<notin> below w a \<and> hangs w c p" for c p by (rule parted_hangs [OF assms(2)])
  have srv: "b \<notin> below w a \<Longrightarrow> IsServer (cl w2 b) = IsServer (cl w b)" for b by (rule core_fields [OF parted_core [OF assms(2)]])
  have b: "b \<notin> below w a \<Longrightarrow> below w2 b = below w b - below w a" for b by (rule parted_below [OF assms(2) below_closed])
  have "{b. hangs w2 b s \<and> IsServer (cl w2 b)} = {b. hangs w b s \<and> IsServer (cl w b) \<and> b \<notin> below w a}" using h srv by blast
  then have "behind w2 s = (\<Union>b \<in> {b. hangs w b s \<and> IsServer (cl w b) \<and> b \<notin> below w a}. below w b - below w a)"
    unfolding behind_def using b by simp
  moreover have "below w a \<subseteq> behind w s" using assms(3,4) by (auto simp: behind_def)
  moreover have "x \<in> below w a" if "x \<in> below w b" "b \<in> below w a" for x b by (rule below_trans [OF that])
  ultimately show ?thesis by (auto simp: behind_def)
qed

lemma card_below_child:
  assumes "net_inv X w" "hangs w a s"
  shows "card (below w a) < card (below w s)" "card (below w s - below w a) < card (below w s)"
proof -
  have "below w a \<subset> below w s" using below_step [OF assms(2)] not_below_child [OF assms] below_self by blast
  then show "card (below w a) < card (below w s)" by (rule psubset_card_mono [OF finite_below])
  have "below w s - below w a \<subset> below w s" using below_step [OF assms(2)] below_self [of a w] by blast
  then show "card (below w s - below w a) < card (below w s)" by (rule psubset_card_mono [OF finite_below])
qed

section \<open>The recursion returns\<close>

definition clients_gone :: "cid set \<Rightarrow> nat \<Rightarrow> cstr \<Rightarrow> bool" where
  "clients_gone X n cm \<longleftrightarrow> (\<forall>s w. net_inv X w \<longrightarrow> s \<in> living w \<longrightarrow> IsServer (cl w s) \<longrightarrow> 2 * card (below w s) \<le> n \<longrightarrow>
     (\<exists>w'. remove_clients n s cm w = Some w' \<and> net_inv X w' \<and> parted (below w s - {s}) w w'))"

definition servers_gone :: "cid set \<Rightarrow> nat \<Rightarrow> cstr \<Rightarrow> bool" where
  "servers_gone X n cm \<longleftrightarrow> (\<forall>s w. net_inv X w \<longrightarrow> s \<in> living w \<longrightarrow> IsServer (cl w s) \<longrightarrow> 2 * card (below w s) \<le> Suc n \<longrightarrow>
     (\<exists>w'. remove_servers n s cm w = Some w' \<and> net_inv X w' \<and> parted (behind w s) w w'))"

lemma parted_stays:
  assumes "parted D w w'" "s \<notin> D" "s \<in> living w" "IsServer (cl w s)"
  shows "s \<in> living w'" "IsServer (cl w' s)"
  using assms(2-4) parted_living [OF assms(1)] core_fields(5) [OF parted_core [OF assms(1,2)]] by simp_all

lemma clients_step:
  assumes "servers_gone X n cm"
  shows "clients_gone X (Suc n) cm"
  unfolding clients_gone_def
proof (intro allI impI)
  fix s w assume net: "net_inv X w" "s \<in> living w" "IsServer (cl w s)" "2 * card (below w s) \<le> Suc n"
  have me: "\<not> IsMe (cl w s)" using net server_not_me [OF net(1-3)] by (simp add: net_inv_def roots_ok_def)
  obtain sv where sv: "cl_serv (cl w s) = Some sv" using server_serv [OF net(1-3)] by blast
  obtain w1 where w1: "remove_servers n s cm w = Some w1" "net_inv X w1" "parted (behind w s) w w1"
    using assms net unfolding servers_gone_def by blast
  note s1 = parted_stays [OF w1(3) behind_no_self [OF net(1)] net(2,3)]
  obtain sv1 where sv1: "cl_serv (cl w1 s) = Some sv1" "sv_holds w1 s sv1" using server_serv [OF w1(2) s1] by blast
  let ?U = "{u. hangs w u s \<and> \<not> IsServer (cl w u)}"
  have us: "set (sv_users sv1) = ?U - behind w s"
    using sv1(2) parted_hangs [OF w1(3)] core_fields(5) [OF parted_core [OF w1(3)]] by (auto simp: sv_holds_def)
  have "s \<notin> ?U" using net(3) by simp
  then have "set (sv_users sv1) \<subset> below w s" using us below_split [OF net(1), of s] by blast
  then have "card (set (sv_users sv1)) < card (below w s)" by (rule psubset_card_mono [OF finite_below])
  then have "length (sv_users sv1) < card (below w s)" using sv1(2) distinct_card [of "sv_users sv1"] by (metis sv_holds_def)
  then have len: "length (sv_users sv1) < n" using net(4) by linarith
  obtain w2 where w2: "remove_users n s cm w1 = Some w2" "net_inv X w2" "parted (set (sv_users sv1)) w1 w2"
    using remove_users_net [OF w1(2) s1 sv1(1) len] by blast
  have "behind w s \<union> set (sv_users sv1) = below w s - {s}"
    using below_split [OF net(1), of s] us \<open>s \<notin> ?U\<close> behind_no_self [OF net(1), of s] by blast
  then have "parted (below w s - {s}) w w2" using parted_trans [OF w1(3) w2(3)] by simp
  moreover have "remove_clients (Suc n) s cm w = Some w2" using me sv w1(1) w2(1) by simp
  ultimately show "\<exists>w'. remove_clients (Suc n) s cm w = Some w' \<and> net_inv X w' \<and> parted (below w s - {s}) w w'"
    using w2(2) by blast
qed

lemma servers_step:
  assumes "clients_gone X n cm" "servers_gone X n cm"
  shows "servers_gone X (Suc n) cm"
  unfolding servers_gone_def
proof (intro allI impI)
  fix s w assume net: "net_inv X w" "s \<in> living w" "IsServer (cl w s)" "2 * card (below w s) \<le> Suc (Suc n)"
  obtain sv where sv: "cl_serv (cl w s) = Some sv" "sv_holds w s sv" using server_serv [OF net(1-3)] by blast
  have kids: "a \<in> set (sv_servers sv) \<longleftrightarrow> hangs w a s \<and> IsServer (cl w a)" for a using sv(2) by (simp add: sv_holds_def)
  show "\<exists>w'. remove_servers (Suc n) s cm w = Some w' \<and> net_inv X w' \<and> parted (behind w s) w w'"
  proof (cases "sv_servers sv")
    case Nil
    then have "behind w s = {}" using kids by (auto simp: behind_def)
    then show ?thesis using Nil sv(1) net(1) parted_refl by auto
  next
    case (Cons a as)
    then have a: "hangs w a s" "IsServer (cl w a)" using kids by auto
    then have al: "a \<in> living w" "a \<noteq> me w" by (simp_all add: hangs_def)
    have remote: "\<not> MyConnect (cl w a)" by (rule hangs_remote [OF net(1) a(1) server_not_me [OF net(1-3)]])
    note small = card_below_child [OF net(1) a(1)]
    have fuel: "2 * card (below w a) \<le> n" using small(1) net(4) by linarith
    then obtain w1 where w1: "remove_clients n a cm w = Some w1" "net_inv X w1" "parted (below w a - {a}) w w1"
      using assms(1) net(1) al(1) a(2) unfolding clients_gone_def by blast
    have a1: "a \<in> living w1" "a \<noteq> me w1" "\<not> MyConnect (cl w1 a)"
      using al remote parted_living [OF w1(3)] core_fields(11) [OF parted_core [OF w1(3)], of a] w1(3) by (simp_all add: parted_def)
    have leaf: "\<not> hangs w1 d a" for d
    proof
      assume "hangs w1 d a"
      then have d: "d \<notin> below w a - {a}" "hangs w d a" using parted_hangs [OF w1(3)] by auto
      then have "d \<in> below w a" by (auto simp: below_def)
      then show False using d not_below_child [OF net(1) d(2)] by (auto simp: below_def)
    qed
    let ?w2 = "exit_one_client None a (me w1) (name (cl w1 (me w1))) (kill_mark a w1)"
    note w2 = exit_marked [OF w1(2) a1(1,2) leaf a1(3), of None "me w1" "name (cl w1 (me w1))"]
    have p2: "parted (below w a) w ?w2"
      using parted_trans [OF w1(3) w2(2)] below_self [of a w] by (simp add: insert_absorb)
    have sa: "s \<notin> below w a" by (rule not_below_child [OF net(1) a(1)])
    note s2 = parted_stays [OF p2 sa net(2,3)]
    have "2 * card (below ?w2 s) \<le> Suc n"
      using parted_below [OF p2 below_closed sa] small(2) net(4) by simp
    then obtain w' where w': "remove_servers n s cm ?w2 = Some w'" "net_inv X w'" "parted (behind ?w2 s) ?w2 w'"
      using assms(2) w2(1) s2 unfolding servers_gone_def by blast
    have "parted (behind w s) w w'"
      using parted_trans [OF p2 w'(3)] by (simp add: behind_parted [OF net(1) p2 a])
    moreover have "remove_servers (Suc n) s cm w = Some w'" using sv(1) Cons w1(1) w'(1) by simp
    ultimately show ?thesis using w'(2) by blast
  qed
qed

lemma below_card_pos: "card (below w s) > 0"
  using below_self [of s w] finite_below [of w s] by (auto simp: card_gt_0_iff)

lemma recursion_returns: "clients_gone X n cm \<and> servers_gone X n cm"
proof (induction n)
  case 0
  have "\<not> 2 * card (below w s) \<le> 0" "\<not> 2 * card (below w s) \<le> Suc 0" for w s using below_card_pos [of w s] by linarith+
  then show ?case by (auto simp: clients_gone_def servers_gone_def)
qed (use clients_step servers_step in blast)

lemma below_fuel:
  assumes "net_inv X w" "s \<in> living w"
  shows "card (below w s) \<le> length (client_list w)"
proof -
  have "d \<in> living w" if "(hangs w)\<^sup>*\<^sup>* d s" for d
    using that assms(2) by (cases rule: converse_rtranclpE) (auto simp: hangs_def)
  then have "card (below w s) \<le> card (living w)" by (intro card_mono) (auto simp: below_def)
  then show ?thesis using card_length le_trans by blast
qed

section \<open>Telling the other links\<close>

lemma hangs_log [simp]: "hangs (log_out os w) = hangs w"
  by (simp add: hangs_def fun_eq_iff)

lemma below_log [simp]: "below (log_out os w) = below w"
  by (simp add: below_def fun_eq_iff)

lemma fold_log: "(\<And>x v. \<exists>os. f x v = log_out os v) \<Longrightarrow> \<exists>os. fold f xs w = log_out os w"
proof (induction xs arbitrary: w)
  case Nil
  show ?case using log_out_Nil [of w] by (metis fold_simps(1))
next
  case (Cons x xs)
  obtain os where os: "f x w = log_out os w" using Cons.prems by blast
  obtain ps where "fold f xs (log_out os w) = log_out ps (log_out os w)" using Cons.IH Cons.prems by blast
  then show ?case using os by auto
qed

lemma send_below_log:
  "(\<And>a w os. a \<in> set as \<Longrightarrow> \<exists>ps. send_quits n a to cm mn (log_out os w0) = Some (log_out ps (log_out os w0))) \<Longrightarrow>
     \<exists>ps. send_quits_below n as to cm mn (log_out os w0) = Some (log_out ps (log_out os w0))"
proof (induction "as" arbitrary: os)
  case Nil
  show ?case using log_out_Nil [of "log_out os w0"] by (metis send_quits_below.simps(1))
next
  case (Cons a as)
  obtain ps where ps: "send_quits n a to cm mn (log_out os w0) = Some (log_out ps (log_out os w0))"
    using Cons.prems by (meson list.set_intros(1))
  obtain qs where "send_quits_below n as to cm mn (log_out (os @ ps) w0) = Some (log_out qs (log_out (os @ ps) w0))"
    using Cons.IH [of "os @ ps"] Cons.prems by (meson list.set_intros(2))
  then show ?case using ps by auto
qed

lemma send_quits_log:
  assumes "net_inv X w" "s \<in> living w" "IsServer (cl w s)" "card (below w s) \<le> n"
  shows "\<exists>os. send_quits n s to cm mn w = Some (log_out os w)"
  using assms
proof (induction n arbitrary: s w)
  case 0
  then show ?case using below_card_pos [of w s] by simp
next
  case (Suc n)
  obtain sv where sv: "cl_serv (cl w s) = Some sv" "sv_holds w s sv" using server_serv [OF Suc.prems(1-3)] by blast
  have kid: "\<exists>ps. send_quits n a to cm mn (log_out os w) = Some (log_out ps (log_out os w))" if "a \<in> set (sv_servers sv)" for a os
  proof -
    have a: "hangs w a s" "IsServer (cl w a)" using that sv(2) by (simp_all add: sv_holds_def)
    then have "card (below w a) \<le> n" using card_below_child(1) [OF Suc.prems(1) a(1)] Suc.prems(4) by linarith
    then show ?thesis using Suc.IH [of "log_out os w" a] Suc.prems(1) a by (simp add: hangs_def)
  qed
  obtain os where os: "fold (\<lambda>u. sendto_one to (Fmt '':%s QUIT :%s'') [Str (name (cl w u)), Str cm]) (sv_users sv) w = log_out os w"
    using fold_log [where xs = "sv_users sv" and w = w and f = "\<lambda>u. sendto_one to (Fmt '':%s QUIT :%s'') [Str (name (cl w u)), Str cm]"]
    by (auto simp: send_defs)
  obtain ps where ps: "send_quits_below n (sv_servers sv) to cm mn (log_out os w) = Some (log_out ps (log_out os w))"
    using send_below_log [of "sv_servers sv" n to cm mn w os] kid by blast
  show ?case
    unfolding send_quits.simps Let_def sv(1) option.case os ps using log_out_Nil [of w] by (auto simp: send_defs)
qed

lemma quits_log:
  assumes "net_inv X w" "s \<in> living w" "IsServer (cl w s)" "set ts \<subseteq> living w"
  shows "\<exists>os. quits_to_links cptr s cm ts w = Some (log_out os w)"
  using assms
proof (induction ts arbitrary: w)
  case Nil
  show ?case using log_out_Nil [of w] by (metis quits_to_links.simps(1))
next
  case (Cons to ts)
  show ?case
  proof (cases "\<not> IsServer (cl w to) \<or> IsMe (cl w to) \<or> from_of (cl w s) = Some to \<or> (cptr = Some to \<and> IsCapable (cl w to) CAP_QS)")
    case True
    then show ?thesis using Cons.IH [OF Cons.prems(1-3)] Cons.prems(4) by simp
  next
    case False
    then obtain sv where sv: "cl_serv (cl w to) = Some sv" using server_serv [OF Cons.prems(1), of to] Cons.prems(4) by auto
    have "card (below w s) \<le> exit_fuel w" using below_fuel [OF Cons.prems(1,2)] by (simp add: exit_fuel_def)
    then obtain os where os: "send_quits (exit_fuel w) s to cm (link_name w sv) w = Some (log_out os w)"
      using send_quits_log [OF Cons.prems(1-3)] by blast
    obtain ps where ps: "quits_to_links cptr s cm ts (log_out os w) = Some (log_out ps (log_out os w))"
      using Cons.IH [of "log_out os w"] Cons.prems by auto
    have "quits_to_links cptr s cm (to # ts) w = quits_to_links cptr s cm ts (log_out os w)"
      unfolding quits_to_links.simps sv option.case os Option.bind.simps if_not_P [OF False] ..
    then show ?thesis unfolding ps by auto
  qed
qed

lemma dependents_gone:
  assumes "net_inv X w" "s \<in> living w" "IsServer (cl w s)"
  shows "\<exists>w'. remove_dependents cptr s cm w = Some w' \<and> net_inv X w' \<and> parted (below w s - {s}) w w'"
proof -
  have "set (local_conns w) \<subseteq> living w" using assms(1) by (auto simp: net_inv_def locals_ok_def local_set_def)
  then obtain os where os: "quits_to_links cptr s cm (local_conns w) w = Some (log_out os w)" using quits_log [OF assms] by blast
  have "clients_gone X (exit_fuel (log_out os w)) cm" using recursion_returns by blast
  moreover have "2 * card (below (log_out os w) s) \<le> exit_fuel (log_out os w)"
    using below_fuel [OF assms(1,2)] by (simp add: exit_fuel_def)
  moreover have "net_inv X (log_out os w)" "s \<in> living (log_out os w)" "IsServer (cl (log_out os w) s)" using assms by simp_all
  ultimately obtain w' where "remove_clients (exit_fuel (log_out os w)) s cm (log_out os w) = Some w'" "net_inv X w'"
      "parted (below (log_out os w) s - {s}) (log_out os w) w'"
    unfolding clients_gone_def by blast
  then have w': "remove_clients (exit_fuel (log_out os w)) s cm (log_out os w) = Some w'" "net_inv X w'"
      "parted (below w s - {s}) (log_out os w) w'" by simp_all
  have "parted {} w (log_out os w)" by (simp add: parted_def)
  then show ?thesis using w' os parted_idle by (auto simp: remove_dependents_def)
qed

section \<open>A local client is closed\<close>

lemma exit_ip_log: "\<exists>os t. exit_ip c w = log_out os (w\<lparr>iptab := t\<rparr>)"
proof (cases "has_flag (cflags (cl w c)) FLAGS_IPHASH")
  case True
  show ?thesis
  proof (cases "remove_one_ip (foldl (\<lambda>n b. n * 256 + b) 0 (ip (cl w c))) (iptab w)")
    case None
    then have "\<exists>os. exit_ip c w = log_out os (w\<lparr>iptab := iptab w\<rparr>)" using True by (auto simp: exit_ip_def sendto_realops_def)
    then show ?thesis by blast
  next
    case (Some t)
    then show ?thesis using True log_out_Nil [of "w\<lparr>iptab := t\<rparr>"] by (simp add: exit_ip_def) metis
  qed
next
  case False
  have "exit_ip c w = log_out [] (w\<lparr>iptab := iptab w\<rparr>)" using False by (simp add: exit_ip_def log_out_Nil)
  then show ?thesis by blast
qed

abbreviation closing :: "cid \<Rightarrow> world \<Rightarrow> world" where
  "closing c w \<equiv> upd_cl c (\<lambda>k. k\<lparr>cflags := cflags k OR FLAGS_CLOSING\<rparr>) w"

lemma opt_log: "\<exists>os. (if b then log_out x v else v) = log_out os v"
  using log_out_Nil [of v] by (cases b) (auto, metis)

lemma exit_local_form:
  "\<exists>os ps t. exit_local c cm w = close_connection c (log_out os (closing c (exit_lists c (log_out ps (w\<lparr>iptab := t\<rparr>)))))"
proof -
  obtain ps t where 1: "exit_ip c w = log_out ps (w\<lparr>iptab := t\<rparr>)" using exit_ip_log by blast
  define w1 where "w1 = closing c (exit_lists c (exit_ip c w))"
  obtain b x y b' where e: "exit_local c cm w =
      close_connection c (if b' then log_out y (if b then log_out x w1 else w1) else (if b then log_out x w1 else w1))"
    unfolding exit_local_def Let_def send_defs by (fold w1_def) blast
  obtain os where o1: "(if b then log_out x w1 else w1) = log_out os w1" using opt_log by blast
  obtain qs where o2: "(if b' then log_out y (log_out os w1) else log_out os w1) = log_out qs (log_out os w1)" using opt_log by blast
  have "exit_local c cm w = close_connection c (log_out (os @ qs) w1)" unfolding e o1 o2 unfolding log_out_log_out ..
  then show ?thesis unfolding w1_def 1 by blast
qed

lemma exit_lists_simps [simp]:
  "chan_list (exit_lists c w) = chan_list w" "next_chan (exit_lists c w) = next_chan w" "chan_tab (exit_lists c w) = chan_tab w" "count_chan (exit_lists c w) = count_chan w"
  "clients (exit_lists c w) = clients w" "chans (exit_lists c w) = chans w" "client_list (exit_lists c w) = client_list w"
  "me (exit_lists c w) = me w" "client_tab (exit_lists c w) = client_tab w" "history (exit_lists c w) = history w"
  "count_server (exit_lists c w) = count_server w" "count_total (exit_lists c w) = count_total w"
  "count_oper (exit_lists c w) = count_oper w" "count_invisi (exit_lists c w) = count_invisi w"
  "local_conns (exit_lists c w) = local_conns w" "chan_inv (exit_lists c w) = chan_inv w"
  by (simp_all add: exit_lists_def Let_def chan_inv_def inv_defs)

lemma hold_simps [simp]:
  "clients (hold_reconnect c w) = clients w"
  "chan_list (hold_reconnect c w) = chan_list w"
  "next_chan (hold_reconnect c w) = next_chan w"
  "chan_tab (hold_reconnect c w) = chan_tab w"
  "count_chan (hold_reconnect c w) = count_chan w"
  "chans (hold_reconnect c w) = chans w"
  "client_list (hold_reconnect c w) = client_list w"
  "me (hold_reconnect c w) = me w"
  "client_tab (hold_reconnect c w) = client_tab w"
  "history (hold_reconnect c w) = history w"
  "count_server (hold_reconnect c w) = count_server w"
  "count_total (hold_reconnect c w) = count_total w"
  "count_oper (hold_reconnect c w) = count_oper w"
  "count_invisi (hold_reconnect c w) = count_invisi w"
  "count_local (hold_reconnect c w) = count_local w"
  "count_myserver (hold_reconnect c w) = count_myserver w"
  "serv_list (hold_reconnect c w) = serv_list w"
  "oper_list (hold_reconnect c w) = oper_list w"
  "local_list (hold_reconnect c w) = local_list w"
  "local_conns (hold_reconnect c w) = local_conns w"
  by (simp_all add: hold_reconnect_def Let_def split: option.split)

lemma close_simps [simp]:
  "chan_list (close_connection c w) = chan_list w" "next_chan (close_connection c w) = next_chan w" "chan_tab (close_connection c w) = chan_tab w" "count_chan (close_connection c w) = count_chan w"
  "chans (close_connection c w) = chans w" "client_list (close_connection c w) = client_list w"
  "me (close_connection c w) = me w" "client_tab (close_connection c w) = client_tab w" "history (close_connection c w) = history w"
  "count_server (close_connection c w) = count_server w" "count_total (close_connection c w) = count_total w"
  "count_oper (close_connection c w) = count_oper w" "count_invisi (close_connection c w) = count_invisi w"
  "count_local (close_connection c w) = count_local w" "count_myserver (close_connection c w) = count_myserver w"
  "serv_list (close_connection c w) = serv_list w" "oper_list (close_connection c w) = oper_list w" "local_list (close_connection c w) = local_list w"
  "local_conns (close_connection c w) = (if fd (cl w c) > -1 then remove1 c (local_conns w) else local_conns w)"
  by (simp_all add: close_connection_def Let_def det_confs_eqD(1-22))

lemma close_cl:
  "cl (close_connection c w) d = (if d = c then (cl w c)\<lparr>fd := (if fd (cl w c) > -1 then -1 else fd (cl w c)), sendq_len := 0, cl_passwd := [], null_from := True, cl_confs := []\<rparr> else cl w d)"
proof -
  define u where "u = (if fd (cl w c) > -1
      then upd_cl c (\<lambda>k. k\<lparr>fd := -1\<rparr>)
        ((hold_reconnect c (w\<lparr>sstat := count_closed (cl w c) (now w) (sstat w)\<rparr>))
          \<lparr>local_conns := remove1 c (local_conns (hold_reconnect c (w\<lparr>sstat := count_closed (cl w c) (now w) (sstat w)\<rparr>)))\<rparr>)
      else hold_reconnect c (w\<lparr>sstat := count_closed (cl w c) (now w) (sstat w)\<rparr>))"
  define v where "v = det_confs_butmask c 0 (upd_cl c (\<lambda>k. k\<lparr>sendq_len := 0, cl_passwd := []\<rparr>) u)"
  have close: "close_connection c w = upd_cl c (\<lambda>k. k\<lparr>null_from := True\<rparr>) v"
    by (simp only: close_connection_def Let_def v_def u_def)
  have u: "cl u c = (cl w c)\<lparr>fd := (if fd (cl w c) > -1 then -1 else fd (cl w c))\<rparr>" "d \<noteq> c \<Longrightarrow> cl u d = cl w d"
    by (simp_all add: u_def)
  have other: "d \<noteq> c \<Longrightarrow> cl v d = cl w d"
    using det_confs_eqD(23) [of d c 0 "upd_cl c (\<lambda>k. k\<lparr>sendq_len := 0, cl_passwd := []\<rparr>) u"] u(2) by (simp add: v_def)
  have "cl_confs (cl v c) = []" by (simp only: v_def det_confs_all)
  then have own: "cl v c = (cl u c)\<lparr>sendq_len := 0, cl_passwd := [], cl_confs := []\<rparr>"
    using det_confs_eqD(24) [of c 0 "upd_cl c (\<lambda>k. k\<lparr>sendq_len := 0, cl_passwd := []\<rparr>) u"] by (simp add: v_def [symmetric])
  show ?thesis
  proof (cases "d = c")
    case True
    then show ?thesis by (simp add: close own u(1))
  next
    case False
    then show ?thesis by (simp add: close other)
  qed
qed

lemma local_set_drop: "c \<in> living w \<Longrightarrow> local_set {c} w P = local_set {} w P - {c}"
  by (auto simp: local_set_def)

lemma local_set_mem: "c \<in> living w \<Longrightarrow> MyConnect (cl w c) \<Longrightarrow> c \<in> local_set {} w P \<longleftrightarrow> P (cl w c)"
  by (simp add: local_set_def)

lemma exit_lists_locals:
  fixes c :: cid and w :: world
  assumes "locals_ok {} w" "c \<in> living w" "MyConnect (cl w c)"
  defines "v \<equiv> exit_lists c w"
  shows "distinct (serv_list v) \<and> set (serv_list v) = local_set {c} w IsServer"
    "distinct (oper_list v) \<and> set (oper_list v) = local_set {c} w IsAnOper"
    "distinct (local_list v) \<and> set (local_list v) = local_set {c} w IsPerson"
    "count_local v = int (card (local_set {c} w IsClient)) \<and> count_myserver v = int (card (local_set {c} w IsServer))"
proof -
  have l: "distinct (serv_list w)" "set (serv_list w) = local_set {} w IsServer" "distinct (oper_list w)"
    "set (oper_list w) = local_set {} w IsAnOper" "distinct (local_list w)" "set (local_list w) = local_set {} w IsPerson"
    "count_local w = int (card (local_set {} w IsClient))" "count_myserver w = int (card (local_set {} w IsServer))"
    using assms(1) unfolding locals_ok_def by blast+
  have k: "\<not> (IsServer (cl w c) \<and> IsClient (cl w c))" "IsPerson (cl w c) \<longrightarrow> IsClient (cl w c)"
    by (auto simp: IsServer_def IsClient_def IsPerson_def STAT_SERVER_def STAT_CLIENT_def)
  note d = local_set_drop [OF assms(2)] and m = local_set_mem [OF assms(2,3)]
  have lists: "serv_list v = (if IsServer (cl w c) then remove1 c (serv_list w) else serv_list w)"
    "oper_list v = (if IsAnOper (cl w c) then remove1 c (oper_list w) else oper_list w)"
    "local_list v = (if IsPerson (cl w c) then remove1 c (local_list w) else local_list w)"
    "count_local v = (if IsClient (cl w c) then count_local w - 1 else count_local w)"
    "count_myserver v = (if IsServer (cl w c) then count_myserver w - 1 else count_myserver w)"
    using k by (auto simp: v_def exit_lists_def Let_def)
  have card: "int (card (local_set {} w P - {c})) = int (card (local_set {} w P)) - (if P (cl w c) then 1 else 0)" for P
  proof -
    have "finite (local_set {} w P)" by (simp add: local_set_def)
    then show ?thesis using m [of P] card_Suc_Diff1 [of "local_set {} w P" c] by (cases "P (cl w c)") auto
  qed
  show "distinct (serv_list v) \<and> set (serv_list v) = local_set {c} w IsServer" using l(1,2) m [of IsServer] by (auto simp: lists d)
  show "distinct (oper_list v) \<and> set (oper_list v) = local_set {c} w IsAnOper" using l(3,4) m [of IsAnOper] by (auto simp: lists d)
  show "distinct (local_list v) \<and> set (local_list v) = local_set {c} w IsPerson" using l(5,6) m [of IsPerson] by (auto simp: lists d)
  show "count_local v = int (card (local_set {c} w IsClient)) \<and> count_myserver v = int (card (local_set {c} w IsServer))"
    using l(7,8) by (simp add: lists d card)
qed

lemma from_of_update: "from_of (k\<lparr>null_from := True\<rparr>) = None"
  by (simp add: from_of_def)

lemma exit_local_net:
  fixes c :: cid and cm :: cstr and w :: world
  assumes "net_inv {} w" "c \<in> living w" "c \<noteq> me w" "MyConnect (cl w c)"
  defines "v \<equiv> exit_local c cm w"
  shows "net_inv {c} v" "client_list v = client_list w" "me v = me w" "hangs v = hangs w" "from_of (cl v c) = None"
    "status (cl v c) = status (cl w c)"
proof -
  obtain os ps t where v: "v = close_connection c (log_out os (closing c (exit_lists c (log_out ps (w\<lparr>iptab := t\<rparr>)))))"
    using exit_local_form unfolding v_def by blast
  have inv: "froms_ok w" "locals_ok {} w" "chan_inv w" using assms(1) by (simp_all add: net_inv_def)
  have world: "client_list v = client_list w" "me v = me w" "client_tab v = client_tab w" "history v = history w"
    "count_server v = count_server w" "count_total v = count_total w" "count_oper v = count_oper w" "count_invisi v = count_invisi w"
    by (simp_all add: v)
  have clv: "cl v d = (if d = c then (cl w c)\<lparr>cflags := cflags (cl w c) OR FLAGS_CLOSING,
      fd := (if fd (cl w c) > -1 then -1 else fd (cl w c)), sendq_len := 0, cl_passwd := [], null_from := True, cl_confs := []\<rparr> else cl w d)" for d
    by (simp add: v close_cl)
  have f: "name (cl v d) = name (cl w d)" "status (cl v d) = status (cl w d)" "umodes (cl v d) = umodes (cl w d)"
    "local_flag (cl v d) = local_flag (cl w d)" "servptr_of (cl v d) = servptr_of (cl w d)" "user (cl v d) = user (cl w d)"
    "cl_serv (cl v d) = cl_serv (cl w d)" for d
    by (simp_all add: clv servptr_of_def)
  have kind: "IsServer (cl v d) = IsServer (cl w d)" "IsClient (cl v d) = IsClient (cl w d)" "IsAnOper (cl v d) = IsAnOper (cl w d)"
    "IsPerson (cl v d) = IsPerson (cl w d)" "MyConnect (cl v d) = MyConnect (cl w d)" for d
    by (simp_all add: IsServer_def IsClient_def IsAnOper_def IsPerson_def MyConnect_def f)
  show "client_list v = client_list w" "me v = me w" "status (cl v c) = status (cl w c)" by (rule world f)+
  show from_c: "from_of (cl v c) = None" by (simp add: clv from_of_def)
  show h: "hangs v = hangs w" by (simp add: hangs_def fun_eq_iff world f)
  have "froms_ok v"
    using inv(1) from_c by (auto simp: froms_ok_def h world clv split: if_splits)
  moreover have "chan_inv v"
    by (rule chan_inv_cong [OF _ _ _ _ _ _ _ _ _ _ _ _ inv(3)])
      (use chan_inv_joined [OF inv(3)] in \<open>simp_all add: u_chans_def u_invs_def f, simp_all add: v\<close>)
  moreover have "locals_ok {c} v"
  proof -
    have ls: "local_set {c} v P = local_set {c} w P" if "\<And>d. d \<noteq> c \<Longrightarrow> P (cl v d) = P (cl w d)" for P
      using that by (auto simp: local_set_def world kind)
    have l0: "locals_ok {} (log_out ps (w\<lparr>iptab := t\<rparr>))" using inv(2) by (simp add: locals_ok_def local_set_def)
    note e = exit_lists_locals [OF l0, of c]
    have set_eq: "local_set {c} (log_out ps (w\<lparr>iptab := t\<rparr>)) P = local_set {c} w P" for P by (simp add: local_set_def)
    have conns: "distinct (local_conns v) \<and> set (local_conns v) = local_set {c} w (\<lambda>k. fd k > -1)"
    proof -
      have "distinct (local_conns w)" "set (local_conns w) = local_set {} w (\<lambda>k. fd k > -1)"
        using inv(2) unfolding locals_ok_def by blast+
      then show ?thesis using local_set_mem [OF assms(2,4), of "\<lambda>k. fd k > -1"]
        by (auto simp: v local_set_drop [OF assms(2)])
    qed
    show ?thesis
      unfolding locals_ok_def
      using e assms(2,4) conns by (simp add: ls kind clv) (simp add: v set_eq)
  qed
  ultimately show "net_inv {c} v" by (intro net_fields [OF world f assms(1)])
qed

section \<open>No strays, and the whole exit\<close>

lemma fold_idle: "(\<And>x. x \<in> set xs \<Longrightarrow> f x w = w) \<Longrightarrow> fold f xs w = w"
  by (induction xs) auto

lemma no_strays:
  assumes "\<And>d. d \<in> living w \<Longrightarrow> from_of (cl w d) \<noteq> Some s"
  shows "exit_strays s cm w = w"
proof -
  have "fold (exit_stray b s cm) (client_list w) w = w" for b by (rule fold_idle) (simp add: exit_stray_def assms)
  then show ?thesis by (simp add: exit_strays_def)
qed

lemma exit_server_net:
  fixes cptr :: "cid option" and s :: cid and w :: world
  assumes "net_inv X w" "s \<in> living w" "IsServer (cl w s)" "servptr_of (cl w s) = Some (me w) \<Longrightarrow> from_of (cl w s) = None"
  shows "\<exists>w'. exit_server cptr s w = Some w' \<and> net_inv X w' \<and> parted (below w s - {s}) w w'"
proof -
  define cm where "cm = (case (case cl_serv (cl w s) of None \<Rightarrow> None | Some sv \<Rightarrow> sv_up sv) of None \<Rightarrow> ''<Unknown>'' | Some u \<Rightarrow> u) @ '' '' @ name (cl w s)"
  obtain w1 where w1: "remove_dependents cptr s cm w = Some w1" "net_inv X w1" "parted (below w s - {s}) w w1"
    using dependents_gone [OF assms(1-3)] by blast
  have s: "s \<notin> below w s - {s}" by simp
  note same = core_fields(2,3) [OF parted_core [OF w1(3) s]]
  have "\<exists>os. exit_server cptr s w = Some (log_out os w1)"
  proof (cases "servptr_of (cl w1 s) = Some (me w1)")
    case True
    have "from_of (cl w1 d) \<noteq> Some s" if "d \<in> living w1" for d
    proof
      assume "from_of (cl w1 d) = Some s"
      then have "(hangs w1)\<^sup>*\<^sup>* d s" using w1(2) that by (simp add: net_inv_def froms_ok_def)
      then have "d \<in> below w1 s" by (simp add: below_def)
      then have "d = s" using parted_below [OF w1(3) closed_below_rest [OF assms(1)] s] by auto
      moreover have "from_of (cl w1 s) = None" using assms(4) True same w1(3) by (simp add: parted_def)
      ultimately show False using \<open>from_of (cl w1 d) = Some s\<close> by simp
    qed
    then have "exit_strays s cm (log_out os w1) = log_out os w1" for os by (intro no_strays) simp
    then show ?thesis
      unfolding exit_server_def Let_def cm_def [symmetric] w1(1) using True by (simp add: sendto_ops_def) blast
  next
    case False
    then show ?thesis
      unfolding exit_server_def Let_def cm_def [symmetric] w1(1) using log_out_Nil [of w1] by simp metis
  qed
  then obtain os where "exit_server cptr s w = Some (log_out os w1)" by blast
  moreover have "parted (below w s - {s}) w (log_out os w1)" using w1(3) by (simp add: parted_def)
  ultimately show ?thesis using w1(2) by auto
qed

lemma exit_rest:
  fixes cptr :: "cid option" and c frm :: cid and cm :: cstr and w :: world
  assumes "net_inv X w" "c \<in> living w" "c \<noteq> me w" "c \<in> X \<or> \<not> MyConnect (cl w c)" "X \<subseteq> {c}"
    "IsServer (cl w c) \<Longrightarrow> servptr_of (cl w c) = Some (me w) \<Longrightarrow> from_of (cl w c) = None"
  shows "\<exists>w1. (if IsServer (cl w c) then exit_server cptr c w else Some w) = Some w1 \<and>
    net_inv {} (exit_one_client cptr c frm cm w1) \<and> living (exit_one_client cptr c frm cm w1) = living w - below w c"
proof -
  have "\<exists>w1. (if IsServer (cl w c) then exit_server cptr c w else Some w) = Some w1 \<and> net_inv X w1 \<and> parted (below w c - {c}) w w1"
  proof (cases "IsServer (cl w c)")
    case False
    have "below w c = {c}" using leaf_no_server [OF assms(1) False assms(3)] below_split [OF assms(1), of c] by (auto simp: behind_def)
    then show ?thesis using False assms(1) parted_refl by auto
  qed (use exit_server_net [OF assms(1,2) _ assms(6)] in auto)
  then obtain w1 where w1: "(if IsServer (cl w c) then exit_server cptr c w else Some w) = Some w1" "net_inv X w1" "parted (below w c - {c}) w w1"
    by blast
  have c: "c \<notin> below w c - {c}" by simp
  have c1: "c \<in> living w1" "c \<noteq> me w1" "c \<in> X \<or> \<not> MyConnect (cl w1 c)"
    using assms(2-4) parted_living [OF w1(3)] core_fields(11) [OF parted_core [OF w1(3) c]] w1(3) by (auto simp: parted_def)
  have leaf: "\<not> hangs w1 d c" for d
  proof
    assume "hangs w1 d c"
    then have d: "d \<notin> below w c - {c}" "hangs w d c" using parted_hangs [OF w1(3)] by auto
    then show False using below_step [OF d(2)] below_self [of d w] not_below_child [OF assms(1) d(2)] by auto
  qed
  note e = exit_one_net [OF w1(2) c1(1,2) leaf c1(3), of cptr frm cm]
  have gone: "living (exit_one_client cptr c frm cm w1) = living w - below w c"
    using parted_living [OF e(2)] parted_living [OF w1(3)] below_self [of c w] by auto
  then have "c \<notin> living (exit_one_client cptr c frm cm w1)" using below_self [of c w] by simp
  moreover have "locals_ok X (exit_one_client cptr c frm cm w1)" using e(1) by (simp add: net_inv_def)
  ultimately have "locals_ok (X - {c}) (exit_one_client cptr c frm cm w1)" using locals_shrink by blast
  moreover have X: "X - {c} = {}" using assms(5) by auto
  ultimately have "locals_ok {} (exit_one_client cptr c frm cm w1)" by (simp only: X)
  then have "net_inv {} (exit_one_client cptr c frm cm w1)" using e(1) by (simp add: net_inv_def)
  then show ?thesis using w1(1) gone by blast
qed

lemma exit_client_effect:
  assumes "net_inv {} w" "c \<in> living w" "c \<noteq> me w"
  shows "\<exists>w'. exit_client cptr c frm cm w = Some (if cptr = Some c then CLIENT_EXITED else 0, w') \<and>
    net_inv {} w' \<and> living w' = living w - below w c"
proof (cases "MyConnect (cl w c)")
  case True
  note l = exit_local_net [OF assms True, of cm]
  have b: "below (exit_local c cm w) c = below w c" by (simp add: below_def l(4))
  obtain w1 where "(if IsServer (cl (exit_local c cm w) c) then exit_server cptr c (exit_local c cm w) else Some (exit_local c cm w)) = Some w1"
      "net_inv {} (exit_one_client cptr c frm cm w1)" "living (exit_one_client cptr c frm cm w1) = living w - below w c"
    using exit_rest [OF l(1), of c cptr frm cm] assms(2,3) unfolding l(2,3,5) b by auto
  then show ?thesis unfolding exit_client_def Let_def if_P [OF True] by (simp only: option.map) blast
next
  case False
  have "from_of (cl w c) = None" if "IsServer (cl w c)" "servptr_of (cl w c) = Some (me w)"
    using that False assms by (auto simp: net_inv_def links_ok_def hangs_def)
  then obtain w1 where "(if IsServer (cl w c) then exit_server cptr c w else Some w) = Some w1"
      "net_inv {} (exit_one_client cptr c frm cm w1)" "living (exit_one_client cptr c frm cm w1) = living w - below w c"
    using exit_rest [OF assms, of cptr frm cm] False by auto
  then show ?thesis unfolding exit_client_def Let_def if_not_P [OF False] by (simp only: option.map) blast
qed

end
