(* ===== verification/ExitFlud.thy ===== *)
theory ExitFlud
  imports ExitSpec
begin

text \<open>
  The records of the flood protection while clients exit: senders and targets agree, and a client
  that is gone is on no list, because \<open>release_client_state\<close> takes it off both sides.
\<close>

section \<open>Agreement of the two sides\<close>

text \<open>A channel whose records were freed (\<open>dangling\<close>) counts as one without records.\<close>

definition flud_sides :: "world \<Rightarrow> bool" where
  "flud_sides w \<longleftrightarrow>
     (\<forall>t c. t \<in> set (fludees (cl w c)) \<longleftrightarrow> \<not> dangling w t \<and> c \<in> fl_fluder ` set (fluders_of w t)) \<and>
     (\<forall>c. fluders (cl w c) \<noteq> [] \<longrightarrow> MyConnect (cl w c))"

definition flud_refs :: "world \<Rightarrow> bool" where
  "flud_refs w \<longleftrightarrow> flud_sides w \<and> distinct (client_list w) \<and>
     (\<forall>c. c \<notin> living w \<longrightarrow> fludees (cl w c) = [] \<and> fluders (cl w c) = [])"

definition flud_view :: "world \<Rightarrow> (cid \<Rightarrow> target list \<times> fludbot list \<times> bool) \<times> (chid \<Rightarrow> fludbot list \<times> bool) \<times> cid list" where
  "flud_view w = (\<lambda>c. (fludees (cl w c), fluders (cl w c), local_flag (cl w c)),
     \<lambda>x. (ch_fluders (ch w x), ch_fluders_freed (ch w x)), client_list w)"

lemma view_fields:
  "flud_view v = flud_view w \<longleftrightarrow> (\<forall>c. fludees (cl v c) = fludees (cl w c) \<and> fluders (cl v c) = fluders (cl w c) \<and>
     local_flag (cl v c) = local_flag (cl w c)) \<and>
     (\<forall>x. ch_fluders (ch v x) = ch_fluders (ch w x) \<and> ch_fluders_freed (ch v x) = ch_fluders_freed (ch w x)) \<and>
     client_list v = client_list w"
  by (auto simp: flud_view_def fun_eq_iff)

lemma view_refs: "flud_view v = flud_view w \<Longrightarrow> flud_refs v = flud_refs w"
  by (simp add: view_fields flud_refs_def flud_sides_def fluders_of_def dangling_def MyConnect_def split: target.split)

lemma refs_view: "flud_refs w \<Longrightarrow> flud_view v = flud_view w \<Longrightarrow> flud_refs v"
  using view_refs by blast

lemma view_sides: "flud_view v = flud_view w \<Longrightarrow> flud_sides v = flud_sides w"
  by (simp add: view_fields flud_sides_def fluders_of_def dangling_def MyConnect_def split: target.split)

named_theorems view_simps \<open>steps that leave the flood records alone\<close>

lemma view_upd_cl [view_simps]:
  "fludees k = fludees (cl w c) \<Longrightarrow> fluders k = fluders (cl w c) \<Longrightarrow> local_flag k = local_flag (cl w c) \<Longrightarrow>
    flud_view (w\<lparr>clients := (clients w)(c := k)\<rparr>) = flud_view w"
  by (simp add: view_fields)

lemma view_upd_ch [view_simps]:
  "ch_fluders k = ch_fluders (ch w x) \<Longrightarrow> ch_fluders_freed k = ch_fluders_freed (ch w x) \<Longrightarrow>
    flud_view (w\<lparr>chans := (chans w)(x := k)\<rparr>) = flud_view w"
  by (simp add: view_fields)

lemma view_world [view_simps]:
  "flud_view (log_out os w) = flud_view w" "flud_view (ts_warn f a w) = flud_view w" "flud_view (w\<lparr>history := hs\<rparr>) = flud_view w"
  "flud_view (w\<lparr>chan_list := cs\<rparr>) = flud_view w" "flud_view (w\<lparr>chan_tab := ct, count_chan := n\<rparr>) = flud_view w"
  "flud_view (w\<lparr>client_tab := tb\<rparr>) = flud_view w" "flud_view (update_client_exit_stats c w) = flud_view w"
  "flud_view (w\<lparr>sstat := st\<rparr>) = flud_view w" "flud_view (w\<lparr>local_conns := l\<rparr>) = flud_view w"
  "flud_view (w\<lparr>confs := cs1\<rparr>) = flud_view w" "flud_view (w\<lparr>classes := cs2\<rparr>) = flud_view w" "flud_view (w\<lparr>nextconnect := n\<rparr>) = flud_view w"
  "flud_view (w\<lparr>iptab := t\<rparr>) = flud_view w"
  by (simp_all add: view_fields log_out_def ts_warn_def send_defs update_client_exit_stats_def Let_def)

lemma view_fold: "(\<And>x v. flud_view (f x v) = flud_view v) \<Longrightarrow> flud_view (fold f xs w) = flud_view w"
  by (induction xs arbitrary: w) simp_all

lemma view_upd_user [view_simps]: "flud_view (upd_user c f w) = flud_view w"
  unfolding upd_user_def by (simp add: view_simps)

lemma view_invites [view_simps]: "flud_view (del_invite c x w) = flud_view w" "flud_view (del_all_invites x w) = flud_view w"
proof -
  show e: "flud_view (del_invite c x w) = flud_view w" for c x w by (simp add: del_invite_def view_simps)
  show "flud_view (del_all_invites x w) = flud_view w" unfolding del_all_invites_def by (rule view_fold) (rule e)
qed

lemma view_bans [view_simps]: "flud_view (free_bans_exceptions_denies x w) = flud_view w"
  by (simp add: free_bans_exceptions_denies_def view_simps)

lemma view_unlink [view_simps]: "flud_view (unlink_from_server c w) = flud_view w"
  by (simp add: unlink_from_server_def upd_serv_def Let_def view_simps)

section \<open>Records of a channel\<close>

lemma fold_unfludee:
  "set (fludees (cl (fold (\<lambda>b. remove_fludee_reference (fl_fluder b) t) bs w) c)) =
     (if c \<in> fl_fluder ` set bs then set (fludees (cl w c)) - {t} else set (fludees (cl w c)))"
  "fluders (cl (fold (\<lambda>b. remove_fludee_reference (fl_fluder b) t) bs w) c) = fluders (cl w c)"
  "local_flag (cl (fold (\<lambda>b. remove_fludee_reference (fl_fluder b) t) bs w) c) = local_flag (cl w c)"
  "chans (fold (\<lambda>b. remove_fludee_reference (fl_fluder b) t) bs w) = chans w"
  "client_list (fold (\<lambda>b. remove_fludee_reference (fl_fluder b) t) bs w) = client_list w"
  by (induction bs arbitrary: w) (auto simp: remove_fludee_reference_def)

lemma sidesD:
  assumes "flud_sides w"
  shows "t \<in> set (fludees (cl w c)) \<longleftrightarrow> \<not> dangling w t \<and> c \<in> fl_fluder ` set (fluders_of w t)"
    "fluders (cl w c) \<noteq> [] \<Longrightarrow> MyConnect (cl w c)"
  using assms unfolding flud_sides_def by blast+

lemma refs_free_fluders_channel:
  assumes "flud_refs w"
  shows "flud_refs (free_fluders_channel x w)"
proof -
  define v where "v = free_fluders_channel x w"
  have s: "flud_sides w" "distinct (client_list w)" "\<And>c. c \<notin> living w \<Longrightarrow> fludees (cl w c) = [] \<and> fluders (cl w c) = []"
    using assms by (simp_all add: flud_refs_def)
  note u = fold_unfludee [of "TChannel x" "ch_fluders (ch w x)" w]
  have f: "fluders (cl v c) = fluders (cl w c)" "local_flag (cl v c) = local_flag (cl w c)" "client_list v = client_list w" for c
    by (simp_all add: v_def free_fluders_channel_def u)
  have e: "set (fludees (cl v c)) = (if c \<in> fl_fluder ` set (ch_fluders (ch w x)) then set (fludees (cl w c)) - {TChannel x} else set (fludees (cl w c)))" for c
    by (simp add: v_def free_fluders_channel_def u)
  have fl: "fluders_of v t = fluders_of w t" for t
    by (cases t) (simp_all add: v_def fluders_of_def free_fluders_channel_def u)
  have d: "dangling v t = (dangling w t \<or> t = TChannel x \<and> ch_fluders (ch w x) \<noteq> [])" for t
    by (cases t) (auto simp: v_def dangling_def free_fluders_channel_def u)
  have "t \<in> set (fludees (cl v c)) \<longleftrightarrow> \<not> dangling v t \<and> c \<in> fl_fluder ` set (fluders_of v t)" for t c
  proof (cases "t = TChannel x")
    case True
    have "fluders_of w (TChannel x) = ch_fluders (ch w x)" by (simp add: fluders_of_def)
    then show ?thesis using sidesD(1) [OF s(1), of "TChannel x" c] by (auto simp: True e d fl)
  next
    case False
    then show ?thesis using sidesD(1) [OF s(1), of t c] by (simp add: e d fl)
  qed
  then have "flud_sides v" using sidesD(2) [OF s(1)] by (simp add: flud_sides_def f MyConnect_def)
  moreover have "set (fludees (cl v c)) = {}" "fluders (cl v c) = []" if "c \<notin> living v" for c using s(3) that by (simp_all add: e f)
  ultimately show ?thesis using s(2) by (simp add: flud_refs_def v_def [symmetric] f)
qed

lemma refs_fold: "(\<And>x v. flud_refs v \<Longrightarrow> flud_refs (f x v)) \<Longrightarrow> flud_refs w \<Longrightarrow> flud_refs (fold f xs w)"
  by (induction xs arbitrary: w) simp_all

lemma refs_sub1: "flud_refs w \<Longrightarrow> flud_refs (sub1_from_channel x w)"
proof -
  assume w: "flud_refs w"
  have j: "flud_refs (free_fluders_channel x (del_all_invites x v))" if "flud_refs v" for v
    using refs_free_fluders_channel [of "del_all_invites x v"] view_refs [OF view_invites(2) [of x v]] that by simp
  have f: "flud_refs (free_channel x v)" if "flud_refs v" for v
  proof -
    let ?v1 = "free_bans_exceptions_denies x (del_all_invites x v)"
    let ?v2 = "?v1\<lparr>chan_list := remove1 x (chan_list ?v1)\<rparr>"
    have "flud_view ?v2 = flud_view v" by (simp only: view_simps)
    then have "flud_refs (free_fluders_channel x ?v2)" using view_refs that refs_free_fluders_channel by blast
    then show ?thesis unfolding free_channel_def Let_def by (subst view_refs [OF view_world(5)])
  qed
  have u: "flud_refs (upd_ch x (\<lambda>k. k\<lparr>users := n\<rparr>) v)" if "flud_refs v" for v n
    using that view_refs [OF view_upd_ch [of "(ch v x)\<lparr>users := n\<rparr>" v x]] by simp
  show ?thesis unfolding sub1_from_channel_def Let_def using u [OF w] u [OF u [OF w]] j f
    by (simp split del: if_split split: if_split)
qed

lemma refs_leave: "flud_refs w \<Longrightarrow> flud_refs (remove_user_from_channel c x w)"
  unfolding remove_user_from_channel_def by (rule refs_sub1, erule refs_view) (simp add: view_simps)

lemma refs_leave_channels: "flud_refs w \<Longrightarrow> flud_refs (leave_channels c w)"
proof -
  assume "flud_refs w"
  then have "flud_refs (fold (remove_user_from_channel c) (u_chans (cl w c)) w)" by (rule refs_fold [rotated]) (rule refs_leave)
  then show ?thesis unfolding leave_channels_def Let_def by (rule refs_fold [rotated], elim refs_view) (simp add: view_simps)
qed

lemma refs_log: "flud_refs (log_out os w) = flud_refs w"
  by (rule view_refs) (simp add: view_simps)

lemma refs_notify: "flud_refs w \<Longrightarrow> flud_refs (exit_notify cptr c frm cm w)"
  by (simp add: exit_notify_def Let_def send_defs refs_log refs_leave_channels split: option.split)

section \<open>Records of a client\<close>

definition senders :: "world \<Rightarrow> target \<Rightarrow> cid set" where
  "senders w t = fl_fluder ` set (fluders_of w t)"

lemma fold_unfluder:
  fixes w :: world and c :: cid and ts :: "target list"
  assumes "\<And>e. TClient e \<in> set ts \<Longrightarrow> MyConnect (cl w e)"
  defines "v \<equiv> fold (free_fludee c) ts w"
  shows "fluders_of v t = (if t \<in> set ts then remove_fluder_reference (fluders_of w t) c else fluders_of w t)"
    "fludees (cl v d) = fludees (cl w d)" "local_flag (cl v d) = local_flag (cl w d)" "client_list v = client_list w"
    "dangling v t = dangling w t"
proof -
  have "(\<forall>t. fluders_of v t = (if t \<in> set ts then remove_fluder_reference (fluders_of w t) c else fluders_of w t)) \<and>
      (\<forall>d. fludees (cl v d) = fludees (cl w d) \<and> local_flag (cl v d) = local_flag (cl w d)) \<and> client_list v = client_list w \<and>
      (\<forall>t. dangling v t = dangling w t)"
    using assms(1) unfolding v_def
  proof (induction ts arbitrary: w)
    case (Cons s ts)
    let ?w = "free_fludee c s w"
    have one: "fluders_of ?w t = (if t = s then remove_fluder_reference (fluders_of w t) c else fluders_of w t)"
      "fludees (cl ?w d) = fludees (cl w d)" "local_flag (cl ?w d) = local_flag (cl w d)" "client_list ?w = client_list w"
      "dangling ?w t = dangling w t" for t d
      using Cons.prems [of "case s of TClient e \<Rightarrow> e | TChannel x \<Rightarrow> 0"]
      by (auto simp: free_fludee_def fluders_of_def dangling_def split: target.split)
    have "MyConnect (cl ?w e)" if "TClient e \<in> set ts" for e using Cons.prems [of e] that by (simp add: MyConnect_def one)
    then show ?case using Cons.IH [of ?w] by (auto simp: one remove_fluder_reference_def)
  qed simp
  then show "fluders_of v t = (if t \<in> set ts then remove_fluder_reference (fluders_of w t) c else fluders_of w t)"
    "fludees (cl v d) = fludees (cl w d)" "local_flag (cl v d) = local_flag (cl w d)" "client_list v = client_list w"
    "dangling v t = dangling w t" by blast+
qed

text \<open>\<open>release_client_state\<close> and \<open>free_client\<close> take the client off both sides.\<close>

lemma sides_release:
  fixes u :: world and c :: cid
  assumes "flud_sides u"
  defines "v \<equiv> free_client c (free_fludees c (free_fluders_client c u))"
  shows "flud_sides v" "client_list v = client_list u" "fludees (cl v c) = []" "fluders (cl v c) = []"
    "set (fludees (cl v d)) \<subseteq> set (fludees (cl u d))" "fluders (cl u d) = [] \<Longrightarrow> fluders (cl v d) = []"
proof -
  define x where "x = fold (\<lambda>b. remove_fludee_reference (fl_fluder b) (TClient c)) (fluders (cl u c)) u"
  have "fluders (cl u c) = [] \<or> MyConnect (cl u c)" using sidesD(2) [OF assms(1)] by blast
  then have xe: "free_fluders_client c u = x" by (auto simp: free_fluders_client_def x_def)
  note ux = fold_unfludee [of "TClient c" "fluders (cl u c)" u, folded x_def]
  have fx: "fluders_of x t = fluders_of u t" "dangling x t = dangling u t" for t
    by (simp_all add: fluders_of_def dangling_def ux split: target.split)
  have cs: "fl_fluder ` set (fluders (cl u c)) = senders u (TClient c)" by (simp add: senders_def fluders_of_def)
  have nd: "\<not> dangling u (TClient e)" for e by (simp add: dangling_def)
  have ex: "t \<in> set (fludees (cl x d)) \<longleftrightarrow> t \<noteq> TClient c \<and> t \<in> set (fludees (cl u d))" for t d
    using sidesD(1) [OF assms(1), of "TClient c" d] nd by (auto simp: ux(1) cs senders_def)
  define y where "y = fold (free_fludee c) (fludees (cl x c)) x"
  have loc: "MyConnect (cl x e)" if "TClient e \<in> set (fludees (cl x c))" for e
  proof -
    have "TClient e \<in> set (fludees (cl u c))" using that ex by blast
    then have "fluders (cl u e) \<noteq> []" using sidesD(1) [OF assms(1)] by (auto simp: fluders_of_def)
    then show ?thesis using sidesD(2) [OF assms(1)] by (simp add: MyConnect_def ux)
  qed
  have yx: "fluders_of y t = (if t \<in> set (fludees (cl x c)) then remove_fluder_reference (fluders_of x t) c else fluders_of x t)"
    "fludees (cl y d) = fludees (cl x d)" "local_flag (cl y d) = local_flag (cl x d)" "client_list y = client_list x"
    "dangling y t = dangling x t" for t d
    unfolding y_def using fold_unfluder [OF loc] by blast+
  have v: "v = free_client c y" by (simp add: v_def xe y_def free_fludees_def)
  have vf: "fludees (cl v d) = (if d = c then [] else fludees (cl x d))" "local_flag (cl v d) = local_flag (cl u d)"
    "fluders_of v t = (if t = TClient c then [] else fluders_of y t)" "dangling v t = dangling u t" for d t
  proof -
    show "fludees (cl v d) = (if d = c then [] else fludees (cl x d))" "local_flag (cl v d) = local_flag (cl u d)"
      by (simp_all add: v free_client_def yx(2,3) ux)
    show "fluders_of v t = (if t = TClient c then [] else fluders_of y t)" by (cases t) (auto simp: v free_client_def fluders_of_def)
    show "dangling v t = dangling u t" using yx(5) [of t] fx(2) [of t] by (cases t) (simp_all add: v free_client_def dangling_def)
  qed
  show "client_list v = client_list u" by (simp add: v free_client_def yx(4) ux)
  show c: "fludees (cl v c) = []" "fluders (cl v c) = []" by (simp_all add: v free_client_def)
  show "set (fludees (cl v d)) \<subseteq> set (fludees (cl u d))" using ex by (auto simp: vf(1))
  have sub: "fluders (cl u d) = [] \<Longrightarrow> fluders (cl v d) = []" for d
    using vf(3) [of "TClient d"] yx(1) [of "TClient d"] fx(1) [of "TClient d"]
    by (auto simp: fluders_of_def remove_fluder_reference_def split: if_splits)
  then show "fluders (cl u d) = [] \<Longrightarrow> fluders (cl v d) = []" .
  have sy: "senders v t = (if t = TClient c then {} else if t \<in> set (fludees (cl x c)) then senders u t - {c} else senders u t)" for t
    by (auto simp: senders_def vf(3) yx(1) fx remove_fluder_reference_def)
  have side: "t \<in> set (fludees (cl u d)) \<longleftrightarrow> \<not> dangling u t \<and> d \<in> senders u t" for t d
    using sidesD(1) [OF assms(1)] by (simp add: senders_def)
  have "t \<in> set (fludees (cl v d)) \<longleftrightarrow> \<not> dangling v t \<and> d \<in> senders v t" for t d
    using side [of t d] side [of t c] ex [of t d] ex [of t c] by (auto simp: vf(1,4) sy)
  moreover have "MyConnect (cl v d)" if "fluders (cl v d) \<noteq> []" for d
    using sub that sidesD(2) [OF assms(1), of d] by (auto simp: MyConnect_def vf(2))
  ultimately show "flud_sides v" by (simp add: flud_sides_def senders_def)
qed

lemma view_free_user [view_simps]: "flud_view (free_user c w) = flud_view w"
  by (simp add: free_user_def send_defs view_simps split: option.split)

lemma refs_remove:
  assumes "flud_refs w"
  shows "flud_refs (remove_client_from_list c w)"
proof (cases "c \<notin> set (client_list w) \<or> client_list w = [c]")
  case True
  then show ?thesis using assms by (simp add: remove_client_from_list_def)
next
  case False
  let ?w = "w\<lparr>client_list := remove1 c (client_list w)\<rparr>"
  let ?s = "update_client_exit_stats c ?w"
  define u where "u = (if user (cl ?s c) = None then ?s
      else free_user c (if IsPerson (cl ?s c)
        then ?s\<lparr>history := off_history (add_history (now ?s) (history ?s) c (whowas_of (cl ?s c)) False) c\<rparr> else ?s))"
  have "flud_view u = flud_view ?w" by (simp add: u_def view_simps)
  then have uv: "flud_sides u = flud_sides ?w" "client_list u = remove1 c (client_list w)" "fludees (cl u d) = fludees (cl w d)"
      "fluders (cl u d) = fluders (cl w d)" for d
    using view_sides [of u ?w] by (simp_all add: view_fields)
  have s: "flud_sides w" "distinct (client_list w)" "\<And>d. d \<notin> living w \<Longrightarrow> fludees (cl w d) = [] \<and> fluders (cl w d) = []"
    using assms by (simp_all add: flud_refs_def)
  have "flud_sides ?w" using s(1) by (simp add: flud_sides_def fluders_of_def dangling_def split: target.split)
  then have us: "flud_sides u" using uv(1) by simp
  define v where "v = free_client c (free_fludees c (free_fluders_client c u))"
  have e: "remove_client_from_list c w = v"
    using False by (simp only: remove_client_from_list_def release_client_state_def Let_def v_def u_def if_False)
  note r = sides_release [OF us, where c = c, folded v_def]
  have "fludees (cl v d) = [] \<and> fluders (cl v d) = []" if "d \<notin> living v" for d
  proof (cases "d = c")
    case True
    then show ?thesis using r(3,4) by simp
  next
    case False
    then have "d \<notin> living w" using that s(2) by (simp add: r(2) uv(2))
    then show ?thesis using s(3) [of d] r(5,6) [of d] by (simp add: uv)
  qed
  then show ?thesis using r(1,2) s(2) by (simp add: e flud_refs_def uv(2))
qed

lemma refs_exit_one: "flud_refs w \<Longrightarrow> flud_refs (exit_one_client cptr c frm cm w)"
proof -
  assume w: "flud_refs w"
  have u: "flud_refs (unlink_from_server c w)" using w by (rule refs_view) (simp add: view_simps)
  then have n: "flud_refs (exit_notify cptr c frm cm (unlink_from_server c w))" by (rule refs_notify)
  have t: "flud_refs (v\<lparr>client_tab := tb\<rparr>)" if "flud_refs v" for v tb using that by (rule refs_view) (simp add: view_simps)
  show ?thesis unfolding exit_one_client_def Let_def using u n t refs_remove by (simp add: sendto_ops_def refs_log)
qed

section \<open>Whole exits\<close>

lemma view_kill_mark [view_simps]: "flud_view (kill_mark c w) = flud_view w"
  by (simp add: kill_mark_def view_simps)

lemma refs_mark: "flud_refs w \<Longrightarrow> flud_refs (kill_mark c w)"
  by (erule refs_view) (simp add: view_simps)

lemma refs_remove_users: "remove_users n s cm w = Some w' \<Longrightarrow> flud_refs w \<Longrightarrow> flud_refs w'"
  by (induction n s cm w rule: remove_users.induct) (auto split: option.splits list.splits simp: refs_exit_one refs_mark)

lemma refs_remove_clients:
  "remove_clients n s cm w = Some w' \<Longrightarrow> flud_refs w \<Longrightarrow> flud_refs w'"
  "remove_servers n s cm w = Some w' \<Longrightarrow> flud_refs w \<Longrightarrow> flud_refs w'"
proof (induction n s cm w and n s cm w arbitrary: w' and w' rule: remove_clients_remove_servers.induct)
  case (2 n s cm w)
  then show ?case using refs_remove_users by (auto split: if_splits simp: bind_eq_Some_conv)
next
  case (4 n s cm w)
  then show ?case by (auto split: option.splits list.splits simp: bind_eq_Some_conv refs_exit_one refs_mark)
qed simp_all

lemma send_quits_view:
  "send_quits n s to cm mn w = Some w' \<Longrightarrow> flud_view w' = flud_view w"
  "send_quits_below n as to cm mn w = Some w' \<Longrightarrow> flud_view w' = flud_view w"
proof (induction n s to cm mn w and n "as" to cm mn w arbitrary: w' and w' rule: send_quits_send_quits_below.induct)
  case (2 n s to cm mn w)
  let ?f = "fold (\<lambda>u. sendto_one to (Fmt '':%s QUIT :%s'') [Str (name (cl w u)), Str cm])"
  have f: "flud_view (?f us w) = flud_view w" for us by (rule view_fold) (simp add: send_defs view_simps)
  define below where "below = (case cl_serv (cl w s) of None \<Rightarrow> None
      | Some sv \<Rightarrow> send_quits_below n (sv_servers sv) to cm mn (?f (sv_users sv) w))"
  have b: "flud_view v = flud_view w" if v: "below = Some v" for v
  proof -
    obtain sv where sv: "cl_serv (cl w s) = Some sv" "send_quits_below n (sv_servers sv) to cm mn (?f (sv_users sv) w) = Some v"
      using v by (auto simp: below_def split: option.splits)
    show ?thesis using 2(1) [OF refl refl refl sv(1) sv(2)] f by simp
  qed
  have "w' = sendto_one to (Fmt ''SQUIT %s :%s'') [Str (name (cl w s)), me_name w] w \<or>
      (\<exists>v. below = Some v \<and> (w' = v \<or> w' = sendto_one to (Fmt ''SQUIT %s :%s'') [Str (name (cl w s)), me_name w] v))"
    using 2(2) unfolding send_quits.simps Let_def below_def [symmetric] by (auto split: if_splits)
  then show ?case using b by (auto simp: sendto_one_def view_world(1))
qed (auto simp: bind_eq_Some_conv)

lemma quits_view: "quits_to_links cptr s cm ts w = Some w' \<Longrightarrow> flud_view w' = flud_view w"
  by (induction cptr s cm ts w rule: quits_to_links.induct)
    (auto simp: bind_eq_Some_conv send_quits_view split: if_splits option.splits)

lemma refs_dependents: "remove_dependents cptr s cm w = Some w' \<Longrightarrow> flud_refs w \<Longrightarrow> flud_refs w'"
proof -
  assume d: "remove_dependents cptr s cm w = Some w'" and w: "flud_refs w"
  then obtain v where v: "quits_to_links cptr s cm (local_conns w) w = Some v" "remove_clients (exit_fuel v) s cm v = Some w'"
    by (auto simp: remove_dependents_def bind_eq_Some_conv)
  show ?thesis by (rule refs_remove_clients(1) [OF v(2) refs_view [OF w quits_view [OF v(1)]]])
qed

lemma refs_stray: "flud_refs w \<Longrightarrow> flud_refs (exit_stray srv s cm c w)"
  unfolding exit_stray_def by (simp add: refs_exit_one view_refs [OF view_world(2)])

lemma refs_strays: "flud_refs w \<Longrightarrow> flud_refs (exit_strays s cm w)"
  unfolding exit_strays_def Let_def by (intro refs_fold refs_stray)

lemma refs_server: "exit_server cptr s w = Some w' \<Longrightarrow> flud_refs w \<Longrightarrow> flud_refs w'"
  by (auto simp: exit_server_def Let_def sendto_ops_def refs_log refs_strays dest!: refs_dependents split: if_splits)

lemma view_detach [view_simps]: "flud_view (det_confs_butmask c msk w) = flud_view w"
proof -
  have d: "flud_view (drop_class a v) = flud_view v" for a v
    by (auto simp: drop_class_def Let_def add_links_def view_simps split: option.split)
  have "flud_view (detach_unless msk c a v) = flud_view v" for a v
    using d by (simp add: detach_unless_def detach_conf_def Let_def view_simps)
  then show ?thesis unfolding det_confs_butmask_def by (rule view_fold)
qed

lemma view_hold [view_simps]: "flud_view (hold_reconnect c w) = flud_view w"
  by (simp add: hold_reconnect_def Let_def view_fields split: option.split)

lemma view_exit_local [view_simps]: "flud_view (exit_local c cm w) = flud_view w"
proof -
  have c: "flud_view (close_connection c v) = flud_view v" for v
  proof -
    have 1: "flud_view (hold_reconnect c (v\<lparr>sstat := s\<rparr>)) = flud_view v" for s by (simp add: view_simps)
    have 2: "flud_view (upd_cl c (\<lambda>k. k\<lparr>fd := -1\<rparr>) (u\<lparr>local_conns := l\<rparr>)) = flud_view u" for u l by (simp add: view_fields)
    have 3: "flud_view (upd_cl c (\<lambda>k. k\<lparr>null_from := True\<rparr>) u) = flud_view u"
      "flud_view (upd_cl c (\<lambda>k. k\<lparr>sendq_len := 0, cl_passwd := []\<rparr>) u) = flud_view u" for u by (simp_all add: view_simps)
    have 4: "flud_view (if b then upd_cl c (\<lambda>k. k\<lparr>fd := -1\<rparr>) (u\<lparr>local_conns := l\<rparr>) else u) = flud_view u" for b u l
      by (cases b) (simp_all only: if_True if_False 2)
    show ?thesis unfolding close_connection_def Let_def 3 view_detach 4 by (rule 1)
  qed
  have l: "flud_view (exit_lists c v) = flud_view v" for v by (simp add: exit_lists_def Let_def view_fields)
  have k: "flud_view (closing c v) = flud_view v" for v by (simp add: view_simps)
  have t: "flud_view (v\<lparr>iptab := s\<rparr>) = flud_view v" for v s by (rule view_world(13))
  obtain os ps t' where e: "exit_local c cm w = close_connection c (log_out os (closing c (exit_lists c (log_out ps (w\<lparr>iptab := t'\<rparr>)))))"
    using exit_local_form by blast
  show ?thesis unfolding e c view_world(1) k l t ..
qed

lemma refs_exit_client: "exit_client cptr c frm cm w = Some (r, w') \<Longrightarrow> flud_refs w \<Longrightarrow> flud_refs w'"
proof -
  assume e: "exit_client cptr c frm cm w = Some (r, w')" and w: "flud_refs w"
  let ?w = "if MyConnect (cl w c) then exit_local c cm w else w"
  have 1: "flud_refs ?w" using w by (rule refs_view) (simp add: view_simps)
  obtain v where "(if IsServer (cl ?w c) then exit_server cptr c ?w else Some ?w) = Some v" "w' = exit_one_client cptr c frm cm v"
    using e by (auto simp: exit_client_def Let_def)
  then show ?thesis using 1 refs_exit_one refs_server by (metis option.inject)
qed

end
