(* ===== verification/ExitFuel.thy ===== *)
theory ExitFuel
  imports ExitSpec
begin

text \<open>
  The bounds on the recursions of \<open>exit_client\<close>: a call that returns within one bound returns the same
  within any larger one.
\<close>

lemma users_fuel: "remove_users n s cm w = Some w' \<Longrightarrow> n \<le> m \<Longrightarrow> remove_users m s cm w = Some w'"
proof (induction n s cm w arbitrary: m rule: remove_users.induct)
  case (2 n s cm w)
  obtain m' where m: "m = Suc m'" "n \<le> m'" using 2(3) by (cases m) auto
  obtain sv where sv: "cl_serv (cl w s) = Some sv" using 2(2) by (cases "cl_serv (cl w s)") auto
  show ?case using 2(1) [OF sv] 2(2) m sv by (cases "sv_users sv") simp_all
qed simp

lemma removal_fuel:
  "remove_clients n s cm w = Some w' \<Longrightarrow> n \<le> m \<Longrightarrow> remove_clients m s cm w = Some w'"
  "remove_servers n s cm w = Some w' \<Longrightarrow> n \<le> m \<Longrightarrow> remove_servers m s cm w = Some w'"
proof (induction n s cm w and n s cm w arbitrary: w' m and w' m rule: remove_clients_remove_servers.induct)
  case (2 n s cm w)
  obtain m' where m: "m = Suc m'" "n \<le> m'" using 2(3) by (cases m) auto
  show ?case
  proof (cases "IsMe (cl w s) \<or> cl_serv (cl w s) = None")
    case True
    then show ?thesis using 2(2) m(1) by simp
  next
    case False
    obtain w1 where w1: "remove_servers n s cm w = Some w1" "remove_users n s cm w1 = Some w'"
      using 2(2) unfolding remove_clients.simps if_not_P [OF False] bind_eq_Some_conv by blast
    show ?thesis unfolding m(1) remove_clients.simps if_not_P [OF False]
      using 2(1) [OF False w1(1) m(2)] users_fuel [OF w1(2) m(2)] by simp
  qed
next
  case (4 n s cm w)
  obtain m' where m: "m = Suc m'" "n \<le> m'" using 4(4) by (cases m) auto
  obtain sv where sv: "cl_serv (cl w s) = Some sv" using 4(3) by (cases "cl_serv (cl w s)") auto
  show ?case
  proof (cases "sv_servers sv")
    case Nil
    then show ?thesis using 4(3) m(1) sv by simp
  next
    case (Cons a as)
    define f where "f w1 = exit_one_client None a (me w1) (name (cl w1 (me w1))) (kill_mark a w1)" for w1
    obtain w1 where w1: "remove_clients n a cm w = Some w1" "remove_servers n s cm (f w1) = Some w'"
      using 4(3) unfolding remove_servers.simps sv Cons option.case list.case bind_eq_Some_conv f_def by blast
    show ?thesis unfolding m(1) remove_servers.simps sv Cons option.case list.case
      using 4(1) [OF sv Cons w1(1) m(2)] 4(2) [OF sv Cons w1(1) w1(2) [unfolded f_def] m(2)] by simp
  qed
qed simp_all

lemma quits_fuel:
  "send_quits n s to cm mn w = Some w' \<Longrightarrow> n \<le> m \<Longrightarrow> send_quits m s to cm mn w = Some w'"
  "send_quits_below n as to cm mn w = Some w' \<Longrightarrow> n \<le> m \<Longrightarrow> send_quits_below m as to cm mn w = Some w'"
proof (induction n s to cm mn w and n "as" to cm mn w arbitrary: w' m and w' m rule: send_quits_send_quits_below.induct)
  case (2 n s to cm mn w)
  obtain m' where m: "m = Suc m'" "n \<le> m'" using 2(3) by (cases m) auto
  define below where "below n = (case cl_serv (cl w s) of None \<Rightarrow> None
      | Some sv \<Rightarrow> send_quits_below n (sv_servers sv) to cm mn
          (fold (\<lambda>u. sendto_one to (Fmt '':%s QUIT :%s'') [Str (name (cl w u)), Str cm]) (sv_users sv) w))" for n
  have b: "below m' = Some v" if v: "below n = Some v" for v
  proof -
    obtain sv where sv: "cl_serv (cl w s) = Some sv" using v by (cases "cl_serv (cl w s)") (simp_all add: below_def)
    show ?thesis using 2(1) [OF refl refl refl sv _ m(2), of v] v by (simp add: below_def sv)
  qed
  show ?case using 2(2) b unfolding m(1) send_quits.simps Let_def below_def [symmetric] by (auto split: if_splits)
next
  case (4 n a as to cm mn w)
  obtain v where v: "send_quits n a to cm mn w = Some v" "send_quits_below n as to cm mn v = Some w'"
    using 4(3) unfolding send_quits_below.simps bind_eq_Some_conv by blast
  show ?case using 4(1) [OF v(1) 4(4)] 4(2) [OF v 4(4)] by simp
qed simp_all

end
