(* ===== verification/ExitProps.thy ===== *)
theory ExitProps
  imports ExitFlud ExitFuel Demo
begin

text \<open>
  The properties of \<open>exit_client\<close>, and a network on which they are applied: that of \<open>Demo\<close>
  with the lists of its servers.
\<close>

section \<open>A concrete network\<close>

definition demo_net :: world where
  "demo_net = demo\<lparr>clients := (clients demo)
       (0 := (cl demo 0)\<lparr>cl_serv := Some \<lparr>sv_up = None, sv_servers = [13], sv_users = [15, 12, 11], sv_usercnt = 3, sv_nline = None\<rparr>\<rparr>,
        13 := (cl demo 13)\<lparr>cl_serv := Some \<lparr>sv_up = Some ''irc.example.net'', sv_servers = [], sv_users = [14], sv_usercnt = 1, sv_nline = Some 0\<rparr>\<rparr>),
     client_list := [15, 14, 13, 12, 11, 0], local_conns := [15, 13, 12, 11], count_server := 2, count_total := 4, count_oper := 1,
     count_local := 3, count_myserver := 1\<rparr>"

lemma demo_zero: "c \<notin> {0, 11, 12, 13, 14, 15} \<Longrightarrow> cl demo c = zero_client" "cl demo 0 = zero_client\<lparr>name := ''irc.example.net'', status := STAT_ME\<rparr>"
  "cl demo 13 = zero_client\<lparr>name := ''hub.example.net'', status := STAT_SERVER, local_flag := True, fd := 13, cfrom := 13,
     hopcount := 1, caps := CAP_EX OR CAP_IE\<rparr>"
  "cl demo 14 = (local_user 14 ''carol'')\<lparr>local_flag := False, fd := -1, cfrom := 13, servptr := 13, hopcount := 1\<rparr>"
  "cl demo 15 = (local_user 15 ''oper'')\<lparr>umodes := FLAGS_OPER OR FLAGS_SERVNOTICE\<rparr>"
  by (simp_all add: demo_cl) (simp_all add: demo0_def boot_def)

lemma demo_more: "history demo = initwhowas" "oper_list demo = [15]" "local_list demo = [15, 12, 11]" "count_invisi demo = 0"
  by (simp_all add: demo_def add_user_to_channel_def demo1_simps demo0_cl demo1_def new_channel_def)
    (simp_all add: demo0_def boot_def upd_user_def)

lemma demo_net_world [simp]:
  "client_list demo_net = [15, 14, 13, 12, 11, 0]" "me demo_net = 0" "history demo_net = initwhowas" "client_tab demo_net = client_tab demo0"
  "serv_list demo_net = [13]" "oper_list demo_net = [15]" "local_list demo_net = [15, 12, 11]" "local_conns demo_net = [15, 13, 12, 11]"
  "count_server demo_net = 2" "count_total demo_net = 4" "count_oper demo_net = 1" "count_invisi demo_net = 0" "count_local demo_net = 3"
  "count_myserver demo_net = 1"
  by (simp_all add: demo_net_def demo_rest demo_more demo_tab)

lemma demo_net_cl:
  "cl demo_net 0 = (cl demo 0)\<lparr>cl_serv := Some \<lparr>sv_up = None, sv_servers = [13], sv_users = [15, 12, 11], sv_usercnt = 3, sv_nline = None\<rparr>\<rparr>"
  "cl demo_net 13 = (cl demo 13)\<lparr>cl_serv := Some \<lparr>sv_up = Some ''irc.example.net'', sv_servers = [], sv_users = [14], sv_usercnt = 1, sv_nline = Some 0\<rparr>\<rparr>"
  "c \<noteq> 0 \<Longrightarrow> c \<noteq> 13 \<Longrightarrow> cl demo_net c = cl demo c"
  by (simp_all add: demo_net_def)

lemma demo_cases:
  obtains "c = 0" | "c = 11" | "c = 12" | "c = 13" | "c = 14" | "c = 15" | "c \<notin> {0, 11, 12, 13, 14, 15::cid}"
  by blast

lemmas demo_clients = demo_net_cl demo_zero demo_cl(1,2)

lemma demo_net_fields:
  "status (cl demo_net c) = (if c = 0 then STAT_ME else if c = 13 then STAT_SERVER else if c \<in> {11, 12, 14, 15} then STAT_CLIENT else 0)"
  "local_flag (cl demo_net c) = (c \<in> {11, 12, 13, 15})" "fd (cl demo_net c) = (if c \<in> {11, 12, 13, 15} then int c else -1)"
  "from_of (cl demo_net c) = Some (if c = 14 then 13 else if c \<in> {11, 12, 13, 15} then c else 0)"
  "servptr_of (cl demo_net c) = Some (if c = 14 then 13 else 0)"
  "umodes (cl demo_net c) = (if c = 15 then FLAGS_OPER OR FLAGS_SERVNOTICE else 0)"
  "(user (cl demo_net c) = None) = (c \<notin> {11, 12, 14, 15})"
  by (cases rule: demo_cases [of c];
      simp add: demo_clients from_of_def servptr_of_def; simp add: local_user_def zero_client_def)+

lemma demo_net_kinds:
  "IsServer (cl demo_net c) = (c = 13)" "IsMe (cl demo_net c) = (c = 0)" "IsClient (cl demo_net c) = (c \<in> {11, 12, 14, 15})"
  "IsPerson (cl demo_net c) = (c \<in> {11, 12, 14, 15})" "IsAnOper (cl demo_net c) = (c = 15)" "IsInvisible (cl demo_net c) = False"
  "MyConnect (cl demo_net c) = (c \<in> {11, 12, 13, 15})" "(fd (cl demo_net c) > -1) = (c \<in> {11, 12, 13, 15})"
  by (auto simp: IsServer_def IsMe_def IsClient_def IsPerson_def IsAnOper_def IsInvisible_def MyConnect_def demo_net_fields
      STAT_ME_def STAT_SERVER_def STAT_CLIENT_def has_flag_def FLAGS_OPER_def FLAGS_LOCOP_def FLAGS_SERVNOTICE_def FLAGS_INVISIBLE_def split: if_splits)

lemma demo_hangs: "hangs demo_net c p \<longleftrightarrow> (c \<in> {11, 12, 13, 15} \<and> p = 0) \<or> (c = 14 \<and> p = 13)"
  by (auto simp: hangs_def demo_net_fields)

lemma demo_net_serv:
  "cl_serv (cl demo_net c) = (if c = 0 then Some \<lparr>sv_up = None, sv_servers = [13], sv_users = [15, 12, 11], sv_usercnt = 3, sv_nline = None\<rparr>
     else if c = 13 then Some \<lparr>sv_up = Some ''irc.example.net'', sv_servers = [], sv_users = [14], sv_usercnt = 1, sv_nline = Some 0\<rparr> else None)"
  by (cases rule: demo_cases [of c]; simp add: demo_clients; simp add: local_user_def zero_client_def)

lemma demo_net_sides:
  "u_chans (cl demo_net c) = (if c = 11 \<or> c = 12 then [0] else [])" "u_invs (cl demo_net c) = []"
  "user (cl demo_net c) = user (cl demo c)"
  by (cases rule: demo_cases [of c]; simp add: demo_clients u_chans_def u_invs_def; simp add: local_user_def zero_client_def fresh_user_def)+

lemma demo_net_name: "name (cl demo_net c) = demo_name c"
  using demo_name_eq(1) [of c] by (cases "c = 0"; cases "c = 13"; simp add: demo_net_cl(1,2)) (simp add: demo_net_cl(3))

lemma demo_net_roots: "roots_ok demo_net"
  by (auto simp: roots_ok_def demo_net_kinds demo_net_fields)

lemma demo_net_links: "links_ok demo_net"
proof -
  have "\<exists>rank :: cid \<Rightarrow> nat. \<forall>c p. hangs demo_net c p \<longrightarrow> rank p < rank c"
    by (intro exI [of _ "\<lambda>c. if c = 0 then 0 else if c = 14 then 2 else 1"]) (auto simp: demo_hangs)
  then show ?thesis by (auto simp: links_ok_def demo_hangs demo_net_kinds)
qed

lemma demo_net_servs: "servs_ok demo_net"
  by (auto simp: servs_ok_def sv_holds_def demo_net_serv demo_hangs demo_net_kinds split: if_splits)

lemma demo_net_froms: "froms_ok demo_net"
proof -
  have "(hangs demo_net)\<^sup>*\<^sup>* 14 13" by (rule r_into_rtranclp) (simp add: demo_hangs)
  then show ?thesis by (auto simp: froms_ok_def demo_net_fields)
qed

lemma demo_net_people: "people_ok demo_net"
  by (auto simp: people_ok_def demo_net_fields demo_net_kinds demo_net_sides(1,2) demo_net_name demo_names split: if_splits)

lemma demo_net_nicks: "nicks_ok demo_net"
  unfolding nicks_ok_def
  by (intro exI [of _ "{15, 14, 13, 12, 11}"]) (use demo_tab_ok demo_names_ok in \<open>simp add: demo_net_name\<close>)

lemma demo_net_past: "past_ok demo_net"
  using whowas_ok_init by (simp add: past_ok_def initwhowas_def)

lemma demo_net_totals: "totals_ok demo_net"
proof -
  have "{c \<in> living demo_net. c = 13} = {13}" "{c \<in> living demo_net. c \<in> {11, 12, 14, 15}} = {11, 12, 14, 15}"
    "{c \<in> living demo_net. c \<in> {11, 12, 14, 15} \<and> c = 15} = {15}" by auto
  then show ?thesis unfolding totals_ok_def Let_def demo_net_kinds by simp
qed

lemma demo_net_locals: "locals_ok {} demo_net"
proof -
  have s: "local_set {} demo_net IsServer = {13}" "local_set {} demo_net IsAnOper = {15}" "local_set {} demo_net IsPerson = {15, 12, 11}"
    "local_set {} demo_net (\<lambda>k. fd k > -1) = {15, 13, 12, 11}" "local_set {} demo_net IsClient = {15, 12, 11}"
    unfolding local_set_def demo_net_kinds by auto
  show ?thesis unfolding locals_ok_def s by simp
qed

lemma demo_net_chans: "chan_inv demo_net"
  by (rule chan_inv_cong [OF _ _ _ _ _ _ _ _ _ _ _ _ demo_inv])
    (use chan_inv_joined [OF demo_inv] demo_net_sides(3) in \<open>simp_all add: u_chans_def u_invs_def\<close>, simp_all add: demo_net_def)

lemma demo_net_ok: "net_inv {} demo_net"
  by (simp add: net_inv_def demo_net_roots demo_net_links demo_net_servs demo_net_froms demo_net_people demo_net_nicks
      demo_net_past demo_net_locals demo_net_totals demo_net_chans)

lemma demo_below: "below demo_net 13 = {13, 14}"
proof -
  have "d \<in> {13, 14}" if "(hangs demo_net)\<^sup>*\<^sup>* d 13" for d
    using that by (induction rule: converse_rtranclp_induct) (auto simp: demo_hangs)
  moreover have "(hangs demo_net)\<^sup>*\<^sup>* 14 13" by (rule r_into_rtranclp) (simp add: demo_hangs)
  ultimately show ?thesis by (auto simp: below_def)
qed

lemma demo_net_flud: "flud_refs demo_net"
proof -
  have "fludees (cl demo_net c) = [] \<and> fluders (cl demo_net c) = []" for c
    by (cases rule: demo_cases [of c]; simp add: demo_clients; simp add: local_user_def zero_client_def)
  moreover have "ch_fluders (ch demo_net x) = []" for x
    by (simp add: demo_net_def demo_def add_user_to_channel_def demo1_simps demo0_cl demo1_def new_channel_def)
      (simp add: demo0_def boot_def upd_user_def zero_channel_def)
  ultimately show ?thesis by (simp add: flud_refs_def flud_sides_def fluders_of_def split: target.split)
qed

section \<open>Clients that left\<close>

text \<open>
  Every place of the state that holds a pointer to a client: the client list, channels and
  invitations, the name table, the nick history, the lists of local clients, servers and operators,
  the lists of a server, \<open>from\<close> and \<open>servptr\<close> of a client, and both sides of the flood records.
\<close>

definition referred :: "world \<Rightarrow> cid \<Rightarrow> bool" where
  "referred w d \<longleftrightarrow> d \<in> living w \<or>
     (\<exists>x. d \<in> m_client ` set (members (ch w x)) \<or> d \<in> set (invites (ch w x))) \<or>
     (\<exists>i. d \<in> set (bucket (client_tab w) i)) \<or> (\<exists>i. ww_online (WHOWAS (history w) i) = Some d) \<or>
     d \<in> set (serv_list w) \<union> set (oper_list w) \<union> set (local_list w) \<union> set (local_conns w) \<or>
     (\<exists>p \<in> living w. \<exists>sv. cl_serv (cl w p) = Some sv \<and> d \<in> set (sv_servers sv) \<union> set (sv_users sv)) \<or>
     (\<exists>e \<in> living w. from_of (cl w e) = Some d \<or> e \<noteq> me w \<and> servptr_of (cl w e) = Some d) \<or>
     (\<exists>t. \<not> dangling w t \<and> d \<in> fl_fluder ` set (fluders_of w t)) \<or> (\<exists>e. TClient d \<in> set (fludees (cl w e)))"

lemma hangs_living: "links_ok w \<Longrightarrow> (hangs w)\<^sup>*\<^sup>* c p \<Longrightarrow> c \<in> living w \<Longrightarrow> p \<in> living w"
  by (erule rtranclp.cases) (auto simp: links_ok_def)

lemma gone_unlisted:
  assumes "net_inv {} w" "d \<notin> living w"
  shows "d \<notin> m_client ` set (members (ch w x))" "d \<notin> set (invites (ch w x))"
    "d \<notin> set (bucket (client_tab w) i)" "ww_online (WHOWAS (history w) i) \<noteq> Some d"
    "d \<notin> set (serv_list w) \<union> set (oper_list w) \<union> set (local_list w) \<union> set (local_conns w)"
    "p \<in> living w \<Longrightarrow> cl_serv (cl w p) = Some sv \<Longrightarrow> d \<notin> set (sv_servers sv) \<union> set (sv_users sv)"
    "e \<in> living w \<Longrightarrow> from_of (cl w e) \<noteq> Some d" "e \<in> living w \<Longrightarrow> e \<noteq> me w \<Longrightarrow> servptr_of (cl w e) \<noteq> Some d"
proof -
  have inv: "chan_inv w" "people_ok w" "nicks_ok w" "past_ok w" "locals_ok {} w" "servs_ok w" "links_ok w" "froms_ok w"
    using assms(1) by (simp_all add: net_inv_def)
  have "user (cl w d) = None" using inv(2) assms(2) by (simp add: people_ok_def)
  then have "u_chans (cl w d) = []" "u_invs (cl w d) = []" by (rule no_user_sides)+
  then show "d \<notin> m_client ` set (members (ch w x))" "d \<notin> set (invites (ch w x))"
    using inv(1) by (auto simp: chan_inv_def memb_ok_def invite_ok_def image_iff)
  show "d \<notin> set (bucket (client_tab w) i)" using inv(3) assms(2) by (auto simp: nicks_ok_def tab_ok_def)
  show "ww_online (WHOWAS (history w) i) \<noteq> Some d" using inv(4) assms(2) by (auto simp: past_ok_def)
  show "d \<notin> set (serv_list w) \<union> set (oper_list w) \<union> set (local_list w) \<union> set (local_conns w)"
    using inv(5) assms(2) by (simp add: locals_ok_def local_set_def)
  show "d \<notin> set (sv_servers sv) \<union> set (sv_users sv)" if "p \<in> living w" "cl_serv (cl w p) = Some sv"
    using that inv(6) assms(2) by (auto simp: servs_ok_def sv_holds_def hangs_def)
  show "from_of (cl w e) \<noteq> Some d" if "e \<in> living w"
    using that inv(8) hangs_living [OF inv(7)] assms(2) unfolding froms_ok_def by blast
  show "servptr_of (cl w e) \<noteq> Some d" if "e \<in> living w" "e \<noteq> me w"
    using that inv(7) assms(2) unfolding links_ok_def hangs_def by blast
qed

lemma gone_unreferred: "net_inv {} w \<Longrightarrow> flud_refs w \<Longrightarrow> d \<notin> living w \<Longrightarrow> \<not> referred w d"
proof -
  assume w: "net_inv {} w" "flud_refs w" "d \<notin> living w"
  then have s: "flud_sides w" "fludees (cl w d) = []" "fluders (cl w d) = []" by (simp_all add: flud_refs_def)
  have "\<not> (\<not> dangling w t \<and> d \<in> fl_fluder ` set (fluders_of w t))" for t using sidesD(1) [OF s(1), of t d] s(2) by simp
  moreover have "TClient d \<notin> set (fludees (cl w e))" for e
    using sidesD(1) [OF s(1), of "TClient d" e] s(3) by (simp add: fluders_of_def)
  ultimately show ?thesis using w(3) gone_unlisted [OF w(1,3)] unfolding referred_def by blast
qed

lemma unreferred_unfound:
  assumes "net_inv {} w" "\<not> referred w d"
  shows "find_client w nm None \<noteq> Some d" "get_history t (history w) nm lim \<noteq> Some d"
proof -
  have "d \<notin> set (bucket (client_tab w) i)" "ww_online (WHOWAS (history w) i) \<noteq> Some d" for i
    using assms(2) by (auto simp: referred_def)
  then show "find_client w nm None \<noteq> Some d" "get_history t (history w) nm lim \<noteq> Some d"
    by (auto simp: find_client_def hash_find_client_def tab_find_def get_history_def split: option.splits)
      (metis find_Some_iff nth_mem)
qed

section \<open>Properties\<close>

text \<open>C7 (the recursions over a lost server return).
  In every state in which \<open>exit_client\<close> starts them (\<open>X\<close> is the local client already off its
  lists), the recursions over a server and all behind it return: with \<open>b\<close> clients below the server,
  itself included, \<open>remove_clients\<close> needs at most \<open>2 * b\<close> nested calls and loop rounds and
  \<open>send_quits\<close> at most \<open>b\<close> nested calls, and a larger bound gives the same result, so none of
  them runs on or dereferences a null \<open>serv\<close>.  The first removes exactly the clients behind the
  server and keeps the lists sound; the second only sends.  There are at most as many clients below
  as living ones, so the bound that \<open>remove_dependents\<close> takes is enough.\<close>

theorem exit_returns:
  assumes "net_inv X w" "s \<in> living w" "IsServer (cl w s)"
  shows "(\<exists>w'. (\<forall>n \<ge> 2 * card (below w s). remove_clients n s cm w = Some w') \<and>
      net_inv X w' \<and> living w' = living w - (below w s - {s})) \<and>
    (\<exists>os. \<forall>n \<ge> card (below w s). send_quits n s to cm mn w = Some (log_out os w)) \<and>
    2 * card (below w s) \<le> exit_fuel w \<and> (\<exists>w'. remove_dependents cptr s cm w = Some w')"
proof -
  obtain w' where w': "remove_clients (2 * card (below w s)) s cm w = Some w'" "net_inv X w'" "parted (below w s - {s}) w w'"
    using recursion_returns assms unfolding clients_gone_def by blast
  obtain os where os: "send_quits (card (below w s)) s to cm mn w = Some (log_out os w)"
    using send_quits_log [OF assms order_refl] by blast
  have "\<forall>n \<ge> 2 * card (below w s). remove_clients n s cm w = Some w'" using removal_fuel(1) [OF w'(1)] by blast
  moreover have "\<forall>n \<ge> card (below w s). send_quits n s to cm mn w = Some (log_out os w)" using quits_fuel(1) [OF os] by blast
  moreover have "2 * card (below w s) \<le> exit_fuel w" using below_fuel [OF assms(1,2)] by (simp add: exit_fuel_def)
  ultimately show ?thesis using w'(2) parted_living [OF w'(3)] dependents_gone [OF assms, of cptr cm] by blast
qed

theorem exit_returns_witness:
  "\<exists>w'. remove_clients 4 13 [] demo_net = Some w' \<and> net_inv {} w' \<and> living w' = {15, 13, 12, 11, 0}"
proof -
  have "living demo_net - (below demo_net 13 - {13}) = {15, 13, 12, 11, 0}" "2 * card (below demo_net 13) = 4" by (auto simp: demo_below)
  moreover have "13 \<in> living demo_net" "IsServer (cl demo_net 13)" by (simp_all add: demo_net_kinds)
  note exit_returns [OF demo_net_ok this, of "[]" 0 "[]" None]
  ultimately show ?thesis by (metis order_refl)
qed

text \<open>C2 (a client exits with all that hangs below it).
  \<open>exit_client\<close> on any client but this server returns \<open>CLIENT_EXITED\<close> exactly when the client is
  the connection the message came from, removes exactly the client and, if it is a server, every
  server and user behind it, and keeps the tree of servers, the lists of local clients, the name
  table, the history, the channels and all counters sound.\<close>

theorem exit_client_net:
  assumes "net_inv {} w" "c \<in> living w" "c \<noteq> me w"
  shows "\<exists>w'. exit_client cptr c frm cm w = Some (if cptr = Some c then CLIENT_EXITED else 0, w') \<and>
    net_inv {} w' \<and> living w' = living w - below w c"
  by (rule exit_client_effect [OF assms])

theorem exit_client_net_witness:
  "\<exists>w'. exit_client (Some 13) 13 13 [] demo_net = Some (-2, w') \<and> net_inv {} w' \<and> living w' = {15, 12, 11, 0}"
proof -
  have "living demo_net - below demo_net 13 = {15, 12, 11, 0}" by (auto simp: demo_below)
  then show ?thesis using exit_client_net [OF demo_net_ok, of 13 "Some 13" 13 "[]"] by (simp add: CLIENT_EXITED_def)
qed

text \<open>C14 (nothing refers to a client that left).
  After \<open>exit_client\<close> no pointer of the state leads to a client that left, neither the one that
  exited nor any that was behind it: \<open>referred\<close> lists the places.  In particular neither a name nor a
  nick of the history leads to it, and no flood record names it as sender or target.  The flood
  records are assumed to agree on both sides before (\<open>flud_refs\<close>, which the exit keeps); the records
  of a channel freed under \<open>-i\<close> (\<open>dangling\<close>) are memory that is no longer owned.\<close>

theorem exit_forgets:
  assumes "net_inv {} w" "flud_refs w" "c \<in> living w" "c \<noteq> me w" "exit_client cptr c frm cm w = Some (r, w')" "d \<in> below w c"
  shows "\<not> referred w' d \<and> flud_refs w' \<and> find_client w' nm None \<noteq> Some d \<and> get_history t (history w') nm lim \<noteq> Some d"
proof -
  have w': "net_inv {} w'" "d \<notin> living w'"
    using exit_client_effect [OF assms(1,3,4), of cptr frm cm] assms(5,6) by auto
  have f: "flud_refs w'" by (rule refs_exit_client [OF assms(5,2)])
  show ?thesis using f gone_unreferred [OF w'(1) f w'(2)] unreferred_unfound [OF w'(1)] by blast
qed

theorem exit_forgets_witness:
  "\<exists>r w'. exit_client None 13 13 [] demo_net = Some (r, w') \<and> \<not> referred w' 14 \<and> find_client w' ''carol'' None \<noteq> Some 14"
proof -
  obtain w' where "exit_client None 13 13 [] demo_net = Some (0, w')"
    using exit_client_effect [OF demo_net_ok, of 13 None 13 "[]"] by auto
  then show ?thesis
    using exit_forgets [OF demo_net_ok demo_net_flud, of 13 None 13 "[]" 0 w' 14 "''carol''"] by (simp add: demo_below)
qed

end
