(* ===== verification/Deliver.thy ===== *)
theory Deliver
  imports Exit
begin

text \<open>
  Messages for one client and for the members of a channel, \<open>sendto_prefix_one\<close>,
  \<open>sendto_channel_butone\<close> and \<open>sendto_match_butone\<close> of \<open>src/send.c\<close>, with the check for a message
  that would go back where it came from, and the look-ups \<open>find_server\<close> and \<open>find_userhost\<close> of
  \<open>src/client.c\<close>.  The line itself is formatted and cut to 512 bytes when it is queued, which
  is not modelled: a \<open>Prefix\<close> entry of the log stands for it.
\<close>

definition bump :: "(server_stats \<Rightarrow> server_stats) \<Rightarrow> world \<Rightarrow> world" where
  "bump f w = w\<lparr>sstat := f (sstat w)\<rparr>"

section \<open>Looking up servers and users\<close>

definition find_server :: "world \<Rightarrow> cstr \<Rightarrow> cid option" where
  "find_server w nm = hash_find_server (\<lambda>c. name (cl w c)) (\<lambda>c. IsServer (cl w c) \<or> IsMe (cl w c)) (client_tab w) nm"

text \<open>The last local user who matches, and how many there are; \<open>collapse\<close> writes the pattern back.\<close>

definition find_userhost :: "world \<Rightarrow> cstr \<Rightarrow> cstr option \<Rightarrow> cid option \<Rightarrow> cid option \<times> int" where
  "find_userhost w usr hst dflt =
     (let ok = (\<lambda>c. MyClient (cl w c) \<and> (case hst of None \<Rightarrow> True | Some h \<Rightarrow> match_irc h (host (cl w c))) \<and>
                    irccmp (collapse usr) (username (cl w c)) = 0);
          cs = filter ok (client_list w)
      in if cs = [] then (dflt, 0) else (Some (last cs), int (length cs)))"

section \<open>One client\<close>

definition ERR_GHOSTEDCLIENT :: nat where "ERR_GHOSTEDCLIENT = 503"

definition fake_direction :: "world \<Rightarrow> cid \<Rightarrow> cid \<Rightarrow> bool" where
  "fake_direction w to frm =
     (\<not> MyClient (cl w frm) \<and> IsPerson (cl w to) \<and> from_of (cl w to) = from_of (cl w frm))"

text \<open>
  A message that would go back over the link it came from is dropped when a server sent it;
  when a user did, the addressee is a ghost and is removed.  In the argument list the receiver
  \<open>to->from\<close> of the last reply is a pointer, here its number.
\<close>

definition sendto_prefix_one :: "cid \<Rightarrow> cid \<Rightarrow> fmt \<Rightarrow> arg list \<Rightarrow> world \<Rightarrow> world option" where
  "sendto_prefix_one to frm f args w =
     (let t = cl w to; s = cl w frm; link = Str (name (cl w (cfrom t))) in
      if \<not> fake_direction w to frm then Some (log_out [Prefix to frm f args] w)
      else if IsServer s then
        Some (sendto_realops (Fmt ''Send message (%s) to %s[%s] dropped from %s(Fake Dir)'') [Str (name t), link, Str (name s)] w)
      else
        let w1 = sendto_realops (Fmt ''Ghosted: %s[%s@%s] from %s[%s@%s] (%s)'')
                   [Str (name t), Str (username t), Str (host t), Str (name s), Str (username s), Str (host s), link] w;
            w2 = sendto_serv_butone None (Fmt '':%s KILL %s :%s (%s[%s@%s] Ghosted %s)'')
                   [me_name w, Str (name t), me_name w, Str (name t), Str (username t), Str (host t), link] w1;
            w3 = kill_mark to w2;
            w4 = (if IsPerson s then sendto_one frm (form_str ERR_GHOSTEDCLIENT)
                    [me_name w, Str (name s), Str (name t), Str (username t), Str (host t), Num (int (cfrom t))] w3 else w3)
        in map_option snd (exit_client None to (me w) ''Ghosted client'' w4))"

section \<open>The members of a channel\<close>

text \<open>
  \<open>sentalong\<close> marks the links that were served; \<open>seen\<close> is the set of marks.  The loop holds a
  pointer into the list of members while it sends, so a ghost removed on the way would leave it
  dangling: \<open>None\<close>.
\<close>

fun butone_lines :: "world \<Rightarrow> cid \<Rightarrow> cid \<Rightarrow> int list \<Rightarrow> cid list \<Rightarrow> cid list" where
  "butone_lines w one frm seen [] = []"
| "butone_lines w one frm seen (a # as) =
     (let l = cfrom (cl w a) in
      if from_of (cl w a) = Some one then butone_lines w one frm seen as
      else if MyConnect (cl w a) \<and> IsRegisteredUser (cl w a) \<or> fd (cl w l) \<notin> set seen
      then a # butone_lines w one frm (fd (cl w l) # seen) as
      else butone_lines w one frm seen as)"

definition broadcast :: "cid list \<Rightarrow> cid \<Rightarrow> fmt \<Rightarrow> arg list \<Rightarrow> world \<Rightarrow> world option" where
  "broadcast tos frm f args w =
     (if list_ex (\<lambda>a. fake_direction w a frm) tos \<and> \<not> IsServer (cl w frm) then None
      else Some (fold (\<lambda>a u. if fake_direction w a frm
             then sendto_realops (Fmt ''Send message (%s) to %s[%s] dropped from %s(Fake Dir)'')
                    [Str (name (cl w a)), Str (name (cl w (cfrom (cl w a)))), Str (name (cl w frm))] u
             else log_out [Prefix a frm f args] u) tos w))"

definition sendto_channel_butone :: "cid \<Rightarrow> cid \<Rightarrow> chid \<Rightarrow> fmt \<Rightarrow> arg list \<Rightarrow> world \<Rightarrow> world option" where
  "sendto_channel_butone one frm x f args w =
     broadcast (butone_lines w one frm [] (map m_client (members (ch w x)))) frm f args w"

section \<open>Everyone on a mask of hosts or servers\<close>

datatype match_what = MATCH_SERVER | MATCH_HOST

definition match_it :: "client \<Rightarrow> cstr \<Rightarrow> match_what \<Rightarrow> bool" where
  "match_it one msk what =
     (case what of MATCH_HOST \<Rightarrow> match_irc msk (host one)
      | MATCH_SERVER \<Rightarrow> match_irc msk (case user one of None \<Rightarrow> [] | Some u \<Rightarrow> u_server u))"

definition sendto_match_butone :: "cid option \<Rightarrow> cid \<Rightarrow> cstr \<Rightarrow> match_what \<Rightarrow> fmt \<Rightarrow> arg list \<Rightarrow> world \<Rightarrow> world option" where
  "sendto_match_butone one frm msk what f args w =
     broadcast (filter (\<lambda>c. Some c \<noteq> one \<and> match_it (cl w c) msk what) (local_list w) @
                filter (\<lambda>c. Some c \<noteq> one) (serv_list w)) frm f args w"

section \<open>Facts\<close>

lemma prefix_one_direct: "\<not> fake_direction w to frm \<Longrightarrow> sendto_prefix_one to frm f args w = Some (log_out [Prefix to frm f args] w)"
  by (simp add: sendto_prefix_one_def Let_def)

lemma local_sender_direct: "MyClient (cl w frm) \<Longrightarrow> \<not> fake_direction w to frm"
  by (simp add: fake_direction_def)

lemma fold_log_out: "fold (\<lambda>a u. log_out (g a) u) as w = log_out (concat (map g as)) w"
  by (induction "as" arbitrary: w) (simp_all add: log_out_def)

lemma broadcast_direct:
  assumes "\<And>a. a \<in> set tos \<Longrightarrow> \<not> fake_direction w a frm"
  shows "broadcast tos frm f args w = Some (log_out (map (\<lambda>a. Prefix a frm f args) tos) w)"
proof -
  have "fold (\<lambda>a u. if fake_direction w a frm then g a u else log_out [Prefix a frm f args] u) tos v =
      log_out (map (\<lambda>a. Prefix a frm f args) tos) v" for g v
    using assms by (induction tos arbitrary: v) (simp_all add: log_out_def)
  then show ?thesis using assms by (auto simp: broadcast_def list_ex_iff)
qed

end
