(* ===== verification/Parse.thy ===== *)
theory Parse
  imports MsgTree Deliver
begin

text \<open>
  The parser, \<open>parse\<close>, \<open>cancel_clients\<close>, \<open>remove_unknown\<close> and \<open>do_numeric\<close> of \<open>src/parse.c\<close>.  A
  message is the text up to its NUL byte; \<open>len\<close> is \<open>bufend - pbuffer\<close>.  The handlers of the
  commands are the parameter \<open>h\<close>, called with the table entry, \<open>cptr\<close>, \<open>from\<close> and the parameters
  from \<open>para[0]\<close> on; \<open>None\<close> is a handler that does not return or the use of an invalid pointer.
\<close>

type_synonym handler = "message \<Rightarrow> cid \<Rightarrow> cid \<Rightarrow> cstr list \<Rightarrow> world \<Rightarrow> (int \<times> world) option"

definition ERR_UNKNOWNCOMMAND :: int where "ERR_UNKNOWNCOMMAND = 421"
definition ERR_NOTREGISTERED :: int where "ERR_NOTREGISTERED = 451"
definition ERR_UMODEUNKNOWNFLAG :: int where "ERR_UMODEUNKNOWNFLAG = 501"
definition TS_DOESTS :: int where "TS_DOESTS = 0x20000000"
definition FLAGS2_DOINGLIST :: flags where "FLAGS2_DOINGLIST = 0x20000"

definition IsDoingList :: "client \<Rightarrow> bool" where "IsDoingList k = has_flag (flags2 k) FLAGS2_DOINGLIST"
definition CanFlood :: "client \<Rightarrow> bool" where "CanFlood k = has_flag (flags2 k) FLAGS2_CANFLOOD"

section \<open>Splitting a message\<close>

definition skip_spaces :: "cstr \<Rightarrow> cstr" where
  "skip_spaces = dropWhile (\<lambda>c. c = CHR '' '')"

text \<open>The prefix, cut to the buffer \<open>sender\<close>, and the text from the command on.\<close>

definition split_prefix :: "cstr \<Rightarrow> cstr \<times> cstr" where
  "split_prefix pbuf =
     (let cs = skip_spaces pbuf in
      if cs \<noteq> [] \<and> hd cs = CHR '':''
      then (take HOSTLEN (takeWhile (\<lambda>c. c \<noteq> CHR '' '') (tl cs)), skip_spaces (dropWhile (\<lambda>c. c \<noteq> CHR '' '') (tl cs)))
      else ([], cs))"

definition is_numeric :: "cstr \<Rightarrow> bool" where
  "is_numeric cs = (length cs > 3 \<and> cs ! 3 = CHR '' '' \<and> IsDigit (cs ! 0) \<and> IsDigit (cs ! 1) \<and> IsDigit (cs ! 2))"

text \<open>The parameters from \<open>para[i]\<close> on, at most up to \<open>para[n]\<close>.\<close>

function split_params :: "nat \<Rightarrow> nat \<Rightarrow> cstr \<Rightarrow> cstr list" where
  "split_params n i s =
     (case skip_spaces s of
        [] \<Rightarrow> []
      | c # r \<Rightarrow>
          if c = CHR '':'' then [r]
          else if Suc i \<ge> n then [c # r]
          else (c # takeWhile (\<lambda>c. c \<noteq> CHR '' '') r) # split_params n (Suc i) (dropWhile (\<lambda>c. c \<noteq> CHR '' '') r))"
  by pat_completeness auto
termination
proof (relation "measure (\<lambda>(n, i, s). length s)")
  fix n i s x21 x22
  assume "skip_spaces s = x21 # x22"
  then have "length (x21 # x22) \<le> length s" unfolding skip_spaces_def by (metis length_dropWhile_le)
  moreover have "length (dropWhile (\<lambda>c. c \<noteq> CHR '' '') x22) \<le> length x22" by (rule length_dropWhile_le)
  ultimately show "((n, Suc i, dropWhile (\<lambda>c. c \<noteq> CHR '' '') x22), n, i, s) \<in> measure (\<lambda>(n, i, s). length s)" by simp
qed simp

declare split_params.simps [simp del]

section \<open>Unknown and wrong prefixes\<close>

definition remove_unknown :: "cid \<Rightarrow> cstr \<Rightarrow> cstr \<Rightarrow> world \<Rightarrow> world" where
  "remove_unknown cptr psender pbuffer w =
     (let k = cl w cptr in
      if \<not> IsRegistered k then w
      else if IsClient k then
        sendto_realops_flags FLAGS_DEBUG (Fmt ''Weirdness: Unknown client prefix (%s) from %s, Ignoring %s'')
          [Str pbuffer, Str (get_client_name k HIDE_IP), Str psender] w
      else if \<not> IsServer k then w
      else if strchr psender CHR ''.'' = None then
        sendto_one cptr (Fmt '':%s KILL %s :%s (%s(?) <- %s)'')
          [me_name w, Str psender, me_name w, Str psender, Str (name k)] w
      else
        sendto_one cptr (Fmt '':%s SQUIT %s :(Unknown prefix (%s) from %s)'')
          [me_name w, Str psender, Str pbuffer, Str (get_client_name k MASK_IP)]
          (sendto_realops_flags FLAGS_DEBUG (Fmt ''Unknown prefix (%s) from %s, Squitting %s'')
            [Str pbuffer, Str (get_client_name k MASK_IP), Str psender] w))"

definition cancel_clients :: "cid \<Rightarrow> cid \<Rightarrow> cstr \<Rightarrow> world \<Rightarrow> (int \<times> world) option" where
  "cancel_clients cptr sptr pbuffer w =
     (let c = cl w cptr; s = cl w sptr; link = Str (name (cl w (cfrom s))); masked = Str (get_client_name c MASK_IP);
          who = [Str (name s), Str (username s), Str (host s), link, masked] in
      if IsServer s \<or> IsMe s then
        let w1 = sendto_realops_flags FLAGS_DEBUG (Fmt ''Message for %s[%s] from %s'') [Str (name s), link, masked] w in
        Some (-1,
          if IsServer c then sendto_realops_flags FLAGS_DEBUG (Fmt ''Not dropping server %s (%s) for Fake Direction'')
            [Str (name c), Str (name s)] w1
          else if IsClient c then
            sendto_realops_flags FLAGS_DEBUG (Fmt ''Would have dropped client %s (%s@%s) [%s from %s]'')
              [Str (name c), Str (username c), Str (host c),
               Str (case user c of None \<Rightarrow> [] | Some u \<Rightarrow> u_server u), Str (name (cl w (cfrom c)))] w1
          else w1)
      else if IsServer c then
        if tsinfo c = TS_DOESTS then
          Some (0, if user s = None then w
                   else sendto_realops_flags FLAGS_DEBUG (Fmt ''Message for %s[%s@%s!%s] from %s (TS, ignored)'') who w)
        else
          let w1 = (if user s = None then w
                    else sendto_realops_flags FLAGS_DEBUG (Fmt ''Message for %s[%s@%s!%s] from %s'') who w)
          in exit_client (Some cptr) sptr (me w) ''Fake Prefix''
               (kill_mark sptr (sendto_serv_butone None (Fmt '':%s KILL %s :%s (%s[%s] != %s, Fake Prefix)'')
                 [me_name w, Str (name s), me_name w, Str (name s), link, Str (name c)] w1))
      else exit_client (Some cptr) cptr (me w) ''Fake prefix'' w)"

section \<open>Numeric replies\<close>

text \<open>What is sent after the target: the parameters from the second on, the last with a colon.\<close>

definition numeric_tail :: "cstr list \<Rightarrow> cstr" where
  "numeric_tail parv =
     (if length parv > 1
      then concat (map (\<lambda>p. '' '' @ p) (butlast (drop 2 parv))) @ '' :'' @ last parv else [])"

text \<open>One target; the flag says that the rest is skipped.\<close>

definition numeric_to :: "cstr \<Rightarrow> cid \<Rightarrow> cid \<Rightarrow> cstr \<Rightarrow> cstr \<Rightarrow> cstr \<Rightarrow> world \<Rightarrow> (bool \<times> world) option" where
  "numeric_to numeric cptr sptr p0 tail nick w =
     (let f = Fmt '':%s %s %s%s''; args = [Str p0, Str numeric, Str nick, Str tail];
          go = map_option (\<lambda>w. (False, w)) in
      case find_client w nick None of
        Some a \<Rightarrow>
          if atoi numeric = ERR_UMODEUNKNOWNFLAG \<and> MyClient (cl w a) then Some (True, w)
          else if \<not> IsMe (cl w a) \<and> IsPerson (cl w a) then go (sendto_prefix_one a sptr f args w)
          else if IsServer (cl w a) \<and> from_of (cl w a) \<noteq> Some cptr then go (sendto_prefix_one a sptr f args w)
          else Some (False, w)
      | None \<Rightarrow>
          (case find_server w nick of
             Some a \<Rightarrow>
               if \<not> IsMe (cl w a) \<and> from_of (cl w a) \<noteq> Some cptr then go (sendto_prefix_one a sptr f args w)
               else Some (False, w)
           | None \<Rightarrow>
               (case find_channel w nick of
                  Some x \<Rightarrow> go (sendto_channel_butone cptr sptr x f [Str p0, Str numeric, Str (chname (ch w x)), Str tail] w)
                | None \<Rightarrow> Some (False, w))))"

fun numeric_targets :: "cstr \<Rightarrow> cid \<Rightarrow> cid \<Rightarrow> cstr \<Rightarrow> cstr \<Rightarrow> cstr list \<Rightarrow> world \<Rightarrow> world option" where
  "numeric_targets numeric cptr sptr p0 tail [] w = Some w"
| "numeric_targets numeric cptr sptr p0 tail (nick # nicks) w =
     (case numeric_to numeric cptr sptr p0 tail nick w of
        None \<Rightarrow> None
      | Some (stop, w1) \<Rightarrow> if stop then Some w1 else numeric_targets numeric cptr sptr p0 tail nicks w1)"

text \<open>
  Without a parameter \<open>strtoken(&p, NULL, ...)\<close> goes on from \<open>p\<close>, which was never set.
\<close>

definition do_numeric :: "cstr \<Rightarrow> cid \<Rightarrow> cid \<Rightarrow> cstr list \<Rightarrow> world \<Rightarrow> (int \<times> world) option" where
  "do_numeric numeric cptr sptr parv w =
     (if length parv < 1 \<or> \<not> IsServer (cl w sptr) then Some (0, w)
      else if length parv < 2 then None
      else
        let num = (if hd numeric = CHR ''0'' then CHR ''1'' # tl numeric else numeric)
        in map_option (\<lambda>w1. (0, w1))
             (numeric_targets num cptr sptr (parv ! 0) (numeric_tail parv) (strtokens (Some (parv ! 1)) '','') w))"

section \<open>\<open>parse\<close>\<close>

text \<open>What is charged for a message: \<open>i\<close> is the length of its parameters.\<close>

definition charge :: "message \<Rightarrow> cid \<Rightarrow> int \<Rightarrow> world \<Rightarrow> world" where
  "charge m cptr i w =
     (let w1 = w\<lparr>msg_bytes := (msg_bytes w)(cmd m := msg_bytes w (cmd m) + i)\<rparr>; k = cl w cptr in
      if rate_limited m \<and> \<not> IsServer k then
        upd_cl cptr (\<lambda>k. k\<lparr>cl_since := cl_since k +
          (if IsAnOper k \<or> CanFlood k then if recvM k mod 5 = 0 then 0 else 1 else 2 + i div 120)\<rparr>) w1
      else w1)"

definition call_handler :: "handler \<Rightarrow> message \<Rightarrow> cid \<Rightarrow> cid \<Rightarrow> cstr \<Rightarrow> cstr list \<Rightarrow> world \<Rightarrow> (int \<times> world) option" where
  "call_handler h m cptr frm cs parv w =
     (let w1 = w\<lparr>msg_count := (msg_count w)(cmd m := msg_count w (cmd m) + 1)\<rparr>; k = cl w1 cptr in
      if \<not> IsRegistered k \<and> \<not> allow_unregistered_use m then
        Some (-1, if IsHandshake k \<or> IsConnecting k \<or> IsServer k then w1
                  else sendto_one frm (Fmt '':%s %d %s %s :Register first.'')
                    [me_name w1, Num ERR_NOTREGISTERED, Str (if name (cl w1 frm) = [] then ''*'' else name (cl w1 frm)), Str cs] w1)
      else
        let w2 = (if IsRegisteredUser k \<and> reset_idle m \<and> \<not> has_flag (umodes k) FLAGS_UNIDLE
                  then upd_user frm (\<lambda>u. u\<lparr>u_last := now w1\<rparr>) w1 else w1)
        in if IsDoingList k \<and> cmd m \<noteq> ''LIST'' then Some (-1, w2) else h m cptr frm parv w2)"

definition parse_command :: "handler \<Rightarrow> cid \<Rightarrow> cid \<Rightarrow> cstr \<Rightarrow> cstr \<Rightarrow> cstr \<Rightarrow> nat \<Rightarrow> world \<Rightarrow> (int \<times> world) option" where
  "parse_command h cptr frm p0 cs pbuf len w =
     (if cs = [] then Some (-1, bump (\<lambda>s. s\<lparr>is_empt := is_empt s + 1\<rparr>) w)
      else if is_numeric cs then
        do_numeric (take 3 cs) cptr frm (p0 # split_params MAXPARA 1 (drop 4 cs)) (bump (\<lambda>s. s\<lparr>is_num := is_num s + 1\<rparr>) w)
      else
        let cname = takeWhile (\<lambda>c. c \<noteq> CHR '' '') cs; r = dropWhile (\<lambda>c. c \<noteq> CHR '' '') cs in
        case tree_parse msg_tree_root cname of
          None \<Rightarrow>
            Some (-1, bump (\<lambda>s. s\<lparr>is_unco := is_unco s + 1\<rparr>)
              (if pbuf \<noteq> [] \<and> IsPerson (cl w frm)
               then sendto_one frm (Fmt '':%s %d %s %s :Unknown command'')
                      [me_name w, Num ERR_UNKNOWNCOMMAND, Str (name (cl w frm)), Str cname] w
               else w))
        | Some m \<Rightarrow>
            let i = int len - int (length pbuf - length (if r = [] then cs else tl r));
                args = (if r = [] then [] else split_params (min (parameters m) MAXPARA) 1 (tl r))
            in call_handler h m cptr frm cname (p0 # args) (charge m cptr i w))"

definition parse :: "handler \<Rightarrow> cid \<Rightarrow> cstr \<Rightarrow> nat \<Rightarrow> world \<Rightarrow> (int \<times> world) option" where
  "parse h cptr pbuf len w =
     (if has_flag (cflags (cl w cptr)) FLAGS_DEADSOCKET then Some (-1, w)
      else
        let (sender, cs) = split_prefix pbuf in
        if sender \<noteq> [] \<and> IsServer (cl w cptr) then
          case (case find_client w sender None of
                  Some f \<Rightarrow> if match_irc (name (cl w f)) sender then Some f else find_server w sender
                | None \<Rightarrow> find_server w sender) of
            None \<Rightarrow> Some (-1, remove_unknown cptr sender pbuf (bump (\<lambda>s. s\<lparr>is_unpf := is_unpf s + 1\<rparr>) w))
          | Some f \<Rightarrow>
              if from_of (cl w f) \<noteq> Some cptr
              then cancel_clients cptr f pbuf (bump (\<lambda>s. s\<lparr>is_wrdi := is_wrdi s + 1\<rparr>) w)
              else parse_command h cptr f sender cs pbuf len w
        else parse_command h cptr cptr (name (cl w cptr)) cs pbuf len w)"

end
