(* ===== verification/ParseSpec.thy ===== *)
theory ParseSpec
  imports Parse Demo
begin

text \<open>
  The parser: what it takes a line apart into, which calls of a handler it can make, and the
  numeric without parameters.
\<close>

section \<open>Splitting\<close>

definition param_word :: "cstr \<Rightarrow> bool" where
  "param_word p \<longleftrightarrow> p \<noteq> [] \<and> CHR '' '' \<notin> set p \<and> hd p \<noteq> CHR '':''"

definition render_params :: "cstr list \<Rightarrow> cstr \<Rightarrow> cstr" where
  "render_params ps t = concat (map (\<lambda>p. '' '' @ p) ps) @ '' :'' @ t"

lemma skip_spaces_word: "param_word p \<Longrightarrow> skip_spaces ('' '' @ p @ r) = p @ r"
  by (cases p) (auto simp: param_word_def skip_spaces_def)

lemma split_render:
  "list_all param_word ps \<Longrightarrow> i + length ps < n \<Longrightarrow> split_params n i (render_params ps t) = ps @ [t]"
proof (induction ps arbitrary: i)
  case Nil
  then show ?case by (subst split_params.simps) (simp add: render_params_def skip_spaces_def)
next
  case (Cons p ps)
  obtain c q where p: "p = c # q" "c \<noteq> CHR '':''" "CHR '' '' \<notin> set q" "param_word p"
    using Cons.prems(1) by (cases p) (auto simp: param_word_def)
  obtain r where r: "render_params ps t = CHR '' '' # r" by (cases ps) (simp_all add: render_params_def)
  have tw: "takeWhile (\<lambda>c. c \<noteq> CHR '' '') (q @ CHR '' '' # r) = q" "dropWhile (\<lambda>c. c \<noteq> CHR '' '') (q @ CHR '' '' # r) = CHR '' '' # r"
    using p(3) by (induction q) auto
  have "skip_spaces (render_params (p # ps) t) = c # q @ CHR '' '' # r"
    using skip_spaces_word [OF p(4), of "render_params ps t"] r p(1) by (simp add: render_params_def)
  then show ?case
    using Cons.IH [of "Suc i"] Cons.prems p tw r by (subst split_params.simps) simp
qed

lemma split_params_length: "length (split_params n i s) \<le> max 1 (n - i)"
proof (induction n i s rule: split_params.induct)
  case (1 n i s)
  show ?case
  proof (cases "skip_spaces s")
    case (Cons c r)
    show ?thesis
    proof (cases "c = CHR '':'' \<or> Suc i \<ge> n")
      case False
      then have "length (split_params n (Suc i) (dropWhile (\<lambda>c. c \<noteq> CHR '' '') r)) \<le> max 1 (n - Suc i)" using "1.IH" [OF Cons] by simp
      moreover have "max 1 (n - Suc i) = n - Suc i" using False by auto
      ultimately have "Suc (length (split_params n (Suc i) (dropWhile (\<lambda>c. c \<noteq> CHR '' '') r))) \<le> n - i" using False by linarith
      then show ?thesis using False Cons by (subst split_params.simps) simp
    qed (subst split_params.simps, auto simp: Cons)
  qed (subst split_params.simps, simp)
qed

section \<open>The calls\<close>

definition allowed_call :: "cid \<Rightarrow> message \<Rightarrow> cid \<Rightarrow> cstr list \<Rightarrow> world \<Rightarrow> bool" where
  "allowed_call cptr m f p v \<longleftrightarrow>
     m \<in> set msgtab \<and> (f = cptr \<or> IsServer (cl v cptr) \<and> from_of (cl v f) = Some cptr) \<and>
     (IsRegistered (cl v cptr) \<or> allow_unregistered_use m) \<and> 0 < length p \<and> length p \<le> MAXPARA"

lemma charge_same:
  "IsServer (cl (charge m c i w) d) = IsServer (cl w d)" "from_of (cl (charge m c i w) d) = from_of (cl w d)"
  by (simp_all add: charge_def Let_def IsServer_def from_of_def)

lemma upd_user_same:
  "IsServer (k\<lparr>user := u\<rparr>) = IsServer k" "from_of (k\<lparr>user := u\<rparr>) = from_of k" "IsRegistered (k\<lparr>user := u\<rparr>) = IsRegistered k"
  by (simp_all add: IsServer_def from_of_def IsRegistered_def)

lemma call_handler_cong:
  assumes "\<And>m f p v. allowed_call cptr m f p v \<Longrightarrow> h m cptr f p v = h' m cptr f p v"
    "m \<in> set msgtab" "frm = cptr \<or> IsServer (cl w cptr) \<and> from_of (cl w frm) = Some cptr" "0 < length p" "length p \<le> MAXPARA"
  shows "call_handler h m cptr frm cs p w = call_handler h' m cptr frm cs p w"
  unfolding call_handler_def Let_def
  by (intro if_cong refl assms(1)) (use assms(2-5) in \<open>auto simp: allowed_call_def upd_user_def upd_user_same\<close>)

lemma parse_command_cong:
  assumes "\<And>m f p v. allowed_call cptr m f p v \<Longrightarrow> h m cptr f p v = h' m cptr f p v"
    "cstring cs" "frm = cptr \<or> IsServer (cl w cptr) \<and> from_of (cl w frm) = Some cptr"
  shows "parse_command h cptr frm p0 cs pbuf len w = parse_command h' cptr frm p0 cs pbuf len w"
proof -
  have c: "cstring (takeWhile (\<lambda>c. c \<noteq> CHR '' '') cs)" using assms(2) by (auto simp: cstring_def dest: set_takeWhileD)
  have "m \<in> set msgtab" if "tree_parse msg_tree_root (takeWhile (\<lambda>c. c \<noteq> CHR '' '') cs) = Some m" for m
    using that tree_parse_msgtab(2) [OF c] by (auto simp: find_Some_iff)
  moreover have "length (split_params (min k MAXPARA) 1 r) \<le> MAXPARA - 1" for k r
    using split_params_length [of "min k MAXPARA" 1 r] by (simp add: MAXPARA_def)
  then have "length (p0 # (if e then [] else split_params (min k MAXPARA) 1 r)) \<le> MAXPARA" for e k r
    by (simp add: MAXPARA_def)
  ultimately show ?thesis
    unfolding parse_command_def Let_def using assms(3)
    by (intro if_cong refl option.case_cong call_handler_cong assms(1)) (auto simp: charge_same)
qed

lemma cstring_split_prefix:
  assumes "cstring s"
  shows "cstring (fst (split_prefix s))" "cstring (snd (split_prefix s))"
proof -
  have skip: "set (skip_spaces u) \<subseteq> set u" for u by (auto simp: skip_spaces_def dest: set_dropWhileD)
  have tl: "set (tl u) \<subseteq> set u" for u :: cstr by (cases u) auto
  have "set (take HOSTLEN (takeWhile P (tl (skip_spaces s)))) \<subseteq> set s" for P
    using skip [of s] tl [of "skip_spaces s"] by (auto dest!: in_set_takeD set_takeWhileD)
  moreover have "set (skip_spaces (dropWhile P (tl (skip_spaces s)))) \<subseteq> set s" for P
    using skip [of s] tl [of "skip_spaces s"] skip [of "dropWhile P (tl (skip_spaces s))"] by (auto dest!: set_dropWhileD)
  ultimately show "cstring (fst (split_prefix s))" "cstring (snd (split_prefix s))"
    using assms skip [of s] by (auto simp: split_prefix_def Let_def cstring_def)
qed

section \<open>Properties\<close>

text \<open>C12 (what the parser can call).
  Whatever arrives on a connection, \<open>parse\<close> calls a handler of the command table only, with 1 to
  \<open>MAXPARA\<close> parameters, with the connection itself as the source or, when the connection is a
  server, with a client behind that very link; and for a connection that is not registered
  only the handlers that allow it.  So two tables of handlers that agree on these calls behave
  alike on every input, and \<open>sptr->from == cptr\<close> holds in every handler.\<close>

theorem parse_calls:
  assumes "\<And>m f p v. allowed_call cptr m f p v \<Longrightarrow> h m cptr f p v = h' m cptr f p v" "cstring pbuf"
  shows "parse h cptr pbuf len w = parse h' cptr pbuf len w"
proof -
  obtain snd' cs where s: "split_prefix pbuf = (snd', cs)" by (cases "split_prefix pbuf")
  have cs: "cstring cs" using cstring_split_prefix(2) [OF assms(2)] s by simp
  note c = parse_command_cong [where h = h and h' = h', OF assms(1) cs]
  have own: "parse_command h cptr cptr p0 cs pbuf len w = parse_command h' cptr cptr p0 cs pbuf len w" for p0 by (rule c) simp_all
  have other: "parse_command h cptr f p0 cs pbuf len w = parse_command h' cptr f p0 cs pbuf len w"
    if "IsServer (cl w cptr)" "from_of (cl w f) = Some cptr" for f p0 by (rule c) (use that in simp_all)
  show ?thesis
    unfolding parse_def s Let_def prod.case own using other by (auto split: option.split)
qed

text \<open>Two handlers that differ on the calls that are not allowed.\<close>

definition quiet_handler :: handler where
  "quiet_handler m cptr f p w = Some (0, w)"

definition strict_handler :: handler where
  "strict_handler m cptr f p w = (if allowed_call cptr m f p w then Some (0, w) else None)"

theorem parse_calls_witness:
  "parse strict_handler 11 '':carol PRIVMSG bob :hi'' 22 demo = parse quiet_handler 11 '':carol PRIVMSG bob :hi'' 22 demo"
  by (rule parse_calls) (simp_all add: strict_handler_def quiet_handler_def)

text \<open>C27 (parameters are recovered).
  A line made of at most 13 words without blanks or leading colons and a last parameter after
  a colon is split into exactly these, whatever bytes the last one holds.\<close>

theorem params_roundtrip:
  assumes "list_all param_word ps" "length ps \<le> MAXPARA - 2"
  shows "split_params MAXPARA 1 (render_params ps t) = ps @ [t]"
  by (rule split_render) (use assms in \<open>simp_all add: MAXPARA_def\<close>)

theorem params_roundtrip_witness:
  "split_params MAXPARA 1 '' #chan bob :bye : now'' = [''#chan'', ''bob'', ''bye : now'']"
  using params_roundtrip [of "[''#chan'', ''bob'']" "''bye : now''"]
  by (simp add: render_params_def param_word_def MAXPARA_def)

text \<open>A numeric without parameters. A server that sends a numeric with nothing but blanks after it makes \<open>do_numeric\<close> hand
  \<open>strtoken\<close> a pointer that was never set.\<close>

theorem numeric_without_target:
  assumes "\<not> has_flag (cflags (cl w c)) FLAGS_DEADSOCKET" "IsServer (cl w c)" "IsDigit a" "IsDigit b" "IsDigit d"
    "skip_spaces s = []"
  shows "parse h c (a # b # d # CHR '' '' # s) len w = None"
proof -
  have nd: "\<not> IsDigit CHR '' ''" "\<not> IsDigit CHR '':''" by (simp_all add: IsDigit_iff code_def)
  then have ne: "a \<noteq> CHR '' ''" "a \<noteq> CHR '':''" using assms(3) by auto
  then have "split_prefix (a # b # d # CHR '' '' # s) = ([], a # b # d # CHR '' '' # s)"
    by (simp add: split_prefix_def skip_spaces_def)
  moreover have "is_numeric (a # b # d # CHR '' '' # s)" using assms(3-5) by (simp add: is_numeric_def)
  moreover have "split_params MAXPARA 1 s = []" by (subst split_params.simps) (simp add: assms(6))
  ultimately show ?thesis
    using assms(1,2) by (simp add: parse_def parse_command_def do_numeric_def bump_def)
qed

theorem numeric_without_target_witness: "parse quiet_handler 13 ''372 '' 4 demo = None"
proof -
  have "cl demo 13 = cl demo0 13" by (simp add: demo_cl)
  then have "IsServer (cl demo 13)" "\<not> has_flag (cflags (cl demo 13)) FLAGS_DEADSOCKET"
    by (simp_all add: demo0_def IsServer_def zero_client_def has_flag_def)
  moreover have "IsDigit CHR ''3''" "IsDigit CHR ''7''" "IsDigit CHR ''2''" by (simp_all add: IsDigit_iff code_def)
  ultimately show ?thesis
    using numeric_without_target [of demo 13 "CHR ''3''" "CHR ''7''" "CHR ''2''" "[]" quiet_handler 4] by (simp add: skip_spaces_def)
qed

end
