(* ===== verification/Packet.thy ===== *)
theory Packet
  imports Parse Dbuf
begin

text \<open>
  From the bytes of a connection to messages: \<open>dopacket\<close> and \<open>client_dopacket\<close> of \<open>src/packet.c\<close>,
  \<open>read_packet\<close>, \<open>parse_client_queued\<close> and \<open>error_exit_client\<close> of \<open>src/s_bsd.c\<close>.  Compressed links
  (\<open>FLAGS2_ZIP\<close>, \<open>FLAGS2_ZIPFIRST\<close>) are left out; what \<open>recv\<close> gives is a parameter.  The queue of
  a client is the list of its bytes, which is what the operations of \<open>Dbuf\<close> refine
  (\<open>dbuf_getmsg_refines\<close>, \<open>dbuf_fifo\<close>).
\<close>

definition CLIENT_BUFSIZE :: nat where "CLIENT_BUFSIZE = 512"
definition BUFSIZE :: nat where "BUFSIZE = 512"
definition READBUF_SIZE :: nat where "READBUF_SIZE = 16384"
definition CLIENT_FLOOD :: nat where "CLIENT_FLOOD = 2560"
definition SBSD_MAX_CLIENT :: nat where "SBSD_MAX_CLIENT = 6090"
definition FLAGS_PINGSENT :: flags where "FLAGS_PINGSENT = 0x0001"
definition FLAGS_NONL :: flags where "FLAGS_NONL = 0x0200"
definition FLAGS_SENDQEX :: flags where "FLAGS_SENDQEX = 0x0800"

definition NoNewLine :: "client \<Rightarrow> bool" where "NoNewLine k = has_flag (cflags k) FLAGS_NONL"

definition PARSE_AS_SERVER :: "client \<Rightarrow> bool" where
  "PARSE_AS_SERVER k = has_flag (status k) (STAT_SERVER OR STAT_CONNECTING OR STAT_HANDSHAKE)"

section \<open>Counting\<close>

definition add_bytes :: "nat \<Rightarrow> client \<Rightarrow> client" where
  "add_bytes n k =
     (let b = recvB k + n in
      if b > 1023 then k\<lparr>recvB := b mod 1024, recvK := recvK k + b div 1024\<rparr> else k\<lparr>recvB := b\<rparr>)"

definition receive_bytes :: "cid \<Rightarrow> nat \<Rightarrow> world \<Rightarrow> world" where
  "receive_bytes c n w = upd_cl (me w) (add_bytes n) (upd_cl c (add_bytes n) w)"

definition receive_message :: "cid \<Rightarrow> world \<Rightarrow> world" where
  "receive_message c w = upd_cl (me w) (\<lambda>k. k\<lparr>recvM := recvM k + 1\<rparr>) (upd_cl c (\<lambda>k. k\<lparr>recvM := recvM k + 1\<rparr>) w)"

definition set_linebuf :: "cid \<Rightarrow> cstr \<Rightarrow> world \<Rightarrow> world" where
  "set_linebuf c b w = upd_cl c (\<lambda>k. k\<lparr>linebuf := b\<rparr>) w"

text \<open>The C string in a buffer.\<close>

definition as_cstr :: "char list \<Rightarrow> cstr" where
  "as_cstr = takeWhile (\<lambda>c. c \<noteq> CHR 0x00)"

section \<open>\<open>dopacket\<close>\<close>

definition is_crlf :: "char \<Rightarrow> bool" where
  "is_crlf g = (g = CHR 0x0a \<or> g = CHR 0x0d)"

text \<open>One message, and the end of a connection that died while it was handled.\<close>

definition one_message :: "handler \<Rightarrow> cid \<Rightarrow> char list \<Rightarrow> world \<Rightarrow> (int \<times> world) option" where
  "one_message h c buf w =
     (case parse h c (as_cstr buf) (length buf) (receive_message c (set_linebuf c [] w)) of
        None \<Rightarrow> None
      | Some (r, w1) \<Rightarrow>
          if r = CLIENT_EXITED then Some (CLIENT_EXITED, w1)
          else if has_flag (cflags (cl w1 c)) FLAGS_DEADSOCKET then
            exit_client (Some c) c (me w1)
              (if has_flag (cflags (cl w1 c)) FLAGS_SENDQEX then
                 if IsDoingList (cl w1 c) then ''Local kill by /list (so many channels!)'' else ''SendQ exceeded''
               else ''Dead socket'') w1
          else Some (1, w1))"

text \<open>
  \<open>buf\<close> is the text of the line so far, \<open>ch1 - cptrbuf\<close> its length.  A full buffer keeps its
  first 511 bytes: the next one is stored behind them and overwritten.
\<close>

fun packet_loop :: "handler \<Rightarrow> cid \<Rightarrow> char list \<Rightarrow> char list \<Rightarrow> world \<Rightarrow> (int \<times> world) option" where
  "packet_loop h c buf [] w = Some (1, set_linebuf c buf w)"
| "packet_loop h c buf (g # gs) w =
     (if is_crlf g then
        if buf = [] then packet_loop h c [] gs w
        else case one_message h c buf w of
               None \<Rightarrow> None
             | Some (r, w1) \<Rightarrow> if r = CLIENT_EXITED then Some (r, w1) else packet_loop h c [] gs w1
      else packet_loop h c (if length buf < CLIENT_BUFSIZE - 1 then buf @ [g] else buf) gs w)"

definition dopacket :: "handler \<Rightarrow> cid \<Rightarrow> char list \<Rightarrow> world \<Rightarrow> (int \<times> world) option" where
  "dopacket h c data w =
     (let w1 = receive_bytes c (length data) w in packet_loop h c (linebuf (cl w1 c)) data w1)"

section \<open>Clients\<close>

text \<open>
  \<open>strncpy_irc\<close> copies at most 512 bytes and then no NUL byte; the byte behind \<open>buffer\<close> is the
  first of the pointer \<open>zip\<close>, which is null for a client, and ends the string.
\<close>

definition client_dopacket :: "handler \<Rightarrow> cid \<Rightarrow> char list \<Rightarrow> world \<Rightarrow> (int \<times> world) option" where
  "client_dopacket h c buffer w =
     (let b = take BUFSIZE (as_cstr buffer);
          w1 = set_linebuf c [] (receive_bytes c (length b) (receive_message c w))
      in case parse h c b (length b) w1 of
           None \<Rightarrow> None
         | Some (r, w2) \<Rightarrow>
             if r = CLIENT_EXITED then Some (CLIENT_EXITED, w2)
             else if has_flag (cflags (cl w2 c)) FLAGS_DEADSOCKET then
               exit_client (Some c) c (me w2)
                 (if has_flag (cflags (cl w2 c)) FLAGS_SENDQEX then ''SendQ exceeded'' else ''Dead socket'') w2
             else Some (1, w2))"

text \<open>
  The queue of a client is worked off while the time it is charged stays within 10 seconds of
  the clock.  A handler may queue more, so the loop is a partial function.
\<close>

definition set_recvq :: "cid \<Rightarrow> char list \<Rightarrow> world \<Rightarrow> world" where
  "set_recvq c q w = upd_cl c (\<lambda>k. k\<lparr>recvq := q\<rparr>) w"

partial_function (option) parse_client_queued :: "handler \<Rightarrow> cid \<Rightarrow> world \<Rightarrow> (int \<times> world) option" where
  "parse_client_queued h c w =
     (let k = cl w c in
      if recvq k \<noteq> [] \<and> \<not> NoNewLine k \<and> (status k < STAT_UNKNOWN \<or> cl_since k - now w < 10) then
        if IsServer k then dopacket h c (take READBUF_SIZE (recvq k)) (set_recvq c (drop READBUF_SIZE (recvq k)) w)
        else
          (case next_line (recvq k) READBUF_SIZE of
             (None, q) \<Rightarrow>
               Some (1, if length q < 510
                        then upd_cl c (\<lambda>k. k\<lparr>cflags := cflags k OR FLAGS_NONL\<rparr>) (set_recvq c q w)
                        else set_recvq c [] w)
           | (Some l, q) \<Rightarrow>
               (case client_dopacket h c l (set_recvq c q w) of
                  None \<Rightarrow> None
                | Some (r, w1) \<Rightarrow> if r = CLIENT_EXITED then Some (CLIENT_EXITED, w1) else parse_client_queued h c w1))
      else Some (1, w))"

section \<open>Reading\<close>

text \<open>What \<open>recv\<close> gives: nothing yet, an error, or bytes (none at the end of the stream).\<close>

datatype recv_result = Again | Failed | Got "char list"

definition read_packet :: "handler \<Rightarrow> cid \<Rightarrow> recv_result \<Rightarrow> world \<Rightarrow> (int \<times> world) option" where
  "read_packet h c r w =
     (if IsPerson (cl w c) \<and> length (recvq (cl w c)) > SBSD_MAX_CLIENT then Some (0, w)
      else case r of
        Again \<Rightarrow> Some (1, w)
      | Failed \<Rightarrow> Some (-1, w)
      | Got data \<Rightarrow>
          if data = [] then Some (0, w)
          else
            let w1 = upd_cl c (\<lambda>k. k\<lparr>cl_lasttime := now w, cl_since := max (cl_since k) (now w),
                        cflags := cflags k AND NOT (FLAGS_PINGSENT OR FLAGS_NONL)\<rparr>) w
            in if PARSE_AS_SERVER (cl w1 c) then dopacket h c data w1
               else
                 let w2 = set_recvq c (recvq (cl w1 c) @ data) w1 in
                 if IsPerson (cl w2 c) \<and> \<not> IsAnOper (cl w2 c) \<and> length (recvq (cl w2 c)) > CLIENT_FLOOD
                 then exit_client (Some c) c c ''Excess Flood'' w2
                 else parse_client_queued h c w2)"

text \<open>The errors of the socket and the text of \<open>strerror\<close> are parameters; \<open>report_error\<close> tells operators.\<close>

definition error_exit_client :: "(cstr \<Rightarrow> cstr \<Rightarrow> int \<Rightarrow> world \<Rightarrow> world) \<Rightarrow> (int \<Rightarrow> cstr) \<Rightarrow> int \<Rightarrow> cid \<Rightarrow> int \<Rightarrow> world \<Rightarrow> (int \<times> world) option" where
  "error_exit_client report strerror current_error c err w =
     (let k = cl w c;
          w1 = (if IsServer k \<or> IsHandshake k then
                  let connected = now w - cl_firsttime k;
                      v = (if err = 0 then sendto_ops (Fmt ''Server %s closed the connection'') [Str (get_client_name k MASK_IP)] w
                           else report ''Lost connection to %s: %s'' (get_client_name k MASK_IP) current_error w)
                  in sendto_realops (Fmt ''%s had been connected for %d day%s, %2d:%02d:%02d'')
                       [Str (name k), Num (connected div 86400), Str (if connected div 86400 = 1 then '''' else ''s''),
                        Num (connected mod 86400 div 3600), Num (connected mod 3600 div 60), Num (connected mod 60)] v
                else w);
          errmsg = (if err = 0 then ''Remote closed the connection''
                    else ''Read error: '' @ dec_int current_error @ '' ('' @ strerror current_error @ '')'')
      in exit_client (Some c) c (me w1) errmsg w1)"

end
