(* ===== verification/PacketSpec.thy ===== *)
theory PacketSpec
  imports Packet ParseSpec
begin

text \<open>
  The reader of \<open>dopacket\<close> against its specification: the bytes of a connection are cut at carriage
  returns and line feeds, empty lines are dropped, a line keeps its first 511 bytes, and where
  \<open>recv\<close> cut the stream makes no difference.
\<close>

section \<open>The lines of a stream\<close>

text \<open>The pieces between line ends; the last one is not ended yet.\<close>

fun segments :: "char list \<Rightarrow> char list list" where
  "segments [] = [[]]"
| "segments (g # gs) =
     (if is_crlf g then [] # segments gs else (g # hd (segments gs)) # tl (segments gs))"

definition lines_of :: "char list \<Rightarrow> char list list" where
  "lines_of s = map (take (CLIENT_BUFSIZE - 1)) (filter (\<lambda>l. l \<noteq> []) (butlast (segments s)))"

definition rest_of :: "char list \<Rightarrow> char list" where
  "rest_of s = take (CLIENT_BUFSIZE - 1) (last (segments s))"

text \<open>Messages handled in order until the connection ends.\<close>

fun deliver_lines :: "handler \<Rightarrow> cid \<Rightarrow> char list list \<Rightarrow> world \<Rightarrow> (int \<times> world) option" where
  "deliver_lines h c [] w = Some (1, w)"
| "deliver_lines h c (l # ls) w =
     (case one_message h c l w of
        None \<Rightarrow> None
      | Some (r, w1) \<Rightarrow> if r = CLIENT_EXITED then Some (r, w1) else deliver_lines h c ls w1)"

lemma segments_nonempty [simp]: "segments s \<noteq> []"
  by (cases s) auto

lemma segments_prefix:
  assumes "\<not> list_ex is_crlf b"
  shows "segments (b @ s) = (b @ hd (segments s)) # tl (segments s)"
  using assms by (induction b) auto

lemma segments_line: "\<not> list_ex is_crlf b \<Longrightarrow> is_crlf g \<Longrightarrow> segments (b @ g # s) = b # segments s"
  by (simp add: segments_prefix)

lemma segments_part: "\<not> list_ex is_crlf b \<Longrightarrow> segments b = [b]"
  using segments_prefix [of b "[]"] by simp

lemma lines_line:
  assumes "\<not> list_ex is_crlf b" "is_crlf g"
  shows "lines_of (b @ g # s) = (if b = [] then lines_of s else take (CLIENT_BUFSIZE - 1) b # lines_of s)"
    and "rest_of (b @ g # s) = rest_of s"
  using assms by (auto simp: lines_of_def rest_of_def segments_line)

lemma lines_part:
  assumes "\<not> list_ex is_crlf b"
  shows "lines_of b = []" and "rest_of b = take (CLIENT_BUFSIZE - 1) b"
  using assms by (auto simp: lines_of_def rest_of_def segments_part)

section \<open>The reader\<close>

lemma set_linebuf_twice: "set_linebuf c a (set_linebuf c b w) = set_linebuf c a w"
  by (simp add: set_linebuf_def)

lemma linebuf_set [simp]: "linebuf (cl (set_linebuf c b w) c) = b"
  by (simp add: set_linebuf_def)

lemma one_message_linebuf [simp]: "one_message h c buf (set_linebuf c b w) = one_message h c buf w"
  by (simp add: one_message_def set_linebuf_twice)

lemma packet_loop_linebuf: "packet_loop h c buf data (set_linebuf c b w) = packet_loop h c buf data w"
proof (induction data arbitrary: buf)
  case Nil
  show ?case by (simp add: set_linebuf_twice)
next
  case (Cons g gs)
  show ?case by (simp add: Cons.IH)
qed

lemma full_buffer:
  "(if length (take (CLIENT_BUFSIZE - 1) b) < CLIENT_BUFSIZE - 1 then take (CLIENT_BUFSIZE - 1) b @ [g]
    else take (CLIENT_BUFSIZE - 1) b) = take (CLIENT_BUFSIZE - 1) (b @ [g])"
  by (simp add: CLIENT_BUFSIZE_def)

lemma packet_loop_lines:
  assumes "\<not> list_ex is_crlf b"
  shows "packet_loop h c (take (CLIENT_BUFSIZE - 1) b) data w =
    (case deliver_lines h c (lines_of (b @ data)) w of
       None \<Rightarrow> None
     | Some (r, w1) \<Rightarrow>
         if r = CLIENT_EXITED then Some (r, w1) else Some (1, set_linebuf c (rest_of (b @ data)) w1))"
  using assms
proof (induction data arbitrary: b w)
  case Nil
  then show ?case by (simp add: lines_part CLIENT_EXITED_def)
next
  case (Cons g gs)
  show ?case
  proof (cases "is_crlf g")
    case True
    have none: "\<not> list_ex is_crlf []" by simp
    have next0: "packet_loop h c [] gs v =
      (case deliver_lines h c (lines_of gs) v of
         None \<Rightarrow> None
       | Some (r, w1) \<Rightarrow>
           if r = CLIENT_EXITED then Some (r, w1) else Some (1, set_linebuf c (rest_of gs) w1))" for v
      using Cons.IH [OF none, of v] by (simp only: append_Nil take_Nil)
    show ?thesis
    proof (cases "b = []")
      case nil: True
      show ?thesis
        unfolding lines_line [OF Cons.prems True] unfolding nil take_Nil packet_loop.simps by (simp add: True next0)
    next
      case False
      then have "take (CLIENT_BUFSIZE - 1) b \<noteq> []" by (simp add: CLIENT_BUFSIZE_def)
      then show ?thesis
        using lines_line [OF Cons.prems True, of gs] False
        by (simp only: packet_loop.simps deliver_lines.simps True if_True if_False next0 split: option.split prod.split if_split) simp
    qed
  next
    case False
    have "packet_loop h c (take (CLIENT_BUFSIZE - 1) b) (g # gs) w =
      packet_loop h c (take (CLIENT_BUFSIZE - 1) (b @ [g])) gs w"
      unfolding packet_loop.simps full_buffer using False by simp
    moreover have "\<not> list_ex is_crlf (b @ [g])" using Cons.prems False by simp
    note Cons.IH [OF this, of w]
    ultimately show ?thesis by (simp only: append_assoc append_Cons append_Nil)
  qed
qed

text \<open>C8
  A connection that reads \<open>data\<close> while its buffer holds the start of a line handles exactly the non-empty
  lines of the buffer and the data, each once, in order and cut to 511 bytes, up to the one that ends the
  connection; if none does, the bytes behind the last line end are in the buffer.
\<close>

theorem packet_lines:
  assumes "\<not> list_ex is_crlf (linebuf (cl w c))" "length (linebuf (cl w c)) < CLIENT_BUFSIZE"
    and "v = receive_bytes c (length data) w"
  shows "dopacket h c data w =
    (case deliver_lines h c (lines_of (linebuf (cl w c) @ data)) v of
       None \<Rightarrow> None
     | Some (r, w2) \<Rightarrow>
         if r = CLIENT_EXITED then Some (r, w2)
         else Some (1, set_linebuf c (rest_of (linebuf (cl w c) @ data)) w2))"
proof -
  have same: "linebuf (cl v c) = linebuf (cl w c)"
    by (simp add: assms(3) receive_bytes_def add_bytes_def Let_def)
  have "take (CLIENT_BUFSIZE - 1) (linebuf (cl w c)) = linebuf (cl w c)"
    using assms(2) by simp
  then show ?thesis
    using packet_loop_lines [OF assms(1), of h c data v] assms(3) same
    by (simp add: dopacket_def Let_def)
qed

theorem packet_lines_witness:
  "dopacket quiet_handler 13 (''PING a'' @ [CHR 0x0d, CHR 0x0a] @ ''PRIV'') demo =
    (case deliver_lines quiet_handler 13 [''PING a''] (receive_bytes 13 12 demo) of
       None \<Rightarrow> None
     | Some (r, w) \<Rightarrow> if r = CLIENT_EXITED then Some (r, w) else Some (1, set_linebuf 13 ''PRIV'' w))"
proof -
  have empty: "linebuf (cl demo 13) = []"
    by (simp add: demo_cl) (simp add: demo0_def zero_client_def)
  have crlf: "is_crlf CHR 0x0d" "is_crlf CHR 0x0a" "\<not> list_ex is_crlf ''PING a''" "\<not> list_ex is_crlf ''PRIV''"
    by (simp_all add: is_crlf_def)
  have pieces: "lines_of (''PING a'' @ [CHR 0x0d, CHR 0x0a] @ ''PRIV'') = [''PING a'']"
    "rest_of (''PING a'' @ [CHR 0x0d, CHR 0x0a] @ ''PRIV'') = ''PRIV''"
    using lines_line [OF crlf(3,1), of "CHR 0x0a # ''PRIV''"] lines_line [OF _ crlf(2), of "[]" "''PRIV''"] lines_part [OF crlf(4)]
    by (simp_all add: CLIENT_BUFSIZE_def)
  show ?thesis
    using packet_lines [where c = 13 and w = demo and v = "receive_bytes 13 12 demo" and h = quiet_handler
        and data = "''PING a'' @ [CHR 0x0d, CHR 0x0a] @ ''PRIV''"]
    unfolding empty append_Nil pieces by (simp add: CLIENT_BUFSIZE_def numeral_eq_Suc)
qed

text \<open>C26
  How the stream of bytes is cut into reads does not matter: reading two pieces one after the other
  (unless the first ended the connection) is reading them at once.
\<close>

theorem packet_chunks:
  "packet_loop h c buf (d1 @ d2) w =
    (case packet_loop h c buf d1 w of
       None \<Rightarrow> None
     | Some (r, w1) \<Rightarrow> if r = CLIENT_EXITED then Some (r, w1) else packet_loop h c (linebuf (cl w1 c)) d2 w1)"
proof (induction d1 arbitrary: buf w)
  case Nil
  show ?case by (simp add: packet_loop_linebuf CLIENT_EXITED_def)
next
  case (Cons g gs)
  show ?case by (simp add: Cons.IH CLIENT_EXITED_def split: option.splits prod.splits)
qed

end
