(* ===== verification/ConfSpec.thy ===== *)
theory ConfSpec
  imports Conf
begin

text \<open>
  The counters of the configuration: an item counts the clients it is attached to, a class the
  attachments of its client and server lines, and memory is freed only when nothing uses it.
\<close>

section \<open>Attachments\<close>

definition attached :: "world \<Rightarrow> (cid \<times> confid) set" where
  "attached w = {(c, a). a \<in> set (cl_confs (cl w c))}"

definition uses :: "world \<Rightarrow> classid \<Rightarrow> (cid \<times> confid) set" where
  "uses w k = {(c, a) \<in> attached w. has_flag (ci_status (cf w a)) CONF_CLIENT_MASK \<and> ci_class (cf w a) = Some k}"

definition conf_ok :: "world \<Rightarrow> bool" where
  "conf_ok w \<longleftrightarrow>
     finite (attached w) \<and> (\<forall>c. distinct (cl_confs (cl w c))) \<and>
     (\<forall>a. ci_clients (cf w a) = int (card {c. (c, a) \<in> attached w})) \<and>
     (\<forall>k. cls_links (classes w k) = int (card (uses w k))) \<and>
     (\<forall>(c, a) \<in> attached w. \<not> ci_freed (cf w a)) \<and>
     (\<forall>k. \<forall>(c, a) \<in> uses w k. \<not> cls_freed (classes w k))"

lemma attached_iff: "(c, a) \<in> attached w \<longleftrightarrow> a \<in> set (cl_confs (cl w c))"
  by (simp add: attached_def)

lemma conf_okD:
  assumes "conf_ok w"
  shows "finite (attached w)" "distinct (cl_confs (cl w c))" "ci_clients (cf w a) = int (card {c. (c, a) \<in> attached w})"
    "cls_links (classes w k) = int (card (uses w k))" "(c, a) \<in> attached w \<Longrightarrow> \<not> ci_freed (cf w a)"
    "(c, a) \<in> uses w k \<Longrightarrow> \<not> cls_freed (classes w k)"
  using assms unfolding conf_ok_def by blast+

lemma conf_okI:
  assumes "finite (attached w)" "\<And>c. distinct (cl_confs (cl w c))"
    "\<And>a. ci_clients (cf w a) = int (card {c. (c, a) \<in> attached w})" "\<And>k. cls_links (classes w k) = int (card (uses w k))"
    "\<And>c a. (c, a) \<in> attached w \<Longrightarrow> \<not> ci_freed (cf w a)"
    "\<And>k c a. (c, a) \<in> uses w k \<Longrightarrow> \<not> cls_freed (classes w k)"
  shows "conf_ok w"
  using assms unfolding conf_ok_def by blast

lemma users_finite: "finite (attached w) \<Longrightarrow> finite {c. (c, a) \<in> attached w}"
  by (rule finite_subset [of _ "fst ` attached w"]) force+

lemma uses_finite: "finite (attached w) \<Longrightarrow> finite (uses w k)"
  by (rule finite_subset [of _ "attached w"]) (auto simp: uses_def)

text \<open>Sending and other changes of clients do not matter.\<close>

lemma conf_ok_cong:
  assumes "\<And>c. cl_confs (cl v c) = cl_confs (cl w c)" "confs v = confs w" "classes v = classes w"
  shows "conf_ok v = conf_ok w"
  by (simp add: conf_ok_def uses_def attached_def assms)

section \<open>Attaching\<close>

lemma link_conf_ok:
  fixes a :: confid and c :: cid and w :: world
  assumes "conf_ok w" "a \<notin> set (cl_confs (cl w c))" "\<not> ci_freed (cf w a)"
    "\<And>k. has_flag (ci_status (cf w a)) CONF_CLIENT_MASK \<Longrightarrow> ci_class (cf w a) = Some k \<Longrightarrow> \<not> cls_freed (classes w k)"
  defines "v \<equiv> link_conf c a w"
  shows "conf_ok v"
proof -
  let ?m = "has_flag (ci_status (cf w a)) CONF_CLIENT_MASK"
  have cls: "classes v k = (if ?m \<and> ci_class (cf w a) = Some k then (classes w k)\<lparr>cls_links := cls_links (classes w k) + 1\<rparr> else classes w k)" for k
    by (simp add: v_def link_conf_def add_links_def Let_def split: option.split)
  have conf: "cf v b = (if b = a then (cf w a)\<lparr>ci_clients := ci_clients (cf w a) + 1\<rparr> else cf w b)" for b
    by (simp add: v_def link_conf_def add_links_def Let_def split: option.split)
  have confs: "cl_confs (cl v d) = (if d = c then a # cl_confs (cl w c) else cl_confs (cl w d))" for d
    by (simp add: v_def link_conf_def add_links_def Let_def split: option.split)
  have new: "(c, a) \<notin> attached w" "\<And>k. (c, a) \<notin> uses w k" using assms(2) by (simp_all add: attached_iff uses_def)
  have att: "attached v = insert (c, a) (attached w)" by (auto simp: attached_def confs split: if_splits)
  have use: "uses v k = (if ?m \<and> ci_class (cf w a) = Some k then insert (c, a) (uses w k) else uses w k)" for k
    by (auto simp: uses_def att conf split: if_splits)
  have users: "{d. (d, b) \<in> attached v} = (if b = a then insert c {d. (d, a) \<in> attached w} else {d. (d, b) \<in> attached w})" for b
    by (auto simp: att)
  note ok = conf_okD [OF assms(1)]
  have "ci_clients (cf v b) = int (card {d. (d, b) \<in> attached v})" for b
    using new(1) users_finite [OF ok(1)] by (simp add: users conf ok(3))
  moreover have "cls_links (classes v k) = int (card (uses v k))" for k
    using new(2) uses_finite [OF ok(1), of k] by (simp add: use cls ok(4))
  moreover have "\<not> ci_freed (cf v b)" if "(d, b) \<in> attached v" for d b
    using that assms(3) ok(5) [of d b] by (auto simp: att conf)
  moreover have "\<not> cls_freed (classes v k)" if "(d, b) \<in> uses v k" for d b k
    using that assms(4) [of k] ok(6) [of d b k] by (auto simp: use cls split: if_splits)
  moreover have "distinct (cl_confs (cl v d))" for d using ok(2) [of d] ok(2) [of c] assms(2) by (simp add: confs)
  ultimately show ?thesis using ok(1) unfolding conf_ok_def by (auto simp: att)
qed

lemma attach_keeps:
  assumes "conf_ok w" "\<not> ci_freed (cf w a)"
    "\<And>k. has_flag (ci_status (cf w a)) CONF_CLIENT_MASK \<Longrightarrow> ci_class (cf w a) = Some k \<Longrightarrow> \<not> cls_freed (classes w k)"
  shows "conf_ok (snd (attach_conf c a w))"
proof -
  have at: "conf_ok (link_conf c a u)"
    if "a \<notin> set (cl_confs (cl w c))" "\<And>d. cl_confs (cl u d) = cl_confs (cl w d)" "confs u = confs w" "classes u = classes w" for u
  proof -
    have "conf_ok u" using conf_ok_cong [OF that(2-4)] assms(1) by simp
    then show ?thesis using link_conf_ok [of u a c] that assms(2,3) by simp
  qed
  have "snd (attach_conf c a w) = w \<or> a \<notin> set (cl_confs (cl w c)) \<and>
      (\<exists>u. snd (attach_conf c a w) = link_conf c a u \<and> (\<forall>d. cl_confs (cl u d) = cl_confs (cl w d)) \<and> confs u = confs w \<and> classes u = classes w)"
    unfolding attach_conf_def Let_def by (auto simp: send_defs)
  then show ?thesis using assms(1) at by auto
qed

section \<open>Detaching\<close>

lemma drop_class_fields:
  assumes "ci_class (cf w a) = Some k"
  defines "n \<equiv> cls_links (classes w k) - (if has_flag (ci_status (cf w a)) CONF_CLIENT_MASK \<and> cls_links (classes w k) > 0 then 1 else 0)"
  defines "gone \<equiv> cls_maxLinks (classes w k) = -1 \<and> n = 0"
  shows "classes (drop_class a w) = (classes w)(k := (classes w k)\<lparr>cls_links := n, cls_freed := gone \<or> cls_freed (classes w k)\<rparr>)"
    "confs (drop_class a w) = (if gone then (confs w)(a := (cf w a)\<lparr>ci_class := None\<rparr>) else confs w)"
  by (auto simp: drop_class_def add_links_def Let_def assms(1) n_def gone_def fun_eq_iff)

lemma drop_class_none: "ci_class (cf w a) = None \<Longrightarrow> drop_class a w = w"
  by (simp add: drop_class_def)

lemma cl_drop_class: "cl (drop_class a w) = cl w"
  by (simp add: drop_class_def add_links_def Let_def split: option.split)

lemma detach_fields:
  assumes "a \<in> set (cl_confs (cl w c))"
  shows "classes (snd (detach_conf c a w)) = classes (drop_class a w)"
    "cl_confs (cl (snd (detach_conf c a w)) d) = (if d = c then remove1 a (cl_confs (cl w c)) else cl_confs (cl w d))"
    "b \<noteq> a \<Longrightarrow> cf (snd (detach_conf c a w)) b = cf (drop_class a w) b"
    "ci_status (cf (snd (detach_conf c a w)) a) = ci_status (cf (drop_class a w) a)"
    "ci_class (cf (snd (detach_conf c a w)) a) = ci_class (cf (drop_class a w) a)"
    "ci_clients (cf (snd (detach_conf c a w)) a) = ci_clients (cf (drop_class a w) a) - 1"
    "ci_freed (cf (snd (detach_conf c a w)) a) \<Longrightarrow> ci_clients (cf (drop_class a w) a) = 1 \<or> ci_freed (cf (drop_class a w) a)"
  using assms by (simp_all add: detach_conf_def Let_def cl_drop_class split: if_splits)

lemma drop_class_item:
  "b \<noteq> a \<Longrightarrow> cf (drop_class a w) b = cf w b" "ci_status (cf (drop_class a w) b) = ci_status (cf w b)"
  "ci_clients (cf (drop_class a w) b) = ci_clients (cf w b)" "ci_freed (cf (drop_class a w) b) = ci_freed (cf w b)"
  by (cases "ci_class (cf w a)"; simp add: drop_class_none drop_class_fields)+

lemma detach_keeps:
  fixes a :: confid and c :: cid and w :: world
  assumes "conf_ok w"
  defines "v \<equiv> snd (detach_conf c a w)"
  shows "conf_ok v" "attached v = attached w - {(c, a)}"
proof -
  have "conf_ok v \<and> attached v = attached w - {(c, a)}"
  proof (cases "a \<in> set (cl_confs (cl w c))")
    case False
    then show ?thesis using assms(1) by (auto simp: v_def detach_conf_def attached_def)
  next
    case True
    let ?m = "has_flag (ci_status (cf w a)) CONF_CLIENT_MASK"
    note ok = conf_okD [OF assms(1)]
    note f = detach_fields [OF True, folded v_def]
    have here: "(c, a) \<in> attached w" using True by (simp add: attached_iff)
    have att: "attached v = attached w - {(c, a)}"
      using ok(2) [of c] by (auto simp: attached_def f(2) split: if_splits)
    have st: "ci_status (cf v b) = ci_status (cf w b)" "ci_clients (cf v b) = ci_clients (cf w b) - (if b = a then 1 else 0)"
      "b \<noteq> a \<Longrightarrow> cf v b = cf w b" "ci_freed (cf v a) \<Longrightarrow> ci_freed (cf w a) \<or> ci_clients (cf w a) = 1" for b
      subgoal by (cases "b = a") (simp_all add: f(3,4) drop_class_item)
      subgoal by (cases "b = a") (simp_all add: f(3,6) drop_class_item)
      subgoal by (simp add: f(3) drop_class_item)
      subgoal using f(7) drop_class_item(3,4) [of a w a] by auto
      done
    have use: "uses v k = uses w k - {(c, a)} \<and> cls_links (classes v k) = int (card (uses w k - {(c, a)})) \<and>
        (cls_freed (classes v k) \<longrightarrow> cls_freed (classes w k) \<or> uses w k - {(c, a)} = {})" for k
    proof -
      have fin: "finite (uses w k)" by (rule uses_finite [OF ok(1)])
      have mem: "(c, a) \<in> uses w k \<longleftrightarrow> ?m \<and> ci_class (cf w a) = Some k" using here by (simp add: uses_def)
      have n: "int (card (uses w k - {(c, a)})) = cls_links (classes w k) - (if (c, a) \<in> uses w k \<and> cls_links (classes w k) > 0 then 1 else 0)"
      proof (cases "(c, a) \<in> uses w k")
        case True
        then have "card (uses w k) = Suc (card (uses w k - {(c, a)}))" by (rule card.remove [OF fin])
        then show ?thesis using True ok(4) [of k] by simp
      next
        case False
        then show ?thesis by (simp add: ok(4))
      qed
      show ?thesis
      proof (cases "ci_class (cf w a) = Some k")
        case False
        have "classes v k = classes w k"
        proof (cases "ci_class (cf w a)")
          case None
          then show ?thesis unfolding f(1) by (simp only: drop_class_none)
        next
          case (Some h)
          then show ?thesis using False unfolding f(1) drop_class_fields(1) [OF Some] by simp
        qed
        moreover have "ci_class (cf v b) = Some k \<longleftrightarrow> ci_class (cf w b) = Some k" for b
        proof (cases "b = a")
          case True
          have "ci_class (cf (drop_class a w) a) \<noteq> Some k"
          proof (cases "ci_class (cf w a)")
            case None
            then show ?thesis by (simp add: drop_class_none)
          next
            case (Some h)
            then show ?thesis using False unfolding drop_class_fields(2) [OF Some] by simp
          qed
          then show ?thesis using False f(5) True by simp
        qed (simp add: st)
        then have "uses v k = uses w k - {(c, a)}" using mem False by (auto simp: uses_def att st)
        ultimately show ?thesis using False mem ok(4) [of k] by simp
      next
        case Some: True
        let ?gone = "cls_maxLinks (classes w k) = -1 \<and> int (card (uses w k - {(c, a)})) = 0"
        have links: "cls_links (classes v k) = int (card (uses w k - {(c, a)}))"
          "cls_freed (classes v k) = (?gone \<or> cls_freed (classes w k))"
          "ci_class (cf v a) = (if ?gone then None else Some k)"
          using Some unfolding n mem by (simp_all add: f(1,5) drop_class_fields [OF Some])
        have "?gone \<Longrightarrow> uses w k - {(c, a)} = {}" using fin by simp
        moreover have "uses v k = uses w k - {(c, a)}"
        proof (cases ?gone)
          case True
          then have "uses w k - {(c, a)} = {}" using fin by simp
          moreover have "uses v k \<subseteq> uses w k - {(c, a)}"
            using links(3) True by (auto simp: uses_def att st) (metis option.distinct(1) st(3))
          ultimately show ?thesis by blast
        next
          case False
          then have "ci_class (cf v b) = ci_class (cf w b)" for b using links(3) Some st(3) [of b] by (cases "b = a") auto
          then show ?thesis by (auto simp: uses_def att st)
        qed
        ultimately show ?thesis using links by blast
      qed
    qed
    have users: "{d. (d, b) \<in> attached v} = {d. (d, b) \<in> attached w} - (if b = a then {c} else {})" for b by (auto simp: att)
    have "ci_clients (cf v b) = int (card {d. (d, b) \<in> attached v})" for b
    proof (cases "b = a")
      case True
      have "c \<in> {d. (d, a) \<in> attached w}" using here by simp
      then have "card ({d. (d, a) \<in> attached w} - {c}) = card {d. (d, a) \<in> attached w} - 1" "card {d. (d, a) \<in> attached w} > 0"
        using users_finite [OF ok(1), of a] by (auto simp: card_gt_0_iff)
      then show ?thesis by (simp add: True users st ok(3) of_nat_diff)
    qed (simp add: users st ok(3))
    moreover have "\<not> ci_freed (cf v b)" if "(d, b) \<in> attached v" for d b
    proof (cases "b = a")
      case True
      then have "d \<noteq> c" "{d, c} \<subseteq> {d. (d, a) \<in> attached w}" using that here by (auto simp: att)
      then have "card {d. (d, a) \<in> attached w} \<ge> 2"
        using card_mono [OF users_finite [OF ok(1)], of "{d, c}" a] by simp
      then show ?thesis using st(4) ok(3) [of a] ok(5) [OF here] True by auto
    next
      case False
      then show ?thesis using that ok(5) [of d b] st(3) by (simp add: att)
    qed
    moreover have "\<not> cls_freed (classes v k)" if "(d, b) \<in> uses v k" for d b k
      using that use [of k] ok(6) [of d b k] by auto
    moreover have "distinct (cl_confs (cl v d))" for d using ok(2) by (simp add: f(2))
    moreover have "finite (attached v)" using ok(1) by (simp add: att)
    moreover have "cls_links (classes v k) = int (card (uses v k))" for k using use [of k] by simp
    ultimately have "conf_ok v" by (intro conf_okI)
    then show ?thesis using att by blast
  qed
  then show "conf_ok v" "attached v = attached w - {(c, a)}" by blast+
qed

lemma detach_unless_keeps:
  assumes "conf_ok w"
  shows "conf_ok (detach_unless m c a w)"
    "attached (detach_unless m c a w) = (if has_flag (ci_status (cf w a)) m then attached w else attached w - {(c, a)})"
    "ci_status (cf (detach_unless m c a w) b) = ci_status (cf w b)"
proof -
  show "conf_ok (detach_unless m c a w)"
    "attached (detach_unless m c a w) = (if has_flag (ci_status (cf w a)) m then attached w else attached w - {(c, a)})"
    using detach_keeps [OF assms, of c a] assms by (simp_all add: detach_unless_def)
  have "ci_status (cf (snd (detach_conf c a w)) b) = ci_status (cf w b)"
  proof (cases "a \<in> set (cl_confs (cl w c))")
    case True
    then show ?thesis
      using detach_fields(3) [OF True, of b] detach_fields(4) [OF True] drop_class_item(2) by (cases "b = a") auto
  qed (simp add: detach_conf_def)
  then show "ci_status (cf (detach_unless m c a w) b) = ci_status (cf w b)" by (simp add: detach_unless_def)
qed

lemma fold_detach_keeps:
  assumes "conf_ok w"
  shows "conf_ok (fold (detach_unless m c) l w) \<and>
    attached (fold (detach_unless m c) l w) = attached w - {c} \<times> {a \<in> set l. \<not> has_flag (ci_status (cf w a)) m}"
  using assms
proof (induction l arbitrary: w)
  case (Cons a l)
  note k = detach_unless_keeps [OF Cons.prems, of m c a]
  show ?case using Cons.IH [OF k(1)] by (auto simp: k(2,3))
qed simp

section \<open>Properties\<close>

text \<open>An item that may be attached: neither it nor its class is freed.\<close>

definition usable :: "world \<Rightarrow> confid \<Rightarrow> bool" where
  "usable w a = (\<not> ci_freed (cf w a) \<and>
     (case ci_class (cf w a) of None \<Rightarrow> True | Some k \<Rightarrow> \<not> cls_freed (classes w k)))"

text \<open>C22 (use counts of the configuration).
  Attaching an item to a client, detaching it, and detaching all items but those of a kind keep the use
  counts exact: an item counts the clients it is attached to, a class the attachments of its lines, and
  no structure is freed while a client still refers to it.  Detaching by kind removes exactly the other
  items of that client.\<close>

theorem conf_counts:
  assumes "conf_ok w" "usable w a"
  shows "conf_ok (snd (attach_conf c a w)) \<and> conf_ok (snd (detach_conf c a w)) \<and> conf_ok (det_confs_butmask c m w) \<and>
    attached (det_confs_butmask c m w) = attached w - {(c, b) | b. \<not> has_flag (ci_status (cf w b)) m}"
proof (intro conjI)
  show "conf_ok (snd (attach_conf c a w))"
    by (rule attach_keeps) (use assms in \<open>auto simp: usable_def\<close>)
  show "conf_ok (snd (detach_conf c a w))" by (rule detach_keeps(1) [OF assms(1)])
  show "conf_ok (det_confs_butmask c m w)"
    unfolding det_confs_butmask_def by (rule fold_detach_keeps [OF assms(1), THEN conjunct1])
  show "attached (det_confs_butmask c m w) = attached w - {(c, b) | b. \<not> has_flag (ci_status (cf w b)) m}"
    using fold_detach_keeps [OF assms(1), of m c "cl_confs (cl w c)"] by (auto simp: det_confs_butmask_def attached_def)
qed

definition one_iline :: world where
  "one_iline = boot\<lparr>confs := (\<lambda>_. zero_conf)(7 := zero_conf\<lparr>ci_status := CONF_CLIENT, ci_class := Some 0\<rparr>),
     classes := (\<lambda>_. zero_class)(0 := zero_class\<lparr>cls_maxLinks := 1\<rparr>)\<rparr>"

lemma one_iline_simps:
  "cl_confs (cl one_iline c) = []" "attached one_iline = {}" "uses one_iline k = {}"
  "cf one_iline 7 = zero_conf\<lparr>ci_status := CONF_CLIENT, ci_class := Some 0\<rparr>" "ci_clients (cf one_iline a) = 0"
  "classes one_iline 0 = zero_class\<lparr>cls_maxLinks := 1\<rparr>" "cls_links (classes one_iline k) = 0"
  by (simp_all add: attached_def uses_def one_iline_def boot_def zero_client_def zero_conf_def zero_class_def)

lemma one_iline_ok: "conf_ok one_iline" "usable one_iline 7"
  by (simp_all add: conf_ok_def usable_def one_iline_simps) (simp_all add: zero_conf_def zero_class_def)

theorem conf_counts_witness:
  "conf_ok (snd (attach_conf 3 7 one_iline)) \<and> conf_ok (snd (detach_conf 3 7 one_iline)) \<and>
    conf_ok (det_confs_butmask 3 0 one_iline) \<and>
    attached (det_confs_butmask 3 0 one_iline) = attached one_iline - {(3, b) | b. \<not> has_flag (ci_status (cf one_iline b)) 0}"
  by (rule conf_counts [OF one_iline_ok])

text \<open>The limit of a class. As long as no class has more users than its limit, attaching a client line that is not exempt keeps it
  so, whatever the other counts are; and when the class is full the client is refused and nothing changes.\<close>

theorem class_limit:
  assumes "ConfLinks w a \<le> ConfMaxLinks w a" "ConfMaxLinks w a > 0" "\<not> IsConfFlined (cf w a)" "ci_status (cf w a) = CONF_CLIENT"
    "a \<notin> set (cl_confs (cl w c))"
  shows "ConfLinks (snd (attach_conf c a w)) a \<le> ConfMaxLinks (snd (attach_conf c a w)) a \<and>
    (ConfLinks w a = ConfMaxLinks w a \<longrightarrow> attach_conf c a w = (I_LINE_FULL, w))"
proof -
  have st: "has_flag CONF_CLIENT CONF_CLIENT" "\<not> has_flag CONF_CLIENT (CONF_LOCOP OR CONF_OPERATOR)"
    "\<not> has_flag CONF_CLIENT CONF_ILLEGAL" "has_flag CONF_CLIENT CONF_CLIENT_MASK"
    by (simp_all add: has_flag_def conf_flag_defs)
  obtain k where k: "ci_class (cf w a) = Some k \<or> ci_class (cf w a) = None" by (cases "ci_class (cf w a)") auto
  show ?thesis
    using assms k
    by (auto simp: attach_conf_def Let_def st IsIllegal_def link_conf_def add_links_def ConfLinks_def ConfMaxLinks_def
        conf_class_def I_LINE_FULL_def split: option.splits)
qed

theorem class_limit_witness:
  "ConfLinks (snd (attach_conf 3 7 one_iline)) 7 \<le> ConfMaxLinks (snd (attach_conf 3 7 one_iline)) 7"
  using class_limit [of one_iline 7 3]
  by (simp add: one_iline_simps zero_conf_def zero_class_def ConfLinks_def ConfMaxLinks_def conf_class_def IsConfFlined_def has_flag_def)

end
