(* ===== verification/Register.thy ===== *)
theory Register
  imports Deliver
begin

text \<open>
  Registration of users: \<open>register_user\<close> with what it calls, \<open>m_user\<close>, \<open>do_user\<close> and \<open>show_lusers\<close> of
  \<open>src/s_user.c\<close>, \<open>show_isupport\<close> of \<open>src/s_misc.c\<close>, \<open>SendMessageFile\<close> of \<open>src/motd.c\<close>, and \<open>make_client\<close>,
  \<open>make_user\<close>, \<open>make_server\<close>, \<open>add_client_to_list\<close> and \<open>add_client_to_llist\<close> of \<open>src/client.c\<close> and
  \<open>src/list.c\<close>.  \<open>REJECT_HOLD\<close>, \<open>SHORT_MOTD\<close>, \<open>LITTLE_I_LINES\<close> and \<open>NO_DEFAULT_INVISIBLE\<close> are not
  defined.  The outcome is \<open>None\<close> when a null pointer is used or memory is out.
\<close>

definition REALLEN :: nat where "REALLEN = 50"
definition HOSTIPLEN :: nat where "HOSTIPLEN = 16"
definition MAX_BUFFER :: int where "MAX_BUFFER = 60"
definition LUSERS_CACHE_TIME :: int where "LUSERS_CACHE_TIME = 180"

definition RPL_WELCOME :: nat where "RPL_WELCOME = 1"
definition RPL_YOURHOST :: nat where "RPL_YOURHOST = 2"
definition RPL_CREATED :: nat where "RPL_CREATED = 3"
definition RPL_MYINFO :: nat where "RPL_MYINFO = 4"
definition RPL_ISUPPORT :: nat where "RPL_ISUPPORT = 5"
definition RPL_STATSCONN :: nat where "RPL_STATSCONN = 250"
definition RPL_LUSERCLIENT :: nat where "RPL_LUSERCLIENT = 251"
definition RPL_LUSEROP :: nat where "RPL_LUSEROP = 252"
definition RPL_LUSERUNKNOWN :: nat where "RPL_LUSERUNKNOWN = 253"
definition RPL_LUSERCHANNELS :: nat where "RPL_LUSERCHANNELS = 254"
definition RPL_LUSERME :: nat where "RPL_LUSERME = 255"
definition RPL_LOCALUSERS :: nat where "RPL_LOCALUSERS = 265"
definition RPL_GLOBALUSERS :: nat where "RPL_GLOBALUSERS = 266"
definition RPL_MOTD :: nat where "RPL_MOTD = 372"
definition RPL_MOTDSTART :: nat where "RPL_MOTDSTART = 375"
definition RPL_ENDOFMOTD :: nat where "RPL_ENDOFMOTD = 376"
definition ERR_NOMOTD :: nat where "ERR_NOMOTD = 422"
definition ERR_ALREADYREGISTRED :: nat where "ERR_ALREADYREGISTRED = 462"
definition ERR_PASSWDMISMATCH :: nat where "ERR_PASSWDMISMATCH = 464"

section \<open>New structures\<close>

definition make_client :: "cid option \<Rightarrow> world \<Rightarrow> cid \<times> world" where
  "make_client frm w =
     (let c = next_client w;
          k = zero_client\<lparr>status := STAT_UNKNOWN, fd := -1, username := ''unknown'', null_servptr := True\<rparr>;
          k' = (case frm of
                  None \<Rightarrow> k\<lparr>local_flag := True, cfrom := c, cl_since := now w, cl_lasttime := now w, cl_firsttime := now w\<rparr>
                | Some f \<Rightarrow> k\<lparr>cfrom := f\<rparr>)
      in (c, upd_cl c (\<lambda>_. k') (w\<lparr>next_client := c + 1\<rparr>)))"

definition fresh_anuser :: user where
  "fresh_anuser = \<lparr>u_channel = [], u_invited = [], u_joined = 0, u_server = [], u_away = None, u_last = 0\<rparr>"

definition make_user :: "cid \<Rightarrow> world \<Rightarrow> world" where
  "make_user c w = (if user (cl w c) = None then upd_cl c (\<lambda>k. k\<lparr>user := Some fresh_anuser\<rparr>) w else w)"

definition fresh_server :: server where
  "fresh_server = \<lparr>sv_up = None, sv_servers = [], sv_users = [], sv_usercnt = 0, sv_nline = None\<rparr>"

definition make_server :: "cid \<Rightarrow> world \<Rightarrow> world" where
  "make_server c w = (if cl_serv (cl w c) = None then upd_cl c (\<lambda>k. k\<lparr>cl_serv := Some fresh_server\<rparr>) w else w)"

definition add_client_to_list :: "cid \<Rightarrow> world \<Rightarrow> world" where
  "add_client_to_list c w = w\<lparr>client_list := c # client_list w\<rparr>"

text \<open>\<open>add_client_to_llist\<close> for a client that is on no list of a server.\<close>

definition add_user_to_server :: "cid \<Rightarrow> cid \<Rightarrow> world \<Rightarrow> world" where
  "add_user_to_server p c w =
     upd_serv p (\<lambda>s. s\<lparr>sv_users := c # sv_users s, sv_usercnt := sv_usercnt s + 1\<rparr>) w"

definition add_server_to_server :: "cid \<Rightarrow> cid \<Rightarrow> world \<Rightarrow> world" where
  "add_server_to_server p c w = upd_serv p (\<lambda>s. s\<lparr>sv_servers := c # sv_servers s\<rparr>) w"

section \<open>\<open>show_lusers\<close>\<close>

text \<open>The numbers of servers, visible and invisible users, operators, and so on.\<close>

record lusers =
  lu_servers :: int
  lu_visible :: int
  lu_unknown :: int
  lu_invisible :: int
  lu_opers :: int
  lu_clients :: int
  lu_myservers :: int

definition lusers_recount :: "world \<Rightarrow> lusers" where
  "lusers_recount w =
     (let num = (\<lambda>P. int (length (filter (\<lambda>c. P (cl w c)) (client_list w)))) in
      \<lparr>lu_servers = num (\<lambda>k. IsServer k \<or> IsMe k),
       lu_visible = num (\<lambda>k. IsClient k \<and> \<not> IsInvisible k),
       lu_unknown = num (\<lambda>k. \<not> IsServer k \<and> \<not> IsMe k \<and> \<not> IsClient k),
       lu_invisible = num (\<lambda>k. IsClient k \<and> IsInvisible k),
       lu_opers = num (\<lambda>k. IsClient k \<and> IsAnOper k),
       lu_clients = num (\<lambda>k. IsClient k \<and> MyConnect k),
       lu_myservers = num (\<lambda>k. IsServer k \<and> MyConnect k)\<rparr>)"

definition lusers_kept :: "world \<Rightarrow> lusers" where
  "lusers_kept w =
     \<lparr>lu_servers = count_server w, lu_visible = count_total w - count_invisi w, lu_unknown = 0, lu_invisible = count_invisi w,
      lu_opers = count_oper w, lu_clients = count_local w, lu_myservers = count_myserver w\<rparr>"

definition count_off :: "cstr \<Rightarrow> int \<Rightarrow> int \<Rightarrow> world \<Rightarrow> world" where
  "count_off txt kept counted w =
     (if counted \<noteq> kept then sendto_realops_flags FLAGS_DEBUG (Fmt txt) [Num (kept - counted)] w else w)"

definition lusers_repair :: "lusers \<Rightarrow> world \<Rightarrow> world" where
  "lusers_repair l w =
     (let w1 = (count_off ''Local server count off by %d'' (count_myserver w) (lu_myservers l) w)\<lparr>count_myserver := lu_myservers l\<rparr>;
          w2 = (count_off ''Server count off by %d'' (count_server w) (lu_servers l) w1)\<lparr>count_server := lu_servers l\<rparr>;
          w3 = (count_off ''Invisible client count off by %d'' (count_invisi w) (lu_invisible l) w2)\<lparr>count_invisi := lu_invisible l\<rparr>;
          w4 = (count_off ''Total client count off by %d'' (count_total w) (lu_visible l + lu_invisible l) w3)
                 \<lparr>count_total := lu_visible l + lu_invisible l\<rparr>;
          w5 = (count_off ''Local client count off by %d'' (count_local w) (lu_clients l) w4)\<lparr>count_local := lu_clients l\<rparr>;
          w6 = (count_off ''Oper count off by %d'' (count_oper w) (lu_opers l) w5)\<lparr>count_oper := lu_opers l\<rparr>
      in w6\<lparr>count_unknown := lu_unknown l\<rparr>)"

definition lusers_reply :: "cid \<Rightarrow> cstr \<Rightarrow> lusers \<Rightarrow> world \<Rightarrow> world" where
  "lusers_reply sptr p0 l w =
     (let say = (\<lambda>n ns. One sptr (form_str n) (me_name w # Str p0 # map Num ns)) in
      log_out (say RPL_LUSERCLIENT [lu_visible l, lu_invisible l, lu_servers l] #
        (if lu_opers l \<noteq> 0 then [say RPL_LUSEROP [lu_opers l]] else []) @
        (if lu_unknown l > 0 then [say RPL_LUSERUNKNOWN [lu_unknown l]] else []) @
        (if count_chan w > 0 then [say RPL_LUSERCHANNELS [count_chan w]] else []) @
        [say RPL_LUSERME [lu_clients l, lu_myservers l],
         say RPL_LOCALUSERS [count_local w, count_max_loc w], say RPL_GLOBALUSERS [count_total w, count_max_tot w],
         say RPL_STATSCONN [max_conn_count w, max_client_count w, count_restart w]]) w)"

definition show_lusers :: "cid \<Rightarrow> cstr list \<Rightarrow> world \<Rightarrow> world" where
  "show_lusers sptr parv w0 =
     (let forced = (IsAnOper (cl w0 sptr) \<and> length parv > 3);
          w = w0\<lparr>count_unknown := 0\<rparr>;
          again = (forced \<or> now w > lusers_time w + LUSERS_CACHE_TIME);
          l = (if again then lusers_recount w else lusers_kept w);
          w1 = (if again then w\<lparr>lusers_time := now w\<rparr> else w);
          w2 = (if again \<and> \<not> forced then lusers_repair l w1 else w1);
          w3 = lusers_reply sptr (parv ! 0) l w2
      in w3\<lparr>max_client_count := max (max_client_count w3) (lu_clients l),
            max_conn_count := max (max_conn_count w3) (lu_clients l + lu_myservers l)\<rparr>)"

section \<open>What a new user is shown\<close>

definition NETWORK_NAME :: cstr where "NETWORK_NAME = ''EFnet''"

definition isupport_lines :: "world \<Rightarrow> cstr list" where
  "isupport_lines w =
     [''WALLCHOPS EXCEPTS INVEX MODES=4 MAXCHANNELS=20 MAXBANS=beI:'' @ dec_int (maxbans w) @
        '' MAXTARGETS=4 NICKLEN=9 TOPICLEN=120 KICKLEN=90'',
      ''CHANTYPES=#& PREFIX=(ov)@+ CHANMODES=beI,k,l,imnpst NETWORK='' @ NETWORK_NAME @ '' CASEMAPPING=rfc1459 MAP ETRACE SINFO'']"

definition show_isupport :: "cid \<Rightarrow> cstr \<Rightarrow> world \<Rightarrow> world" where
  "show_isupport c nm w =
     log_out (map (\<lambda>l. One c (form_str RPL_ISUPPORT) [me_name w, Str nm, Str l]) (isupport_lines w)) w"

definition SendMessageFile :: "cid \<Rightarrow> cstr list option \<Rightarrow> world \<Rightarrow> world" where
  "SendMessageFile c file w =
     (let nm = Str (name (cl w c)) in
      case file of
        None \<Rightarrow> sendto_one c (form_str ERR_NOMOTD) [me_name w, nm] w
      | Some ls \<Rightarrow>
          log_out (One c (form_str RPL_MOTDSTART) [me_name w, nm, me_name w] #
            map (\<lambda>l. One c (form_str RPL_MOTD) [me_name w, nm, Str l]) ls @
            [One c (form_str RPL_ENDOFMOTD) [me_name w, nm]]) w)"

section \<open>Checks\<close>

definition get_client_host :: "client \<Rightarrow> cstr" where
  "get_client_host k =
     (if MyConnect k then name k @ ''['' @ take USERLEN (username k) @ ''@'' @ take HOSTLEN (host k) @ '']'' else name k)"

definition valid_hostname :: "cstr \<Rightarrow> bool" where
  "valid_hostname h =
     (let dots = length (filter (\<lambda>c. c = CHR ''.'') h); chars = length (filter (\<lambda>c. c \<noteq> CHR ''.'') h) in
      at h 0 \<noteq> CHR ''.'' \<and> list_all IsHostChar h \<and> dots \<noteq> 0 \<and> \<not> chars < dots)"

definition valid_username :: "cstr \<Rightarrow> bool" where
  "valid_username u =
     (let p = (if at u 0 = CHR ''~'' then tl u else u) in IsAlNum (at p 0) \<and> list_all IsUserChar (tl p))"

definition tell_user_off :: "cid \<Rightarrow> cstr option \<Rightarrow> world \<Rightarrow> world" where
  "tell_user_off c reason w =
     (case reason of
        Some r \<Rightarrow> sendto_one c (Fmt '':%s NOTICE %s :*** Banned: %s'')
                    [me_name w, Str (name (cl w c)), Str (takeWhile (\<lambda>x. x \<noteq> CHR ''|'') r)] w
      | None \<Rightarrow> sendto_one c (Fmt '':%s NOTICE %s :*** Banned: No Reason'') [me_name w, Str (name (cl w c))] w)"

definition grant :: "bool \<Rightarrow> cid \<Rightarrow> flags \<Rightarrow> cstr \<Rightarrow> world \<Rightarrow> world" where
  "grant b c fl txt w =
     (if b then sendto_one c (Fmt txt) [me_name w, Str (name (cl w c))] (upd_cl c (\<lambda>k. k\<lparr>flags2 := flags2 k OR fl\<rparr>) w) else w)"

definition report_and_set_user_flags :: "cid \<Rightarrow> confid \<Rightarrow> world \<Rightarrow> world" where
  "report_and_set_user_flags c a w =
     (let i = cf w a in
      grant (IsConfCanFlood i) c FLAGS2_CANFLOOD '':%s NOTICE %s :*** You are exempt from flooding ratelimit. BEHAVE!''
        (grant (IsConfFlined i) c FLAGS2_F_LINED '':%s NOTICE %s :*** You are exempt from user limits. congrats.''
          (grant (IsConfElined i) c FLAGS2_E_LINED '':%s NOTICE %s :*** You are exempt from K/D/G lines. congrats.''
            (grant (IsConfDoSpoofIp i) c 0 '':%s NOTICE %s :*** Spoofing your IP. congrats.'' w))))"

section \<open>\<open>register_user\<close>\<close>

text \<open>
  The checks of a local client are a chain that ends with the return of \<open>register_user\<close> (\<open>Inl\<close>: its
  value and the state) or goes on (\<open>Inr\<close>).  \<open>refuse\<close> is the end most of them share: the client is
  counted as refused and exits.
\<close>

type_synonym verdict = "(int \<times> world + world) option"

definition refuse :: "cid \<Rightarrow> cid \<Rightarrow> cstr \<Rightarrow> world \<Rightarrow> verdict" where
  "refuse cptr sptr comment w =
     map_option Inl (exit_client (Some cptr) sptr (me w) comment (bump (\<lambda>s. s\<lparr>is_ref := is_ref s + 1\<rparr>) w))"

fun go_on :: "verdict \<Rightarrow> (world \<Rightarrow> verdict) \<Rightarrow> verdict" where
  "go_on None f = None"
| "go_on (Some (Inl r)) f = Some (Inl r)"
| "go_on (Some (Inr w)) f = f w"

definition set_username :: "cid \<Rightarrow> cstr \<Rightarrow> world \<Rightarrow> world" where
  "set_username c u w = upd_cl c (\<lambda>k. k\<lparr>username := u\<rparr>) w"

definition tilde_name :: "cstr \<Rightarrow> cstr" where
  "tilde_name u = CHR ''~'' # take (USERLEN - 1) u"

text \<open>The answer of \<open>check_client\<close>.\<close>

definition register_access :: "cid \<Rightarrow> cid \<Rightarrow> cstr \<Rightarrow> world \<Rightarrow> verdict" where
  "register_access cptr sptr usr w0 =
     (case check_client sptr usr w0 of
        None \<Rightarrow> None
      | Some (r, reason, w) \<Rightarrow>
          let k = cl w sptr; hst = Str (get_client_host k); addr = Str (inetntoa (ip k)) in
          if r = SOCKET_ERROR then map_option Inl (exit_client (Some cptr) sptr (me w) ''Socket Error'' w)
          else if r = I_LINE_FULL \<or> r = I_LINE_FULL2 then
            refuse cptr sptr ''No more connections allowed in your connection class''
              (sendto_realops_flags FLAGS_FULL (Fmt ''%s for %s (%s).'') [Str ''I-line is full'', hst, addr] w)
          else if r = NOT_AUTHORIZED then
            refuse cptr sptr ''You are not authorized to use this server''
              (sendto_realops_flags FLAGS_CCONN (Fmt ''%s from %s [%s] on [%s/%u].'')
                 [Str ''Unauthorized client connection'', hst, addr, Str (listener_name k), Num (listener_port k)]
                 (bump (\<lambda>s. s\<lparr>is_ref := is_ref s + 1\<rparr>) w))
          else if r = BANNED_CLIENT then
            refuse cptr sptr ''Banned''
              (tell_user_off sptr reason
                (if IsGotId k then w
                 else set_username sptr (if IsNeedId k then tilde_name usr else take USERLEN usr) w))
          else Some (Inr w))"

text \<open>The I-line the client got: host name, ident and password.\<close>

definition register_line :: "cid \<Rightarrow> cid \<Rightarrow> cstr \<Rightarrow> world \<Rightarrow> verdict" where
  "register_line cptr sptr usr w =
     (let nm = Str (name (cl w sptr));
          w1 = (if valid_hostname (host (cl w sptr)) then w
                else upd_cl sptr (\<lambda>k. k\<lparr>host := take (HOSTIPLEN + 1) (cl_sockhost k)\<rparr>)
                  (sendto_one sptr (Fmt '':%s NOTICE %s :*** Notice -- You have an illegal character in your hostname'')
                     [me_name w, nm] w))
      in case cl_confs (cl w1 sptr) of
           [] \<Rightarrow> None
         | a # as \<Rightarrow>
             let i = cf w1 a;
                 got = IsGotId (cl w1 sptr);
                 w2 = (if got then w1 else set_username sptr (if IsNoTilde i then take USERLEN usr else tilde_name usr) w1)
             in if \<not> got \<and> IsNeedIdentd i then
                  refuse cptr sptr ''Install identd''
                    (sendto_one sptr (Fmt '':%s NOTICE %s :*** Notice -- You need to install identd to use this server'')
                       [me_name w1, Str (name (cl w1 cptr))] w1)
                else if \<not> BadPtr (ci_passwd i) \<and> ci_passwd i \<noteq> Some (cl_passwd (cl w2 sptr)) then
                  refuse cptr sptr ''Bad Password'' (sendto_one sptr (form_str ERR_PASSWDMISMATCH) [me_name w2, nm] w2)
                else Some (Inr (report_and_set_user_flags sptr a (upd_cl sptr (\<lambda>k. k\<lparr>cl_passwd := []\<rparr>) w2))))"

text \<open>The limits of the server, the user name and the X-lines.\<close>

definition server_full :: "world \<Rightarrow> cid \<Rightarrow> bool" where
  "server_full w c =
     (count_local w + 1 \<ge> maxclients w + MAX_BUFFER \<or>
      count_local w + 1 \<ge> maxclients w - 5 \<and> \<not> IsFlined (cl w c))"

definition register_limits :: "cid \<Rightarrow> cid \<Rightarrow> cstr \<Rightarrow> world \<Rightarrow> verdict" where
  "register_limits cptr sptr nick w =
     (let k = cl w sptr in
      if server_full w sptr then
        refuse cptr sptr ''Sorry, server is full - try later''
          (sendto_realops_flags FLAGS_FULL (Fmt ''Too many clients, rejecting %s[%s].'') [Str nick, Str (host k)] w)
      else if \<not> valid_username (username k) then
        refuse cptr sptr (''Invalid username ['' @ username k @ '']'')
          (sendto_realops_flags FLAGS_REJ (Fmt ''Invalid username: %s (%s@%s)'') [Str nick, Str (username k), Str (host k)] w)
      else case (if IsAnOper k then None else find_special_conf w (info k) CONF_XLINE) of
        None \<Rightarrow> Some (Inr w)
      | Some a \<Rightarrow>
          let args = [Str (info k), Str (case ci_passwd (cf w a) of None \<Rightarrow> ''NONE'' | Some r \<Rightarrow> r),
                      Str (get_client_name (cl w cptr) HIDE_IP)];
              p = ci_port (cf w a)
          in if p \<noteq> 0 then
               refuse cptr sptr ''Bad user info''
                 (if p = 1 then sendto_realops_flags FLAGS_REJ (Fmt ''X-line Rejecting [%s] [%s], user %s'') args w else w)
             else Some (Inr (sendto_realops_flags FLAGS_REJ (Fmt ''X-line Warning [%s] [%s], user %s'') args w)))"

text \<open>The client is let in and counted.\<close>

definition count_new_local :: "world \<Rightarrow> world" where
  "count_new_local w =
     (let n = count_local w + 1 in
      if n > count_max_loc w then
        (if n mod 10 = 0 then sendto_ops (Fmt ''New Max Local Clients: %d'') [Num n] else id)
          (w\<lparr>count_local := n, count_max_loc := n\<rparr>)
      else w\<lparr>count_local := n\<rparr>)"

definition register_accept :: "cid \<Rightarrow> cstr \<Rightarrow> world \<Rightarrow> world" where
  "register_accept sptr nick w =
     (let w1 = upd_umodes sptr (\<lambda>m. m OR FLAGS_INVISIBLE) w; k = cl w1 sptr;
          w2 = sendto_realops_flags FLAGS_CCONN (Fmt ''Client connecting: %s (%s@%s) [%s] {%d} [%s]'')
                 [Str nick, Str (username k), Str (host k),
                  Str (if IsIPSpoof k then ''255.255.255.255'' else inetntoa (ip k)),
                  Num (get_client_class w1 sptr), Str (info k)] w1
      in count_new_local (if IsInvisible k then w2\<lparr>count_invisi := count_invisi w2 + 1\<rparr> else w2))"

definition register_local :: "cid \<Rightarrow> cid \<Rightarrow> cstr \<Rightarrow> cstr \<Rightarrow> world \<Rightarrow> verdict" where
  "register_local cptr sptr nick usr w =
     go_on (go_on (go_on (register_access cptr sptr usr w) (register_line cptr sptr usr))
       (register_limits cptr sptr nick)) (\<lambda>w1. Some (Inr (register_accept sptr nick w1)))"

text \<open>
  The client goes on the list of its server.  A server that is not known leaves a null pointer,
  and the client exits.
\<close>

definition enter_server :: "cid option \<Rightarrow> cid \<Rightarrow> cid \<Rightarrow> world \<Rightarrow> world" where
  "enter_server up cptr c w =
     (let w1 = upd_cl c (\<lambda>k. k\<lparr>status := STAT_CLIENT\<rparr>) w
      in case up of
           None \<Rightarrow>
             let k = cl w1 c; srv = Str (case user k of None \<Rightarrow> [] | Some u \<Rightarrow> u_server u)
             in kill_mark c
                  (sendto_one cptr (Fmt '':%s KILL %s :%s (Ghosted, %s doesn't exist)'')
                     [me_name w1, Str (name k), me_name w1, srv]
                    (sendto_realops (Fmt ''Ghost killed: %s on invalid server %s'') [Str (name k), srv]
                      (upd_cl c (\<lambda>k. k\<lparr>null_servptr := True\<rparr>) w1)))
         | Some p \<Rightarrow>
             let w2 = add_user_to_server p c (upd_cl c (\<lambda>k. k\<lparr>servptr := p, null_servptr := False\<rparr>) w1);
                 n = count_total w2 + 1
             in w2\<lparr>count_total := n, count_max_tot := max (count_max_tot w2) n\<rparr>)"

text \<open>The greeting of a local client; \<open>get_listener_name\<close> names the port it came in by.\<close>

definition get_listener_name :: "world \<Rightarrow> client \<Rightarrow> cstr" where
  "get_listener_name w k = name (cl w (me w)) @ ''['' @ listener_name k @ ''/'' @ dec_int (listener_port k) @ '']''"

definition welcome_user :: "cid \<Rightarrow> cstr \<Rightarrow> world \<Rightarrow> world" where
  "welcome_user sptr nick w =
     (let nm = name (cl w sptr);
          say = (\<lambda>n ags. One sptr (form_str n) (me_name w # Str nick # ags));
          w1 = log_out [say RPL_WELCOME [Str nick],
                  say RPL_YOURHOST [Str (get_listener_name w (cl w sptr)), Str (ircd_version w)],
                  say RPL_CREATED [Str (creation w)],
                  One sptr (form_str RPL_MYINFO) [me_name w, Str nm, me_name w, Str (ircd_version w)]] w;
          w2 = show_isupport sptr nm w1;
          w3 = show_lusers sptr [nm] (w2\<lparr>count_restart := count_restart w2 + 1\<rparr>);
          w4 = SendMessageFile sptr (motd w3) w3;
          w5 = (if server_was_split w4
                then sendto_one sptr (Fmt ''NOTICE %s :*** Notice -- server is currently in split-mode'') [Str nick] w4
                else w4)
      in w5\<lparr>nextping := now w5\<rparr>)"

text \<open>A remote client must be on a server that is reached over the link the client came from.\<close>

definition register_direction :: "cid \<Rightarrow> cid \<Rightarrow> cstr \<Rightarrow> world \<Rightarrow> verdict" where
  "register_direction cptr sptr nick w =
     (let k = cl w sptr; srv = (case user k of None \<Rightarrow> [] | Some u \<Rightarrow> u_server u) in
      case find_server w srv of
        Some a \<Rightarrow>
          if from_of (cl w a) \<noteq> from_of k then
            let f = cl w (cfrom (cl w a));
                w1 = sendto_realops_flags FLAGS_DEBUG (Fmt ''Bad User [%s] :%s USER %s@%s %s, != %s[%s]'')
                       [Str (name (cl w cptr)), Str nick, Str (username k), Str (host k), Str srv, Str (name (cl w a)), Str (name f)] w;
                w2 = sendto_one cptr (Fmt '':%s KILL %s :%s (%s != %s[%s] USER from wrong direction)'')
                       [me_name w, Str (name k), me_name w, Str srv, Str (name f), Str (host f)] w1
            in map_option Inl (exit_client (Some sptr) sptr (me w) ''USER server wrong direction'' (kill_mark sptr w2))
          else Some (Inr w)
      | None \<Rightarrow>
          let w1 = sendto_one cptr (Fmt '':%s KILL %s :%s GHOST (no server %s on the net)'')
                     [me_name w, Str (name k), me_name w, Str srv] w;
              w2 = sendto_realops (Fmt ''No server %s for user %s[%s@%s] from %s'')
                     [Str srv, Str (name k), Str (username k), Str (host k), Str (name (cl w (cfrom k)))] w1
          in map_option Inl (exit_client (Some sptr) sptr (me w) ''Ghosted Client'' (kill_mark sptr w2)))"

definition introduce_user :: "cid \<Rightarrow> cid \<Rightarrow> cstr \<Rightarrow> world \<Rightarrow> world" where
  "introduce_user cptr sptr nick w =
     (let (t, w1) = send_umode (if MyClient (cl w sptr) then Some sptr else None) sptr 0 SEND_UMODES w;
          ubuf = (if t = [] then ''+'' else t);
          w2 = (if MyConnect (cl w1 sptr) then w1\<lparr>local_list := sptr # local_list w1\<rparr> else w1);
          k = cl w2 sptr
      in sendto_serv_butone (Some cptr) (Fmt ''NICK %s %d %lu %s %s %s %s :%s'')
           [Str nick, Num (hopcount k + 1), Num (tsinfo k), Str ubuf, Str (username k), Str (host k),
            Str (case user k of None \<Rightarrow> [] | Some u \<Rightarrow> u_server u), Str (info k)] w2)"

definition register_place :: "cid \<Rightarrow> cid \<Rightarrow> cstr \<Rightarrow> world \<Rightarrow> (int \<times> world) option" where
  "register_place cptr sptr nick w =
     (let up = find_server (upd_cl sptr (\<lambda>k. k\<lparr>status := STAT_CLIENT\<rparr>) w)
                 (case user (cl w sptr) of None \<Rightarrow> [] | Some u \<Rightarrow> u_server u);
          w1 = enter_server up cptr sptr w
      in case up of
           None \<Rightarrow> exit_client None sptr (me w1) ''Ghost'' w1
         | Some p \<Rightarrow>
             if cl_serv (cl w p) = None then None
             else map_option (\<lambda>v. case v of Inl r \<Rightarrow> r | Inr w2 \<Rightarrow> (0, introduce_user cptr sptr nick w2))
               (if MyConnect (cl w1 sptr) then Some (Inr (welcome_user sptr nick w1))
                else if IsServer (cl w1 cptr) then register_direction cptr sptr nick w1
                else Some (Inr w1)))"

definition register_user :: "cid \<Rightarrow> cid \<Rightarrow> cstr \<Rightarrow> cstr \<Rightarrow> world \<Rightarrow> (int \<times> world) option" where
  "register_user cptr sptr nick username0 w =
     (let usr = take USERLEN username0;
          w1 = upd_cl sptr (\<lambda>k. k\<lparr>user := map_option (\<lambda>u. u\<lparr>u_last := now w\<rparr>) (user k)\<rparr>) w
      in if user (cl w sptr) = None then None
         else Option.bind (if MyConnect (cl w1 sptr) then register_local cptr sptr nick usr w1
                           else Some (Inr (set_username sptr usr w1)))
           (\<lambda>v. case v of Inl r \<Rightarrow> Some r | Inr w2 \<Rightarrow> register_place cptr sptr nick w2))"

section \<open>USER\<close>

definition do_user :: "cstr \<Rightarrow> cid \<Rightarrow> cid \<Rightarrow> cstr \<Rightarrow> cstr \<Rightarrow> cstr \<Rightarrow> cstr \<Rightarrow> world \<Rightarrow> (int \<times> world) option" where
  "do_user nick cptr sptr usr hst srv realname w =
     (let w1 = make_user sptr w;
          set_server = (\<lambda>sv k. k\<lparr>user := map_option (\<lambda>u. u\<lparr>u_server := sv\<rparr>) (user k)\<rparr>);
          next_step = (\<lambda>v.
            let w2 = upd_cl sptr (\<lambda>k. k\<lparr>info := take REALLEN realname\<rparr>) v; k = cl w2 sptr in
            if name k \<noteq> [] then register_user cptr sptr (name k) usr w2
            else Some (0, if IsGotId k then w2 else set_username sptr (take USERLEN usr) w2))
      in if \<not> MyConnect (cl w1 sptr) then
           (let (sv, t) = find_or_add srv (scache w1)
            in next_step (upd_cl sptr (\<lambda>k. (set_server sv k)\<lparr>host := take HOSTLEN hst\<rparr>) (w1\<lparr>scache := t\<rparr>)))
         else if \<not> IsUnknown (cl w1 sptr)
         then Some (0, sendto_one sptr (form_str ERR_ALREADYREGISTRED) [me_name w1, Str nick] w1)
         else next_step (upd_cl sptr (set_server (name (cl w1 (me w1)))) w1))"

text \<open>A null pointer or an empty string is replaced; \<open>parv[1]\<close> is cut at \<open>'@'\<close> when there is a host.\<close>

definition or_default :: "cstr list \<Rightarrow> nat \<Rightarrow> cstr \<Rightarrow> cstr" where
  "or_default parv i d = (if BadPtr (par parv i) then d else parv ! i)"

definition m_user :: "cid \<Rightarrow> cid \<Rightarrow> cstr list \<Rightarrow> world \<Rightarrow> (int \<times> world) option" where
  "m_user cptr sptr parv0 w =
     (let parv = (if length parv0 > 2 then parv0[1 := takeWhile (\<lambda>c. c \<noteq> CHR ''@'') (parv0 ! 1)] else parv0);
          p0 = parv ! 0;
          bad = (length parv < 5 \<or> parv ! 1 = [] \<or> parv ! 2 = [] \<or> parv ! 3 = [] \<or> parv ! 4 = []);
          w1 = (if bad then sendto_one sptr (form_str ERR_NEEDMOREPARAMS)
                  [me_name w, Str (if p0 = [] then ''*'' else p0), Str ''USER''] w else w);
          w2 = (if bad \<and> IsServer (cl w1 cptr)
                then sendto_realops (Fmt ''bad USER param count for %s from %s'')
                       [Str p0, Str (get_client_name (cl w1 cptr) MASK_IP)] w1
                else w1)
      in if bad \<and> \<not> IsServer (cl w1 cptr) then Some (0, w2)
         else do_user p0 cptr sptr (or_default parv 1 ''<bad-boy>'') (or_default parv 2 ''<nohost>'')
                (or_default parv 3 ''<noserver>'') (or_default parv 4 ''<bad-realname>'') w2)"

end
