(* ===== verification/Nick.thy ===== *)
theory Nick
  imports Register
begin

text \<open>
  NICK: \<open>clean_nick_name\<close>, \<open>nickkilldone\<close> and \<open>m_nick\<close> of \<open>src/s_user.c\<close>, with the rules for
  collisions of nicks.  \<open>ANTI_NICK_FLOOD\<close> and \<open>HIDE_SERVERS_IPS\<close> are defined.  A time stamp of zero
  stands for none; \<open>atol\<close> reads it as an unbounded integer.
\<close>

definition MAX_NICK_TIME :: int where "MAX_NICK_TIME = 20"
definition MAX_NICK_CHANGES :: int where "MAX_NICK_CHANGES = 5"

text \<open>The length of what is left of a nick, and the nick; a bad first letter leaves it as it is.\<close>

definition clean_nick_name :: "cstr \<Rightarrow> nat \<times> cstr" where
  "clean_nick_name nick =
     (if at nick 0 = CHR ''-'' \<or> IsDigit (at nick 0) then (0, nick)
      else let s = takeWhile IsNickChar (take NICKLEN nick) in (length s, s))"

section \<open>\<open>nickkilldone\<close>\<close>

text \<open>A server introduces a client: the new structure, and the modes the server gives it.\<close>

definition introduced_client :: "cid \<Rightarrow> cstr list \<Rightarrow> int \<Rightarrow> cstr \<Rightarrow> world \<Rightarrow> cid \<times> world" where
  "introduced_client cptr parv newts nick w =
     (let (c, v) = make_client (Some cptr) w;
          w1 = upd_cl c (\<lambda>k. k\<lparr>hopcount := (if length parv > 2 then atoi (parv ! 2) else 0),
                                tsinfo := (if newts \<noteq> 0 then newts else now w)\<rparr>) (add_client_to_list c v);
          w2 = (if newts \<noteq> 0 then w1
                else ts_warn (Fmt ''Remote nick %s (%s) introduced without a TS'') [Str nick, Str (parv ! 0)] w1)
      in (c, (upd_cl c (\<lambda>k. k\<lparr>name := nick\<rparr>) w2)\<lparr>client_tab := add_to_client_hash_table nick c (client_tab w2)\<rparr>))"

definition introduced_mode :: "cid \<Rightarrow> char \<Rightarrow> world \<Rightarrow> world" where
  "introduced_mode c m w =
     (let flag = user_modes_from_c_to_bitmask ! code m;
          w1 = (if has_flag flag FLAGS_INVISIBLE then w\<lparr>count_invisi := count_invisi w + 1\<rparr> else w);
          w2 = (if has_flag flag FLAGS_OPER then w1\<lparr>count_oper := count_oper w1 + 1\<rparr> else w1)
      in upd_umodes c (\<lambda>u. u OR (flag AND SEND_UMODES)) w2)"

text \<open>The notices of a change; \<open>False\<close> when a local user changes nicks too fast.\<close>

definition nick_history :: "cid \<Rightarrow> cid \<Rightarrow> cstr \<Rightarrow> cstr \<Rightarrow> world \<Rightarrow> world" where
  "nick_history cptr c p0 nick w =
     (let w1 = sendto_common_channels c (Fmt '':%s NICK :%s'') [Str p0, Str nick] w in
      if user (cl w1 c) = None then w1
      else sendto_serv_butone (Some cptr) (Fmt '':%s NICK %s :%lu'') [Str p0, Str nick, Num (tsinfo (cl w1 c))]
             (w1\<lparr>history := add_history (now w1) (history w1) c (whowas_of (cl w1 c)) True\<rparr>))"

definition change_nick :: "cid \<Rightarrow> cid \<Rightarrow> cstr \<Rightarrow> int \<Rightarrow> cstr \<Rightarrow> world \<Rightarrow> bool \<times> world" where
  "change_nick cptr c p0 newts nick w =
     (let w1 = (if irccmp p0 nick \<noteq> 0 then upd_cl c (\<lambda>k. k\<lparr>tsinfo := (if newts \<noteq> 0 then newts else now w)\<rparr>) w else w);
          k = cl w1 c
      in if MyConnect k \<and> IsRegisteredUser k then
           let n = (if nick_changed_at k + MAX_NICK_TIME < now w1 then 0 else nick_changes k) + 1;
               w2 = upd_cl c (\<lambda>k. k\<lparr>nick_changed_at := now w1, nick_changes := n\<rparr>) w1
           in if n \<le> MAX_NICK_CHANGES
              then (True, nick_history cptr c p0 nick
                     (sendto_realops_flags FLAGS_NCHANGE (Fmt ''Nick change: From %s to %s [%s@%s]'')
                        [Str p0, Str nick, Str (username k), Str (host k)] w2))
              else (False, sendto_one c (form_str ERR_NICKTOOFAST)
                     [me_name w2, Str (name k), Str (name k), Str nick, Num MAX_NICK_TIME] w2)
         else (True, nick_history cptr c p0 nick w1))"

definition set_nick :: "cid \<Rightarrow> cstr \<Rightarrow> world \<Rightarrow> world" where
  "set_nick c nick w =
     (let old = name (cl w c);
          t = (if old \<noteq> [] then del_from_client_hash_table old c (client_tab w) else client_tab w)
      in (upd_cl c (\<lambda>k. k\<lparr>name := nick\<rparr>) w)\<lparr>client_tab := add_to_client_hash_table nick c t\<rparr>)"

definition nickkilldone :: "cid \<Rightarrow> cid \<Rightarrow> cstr list \<Rightarrow> int \<Rightarrow> cstr \<Rightarrow> world \<Rightarrow> (int \<times> world) option" where
  "nickkilldone cptr sptr parv newts nick w =
     (if IsServer (cl w sptr) then
        (let (c, w1) = introduced_client cptr parv newts nick w in
         if length parv > 8
         then do_user nick cptr c (parv ! 5) (parv ! 6) (parv ! 7) (parv ! 8)
                (fold (introduced_mode c) (tl (parv ! 4)) w1)
         else Some (0, set_nick c nick w1))
      else if name (cl w sptr) \<noteq> [] then
        (let (done_ok, w1) = change_nick cptr sptr (parv ! 0) newts nick w
         in Some (0, if done_ok then set_nick sptr nick w1 else w1))
      else
        (let w1 = upd_cl sptr (\<lambda>k. k\<lparr>name := nick, tsinfo := now w\<rparr>) w in
         if user (cl w1 sptr) = None then Some (0, set_nick sptr nick w1)
         else Option.bind (register_user cptr sptr nick (take USERLEN (username (cl w1 sptr))) w1)
           (\<lambda>(r, w2). if r = CLIENT_EXITED then Some (CLIENT_EXITED, w2) else Some (0, set_nick sptr nick w2))))"

section \<open>Collisions\<close>

definition from_name :: "world \<Rightarrow> cid \<Rightarrow> arg" where
  "from_name w a = Str (name (cl w (cfrom (cl w a))))"

definition kill_stat :: "world \<Rightarrow> world" where
  "kill_stat w = bump (\<lambda>s. s\<lparr>is_kill := is_kill s + 1\<rparr>) w"

text \<open>The one who holds the nick is told, killed on the other links (\<open>one\<close> apart) and exits here.\<close>

definition kill_holder :: "cid option \<Rightarrow> cid \<Rightarrow> cid \<Rightarrow> cstr \<Rightarrow> arg list \<Rightarrow> world \<Rightarrow> (int \<times> world) option" where
  "kill_holder one cptr a txt args w =
     (let nm = Str (name (cl w a));
          w1 = kill_stat (sendto_realops (Fmt txt) args w);
          w2 = sendto_one a (form_str ERR_NICKCOLLISION) [me_name w1, nm, nm] w1;
          w3 = sendto_serv_butone one (Fmt '':%s KILL %s :%s (%s <- %s)'')
                 [me_name w2, nm, me_name w2, from_name w2 a, Str (name (cl w2 cptr))] w2
      in exit_client (Some cptr) a (me w3) ''Nick collision'' (kill_mark a w3))"

definition same_user :: "client \<Rightarrow> cstr \<Rightarrow> cstr \<Rightarrow> bool" where
  "same_user k usr hst = (irccmp (username k) usr = 0 \<and> irccmp (host k) hst = 0)"

text \<open>
  Who loses: with the same user on both sides the older one (a ghost), with different users
  the newer one.  \<open>newcomer_loses\<close> is this for the side that has the time stamp \<open>newts\<close>.
\<close>

definition no_ts :: "int \<Rightarrow> int \<Rightarrow> bool" where
  "no_ts newts ts = (newts = 0 \<or> ts = 0 \<or> newts = ts)"

definition newcomer_loses :: "bool \<Rightarrow> int \<Rightarrow> int \<Rightarrow> bool" where
  "newcomer_loses same newts ts = (same \<and> newts < ts \<or> \<not> same \<and> newts > ts)"

definition collide_new :: "cid \<Rightarrow> cid \<Rightarrow> cid \<Rightarrow> cstr list \<Rightarrow> int \<Rightarrow> cstr \<Rightarrow> world \<Rightarrow> (int \<times> world) option" where
  "collide_new cptr sptr a parv newts nick w =
     (let k = cl w a;
          args = [Str (name k), from_name w a, Str (name (cl w cptr))];
          same = (length parv > 6 \<and> user k \<noteq> None \<and> same_user k (parv ! 5) (parv ! 6))
      in if no_ts newts (tsinfo k) then kill_holder None cptr a ''Nick collision on %s(%s <- %s)(both killed)'' args w
         else if newcomer_loses same newts (tsinfo k) then Some (0, w)
         else Option.bind (kill_holder (Some sptr) cptr a
             (if same then ''Nick collision on %s(%s <- %s)(older killed)''
              else ''Nick collision on %s(%s <- %s)(newer killed)'') args w)
           (\<lambda>(r, w1). nickkilldone cptr sptr parv newts nick w1))"

text \<open>
  A change of nick runs into another user.  When both go, \<open>a\<close> exits first, with no link that
  knows of it already.
\<close>

definition collide_both :: "cid \<Rightarrow> cid \<Rightarrow> cid \<Rightarrow> world \<Rightarrow> (int \<times> world) option" where
  "collide_both cptr sptr a w =
     (let an = Str (name (cl w a)); sn = Str (name (cl w sptr)); cn = Str (name (cl w cptr));
          w1 = kill_stat (sendto_realops (Fmt ''Nick change collision from %s to %s(%s <- %s)(both killed)'')
                 [sn, an, from_name w a, cn] w);
          w2 = sendto_one a (form_str ERR_NICKCOLLISION) [me_name w1, an, an] w1;
          w3 = kill_stat (sendto_serv_butone None (Fmt '':%s KILL %s :%s (%s(%s) <- %s)'')
                 [me_name w2, sn, me_name w2, from_name w2 a, an, cn] w2);
          w4 = sendto_serv_butone None (Fmt '':%s KILL %s :%s (%s <- %s(%s))'')
                 [me_name w3, an, me_name w3, from_name w3 a, cn, sn] w3
      in Option.bind (exit_client None a (me w4) ''Nick collision(new)'' (kill_mark a w4))
           (\<lambda>(r, w5). exit_client (Some cptr) sptr (me w5) ''Nick collision(old)'' (kill_mark sptr w5)))"

definition collide_change :: "cid \<Rightarrow> cid \<Rightarrow> cid \<Rightarrow> cstr list \<Rightarrow> int \<Rightarrow> cstr \<Rightarrow> world \<Rightarrow> (int \<times> world) option" where
  "collide_change cptr sptr a parv newts nick w =
     (let k = cl w a; s = cl w sptr; cn = Str (name (cl w cptr));
          same = same_user k (username s) (host s)
      in if no_ts newts (tsinfo k) \<or> user s = None then collide_both cptr sptr a w
         else if newcomer_loses same newts (tsinfo k) then
           let w1 = kill_stat (sendto_realops
                 (Fmt (if same then ''Nick change collision from %s to %s(%s <- %s)(older killed)''
                       else ''Nick change collision from %s to %s(%s <- %s)(newer killed)''))
                 [Str (name s), Str (name k), from_name w a, cn] w);
               w2 = sendto_serv_butone (Some cptr) (Fmt '':%s KILL %s :%s (%s(%s) <- %s)'')
                 [me_name w1, Str (name s), me_name w1, from_name w1 a, Str (name k), cn] w1
           in exit_client (Some cptr) sptr (me w2) (if same then ''Nick collision(old)'' else ''Nick collision(new)'')
                (kill_mark sptr w2)
         else Option.bind (kill_holder (Some sptr) cptr a
             (if same then ''Nick collision on %s(%s <- %s)(older killed)''
              else ''Nick collision on %s(%s <- %s)(newer killed)'') [Str (name k), from_name w a, cn] w)
           (\<lambda>(r, w1). nickkilldone cptr sptr parv newts nick w1))"

section \<open>\<open>m_nick\<close>\<close>

definition bad_nick :: "cid \<Rightarrow> cid \<Rightarrow> cstr list \<Rightarrow> cstr \<Rightarrow> world \<Rightarrow> (int \<times> world) option" where
  "bad_nick cptr sptr parv nick w =
     (let p0 = parv ! 0; p1 = parv ! 1; s = cl w sptr; c = cl w cptr;
          w1 = sendto_one sptr (form_str ERR_ERRONEUSNICKNAME) [me_name w, Str (if p0 = [] then ''*'' else p0), Str p1] w
      in if \<not> IsServer c then Some (0, w1)
         else
           let w2 = sendto_realops_flags FLAGS_DEBUG (Fmt ''Bad Nick: %s From: %s %s'')
                      [Str p1, Str p0, Str (get_client_name c MASK_IP)] (kill_stat w1);
               w3 = sendto_one cptr (Fmt '':%s KILL %s :%s (%s <- %s[%s])'')
                      [me_name w2, Str p1, me_name w2, Str p1, Str nick, Str (name c)] w2
           in if sptr = cptr then Some (0, w3)
              else
                let w4 = sendto_serv_butone (Some cptr) (Fmt '':%s KILL %s :%s (%s <- %s!%s@%s)'')
                           [me_name w3, Str p0, me_name w3, Str (name c), Str p0, Str (username s),
                            Str (case user s of None \<Rightarrow> name c | Some u \<Rightarrow> u_server u)] w3
                in exit_client (Some cptr) sptr (me w4) ''BadNick'' (kill_mark sptr w4))"

text \<open>The name of a server is no nick.\<close>

definition nick_is_server :: "cid \<Rightarrow> cid \<Rightarrow> cid \<Rightarrow> cstr list \<Rightarrow> cstr \<Rightarrow> world \<Rightarrow> (int \<times> world) option" where
  "nick_is_server cptr sptr a parv nick w =
     (let p0 = parv ! 0; sn = Str (name (cl w sptr)); cn = Str (name (cl w cptr)) in
      if MyConnect (cl w sptr)
      then Some (0, sendto_one sptr (form_str ERR_NICKNAMEINUSE) [me_name w, Str (if p0 = [] then ''*'' else p0), Str nick] w)
      else
        let w1 = kill_stat (sendto_realops (Fmt ''Nick collision on %s(%s <- %s)'') [sn, from_name w a, cn] w);
            w2 = sendto_one cptr (Fmt '':%s KILL %s :%s (%s <- %s)'') [me_name w1, sn, me_name w1, from_name w1 a, cn] w1
        in exit_client (Some cptr) sptr (me w2) ''Nick/Server collision'' (kill_mark sptr w2))"

text \<open>A client that has the nick but never gave USER, from another server.\<close>

definition kill_nouser :: "cid \<Rightarrow> cid \<Rightarrow> cstr list \<Rightarrow> world \<Rightarrow> (int \<times> world) option" where
  "kill_nouser cptr a parv w =
     (let an = Str (name (cl w a));
          tail = [from_name w a, Str (parv ! 1), Str (parv ! 5), Str (parv ! 6), Str (name (cl w cptr))];
          w1 = sendto_realops (Fmt ''Nick Collision on %s(%s(NOUSER) <- %s!%s@%s)(TS:%s)'') (an # tail) w;
          w2 = sendto_serv_butone None (Fmt '':%s KILL %s :%s (%s(NOUSER) <- %s!%s@%s)(TS:%s)'')
                 ([me_name w1, an, me_name w1] @ tail) w1
      in exit_client (Some cptr) a (me w2) ''Got TS NICK before Non-TS USER'' (kill_mark a w2))"

definition nick_taken :: "cid \<Rightarrow> cid \<Rightarrow> cid \<Rightarrow> cstr list \<Rightarrow> int \<Rightarrow> cstr \<Rightarrow> world \<Rightarrow> (int \<times> world) option" where
  "nick_taken cptr sptr a parv newts nick w =
     (let k = cl w a; p0 = parv ! 0 in
      if a = sptr then (if name k \<noteq> nick then nickkilldone cptr sptr parv newts nick w else Some (0, w))
      else if IsUnknown k \<and> MyConnect k then
        Option.bind (exit_client None a (me w) ''Overridden'' w) (\<lambda>(r, w1). nickkilldone cptr sptr parv newts nick w1)
      else if IsUnknown k \<and> length parv > 6 \<and> user k = None then kill_nouser cptr a parv w
      else if \<not> IsServer (cl w cptr)
      then Some (0, sendto_one sptr (form_str ERR_NICKNAMEINUSE) [me_name w, Str (if p0 = [] then ''*'' else p0), Str nick] w)
      else if IsServer (cl w sptr) then collide_new cptr sptr a parv newts nick w
      else collide_change cptr sptr a parv newts nick w)"

text \<open>
  Without a time stamp only the nick counts.  \<open>None\<close> in the report of a bad host name: it
  prints \<open>parv[7]\<close>, a null pointer when there are seven parameters.
\<close>

definition nick_params :: "cid \<Rightarrow> cid \<Rightarrow> cstr list \<Rightarrow> world \<Rightarrow> cstr list \<times> int" where
  "nick_params cptr sptr parv w =
     (if \<not> IsServer (cl w sptr) \<and> IsServer (cl w cptr) \<and> length parv > 2 then (parv, atoi (parv ! 2))
      else if IsServer (cl w sptr) \<and> length parv > 3 then (parv, atoi (parv ! 3))
      else (take 2 parv, 0))"

definition nick_to_check :: "cid \<Rightarrow> cid \<Rightarrow> cstr list \<Rightarrow> int \<Rightarrow> world \<Rightarrow> (int \<times> world) option" where
  "nick_to_check cptr sptr parv0 newts w =
     (let s = cl w sptr;
          parv = (if MyConnect s then parv0[1 := takeWhile (\<lambda>c. c \<noteq> CHR ''~'') (parv0 ! 1)] else parv0);
          (n, nick) = clean_nick_name (take NICKLEN (parv ! 1))
      in if n = 0 \<or> IsServer (cl w cptr) \<and> nick \<noteq> parv ! 1 then bad_nick cptr sptr parv nick w
         else if MyConnect s \<and> \<not> IsServer s \<and> \<not> IsAnOper s \<and> find_q_line w nick (username s) (host s) then
           Some (0, sendto_one sptr (form_str ERR_ERRONEUSNICKNAME) [me_name w, Str (parv ! 0), Str (parv ! 1)]
             (sendto_realops_flags FLAGS_REJ (Fmt ''Quarantined nick [%s] from user %s'')
               [Str nick, Str (get_client_name (cl w cptr) HIDE_IP)] w))
         else case find_server w nick of
           Some a \<Rightarrow> nick_is_server cptr sptr a parv nick w
         | None \<Rightarrow>
             (case find_client w nick None of
                None \<Rightarrow> nickkilldone cptr sptr parv newts nick w
              | Some a \<Rightarrow> nick_taken cptr sptr a parv newts nick w))"

definition m_nick :: "cid \<Rightarrow> cid \<Rightarrow> cstr list \<Rightarrow> world \<Rightarrow> (int \<times> world) option" where
  "m_nick cptr sptr parv0 w =
     (if length parv0 < 2 then Some (0, sendto_one sptr (form_str ERR_NONICKNAMEGIVEN) [me_name w, Str (parv0 ! 0)] w)
      else
        let (parv, newts) = nick_params cptr sptr parv0 w; n = length parv;
            dash = (\<lambda>i. Str (if n > i then parv ! i else ''-''))
        in if IsServer (cl w sptr) \<and> n < 9
           then Some (0, ts_warn (Fmt ''BAD NICK: %s[%s@%s] on %s (from %s)'') [Str (parv ! 1), dash 5, dash 6, dash 7, Str (parv ! 0)] w)
           else if n \<ge> 7 \<and> CHR ''.'' \<notin> set (parv ! 6) \<and> CHR '':'' \<notin> set (parv ! 6)
           then if n = 7 then None
                else Some (0, ts_warn (Fmt ''BAD HOSTNAME: %s[%s@%s] on %s (from %s)'')
                  [Str (parv ! 0), Str (parv ! 5), Str (parv ! 6), Str (parv ! 7), Str (parv ! 0)] w)
           else nick_to_check cptr sptr parv newts w)"

end
