(* ===== verification/RegisterSpec.thy ===== *)
theory RegisterSpec
  imports Nick ExitProps
begin

text \<open>
  What registration does to the network.  \<open>still\<close> forgets all that \<open>net_inv\<close> does not speak of: the
  output, the configuration, statistics, names of users and hosts.  The checks of \<open>register_user\<close>
  do not change \<open>still\<close>; letting the client in does, and the new state is sound again.
\<close>

section \<open>States that only differ outside the network\<close>

definition bones :: "client \<Rightarrow> client" where
  "bones k = k\<lparr>username := [], host := [], info := [], hopcount := 0, tsinfo := 0, cflags := 0, flags2 := 0, cl_passwd := [],
     cl_confs := [], nick_changed_at := 0, nick_changes := 0,
     user := map_option (\<lambda>u. u\<lparr>u_last := 0\<rparr>) (user k)\<rparr>"

definition still :: "world \<Rightarrow> world" where
  "still w = w\<lparr>clients := \<lambda>d. bones (cl w d), outl := [], ts_last := 0, ts_warnings := 0, count_max_loc := 0, count_max_tot := 0,
     count_restart := 0, count_unknown := 0, lusers_time := 0, max_client_count := 0, max_conn_count := 0, nextping := 0,
     sstat := sstat boot, iptab := iptab boot, scache := scache boot, confs := \<lambda>_. zero_conf, classes := \<lambda>_. zero_class,
     temporary_klines := [], temporary_ip_klines := [], mtrie := \<lambda>_ _ _. None,
     x_conf := [], maxclients := 0\<rparr>"

named_theorems still_simps \<open>steps that leave the network alone\<close>

lemma bones_simps [simp]:
  "bones (k\<lparr>username := s\<rparr>) = bones k" "bones (k\<lparr>host := s\<rparr>) = bones k" "bones (k\<lparr>info := s\<rparr>) = bones k"
  "bones (k\<lparr>hopcount := n\<rparr>) = bones k" "bones (k\<lparr>tsinfo := n\<rparr>) = bones k" "bones (k\<lparr>cflags := f\<rparr>) = bones k"
  "bones (k\<lparr>flags2 := f\<rparr>) = bones k" "bones (k\<lparr>cl_passwd := s\<rparr>) = bones k" "bones (k\<lparr>cl_confs := l\<rparr>) = bones k"
  "bones (k\<lparr>nick_changed_at := n\<rparr>) = bones k" "bones (k\<lparr>nick_changes := n\<rparr>) = bones k"
  "bones (k\<lparr>host := s, flags2 := f\<rparr>) = bones k" "bones (k\<lparr>nick_changed_at := n, nick_changes := m\<rparr>) = bones k"
  "bones (k\<lparr>hopcount := n, tsinfo := m\<rparr>) = bones k"
  "bones (k\<lparr>user := map_option (\<lambda>u. u\<lparr>u_last := n\<rparr>) (user k)\<rparr>) = bones k"
  by (simp_all add: bones_def option.map_comp comp_def)

lemma still_clients: "(\<And>d. bones (f d) = bones (cl w d)) \<Longrightarrow> still (w\<lparr>clients := f\<rparr>) = still w"
  by (simp add: still_def)

lemma still_upd: "(\<And>k. bones (f k) = bones k) \<Longrightarrow> still (upd_cl c f w) = still w"
  by (rule still_clients) simp

lemma still_world [still_simps]:
  "still (log_out os w) = still w" "still (w\<lparr>sstat := s\<rparr>) = still w" "still (w\<lparr>iptab := t\<rparr>) = still w" "still (w\<lparr>scache := x\<rparr>) = still w"
  "still (w\<lparr>confs := f\<rparr>) = still w" "still (w\<lparr>classes := g\<rparr>) = still w" "still (w\<lparr>temporary_klines := l\<rparr>) = still w"
  "still (w\<lparr>temporary_ip_klines := l\<rparr>) = still w" "still (w\<lparr>count_max_loc := n\<rparr>) = still w" "still (w\<lparr>count_max_tot := n\<rparr>) = still w"
  "still (w\<lparr>count_restart := n\<rparr>) = still w" "still (w\<lparr>count_unknown := n\<rparr>) = still w" "still (w\<lparr>lusers_time := n\<rparr>) = still w"
  "still (w\<lparr>nextping := n\<rparr>) = still w" "still (w\<lparr>max_client_count := n, max_conn_count := m\<rparr>) = still w"
  "still (w\<lparr>ts_last := n\<rparr>) = still w" "still (w\<lparr>ts_warnings := n\<rparr>) = still w" "still (w\<lparr>ts_last := n, ts_warnings := m\<rparr>) = still w"
  "still (w\<lparr>mtrie := g3\<rparr>) = still w"
  by (simp_all add: still_def log_out_def)

lemma still_send [still_simps]:
  "still (sendto_one c f a w) = still w" "still (sendto_realops f a w) = still w" "still (sendto_realops_flags g f a w) = still w"
  "still (sendto_ops f a w) = still w" "still (sendto_serv_butone x f a w) = still w" "still (bump h w) = still w"
  "still (ts_warn f a w) = still w"
  by (simp_all add: send_defs bump_def ts_warn_def still_simps)

text \<open>What \<open>still\<close> keeps.\<close>

lemma bones_fields:
  assumes "bones k = bones l"
  shows "core k = core l" "u_chans k = u_chans l" "u_invs k = u_invs l" "cl_serv k = cl_serv l"
    "map_option u_joined (user k) = map_option u_joined (user l)" "map_option u_channel (user k) = map_option u_channel (user l)"
    "local_flag k = local_flag l" "cfrom k = cfrom l" "map_option u_server (user k) = map_option u_server (user l)"
proof -
  have b: "core (bones v) = core v \<and> u_chans (bones v) = u_chans v \<and> u_invs (bones v) = u_invs v \<and> cl_serv (bones v) = cl_serv v \<and>
      map_option u_joined (user (bones v)) = map_option u_joined (user v) \<and> map_option u_channel (user (bones v)) = map_option u_channel (user v) \<and>
      local_flag (bones v) = local_flag v \<and> cfrom (bones v) = cfrom v \<and>
      map_option u_server (user (bones v)) = map_option u_server (user v)" for v
    by (simp add: bones_def core_def u_chans_def u_invs_def from_of_def servptr_of_def option.map_comp comp_def split: option.split)
  show "core k = core l" "u_chans k = u_chans l" "u_invs k = u_invs l" "cl_serv k = cl_serv l"
    "map_option u_joined (user k) = map_option u_joined (user l)" "map_option u_channel (user k) = map_option u_channel (user l)"
    "local_flag k = local_flag l" "cfrom k = cfrom l" "map_option u_server (user k) = map_option u_server (user l)"
    using b [of k] b [of l] assms by simp_all
qed

lemma still_fields:
  assumes "still v = still w"
  shows "bones (cl v d) = bones (cl w d)" "client_list v = client_list w" "me v = me w" "client_tab v = client_tab w"
    "history v = history w" "serv_list v = serv_list w" "oper_list v = oper_list w" "local_list v = local_list w"
    "local_conns v = local_conns w" "now v = now w"
  and still_chans: "chans v = chans w" "chan_list v = chan_list w" "next_chan v = next_chan w" "chan_tab v = chan_tab w" "count_chan v = count_chan w"
  and still_counts: "count_server v = count_server w" "count_total v = count_total w" "count_oper v = count_oper w"
    "count_invisi v = count_invisi w" "count_local v = count_local w" "count_myserver v = count_myserver w"
proof -
  have s: "clients (still v) = (\<lambda>d. bones (cl v d))" "client_list (still v) = client_list v" "me (still v) = me v" "client_tab (still v) = client_tab v"
    "history (still v) = history v" "serv_list (still v) = serv_list v" "oper_list (still v) = oper_list v" "local_list (still v) = local_list v"
    "local_conns (still v) = local_conns v" "now (still v) = now v" for v by (simp_all add: still_def)
  have c: "chans (still v) = chans v" "chan_list (still v) = chan_list v" "next_chan (still v) = next_chan v"
    "chan_tab (still v) = chan_tab v" "count_chan (still v) = count_chan v"
    "count_server (still v) = count_server v" "count_total (still v) = count_total v" "count_oper (still v) = count_oper v"
    "count_invisi (still v) = count_invisi v" "count_local (still v) = count_local v" "count_myserver (still v) = count_myserver v" for v
    by (simp_all add: still_def)
  show "bones (cl v d) = bones (cl w d)" using fun_cong [OF s(1) [of v], of d] fun_cong [OF s(1) [of w], of d] by (simp add: assms)
  show "client_list v = client_list w" "me v = me w" "client_tab v = client_tab w"
    "history v = history w" "serv_list v = serv_list w" "oper_list v = oper_list w" "local_list v = local_list w"
    "local_conns v = local_conns w" "now v = now w"
    using s(2-) [of v] s(2-) [of w] by (simp_all only: assms)
  show "chans v = chans w" "chan_list v = chan_list w" "next_chan v = next_chan w" "chan_tab v = chan_tab w" "count_chan v = count_chan w"
    "count_server v = count_server w" "count_total v = count_total w" "count_oper v = count_oper w"
    "count_invisi v = count_invisi w" "count_local v = count_local w" "count_myserver v = count_myserver w"
    using c [of v] c [of w] by (simp_all only: assms)
qed

lemma still_parted:
  assumes s: "still v = still w"
  shows "parted {} w v"
  using bones_fields(1) [OF still_fields(1) [OF s]] still_fields(2,3) [OF s] by (simp add: parted_def)

lemma still_hangs:
  assumes s: "still v = still w"
  shows "hangs v = hangs w"
  using parted_hangs [OF still_parted [OF s]] by (simp add: fun_eq_iff)

lemma net_parted:
  assumes "parted {} w v" "net_inv X w" "client_tab v = client_tab w" "history v = history w"
    "serv_list v = serv_list w" "oper_list v = oper_list w" "local_list v = local_list w" "local_conns v = local_conns w"
    "count_server v = count_server w" "count_total v = count_total w" "count_oper v = count_oper w"
    "count_invisi v = count_invisi w" "count_local v = count_local w" "count_myserver v = count_myserver w"
    and sides: "\<And>d. u_chans (cl v d) = u_chans (cl w d)" "\<And>d. u_invs (cl v d) = u_invs (cl w d)" "\<And>d. cl_serv (cl v d) = cl_serv (cl w d)"
    and "chan_inv v"
  shows "net_inv X v"
proof -
  have m: "client_list v = client_list w" "me v = me w" using assms(1) by (simp_all add: parted_def)
  note f = core_fields [OF parted_core [OF assms(1)], simplified]
  have u: "(user (cl v d) = None) = (user (cl w d) = None)" for d using parted_core [OF assms(1), of d] by (simp add: core_def)
  have h: "hangs v = hangs w" using parted_hangs [OF assms(1)] by (simp add: fun_eq_iff)
  have inv: "roots_ok w" "links_ok w" "servs_ok w" "froms_ok w" "people_ok w" "nicks_ok w" "past_ok w" "locals_ok X w" "totals_ok w"
    using assms(2) by (simp_all add: net_inv_def)
  have "roots_ok v" by (rule roots_parted [OF assms(1) inv(1)]) simp
  moreover have "links_ok v" by (rule links_parted [OF assms(1) inv(2)]) (simp add: closed_def)
  moreover have "froms_ok v" by (rule froms_parted [OF assms(1) inv(4)]) (simp add: closed_def)
  moreover have "locals_ok X v" by (rule locals_parted [OF assms(1) inv(8)]) (simp_all add: assms)
  moreover have "servs_ok v" using inv(3) unfolding servs_ok_def sv_holds_def m h f(5) sides(3) by blast
  moreover have "people_ok v" using inv(5) unfolding people_ok_def m f(1,5,10) u sides by blast
  moreover have "nicks_ok v" using inv(6) unfolding nicks_ok_def m f(1) assms(3) by blast
  moreover have "past_ok v" using inv(7) unfolding past_ok_def m f(10) assms(4) by blast
  moreover have "totals_ok v" using inv(9) unfolding totals_ok_def Let_def m f(5,7,8,9) assms(9-12) by blast
  ultimately show ?thesis using \<open>chan_inv v\<close> by (simp add: net_inv_def)
qed

lemma joined_eq:
  assumes "map_option u_joined p = map_option u_joined q" "map_option u_channel p = map_option u_channel q"
    "\<And>u. q = Some u \<Longrightarrow> u_joined u = int (length (u_channel u))" "p = Some u"
  shows "u_joined u = int (length (u_channel u))"
  using assms by (cases q) auto

lemma still_chan_inv:
  assumes "still v = still w" "chan_inv w"
  shows "chan_inv v"
proof -
  note b = bones_fields [OF still_fields(1) [OF assms(1)]]
  show ?thesis
    by (rule chan_inv_cong [OF b(2,3) joined_eq [OF b(5,6)] _ _ _ _ _ _ _ _ _ assms(2)])
      (simp_all add: still_chans [OF assms(1)] chan_inv_joined [OF assms(2)])
qed

lemma still_net:
  assumes "still v = still w" "net_inv X w"
  shows "net_inv X v"
proof -
  note b = bones_fields [OF still_fields(1) [OF assms(1)]]
  have "chan_inv w" using assms(2) by (simp add: net_inv_def)
  then show ?thesis
    by (intro net_parted [OF still_parted [OF assms(1)] assms(2) _ _ _ _ _ _ _ _ _ _ _ _ b(2,3,4) still_chan_inv [OF assms(1)]]
        still_fields [OF assms(1)] still_counts [OF assms(1)])
qed

section \<open>The checks of a new client\<close>

lemma still_if [still_simps]: "still (if b then v else w) = (if b then still v else still w)"
  by simp

lemma still_conf [still_simps]:
  "still (add_links a n w) = still w" "still (link_conf c a w) = still w" "still (snd (attach_conf c a w)) = still w"
proof -
  show l: "still (add_links a n w) = still w" for a n w by (simp add: add_links_def still_simps split: option.split)
  show k: "still (link_conf c a w) = still w" for w by (simp add: link_conf_def Let_def l still_simps still_clients)
  have "still (if b then upd_cl c (\<lambda>k. k\<lparr>flags2 := flags2 k OR f\<rparr>) (sendto_one c g x w) else w) = still w" for b f g x
    by (simp add: still_clients still_simps)
  then show "still (snd (attach_conf c a w)) = still w" unfolding attach_conf_def Let_def by (simp only: if_distrib [of snd] snd_conv still_if k if_cancel)
qed

lemma still_tkline [still_simps]:
  "still (snd (expire_temp_klines ks w)) = still w" "still (snd (find_tkline h u n w)) = still w"
proof -
  have "still (fold (\<lambda>a w. if ci_hold (cf w a) \<le> now w
         then upd_conf a (\<lambda>i. i\<lparr>ci_freed := True\<rparr>) (sendto_realops f (g a w) w) else w) ks w) = still w" for f g ks w
    by (induction ks arbitrary: w) (simp_all add: still_simps)
  then show e: "still (snd (expire_temp_klines ks w)) = still w" for ks w by (simp add: expire_temp_klines_def)
  obtain k1 v where v: "expire_temp_klines (temporary_klines w) w = (k1, v)" by fastforce
  obtain k2 x where x: "expire_temp_klines (temporary_ip_klines (v\<lparr>temporary_klines := k1\<rparr>)) (v\<lparr>temporary_klines := k1\<rparr>) = (k2, x)"
    by fastforce
  have "still v = still w" "still x = still w" using e [of "temporary_klines w" w] v
      e [of "temporary_ip_klines (v\<lparr>temporary_klines := k1\<rparr>)" "v\<lparr>temporary_klines := k1\<rparr>"] x by (simp_all add: still_simps)
  then show "still (snd (find_tkline h u n w)) = still w"
    unfolding find_tkline_def Let_def v prod.case x by (simp add: still_simps split: option.split)
qed

lemma still_iline:
  assumes "attach_iline c a w = Some (r, v)"
  shows "still v = still w"
proof -
  have "case attach_iline c a w of None \<Rightarrow> True | Some p \<Rightarrow> still (snd p) = still w"
  proof (cases "add_one_ip (ip_number (cl w c)) (iptab w)")
    case (Some t)
    have w1: "still (upd_cl c (\<lambda>k. k\<lparr>cflags := cflags k OR FLAGS_IPHASH\<rparr>) (w\<lparr>iptab := t\<rparr>)) = still w"
      by (simp add: still_clients still_simps)
    show ?thesis
      unfolding attach_iline_def Let_def Some option.map option.case
      by (simp only: if_distrib [of snd] snd_conv still_simps w1 if_cancel)
  qed (simp add: attach_iline_def)
  then show ?thesis using assms by simp
qed

lemma still_attached: "map_option (\<lambda>(r, v). (r, None, v)) (attach_iline c a x) = Some (r, m, v) \<Longrightarrow> still v = still x"
  by (auto dest: still_iline)

lemma still_spoof [still_simps]:
  "still (if b then upd_cl c (\<lambda>k. k\<lparr>cflags := cflags k OR fl\<rparr>) v else v) = still v"
  "still (if b then upd_cl c (\<lambda>k. k\<lparr>host := h, flags2 := flags2 k OR fg\<rparr>) (sendto_realops_flags g f a v) else v) = still v"
  by (simp_all add: still_clients still_simps)

lemma still_access:
  assumes "verify_access c u w = Some (r, m, v)"
  shows "still v = still w"
proof -
  let ?k = "cl w c"
  let ?u = "access_user ?k u"
  let ?n = "of_nat (ip_number ?k) :: 32 word"
  show ?thesis
  proof (cases "mtrie w (host ?k) ?u ?n")
    case None
    then show ?thesis using assms by (simp add: verify_access_def Let_def)
  next
    case (Some b)
    obtain a w1 where a: "(if IsConfElined (cf w b) then (b, w)
        else case find_tkline (host ?k) ?u ?n w of (None, v) \<Rightarrow> (b, v) | (Some t, v) \<Rightarrow> (t, v)) = (a, w1)" by fastforce
    then have w1: "still w1 = still w" using still_tkline(2) [of "host ?k" ?u ?n w]
      by (auto split: if_splits prod.splits option.splits)
    note e = assms [unfolded verify_access_def Let_def Some option.case a prod.case]
    show ?thesis
    proof (cases "has_flag (ci_status (cf w1 a)) CONF_CLIENT")
      case True
      note e1 = e [unfolded if_P [OF True]]
      show ?thesis
      proof (cases "IsMustResolve (cf w1 a) \<and> host ?k \<noteq> [] \<and> IsDigit (last (host ?k))")
        case True
        from e1 [unfolded if_P [OF True]] have "v = sendto_one c (Fmt '':%s NOTICE %s :*** Your IP must resolve to use this server'')
            [me_name w1, Str (name ?k)] w1" by simp
        then show ?thesis using w1 by (simp add: still_simps)
      next
        case False
        show ?thesis using still_attached [OF e1 [unfolded if_not_P [OF False]]] by (simp only: still_spoof w1)
      qed
    next
      case False
      from e [unfolded if_not_P [OF False]] have "v = w1" by (simp split: if_splits)
      then show ?thesis using w1 by simp
    qed
  qed
qed

lemma still_check:
  assumes "check_client c u w = Some (r, m, v)"
  shows "still v = still w"
  using still_access [OF assms [unfolded check_client_def]] by (simp add: still_clients)

section \<open>A user enters the network\<close>

text \<open>The local client \<open>c\<close> becomes a user of this server.\<close>

definition entered_client :: "cid \<Rightarrow> client \<Rightarrow> client" where
  "entered_client p k = k\<lparr>umodes := umodes k OR FLAGS_INVISIBLE, status := STAT_CLIENT, servptr := p, null_servptr := False\<rparr>"

definition more_users :: "cid \<Rightarrow> server \<Rightarrow> server" where
  "more_users c s = s\<lparr>sv_users := c # sv_users s, sv_usercnt := sv_usercnt s + 1\<rparr>"

definition entered :: "cid \<Rightarrow> world \<Rightarrow> world" where
  "entered c v = v\<lparr>clients := (clients v)(c := entered_client (me v) (cl v c),
       me v := (cl v (me v))\<lparr>cl_serv := map_option (more_users c) (cl_serv (cl v (me v)))\<rparr>),
     count_invisi := count_invisi v + 1, count_local := count_local v + 1, count_total := count_total v + 1,
     local_list := c # local_list v\<rparr>"

definition may_enter :: "cid \<Rightarrow> world \<Rightarrow> bool" where
  "may_enter c v \<longleftrightarrow> c \<in> living v \<and> c \<noteq> me v \<and> IsUnknown (cl v c) \<and> MyConnect (cl v c) \<and> servptr_of (cl v c) = None \<and>
     \<not> IsAnOper (cl v c) \<and> user (cl v c) \<noteq> None"

lemma entered_rest:
  "client_list (entered c v) = client_list v" "me (entered c v) = me v" "client_tab (entered c v) = client_tab v" "history (entered c v) = history v"
  "serv_list (entered c v) = serv_list v" "oper_list (entered c v) = oper_list v" "local_list (entered c v) = c # local_list v"
  "local_conns (entered c v) = local_conns v" "count_server (entered c v) = count_server v" "count_total (entered c v) = count_total v + 1"
  "count_oper (entered c v) = count_oper v" "count_invisi (entered c v) = count_invisi v + 1" "count_local (entered c v) = count_local v + 1"
  "count_myserver (entered c v) = count_myserver v"
  by (simp_all add: entered_def)

lemma entered_client_fields:
  "name (entered_client p k) = name k" "IsServer (entered_client p k) = False" "IsMe (entered_client p k) = False" "IsClient (entered_client p k)"
  "IsAnOper (entered_client p k) = IsAnOper k" "IsInvisible (entered_client p k)" "IsPerson (entered_client p k) = (user k \<noteq> None)"
  "MyConnect (entered_client p k) = MyConnect k" "fd (entered_client p k) = fd k" "from_of (entered_client p k) = from_of k"
  "servptr_of (entered_client p k) = Some p" "user (entered_client p k) = user k" "cl_serv (entered_client p k) = cl_serv k"
proof -
  have "FLAGS_INVISIBLE AND OPER_BITS = 0" "has_flag FLAGS_INVISIBLE FLAGS_INVISIBLE"
    by (simp_all add: FLAGS_INVISIBLE_def OPER_BITS_def FLAGS_OPER_def FLAGS_LOCOP_def has_flag_def)
  then show "IsAnOper (entered_client p k) = IsAnOper k" "IsInvisible (entered_client p k)"
    using flag_or_other [of FLAGS_INVISIBLE "umodes k"]
    by (simp add: entered_client_def IsAnOper_bits, simp add: entered_client_def IsInvisible_def has_flag_or)
qed (simp_all add: entered_client_def IsServer_def IsMe_def IsClient_def IsPerson_def MyConnect_def from_of_def servptr_of_def
  STAT_CLIENT_def STAT_SERVER_def STAT_ME_def)

lemma unknown_kind:
  "IsUnknown k \<Longrightarrow> \<not> IsServer k" "IsUnknown k \<Longrightarrow> \<not> IsMe k" "IsUnknown k \<Longrightarrow> \<not> IsClient k" "IsUnknown k \<Longrightarrow> \<not> IsPerson k"
  by (simp_all add: IsUnknown_def IsServer_def IsMe_def IsClient_def IsPerson_def STAT_UNKNOWN_def STAT_CLIENT_def STAT_SERVER_def STAT_ME_def)

lemma entered_cl:
  assumes "c \<noteq> me v"
  shows "cl (entered c v) c = entered_client (me v) (cl v c)"
    "cl (entered c v) (me v) = (cl v (me v))\<lparr>cl_serv := map_option (more_users c) (cl_serv (cl v (me v)))\<rparr>"
    "d \<noteq> c \<Longrightarrow> d \<noteq> me v \<Longrightarrow> cl (entered c v) d = cl v d"
  using assms by (simp_all add: entered_def)

lemma entered_fields:
  assumes "c \<noteq> me v"
  shows "d \<noteq> c \<Longrightarrow> core (cl (entered c v) d) = core (cl v d)"
    "name (cl (entered c v) d) = name (cl v d)" "user (cl (entered c v) d) = user (cl v d)" "from_of (cl (entered c v) d) = from_of (cl v d)"
    "MyConnect (cl (entered c v) d) = MyConnect (cl v d)" "fd (cl (entered c v) d) = fd (cl v d)" "IsAnOper (cl (entered c v) d) = IsAnOper (cl v d)"
    "cl_serv (cl (entered c v) d) = (if d = me v then map_option (more_users c) (cl_serv (cl v d)) else cl_serv (cl v d))"
proof -
  show o: "core (cl (entered c v) d) = core (cl v d)" if "d \<noteq> c" for d
    using that assms entered_cl [OF assms] by (cases "d = me v") simp_all
  have u: "user (cl (entered c v) d) = user (cl v d)" for d
    using entered_cl [OF assms] by (cases "d = c"; cases "d = me v"; simp add: entered_client_fields)
  show "user (cl (entered c v) d) = user (cl v d)" by (rule u)
  show "cl_serv (cl (entered c v) d) = (if d = me v then map_option (more_users c) (cl_serv (cl v d)) else cl_serv (cl v d))"
    using assms by (cases "d = c") (simp_all add: entered_def entered_client_fields)
  have "name (cl (entered c v) d) = name (cl v d) \<and> from_of (cl (entered c v) d) = from_of (cl v d) \<and>
    MyConnect (cl (entered c v) d) = MyConnect (cl v d) \<and> fd (cl (entered c v) d) = fd (cl v d) \<and> IsAnOper (cl (entered c v) d) = IsAnOper (cl v d)"
  proof (cases "d = c")
    case True
    then show ?thesis unfolding True entered_cl(1) [OF assms] entered_client_fields by simp
  next
    case False
    show ?thesis by (intro conjI core_fields [OF o [OF False]])
  qed
  then show "name (cl (entered c v) d) = name (cl v d)" "from_of (cl (entered c v) d) = from_of (cl v d)"
    "MyConnect (cl (entered c v) d) = MyConnect (cl v d)" "fd (cl (entered c v) d) = fd (cl v d)" "IsAnOper (cl (entered c v) d) = IsAnOper (cl v d)"
    by blast+
qed

lemma entered_kinds:
  assumes "may_enter c v"
  shows "IsServer (cl (entered c v) d) = IsServer (cl v d)" "IsMe (cl (entered c v) d) = IsMe (cl v d)"
    "IsClient (cl (entered c v) d) = (d = c \<or> IsClient (cl v d))" "IsPerson (cl (entered c v) d) = (d = c \<or> IsPerson (cl v d))"
    "IsInvisible (cl (entered c v) d) = (d = c \<or> IsInvisible (cl v d))"
    "hangs (entered c v) d p \<longleftrightarrow> (d = c \<and> p = me v) \<or> hangs v d p"
proof -
  have n: "c \<noteq> me v" "IsUnknown (cl v c)" "user (cl v c) \<noteq> None" "c \<in> living v" "servptr_of (cl v c) = None"
    using assms by (simp_all add: may_enter_def)
  note f = entered_client_fields [of "me v" "cl v c", folded entered_cl(1) [OF n(1)]] unknown_kind [OF n(2)]
  note g = core_fields [OF entered_fields(1) [OF n(1)], of d]
  show "IsServer (cl (entered c v) d) = IsServer (cl v d)" "IsMe (cl (entered c v) d) = IsMe (cl v d)"
    "IsClient (cl (entered c v) d) = (d = c \<or> IsClient (cl v d))" "IsPerson (cl (entered c v) d) = (d = c \<or> IsPerson (cl v d))"
    "IsInvisible (cl (entered c v) d) = (d = c \<or> IsInvisible (cl v d))"
    using f g n by (cases "d = c"; simp)+
  have "servptr_of (cl (entered c v) d) = (if d = c then Some (me v) else servptr_of (cl v d))" using f(11) g(3) by simp
  then show "hangs (entered c v) d p \<longleftrightarrow> (d = c \<and> p = me v) \<or> hangs v d p"
    using n by (auto simp: hangs_def entered_rest)
qed

lemma sv_more:
  assumes "sv_holds v p sv" "\<not> hangs v c p" "\<not> IsServer (cl v' c)"
    "\<And>d. IsServer (cl v' d) = IsServer (cl v d)" "\<And>d. hangs v' d p \<longleftrightarrow> d = c \<or> hangs v d p"
  shows "sv_holds v' p (more_users c sv)"
  using assms by (auto simp: sv_holds_def more_users_def)

lemma enter_links:
  assumes "may_enter c v" "net_inv X v"
  shows "roots_ok (entered c v)" "links_ok (entered c v)" "servs_ok (entered c v)" "froms_ok (entered c v)"
proof -
  note k = entered_kinds [OF assms(1)] and r = entered_rest
  have n: "c \<noteq> me v" "c \<in> living v" "IsUnknown (cl v c)" "servptr_of (cl v c) = None" using assms(1) by (simp_all add: may_enter_def)
  note f = entered_fields [OF n(1)]
  have inv: "roots_ok v" "links_ok v" "servs_ok v" "froms_ok v" using assms(2) by (simp_all add: net_inv_def)
  have h0: "\<not> hangs v c p" "\<not> hangs v p c" for p
    using n(4) leaf_no_server [OF assms(2), of c p] unknown_kind(1) [OF n(3)] n(1) by (simp_all add: hangs_def)
  have "servptr_of (cl (entered c v) d) \<noteq> None" if "d \<in> living v" "IsServer (cl v d)" for d
    using that inv(1) unknown_kind(1) [OF n(3)] core_fields(3) [OF f(1), of d] by (cases "d = c") (auto simp: roots_ok_def)
  then show "roots_ok (entered c v)" using inv(1) by (simp add: roots_ok_def r k)
  obtain rank :: "cid \<Rightarrow> nat" where rank: "\<And>d p. hangs v d p \<Longrightarrow> rank p < rank d" using inv(2) by (auto simp: links_ok_def)
  have "\<exists>rank' :: cid \<Rightarrow> nat. \<forall>d p. hangs (entered c v) d p \<longrightarrow> rank' p < rank' d"
    by (rule exI [of _ "rank(c := Suc (rank (me v)))"]) (use rank h0 n(1) in \<open>auto simp: k\<close>)
  moreover have "p \<in> living v \<and> (IsServer (cl v p) \<or> p = me v) \<and> (p \<noteq> me v \<longrightarrow> \<not> MyConnect (cl v d)) \<and>
      (p = me v \<longrightarrow> IsServer (cl v d) \<longrightarrow> MyConnect (cl v d))" if "hangs (entered c v) d p" for d p
    using that inv(1,2) unknown_kind(1) [OF n(3)] by (auto simp: k links_ok_def roots_ok_def)
  ultimately show "links_ok (entered c v)" by (simp add: links_ok_def r k f(5))
  have "(IsServer (cl (entered c v) p) \<or> p = me (entered c v) \<longrightarrow> cl_serv (cl (entered c v) p) \<noteq> None) \<and>
      (\<forall>sv. cl_serv (cl (entered c v) p) = Some sv \<longrightarrow> sv_holds (entered c v) p sv)" if "p \<in> living v" for p
  proof (cases "p = me v")
    case True
    have "sv_holds (entered c v) p (more_users c sv)" if "sv_holds v p sv" for sv
      by (rule sv_more [OF that]) (use True h0 k unknown_kind(1) [OF n(3)] in auto)
    then show ?thesis using inv(3) that True by (auto simp: servs_ok_def r k f(8))
  next
    case False
    then have "sv_holds (entered c v) p sv" if "sv_holds v p sv" for sv using that by (simp add: sv_holds_def k)
    then show ?thesis using inv(3) that False by (auto simp: servs_ok_def r k f(8))
  qed
  then show "servs_ok (entered c v)" by (simp add: servs_ok_def r)
  have "(hangs (entered c v))\<^sup>*\<^sup>* d a" if "(hangs v)\<^sup>*\<^sup>* d a" for d a
    using that by (rule rtranclp_mono [THEN predicate2D, rotated]) (auto simp: k)
  then show "froms_ok (entered c v)" using inv(4) by (simp add: froms_ok_def r f(4))
qed

lemma card_add:
  assumes "finite A" "c \<in> A" "\<not> P c"
  shows "int (card {d \<in> A. d = c \<or> P d}) = int (card {d \<in> A. P d}) + 1"
proof -
  have "{d \<in> A. d = c \<or> P d} = insert c {d \<in> A. P d}" using assms(2) by auto
  then show ?thesis using assms by simp
qed

lemma enter_counts:
  assumes "may_enter c v" "net_inv {} v"
  shows "totals_ok (entered c v)" "locals_ok {} (entered c v)"
proof -
  note k = entered_kinds [OF assms(1)] and r = entered_rest
  have n: "c \<noteq> me v" "c \<in> living v" "IsUnknown (cl v c)" "\<not> IsAnOper (cl v c)" "MyConnect (cl v c)"
    using assms(1) by (simp_all add: may_enter_def)
  note f = entered_fields [OF n(1)] and u = unknown_kind [OF n(3)]
  have inv: "totals_ok v" "locals_ok {} v" using assms(2) by (simp_all add: net_inv_def)
  have c1: "int (card {d \<in> living v. d = c \<or> IsClient (cl v d)}) = int (card {d \<in> living v. IsClient (cl v d)}) + 1"
    by (rule card_add) (use n u in auto)
  have "{d \<in> living v. (d = c \<or> IsClient (cl v d)) \<and> (d = c \<or> IsInvisible (cl v d))} = {d \<in> living v. d = c \<or> IsClient (cl v d) \<and> IsInvisible (cl v d)}"
    by auto
  then have c2: "int (card {d \<in> living v. (d = c \<or> IsClient (cl v d)) \<and> (d = c \<or> IsInvisible (cl v d))}) =
      int (card {d \<in> living v. IsClient (cl v d) \<and> IsInvisible (cl v d)}) + 1"
    using card_add [of "living v" c "\<lambda>d. IsClient (cl v d) \<and> IsInvisible (cl v d)"] n u by simp
  have c3: "{d \<in> living v. (d = c \<or> IsClient (cl v d)) \<and> IsAnOper (cl v d)} = {d \<in> living v. IsClient (cl v d) \<and> IsAnOper (cl v d)}"
    using n(4) by auto
  show "totals_ok (entered c v)" using inv(1) by (simp add: totals_ok_def Let_def r k f(7) c1 c2 c3)
  have s: "local_set {} (entered c v) IsServer = local_set {} v IsServer" "local_set {} (entered c v) IsAnOper = local_set {} v IsAnOper"
    "local_set {} (entered c v) (\<lambda>k. fd k > -1) = local_set {} v (\<lambda>k. fd k > -1)"
    "local_set {} (entered c v) IsPerson = insert c (local_set {} v IsPerson)"
    "local_set {} (entered c v) IsClient = insert c (local_set {} v IsClient)"
    using n by (auto simp: local_set_def r k f(5-7))
  have "c \<notin> local_set {} v IsPerson" "c \<notin> local_set {} v IsClient" "finite (local_set {} v IsClient)" using u by (simp_all add: local_set_def)
  then show "locals_ok {} (entered c v)" using inv(2) by (simp add: locals_ok_def s r)
qed

lemma enter_net:
  assumes "may_enter c v" "net_inv {} v"
  shows "net_inv {} (entered c v)"
proof -
  note k = entered_kinds [OF assms(1)] and r = entered_rest
  have n: "c \<noteq> me v" "c \<in> living v" "IsUnknown (cl v c)" "user (cl v c) \<noteq> None" using assms(1) by (simp_all add: may_enter_def)
  note f = entered_fields [OF n(1)] and u = unknown_kind [OF n(3)]
  have inv: "people_ok v" "nicks_ok v" "past_ok v" "chan_inv v" using assms(2) by (simp_all add: net_inv_def)
  have s: "u_chans (cl (entered c v) d) = u_chans (cl v d)" "u_invs (cl (entered c v) d) = u_invs (cl v d)" for d
    by (simp_all add: u_chans_def u_invs_def f(3))
  have "people_ok (entered c v)" using inv(1) by (simp add: people_ok_def r s k f(2,3))
  moreover have "nicks_ok (entered c v)" using inv(2) by (simp add: nicks_ok_def r f(2))
  moreover have "past_ok (entered c v)" using inv(3) by (auto simp: past_ok_def r k)
  moreover have "chan_inv (entered c v)"
    by (rule chan_inv_cong [OF s _ _ _ _ _ _ _ _ _ _ inv(4)]) (use chan_inv_joined [OF inv(4)] f(3) in \<open>simp_all add: entered_def\<close>)
  ultimately show ?thesis using enter_links [OF assms] enter_counts [OF assms] by (simp add: net_inv_def)
qed

section \<open>Counting the users\<close>

definition counts_exact :: "world \<Rightarrow> bool" where
  "counts_exact w \<longleftrightarrow> totals_ok w \<and> count_local w = int (card (local_set {} w IsClient)) \<and>
     count_myserver w = int (card (local_set {} w IsServer))"

lemma net_exact: "net_inv {} w \<Longrightarrow> counts_exact w"
  by (simp add: net_inv_def locals_ok_def counts_exact_def)

lemma count_list:
  assumes "distinct (client_list w)"
  shows "int (length (filter (\<lambda>c. P (cl w c)) (client_list w))) = int (card {c \<in> living w. P (cl w c)})"
proof -
  have "card (set (filter (\<lambda>c. P (cl w c)) (client_list w))) = length (filter (\<lambda>c. P (cl w c)) (client_list w))"
    using assms by (intro distinct_card) simp
  then show ?thesis by simp
qed

lemma recount_fields:
  assumes "roots_ok w"
  shows "lu_servers (lusers_recount w) = int (card {c \<in> living w. IsServer (cl w c)}) + 1"
    "lu_visible (lusers_recount w) + lu_invisible (lusers_recount w) = int (card {c \<in> living w. IsClient (cl w c)})"
    "lu_invisible (lusers_recount w) = int (card {c \<in> living w. IsClient (cl w c) \<and> IsInvisible (cl w c)})"
    "lu_opers (lusers_recount w) = int (card {c \<in> living w. IsClient (cl w c) \<and> IsAnOper (cl w c)})"
    "lu_clients (lusers_recount w) = int (card (local_set {} w IsClient))"
    "lu_myservers (lusers_recount w) = int (card (local_set {} w IsServer))"
proof -
  have d: "distinct (client_list w)" and m: "me w \<in> living w" "\<And>c. c \<in> living w \<Longrightarrow> IsMe (cl w c) = (c = me w)"
    using assms by (simp_all add: roots_ok_def)
  note n = count_list [OF d]
  have "{c \<in> living w. IsServer (cl w c) \<or> IsMe (cl w c)} = {c \<in> living w. c = me w \<or> IsServer (cl w c)}" using m by auto
  moreover have "\<not> IsServer (cl w (me w))" using m(2) [OF m(1)] by (simp add: IsServer_def IsMe_def STAT_SERVER_def STAT_ME_def)
  ultimately show "lu_servers (lusers_recount w) = int (card {c \<in> living w. IsServer (cl w c)}) + 1"
    using card_add [of "living w" "me w" "\<lambda>c. IsServer (cl w c)"] m
      n [of "\<lambda>k. IsServer k \<or> IsMe k"] by (simp add: lusers_recount_def Let_def)
  have "{c \<in> living w. IsClient (cl w c)} = {c \<in> living w. IsClient (cl w c) \<and> \<not> IsInvisible (cl w c)} \<union> {c \<in> living w. IsClient (cl w c) \<and> IsInvisible (cl w c)}"
    by auto
  then have "card {c \<in> living w. IsClient (cl w c)} =
      card {c \<in> living w. IsClient (cl w c) \<and> \<not> IsInvisible (cl w c)} + card {c \<in> living w. IsClient (cl w c) \<and> IsInvisible (cl w c)}"
    by (simp only:) (rule card_Un_disjoint; auto)
  then show "lu_visible (lusers_recount w) + lu_invisible (lusers_recount w) = int (card {c \<in> living w. IsClient (cl w c)})"
    using n [of "\<lambda>k. IsClient k \<and> \<not> IsInvisible k"] n [of "\<lambda>k. IsClient k \<and> IsInvisible k"] by (simp add: lusers_recount_def Let_def)
  show "lu_invisible (lusers_recount w) = int (card {c \<in> living w. IsClient (cl w c) \<and> IsInvisible (cl w c)})"
    "lu_opers (lusers_recount w) = int (card {c \<in> living w. IsClient (cl w c) \<and> IsAnOper (cl w c)})"
    using n [of "\<lambda>k. IsClient k \<and> IsInvisible k"] n [of "\<lambda>k. IsClient k \<and> IsAnOper k"] by (simp_all add: lusers_recount_def Let_def)
  have "local_set {} w P = {c \<in> living w. P (cl w c) \<and> MyConnect (cl w c)}" for P by (auto simp: local_set_def)
  then show "lu_clients (lusers_recount w) = int (card (local_set {} w IsClient))"
    "lu_myservers (lusers_recount w) = int (card (local_set {} w IsServer))"
    using n [of "\<lambda>k. IsClient k \<and> MyConnect k"] n [of "\<lambda>k. IsServer k \<and> MyConnect k"] by (simp_all add: lusers_recount_def Let_def)
qed

definition corrected :: "lusers \<Rightarrow> world \<Rightarrow> world" where
  "corrected l w = w\<lparr>count_myserver := lu_myservers l, count_server := lu_servers l, count_invisi := lu_invisible l,
     count_total := lu_visible l + lu_invisible l, count_local := lu_clients l, count_oper := lu_opers l, count_unknown := lu_unknown l\<rparr>"

lemma log_counts:
  "(log_out os w)\<lparr>count_myserver := n\<rparr> = log_out os (w\<lparr>count_myserver := n\<rparr>)" "(log_out os w)\<lparr>count_server := n\<rparr> = log_out os (w\<lparr>count_server := n\<rparr>)"
  "(log_out os w)\<lparr>count_invisi := n\<rparr> = log_out os (w\<lparr>count_invisi := n\<rparr>)" "(log_out os w)\<lparr>count_total := n\<rparr> = log_out os (w\<lparr>count_total := n\<rparr>)"
  "(log_out os w)\<lparr>count_local := n\<rparr> = log_out os (w\<lparr>count_local := n\<rparr>)" "(log_out os w)\<lparr>count_oper := n\<rparr> = log_out os (w\<lparr>count_oper := n\<rparr>)"
  "(log_out os w)\<lparr>count_unknown := n\<rparr> = log_out os (w\<lparr>count_unknown := n\<rparr>)"
  "(log_out os w)\<lparr>max_client_count := n, max_conn_count := m\<rparr> = log_out os (w\<lparr>max_client_count := n, max_conn_count := m\<rparr>)"
  by (simp_all add: log_out_def)

lemma count_off_log: "\<exists>os. count_off t a b v = log_out os v"
  unfolding count_off_def sendto_realops_flags_def by (rule opt_log)

lemma count_off_step:
  assumes "\<exists>os. v = log_out os x" "\<And>os y. g (log_out os y) = log_out os (g y)"
  shows "\<exists>os. g (count_off t a b v) = log_out os (g x)"
proof -
  obtain o1 where 1: "v = log_out o1 x" using assms(1) ..
  obtain o2 where 2: "count_off t a b v = log_out o2 v" using count_off_log ..
  show ?thesis unfolding 2 unfolding 1 log_out_log_out assms(2) by blast
qed

lemma repair_form: "\<exists>os. lusers_repair l w = log_out os (corrected l w)"
proof -
  let ?g1 = "\<lambda>v. v\<lparr>count_myserver := lu_myservers l\<rparr>"
  let ?g2 = "\<lambda>v. v\<lparr>count_server := lu_servers l\<rparr>"
  let ?g3 = "\<lambda>v. v\<lparr>count_invisi := lu_invisible l\<rparr>"
  let ?g4 = "\<lambda>v. v\<lparr>count_total := lu_visible l + lu_invisible l\<rparr>"
  let ?g5 = "\<lambda>v. v\<lparr>count_local := lu_clients l\<rparr>"
  let ?g6 = "\<lambda>v. v\<lparr>count_oper := lu_opers l\<rparr>"
  have 0: "\<exists>os. w = log_out os w" by (rule exI [of _ "[]"]) (simp only: log_out_Nil)
  note s1 = count_off_step [where g = ?g1, OF 0 log_counts(1)]
  note s2 = count_off_step [where g = ?g2, OF s1 log_counts(2)]
  note s3 = count_off_step [where g = ?g3, OF s2 log_counts(3)]
  note s4 = count_off_step [where g = ?g4, OF s3 log_counts(4)]
  note s5 = count_off_step [where g = ?g5, OF s4 log_counts(5)]
  note s6 = count_off_step [where g = ?g6, OF s5 log_counts(6)]
  have c: "corrected l w = (?g6 (?g5 (?g4 (?g3 (?g2 (?g1 w))))))\<lparr>count_unknown := lu_unknown l\<rparr>" unfolding corrected_def ..
  obtain os where o: "?g6 (count_off ''Oper count off by %d'' (count_oper w) (lu_opers l)
      (?g5 (count_off ''Local client count off by %d'' (count_local w) (lu_clients l)
        (?g4 (count_off ''Total client count off by %d'' (count_total w) (lu_visible l + lu_invisible l)
          (?g3 (count_off ''Invisible client count off by %d'' (count_invisi w) (lu_invisible l)
            (?g2 (count_off ''Server count off by %d'' (count_server w) (lu_servers l)
              (?g1 (count_off ''Local server count off by %d'' (count_myserver w) (lu_myservers l) w))))))))))) =
      log_out os (?g6 (?g5 (?g4 (?g3 (?g2 (?g1 w))))))" using s6 ..
  show ?thesis unfolding lusers_repair_def Let_def o log_counts(7) c by blast
qed

lemma show_lusers_form:
  defines "again s p w \<equiv> (IsAnOper (cl w s) \<and> length p > 3) \<or> now w > lusers_time w + LUSERS_CACHE_TIME"
  shows "\<exists>os t m n. show_lusers s p w = log_out os
    ((if again s p w \<and> \<not> (IsAnOper (cl w s) \<and> length p > 3) then corrected (lusers_recount w) else id)
      (w\<lparr>count_unknown := 0, lusers_time := t\<rparr>)\<lparr>max_client_count := m, max_conn_count := n\<rparr>)"
proof -
  let ?f = "IsAnOper (cl w s) \<and> length p > 3"
  let ?w = "w\<lparr>count_unknown := 0\<rparr>"
  let ?w1 = "if again s p w then ?w\<lparr>lusers_time := now ?w\<rparr> else ?w"
  let ?l = "if again s p w then lusers_recount ?w else lusers_kept ?w"
  let ?w2 = "if again s p w \<and> \<not> ?f then lusers_repair ?l ?w1 else ?w1"
  have a: "again s p w = ((IsAnOper (cl w s) \<and> length p > 3) \<or> now ?w > lusers_time ?w + LUSERS_CACHE_TIME)" by (simp add: again_def)
  have e: "show_lusers s p w = (let w3 = lusers_reply s (p ! 0) ?l ?w2 in
      w3\<lparr>max_client_count := max (max_client_count w3) (lu_clients ?l), max_conn_count := max (max_conn_count w3) (lu_clients ?l + lu_myservers ?l)\<rparr>)"
    unfolding show_lusers_def Let_def a by (rule refl)
  have r: "lusers_recount ?w = lusers_recount w" by (simp add: lusers_recount_def)
  have t: "\<exists>t. ?w1 = w\<lparr>count_unknown := 0, lusers_time := t\<rparr>"
    by (rule exI [of _ "if again s p w then now w else lusers_time w"]) simp
  obtain t where t: "?w1 = w\<lparr>count_unknown := 0, lusers_time := t\<rparr>" using t ..
  have "\<exists>os. ?w2 = log_out os ((if again s p w \<and> \<not> ?f then corrected (lusers_recount w) else id) ?w1)"
  proof (cases "again s p w \<and> \<not> ?f")
    case True
    then have "again s p w" "\<not> ?f" by auto
    then show ?thesis using repair_form [of "lusers_recount w" "?w\<lparr>lusers_time := now ?w\<rparr>"] by (simp add: r)
  next
    case False
    then show ?thesis unfolding if_not_P [OF False] log_out_Nil id_apply by (intro exI [of _ "[]"]) (rule log_out_Nil [symmetric])
  qed
  then obtain os where o: "?w2 = log_out os ((if again s p w \<and> \<not> ?f then corrected (lusers_recount w) else id) ?w1)" ..
  show ?thesis
    unfolding e Let_def lusers_reply_def o unfolding t by (simp only: log_counts log_out_log_out) blast
qed

lemma exact_corrected:
  assumes "roots_ok w"
  shows "counts_exact (log_out os ((corrected (lusers_recount w) (w\<lparr>count_unknown := i, lusers_time := t\<rparr>))\<lparr>max_client_count := m, max_conn_count := n\<rparr>))"
  using recount_fields [OF assms] by (simp add: counts_exact_def totals_ok_def Let_def corrected_def local_set_def)

lemma corrected_exact:
  assumes "roots_ok w" "counts_exact w"
  shows "\<exists>i. corrected (lusers_recount w) w = w\<lparr>count_unknown := i\<rparr>"
proof -
  note r = recount_fields [OF assms(1)]
  have total: "count_total w = lu_visible (lusers_recount w) + lu_invisible (lusers_recount w)"
    and each: "count_myserver w = lu_myservers (lusers_recount w)" "count_server w = lu_servers (lusers_recount w)"
    "count_invisi w = lu_invisible (lusers_recount w)" "count_local w = lu_clients (lusers_recount w)" "count_oper w = lu_opers (lusers_recount w)"
    using assms(2) r by (simp_all add: counts_exact_def totals_ok_def Let_def)
  show ?thesis unfolding corrected_def total [symmetric] unfolding each [symmetric] by (intro exI) simp
qed

lemma still_lusers:
  assumes "roots_ok w" "counts_exact w"
  shows "still (show_lusers s p w) = still w"
proof -
  have c: "corrected l (w\<lparr>count_unknown := i, lusers_time := t\<rparr>) = (corrected l w)\<lparr>lusers_time := t\<rparr>" for l i t
    by (simp add: corrected_def)
  obtain i where i: "corrected (lusers_recount w) w = w\<lparr>count_unknown := i\<rparr>" using corrected_exact [OF assms] ..
  have 1: "still (corrected (lusers_recount w) (w\<lparr>count_unknown := 0, lusers_time := t\<rparr>)) = still w" for t
    unfolding c i by (simp only: still_simps)
  have "\<exists>os t m n b. show_lusers s p w = log_out os
      ((if b then corrected (lusers_recount w) else id) (w\<lparr>count_unknown := 0, lusers_time := t\<rparr>)\<lparr>max_client_count := m, max_conn_count := n\<rparr>)"
    using show_lusers_form [of s p w] by blast
  then obtain os t m n b where f: "show_lusers s p w = log_out os
      ((if b then corrected (lusers_recount w) else id) (w\<lparr>count_unknown := 0, lusers_time := t\<rparr>)\<lparr>max_client_count := m, max_conn_count := n\<rparr>)"
    by blast
  show ?thesis unfolding f by (cases b) (simp_all only: still_simps if_True if_False id_apply 1)
qed

text \<open>C21 (LUSERS repairs the counters).
  When the cache of LUSERS has expired and the recount is not one an operator asked for with a mask,
  showing LUSERS leaves every counter of servers, users, operators, invisible users, local users and
  local servers equal to the number of such clients, whatever the counters were; when they were right
  already, nothing of the network changes at any time.\<close>

theorem lusers_repairs:
  assumes "roots_ok w"
  shows "(now w > lusers_time w + LUSERS_CACHE_TIME \<and> \<not> (IsAnOper (cl w s) \<and> length p > 3) \<longrightarrow> counts_exact (show_lusers s p w)) \<and>
    (counts_exact w \<longrightarrow> still (show_lusers s p w) = still w)"
proof (intro conjI impI)
  assume "now w > lusers_time w + LUSERS_CACHE_TIME \<and> \<not> (IsAnOper (cl w s) \<and> length p > 3)"
  then obtain os t m n where f: "show_lusers s p w = log_out os
      ((corrected (lusers_recount w) (w\<lparr>count_unknown := 0, lusers_time := t\<rparr>))\<lparr>max_client_count := m, max_conn_count := n\<rparr>)"
    using show_lusers_form [of s p w] by auto
  show "counts_exact (show_lusers s p w)" unfolding f by (rule exact_corrected [OF assms])
next
  assume "counts_exact w"
  then show "still (show_lusers s p w) = still w" by (rule still_lusers [OF assms])
qed

theorem lusers_repairs_witness:
  "counts_exact (show_lusers 11 [] (demo_net\<lparr>count_total := 77, count_oper := -3, lusers_time := 0\<rparr>))"
proof -
  have "roots_ok (demo_net\<lparr>count_total := 77, count_oper := -3, lusers_time := 0\<rparr>)" using demo_net_roots by (simp add: roots_ok_def)
  moreover have "now demo_net > LUSERS_CACHE_TIME" by (simp add: demo_net_def demo_rest LUSERS_CACHE_TIME_def)
  ultimately show ?thesis using lusers_repairs [of "demo_net\<lparr>count_total := 77, count_oper := -3, lusers_time := 0\<rparr>" 11 "[]"] by simp
qed

section \<open>The chain of checks\<close>

text \<open>What a link of the chain does to the network: nothing, or the client exits from a state like the first.\<close>

definition checked :: "cid \<Rightarrow> cid \<Rightarrow> world \<Rightarrow> verdict \<Rightarrow> bool" where
  "checked cptr c w res \<longleftrightarrow>
     (case res of
        None \<Rightarrow> True
      | Some (Inl (r, w')) \<Rightarrow> (\<exists>v m. still v = still w \<and> exit_client (Some cptr) c (me v) m v = Some (r, w'))
      | Some (Inr v) \<Rightarrow> still v = still w)"

lemma checked_exit: "still v = still w \<Longrightarrow> checked cptr c w (map_option Inl (exit_client (Some cptr) c (me v) m v))"
  by (cases "exit_client (Some cptr) c (me v) m v") (auto simp: checked_def)

lemma checked_refuse: "still v = still w \<Longrightarrow> checked cptr c w (refuse cptr c m v)"
  unfolding refuse_def using checked_exit [of "bump f v" w cptr c m for f] by (simp add: bump_def still_simps)

lemma checked_on: "still v = still w \<Longrightarrow> checked cptr c w (Some (Inr v))" and checked_None: "checked cptr c w None"
  by (simp_all add: checked_def)

lemma checked_if: "(b \<Longrightarrow> checked cptr c w x) \<Longrightarrow> (\<not> b \<Longrightarrow> checked cptr c w y) \<Longrightarrow> checked cptr c w (if b then x else y)"
  by simp

lemma checked_option:
  "(x = None \<Longrightarrow> checked cptr c w y) \<Longrightarrow> (\<And>a. x = Some a \<Longrightarrow> checked cptr c w (f a)) \<Longrightarrow> checked cptr c w (case x of None \<Rightarrow> y | Some a \<Rightarrow> f a)"
  by (cases x) simp_all

lemma checked_go:
  assumes "checked cptr c w res" "\<And>v. still v = still w \<Longrightarrow> checked cptr c w (f v)"
  shows "checked cptr c w (go_on res f)"
  using assms by (cases "(res, f)" rule: go_on.cases) (auto simp: checked_def)

lemma still_tell [still_simps]: "still (tell_user_off c r w) = still w"
  by (simp add: tell_user_off_def still_simps split: option.split)

lemma still_username [still_simps]: "still (set_username c u w) = still w"
  by (simp add: set_username_def still_clients)

lemma still_grant [still_simps]: "still (grant b c f s w) = still w"
  by (simp add: grant_def still_simps still_clients)

lemma still_flags [still_simps]: "still (report_and_set_user_flags c a w) = still w"
  by (simp add: report_and_set_user_flags_def Let_def still_simps)

lemma access_checked: "checked cptr c w (register_access cptr c u w)"
proof (cases "check_client c u w")
  case None
  then show ?thesis by (simp add: register_access_def checked_None)
next
  case (Some p)
  obtain r m v where p: "p = (r, m, v)" by (metis prod_cases3)
  have v: "still v = still w" using still_check [of c u w] Some p by simp
  show ?thesis
    unfolding register_access_def Some option.case p prod.case Let_def
    by (intro checked_if checked_exit checked_refuse checked_on) (simp_all add: still_simps v)
qed

lemma line_checked:
  assumes "still v = still w"
  shows "checked cptr c w (register_line cptr c u v)"
proof -
  define v1 where "v1 = (if valid_hostname (host (cl v c)) then v
      else upd_cl c (\<lambda>k. k\<lparr>host := take (HOSTIPLEN + 1) (cl_sockhost k)\<rparr>)
        (sendto_one c (Fmt '':%s NOTICE %s :*** Notice -- You have an illegal character in your hostname'') [me_name v, Str (name (cl v c))] v))"
  have h: "still (x\<lparr>clients := (clients x)(c := (cl x c)\<lparr>host := s\<rparr>)\<rparr>) = still x" for s x by (rule still_clients) simp
  have v1: "still v1 = still w" unfolding v1_def by (simp only: still_simps h assms if_cancel)
  show ?thesis
  proof (cases "cl_confs (cl v1 c)")
    case Nil
    then show ?thesis by (simp add: register_line_def Let_def v1_def [symmetric] checked_None)
  next
    case (Cons a as)
    have p: "still (upd_cl c (\<lambda>k. k\<lparr>cl_passwd := []\<rparr>) x) = still x" for x by (rule still_upd) simp
    show ?thesis
      unfolding register_line_def Let_def v1_def [symmetric] Cons list.case
      by (intro checked_if checked_refuse checked_on) (simp_all only: still_simps p v1 if_cancel)
  qed
qed

lemma limits_checked:
  assumes "still v = still w"
  shows "checked cptr c w (register_limits cptr c nick v)"
  unfolding register_limits_def Let_def
  by (intro checked_if checked_option checked_refuse checked_on) (simp_all only: still_simps assms if_cancel)

lemma checks_checked:
  "checked cptr c w (go_on (go_on (register_access cptr c u w) (register_line cptr c u)) (register_limits cptr c nick))"
  by (intro checked_go access_checked line_checked limits_checked)

section \<open>A local client registers\<close>

lemma accept_form:
  "\<exists>os m. register_accept c nick v = log_out os (v\<lparr>clients := (clients v)(c := (cl v c)\<lparr>umodes := umodes (cl v c) OR FLAGS_INVISIBLE\<rparr>),
     count_invisi := count_invisi v + 1, count_local := count_local v + 1, count_max_loc := m\<rparr>)"
proof -
  have inv: "IsInvisible (k\<lparr>umodes := umodes k OR FLAGS_INVISIBLE\<rparr>)" for k
    by (simp add: IsInvisible_def has_flag_or) (simp add: has_flag_def FLAGS_INVISIBLE_def)
  have n: "\<exists>os m. count_new_local w = log_out os (w\<lparr>count_local := count_local w + 1, count_max_loc := m\<rparr>)" for w
  proof (cases "count_local w + 1 > count_max_loc w")
    case True
    let ?w = "w\<lparr>count_local := count_local w + 1, count_max_loc := count_local w + 1\<rparr>"
    have "count_new_local w = (if (count_local w + 1) mod 10 = 0 then sendto_ops (Fmt ''New Max Local Clients: %d'') [Num (count_local w + 1)] else id) ?w"
      using True by (simp add: count_new_local_def Let_def)
    moreover have "\<exists>os. (if b then sendto_ops f x else id) ?w = log_out os ?w" for b f x
      by (cases b) (auto simp: sendto_ops_def intro: exI [of _ "[]"] simp: log_out_Nil)
    ultimately show ?thesis by metis
  next
    case False
    then have "count_new_local w = log_out [] (w\<lparr>count_local := count_local w + 1, count_max_loc := count_max_loc w\<rparr>)"
      by (simp add: log_out_Nil count_new_local_def Let_def)
    then show ?thesis by blast
  qed
  let ?a = "v\<lparr>clients := (clients v)(c := (cl v c)\<lparr>umodes := umodes (cl v c) OR FLAGS_INVISIBLE\<rparr>)\<rparr>"
  obtain os where o: "register_accept c nick v = count_new_local ((log_out os ?a)\<lparr>count_invisi := count_invisi v + 1\<rparr>)"
    by (simp add: register_accept_def Let_def upd_umodes_def sendto_realops_flags_def inv)
  have l: "(log_out os ?a)\<lparr>count_invisi := n\<rparr> = log_out os (?a\<lparr>count_invisi := n\<rparr>)" for n by (simp add: log_out_def)
  obtain os1 m where "register_accept c nick v = log_out os1 ((log_out os (?a\<lparr>count_invisi := count_invisi v + 1\<rparr>))\<lparr>count_local :=
      count_local (log_out os (?a\<lparr>count_invisi := count_invisi v + 1\<rparr>)) + 1, count_max_loc := m\<rparr>)"
    using n [of "log_out os (?a\<lparr>count_invisi := count_invisi v + 1\<rparr>)"] unfolding o l by blast
  then have "register_accept c nick v = log_out (os @ os1) (v\<lparr>clients := (clients v)(c := (cl v c)\<lparr>umodes := umodes (cl v c) OR FLAGS_INVISIBLE\<rparr>),
     count_invisi := count_invisi v + 1, count_local := count_local v + 1, count_max_loc := m\<rparr>)" by (simp add: log_out_def)
  then show ?thesis by blast
qed


lemma place_form:
  "\<exists>m. enter_server (Some p) cptr c w = w\<lparr>clients := (let f = (clients w)(c := (cl w c)\<lparr>status := STAT_CLIENT, servptr := p, null_servptr := False\<rparr>)
     in f(p := (f p)\<lparr>cl_serv := map_option (more_users c) (cl_serv (f p))\<rparr>)), count_total := count_total w + 1, count_max_tot := m\<rparr>"
proof -
  have m: "more_users c = (\<lambda>s. s\<lparr>sv_users := c # sv_users s, sv_usercnt := sv_usercnt s + 1\<rparr>)" by (rule ext) (simp add: more_users_def)
  show ?thesis
    by (rule exI [of _ "max (count_max_tot w) (count_total w + 1)"]) (simp add: enter_server_def add_user_to_server_def upd_serv_def m Let_def)
qed

lemma accepted_still:
  assumes "c \<noteq> me v"
  shows "still ((enter_server (Some (me v)) cptr c (register_accept c nick v))\<lparr>local_list := c # local_list v\<rparr>) = still (entered c v)"
proof -
  obtain os m where a: "register_accept c nick v = log_out os (v\<lparr>clients := (clients v)(c := (cl v c)\<lparr>umodes := umodes (cl v c) OR FLAGS_INVISIBLE\<rparr>),
     count_invisi := count_invisi v + 1, count_local := count_local v + 1, count_max_loc := m\<rparr>)" using accept_form by blast
  obtain m1 where p: "enter_server (Some (me v)) cptr c (register_accept c nick v) = (register_accept c nick v)\<lparr>clients :=
     (let f = (clients (register_accept c nick v))(c := (cl (register_accept c nick v) c)\<lparr>status := STAT_CLIENT, servptr := me v, null_servptr := False\<rparr>)
     in f(me v := (f (me v))\<lparr>cl_serv := map_option (more_users c) (cl_serv (f (me v)))\<rparr>)),
     count_total := count_total (register_accept c nick v) + 1, count_max_tot := m1\<rparr>" using place_form by blast
  show ?thesis
    unfolding p unfolding a using assms
    by (simp add: still_def entered_def entered_client_def log_out_def Let_def fun_upd_twist)
qed

lemma welcome_still:
  assumes "roots_ok w" "counts_exact w"
  shows "still (welcome_user s nick w) = still w"
proof -
  have 1: "roots_ok (log_out os w\<lparr>count_restart := n\<rparr>)" "counts_exact (log_out os w\<lparr>count_restart := n\<rparr>)" for os n
    using assms by (simp_all add: roots_ok_def counts_exact_def totals_ok_def local_set_def)
  have 2: "still (show_lusers s p (log_out os w\<lparr>count_restart := n\<rparr>)) = still w" for p os n
    using still_lusers [OF 1] by (simp add: still_simps)
  have 3: "\<exists>os. SendMessageFile s f v = log_out os v" for f v
    by (simp add: SendMessageFile_def Let_def sendto_one_def split: option.split) blast
  have 4: "still (SendMessageFile s f v) = still v" for f v using 3 [of f v] still_world(1) by metis
  show ?thesis
    unfolding welcome_user_def Let_def show_isupport_def log_out_log_out by (simp only: still_simps 4 2 if_cancel)
qed

lemma introduce_still:
  "still (introduce_user cptr c nick w) = still (if MyConnect (cl w c) then w\<lparr>local_list := c # local_list w\<rparr> else w)"
proof -
  have 1: "\<exists>os. snd (send_umode x c o1 m w) = log_out os w" for x o1 m
    by (cases x) (auto simp: send_umode_def Let_def sendto_one_def intro: exI [of _ "[]"] simp: log_out_Nil)
  have 2: "(log_out os w)\<lparr>local_list := l\<rparr> = log_out os (w\<lparr>local_list := l\<rparr>)" for os l by (simp add: log_out_def)
  obtain t os where s: "send_umode (if MyClient (cl w c) then Some c else None) c 0 SEND_UMODES w = (t, log_out os w)"
    using 1 by (metis prod.collapse)
  show ?thesis
    unfolding introduce_user_def s Let_def prod.case log_out_simps 2
    by (cases "MyConnect (cl w c)") (simp_all only: if_True if_False still_simps not_False_eq_True simp_thms)
qed

lemma find_server_same:
  assumes "\<And>d. name (cl v d) = name (cl w d)" "\<And>d. (IsServer (cl v d) \<or> IsMe (cl v d)) = (IsServer (cl w d) \<or> IsMe (cl w d))"
    "client_tab v = client_tab w"
  shows "find_server v nm = find_server w nm"
  unfolding find_server_def assms ..

lemma still_local_list: "still v = still w \<Longrightarrow> still (v\<lparr>local_list := l\<rparr>) = still (w\<lparr>local_list := l\<rparr>)"
proof -
  have "still (v\<lparr>local_list := l\<rparr>) = (still v)\<lparr>local_list := l\<rparr>" for v by (simp add: still_def)
  then show "still v = still w \<Longrightarrow> still (v\<lparr>local_list := l\<rparr>) = still (w\<lparr>local_list := l\<rparr>)" by simp
qed

text \<open>After the checks a local client is placed on this server.\<close>

lemma place_some:
  assumes "net_inv {} v" "may_enter c v" "map_option u_server (user (cl v c)) = Some (name (cl v (me v)))"
    "find_server v (name (cl v (me v))) = Some (me v)"
  shows "\<exists>w'. register_place c c nick (register_accept c nick v) = Some (0, w') \<and> still w' = still (entered c v)"
proof -
  let ?a = "register_accept c nick v"
  have n: "c \<noteq> me v" "MyConnect (cl v c)" "IsUnknown (cl v c)" using assms(2) by (simp_all add: may_enter_def)
  obtain os m where a: "?a = log_out os (v\<lparr>clients := (clients v)(c := (cl v c)\<lparr>umodes := umodes (cl v c) OR FLAGS_INVISIBLE\<rparr>),
     count_invisi := count_invisi v + 1, count_local := count_local v + 1, count_max_loc := m\<rparr>)" using accept_form by blast
  have u: "(case user (cl ?a c) of None \<Rightarrow> [] | Some u \<Rightarrow> u_server u) = name (cl v (me v))"
    using assms(3) by (auto simp: a)
  have f: "find_server (upd_cl c (\<lambda>k. k\<lparr>status := STAT_CLIENT\<rparr>) ?a) nm = find_server v nm" for nm
    by (rule find_server_same) (use unknown_kind [OF n(3)] in \<open>auto simp: a IsServer_def IsMe_def STAT_CLIENT_def STAT_SERVER_def STAT_ME_def\<close>)
  let ?e = "enter_server (Some (me v)) c c ?a"
  have es: "still (?e\<lparr>local_list := c # local_list v\<rparr>) = still (entered c v)" by (rule accepted_still [OF n(1)])
  have net: "net_inv {} (?e\<lparr>local_list := c # local_list v\<rparr>)" by (rule still_net [OF es enter_net [OF assms(2,1)]])
  have ll: "local_list ?e = local_list v" by (simp add: enter_server_def add_user_to_server_def upd_serv_def Let_def a)
  have mc: "MyConnect (cl ?e c)" using n by (simp add: enter_server_def add_user_to_server_def upd_serv_def Let_def a MyConnect_def)
  have ok: "roots_ok ?e" "counts_exact ?e"
    using net net_exact [OF net] by (simp_all add: net_inv_def roots_ok_def counts_exact_def totals_ok_def local_set_def)
  have w: "still (welcome_user c nick ?e) = still ?e" by (rule welcome_still [OF ok])
  have mw: "MyConnect (cl (welcome_user c nick ?e) c)" using bones_fields(7) [OF still_fields(1) [OF w]] mc by (simp add: MyConnect_def)
  have sv: "cl_serv (cl ?a (me v)) \<noteq> None" using assms(1) n(1) by (auto simp: a net_inv_def roots_ok_def servs_ok_def)
  have "register_place c c nick ?a = Some (0, introduce_user c c nick (welcome_user c nick ?e))"
    unfolding register_place_def Let_def u f assms(4) option.case if_not_P [OF sv] if_P [OF mc] by simp
  moreover have "still (introduce_user c c nick (welcome_user c nick ?e)) = still (?e\<lparr>local_list := c # local_list v\<rparr>)"
    using introduce_still [of c c nick "welcome_user c nick ?e"] mw still_local_list [OF w] still_fields(8) [OF w] ll by simp
  ultimately show ?thesis using es by simp
qed

lemma still_find_server:
  assumes s: "still v = still w"
  shows "find_server v nm = find_server w nm"
proof -
  note f = core_fields [OF bones_fields(1) [OF still_fields(1) [OF s]]]
  show ?thesis by (rule find_server_same) (simp_all only: f still_fields(4) [OF s])
qed

lemma still_may_enter:
  assumes s: "still v = still w" and m: "may_enter c w"
  shows "may_enter c v"
proof -
  note b = bones_fields [OF still_fields(1) [OF s], of c]
  note f = core_fields [OF b(1)]
  have "IsUnknown (cl v c) = IsUnknown (cl w c)" "(user (cl v c) = None) = (user (cl w c) = None)"
    using b(1) by (simp_all add: core_def IsUnknown_def)
  then show ?thesis using m unfolding may_enter_def still_fields(2,3) [OF s] f by blast
qed

lemma lone_below:
  assumes "net_inv X w" "may_enter c w"
  shows "below w c = {c}"
proof -
  have "\<not> hangs w d c" for d
    using leaf_no_server [OF assms(1)] assms(2) unknown_kind(1) by (simp add: may_enter_def)
  then have "d = c" if "(hangs w)\<^sup>*\<^sup>* d c" for d using that by (auto elim: rtranclp.cases)
  then show ?thesis using below_self [of c w] by (auto simp: below_def)
qed

lemma register_net:
  assumes "net_inv {} w" "may_enter c w" "map_option u_server (user (cl w c)) = Some (name (cl w (me w)))"
    "find_server w (name (cl w (me w))) = Some (me w)" "register_user c c nick usr w = Some (r, w')"
  shows "net_inv {} w' \<and>
    (r = CLIENT_EXITED \<and> living w' = living w - {c} \<or>
     r = 0 \<and> living w' = living w \<and> IsPerson (cl w' c) \<and> hangs w' c (me w') \<and> local_list w' = c # local_list w \<and>
     count_total w' = count_total w + 1 \<and> count_local w' = count_local w + 1 \<and> count_invisi w' = count_invisi w + 1)"
proof -
  let ?w = "upd_cl c (\<lambda>k. k\<lparr>user := map_option (\<lambda>u. u\<lparr>u_last := now w\<rparr>) (user k)\<rparr>) w"
  let ?pre = "go_on (go_on (register_access c c (take USERLEN usr) ?w) (register_line c c (take USERLEN usr))) (register_limits c c nick)"
  have w: "still ?w = still w" by (rule still_clients) simp
  have n: "user (cl w c) \<noteq> None" "c \<noteq> me w" "c \<in> living w" "IsUnknown (cl w c)" using assms(2) by (simp_all add: may_enter_def)
  have mc: "MyConnect (cl ?w c)" using assms(2) by (simp add: may_enter_def MyConnect_def)
  note ck = checks_checked [of c c ?w "take USERLEN usr" nick]
  have e: "Option.bind (go_on ?pre (\<lambda>w1. Some (Inr (register_accept c nick w1))))
      (\<lambda>v. case v of Inl r \<Rightarrow> Some r | Inr w2 \<Rightarrow> register_place c c nick w2) = Some (r, w')"
    using assms(5) unfolding register_user_def Let_def if_not_P [OF n(1)] if_P [OF mc] register_local_def .
  show ?thesis
  proof (cases ?pre)
    case None
    then show ?thesis using e by simp
  next
    case (Some x)
    show ?thesis
    proof (cases x)
      case (Inl p)
      then obtain v m where v: "still v = still ?w" "exit_client (Some c) c (me v) m v = Some (r, w')"
        using ck e unfolding Some checked_def by (auto split: prod.splits)
      have vw: "still v = still w" using v(1) w by simp
      have "c \<in> living v" "c \<noteq> me v" using n still_fields(2,3) [OF vw] by simp_all
      note x = exit_client_effect [OF still_net [OF vw assms(1)] this, of "Some c" "me v" m]
      have "below v c = {c}" by (rule lone_below [OF still_net [OF vw assms(1)] still_may_enter [OF vw assms(2)]])
      then have "r = CLIENT_EXITED \<and> net_inv {} w' \<and> living w' = living w - {c}"
        using x v(2) still_fields(2) [OF vw] by auto
      then show ?thesis by blast
    next
      case (Inr v)
      have vw: "still v = still w" using ck w unfolding Some Inr checked_def by simp
      have rp: "register_place c c nick (register_accept c nick v) = Some (r, w')" using e unfolding Some Inr by simp
      note p = place_some [OF still_net [OF vw assms(1)] still_may_enter [OF vw assms(2)], of nick]
      have "map_option u_server (user (cl v c)) = Some (name (cl v (me v)))"
        using assms(3) bones_fields(9) [OF still_fields(1) [OF vw], of c] core_fields(1) [OF bones_fields(1) [OF still_fields(1) [OF vw]], of "me w"]
        by (simp add: still_fields(3) [OF vw])
      moreover have "find_server v (name (cl v (me v))) = Some (me v)"
        using assms(4) core_fields(1) [OF bones_fields(1) [OF still_fields(1) [OF vw]], of "me w"]
        by (simp add: still_find_server [OF vw] still_fields(3) [OF vw])
      ultimately have r: "r = 0" "still w' = still (entered c v)" using p rp by simp_all
      have net: "net_inv {} w'" by (rule still_net [OF r(2) enter_net [OF still_may_enter [OF vw assms(2)] still_net [OF vw assms(1)]]])
      note k = entered_kinds [OF still_may_enter [OF vw assms(2)]]
      have "IsPerson (cl w' c)" using core_fields(10) [OF bones_fields(1) [OF still_fields(1) [OF r(2)]], of c] k(4) by simp
      moreover have "hangs w' c (me w')" using still_hangs [OF r(2)] k(6) still_fields(3) [OF r(2)] by (simp add: entered_rest)
      ultimately show ?thesis using net r(1) still_fields [OF r(2)] still_counts [OF r(2)] still_fields [OF vw] still_counts [OF vw]
        by (simp add: entered_rest)
    qed
  qed
qed

text \<open>C4 (registration keeps the network consistent).
  Whatever \<open>register_user\<close> decides about a local client that is not registered yet, the state of the
  network is consistent when it returns: either the client exits and is the only one that leaves, or it
  is a user of this server, hangs on it, is on the list of local users, and the counters of all users,
  local users and invisible users have gone up by one.\<close>

theorem register_local_net:
  assumes "net_inv {} w" "may_enter c w" "map_option u_server (user (cl w c)) = Some (name (cl w (me w)))"
    "find_server w (name (cl w (me w))) = Some (me w)" "register_user c c nick usr w = Some (r, w')"
  shows "net_inv {} w' \<and>
    (r = CLIENT_EXITED \<and> living w' = living w - {c} \<or>
     r = 0 \<and> living w' = living w \<and> IsPerson (cl w' c) \<and> hangs w' c (me w') \<and> local_list w' = c # local_list w \<and>
     count_total w' = count_total w + 1 \<and> count_local w' = count_local w + 1 \<and> count_invisi w' = count_invisi w + 1)"
  by (rule register_net [OF assms])

end
