(* ===== verification/RegisterProps.thy ===== *)
theory RegisterProps
  imports RegisterSpec
begin

text \<open>
  New connections keep the network consistent, and a concrete client that registers: one that gets
  an I-line and one that is refused.
\<close>

section \<open>New connections\<close>

lemma net_connect:
  assumes "net_inv {} w" "c \<notin> living w" and k: "IsUnknown k" "MyConnect k" "servptr_of k = None" "from_of k = Some c"
    "u_chans k = []" "u_invs k = []" "\<And>u. user k = Some u \<Longrightarrow> u_joined u = 0" "fd k = -1" "\<not> IsAnOper k" "cl_serv k = None"
  defines "v \<equiv> w\<lparr>clients := (clients w)(c := k), client_list := c # client_list w\<rparr>"
  shows "net_inv {} v"
proof -
  have inv: "roots_ok w" "links_ok w" "servs_ok w" "froms_ok w" "people_ok w" "nicks_ok w" "past_ok w" "locals_ok {} w" "totals_ok w" "chan_inv w"
    using assms(1) by (simp_all add: net_inv_def)
  note u = unknown_kind [OF k(1)]
  have me: "c \<noteq> me w" "me w \<in> living w" using inv(1) assms(2) by (auto simp: roots_ok_def)
  have r: "living v = insert c (living w)" "me v = me w" "cl v c = k" "\<And>d. d \<noteq> c \<Longrightarrow> cl v d = cl w d" by (simp_all add: v_def)
  have no: "\<not> hangs w d c" "\<not> hangs w c d" for d using inv(2) assms(2) by (auto simp: links_ok_def hangs_def)
  have "hangs v d p = hangs w d p" for d p
    using no(2) [of p] k(3) r by (cases "d = c") (simp_all add: hangs_def)
  then have h: "hangs v = hangs w" by (simp add: fun_eq_iff)
  have "roots_ok v" using inv(1) assms(2) u r me by (auto simp: roots_ok_def v_def)
  moreover have "links_ok v"
    using inv(2) no by (auto simp: links_ok_def h r(1,2)) (use assms(2) r(4) in \<open>metis hangs_def\<close>)+
  moreover have "servs_ok v"
  proof -
    have "sv_holds v p sv = sv_holds w p sv" for p sv
    proof -
      have "{d. hangs v d p \<and> P (cl v d)} = {d. hangs w d p \<and> P (cl w d)}" for P using no(2) r(4) by (auto simp: h) metis+
      from this [of IsServer] this [of "\<lambda>k. \<not> IsServer k"] show ?thesis unfolding sv_holds_def by simp
    qed
    moreover have "(IsServer (cl v p) \<or> p = me v \<longrightarrow> cl_serv (cl v p) \<noteq> None) \<and> (\<forall>sv. cl_serv (cl v p) = Some sv \<longrightarrow> sv_holds w p sv)"
      if "p \<in> living v" for p
    proof (cases "p = c")
      case True
      then show ?thesis using u(1) me(1) k(10) r(2,3) by simp
    next
      case False
      then show ?thesis using inv(3) that by (simp add: servs_ok_def r(1,2) r(4) [OF False])
    qed
    ultimately show ?thesis by (simp add: servs_ok_def)
  qed
  moreover have hv: "(hangs v)\<^sup>*\<^sup>* d a" if "d \<in> living v" "from_of (cl v d) = Some a" for d a
  proof (cases "d = c")
    case True
    then show ?thesis using that(2) k(4) r(3) by simp
  next
    case False
    then show ?thesis using inv(4) that by (simp add: froms_ok_def h r(1) r(4) [OF False])
  qed
  have "froms_ok v" using hv by (simp add: froms_ok_def)
  ultimately have tree: "roots_ok v" "links_ok v" "servs_ok v" "froms_ok v" by simp_all
  have rc: "cl v d = (if d = c then k else cl w d)" for d by (simp add: v_def)
  have "people_ok v" using inv(5) k(5,6) unfolding people_ok_def r(1) rc by (simp del: not_None_eq)
  moreover have "nicks_ok v"
  proof -
    obtain S where S: "S \<subseteq> living w" "tab_ok hash_nick_name (\<lambda>c. name (cl w c)) S (client_tab w)" "names_ok (\<lambda>c. name (cl w c)) S"
      using inv(6) by (auto simp: nicks_ok_def)
    have e: "d \<in> S \<Longrightarrow> name (cl w d) = name (cl v d)" for d using S(1) assms(2) r(4) by (metis subset_iff)
    have "tab_ok hash_nick_name (\<lambda>c. name (cl v c)) S (client_tab w)"
      using nick.ok_cong [of S "\<lambda>c. name (cl w c)" "\<lambda>c. name (cl v c)"] e S(2) by simp
    moreover have "names_ok (\<lambda>c. name (cl v c)) S" using S(3) e by (simp add: names_ok_def)
    ultimately show ?thesis unfolding nicks_ok_def using S(1) r(1) by (intro exI [of _ S]) (auto simp: v_def)
  qed
  moreover have "past_ok v" using inv(7) assms(2) unfolding past_ok_def r(1) rc by (auto simp: v_def)
  moreover have "locals_ok {} v"
  proof -
    have "local_set {} v P = local_set {} w P" if "\<not> P k" for P using that assms(2) unfolding local_set_def r(1) rc by auto
    then have "local_set {} v IsServer = local_set {} w IsServer" "local_set {} v IsAnOper = local_set {} w IsAnOper"
      "local_set {} v IsPerson = local_set {} w IsPerson" "local_set {} v (\<lambda>k. fd k > -1) = local_set {} w (\<lambda>k. fd k > -1)"
      "local_set {} v IsClient = local_set {} w IsClient" using u k(8,9) by simp_all
    then show ?thesis using inv(8) by (simp add: locals_ok_def v_def)
  qed
  moreover have "totals_ok v"
  proof -
    have s: "{d \<in> living v. P (cl v d)} = {d \<in> living w. P (cl w d)}" if "\<not> P k" for P using that assms(2) unfolding r(1) rc by auto
    have "{d \<in> living v. IsServer (cl v d)} = {d \<in> living w. IsServer (cl w d)}" "{d \<in> living v. IsClient (cl v d)} = {d \<in> living w. IsClient (cl w d)}"
      "{d \<in> living v. IsClient (cl v d) \<and> IsAnOper (cl v d)} = {d \<in> living w. IsClient (cl w d) \<and> IsAnOper (cl w d)}"
      "{d \<in> living v. IsClient (cl v d) \<and> IsInvisible (cl v d)} = {d \<in> living w. IsClient (cl w d) \<and> IsInvisible (cl w d)}"
      using s [of IsServer] s [of IsClient] s [of "\<lambda>k. IsClient k \<and> IsAnOper k"] s [of "\<lambda>k. IsClient k \<and> IsInvisible k"] u by simp_all
    then show ?thesis using inv(9) by (simp add: totals_ok_def Let_def) (simp add: v_def)
  qed
  moreover have "chan_inv v"
  proof -
    have "user (cl w c) = None" using inv(5) assms(2) by (simp add: people_ok_def)
    then have e: "u_chans (cl w c) = []" "u_invs (cl w c) = []" by (simp_all add: no_user_sides)
    have j: "u_joined x = int (length (u_channel x))" if "user (cl v d) = Some x" for d x
      using that chan_inv_joined [OF inv(10), of d x] k(5,7) by (cases "d = c") (simp_all add: v_def u_chans_def)
    have "u_chans (cl v d) = u_chans (cl w d)" "u_invs (cl v d) = u_invs (cl w d)" for d
      using e k(5,6) by (simp_all add: v_def)
    then show ?thesis by (intro chan_inv_cong [OF _ _ j _ _ _ _ _ _ _ _ _ inv(10)]) (simp_all add: v_def)
  qed
  ultimately show ?thesis using tree by (simp add: net_inv_def)
qed

lemma net_tab:
  assumes "net_inv X w" "nicks_ok (w\<lparr>client_tab := t\<rparr>)"
  shows "net_inv X (w\<lparr>client_tab := t\<rparr>)"
proof -
  let ?v = "w\<lparr>client_tab := t\<rparr>"
  have h: "hangs ?v = hangs w" by (simp add: hangs_def fun_eq_iff)
  have "roots_ok ?v = roots_ok w" "people_ok ?v = people_ok w" "past_ok ?v = past_ok w" "totals_ok ?v = totals_ok w"
    by (simp_all add: roots_ok_def people_ok_def past_ok_def totals_ok_def)
  moreover have "links_ok ?v = links_ok w" "froms_ok ?v = froms_ok w" by (simp_all add: links_ok_def froms_ok_def h)
  moreover have "servs_ok ?v = servs_ok w" by (simp add: servs_ok_def sv_holds_def h)
  moreover have "locals_ok X ?v = locals_ok X w" by (simp add: locals_ok_def local_set_def)
  moreover have "chan_inv ?v = chan_inv w" by (simp add: chan_inv_def inv_defs)
  ultimately show ?thesis using assms by (simp add: net_inv_def)
qed

lemma find_server_name:
  assumes "tab_ok hash_nick_name (\<lambda>c. name (cl w c)) S (client_tab w)" "names_ok (\<lambda>c. name (cl w c)) S"
    "p \<in> S" "IsServer (cl w p) \<or> IsMe (cl w p)" "cstring nm" "same_name nm (name (cl w p))"
  shows "find_server w nm = Some p"
proof -
  let ?P = "\<lambda>x. (IsServer (cl w x) \<or> IsMe (cl w x)) \<and> irccmp nm (name (cl w x)) = 0"
  let ?b = "bucket (client_tab w) (hash_nick_name nm)"
  have b: "set ?b = {x \<in> S. hash_nick_name (name (cl w x)) = hash_nick_name nm}" using assms(1) by (simp add: tab_ok_def)
  have "p \<in> set ?b" unfolding b using assms(3) nick.h_same [OF assms(6)] by simp
  have cmp: "?P x \<longleftrightarrow> x = p" if "x \<in> S" for x
  proof -
    have "irccmp nm (name (cl w x)) = 0 \<longleftrightarrow> same_name nm (name (cl w x))" using assms(2,5) that by (simp add: irccmp_0_iff names_ok_def)
    moreover have "same_name nm (name (cl w x)) \<longleftrightarrow> x = p"
      using assms(2,3,6) that same_name_sym same_name_trans unfolding names_ok_def by metis
    ultimately show ?thesis using assms(4) by auto
  qed
  have "find ?P ?b \<noteq> None" using \<open>p \<in> set ?b\<close> cmp [OF assms(3)] by (auto simp: find_None_iff)
  then obtain x where x: "find ?P ?b = Some x" by auto
  then have "x \<in> set ?b" "?P x" by (auto simp: find_Some_iff)
  then have "x = p" using cmp b by auto
  then show ?thesis using x by (simp add: find_server_def hash_find_server_def)
qed

text \<open>The structure a client gets by USER does not matter to the network before the client is registered.\<close>

lemma net_user:
  fixes w :: world and c :: cid and u :: "user"
  assumes "net_inv {} w" "c \<in> living w" "IsUnknown (cl w c)" "user (cl w c) = None" "u_channel u = []" "u_invited u = []" "u_joined u = 0"
  defines "v \<equiv> upd_cl c (\<lambda>k. k\<lparr>user := Some u\<rparr>) w"
  shows "net_inv {} v"
proof -
  have inv: "roots_ok w" "links_ok w" "servs_ok w" "froms_ok w" "people_ok w" "nicks_ok w" "past_ok w" "locals_ok {} w" "totals_ok w" "chan_inv w"
    using assms(1) by (simp_all add: net_inv_def)
  have m: "client_list v = client_list w" "me v = me w" "client_tab v = client_tab w" "history v = history w" by (simp_all add: v_def)
  have np: "\<not> IsPerson (cl w c)" "\<not> IsPerson (cl v c)" using assms(3) unknown_kind [OF assms(3)]
    by (simp_all add: v_def IsPerson_def IsClient_def)
  have f: "name (cl v d) = name (cl w d)" "from_of (cl v d) = from_of (cl w d)" "servptr_of (cl v d) = servptr_of (cl w d)"
    "fd (cl v d) = fd (cl w d)" "IsServer (cl v d) = IsServer (cl w d)" "IsMe (cl v d) = IsMe (cl w d)" "IsClient (cl v d) = IsClient (cl w d)"
    "IsAnOper (cl v d) = IsAnOper (cl w d)" "IsInvisible (cl v d) = IsInvisible (cl w d)" "MyConnect (cl v d) = MyConnect (cl w d)"
    "cl_serv (cl v d) = cl_serv (cl w d)" for d
    by (simp_all add: v_def from_of_def servptr_of_def IsServer_def IsMe_def IsClient_def IsAnOper_def IsInvisible_def MyConnect_def)
  have p: "IsPerson (cl v d) = IsPerson (cl w d)" for d using np by (cases "d = c") (simp_all add: v_def)
  have s: "u_chans (cl v d) = u_chans (cl w d)" "u_invs (cl v d) = u_invs (cl w d)" for d
    using assms(4-6) by (simp_all add: v_def u_chans_def u_invs_def)
  have h: "hangs v = hangs w" by (simp add: hangs_def fun_eq_iff m f)
  have "roots_ok v" using inv(1) unfolding roots_ok_def m f .
  moreover have "links_ok v" using inv(2) unfolding links_ok_def h m f .
  moreover have "servs_ok v" using inv(3) unfolding servs_ok_def sv_holds_def h m f .
  moreover have "froms_ok v" using inv(4) unfolding froms_ok_def h m f .
  moreover have "people_ok v"
    using inv(5) assms(2) unfolding people_ok_def m f p s by (auto simp: v_def)
  moreover have "nicks_ok v" using inv(6) unfolding nicks_ok_def m f .
  moreover have "past_ok v" using inv(7) unfolding past_ok_def m p .
  moreover have "locals_ok {} v" using inv(8) unfolding locals_ok_def local_set_def m f p by (simp add: v_def)
  moreover have "totals_ok v" using inv(9) unfolding totals_ok_def Let_def m f by (simp add: v_def)
  moreover have "chan_inv v"
  proof -
    have j: "u_joined x = int (length (u_channel x))" if "user (cl v d) = Some x" for d x
      using that chan_inv_joined [OF inv(10), of d x] assms(5,7) by (cases "d = c") (auto simp: v_def)
    show ?thesis using s by (intro chan_inv_cong [OF _ _ j _ _ _ _ _ _ _ _ _ inv(10)]) (simp_all add: v_def)
  qed
  ultimately show ?thesis by (simp add: net_inv_def)
qed

section \<open>Two clients that register\<close>

text \<open>
  The network of \<open>ExitProps\<close> with the name of the server in the table and a connection that gave
  NICK and USER.  \<open>iline\<close> is what the tree of access lines answers.
\<close>

definition dave :: client where
  "dave = zero_client\<lparr>name := ''dave'', username := ''unknown'', host := ''dave.example.org'', info := ''Dave'', status := STAT_UNKNOWN,
     local_flag := True, cfrom := 16, null_servptr := True, user := Some (fresh_anuser\<lparr>u_server := ''irc.example.net''\<rparr>)\<rparr>"

definition dave_net :: "confid option \<Rightarrow> world" where
  "dave_net iline = (let w = demo_net\<lparr>client_tab := add_to_client_hash_table ''irc.example.net'' 0 (client_tab demo0)\<rparr>
     in w\<lparr>clients := (clients w)(16 := dave), client_list := 16 # client_list w, mtrie := \<lambda>_ _ _. iline,
          confs := (\<lambda>_. zero_conf)(7 := zero_conf\<lparr>ci_status := CONF_CLIENT\<rparr>),
          classes := \<lambda>_. zero_class, temporary_klines := [], temporary_ip_klines := [], x_conf := [], maxclients := 180,
          iptab := clear_ip_hash_table 100\<rparr>)"

lemma dave_kind: "IsUnknown dave" "MyConnect dave" "servptr_of dave = None" "from_of dave = Some 16" "u_chans dave = []" "u_invs dave = []"
    "user dave = Some u \<Longrightarrow> u_joined u = 0" "fd dave = -1" "\<not> IsAnOper dave" "cl_serv dave = None"
  by (auto simp: dave_def zero_client_def IsUnknown_def MyConnect_def servptr_of_def from_of_def u_chans_def u_invs_def fresh_anuser_def
      IsAnOper_def has_flag_def)

lemma me_name_demo: "name (cl demo_net 0) = ''irc.example.net''"
  by (simp add: demo_clients)

lemma server_names: "\<not> same_name ''hub.example.net'' ''irc.example.net''" "\<not> same_name ''irc.example.net'' ''hub.example.net''"
  by (simp_all add: same_name_def, code_simp+)

lemma dave_table:
  "tab_ok hash_nick_name (\<lambda>c. name (cl demo_net c)) {0, 15, 14, 13, 12, 11} (add_to_client_hash_table ''irc.example.net'' 0 (client_tab demo0))"
  "names_ok (\<lambda>c. name (cl demo_net c)) {0, 15, 14, 13, 12, 11}"
proof -
  have d: "(\<lambda>c. name (cl demo_net c)) = demo_name" by (simp add: demo_net_name)
  have 0: "demo_name 0 = ''irc.example.net''" using me_name_demo by (simp add: demo_net_name)
  show "tab_ok hash_nick_name (\<lambda>c. name (cl demo_net c)) {0, 15, 14, 13, 12, 11} (add_to_client_hash_table ''irc.example.net'' 0 (client_tab demo0))"
    using nick.ok_add [OF demo_tab_ok, of 0] by (simp add: d 0 add_to_client_hash_table_def)
  show "names_ok (\<lambda>c. name (cl demo_net c)) {0, 15, 14, 13, 12, 11}"
    using demo_names_ok unfolding d names_ok_def by (auto simp: 0 demo_names server_names dest: same_name_length)
qed

lemma dave_net_ok: "net_inv {} (dave_net iline)"
proof -
  let ?w = "demo_net\<lparr>client_tab := add_to_client_hash_table ''irc.example.net'' 0 (client_tab demo0)\<rparr>"
  have "nicks_ok ?w" unfolding nicks_ok_def
    by (intro exI [of _ "{0, 15, 14, 13, 12, 11}"]) (use dave_table in simp)
  then have "net_inv {} ?w" by (rule net_tab [OF demo_net_ok])
  then have "net_inv {} (?w\<lparr>clients := (clients ?w)(16 := dave), client_list := 16 # client_list ?w\<rparr>)"
    by (rule net_connect [OF _ _ dave_kind]) simp
  then show ?thesis
    by (rule still_net [rotated]) (simp add: dave_net_def still_def)
qed

lemma dave_fields:
  "cl (dave_net a) 16 = dave" "me (dave_net a) = 0" "living (dave_net a) = {16, 15, 14, 13, 12, 11, 0}"
  "cl (dave_net a) 0 = cl demo_net 0"
  by (auto simp: dave_net_def Let_def)

lemma dave_enters: "may_enter 16 (dave_net a)"
  using dave_kind by (simp add: may_enter_def dave_fields) (simp add: dave_def)

lemma dave_server: "map_option u_server (user (cl (dave_net a) 16)) = Some (name (cl (dave_net a) (me (dave_net a))))"
  by (simp add: dave_fields me_name_demo dave_def)

lemma dave_finds: "find_server (dave_net a) (name (cl (dave_net a) (me (dave_net a)))) = Some (me (dave_net a))"
proof -
  let ?S = "{0, 15, 14, 13, 12, 11::cid}"
  have n: "d \<in> ?S \<Longrightarrow> name (cl (dave_net a) d) = name (cl demo_net d)" for d by (auto simp: dave_net_def Let_def)
  have "tab_ok hash_nick_name (\<lambda>c. name (cl (dave_net a) c)) ?S (client_tab (dave_net a))"
    using nick.ok_cong [of ?S "\<lambda>c. name (cl (dave_net a) c)" "\<lambda>c. name (cl demo_net c)"] n dave_table(1) by (simp add: dave_net_def Let_def)
  moreover have "names_ok (\<lambda>c. name (cl (dave_net a) c)) ?S" using dave_table(2) n by (simp add: names_ok_def)
  ultimately show ?thesis
    by (rule find_server_name) (simp_all add: dave_fields me_name_demo demo_net_kinds)
qed

text \<open>C9 (no access line, no access).
  A local client for whose host, user name and address the access lines have no answer never becomes a
  user: \<open>register_user\<close> returns, the client and nobody else is gone, and the network is consistent.\<close>

theorem no_line_refused:
  assumes "net_inv {} w" "may_enter c w"
    "mtrie w (host (cl w c)) (access_user (cl w c) (take USERLEN usr)) (of_nat (ip_number (cl w c))) = None"
  shows "\<exists>w'. register_user c c nick usr w = Some (CLIENT_EXITED, w') \<and> living w' = living w - {c} \<and> net_inv {} w'"
proof -
  let ?w = "upd_cl c (\<lambda>k. k\<lparr>user := map_option (\<lambda>u. u\<lparr>u_last := now w\<rparr>) (user k)\<rparr>) w"
  define v where "v = upd_cl c (\<lambda>k. k\<lparr>cflags := cflags k AND NOT FLAGS_CHKACCESS\<rparr>) ?w"
  have n: "user (cl w c) \<noteq> None" and mc: "MyConnect (cl ?w c)" using assms(2) by (simp_all add: may_enter_def MyConnect_def)
  have "still ?w = still w" by (rule still_clients) simp
  moreover have "still v = still ?w" unfolding v_def by (rule still_upd) simp
  ultimately have v: "still v = still w" by simp
  have "IsGotId (cl v c) = IsGotId (cl w c)"
    using has_flag_andnot [of FLAGS_GOTID FLAGS_CHKACCESS] by (simp add: v_def IsGotId_def FLAGS_GOTID_def FLAGS_CHKACCESS_def)
  then have "access_user (cl v c) u = access_user (cl w c) u" for u unfolding access_user_def by (simp add: v_def)
  moreover have "mtrie v = mtrie w" "host (cl v c) = host (cl w c)" "ip_number (cl v c) = ip_number (cl w c)"
    by (simp_all add: v_def ip_number_def)
  ultimately have m: "mtrie v (host (cl v c)) (access_user (cl v c) (take USERLEN usr)) (of_nat (ip_number (cl v c))) = None"
    using assms(3) by simp
  have "check_client c (take USERLEN usr) ?w = Some (NOT_AUTHORIZED, None, v)"
    unfolding check_client_def v_def [symmetric] verify_access_def Let_def m option.case NOT_AUTHORIZED_def ..
  moreover have ids: "(NOT_AUTHORIZED = SOCKET_ERROR) = False" "(NOT_AUTHORIZED = I_LINE_FULL) = False" "(NOT_AUTHORIZED = I_LINE_FULL2) = False"
    by (simp_all add: NOT_AUTHORIZED_def SOCKET_ERROR_def I_LINE_FULL_def I_LINE_FULL2_def)
  ultimately obtain f a g cm where r: "register_access c c (take USERLEN usr) ?w = refuse c c cm (sendto_realops_flags FLAGS_CCONN f a (bump g v))"
    unfolding register_access_def Let_def by (simp only: option.case prod.case ids if_False if_True simp_thms)
  let ?x = "bump (\<lambda>s. s\<lparr>is_ref := is_ref s + 1\<rparr>) (sendto_realops_flags FLAGS_CCONN f a (bump g v))"
  have x: "still ?x = still w" by (simp only: still_simps v)
  have c: "c \<in> living ?x" "c \<noteq> me ?x" using assms(2) still_fields(2,3) [OF x] by (simp_all add: may_enter_def)
  obtain w' where e: "exit_client (Some c) c (me ?x) cm ?x = Some (CLIENT_EXITED, w')" "living w' = living ?x - below ?x c" "net_inv {} w'"
    using exit_client_effect [OF still_net [OF x assms(1)] c, of "Some c" "me ?x" cm] by auto
  have b: "below ?x c = {c}" by (rule lone_below [OF still_net [OF x assms(1)] still_may_enter [OF x assms(2)]])
  have "me (sendto_realops_flags FLAGS_CCONN f a (bump g v)) = me ?x" by (simp add: bump_def)
  then have "register_access c c (take USERLEN usr) ?w = Some (Inl (CLIENT_EXITED, w'))" unfolding r refuse_def using e(1) by simp
  then have "register_user c c nick usr w = Some (CLIENT_EXITED, w')"
    unfolding register_user_def Let_def if_not_P [OF n] if_P [OF mc] register_local_def by simp
  then show ?thesis using e(2,3) b still_fields(2) [OF x] by simp
qed

theorem no_line_refused_witness:
  "\<exists>w'. register_user 16 16 ''dave'' ''dave'' (dave_net None) = Some (CLIENT_EXITED, w') \<and> living w' = {15, 14, 13, 12, 11, 0} \<and> net_inv {} w'"
proof -
  have "living (dave_net None) - {16} = {15, 14, 13, 12, 11, 0}" by (simp add: dave_fields)
  moreover have "mtrie (dave_net None) h u n = None" for h u n by (simp add: dave_net_def Let_def)
  ultimately show ?thesis using no_line_refused [OF dave_net_ok dave_enters, of None "''dave''" "''dave''"] by simp
qed

section \<open>A client that is let in\<close>

text \<open>What a client needs: an ordinary I-line \<open>a\<close> with room, a good host and user name, and a server that is not full.\<close>

definition given_name :: "client \<Rightarrow> cstr \<Rightarrow> cstr" where
  "given_name k usr = (if IsGotId k then username k else tilde_name (take USERLEN usr))"

definition welcome_here :: "cid \<Rightarrow> confid \<Rightarrow> cstr \<Rightarrow> world \<Rightarrow> bool" where
  "welcome_here c a usr w \<longleftrightarrow>
     mtrie w (host (cl w c)) (access_user (cl w c) (take USERLEN usr)) (of_nat (ip_number (cl w c))) = Some a \<and>
     temporary_klines w = [] \<and> temporary_ip_klines w = [] \<and> ci_status (cf w a) = CONF_CLIENT \<and> ci_flags (cf w a) = 0 \<and>
     ci_passwd (cf w a) = None \<and> a \<notin> set (cl_confs (cl w c)) \<and> ConfLinks w a < ConfMaxLinks w a \<and>
     (\<exists>t. add_one_ip (ip_number (cl w c)) (iptab w) = Some t \<and> ip_users t (ip_number (cl w c)) \<le> ConfConFreq w a) \<and>
     valid_hostname (host (cl w c)) \<and> valid_username (given_name (cl w c) usr) \<and> \<not> server_full w c \<and> x_conf w = []"

lemma no_flags: "ci_flags i = 0 \<Longrightarrow> \<not> IsConfElined i" "ci_flags i = 0 \<Longrightarrow> \<not> IsMustResolve i" "ci_flags i = 0 \<Longrightarrow> \<not> IsConfDoIdentd i"
  "ci_flags i = 0 \<Longrightarrow> \<not> IsConfDoSpoofIp i" "ci_flags i = 0 \<Longrightarrow> \<not> IsConfFlined i" "ci_flags i = 0 \<Longrightarrow> \<not> IsNeedIdentd i"
  "ci_flags i = 0 \<Longrightarrow> \<not> IsConfCanFlood i" "ci_flags i = 0 \<Longrightarrow> \<not> IsNoTilde i"
  by (simp_all add: IsConfElined_def IsMustResolve_def IsConfDoIdentd_def IsConfDoSpoofIp_def IsConfFlined_def IsNeedIdentd_def
      IsConfCanFlood_def IsNoTilde_def has_flag_def)

lemma no_tklines:
  "temporary_klines w = [] \<Longrightarrow> temporary_ip_klines w = [] \<Longrightarrow> find_tkline h u n w = (None, w\<lparr>temporary_klines := [], temporary_ip_klines := []\<rparr>)"
  by (simp add: find_tkline_def expire_temp_klines_def)

lemma link_fields:
  "cl (link_conf c a w) d = (if d = c then (cl w c)\<lparr>cl_confs := a # cl_confs (cl w c)\<rparr> else cl w d)"
  "cf (link_conf c a w) a = (cf w a)\<lparr>ci_clients := ci_clients (cf w a) + 1\<rparr>"
  "x_conf (link_conf c a w) = x_conf w" "count_local (link_conf c a w) = count_local w" "maxclients (link_conf c a w) = maxclients w"
  by (simp_all add: link_conf_def add_links_def Let_def split: option.split)

lemma access_given:
  assumes "welcome_here c a usr w"
  shows "\<exists>v k. register_access cptr c (take USERLEN usr) w = Some (Inr v) \<and> cl v c = k \<and> k = (cl w c)\<lparr>cflags := cflags k, cl_confs := a # cl_confs (cl w c)\<rparr> \<and>
    IsGotId k = IsGotId (cl w c) \<and> cf v a = (cf w a)\<lparr>ci_clients := ci_clients (cf w a) + 1\<rparr> \<and>
    x_conf v = x_conf w \<and> count_local v = count_local w \<and> maxclients v = maxclients w"
proof -
  note g = assms [unfolded welcome_here_def]
  define w1 where "w1 = upd_cl c (\<lambda>k. k\<lparr>cflags := cflags k AND NOT FLAGS_CHKACCESS\<rparr>) w"
  define w2 where "w2 = w1\<lparr>temporary_klines := [], temporary_ip_klines := []\<rparr>"
  obtain t where t: "add_one_ip (ip_number (cl w c)) (iptab w) = Some t" "ip_users t (ip_number (cl w c)) \<le> ConfConFreq w a" using g by blast
  define w3 where "w3 = upd_cl c (\<lambda>k. k\<lparr>cflags := cflags k OR FLAGS_IPHASH\<rparr>) (w2\<lparr>iptab := t\<rparr>)"
  have id: "IsGotId (k\<lparr>cflags := f AND NOT FLAGS_CHKACCESS\<rparr>) = has_flag f FLAGS_GOTID"
    "has_flag (f OR FLAGS_IPHASH) FLAGS_GOTID = has_flag f FLAGS_GOTID" "has_flag (f AND NOT FLAGS_CHKACCESS) FLAGS_GOTID = has_flag f FLAGS_GOTID" for k f
    using has_flag_andnot [of FLAGS_GOTID FLAGS_CHKACCESS f]
    by (simp_all add: IsGotId_def has_flag_or) (simp_all add: has_flag_def FLAGS_GOTID_def FLAGS_CHKACCESS_def FLAGS_IPHASH_def)
  have st: "has_flag (ci_status (cf w a)) CONF_CLIENT" "\<not> IsIllegal (cf w a)"
    using g by (simp_all add: IsIllegal_def has_flag_def conf_flag_defs)
  have k1: "cl w1 c = (cl w c)\<lparr>cflags := cflags (cl w c) AND NOT FLAGS_CHKACCESS\<rparr>" by (simp add: w1_def)
  have m: "mtrie w1 (host (cl w1 c)) (access_user (cl w1 c) (take USERLEN usr)) (of_nat (ip_number (cl w1 c))) = Some a"
  proof -
    have "access_user (cl w1 c) x = access_user (cl w c) x" for x using id(3) by (simp add: k1 access_user_def IsGotId_def)
    moreover have "host (cl w1 c) = host (cl w c)" "ip_number (cl w1 c) = ip_number (cl w c)" "mtrie w1 = mtrie w"
      by (simp_all add: k1 ip_number_def) (simp add: w1_def)
    ultimately show ?thesis using g by simp
  qed
  have c2: "cf w1 a = cf w a" "cf w2 a = cf w a" by (simp_all add: w1_def w2_def)
  have f: "find_tkline h u n w1 = (None, w2)" for h u n unfolding w2_def by (rule no_tklines) (use g in \<open>simp_all add: w1_def\<close>)
  have l: "ConfLinks w3 a = ConfLinks w a" "ConfMaxLinks w3 a = ConfMaxLinks w a" "ConfConFreq w3 a = ConfConFreq w a" "cf w3 a = cf w a"
    by (simp_all add: ConfLinks_def ConfMaxLinks_def ConfConFreq_def conf_class_def w3_def w2_def w1_def split: option.split)
  have a3: "attach_conf c a w3 = (0, link_conf c a w3)"
    using g st by (simp add: attach_conf_def Let_def l) (simp add: w3_def w2_def w1_def)
  have "add_one_ip (ip_number (cl w2 c)) (iptab w2) = Some t" "ip_number (cl w2 c) = ip_number (cl w c)"
    using t(1) by (simp_all add: w2_def w1_def ip_number_def)
  then have i: "attach_iline c a w2 = Some (0, link_conf c a w3)"
    unfolding attach_iline_def Let_def using t(2) by (simp only: option.map w3_def [symmetric] l a3) simp
  have "check_client c (take USERLEN usr) w = Some (0, None, link_conf c a w3)"
    unfolding check_client_def w1_def [symmetric] verify_access_def Let_def m option.case c2 f prod.case
    using g st by (simp add: no_flags c2 i)
  then have ra: "register_access cptr c (take USERLEN usr) w = Some (Inr (link_conf c a w3))"
    by (simp add: register_access_def Let_def SOCKET_ERROR_def I_LINE_FULL_def I_LINE_FULL2_def NOT_AUTHORIZED_def BANNED_CLIENT_def)
  show ?thesis
    by (intro exI conjI, rule ra, rule refl) (simp_all add: link_fields l w3_def w2_def w1_def IsGotId_def id)
qed

lemma line_given:
  assumes "cl_confs (cl v c) = a # as" "ci_flags (cf v a) = 0" "ci_passwd (cf v a) = None" "valid_hostname (host (cl v c))"
  shows "register_line cptr c u v = Some (Inr (upd_cl c (\<lambda>k. k\<lparr>cl_passwd := []\<rparr>)
    (if IsGotId (cl v c) then v else set_username c (tilde_name u) v)))"
proof -
  have r: "report_and_set_user_flags c a w = w" if "ci_flags (cf w a) = 0" for w
    using that by (simp add: report_and_set_user_flags_def Let_def grant_def no_flags)
  show ?thesis
    unfolding register_line_def Let_def if_P [OF assms(4)] assms(1) list.case
    using assms(2,3) by (cases "IsGotId (cl v c)") (simp_all add: no_flags BadPtr_def r set_username_def)
qed

lemma limits_given:
  assumes "\<not> server_full v c" "valid_username (username (cl v c))" "x_conf v = []" "\<not> IsAnOper (cl v c)"
  shows "register_limits cptr c nick v = Some (Inr v)"
proof -
  have "find_special_conf v nm CONF_XLINE = None" for nm
    using assms(3) by (simp add: find_special_conf_def has_flag_def conf_flag_defs)
  then show ?thesis using assms(1,2,4) by (simp add: register_limits_def Let_def)
qed

lemma let_in:
  assumes "net_inv {} w" "may_enter c w" "map_option u_server (user (cl w c)) = Some (name (cl w (me w)))"
    "find_server w (name (cl w (me w))) = Some (me w)" "welcome_here c a usr w"
  shows "\<exists>w'. register_user c c nick usr w = Some (0, w')"
proof -
  let ?w = "upd_cl c (\<lambda>k. k\<lparr>user := map_option (\<lambda>u. u\<lparr>u_last := now w\<rparr>) (user k)\<rparr>) w"
  let ?u = "take USERLEN usr"
  have n: "user (cl w c) \<noteq> None" "\<not> IsAnOper (cl w c)" and mc: "MyConnect (cl ?w c)" using assms(2) by (simp_all add: may_enter_def MyConnect_def)
  have sw: "still ?w = still w" by (rule still_clients) simp
  have g: "welcome_here c a usr ?w"
  proof -
    have "access_user (cl ?w c) x = access_user (cl w c) x" "given_name (cl ?w c) usr = given_name (cl w c) usr" "ip_number (cl ?w c) = ip_number (cl w c)"
      "server_full ?w c = server_full w c" "host (cl ?w c) = host (cl w c)" "cl_confs (cl ?w c) = cl_confs (cl w c)" for x
      by (simp_all add: access_user_def given_name_def ip_number_def server_full_def IsFlined_def IsGotId_def)
    moreover have "ConfLinks ?w a = ConfLinks w a" "ConfMaxLinks ?w a = ConfMaxLinks w a" "ConfConFreq ?w a = ConfConFreq w a"
      by (simp_all add: ConfLinks_def ConfMaxLinks_def ConfConFreq_def conf_class_def split: option.split)
    ultimately show ?thesis using assms(5) by (simp add: welcome_here_def)
  qed
  obtain v k where v: "register_access c c ?u ?w = Some (Inr v)" "cl v c = k" "k = (cl ?w c)\<lparr>cflags := cflags k, cl_confs := a # cl_confs (cl ?w c)\<rparr>"
      "IsGotId k = IsGotId (cl ?w c)" "cf v a = (cf ?w a)\<lparr>ci_clients := ci_clients (cf ?w a) + 1\<rparr>"
      "x_conf v = x_conf ?w" "count_local v = count_local ?w" "maxclients v = maxclients ?w"
    using access_given [OF g, of c] by blast
  have kf: "cl_confs k = a # cl_confs (cl w c)" "host k = host (cl w c)" "username k = username (cl w c)" "flags2 k = flags2 (cl w c)" "umodes k = umodes (cl w c)"
    by (subst v(3), simp)+
  have vf: "ci_flags (cf v a) = 0" "ci_passwd (cf v a) = None" "valid_hostname (host (cl v c))" "cl_confs (cl v c) = a # cl_confs (cl w c)"
    using assms(5) unfolding v(2,5) kf by (simp_all add: welcome_here_def)
  let ?v = "upd_cl c (\<lambda>k. k\<lparr>cl_passwd := []\<rparr>) (if IsGotId (cl v c) then v else set_username c (tilde_name ?u) v)"
  have l: "register_line c c ?u v = Some (Inr ?v)"
    by (rule line_given [OF vf(4,1,2,3)])
  have "register_limits c c nick ?v = Some (Inr ?v)"
  proof (rule limits_given)
    have e: "username (cl ?v c) = given_name (cl w c) usr" "flags2 (cl ?v c) = flags2 (cl w c)" "umodes (cl ?v c) = umodes (cl w c)"
      "count_local ?v = count_local w" "maxclients ?v = maxclients w" "x_conf ?v = x_conf w"
      using v(4) by (simp_all add: v(2,6-8) kf set_username_def given_name_def IsGotId_def)
    show "\<not> server_full ?v c" "valid_username (username (cl ?v c))" "x_conf ?v = []" "\<not> IsAnOper (cl ?v c)"
      using assms(5) n(2) unfolding server_full_def IsFlined_def IsAnOper_def welcome_here_def e by simp_all
  qed
  then have pre: "go_on (go_on (register_access c c ?u ?w) (register_line c c ?u)) (register_limits c c nick) = Some (Inr ?v)"
    by (simp only: v(1) l go_on.simps)
  have s: "still ?v = still w" using checks_checked [of c c ?w ?u nick] sw unfolding pre checked_def by simp
  note b = bones_fields [OF still_fields(1) [OF s]] and f = core_fields [OF bones_fields(1) [OF still_fields(1) [OF s]]]
  have "\<exists>w'. register_place c c nick (register_accept c nick ?v) = Some (0, w') \<and> still w' = still (entered c ?v)"
    by (rule place_some [OF still_net [OF s assms(1)] still_may_enter [OF s assms(2)]])
      (simp_all only: b(9) f(1) still_fields(3) [OF s] still_find_server [OF s] assms(3,4))
  then obtain w' where p: "register_place c c nick (register_accept c nick ?v) = Some (0, w')" by blast
  have "register_user c c nick usr w = Some (0, w')"
    unfolding register_user_def Let_def if_not_P [OF n(1)] if_P [OF mc] register_local_def pre go_on.simps bind.bind_lunit sum.case by (rule p)
  then show ?thesis by blast
qed

text \<open>What does not depend on the structure that USER gives a client, or on its real name.\<close>

lemma user_simps:
  "servptr_of (k\<lparr>user := x\<rparr>) = servptr_of k" "from_of (k\<lparr>user := x\<rparr>) = from_of k" "IsUnknown (k\<lparr>user := x\<rparr>) = IsUnknown k"
  "MyConnect (k\<lparr>user := x\<rparr>) = MyConnect k" "IsAnOper (k\<lparr>user := x\<rparr>) = IsAnOper k" "IsServer (k\<lparr>user := x\<rparr>) = IsServer k"
  "IsMe (k\<lparr>user := x\<rparr>) = IsMe k" "IsGotId (k\<lparr>user := x\<rparr>) = IsGotId k" "ip_number (k\<lparr>user := x\<rparr>) = ip_number k"
  "IsFlined (k\<lparr>user := x\<rparr>) = IsFlined k" "servptr_of (k\<lparr>info := y\<rparr>) = servptr_of k" "IsUnknown (k\<lparr>info := y\<rparr>) = IsUnknown k"
  "MyConnect (k\<lparr>info := y\<rparr>) = MyConnect k" "IsAnOper (k\<lparr>info := y\<rparr>) = IsAnOper k" "IsServer (k\<lparr>info := y\<rparr>) = IsServer k"
  "IsMe (k\<lparr>info := y\<rparr>) = IsMe k" "IsGotId (k\<lparr>info := y\<rparr>) = IsGotId k" "ip_number (k\<lparr>info := y\<rparr>) = ip_number k"
  "IsFlined (k\<lparr>info := y\<rparr>) = IsFlined k"
  by (simp_all add: servptr_of_def from_of_def IsUnknown_def MyConnect_def IsAnOper_def IsServer_def IsMe_def IsGotId_def ip_number_def
      IsFlined_def)

lemma welcome_user:
  "welcome_here c a usr (upd_cl c (\<lambda>k. k\<lparr>user := x\<rparr>) w) = welcome_here c a usr w"
  "welcome_here c a usr (upd_cl c (\<lambda>k. k\<lparr>info := y\<rparr>) w) = welcome_here c a usr w"
proof -
  have "conf_class (upd_cl c f w) b = conf_class w b" for f b by (simp add: conf_class_def split: option.split)
  note same = user_simps ConfLinks_def ConfMaxLinks_def ConfConFreq_def this
  show "welcome_here c a usr (upd_cl c (\<lambda>k. k\<lparr>user := x\<rparr>) w) = welcome_here c a usr w"
    "welcome_here c a usr (upd_cl c (\<lambda>k. k\<lparr>info := y\<rparr>) w) = welcome_here c a usr w"
    by (simp_all add: welcome_here_def access_user_def given_name_def server_full_def same)
qed

text \<open>A connection that has given its nick and waits for USER.\<close>

definition awaits_user :: "cid \<Rightarrow> world \<Rightarrow> bool" where
  "awaits_user c w \<longleftrightarrow> c \<in> living w \<and> c \<noteq> me w \<and> IsUnknown (cl w c) \<and> MyConnect (cl w c) \<and> servptr_of (cl w c) = None \<and>
     \<not> IsAnOper (cl w c) \<and> user (cl w c) = None \<and> name (cl w c) \<noteq> []"

definition with_user :: "cid \<Rightarrow> cstr \<Rightarrow> world \<Rightarrow> world" where
  "with_user c real w =
     upd_cl c (\<lambda>k. k\<lparr>info := take REALLEN real\<rparr>)
       (upd_cl c (\<lambda>k. k\<lparr>user := Some (fresh_anuser\<lparr>u_server := name (cl w (me w))\<rparr>)\<rparr>) w)"

lemma m_user_registers:
  assumes "awaits_user c w" "usr \<noteq> []" "hst \<noteq> []" "srv \<noteq> []" "real \<noteq> []" "CHR ''@'' \<notin> set usr"
  shows "m_user c c [p0, usr, hst, srv, real] w = register_user c c (name (cl w c)) usr (with_user c real w)"
proof -
  have cut: "takeWhile (\<lambda>c. c \<noteq> CHR ''@'') usr = usr" using assms(6) by (subst takeWhile_eq_all_conv) auto
  have k: "MyConnect ((cl w c)\<lparr>user := x\<rparr>)" "IsUnknown ((cl w c)\<lparr>user := x\<rparr>)" for x
    using assms(1) by (simp_all add: awaits_user_def MyConnect_def IsUnknown_def)
  have "m_user c c [p0, usr, hst, srv, real] w = do_user p0 c c usr hst srv real w"
    using assms(2-5) by (simp add: m_user_def Let_def cut or_default_def par_def BadPtr_def)
  also have "\<dots> = register_user c c (name (cl w c)) usr (with_user c real w)"
    using assms(1) k unfolding do_user_def awaits_user_def Let_def by (simp add: make_user_def with_user_def)
  finally show ?thesis .
qed

lemma with_user_fields:
  assumes "c \<noteq> me w"
  shows "me (with_user c real w) = me w" "living (with_user c real w) = living w" "cl (with_user c real w) (me w) = cl w (me w)"
    "cl (with_user c real w) c = (cl w c)\<lparr>user := Some (fresh_anuser\<lparr>u_server := name (cl w (me w))\<rparr>), info := take REALLEN real\<rparr>"
  using assms by (simp_all add: with_user_def)

lemma with_user_find: "find_server (with_user c real w) nm = find_server w nm"
proof -
  have "name (cl (with_user c real w) x) = name (cl w x)" "IsServer (cl (with_user c real w) x) = IsServer (cl w x)"
    "IsMe (cl (with_user c real w) x) = IsMe (cl w x)" for x
    by (simp_all add: with_user_def IsServer_def IsMe_def)
  then show ?thesis by (intro find_server_same) (simp_all add: with_user_def)
qed

lemma with_user_ready:
  assumes "net_inv {} w" "awaits_user c w" "welcome_here c a usr w"
  shows "net_inv {} (with_user c real w)" "may_enter c (with_user c real w)" "welcome_here c a usr (with_user c real w)"
proof -
  let ?u = "fresh_anuser\<lparr>u_server := name (cl w (me w))\<rparr>"
  note g = assms(2) [unfolded awaits_user_def]
  have "net_inv {} (upd_cl c (\<lambda>k. k\<lparr>user := Some ?u\<rparr>) w)"
    by (rule net_user) (use assms(1) g in \<open>simp_all add: fresh_anuser_def\<close>)
  then show "net_inv {} (with_user c real w)"
    by (rule still_net [rotated]) (simp only: with_user_def, rule still_upd, simp)
  show "may_enter c (with_user c real w)"
    using g by (simp add: may_enter_def with_user_fields user_simps)
  show "welcome_here c a usr (with_user c real w)"
    unfolding with_user_def welcome_user by (rule assms(3))
qed

text \<open>C6 (who is entitled gets in).
  A local connection that has given its nick and now sends USER with its four parameters is registered
  when an ordinary I-line with room answers for it, its host and user names are legal and the server is not
  full: \<open>m_user\<close> returns 0 and the client is a user of this server in a consistent network.\<close>

theorem entitled_enters:
  assumes "net_inv {} w" "awaits_user c w" "find_server w (name (cl w (me w))) = Some (me w)" "welcome_here c a usr w"
    "usr \<noteq> []" "hst \<noteq> []" "srv \<noteq> []" "real \<noteq> []" "CHR ''@'' \<notin> set usr"
  shows "\<exists>w'. m_user c c [p0, usr, hst, srv, real] w = Some (0, w') \<and> net_inv {} w' \<and> IsPerson (cl w' c) \<and> hangs w' c (me w')"
proof -
  let ?v = "with_user c real w"
  note r = with_user_ready [OF assms(1,2,4), of real]
  have c: "c \<noteq> me w" using assms(2) by (simp add: awaits_user_def)
  have s: "map_option u_server (user (cl ?v c)) = Some (name (cl ?v (me ?v)))" "find_server ?v (name (cl ?v (me ?v))) = Some (me ?v)"
    using assms(3) by (simp_all add: with_user_fields [OF c] with_user_find)
  obtain w' where w': "register_user c c (name (cl w c)) usr ?v = Some (0, w')" using let_in [OF r(1,2) s r(3)] by blast
  then have "m_user c c [p0, usr, hst, srv, real] w = Some (0, w')" using m_user_registers [OF assms(2,5-9)] by simp
  then show ?thesis using register_net [OF r(1,2) s w'] by (auto simp: CLIENT_EXITED_def)
qed

lemma dave_rest:
  "mtrie (dave_net a) = (\<lambda>_ _ _. a)" "temporary_klines (dave_net a) = []" "temporary_ip_klines (dave_net a) = []"
  "cf (dave_net a) 7 = zero_conf\<lparr>ci_status := CONF_CLIENT\<rparr>" "classes (dave_net a) k = zero_class" "x_conf (dave_net a) = []"
  "iptab (dave_net a) = clear_ip_hash_table 100" "maxclients (dave_net a) = 180" "count_local (dave_net a) = 3"
  by (simp_all add: dave_net_def Let_def)

lemma dave_welcome: "welcome_here 16 7 ''dave'' (dave_net (Some 7))"
proof -
  have "add_one_ip n (clear_ip_hash_table 100) \<noteq> None" for n by (simp add: add_one_ip_None) (simp add: clear_ip_hash_table_def)
  then have "\<exists>t. add_one_ip n (clear_ip_hash_table 100) = Some t \<and> ip_users t n \<le> 600" for n
    using add_one_ip_users [of n "clear_ip_hash_table 100"] by (force simp: ip_users_clear)
  moreover have "valid_hostname ''dave.example.org''" by (simp add: valid_hostname_def Let_def) code_simp
  moreover have "given_name dave ''dave'' = ''~dave''"
    by (simp add: given_name_def dave_def zero_client_def IsGotId_def has_flag_def tilde_name_def USERLEN_def)
  moreover have "valid_username ''~dave''" by code_simp
  ultimately show ?thesis
    unfolding welcome_here_def dave_rest dave_fields
    by (simp add: zero_conf_def zero_class_def ConfLinks_def ConfMaxLinks_def ConfConFreq_def conf_class_def dave_rest server_full_def MAX_BUFFER_def)
      (simp add: dave_def zero_client_def)
qed

text \<open>The same connection before USER.\<close>

definition new_net :: "confid option \<Rightarrow> world" where
  "new_net iline = upd_cl 16 (\<lambda>k. k\<lparr>user := None\<rparr>) (dave_net iline)"

lemma new_net_ok: "net_inv {} (new_net iline)"
proof -
  let ?w = "demo_net\<lparr>client_tab := add_to_client_hash_table ''irc.example.net'' 0 (client_tab demo0)\<rparr>"
  let ?k = "dave\<lparr>user := None\<rparr>"
  have "nicks_ok ?w" unfolding nicks_ok_def
    by (intro exI [of _ "{0, 15, 14, 13, 12, 11}"]) (use dave_table in simp)
  then have w: "net_inv {} ?w" by (rule net_tab [OF demo_net_ok])
  have k: "IsUnknown ?k" "MyConnect ?k" "servptr_of ?k = None" "from_of ?k = Some 16" "u_chans ?k = []" "u_invs ?k = []"
    "fd ?k = -1" "\<not> IsAnOper ?k" "cl_serv ?k = None"
    using dave_kind by (simp_all add: user_simps no_user_sides)
  have "net_inv {} (?w\<lparr>clients := (clients ?w)(16 := ?k), client_list := 16 # client_list ?w\<rparr>)"
    by (rule net_connect [OF w _ k(1-6) _ k(7-9)]) simp_all
  then show ?thesis
    by (rule still_net [rotated]) (simp add: new_net_def dave_net_def still_def)
qed

lemma new_net_fields:
  "cl (new_net a) 16 = dave\<lparr>user := None\<rparr>" "me (new_net a) = 0" "cl (new_net a) 0 = cl (dave_net a) 0"
  "living (new_net a) = {16, 15, 14, 13, 12, 11, 0}"
  by (simp_all add: new_net_def dave_fields)

lemma new_waits: "awaits_user 16 (new_net a)"
  using dave_kind unfolding awaits_user_def new_net_fields
  by (simp add: user_simps) (simp add: dave_def)

lemma new_finds: "find_server (new_net a) (name (cl (new_net a) (me (new_net a)))) = Some (me (new_net a))"
proof -
  have "find_server (new_net a) nm = find_server (dave_net a) nm" for nm
    by (rule find_server_same) (simp_all add: new_net_def IsServer_def IsMe_def)
  then show ?thesis using dave_finds by (simp add: new_net_fields dave_fields)
qed

lemma new_welcome: "welcome_here 16 7 ''dave'' (new_net (Some 7))"
  unfolding new_net_def welcome_user by (rule dave_welcome)

theorem entitled_enters_witness:
  "\<exists>w'. m_user 16 16 [''dave'', ''dave'', ''host'', ''server'', ''Dave''] (new_net (Some 7)) = Some (0, w') \<and> net_inv {} w' \<and>
    IsPerson (cl w' 16) \<and> hangs w' 16 (me w')"
  by (rule entitled_enters [OF new_net_ok new_waits new_finds new_welcome]) simp_all

theorem register_local_net_witness:
  "\<exists>w'. register_user 16 16 ''dave'' ''dave'' (dave_net (Some 7)) = Some (0, w') \<and> net_inv {} w' \<and> count_total w' = count_total (dave_net (Some 7)) + 1"
proof -
  have "map_option u_server (user (cl (dave_net (Some 7)) 16)) = Some (name (cl (dave_net (Some 7)) (me (dave_net (Some 7)))))" by (rule dave_server)
  note r = register_local_net [OF dave_net_ok dave_enters this dave_finds]
  obtain w' where w': "register_user 16 16 ''dave'' ''dave'' (dave_net (Some 7)) = Some (0, w')"
    using let_in [OF dave_net_ok dave_enters dave_server dave_finds dave_welcome] by blast
  then show ?thesis using r [OF w'] by (auto simp: CLIENT_EXITED_def)
qed

end
