(* ===== verification/NickSpec.thy ===== *)
theory NickSpec
  imports RegisterProps
begin

text \<open>
  What NICK does to the network: a change of nick by a local user, and who survives a collision.
\<close>

section \<open>A new name\<close>

lemma renamed_kinds:
  "IsServer (k\<lparr>name := n\<rparr>) = IsServer k" "IsMe (k\<lparr>name := n\<rparr>) = IsMe k" "IsClient (k\<lparr>name := n\<rparr>) = IsClient k"
  "IsAnOper (k\<lparr>name := n\<rparr>) = IsAnOper k" "IsInvisible (k\<lparr>name := n\<rparr>) = IsInvisible k" "IsPerson (k\<lparr>name := n\<rparr>) = IsPerson k"
  "MyConnect (k\<lparr>name := n\<rparr>) = MyConnect k" "servptr_of (k\<lparr>name := n\<rparr>) = servptr_of k" "from_of (k\<lparr>name := n\<rparr>) = from_of k"
  "fd (k\<lparr>name := n\<rparr>) = fd k" "u_chans (k\<lparr>name := n\<rparr>) = u_chans k" "u_invs (k\<lparr>name := n\<rparr>) = u_invs k"
  by (simp_all add: IsServer_def IsMe_def IsClient_def IsAnOper_def IsInvisible_def IsPerson_def MyConnect_def servptr_of_def from_of_def
      u_chans_def u_invs_def)

lemma net_rename:
  fixes w :: world and c :: cid and t h nick X
  assumes "net_inv X w" "nick \<noteq> []"
  defines "v \<equiv> w\<lparr>clients := (clients w)(c := (cl w c)\<lparr>name := nick\<rparr>), client_tab := t, history := h\<rparr>"
  assumes "nicks_ok v" "past_ok v"
  shows "net_inv X v"
proof -
  have inv: "roots_ok w" "links_ok w" "servs_ok w" "froms_ok w" "people_ok w" "locals_ok X w" "totals_ok w" "chan_inv w"
    using assms(1) by (simp_all add: net_inv_def)
  have k: "f (cl v d) = f (cl w d)" if "\<And>k n. f (k\<lparr>name := n\<rparr>) = f k" for f :: "client \<Rightarrow> 'a" and d
    using that by (simp add: v_def)
  note kinds = k [of IsServer, OF renamed_kinds(1)] k [of IsMe, OF renamed_kinds(2)] k [of IsClient, OF renamed_kinds(3)]
    k [of IsAnOper, OF renamed_kinds(4)] k [of IsInvisible, OF renamed_kinds(5)] k [of IsPerson, OF renamed_kinds(6)]
    k [of MyConnect, OF renamed_kinds(7)]
  have k2: "servptr_of (cl v d) = servptr_of (cl w d)" "from_of (cl v d) = from_of (cl w d)" "fd (cl v d) = fd (cl w d)"
    "u_chans (cl v d) = u_chans (cl w d)" "u_invs (cl v d) = u_invs (cl w d)" "user (cl v d) = user (cl w d)" "cl_serv (cl v d) = cl_serv (cl w d)" for d
    by (simp_all add: v_def renamed_kinds(8-12))
  have m: "client_list v = client_list w" "me v = me w" by (simp_all add: v_def)
  have l: "serv_list v = serv_list w" "oper_list v = oper_list w" "local_list v = local_list w" "local_conns v = local_conns w"
    "count_local v = count_local w" "count_myserver v = count_myserver w" "count_server v = count_server w" "count_total v = count_total w"
    "count_oper v = count_oper w" "count_invisi v = count_invisi w" by (simp_all add: v_def)
  have h: "hangs v = hangs w" by (simp add: hangs_def fun_eq_iff m k2)
  have ls: "local_set X v IsServer = local_set X w IsServer" "local_set X v IsAnOper = local_set X w IsAnOper"
    "local_set X v IsPerson = local_set X w IsPerson" "local_set X v IsClient = local_set X w IsClient"
    "local_set X v (\<lambda>k. fd k > -1) = local_set X w (\<lambda>k. fd k > -1)"
    by (simp_all add: local_set_def m kinds k2)
  have "roots_ok v" using inv(1) unfolding roots_ok_def m kinds k2 .
  moreover have "links_ok v" using inv(2) unfolding links_ok_def m kinds h .
  moreover have "servs_ok v" using inv(3) unfolding servs_ok_def sv_holds_def m kinds h k2 .
  moreover have "froms_ok v" using inv(4) unfolding froms_ok_def m h k2 .
  moreover have "people_ok v" using inv(5) assms(2) unfolding people_ok_def m kinds k2 by (simp add: v_def)
  moreover have "locals_ok X v" using inv(6) unfolding locals_ok_def ls l .
  moreover have "totals_ok v" using inv(7) unfolding totals_ok_def Let_def m kinds l .
  moreover have "chan_inv v"
    by (rule chan_inv_cong [OF k2(4,5) _ _ _ _ _ _ _ _ _ _ inv(8)]) (use chan_inv_joined [OF inv(8)] k2(6) in \<open>simp_all add: v_def\<close>)
  ultimately show ?thesis using assms(4,5) by (simp add: net_inv_def)
qed

text \<open>\<open>held w c\<close>: the client is in the table under its name, and the table is sound.\<close>

definition named :: "cid set \<Rightarrow> world \<Rightarrow> bool" where
  "named S w \<longleftrightarrow> S \<subseteq> living w \<and> tab_ok hash_nick_name (\<lambda>c. name (cl w c)) S (client_tab w) \<and> names_ok (\<lambda>c. name (cl w c)) S"

lemma named_find: "named S w \<Longrightarrow> cstring nm \<Longrightarrow> find_client w nm None = Some c \<longleftrightarrow> c \<in> S \<and> same_name nm (name (cl w c))"
  using nick.find_Some [of "\<lambda>c. name (cl w c)" S "client_tab w" nm c]
  by (auto simp: named_def find_client_def hash_find_client_def split: option.splits)

lemma named_set_nick:
  assumes "named S w" "c \<in> S" "name (cl w c) \<noteq> []" "cstring nick" "find_client w nick None \<in> {None, Some c}"
  shows "named S (set_nick c nick w)"
proof -
  let ?nm = "\<lambda>d. name (cl w d)"
  let ?n' = "\<lambda>d. name (cl (set_nick c nick w) d)"
  have ok: "tab_ok hash_nick_name ?nm S (client_tab w)" "names_ok ?nm S" "S \<subseteq> living w" using assms(1) by (simp_all add: named_def)
  have n: "?n' d = (if d = c then nick else ?nm d)" for d by (simp add: set_nick_def Let_def)
  let ?t = "del_from_client_hash_table (name (cl w c)) c (client_tab w)"
  have "tab_ok hash_nick_name ?nm (S - {c}) ?t" using nick.ok_del [OF ok(1) assms(2)] by (simp add: del_from_client_hash_table_def)
  then have "tab_ok hash_nick_name ?n' (S - {c}) ?t" using nick.ok_cong [of "S - {c}" ?nm ?n'] n by simp
  then have "tab_ok hash_nick_name ?n' (insert c (S - {c})) (tab_add hash_nick_name (?n' c) c ?t)" by (rule nick.ok_add) simp
  moreover have "insert c (S - {c}) = S" using assms(2) by blast
  moreover have "client_tab (set_nick c nick w) = tab_add hash_nick_name (?n' c) c ?t"
    using assms(3) by (simp add: set_nick_def Let_def add_to_client_hash_table_def)
  ultimately have t: "tab_ok hash_nick_name ?n' S (client_tab (set_nick c nick w))" by simp
  have free: "\<not> same_name nick (?nm x)" if "x \<in> S" "x \<noteq> c" for x
    using named_find [OF assms(1,4), of x] that assms(5) by auto
  have "names_ok ?n' S"
    using ok(2) assms(4) free same_name_sym unfolding names_ok_def n by (auto split: if_splits)
  then show ?thesis using t ok(3) by (simp add: named_def) (simp add: set_nick_def Let_def)
qed

section \<open>A local user changes the nick\<close>

lemma online_added:
  "ww_online (WHOWAS (add_history t db c src True) i) = Some d \<Longrightarrow> d = c \<or> ww_online (WHOWAS db i) = Some d"
proof -
  have "WHOWAS (unthread db j) = WHOWAS db" for j by (simp add: unthread_def Let_def split: option.split)
  then show "ww_online (WHOWAS (add_history t db c src True) i) = Some d \<Longrightarrow> d = c \<or> ww_online (WHOWAS db i) = Some d"
    by (simp add: add_history_def Let_def split: if_splits)
qed

definition nick_count :: "world \<Rightarrow> cid \<Rightarrow> int" where
  "nick_count w c = (if nick_changed_at (cl w c) + MAX_NICK_TIME < now w then 0 else nick_changes (cl w c)) + 1"

lemma history_form:
  assumes "user (cl w c) \<noteq> None"
  shows "\<exists>os. nick_history cptr c p0 nick (log_out o1 w) = log_out os (w\<lparr>history := add_history (now w) (history w) c (whowas_of (cl w c)) True\<rparr>)"
proof -
  have "(log_out os w)\<lparr>history := h\<rparr> = log_out os (w\<lparr>history := h\<rparr>)" for os h by (simp add: log_out_def)
  then show ?thesis
    using assms unfolding nick_history_def Let_def sendto_common_channels_def sendto_serv_butone_def log_out_log_out log_out_simps
    by (simp only: if_False log_out_log_out) blast
qed

lemma change_refused:
  assumes "MyConnect (cl w c)" "IsClient (cl w c)" "nick_count w c > MAX_NICK_CHANGES"
  shows "\<exists>v. change_nick cptr c p0 ts nick w = (False, v) \<and> still v = still w"
proof -
  define w1 where "w1 = (if irccmp p0 nick \<noteq> 0 then upd_cl c (\<lambda>k. k\<lparr>tsinfo := (if ts \<noteq> 0 then ts else now w)\<rparr>) w else w)"
  have 1: "still w1 = still w" unfolding w1_def by (simp only: still_simps) (simp add: still_clients)
  have k: "MyConnect (cl w1 c)" "IsRegisteredUser (cl w1 c)" "nick_changed_at (cl w1 c) = nick_changed_at (cl w c)"
    "nick_changes (cl w1 c) = nick_changes (cl w c)" "now w1 = now w"
    using assms(1,2) by (simp_all add: w1_def MyConnect_def IsRegisteredUser_def IsClient_def)
  have b: "still (upd_cl c (\<lambda>k. k\<lparr>nick_changed_at := a, nick_changes := n\<rparr>) w1) = still w" for a n using 1 by (simp add: still_clients)
  show ?thesis
    unfolding change_nick_def Let_def w1_def [symmetric] using assms(3)
    by (simp only: k simp_thms if_True nick_count_def [symmetric]) (simp add: still_simps b [simplified])
qed

lemma change_done:
  assumes "MyConnect (cl w c)" "IsClient (cl w c)" "user (cl w c) \<noteq> None" "nick_count w c \<le> MAX_NICK_CHANGES"
  shows "\<exists>v. change_nick cptr c p0 ts nick w = (True, v) \<and>
    history v = add_history (now w) (history w) c (whowas_of (cl w c)) True \<and> still (v\<lparr>history := history w\<rparr>) = still w"
proof -
  define w1 where "w1 = (if irccmp p0 nick \<noteq> 0 then upd_cl c (\<lambda>k. k\<lparr>tsinfo := (if ts \<noteq> 0 then ts else now w)\<rparr>) w else w)"
  define w2 where "w2 = upd_cl c (\<lambda>k. k\<lparr>nick_changed_at := now w1, nick_changes := nick_count w c\<rparr>) w1"
  have 1: "still w1 = still w" unfolding w1_def by (simp only: still_simps) (simp add: still_clients)
  have k: "MyConnect (cl w1 c)" "IsRegisteredUser (cl w1 c)" "nick_changed_at (cl w1 c) = nick_changed_at (cl w c)"
    "nick_changes (cl w1 c) = nick_changes (cl w c)" "now w1 = now w"
    using assms(1,2) by (simp_all add: w1_def MyConnect_def IsRegisteredUser_def IsClient_def)
  have 2: "still w2 = still w" using 1 by (simp add: w2_def still_clients)
  have f: "user (cl w2 c) = user (cl w c)" "whowas_of (cl w2 c) = whowas_of (cl w c)" "history w2 = history w" "now w2 = now w"
    by (simp_all add: w2_def w1_def whowas_of_def)
  obtain os where os: "nick_history cptr c p0 nick (sendto_realops_flags FLAGS_NCHANGE (Fmt ''Nick change: From %s to %s [%s@%s]'')
        [Str p0, Str nick, Str (username (cl w1 c)), Str (host (cl w1 c))] w2) =
      log_out os (w2\<lparr>history := add_history (now w) (history w) c (whowas_of (cl w c)) True\<rparr>)"
    using history_form [of w2 c] assms(3) unfolding sendto_realops_flags_def f by blast
  let ?v = "log_out os (w2\<lparr>history := add_history (now w) (history w) c (whowas_of (cl w c)) True\<rparr>)"
  have "change_nick cptr c p0 ts nick w = (True, ?v)"
    unfolding change_nick_def Let_def w1_def [symmetric] using assms(4)
    by (simp only: k simp_thms if_True nick_count_def [symmetric] w2_def [unfolded k(5), symmetric] os)
  moreover have "?v\<lparr>history := history w\<rparr> = log_out os (w2\<lparr>history := history w2\<rparr>)" by (simp add: log_out_def f)
  then have "still (?v\<lparr>history := history w\<rparr>) = still w" by (simp add: still_simps 2)
  moreover have "history ?v = add_history (now w) (history w) c (whowas_of (cl w c)) True" by simp
  ultimately show ?thesis by blast
qed

lemma still_named:
  assumes s: "still v = still w"
  shows "named S v = named S w"
  unfolding named_def still_fields(2,4) [OF s] core_fields(1) [OF bones_fields(1) [OF still_fields(1) [OF s]]] ..

text \<open>The whole change, when the nick is free.\<close>

lemma done_change:
  assumes "net_inv {} w" "named S w" "c \<in> S" "IsPerson (cl w c)" "MyConnect (cl w c)" "name (cl w c) \<noteq> []" "cstring nick" "nick \<noteq> []"
    "find_client w nick None \<in> {None, Some c}"
  shows "\<exists>w'. nickkilldone c c [p0, nick] 0 nick w = Some (0, w') \<and> net_inv {} w' \<and> named S w' \<and>
    name (cl w' c) = (if nick_count w c \<le> MAX_NICK_CHANGES then nick else name (cl w c)) \<and> (\<forall>d. d \<noteq> c \<longrightarrow> name (cl w' d) = name (cl w d))"
proof -
  have p: "IsClient (cl w c)" "user (cl w c) \<noteq> None" "\<not> IsServer (cl w c)" using assms(4)
    by (auto simp: IsPerson_def IsClient_def IsServer_def STAT_CLIENT_def STAT_SERVER_def)
  show ?thesis
  proof (cases "nick_count w c \<le> MAX_NICK_CHANGES")
    case False
    then obtain v where v: "change_nick c c p0 0 nick w = (False, v)" "still v = still w" using change_refused [OF assms(5) p(1)] by force
    then have "nickkilldone c c [p0, nick] 0 nick w = Some (0, v)" using p(3) assms(6) by (simp add: nickkilldone_def)
    then show ?thesis using still_net [OF v(2) assms(1)] still_named [OF v(2)] assms(2) False
        core_fields(1) [OF bones_fields(1) [OF still_fields(1) [OF v(2)]]] by auto
  next
    case True
    then obtain v where v: "change_nick c c p0 0 nick w = (True, v)" "still (v\<lparr>history := history w\<rparr>) = still w"
        "history v = add_history (now w) (history w) c (whowas_of (cl w c)) True"
      using change_done [OF assms(5) p(1,2)] by blast
    let ?v = "v\<lparr>history := history w\<rparr>" and ?w' = "set_nick c nick v"
    have e: "nickkilldone c c [p0, nick] 0 nick w = Some (0, ?w')" using p(3) assms(6) v(1) by (simp add: nickkilldone_def)
    have nm: "name (cl v d) = name (cl w d)" for d using core_fields(1) [OF bones_fields(1) [OF still_fields(1) [OF v(2)]], of d] by simp
    have nv: "named S v" using still_named [OF v(2)] assms(2) by (simp add: named_def)
    have "find_client v nick None = find_client w nick None" using still_fields(4) [OF v(2)] by (simp add: find_client_def nm)
    then have n': "named S ?w'" using assms(6-9) by (intro named_set_nick [OF nv assms(3)]) (simp_all add: nm)
    have per: "IsPerson (cl v d) = IsPerson (cl w d)" for d using core_fields(10) [OF bones_fields(1) [OF still_fields(1) [OF v(2)]], of d] by simp
    have li: "living v = living w" using still_fields(2) [OF v(2)] by simp
    have past: "past_ok w" using assms(1) by (simp add: net_inv_def)
    have c: "c \<in> living w" using assms(2,3) by (auto simp: named_def)
    have "past_ok ?w'"
      unfolding past_ok_def
    proof (intro conjI allI impI)
      show "whowas_ok (history ?w')" using past whowas_ok_add by (simp add: past_ok_def set_nick_def Let_def v(3))
      fix i d assume "ww_online (WHOWAS (history ?w') i) = Some d"
      then have "d = c \<or> ww_online (WHOWAS (history w) i) = Some d" using online_added by (simp add: set_nick_def Let_def v(3))
      then have dw: "d \<in> living w" "IsPerson (cl w d)" using past c assms(4) by (auto simp: past_ok_def)
      show "d \<in> living ?w'" using dw(1) li by (simp add: set_nick_def Let_def)
      have "cl ?w' d = (if d = c then (cl v c)\<lparr>name := nick\<rparr> else cl v d)" by (simp add: set_nick_def Let_def)
      moreover have "IsPerson ((cl v c)\<lparr>name := nick\<rparr>) = IsPerson (cl v c)" by (simp add: renamed_kinds)
      ultimately show "IsPerson (cl ?w' d)" using dw(2) assms(4) per by simp
    qed
    moreover have "nicks_ok ?w'" using n' unfolding nicks_ok_def named_def by blast
    moreover have "?w' = ?v\<lparr>clients := (clients ?v)(c := (cl ?v c)\<lparr>name := nick\<rparr>), client_tab := client_tab ?w', history := history v\<rparr>"
      by (simp add: set_nick_def Let_def)
    ultimately have "net_inv {} ?w'"
      using net_rename [OF still_net [OF v(2) assms(1)] assms(8), where c = c and t = "client_tab ?w'" and h = "history v"] by simp
    then show ?thesis using e n' True nm by (auto simp: set_nick_def Let_def)
  qed
qed

text \<open>C13 (a local user changes the nick).
  When a local user asks for a legal nick that nobody else has and that is no server's name, \<open>m_nick\<close>
  returns 0 and keeps the network consistent.  Within the limit of changes the user then answers to the
  new nick in any spelling, the old one is free, and all others keep theirs; beyond the limit every name
  stays as it is.\<close>

theorem local_nick_change:
  assumes "net_inv {} w" "named S w" "c \<in> S" "IsPerson (cl w c)" "MyConnect (cl w c)" "name (cl w c) \<noteq> []" "cstring nick" "nick \<noteq> []"
    "clean_nick_name (take NICKLEN nick) = (length nick, nick)" "CHR ''~'' \<notin> set nick" "nick \<noteq> name (cl w c)"
    "find_server w nick = None" "find_client w nick None \<in> {None, Some c}" "\<not> find_q_line w nick (username (cl w c)) (host (cl w c))"
  shows "\<exists>w'. m_nick c c [p0, nick] w = Some (0, w') \<and> net_inv {} w' \<and>
    (if nick_count w c \<le> MAX_NICK_CHANGES
     then (\<forall>nm d. cstring nm \<longrightarrow> find_client w' nm None = Some d \<longleftrightarrow>
             (if d = c then same_name nm nick else find_client w nm None = Some d))
     else (\<forall>nm. cstring nm \<longrightarrow> find_client w' nm None = find_client w nm None))"
proof -
  have s: "\<not> IsServer (cl w c)" using assms(4) by (simp add: IsPerson_def IsClient_def IsServer_def STAT_CLIENT_def STAT_SERVER_def)
  obtain w' where k: "nickkilldone c c [p0, nick] 0 nick w = Some (0, w')" "net_inv {} w'" "named S w'"
      "name (cl w' c) = (if nick_count w c \<le> MAX_NICK_CHANGES then nick else name (cl w c))" "\<And>d. d \<noteq> c \<Longrightarrow> name (cl w' d) = name (cl w d)"
    using done_change [OF assms(1-8,13), of p0] by blast
  have cut: "takeWhile (\<lambda>c. c \<noteq> CHR ''~'') nick = nick" using assms(10) by (subst takeWhile_eq_all_conv) auto
  have "nick_to_check c c [p0, nick] 0 w = nickkilldone c c [p0, nick] 0 nick w"
  proof -
    have len: "length nick \<noteq> 0" using assms(8) by simp
    have "nick_taken c c c [p0, nick] 0 nick w = nickkilldone c c [p0, nick] 0 nick w"
      unfolding nick_taken_def Let_def using assms(11) by simp
    then have "(case find_client w nick None of None \<Rightarrow> nickkilldone c c [p0, nick] 0 nick w
        | Some a \<Rightarrow> nick_taken c c a [p0, nick] 0 nick w) = nickkilldone c c [p0, nick] 0 nick w"
      using assms(13) by (auto split: option.split)
    moreover have "[p0, nick][1 := takeWhile (\<lambda>c. c \<noteq> CHR ''~'') ([p0, nick] ! 1)] = [p0, nick]" "[p0, nick] ! 1 = nick"
      using cut by simp_all
    ultimately show ?thesis
      unfolding nick_to_check_def Let_def
      by (simp only: assms(5,9,12,14) s len if_True if_False prod.case option.case simp_thms)
  qed
  then have "m_nick c c [p0, nick] w = Some (0, w')" using s k(1) by (simp add: m_nick_def nick_params_def)
  moreover have f: "find_client w' nm None = Some d \<longleftrightarrow> d \<in> S \<and> same_name nm (name (cl w' d))" if "cstring nm" for nm d
    by (rule named_find [OF k(3) that])
  moreover have g: "find_client w nm None = Some d \<longleftrightarrow> d \<in> S \<and> same_name nm (name (cl w d))" if "cstring nm" for nm d
    by (rule named_find [OF assms(2) that])
  moreover have "find_client w' nm None = find_client w nm None" if "\<not> nick_count w c \<le> MAX_NICK_CHANGES" "cstring nm" for nm
  proof -
    have "name (cl w' d) = name (cl w d)" for d using k(4,5) that(1) by (cases "d = c") auto
    then have "(find_client w' nm None = Some d) = (find_client w nm None = Some d)" for d using f [OF that(2)] g [OF that(2)] by simp
    then show ?thesis by (metis option.exhaust)
  qed
  ultimately show ?thesis using k(2,4,5) assms(3) by (intro exI [of _ w'] conjI) simp_all
qed

lemma al_free: "find_client demo_net ''al'' None = None" "find_server demo_net ''al'' = None"
proof -
  let ?S = "{15, 14, 13, 12, 11::cid}"
  have ok: "tab_ok hash_nick_name (\<lambda>c. name (cl demo_net c)) ?S (client_tab demo_net)" "names_ok (\<lambda>c. name (cl demo_net c)) ?S"
    using demo_tab_ok demo_names_ok by (simp_all add: demo_net_name)
  have no: "\<not> same_name ''al'' (name (cl demo_net d))" if "d \<in> ?S" for d
    using that by (auto simp: demo_net_name demo_names dest!: same_name_length)
  then show "find_client demo_net ''al'' None = None"
    using nick.find_None [OF ok, of "''al''"] by (simp add: find_client_def hash_find_client_def)
  have "irccmp ''al'' (name (cl demo_net d)) \<noteq> 0" if "d \<in> ?S" for d
  proof -
    have "cstring (name (cl demo_net d))" using ok(2) that unfolding names_ok_def by blast
    then show ?thesis using no [OF that] by (simp add: irccmp_0_iff)
  qed
  moreover have "set (bucket (client_tab demo_net) i) \<subseteq> ?S" for i using ok(1) by (auto simp: tab_ok_def)
  ultimately have "find (\<lambda>x. P x \<and> irccmp ''al'' (name (cl demo_net x)) = 0) (bucket (client_tab demo_net) i) = None" for P i
    unfolding find_None_iff by blast
  moreover have "server_masks ''al'' = []" by (subst server_masks.simps) simp
  ultimately show "find_server demo_net ''al'' = None"
    by (simp add: find_server_def hash_find_server_def hash_find_masked_server_def HOSTLEN_def)
qed

theorem local_nick_change_witness:
  "\<exists>w'. m_nick 11 11 [''alice'', ''al''] demo_net = Some (0, w') \<and> net_inv {} w'"
proof -
  have n: "named {15, 14, 13, 12, 11} demo_net" using demo_tab_ok demo_names_ok by (auto simp: named_def demo_net_name)
  have q: "q_conf demo_net = []" by (simp add: demo_net_def demo_def add_user_to_channel_def demo1_simps demo0_cl demo1_def new_channel_def
      demo0_def boot_def upd_user_def)
  have "clean_nick_name (take NICKLEN ''al'') = (length ''al'', ''al'')" by code_simp
  then show ?thesis
    using local_nick_change [OF demo_net_ok n, of 11 "''al''" "''alice''"]
    by (simp add: demo_net_kinds demo_net_name demo_names al_free find_q_line_def q) blast
qed

end
