(* ===== verification/DlineConf.thy ===== *)
theory DlineConf
  imports Conf
begin

text \<open>
  \<open>src/dline_conf.c\<close>: the search trees over addresses that hold the D-lines with their exceptions
  and the K-lines on addresses.  The 256 trees of each table are found by the top byte of an address.
  A node has an address, a mask and a chain of items (\<open>aconf->next\<close>, a list here, its first entry
  the line itself).  The items are those of the world's configuration; a state is the record
  \<open>line_db\<close> together with the world.

  \<open>unsigned long\<close> has 32 bits.  The coins that \<open>rand\<close> flips are the field \<open>coins\<close>, the next one
  first; when the list is used up they fall on the second side.
\<close>

type_synonym ipaddr = "32 word"

datatype ip_subtree = Tip | Ip_node ipaddr ipaddr "confid list" ip_subtree ip_subtree

record line_db =
  Dline :: "nat \<Rightarrow> ip_subtree"
  ip_Kline :: "nat \<Rightarrow> ip_subtree"
  Dline_oracle :: "nat \<Rightarrow> ipaddr"
  ike_oracle :: "nat \<Rightarrow> ipaddr"
  leftover :: "confid list"
  coins :: "bool list"

definition top_byte :: "ipaddr \<Rightarrow> nat" where
  "top_byte addr = unat (drop_bit 24 addr)"

definition free_conf :: "confid \<Rightarrow> world \<Rightarrow> world" where
  "free_conf a w = upd_conf a (\<lambda>i. i\<lparr>ci_freed := True\<rparr>) w"

definition all_users :: "conf_item \<Rightarrow> bool" where
  "all_users i = (ci_user i = Some ''*'')"

section \<open>The trees\<close>

definition new_ip_subtree :: "ipaddr \<Rightarrow> ipaddr \<Rightarrow> confid list \<Rightarrow> ip_subtree \<Rightarrow> ip_subtree \<Rightarrow> ip_subtree" where
  "new_ip_subtree addr msk clist l r = Ip_node (addr AND msk) msk clist l r"

fun node_ip :: "ip_subtree \<Rightarrow> ipaddr" where
  "node_ip Tip = 0"
| "node_ip (Ip_node i m cs l r) = i"

fun insert_ip_subtree :: "ip_subtree \<Rightarrow> ip_subtree \<Rightarrow> ip_subtree" where
  "insert_ip_subtree Tip node = node"
| "insert_ip_subtree (Ip_node i m cs l r) node =
     (if i > node_ip node then Ip_node i m cs (insert_ip_subtree l node) r
      else Ip_node i m cs l (insert_ip_subtree r node))"

text \<open>The mask and the items of the node that is found.\<close>

fun find_ip_subtree :: "ip_subtree \<Rightarrow> ipaddr \<Rightarrow> (ipaddr \<times> confid list) option" where
  "find_ip_subtree Tip addr = None"
| "find_ip_subtree (Ip_node i m cs l r) addr =
     (if i = addr AND m then Some (m, cs)
      else if i > addr AND m then find_ip_subtree l addr else find_ip_subtree r addr)"

text \<open>Writing to the chain of the node that is found.\<close>

fun set_node_conf :: "(confid list \<Rightarrow> confid list) \<Rightarrow> ip_subtree \<Rightarrow> ipaddr \<Rightarrow> ip_subtree" where
  "set_node_conf f Tip addr = Tip"
| "set_node_conf f (Ip_node i m cs l r) addr =
     (if i = addr AND m then Ip_node i m (f cs) l r
      else if i > addr AND m then Ip_node i m cs (set_node_conf f l addr) r
      else Ip_node i m cs l (set_node_conf f r addr))"

text \<open>
  A node with two children is replaced by the inorder predecessor or successor: the node at the
  end of the inner spine, with the other child hung below it.  What else is on that spine is cut off.
\<close>

fun hang_right :: "ip_subtree \<Rightarrow> ip_subtree \<Rightarrow> ip_subtree" where
  "hang_right Tip t = t"
| "hang_right (Ip_node i m cs l Tip) t = Ip_node i m cs l t"
| "hang_right (Ip_node i m cs l r) t = hang_right r t"

fun hang_left :: "ip_subtree \<Rightarrow> ip_subtree \<Rightarrow> ip_subtree" where
  "hang_left Tip t = t"
| "hang_left (Ip_node i m cs Tip r) t = Ip_node i m cs t r"
| "hang_left (Ip_node i m cs l r) t = hang_left l t"

definition drop_node :: "ip_subtree \<Rightarrow> ip_subtree \<Rightarrow> bool list \<Rightarrow> ip_subtree \<times> bool list" where
  "drop_node l r coin =
     (if l = Tip then (r, coin) else if r = Tip then (l, coin)
      else (if coin \<noteq> [] \<and> hd coin then hang_right l r else hang_left r l, tl coin))"

fun delete_ip_subtree :: "ip_subtree \<Rightarrow> ipaddr \<Rightarrow> ipaddr \<Rightarrow> confid list \<Rightarrow> bool list \<Rightarrow> ip_subtree \<times> confid list \<times> bool list" where
  "delete_ip_subtree Tip addr msk clist coin = (Tip, clist, coin)"
| "delete_ip_subtree (Ip_node i m cs l r) addr msk clist coin =
     (let (l', clist1, coin1) = delete_ip_subtree l (addr AND msk) msk clist coin;
          (r', clist2, coin2) = delete_ip_subtree r (addr AND msk) msk clist1 coin1
      in if i AND msk = addr AND msk \<and> \<not> m < msk then
           let (t, coin3) = drop_node l' r' coin2 in (t, cs @ clist2, coin3)
         else (Ip_node i m cs l' r', clist2, coin2))"

section \<open>Weeding the chains\<close>

fun trim_Dlines :: "confid list \<Rightarrow> world \<Rightarrow> confid list \<times> world" where
  "trim_Dlines [] w = ([], w)"
| "trim_Dlines (a # as) w =
     (if IsConfElined (cf w a) then (let (bs, v) = trim_Dlines as w in (a # bs, v)) else trim_Dlines as (free_conf a w))"

fun trim_ip_Klines :: "confid list \<Rightarrow> ipaddr \<Rightarrow> world \<Rightarrow> confid list \<times> world" where
  "trim_ip_Klines [] msk w = ([], w)"
| "trim_ip_Klines (a # as) msk w =
     (if IsConfElined (cf w a) then (let (bs, v) = trim_ip_Klines as msk w in (a # bs, v))
      else if ci_ip_mask (cf w a) \<ge> msk then trim_ip_Klines as msk (free_conf a w)
      else (let (bs, v) = trim_ip_Klines as msk w in (a # bs, v)))"

fun trim_ip_Elines :: "confid list \<Rightarrow> ipaddr \<Rightarrow> world \<Rightarrow> confid list \<times> world" where
  "trim_ip_Elines [] msk w = ([], w)"
| "trim_ip_Elines (a # as) msk w =
     (if ci_ip_mask (cf w a) \<ge> msk then trim_ip_Elines as msk (free_conf a w)
      else (let (bs, v) = trim_ip_Elines as msk w in (a # bs, v)))"

fun destroy_ip_subtree :: "ip_subtree \<Rightarrow> world \<Rightarrow> world" where
  "destroy_ip_subtree Tip w = w"
| "destroy_ip_subtree (Ip_node i m cs l r) w = fold free_conf cs (destroy_ip_subtree r (destroy_ip_subtree l w))"

section \<open>D-lines and their exceptions\<close>

definition covers_ip :: "conf_item \<Rightarrow> ipaddr \<Rightarrow> bool" where
  "covers_ip i addr = (ci_ip i = addr AND ci_ip_mask i)"

definition find_exception :: "ipaddr \<Rightarrow> 'a line_db_scheme \<Rightarrow> world \<Rightarrow> confid option" where
  "find_exception addr db w = find (\<lambda>a. covers_ip (cf w a) addr) (leftover db)"

text \<open>An exception goes behind the first entry of its D-line.\<close>

fun after_first :: "confid \<Rightarrow> confid list \<Rightarrow> confid list" where
  "after_first a [] = [a]"
| "after_first a (b # bs) = b # a # bs"

definition add_dline :: "confid \<Rightarrow> 'a line_db_scheme \<times> world \<Rightarrow> 'a line_db_scheme \<times> world" where
  "add_dline a = (\<lambda>(db, w).
     let host_ip = ci_ip (cf w a);
         v = upd_conf a (\<lambda>i. i\<lparr>ci_status := CONF_DLINE, ci_flags := CONF_FLAGS_E_LINED\<rparr>) w;
         h = top_byte host_ip
     in case find_ip_subtree (Dline db h) host_ip of
          None \<Rightarrow> (db\<lparr>leftover := a # leftover db\<rparr>, v)
        | Some _ \<Rightarrow> (db\<lparr>Dline := (Dline db)(h := set_node_conf (after_first a) (Dline db h) host_ip)\<rparr>, v))"

fun rescan_dlines :: "confid list \<Rightarrow> 'a line_db_scheme \<times> world \<Rightarrow> confid list \<times> 'a line_db_scheme \<times> world" where
  "rescan_dlines [] s = ([], s)"
| "rescan_dlines (a # as) s =
     (let (bs, db, w) = rescan_dlines as s; addr = ci_ip (cf w a)
      in if find_ip_subtree (Dline db (top_byte addr)) addr \<noteq> None then (bs, add_dline a (db, w)) else (a # bs, db, w))"

definition full_mask :: ipaddr where "full_mask = 0xFFFFFFFF"

definition oracle_bits :: "ipaddr \<Rightarrow> ipaddr \<Rightarrow> ipaddr" where
  "oracle_bits host_ip host_mask = (0xFFFFFFFF - host_mask) + host_ip"

definition add_Dline :: "confid \<Rightarrow> 'a line_db_scheme \<times> world \<Rightarrow> 'a line_db_scheme \<times> world" where
  "add_Dline a = (\<lambda>(db, w).
     let host_ip = ci_ip (cf w a);
         w1 = (if ci_ip_mask (cf w a) = 0 then upd_conf a (\<lambda>i. i\<lparr>ci_ip_mask := full_mask\<rparr>) w else w);
         host_mask = ci_ip_mask (cf w1 a);
         h = top_byte host_ip;
         node = find_ip_subtree (Dline db h) host_ip
     in if node \<noteq> None \<and> fst (the node) \<le> host_mask then (db, w1)
        else if find_exception host_ip db w1 \<noteq> None then (db, w1)
        else
          let db1 = db\<lparr>Dline_oracle := (Dline_oracle db)(h := Dline_oracle db h OR oracle_bits host_ip host_mask)\<rparr>;
              (t, clist, coin) = delete_ip_subtree (Dline db1 h) host_ip host_mask [] (coins db1);
              (clist1, w2) = trim_Dlines clist w1;
              t1 = insert_ip_subtree t (new_ip_subtree host_ip host_mask (a # clist1) Tip Tip);
              db2 = db1\<lparr>Dline := (Dline db1)(h := t1), coins := coin\<rparr>;
              (rest, db3, w3) = rescan_dlines (leftover db2) (db2, w2)
          in (db3\<lparr>leftover := rest\<rparr>, w3))"

definition match_Dline :: "ipaddr \<Rightarrow> 'a line_db_scheme \<Rightarrow> world \<Rightarrow> confid option" where
  "match_Dline addr db w =
     (let h = top_byte addr in
      if Dline_oracle db h AND addr \<noteq> addr then None
      else case find_ip_subtree (Dline db h) addr of
             None \<Rightarrow> None
           | Some (m, cs) \<Rightarrow>
               (case find (\<lambda>a. IsConfElined (cf w a) \<and> covers_ip (cf w a) addr) cs of
                  Some a \<Rightarrow> Some a
                | None \<Rightarrow>
                    (case cs of
                       [] \<Rightarrow> None
                     | a # _ \<Rightarrow>
                         if ci_ip (cf w a) AND ci_ip_mask (cf w a) = addr AND ci_ip_mask (cf w a) then Some a else None)))"

section \<open>K-lines on addresses\<close>

text \<open>What both kinds of lines do when a node for the address is there or not.\<close>

definition add_ip_line :: "(confid list \<Rightarrow> ipaddr \<Rightarrow> world \<Rightarrow> confid list \<times> world) \<Rightarrow> (conf_item \<Rightarrow> bool) \<Rightarrow> confid \<Rightarrow>
    'a line_db_scheme \<times> world \<Rightarrow> 'a line_db_scheme \<times> world" where
  "add_ip_line trim wins a = (\<lambda>(db, w).
     let host_ip = ci_ip (cf w a);
         host_mask = ci_ip_mask (cf w a);
         h = top_byte host_ip;
         bits = (ike_oracle db)(h := ike_oracle db h OR oracle_bits host_ip host_mask);
         db1 = db\<lparr>ike_oracle := bits\<rparr>
     in case find_ip_subtree (ip_Kline db h) host_ip of
          None \<Rightarrow>
            (let (t, clist, coin) = delete_ip_subtree (ip_Kline db h) host_ip host_mask [] (coins db);
                 (clist1, v) = (if all_users (cf w a) then trim clist 0 w else (clist, w))
             in (db1\<lparr>ip_Kline := (ip_Kline db)(h := insert_ip_subtree t (new_ip_subtree host_ip host_mask (a # clist1) Tip Tip)),
                    coins := coin\<rparr>, v))
        | Some (m, cs) \<Rightarrow>
            (if list_ex (\<lambda>b. wins (cf w b) \<and> all_users (cf w b) \<and> ci_ip_mask (cf w b) < host_mask) cs then (db, w)
             else let (cs1, v) = (if all_users (cf w a) then trim cs host_mask w else (cs, w))
                  in (db1\<lparr>ip_Kline := (ip_Kline db)(h := set_node_conf (\<lambda>_. a # cs1) (ip_Kline db h) host_ip)\<rparr>, v)))"

definition add_ip_Kline :: "confid \<Rightarrow> 'a line_db_scheme \<times> world \<Rightarrow> 'a line_db_scheme \<times> world" where
  "add_ip_Kline a = (\<lambda>(db, w).
     add_ip_line trim_ip_Klines (\<lambda>i. has_flag (ci_status i) CONF_KILL \<or> IsConfElined i) a
       (db, if ci_ip_mask (cf w a) = 0 then upd_conf a (\<lambda>i. i\<lparr>ci_ip_mask := full_mask\<rparr>) w else w))"

definition add_ip_Eline :: "confid \<Rightarrow> 'a line_db_scheme \<times> world \<Rightarrow> 'a line_db_scheme \<times> world" where
  "add_ip_Eline a = add_ip_line trim_ip_Elines IsConfElined a"

text \<open>The scan for the winner: an E-line ends it, a K-line beats I-lines, of the I-lines the first
  with the highest mask stays.  The flag says that a K-line leads.\<close>

fun ip_winner :: "ipaddr \<Rightarrow> cstr \<Rightarrow> world \<Rightarrow> confid option \<Rightarrow> bool \<Rightarrow> confid list \<Rightarrow> confid option" where
  "ip_winner addr nm w win k [] = win"
| "ip_winner addr nm w win k (a # as) =
     (let i = cf w a in
      if \<not> covers_ip i addr then ip_winner addr nm w win k as
      else if IsConfElined i \<and> match_ptr (ci_user i) nm then Some a
      else if has_flag (ci_status i) CONF_KILL \<and> match_ptr (ci_user i) nm then ip_winner addr nm w (Some a) True as
      else if has_flag (ci_status i) CONF_CLIENT \<and> match_ptr (ci_user i) nm \<and> \<not> k \<and>
              (case win of None \<Rightarrow> True | Some b \<Rightarrow> \<not> ci_ip_mask i \<le> ci_ip_mask (cf w b))
           then ip_winner addr nm w (Some a) k as
      else ip_winner addr nm w win k as)"

definition match_ip_Kline :: "ipaddr \<Rightarrow> cstr option \<Rightarrow> 'a line_db_scheme \<Rightarrow> world \<Rightarrow> confid option" where
  "match_ip_Kline addr nm db w =
     (let h = top_byte addr in
      if ike_oracle db h AND addr \<noteq> addr then None
      else case find_ip_subtree (ip_Kline db h) addr of
             None \<Rightarrow> None
           | Some (m, cs) \<Rightarrow> (case nm of None \<Rightarrow> None | Some n \<Rightarrow> ip_winner addr n w None False cs))"

section \<open>Clearing and reporting\<close>

definition clear_Dline_table :: "'a line_db_scheme \<Rightarrow> 'a line_db_scheme" where
  "clear_Dline_table db = db\<lparr>Dline_oracle := \<lambda>_. 0, ike_oracle := \<lambda>_. 0, Dline := \<lambda>_. Tip, ip_Kline := \<lambda>_. Tip, leftover := []\<rparr>"

definition zap_Dlines :: "'a line_db_scheme \<times> world \<Rightarrow> 'a line_db_scheme \<times> world" where
  "zap_Dlines = (\<lambda>(db, w).
     (clear_Dline_table db,
      fold free_conf (leftover db)
        (fold (\<lambda>h. destroy_ip_subtree (ip_Kline db h)) [0..<256] (fold (\<lambda>h. destroy_ip_subtree (Dline db h)) [0..<256] w))))"

definition printed :: "cstr option \<Rightarrow> cstr" where
  "printed p = (if BadPtr p then ''<NULL>'' else the p)"

abbreviation printable :: "cstr option \<Rightarrow> arg" where "printable p \<equiv> Str (printed p)"

definition RPL_STATSILINE :: nat where "RPL_STATSILINE = 215"
definition RPL_STATSKLINE :: nat where "RPL_STATSKLINE = 216"
definition RPL_STATSDLINE :: nat where "RPL_STATSDLINE = 225"

definition report_dline :: "cid \<Rightarrow> confid \<Rightarrow> world \<Rightarrow> world" where
  "report_dline c a w =
     (let i = cf w a in
      if \<not> has_flag (ci_status i) CONF_DLINE then w
      else sendto_one c (form_str RPL_STATSDLINE)
        [me_name w, Str (name (cl w c)), Chr (if IsConfElined i then CHR ''d'' else CHR ''D''), printable (ci_host i),
         printable (ci_passwd i)] w)"

fun walk_the_dlines :: "cid \<Rightarrow> ip_subtree \<Rightarrow> world \<Rightarrow> world" where
  "walk_the_dlines c Tip w = w"
| "walk_the_dlines c (Ip_node i m cs l r) w = walk_the_dlines c r (fold (report_dline c) cs (walk_the_dlines c l w))"

definition report_dlines :: "cid \<Rightarrow> 'a line_db_scheme \<Rightarrow> world \<Rightarrow> world" where
  "report_dlines c db w = fold (\<lambda>h. walk_the_dlines c (Dline db h)) [0..<256] w"

section \<open>The prefixes of an I-line\<close>

definition CONF_FLAGS_LIMIT_IP :: flags where "CONF_FLAGS_LIMIT_IP = 0x000001"
definition CONF_FLAGS_PASS_IDENTD :: flags where "CONF_FLAGS_PASS_IDENTD = 0x000008"
definition CONF_FLAGS_NOMATCH_IP :: flags where "CONF_FLAGS_NOMATCH_IP = 0x000010"
definition CONF_FLAGS_EXEMPTGLINE :: flags where "CONF_FLAGS_EXEMPTGLINE = 0x002000"

definition IsLimitIp :: "conf_item \<Rightarrow> bool" where "IsLimitIp a = has_flag (ci_flags a) CONF_FLAGS_LIMIT_IP"
definition IsPassIdentd :: "conf_item \<Rightarrow> bool" where "IsPassIdentd a = has_flag (ci_flags a) CONF_FLAGS_PASS_IDENTD"
definition IsNoMatchIp :: "conf_item \<Rightarrow> bool" where "IsNoMatchIp a = has_flag (ci_flags a) CONF_FLAGS_NOMATCH_IP"
definition IsConfExemptGline :: "conf_item \<Rightarrow> bool" where
  "IsConfExemptGline a = has_flag (ci_flags a) CONF_FLAGS_EXEMPTGLINE"

definition MAXPREFIX :: nat where "MAXPREFIX = HOSTLEN + USERLEN + 15"

text \<open>The buffer has \<open>MAXPREFIX\<close> bytes, and \<open>strncat\<close> adds up to as many behind the prefix: with a name
  that long it is overrun.\<close>

definition show_iline_prefix :: "client \<Rightarrow> conf_item \<Rightarrow> cstr \<Rightarrow> cstr" where
  "show_iline_prefix k i nm =
     map snd (filter fst
       [(IsNoTilde i, CHR ''-''), (IsLimitIp i, CHR ''!''), (IsNeedIdentd i, CHR ''+''), (IsPassIdentd i, CHR ''$''),
        (IsNoMatchIp i, CHR ''%''), (IsConfDoSpoofIp i, CHR ''=''), (IsMustResolve i, CHR ''/''),
        (IsAnOper k \<and> IsConfCanFlood i, CHR ''|''), (IsAnOper k \<and> IsConfExemptGline i, CHR ''_''),
        (IsAnOper k \<and> IsConfElined i, CHR ''^''), (IsAnOper k \<and> IsConfFlined i, CHR ''>'')]) @ take MAXPREFIX nm"

text \<open>One I-line in a report; the user part gets the prefix.\<close>

definition send_iline :: "cid \<Rightarrow> confid \<Rightarrow> cstr \<Rightarrow> world \<Rightarrow> world" where
  "send_iline c a shown w =
     (let i = cf w a in
      sendto_one c (form_str RPL_STATSILINE)
        [me_name w, Str (name (cl w c)), Chr (CHR ''I''), printable (ci_name i), Str (show_iline_prefix (cl w c) i shown),
         printable (ci_host i), Num (ci_port i), Num (get_conf_class w (Some a))] w)"

definition send_kline :: "cid \<Rightarrow> char \<Rightarrow> confid \<Rightarrow> world \<Rightarrow> world" where
  "send_kline c t a w =
     (let i = cf w a in
      sendto_one c (form_str RPL_STATSKLINE)
        [me_name w, Str (name (cl w c)), Chr t, printable (ci_host i), printable (ci_user i), printable (ci_passwd i)] w)"

definition report_ip_line :: "cid \<Rightarrow> char \<Rightarrow> flags \<Rightarrow> confid \<Rightarrow> world \<Rightarrow> world" where
  "report_ip_line c t msk a w =
     (let i = cf w a in
      if \<not> has_flag (ci_status i) msk then w
      else if has_flag (ci_status i) CONF_KILL then send_kline c t a w
      else if has_flag (ci_status i) CONF_CLIENT then send_iline c a (printed (ci_user i)) w
      else w)"

fun walk_the_ip_Klines :: "cid \<Rightarrow> ip_subtree \<Rightarrow> char \<Rightarrow> flags \<Rightarrow> world \<Rightarrow> world" where
  "walk_the_ip_Klines c Tip t msk w = w"
| "walk_the_ip_Klines c (Ip_node i m cs l r) t msk w =
     walk_the_ip_Klines c r t msk (fold (report_ip_line c t msk) cs (walk_the_ip_Klines c l t msk w))"

definition report_ip_Klines :: "cid \<Rightarrow> 'a line_db_scheme \<Rightarrow> world \<Rightarrow> world" where
  "report_ip_Klines c db w = fold (\<lambda>h. walk_the_ip_Klines c (ip_Kline db h) (CHR ''K'') CONF_KILL) [0..<256] w"

definition report_ip_Ilines :: "cid \<Rightarrow> 'a line_db_scheme \<Rightarrow> world \<Rightarrow> world" where
  "report_ip_Ilines c db w = fold (\<lambda>h. walk_the_ip_Klines c (ip_Kline db h) (CHR ''I'') CONF_CLIENT) [0..<256] w"

section \<open>Addresses in text\<close>

definition cidr_to_bitmask :: "ipaddr list" where
  "cidr_to_bitmask =
     [0x00000000, 0x80000000, 0xC0000000, 0xE0000000, 0xF0000000, 0xF8000000, 0xFC000000, 0xFE000000,
      0xFF000000, 0xFF800000, 0xFFC00000, 0xFFE00000, 0xFFF00000, 0xFFF80000, 0xFFFC0000, 0xFFFE0000,
      0xFFFF0000, 0xFFFF8000, 0xFFFFC000, 0xFFFFE000, 0xFFFFF000, 0xFFFFF800, 0xFFFFFC00, 0xFFFFFE00,
      0xFFFFFF00, 0xFFFFFF80, 0xFFFFFFC0, 0xFFFFFFE0, 0xFFFFFFF0, 0xFFFFFFF8, 0xFFFFFFFC, 0xFFFFFFFE,
      0xFFFFFFFF]"

text \<open>
  The loop of \<open>is_address\<close>: the character before, the number built so far, the octet, whether a mask
  follows, the dots seen, and what was written to the address.  The results are the return value and
  what the caller's two variables hold, \<open>None\<close> if they were not written.
\<close>

fun is_address_loop :: "cstr \<Rightarrow> char \<Rightarrow> ipaddr \<Rightarrow> 32 word \<Rightarrow> bool \<Rightarrow> nat \<Rightarrow> ipaddr option \<Rightarrow>
    bool \<times> ipaddr option \<times> ipaddr option" where
  "is_address_loop [] prev cur octet found dots out =
     (let n = push_bit 8 cur + octet in
      if found then if n > 32 then (False, out, None) else (True, out, Some (cidr_to_bitmask ! unat n))
      else (True, Some n, Some 0xFFFFFFFF))"
| "is_address_loop (c # s) prev cur octet found dots out =
     (if IsDigit c then is_address_loop s c cur (octet * 10 + (of_nat (code c) AND 0xF)) found dots out
      else if c = CHR ''.'' then
        if octet > 255 then (False, out, None) else is_address_loop s c (push_bit 8 cur + octet) 0 found (dots + 1) out
      else if c = CHR ''/'' then
        if octet > 255 then (False, out, None) else is_address_loop s c 0 0 True dots (Some (push_bit 8 cur + octet))
      else if c = CHR ''*'' \<and> dots = 3 \<and> s = [] \<and> prev = CHR ''.'' then (True, Some (push_bit 8 cur), Some 0xFFFFFF00)
      else (False, out, None))"

definition is_address :: "cstr \<Rightarrow> bool \<times> ipaddr option \<times> ipaddr option" where
  "is_address s = is_address_loop s NUL 0 0 False 0 None"

end
