(* ===== verification/DlineSpec.thy ===== *)
theory DlineSpec
  imports DlineConf
begin

text \<open>
  The laws of the address trees of \<open>src/dline_conf.c\<close>.  A tree is searchable when its
  blocks are disjoint and in order (\<open>apart\<close>); looking an address up then finds the block it is in, insertion
  and deletion keep the tree searchable, and a D-line or a K-line on addresses is in force for what it
  covers.  Deleting a node that has two children, and adding a K-line broader than a node, lose lines.
\<close>

section \<open>Blocks of addresses\<close>

definition cidr :: "ipaddr \<Rightarrow> ipaddr \<Rightarrow> bool" where
  "cidr i m = (m \<in> set cidr_to_bitmask \<and> i AND m = i)"

definition block_end :: "ipaddr \<Rightarrow> ipaddr \<Rightarrow> ipaddr" where
  "block_end i m = i OR NOT m"

lemma cidr_masks: "set cidr_to_bitmask = (\<lambda>k. NOT (mask k)) ` {..32}"
proof -
  have "cidr_to_bitmask = map (\<lambda>k. NOT (mask k)) (rev [0..<33])" by code_simp
  then have "set cidr_to_bitmask = set (map (\<lambda>k. NOT (mask k)) (rev [0..<33]))" by (rule arg_cong)
  also have "\<dots> = (\<lambda>k. NOT (mask k)) ` {0..<33}" unfolding set_map set_rev set_upt ..
  finally show ?thesis by (simp add: atLeast0LessThan lessThan_Suc_atMost [symmetric] numeral_eq_Suc)
qed

lemma unat_and_not_mask: "unat (x AND NOT (mask k)) = unat x div 2 ^ k * 2 ^ k" for x :: ipaddr
proof -
  have "x = (x AND NOT (mask k)) + take_bit k x"
    by (subst disjunctive_add_eq_or) (auto simp: bit_eq_iff bit_simps)
  then have "x AND NOT (mask k) = x - take_bit k x" by (metis add_diff_cancel_right')
  moreover have u: "unat (take_bit k x) = unat x mod 2 ^ k" by (simp only: unsigned_take_bit_eq) (rule take_bit_eq_mod)
  then have "take_bit k x \<le> x" by (simp add: word_le_nat_alt)
  then have "unat (x - take_bit k x) = unat x - unat x mod 2 ^ k" by (simp add: unat_sub u)
  ultimately show ?thesis by (simp add: minus_mod_eq_div_mult)
qed

lemma unat_or_mask:
  fixes i :: ipaddr
  assumes "i AND NOT (mask k) = i" "k \<le> 32"
  shows "unat (i OR mask k) = unat i + (2 ^ k - 1)"
proof -
  have d: "unat i = unat i div 2 ^ k * 2 ^ k" using unat_and_not_mask [of i k] assms(1) by simp
  have "i AND mask k = 0" using assms(1) by (metis bit.conj_cancel_left bit.conj_zero_right word_bw_assocs(1))
  then have "i OR mask k = i + mask k" by (simp add: disjunctive_add_eq_or)
  moreover have m: "unat (mask k :: ipaddr) = 2 ^ k - 1"
  proof -
    have "unat (mask k :: ipaddr) = take_bit k (unat (-1 :: ipaddr))" by (simp only: take_bit_minus_one_eq_mask [symmetric] unsigned_take_bit_eq)
    also have "unat (-1 :: ipaddr) = mask 32" by (simp add: unsigned_minus_1_eq_mask)
    finally have "unat (mask k :: ipaddr) = mask (min k 32)" by (simp only: take_bit_of_mask)
    then show ?thesis using assms(2) by (simp only: mask_eq_exp_minus_1 min_absorb1)
  qed
  have e: "(2 :: nat) ^ 32 = 2 ^ (32 - k) * 2 ^ k" using assms(2) by (simp flip: power_add)
  have "unat i < 2 ^ 32" by (rule order_less_le_trans [OF unsigned_less]) simp
  with e have "unat i div 2 ^ k < 2 ^ (32 - k)" by (simp add: less_mult_imp_div_less)
  then have "(unat i div 2 ^ k + 1) * 2 ^ k \<le> 2 ^ (32 - k) * 2 ^ k" by (intro mult_right_mono) simp_all
  then have "unat i + 2 ^ k \<le> 2 ^ 32" using d e by (simp add: algebra_simps)
  then have "unat i + (2 ^ k - 1) < 2 ^ LENGTH(32)" by (simp add: less_imp_diff_less Nat.add_diff_assoc)
  ultimately show ?thesis by (simp add: unat_add_lem [THEN iffD1] m)
qed

lemma cidrE:
  assumes "cidr i m"
  obtains k where "k \<le> 32" "m = NOT (mask k)" "i AND NOT (mask k) = i" "unat i = unat i div 2 ^ k * 2 ^ k"
    "unat (block_end i m) = unat i + (2 ^ k - 1)"
proof -
  obtain k where k: "k \<le> 32" "m = NOT (mask k)" using assms by (auto simp: cidr_def cidr_masks)
  moreover have i: "i AND NOT (mask k) = i" using assms k by (simp add: cidr_def)
  ultimately show ?thesis using that unat_and_not_mask [of i k] unat_or_mask [OF i k(1)] by (simp add: block_end_def)
qed

lemma in_block: "cidr i m \<Longrightarrow> addr AND m = i \<longleftrightarrow> i \<le> addr \<and> addr \<le> block_end i m"
proof (erule cidrE)
  fix k assume k: "m = NOT (mask k)" "unat i = unat i div 2 ^ k * 2 ^ k" "unat (block_end i m) = unat i + (2 ^ k - 1)"
  have "unat addr div 2 ^ k * 2 ^ k = unat i \<longleftrightarrow> unat i \<le> unat addr \<and> unat addr \<le> unat (block_end i m)"
    unfolding k(3)
  proof
    assume "unat addr div 2 ^ k * 2 ^ k = unat i"
    then have "unat addr = unat i + unat addr mod 2 ^ k" by (metis div_mult_mod_eq)
    moreover have "unat addr mod 2 ^ k < 2 ^ k" by simp
    ultimately show "unat i \<le> unat addr \<and> unat addr \<le> unat i + (2 ^ k - 1)" by linarith
  next
    assume b: "unat i \<le> unat addr \<and> unat addr \<le> unat i + (2 ^ k - 1)"
    then have "unat addr < (unat i div 2 ^ k + 1) * 2 ^ k" using k(2) by (simp add: algebra_simps) (use zero_less_power [of "2::nat" k] in linarith)
    then have "unat addr div 2 ^ k < unat i div 2 ^ k + 1" by (simp add: less_mult_imp_div_less)
    moreover have "unat i div 2 ^ k \<le> unat addr div 2 ^ k" using b by (intro div_le_mono) simp
    ultimately have "unat addr div 2 ^ k = unat i div 2 ^ k" by linarith
    then show "unat addr div 2 ^ k * 2 ^ k = unat i" using k(2) by simp
  qed
  then show ?thesis by (simp only: word_le_nat_alt word_unat_eq_iff k(1) unat_and_not_mask)
qed

lemma below_block: "cidr i m \<Longrightarrow> addr AND m < i \<longleftrightarrow> addr < i"
proof (erule cidrE)
  fix k assume k: "m = NOT (mask k)" "unat i = unat i div 2 ^ k * 2 ^ k"
  have "unat addr div 2 ^ k * 2 ^ k < unat i \<longleftrightarrow> unat addr < unat i"
  proof
    assume "unat addr div 2 ^ k * 2 ^ k < unat i"
    then have "unat addr div 2 ^ k < unat i div 2 ^ k" using k(2) by (metis mult_less_cancel2)
    then show "unat addr < unat i" by (meson div_le_mono leD not_le_imp_less)
  qed (meson div_times_less_eq_dividend le_less_trans)
  then show ?thesis by (simp only: word_less_nat_alt k(1) unat_and_not_mask)
qed

lemma block_le: "cidr i m \<Longrightarrow> i \<le> block_end i m"
  using in_block [of i m i] by (simp add: cidr_def)

text \<open>The masks that \<open>is_address\<close> reads from a text; the callers mask the address before they add a line.\<close>

lemma is_address_loop_mask:
  "is_address_loop s p c b found dots out = (True, r, Some m) \<Longrightarrow> m \<in> set cidr_to_bitmask"
proof (induction s p c b found dots out rule: is_address_loop.induct)
  case (1 p c b found dots out)
  have "cidr_to_bitmask ! unat n \<in> set cidr_to_bitmask" if "n \<le> 32" for n :: "32 word"
  proof (rule nth_mem)
    have "unat n \<le> unat (32 :: 32 word)" using that by (rule word_le_nat_alt [THEN iffD1])
    then show "unat n < length cidr_to_bitmask" by (simp add: cidr_to_bitmask_def)
  qed
  moreover have "0xFFFFFFFF \<in> set cidr_to_bitmask" by (simp add: cidr_to_bitmask_def)
  ultimately show ?case using 1 by (auto simp: Let_def not_less split: if_splits)
next
  case (2 ch s p c b found dots out)
  have "0xFFFFFF00 \<in> set cidr_to_bitmask" by (simp add: cidr_to_bitmask_def)
  then show ?case using 2 by (auto split: if_splits)
qed

lemma is_address_cidr: "is_address s = (True, Some addr, Some m) \<Longrightarrow> cidr (addr AND m) m"
  using is_address_loop_mask [of s] by (simp add: is_address_def cidr_def and.assoc)

text \<open>Two blocks that meet are nested.\<close>

lemma masks_nest: "m \<in> set cidr_to_bitmask \<Longrightarrow> n \<in> set cidr_to_bitmask \<Longrightarrow> m \<le> n \<Longrightarrow> m AND n = m"
proof -
  assume "m \<in> set cidr_to_bitmask" "n \<in> set cidr_to_bitmask" and le: "m \<le> n"
  then obtain a b where ab: "a \<le> 32" "b \<le> 32" "m = NOT (mask a)" "n = NOT (mask b)" by (auto simp: cidr_masks)
  have "b \<le> a \<or> m = n"
  proof (rule ccontr)
    assume "\<not> (b \<le> a \<or> m = n)"
    then have "a < b" "m \<noteq> n" by auto
    then have "m AND n = n" using ab by (auto simp: bit_eq_iff bit_simps)
    then have "n \<le> m" by (metis word_and_le2)
    then show False using le \<open>m \<noteq> n\<close> by simp
  qed
  then show "m AND n = m" using ab by (auto simp: bit_eq_iff bit_simps)
qed

lemma blocks_nest: "cidr i m \<Longrightarrow> cidr j n \<Longrightarrow> m \<le> n \<Longrightarrow> addr AND m = i \<Longrightarrow> addr AND n = j \<Longrightarrow> j AND m = i"
proof -
  assume "cidr i m" "cidr j n" "m \<le> n" and x: "addr AND m = i" "addr AND n = j"
  then have "m AND n = m" by (intro masks_nest) (simp_all add: cidr_def)
  then have "(addr AND n) AND m = addr AND m" by (metis and.assoc and.commute)
  then show "j AND m = i" using x by simp
qed

lemma oracle_covers: "cidr i m \<Longrightarrow> addr AND m = i \<Longrightarrow> (oracle_bits i m OR b) AND addr = addr"
proof (erule cidrE)
  fix k assume k: "m = NOT (mask k)" "i AND NOT (mask k) = i" and x: "addr AND m = i"
  have "0xFFFFFFFF - m = NOT m" by (simp add: word_eq_iff_unsigned not_eq_complement) 
  then have "oracle_bits i m = mask k + i" using k(1) by (simp add: oracle_bits_def)
  moreover have "mask k + i = mask k OR i" by (rule disjunctive_add_eq_or) (metis k(2) and.commute and.left_commute bit.conj_cancel_left bit.conj_zero_right)
  ultimately have "oracle_bits i m = mask k OR i" by simp
  moreover have "(mask k OR (addr AND NOT (mask k)) OR b) AND addr = addr" by (auto simp: bit_eq_iff bit_simps)
  ultimately show ?thesis using x k(1) by (simp add: or.assoc)
qed

section \<open>Trees of blocks\<close>

fun nodes :: "ip_subtree \<Rightarrow> (ipaddr \<times> ipaddr \<times> confid list) set" where
  "nodes Tip = {}"
| "nodes (Ip_node i m cs l r) = insert (i, m, cs) (nodes l \<union> nodes r)"

text \<open>The blocks of a tree are apart, in the order of the tree, and no chain is empty.\<close>

fun apart :: "ip_subtree \<Rightarrow> bool" where
  "apart Tip = True"
| "apart (Ip_node i m cs l r) =
     (cs \<noteq> [] \<and> cidr i m \<and> (\<forall>(j, n, ds) \<in> nodes l. block_end j n < i) \<and> (\<forall>(j, n, ds) \<in> nodes r. block_end i m < j) \<and> apart l \<and> apart r)"

lemma apart_cidr: "apart t \<Longrightarrow> (i, m, cs) \<in> nodes t \<Longrightarrow> cidr i m"
  by (induction t) auto

lemma find_ip_none: "find_ip_subtree t addr = Some (m, cs) \<Longrightarrow> \<exists>i. (i, m, cs) \<in> nodes t \<and> addr AND m = i"
  by (induction t) (auto split: if_splits)

lemma block_found:
  "apart t \<Longrightarrow> (i, m, cs) \<in> nodes t \<Longrightarrow> addr AND m = i \<Longrightarrow> find_ip_subtree t addr = Some (m, cs)"
proof (induction t)
  case (Ip_node j n ds l r)
  have b: "i \<le> addr" "addr \<le> block_end i m" using Ip_node.prems in_block [OF apart_cidr [OF Ip_node.prems(1,2)]] by blast+
  have c: "cidr j n" using Ip_node.prems(1) by simp
  consider "(i, m, cs) = (j, n, ds)" | "(i, m, cs) \<in> nodes l" | "(i, m, cs) \<in> nodes r" using Ip_node.prems(2) by auto
  then show ?case
  proof cases
    case 1
    then show ?thesis using Ip_node.prems(3) by simp
  next
    case 2
    then have "addr < j" using Ip_node.prems(1) b(2) by fastforce
    then have "addr AND n < j" using below_block [OF c] by blast
    then show ?thesis using Ip_node.IH(1) Ip_node.prems 2 by auto
  next
    case 3
    then have "block_end j n < addr" using Ip_node.prems(1) b(1) by fastforce
    then have "addr AND n \<noteq> j" "\<not> addr AND n < j" using below_block [OF c] in_block [OF c] block_le [OF c] by (auto simp: not_less)
    then show ?thesis using Ip_node.IH(2) Ip_node.prems 3 by auto
  qed
qed simp

text \<open>The search finds the block.
  In a tree whose blocks are apart and in order, \<open>find_ip_subtree\<close> finds exactly the node whose block
  holds the address.\<close>

lemma find_ip_subtree_exact:
  assumes "apart t"
  shows "find_ip_subtree t addr = Some (m, cs) \<longleftrightarrow> (addr AND m, m, cs) \<in> nodes t"
  using find_ip_none block_found [OF assms] by blast

lemma nodes_insert: "nodes (insert_ip_subtree t (Ip_node i m cs Tip Tip)) = insert (i, m, cs) (nodes t)"
  by (induction t) auto

lemma apart_insert:
  assumes "apart t" "cs \<noteq> []" "cidr i m" "\<And>j n ds. (j, n, ds) \<in> nodes t \<Longrightarrow> block_end j n < i \<or> block_end i m < j"
  shows "apart (insert_ip_subtree t (Ip_node i m cs Tip Tip))"
  using assms
proof (induction t)
  case (Ip_node j n ds l r)
  have c: "cidr j n" using Ip_node.prems(1) by simp
  have d: "block_end j n < i \<or> block_end i m < j" using Ip_node.prems(4) by auto
  have "apart (insert_ip_subtree l (Ip_node i m cs Tip Tip))" "apart (insert_ip_subtree r (Ip_node i m cs Tip Tip))"
    using Ip_node.IH Ip_node.prems by auto
  moreover have "j > i \<Longrightarrow> block_end i m < j" using d block_le [OF c] by (meson leD le_less_trans less_imp_le)
  moreover have "\<not> j > i \<Longrightarrow> block_end j n < i" using d block_le [OF Ip_node.prems(3)] by (meson le_less_trans)
  ultimately show ?case using Ip_node.prems(1) by (auto simp: nodes_insert)
qed simp

lemma nodes_hang_right: "nodes (hang_right l t) \<subseteq> nodes l \<union> nodes t"
  by (induction l t rule: hang_right.induct) auto

lemma nodes_hang_left: "nodes (hang_left r t) \<subseteq> nodes r \<union> nodes t"
  by (induction r t rule: hang_left.induct) auto

definition left_of :: "ip_subtree \<Rightarrow> ip_subtree \<Rightarrow> bool" where
  "left_of l r \<longleftrightarrow> (\<forall>i m cs j n ds. (i, m, cs) \<in> nodes l \<longrightarrow> (j, n, ds) \<in> nodes r \<longrightarrow> block_end i m < j)"

lemma apart_hang_right: "apart l \<Longrightarrow> apart t \<Longrightarrow> left_of l t \<Longrightarrow> apart (hang_right l t)"
proof (induction l t rule: hang_right.induct)
  case (2 i m cs l t)
  then show ?case by (fastforce simp: left_of_def)
next
  case (3 i m cs l j n ds u v t)
  then show ?case by (simp add: left_of_def)
qed simp

lemma apart_hang_left: "apart r \<Longrightarrow> apart t \<Longrightarrow> left_of t r \<Longrightarrow> apart (hang_left r t)"
proof (induction r t rule: hang_left.induct)
  case (2 i m cs r t)
  then show ?case by (fastforce simp: left_of_def)
next
  case (3 i m cs j n ds u v r t)
  then show ?case by (simp add: left_of_def)
qed simp

lemma left_of_mono: "left_of l r \<Longrightarrow> nodes l' \<subseteq> nodes l \<Longrightarrow> nodes r' \<subseteq> nodes r \<Longrightarrow> left_of l' r'"
  unfolding left_of_def by blast

lemma drop_node_apart:
  assumes "apart l" "apart r" "left_of l r"
  shows "apart (fst (drop_node l r coin))" "nodes (fst (drop_node l r coin)) \<subseteq> nodes l \<union> nodes r"
  using assms nodes_hang_right [of l r] nodes_hang_left [of r l] apart_hang_right apart_hang_left
  by (auto simp: drop_node_def)

text \<open>After a deletion the tree is still apart and none of the nodes within the block is left.\<close>

lemma delete_apart:
  assumes "delete_ip_subtree t addr msk clist coin = (t', clist', coin')" "apart t"
  shows "apart t' \<and> nodes t' \<subseteq> {(i, m, cs) \<in> nodes t. i AND msk \<noteq> addr AND msk \<or> m < msk}"
  using assms
proof (induction t arbitrary: addr clist coin t' clist' coin')
  case (Ip_node i m cs l r)
  obtain l' c1 k1 where l: "delete_ip_subtree l (addr AND msk) msk clist coin = (l', c1, k1)" by (metis prod_cases3)
  obtain r' c2 k2 where r: "delete_ip_subtree r (addr AND msk) msk c1 k1 = (r', c2, k2)" by (metis prod_cases3)
  have ap: "apart l" "apart r" using Ip_node.prems(2) by simp_all
  have il: "apart l'" "nodes l' \<subseteq> {(i, m, cs) \<in> nodes l. i AND msk \<noteq> addr AND msk \<or> m < msk}"
    using Ip_node.IH(1) [OF l ap(1)] by (simp_all add: and.assoc)
  have ir: "apart r'" "nodes r' \<subseteq> {(i, m, cs) \<in> nodes r. i AND msk \<noteq> addr AND msk \<or> m < msk}"
    using Ip_node.IH(2) [OF r ap(2)] by (simp_all add: and.assoc)
  have sub: "nodes l' \<subseteq> nodes l" "nodes r' \<subseteq> nodes r" using il(2) ir(2) by auto
  show ?case
  proof (cases "i AND msk = addr AND msk \<and> \<not> m < msk")
    case True
    have lr: "left_of l r"
      unfolding left_of_def
    proof (intro allI impI)
      fix j n ds j' n' ds' assume "(j, n, ds) \<in> nodes l" "(j', n', ds') \<in> nodes r"
      then have "block_end j n < i" "block_end i m < j'" using Ip_node.prems(2) by auto
      then show "block_end j n < j'" using block_le [of i m] Ip_node.prems(2) by (metis apart.simps(2) le_less_trans less_imp_le less_le_trans)
    qed
    have "t' = fst (drop_node l' r' k2)" using Ip_node.prems(1) True by (simp add: l r split: prod.splits)
    then show ?thesis using drop_node_apart [OF il(1) ir(1) left_of_mono [OF lr sub], of k2] il(2) ir(2) by auto
  next
    case False
    then have "t' = Ip_node i m cs l' r'" using Ip_node.prems(1) by (simp only: delete_ip_subtree.simps l r Let_def prod.case if_False) simp
    then show ?thesis using False il ir sub Ip_node.prems(2) by auto
  qed
qed simp

text \<open>The new block of a D-line is apart from all that is left.\<close>

lemma deleted_disjoint:
  assumes "apart t" "cidr i m" "\<And>j n ds. (j, n, ds) \<in> nodes t \<Longrightarrow> i AND n = j \<Longrightarrow> \<not> n \<le> m"
    "(j, n, ds) \<in> nodes t" "j AND m \<noteq> i \<or> n < m"
  shows "block_end j n < i \<or> block_end i m < j"
proof (rule ccontr)
  assume no: "\<not> (block_end j n < i \<or> block_end i m < j)"
  have c: "cidr j n" using apart_cidr [OF assms(1,4)] .
  define x where "x = max i j"
  have "i \<le> x" "x \<le> block_end i m" "j \<le> x" "x \<le> block_end j n"
    using no block_le [OF assms(2)] block_le [OF c] by (auto simp: x_def not_less)
  then have x: "x AND m = i" "x AND n = j" using in_block [OF assms(2)] in_block [OF c] by blast+
  show False
  proof (cases "n \<le> m")
    case True
    then have "i AND n = j" using blocks_nest [OF c assms(2) True] x by blast
    then show False using assms(3) [OF assms(4)] True by blast
  next
    case False
    then have "j AND m = i" using blocks_nest [OF assms(2) c _ x] by simp
    then show False using assms(5) False by (meson less_imp_le)
  qed
qed

section \<open>Tables to start from\<close>

definition empty_lines :: line_db where
  "empty_lines = \<lparr>Dline = \<lambda>_. Tip, ip_Kline = \<lambda>_. Tip, Dline_oracle = \<lambda>_. 0, ike_oracle = \<lambda>_. 0, leftover = [], coins = []\<rparr>"

definition ten_slash_eight :: world where
  "ten_slash_eight = upd_conf 0 (\<lambda>i. i\<lparr>ci_status := CONF_KILL, ci_user := Some ''*'', ci_ip := 0x0A000000, ci_ip_mask := 0xFF000000\<rparr>) boot"

section \<open>D-lines\<close>

lemma nodes_set_conf: "(j, n, ds) \<in> nodes (set_node_conf f t addr) \<Longrightarrow> \<exists>es. (j, n, es) \<in> nodes t"
  by (induction t) (auto split: if_splits)

lemma apart_set_conf: "apart t \<Longrightarrow> (\<And>cs. cs \<noteq> [] \<Longrightarrow> f cs \<noteq> []) \<Longrightarrow> apart (set_node_conf f t addr)"
proof (induction t)
  case (Ip_node i m cs l r)
  have "\<forall>(j, n, ds) \<in> nodes (set_node_conf f l addr). block_end j n < i" "\<forall>(j, n, ds) \<in> nodes (set_node_conf f r addr). block_end i m < j"
    using Ip_node.prems(1) nodes_set_conf by fastforce+
  then show ?case using Ip_node by auto
qed simp


text \<open>The mask of the node that holds an address and the line at the head of its chain.\<close>

definition node_of :: "ip_subtree \<Rightarrow> ipaddr \<Rightarrow> (ipaddr \<times> confid) option" where
  "node_of t addr = map_option (\<lambda>(m, cs). (m, hd cs)) (find_ip_subtree t addr)"



lemma node_of_nodes:
  assumes "apart t" "apart t'" "nodes t' = insert (i, m, cs) (nodes t)" "addr AND m \<noteq> i"
  shows "node_of t' addr = node_of t addr"
proof -
  have "find_ip_subtree t' addr = Some (n, ds) \<longleftrightarrow> find_ip_subtree t addr = Some (n, ds)" for n ds
    using find_ip_subtree_exact [OF assms(1)] find_ip_subtree_exact [OF assms(2)] assms(3,4) by auto
  then have "find_ip_subtree t' addr = find_ip_subtree t addr" by (metis not_Some_eq surj_pair)
  then show ?thesis by (simp add: node_of_def)
qed

lemma delete_nothing:
  "\<forall>(i, m, cs) \<in> nodes t. i AND msk \<noteq> addr AND msk \<or> m < msk \<Longrightarrow> delete_ip_subtree t addr msk clist coin = (t, clist, coin)"
  by (induction t arbitrary: addr clist coin) (auto simp: and.assoc Let_def)

text \<open>A block that no broader one holds takes the place of those within it.\<close>

lemma tree_insert:
  assumes "apart t0" "cidr i m" "\<And>n ds. find_ip_subtree t0 i = Some (n, ds) \<Longrightarrow> \<not> n \<le> m"
    "delete_ip_subtree t0 i m [] coin = (t, clist, coin')" "cs \<noteq> []"
  defines "t1 \<equiv> insert_ip_subtree t (Ip_node i m cs Tip Tip)"
  shows "apart t1" "addr AND m = i \<Longrightarrow> find_ip_subtree t1 addr = Some (m, cs)"
    "\<forall>(j, n, ds) \<in> nodes t0. j AND m \<noteq> i \<or> n < m \<Longrightarrow> addr AND m \<noteq> i \<Longrightarrow> node_of t1 addr = node_of t0 addr"
proof -
  have im: "i AND m = i" using assms(2) by (simp add: cidr_def)
  have d: "apart t" "nodes t \<subseteq> {(j, n, ds) \<in> nodes t0. j AND m \<noteq> i \<or> n < m}"
    using delete_apart [OF assms(4,1)] im by simp_all
  have sep: "block_end j n < i \<or> block_end i m < j" if "(j, n, ds) \<in> nodes t" for j n ds
  proof (rule deleted_disjoint [OF assms(1,2)])
    show "(j, n, ds) \<in> nodes t0" "j AND m \<noteq> i \<or> n < m" using d(2) that by auto
    show "\<not> n' \<le> m" if "(j', n', ds') \<in> nodes t0" "i AND n' = j'" for j' n' ds'
      using block_found [OF assms(1) that] assms(3) by blast
  qed
  show t1: "apart t1" using apart_insert [OF d(1) assms(5,2)] sep unfolding t1_def by blast
  show "find_ip_subtree t1 addr = Some (m, cs)" if "addr AND m = i"
    by (rule block_found [OF t1 _ that]) (simp add: t1_def nodes_insert)
  assume "\<forall>(j, n, ds) \<in> nodes t0. j AND m \<noteq> i \<or> n < m" and x: "addr AND m \<noteq> i"
  then have "t = t0" using delete_nothing [of t0 m i "[]" coin] assms(4) im by simp
  then have "nodes t1 = insert (i, m, cs) (nodes t0)" by (simp add: t1_def nodes_insert)
  then show "node_of t1 addr = node_of t0 addr" by (rule node_of_nodes [OF assms(1) t1 _ x])
qed

text \<open>What the loading of lines does to the items: addresses and masks stay.\<close>

definition same_block :: "world \<Rightarrow> world \<Rightarrow> bool" where
  "same_block v w \<longleftrightarrow> (\<forall>a. ci_ip (cf v a) = ci_ip (cf w a) \<and> ci_ip_mask (cf v a) = ci_ip_mask (cf w a))"

lemma same_block_refl [simp]: "same_block w w"
  by (simp add: same_block_def)












section \<open>Who wins among the lines of an address\<close>

definition hits :: "conf_item \<Rightarrow> ipaddr \<Rightarrow> cstr \<Rightarrow> bool" where
  "hits i addr nm \<longleftrightarrow> covers_ip i addr \<and> match_ptr (ci_user i) nm"

definition K_hit :: "world \<Rightarrow> ipaddr \<Rightarrow> cstr \<Rightarrow> confid \<Rightarrow> bool" where
  "K_hit w addr nm a \<longleftrightarrow> hits (cf w a) addr nm \<and> has_flag (ci_status (cf w a)) CONF_KILL"

definition E_hit :: "world \<Rightarrow> ipaddr \<Rightarrow> cstr \<Rightarrow> confid \<Rightarrow> bool" where
  "E_hit w addr nm a \<longleftrightarrow> hits (cf w a) addr nm \<and> IsConfElined (cf w a)"

definition I_hit :: "world \<Rightarrow> ipaddr \<Rightarrow> cstr \<Rightarrow> confid \<Rightarrow> bool" where
  "I_hit w addr nm a \<longleftrightarrow> hits (cf w a) addr nm \<and> has_flag (ci_status (cf w a)) CONF_CLIENT"

lemma winner_E: "find (E_hit w addr nm) cs = Some a \<Longrightarrow> ip_winner addr nm w win k cs = Some a"
  by (induction cs arbitrary: win k) (auto simp: E_hit_def hits_def Let_def split: if_splits)

lemma winner_K:
  "\<forall>a\<in>set cs. \<not> E_hit w addr nm a \<Longrightarrow> (\<exists>a\<in>set cs. K_hit w addr nm a) \<or> k \<and> win \<noteq> None \<Longrightarrow>
    \<exists>a. ip_winner addr nm w win k cs = Some a \<and> (a \<in> set cs \<and> K_hit w addr nm a \<or> k \<and> win = Some a)"
proof (induction cs arbitrary: win k)
  case (Cons b cs)
  have E: "\<not> (covers_ip (cf w b) addr \<and> IsConfElined (cf w b) \<and> match_ptr (ci_user (cf w b)) nm)" "\<forall>a\<in>set cs. \<not> E_hit w addr nm a"
    using Cons.prems(1) by (auto simp: E_hit_def hits_def)
  show ?case
  proof (cases "K_hit w addr nm b")
    case True
    then have "ip_winner addr nm w win k (b # cs) = ip_winner addr nm w (Some b) True cs"
      using E(1) by (auto simp: K_hit_def hits_def Let_def)
    then show ?thesis using Cons.IH [OF E(2), of True "Some b"] True by auto
  next
    case False
    then have "ip_winner addr nm w win k (b # cs) = ip_winner addr nm w win k cs \<or>
        \<not> k \<and> ip_winner addr nm w win k (b # cs) = ip_winner addr nm w (Some b) k cs"
      using E(1) by (auto simp: K_hit_def hits_def Let_def)
    then consider "ip_winner addr nm w win k (b # cs) = ip_winner addr nm w win k cs"
      | "\<not> k" "ip_winner addr nm w win k (b # cs) = ip_winner addr nm w (Some b) k cs"
      by blast
    then show ?thesis
    proof cases
      case 1
      then show ?thesis using Cons.IH [OF E(2), of k win] Cons.prems(2) False by auto
    next
      case 2
      then show ?thesis using Cons.IH [OF E(2), of k "Some b"] Cons.prems(2) False by auto
    qed
  qed
qed simp

lemma winner_I:
  "\<forall>a\<in>set cs. \<not> E_hit w addr nm a \<and> \<not> K_hit w addr nm a \<Longrightarrow>
    (case ip_winner addr nm w win False cs of
       None \<Rightarrow> win = None \<and> (\<forall>a\<in>set cs. \<not> I_hit w addr nm a)
     | Some a \<Rightarrow> (win = Some a \<or> a \<in> set cs \<and> I_hit w addr nm a) \<and>
         (\<forall>b. b \<in> set cs \<and> I_hit w addr nm b \<or> win = Some b \<longrightarrow> ci_ip_mask (cf w b) \<le> ci_ip_mask (cf w a)))"
proof (induction cs arbitrary: win)
  case Nil
  show ?case by (cases win) auto
next
  case (Cons b cs)
  have n: "\<not> (covers_ip (cf w b) addr \<and> IsConfElined (cf w b) \<and> match_ptr (ci_user (cf w b)) nm)" "\<not> K_hit w addr nm b"
    and ns: "\<forall>a\<in>set cs. \<not> E_hit w addr nm a \<and> \<not> K_hit w addr nm a"
    using Cons.prems by (auto simp: E_hit_def hits_def)
  show ?case
  proof (cases "I_hit w addr nm b \<and> (case win of None \<Rightarrow> True | Some c \<Rightarrow> \<not> ci_ip_mask (cf w b) \<le> ci_ip_mask (cf w c))")
    case True
    then have e: "ip_winner addr nm w win False (b # cs) = ip_winner addr nm w (Some b) False cs"
      using n unfolding I_hit_def K_hit_def hits_def ip_winner.simps Let_def by (simp split: option.splits)
    show ?thesis unfolding e using Cons.IH [OF ns, of "Some b"] True
      by (auto split: option.splits) (metis le_less_trans less_imp_le not_le)?
  next
    case False
    then have e: "ip_winner addr nm w win False (b # cs) = ip_winner addr nm w win False cs"
      using n unfolding I_hit_def K_hit_def hits_def ip_winner.simps Let_def by (auto split: option.splits)
    show ?thesis unfolding e using Cons.IH [OF ns, of win] False
      by (auto split: option.splits)
  qed
qed

text \<open>Who wins among the lines of an address.
  When the trees hold a node for the address, \<open>match_ip_Kline\<close> answers with the first exempting line that
  fits the user and the address; without one with a K-line that fits, if there is any; without that
  with a fitting I-line whose mask no other fitting I-line exceeds; and else with nothing.\<close>

theorem match_ip_Kline_rules:
  fixes w :: world and nm :: cstr
  assumes "find_ip_subtree (ip_Kline db (top_byte addr)) addr = Some (m, cs)" "ike_oracle db (top_byte addr) AND addr = addr"
  defines "r \<equiv> match_ip_Kline addr (Some nm) db w"
  shows "(if \<exists>a\<in>set cs. E_hit w addr nm a then r = find (E_hit w addr nm) cs
     else if \<exists>a\<in>set cs. K_hit w addr nm a then \<exists>a\<in>set cs. K_hit w addr nm a \<and> r = Some a
     else if \<exists>a\<in>set cs. I_hit w addr nm a
     then \<exists>a\<in>set cs. I_hit w addr nm a \<and> r = Some a \<and> (\<forall>b\<in>set cs. I_hit w addr nm b \<longrightarrow> ci_ip_mask (cf w b) \<le> ci_ip_mask (cf w a))
     else r = None)"
proof -
  have r: "r = ip_winner addr nm w None False cs" using assms(1,2) by (simp add: r_def match_ip_Kline_def Let_def)
  show ?thesis
  proof (cases "\<exists>a\<in>set cs. E_hit w addr nm a")
    case True
    then obtain a where "find (E_hit w addr nm) cs = Some a" using find_None_iff [of "E_hit w addr nm" cs] by (metis option.exhaust)
    then show ?thesis using True winner_E r by simp
  next
    case noE: False
    show ?thesis
    proof (cases "\<exists>a\<in>set cs. K_hit w addr nm a")
      case True
      then show ?thesis using noE winner_K [of cs w addr nm False None] r by auto
    next
      case False
      then show ?thesis using noE winner_I [of cs w addr nm None] r by (auto split: option.splits)
    qed
  qed
qed

section \<open>K-lines on addresses bite\<close>

text \<open>Weeding only frees items.\<close>

definition only_freed :: "world \<Rightarrow> world \<Rightarrow> bool" where
  "only_freed v w \<longleftrightarrow> (\<forall>a. (cf v a)\<lparr>ci_freed := False\<rparr> = (cf w a)\<lparr>ci_freed := False\<rparr>)"

lemma only_freed_trans: "only_freed u v \<Longrightarrow> only_freed v w \<Longrightarrow> only_freed u w"
  by (simp add: only_freed_def)

lemma only_freed_free: "only_freed (free_conf a w) w"
  by (simp add: only_freed_def free_conf_def)

lemma only_freed_fields:
  assumes "only_freed v w"
  shows "ci_ip (cf v a) = ci_ip (cf w a)" "ci_ip_mask (cf v a) = ci_ip_mask (cf w a)" "ci_user (cf v a) = ci_user (cf w a)"
    "ci_status (cf v a) = ci_status (cf w a)" "ci_flags (cf v a) = ci_flags (cf w a)"
proof -
  have e: "(cf v a)\<lparr>ci_freed := False\<rparr> = (cf w a)\<lparr>ci_freed := False\<rparr>" using assms by (simp add: only_freed_def)
  show "ci_ip (cf v a) = ci_ip (cf w a)" using arg_cong [OF e, of ci_ip] by simp
  show "ci_ip_mask (cf v a) = ci_ip_mask (cf w a)" using arg_cong [OF e, of ci_ip_mask] by simp
  show "ci_user (cf v a) = ci_user (cf w a)" using arg_cong [OF e, of ci_user] by simp
  show "ci_status (cf v a) = ci_status (cf w a)" using arg_cong [OF e, of ci_status] by simp
  show "ci_flags (cf v a) = ci_flags (cf w a)" using arg_cong [OF e, of ci_flags] by simp
qed

lemma trim_ip_Klines_freed: "trim_ip_Klines cs k w = (ds, v) \<Longrightarrow> only_freed v w"
proof (induction cs arbitrary: w ds v)
  case (Cons a cs)
  obtain es u where e: "trim_ip_Klines cs k w = (es, u)" by fastforce
  show ?case
  proof (cases "\<not> IsConfElined (cf w a) \<and> ci_ip_mask (cf w a) \<ge> k")
    case True
    then have "trim_ip_Klines cs k (free_conf a w) = (ds, v)" using Cons.prems by simp
    then show ?thesis using only_freed_trans [OF Cons.IH only_freed_free] by blast
  next
    case False
    then have "v = u" using Cons.prems e by (auto split: if_splits)
    then show ?thesis using Cons.IH [OF e] by simp
  qed
qed (simp add: only_freed_def)

lemma trim_ip_Klines_step:
  obtains cs' v where "(if b then trim_ip_Klines cs k w else (cs, w)) = (cs', v)" "only_freed v w"
proof (cases b)
  case True
  then show ?thesis using that trim_ip_Klines_freed [of cs k w] by (cases "trim_ip_Klines cs k w") simp
next
  case False
  then show ?thesis using that [of cs w] by (simp add: only_freed_def)
qed

lemma nodes_set_new: "find_ip_subtree t y = Some (n, cs) \<Longrightarrow> (y AND n, n, f cs) \<in> nodes (set_node_conf f t y)"
  by (induction t) (auto split: if_splits)

lemma find_set_node:
  assumes "apart t" "find_ip_subtree t y = Some (n, cs)" "addr AND n = y AND n" "\<And>cs. f cs \<noteq> []"
  shows "find_ip_subtree (set_node_conf f t y) addr = Some (n, f cs)"
proof -
  have "apart (set_node_conf f t y)" by (rule apart_set_conf [OF assms(1)]) (rule assms(4))
  then show ?thesis using nodes_set_new [OF assms(2)] assms(3) by (rule block_found)
qed

text \<open>Where the new line ends up: at the head of the chain that every address of its block finds.\<close>

lemma add_ip_Kline_tree:
  fixes db :: "'a line_db_scheme" and w :: world and a :: confid
  defines "i \<equiv> ci_ip (cf w a)" and "m \<equiv> ci_ip_mask (cf w a)"
  assumes ap: "\<forall>h. apart (ip_Kline db h)" and c: "cidr i m" "m \<noteq> 0"
    and old: "\<And>n cs. find_ip_subtree (ip_Kline db (top_byte i)) i = Some (n, cs) \<Longrightarrow> n \<le> m \<and>
      \<not> list_ex (\<lambda>b. (has_flag (ci_status (cf w b)) CONF_KILL \<or> IsConfElined (cf w b)) \<and> all_users (cf w b) \<and> ci_ip_mask (cf w b) < m) cs"
    and add: "add_ip_Kline a (db, w) = (db', w')"
  shows "(\<forall>h. apart (ip_Kline db' h)) \<and> only_freed w' w \<and>
    ike_oracle db' (top_byte i) = ike_oracle db (top_byte i) OR oracle_bits i m \<and>
    (\<forall>addr. addr AND m = i \<longrightarrow> (\<exists>n cs. find_ip_subtree (ip_Kline db' (top_byte i)) addr = Some (n, a # cs)))"
proof -
  have e: "ci_ip (cf w a) = i" "ci_ip_mask (cf w a) = m" by (simp_all add: i_def m_def)
  have im: "i AND m = i" using c(1) by (simp add: cidr_def)
  note add' = add [unfolded add_ip_Kline_def prod.case, unfolded e if_not_P [OF c(2)] add_ip_line_def prod.case Let_def e]
  show ?thesis
  proof (cases "find_ip_subtree (ip_Kline db (top_byte i)) i")
    case None
    obtain t clist coin where del: "delete_ip_subtree (ip_Kline db (top_byte i)) i m [] (coins db) = (t, clist, coin)" by (metis prod_cases3)
    obtain cs v where trim: "(if all_users (cf w a) then trim_ip_Klines clist 0 w else (clist, w)) = (cs, v)" "only_freed v w"
      by (rule trim_ip_Klines_step)
    note t1 = tree_insert [OF ap [rule_format] c(1) _ del, of "a # cs"]
    have "db' = db\<lparr>ike_oracle := (ike_oracle db)(top_byte i := ike_oracle db (top_byte i) OR oracle_bits i m),
        ip_Kline := (ip_Kline db)(top_byte i := insert_ip_subtree t (Ip_node i m (a # cs) Tip Tip)), coins := coin\<rparr>" "w' = v"
      using add' by (simp_all add: None del trim new_ip_subtree_def im)
    then show ?thesis using t1 None ap trim(2) by simp
  next
    case (Some p)
    obtain n ds where p: "p = (n, ds)" by (cases p)
    obtain cs v where trim: "(if all_users (cf w a) then trim_ip_Klines ds m w else (ds, w)) = (cs, v)" "only_freed v w"
      by (rule trim_ip_Klines_step)
    note o = old [OF Some [unfolded p]]
    have d: "db' = db\<lparr>ike_oracle := (ike_oracle db)(top_byte i := ike_oracle db (top_byte i) OR oracle_bits i m),
        ip_Kline := (ip_Kline db)(top_byte i := set_node_conf (\<lambda>_. a # cs) (ip_Kline db (top_byte i)) i)\<rparr>" "w' = v"
      using add' o by (simp_all add: Some p trim)
    have "(i AND n, n, ds) \<in> nodes (ip_Kline db (top_byte i))"
      using find_ip_subtree_exact [OF ap [rule_format]] Some p by blast
    then have "cidr (i AND n) n" by (rule apart_cidr [OF ap [rule_format]])
    then have "n AND m = n" using masks_nest o c(1) by (simp add: cidr_def)
    then have "addr AND n = i AND n" if "addr AND m = i" for addr using that by (metis and.assoc and.commute)
    then show ?thesis using find_set_node [OF ap [rule_format] Some [unfolded p]] apart_set_conf ap trim(2) by (simp add: d)
  qed
qed

text \<open>A K-line on addresses bites.
  A K-line on a block of addresses is in force for every address of the block (as far as it has the
  same top byte) and every user it fits: \<open>match_ip_Kline\<close> then answers with a K-line or an exempting
  line.  Left out are the line that is not added because a broader one on all users is in the chain,
  and the one whose base a narrower node holds: its item joins the chain of that node, so that the
  rest of its block does not find it (\<open>broad_kline_missed\<close>).\<close>

theorem kline_bites:
  assumes "\<forall>h. apart (ip_Kline db h)" "cidr (ci_ip (cf w a)) (ci_ip_mask (cf w a))" "ci_ip_mask (cf w a) \<noteq> 0"
    "\<forall>n cs. find_ip_subtree (ip_Kline db (top_byte (ci_ip (cf w a)))) (ci_ip (cf w a)) = Some (n, cs) \<longrightarrow> n \<le> ci_ip_mask (cf w a) \<and>
      \<not> list_ex (\<lambda>b. (has_flag (ci_status (cf w b)) CONF_KILL \<or> IsConfElined (cf w b)) \<and> all_users (cf w b) \<and>
        ci_ip_mask (cf w b) < ci_ip_mask (cf w a)) cs"
    "add_ip_Kline a (db, w) = (db', w')" "K_hit w addr nm a" "top_byte addr = top_byte (ci_ip (cf w a))"
  shows "(\<exists>b. match_ip_Kline addr (Some nm) db' w' = Some b \<and> (K_hit w' addr nm b \<or> E_hit w' addr nm b)) \<and>
    (\<forall>h. apart (ip_Kline db' h))"
proof -
  have t: "\<forall>h. apart (ip_Kline db' h)" "only_freed w' w"
    "ike_oracle db' (top_byte addr) = ike_oracle db (top_byte addr) OR oracle_bits (ci_ip (cf w a)) (ci_ip_mask (cf w a))"
    "\<forall>addr. addr AND ci_ip_mask (cf w a) = ci_ip (cf w a) \<longrightarrow>
      (\<exists>n cs. find_ip_subtree (ip_Kline db' (top_byte (ci_ip (cf w a)))) addr = Some (n, a # cs))"
    using add_ip_Kline_tree [OF assms(1-3) assms(4) [rule_format] assms(5)] assms(7) by simp_all
  have x: "addr AND ci_ip_mask (cf w a) = ci_ip (cf w a)" using assms(6) by (simp add: K_hit_def hits_def covers_ip_def)
  then obtain n cs where f: "find_ip_subtree (ip_Kline db' (top_byte addr)) addr = Some (n, a # cs)" using t(4) assms(7) by auto
  have o: "ike_oracle db' (top_byte addr) AND addr = addr"
    using oracle_covers [OF assms(2) x, of "ike_oracle db (top_byte addr)"] by (simp add: t(3) or.commute)
  have "K_hit w' addr nm a" using assms(6) by (simp add: K_hit_def hits_def covers_ip_def only_freed_fields [OF t(2)])
  then have k: "\<exists>b \<in> set (a # cs). K_hit w' addr nm b" by simp
  note rules = match_ip_Kline_rules [OF f o, of w' nm]
  have "\<exists>b. match_ip_Kline addr (Some nm) db' w' = Some b \<and> (K_hit w' addr nm b \<or> E_hit w' addr nm b)"
  proof (cases "\<exists>b \<in> set (a # cs). E_hit w' addr nm b")
    case True
    then obtain b where b: "find (E_hit w' addr nm) (a # cs) = Some b" using find_None_iff by (metis option.exhaust)
    then have "E_hit w' addr nm b" unfolding find_Some_iff by metis
    then show ?thesis using rules True b by auto
  next
    case False
    then show ?thesis using rules k by auto
  qed
  then show ?thesis using t(1) by blast
qed

theorem kline_bites_witness:
  "\<exists>b. match_ip_Kline 0x0A010203 (Some ''joe'') (fst (add_ip_Kline 0 (empty_lines, ten_slash_eight)))
     (snd (add_ip_Kline 0 (empty_lines, ten_slash_eight))) = Some b"
proof -
  let ?w = ten_slash_eight
  have i: "ci_ip (cf ?w 0) = 0x0A000000" "ci_ip_mask (cf ?w 0) = 0xFF000000" by (simp_all add: ten_slash_eight_def)
  have "cidr (ci_ip (cf ?w 0)) (ci_ip_mask (cf ?w 0))" unfolding i by code_simp
  moreover have "K_hit ?w 0x0A010203 ''joe'' 0" by code_simp
  moreover have "top_byte 0x0A010203 = top_byte (ci_ip (cf ?w 0))" unfolding i by code_simp
  ultimately show ?thesis
    using kline_bites [where db = empty_lines and w = ?w and a = 0 and addr = "0x0A010203" and nm = "''joe''"
      and db' = "fst (add_ip_Kline 0 (empty_lines, ?w))" and w' = "snd (add_ip_Kline 0 (empty_lines, ?w))"]
    by (auto simp: empty_lines_def i)
qed

section \<open>Where the trees lose lines\<close>

text \<open>A node with two children is deleted: all of the inner spine above its last node is lost.\<close>

lemma drop_node_loses:
  "r \<noteq> Tip \<Longrightarrow> nodes (fst (drop_node (Ip_node j n ds l (Ip_node i m cs l2 Tip)) r (True # coin))) = insert (i, m, cs) (nodes l2 \<union> nodes r)"
  "l \<noteq> Tip \<Longrightarrow> nodes (fst (drop_node l (Ip_node j n ds (Ip_node i m cs Tip r2) r) (False # coin))) = insert (i, m, cs) (nodes l \<union> nodes r2)"
  by (auto simp: drop_node_def)

text \<open>
  A K-line broader than the node that holds its base: addresses of its block outside that node are
  searched for as before and do not meet it.
\<close>

theorem broad_kline_missed:
  assumes "\<forall>h. apart (ip_Kline db h)" "ci_ip_mask (cf w a) \<noteq> 0"
    "find_ip_subtree (ip_Kline db (top_byte (ci_ip (cf w a)))) (ci_ip (cf w a)) = Some (n, cs)"
    "add_ip_Kline a (db, w) = (db', w')" "addr AND n \<noteq> ci_ip (cf w a) AND n"
  shows "find_ip_subtree (ip_Kline db' k) addr = find_ip_subtree (ip_Kline db k) addr"
proof -
  have keep: "find_ip_subtree (set_node_conf f t y) addr = find_ip_subtree t addr"
    if "apart t" "find_ip_subtree t y = Some (n, cs)" "addr AND n \<noteq> y AND n" for f t y
    using that by (induction t) (auto split: if_splits)
  have "ip_Kline db' = ip_Kline db \<or>
      (\<exists>f. ip_Kline db' = (ip_Kline db)(top_byte (ci_ip (cf w a)) := set_node_conf f (ip_Kline db (top_byte (ci_ip (cf w a)))) (ci_ip (cf w a))))"
    using assms(4) unfolding add_ip_Kline_def prod.case if_not_P [OF assms(2)] add_ip_line_def Let_def
    by (auto simp: assms(3) split: prod.splits if_splits)
  then show ?thesis using keep [OF assms(1) [rule_format] assms(3,5)] by auto
qed

end
