(* ===== verification/Privmsg.thy ===== *)
theory Privmsg
  imports Deliver Cmds
begin

text \<open>
  PRIVMSG and NOTICE, \<open>src/m_message.c\<close>.  \<open>m_message\<close> walks over the receivers; each kind of receiver is
  a function that says whether the loop goes on (\<open>Continue\<close>) or the command ends (\<open>Return\<close>).  The
  variable \<open>type\<close> is set by a receiver with @ or + and not reset for the next one, so it is handed on.
  \<open>None\<close> is the use of memory that was freed: flood records of a channel or the list of members.

  The send queue is not modelled: its length \<open>sendq_len\<close>, which the protection against drones reads, is
  a field that the notices sent on the way do not change.  Limits of classes are not negative, so
  that halving them is \<open>div\<close>.
\<close>

definition MAX_JOIN_LEAVE_COUNT :: int where "MAX_JOIN_LEAVE_COUNT = 25"
definition MSG_PRIVATE :: cstr where "MSG_PRIVATE = ''PRIVMSG''"
definition MSG_NOTICE :: cstr where "MSG_NOTICE = ''NOTICE''"

datatype msg_step = Continue flags world | Return int world

section \<open>Masks of hosts and servers, for operators\<close>

definition send_oper_special :: "cid \<Rightarrow> cid \<Rightarrow> cstr \<Rightarrow> cstr \<Rightarrow> cstr \<Rightarrow> world \<Rightarrow> world option" where
  "send_oper_special cptr sptr cmnd nick body w =
     (let top = rev (takeWhile (\<lambda>c. c \<noteq> CHR ''.'') (rev nick));
          tell = (\<lambda>e. sendto_one sptr (form_str e) [me_name w, Str (name (cl w sptr)), Str nick] w);
          one = (if IsServer (cl w cptr) then Some cptr else None);
          f = Fmt '':%s %s %s :%s'';
          a = [Str (name (cl w sptr)), Str cmnd, Str nick, Str body] in
      if CHR ''.'' \<notin> set nick then Some (tell ERR_NOTOPLEVEL)
      else if list_ex (\<lambda>c. c = CHR ''*'' \<or> c = CHR ''?'') top then Some (tell ERR_WILDTOPLEVEL)
      else if at nick 0 = CHR ''$'' then
        if at nick 1 = CHR ''$'' \<or> at nick 1 = CHR ''#''
        then sendto_match_butone one sptr (drop 2 nick) (if at nick 1 = CHR ''$'' then MATCH_SERVER else MATCH_HOST) f a w
        else sendto_match_butone one sptr (drop 1 nick) MATCH_SERVER f a w
      else if at nick 0 \<noteq> CHR ''#'' then Some w
      else sendto_match_butone one sptr (drop 1 nick) MATCH_HOST f a w)"

section \<open>Channels\<close>

text \<open>The flood check of a channel; its answer is not used.\<close>

definition channel_ctcp :: "cid \<Rightarrow> chid \<Rightarrow> bool \<Rightarrow> cstr \<Rightarrow> world \<Rightarrow> world option" where
  "channel_ctcp sptr x notice body w =
     (if \<not> notice \<and> check_for_ctcp body
      then map_option snd (check_for_flud (wall_clock w) sptr (Some (TChannel x)) w) else Some w)"

definition to_channel :: "cid \<Rightarrow> cid \<Rightarrow> cstr \<Rightarrow> bool \<Rightarrow> cstr \<Rightarrow> cstr \<Rightarrow> cstr \<Rightarrow> chid \<Rightarrow> world \<Rightarrow> world option" where
  "to_channel cptr sptr p0 notice cmnd nick body x w =
     Option.bind (channel_ctcp sptr x notice body w) (\<lambda>v.
       if can_send v sptr x = 0
       then sendto_channel_butone cptr sptr x (Fmt '':%s %s %s :%s'') [Str p0, Str cmnd, Str nick, Str body] v
       else Some (if notice then v else sendto_one sptr (form_str ERR_CANNOTSENDTOCHAN) [me_name v, Str p0, Str nick] v))"

text \<open>\<open>@#channel\<close> and \<open>+#channel\<close>; a message that was passed on ends the command.\<close>

definition to_channel_type :: "cid \<Rightarrow> cid \<Rightarrow> cstr \<Rightarrow> bool \<Rightarrow> cstr \<Rightarrow> cstr \<Rightarrow> cstr \<Rightarrow> flags \<Rightarrow> world \<Rightarrow> msg_step option" where
  "to_channel_type cptr sptr p0 notice cmnd nick0 body ty0 w =
     (let both = (at nick0 1 = CHR ''@'' \<or> at nick0 1 = CHR ''+'');
          nick = (if both then CHR ''@'' # drop 2 nick0 else nick0);
          ty = (if both then MODE_CHANOP OR MODE_VOICE else ty0) in
      if \<not> IsPerson (cl w sptr) then Some (Return (-1) w)
      else case find_channel w (drop 1 nick) of
        None \<Rightarrow> Some (Continue ty (sendto_one sptr (form_str ERR_NOSUCHNICK) [me_name w, Str p0, Str nick] w))
      | Some x \<Rightarrow>
          map_option (\<lambda>v.
              if \<not> is_chan_op sptr (ch v x) \<and> \<not> has_voice sptr (ch v x)
              then Continue ty (if notice then v else sendto_one sptr (form_str ERR_CANNOTSENDTOCHAN) [me_name v, Str p0, Str nick] v)
              else Return 0 (sendto_channel_type cptr sptr x ty (drop 1 nick) cmnd body v))
            (channel_ctcp sptr x notice body w))"

section \<open>Users\<close>

text \<open>The protection against drones: whether the message is thrown away.\<close>

definition drone_check :: "cid \<Rightarrow> cid \<Rightarrow> world \<Rightarrow> bool \<times> world" where
  "drone_check sptr a w =
     (let t = cl w a; s = cl w sptr; nt = Str (name t) in
      if \<not> (MyConnect t \<and> IsClient s \<and> \<not> IsAnOper s \<and> dronetime w \<noteq> 0) then (False, w)
      else if first_msg_time t + dronetime w < now w then
        (False, upd_cl a (\<lambda>k. k\<lparr>num_privmsgs := 1, first_msg_time := now w, drone_noticed := 0\<rparr>) w)
      else if num_privmsgs t > dronecount w then
        let set_noticed = (\<lambda>n. upd_cl a (\<lambda>k. k\<lparr>drone_noticed := n\<rparr>));
            w1 = (if drone_noticed t = 0
                  then set_noticed 1 (sendto_ops_flags FLAGS_BOTS (Fmt ''Possible Drone Flooder %s [%s@%s] on %s target: %s'')
                    [Str (name s), Str (username s), Str (host s), Str (case user s of Some u \<Rightarrow> u_server u | None \<Rightarrow> []), nt] w)
                  else w);
            w2 = (if sendq_len t > get_sendq w a div 2 \<and> drone_noticed (cl w1 a) = 1
                  then set_noticed 2
                    (sendto_one a (Fmt '':%s NOTICE %s :*** Notice -- Server drone flood protection activated for %s'') [me_name w, nt, nt]
                      (sendto_ops_flags FLAGS_BOTS (Fmt ''ANTI_DRONE_FLOOD SendQ protection activated for %s'') [nt] w1))
                  else w1);
            w3 = (if sendq_len t \<le> get_sendq w a div 4 \<and> drone_noticed (cl w2 a) = 2
                  then set_noticed 1
                    (sendto_one a (Fmt '':%s NOTICE %s :*** Notice -- Server drone flood protection de-activated for %s'') [me_name w, nt, nt] w2)
                  else w2)
        in (drone_noticed (cl w3 a) > 1, w3)
      else (False, upd_cl a (\<lambda>k. k\<lparr>num_privmsgs := num_privmsgs k + 1\<rparr>) w))"

definition user_ctcp :: "cid \<Rightarrow> cid \<Rightarrow> bool \<Rightarrow> cstr \<Rightarrow> world \<Rightarrow> (bool \<times> world) option" where
  "user_ctcp sptr a notice body w =
     (if \<not> notice \<and> MyConnect (cl w a) \<and> check_for_ctcp body
      then check_for_flud (wall_clock w) sptr (Some (TClient a)) w else Some (False, w))"

definition to_person :: "cid \<Rightarrow> cstr \<Rightarrow> bool \<Rightarrow> cstr \<Rightarrow> cstr \<Rightarrow> cstr \<Rightarrow> flags \<Rightarrow> cid \<Rightarrow> world \<Rightarrow> msg_step option" where
  "to_person sptr p0 notice cmnd nick body ty a w =
     Option.bind (user_ctcp sptr a notice body w) (\<lambda>(flooding, w1).
       if flooding then Some (Return 0 w1)
       else
         let (drone, w2) = drone_check sptr a w1;
             away = (case user (cl w2 a) of None \<Rightarrow> None | Some u \<Rightarrow> u_away u);
             w3 = (case away of
                     Some t \<Rightarrow> if \<not> notice \<and> MyConnect (cl w2 sptr)
                       then sendto_one sptr (form_str RPL_AWAY) [me_name w2, Str p0, Str (name (cl w2 a)), Str t] w2 else w2
                   | None \<Rightarrow> w2)
         in if drone then Some (Return 0 w2)
            else map_option (Continue ty)
              (sendto_prefix_one a sptr (Fmt '':%s %s %s :%s'') [Str p0, Str cmnd, Str nick, Str body] w3))"

text \<open>
  \<open>user[%host]@server\<close>.  \<open>find_userhost\<close> collapses the user part in place: when that shortens it, the
  name that is printed afterwards ends there.
\<close>

definition to_server :: "cid \<Rightarrow> cstr \<Rightarrow> bool \<Rightarrow> cstr \<Rightarrow> cstr \<Rightarrow> cstr \<Rightarrow> flags \<Rightarrow> cid \<Rightarrow> world \<Rightarrow> msg_step option" where
  "to_server sptr p0 notice cmnd nick body ty s w =
     (let tell = (\<lambda>e n w. sendto_one sptr (form_str e) [me_name w, Str p0, Str n] w);
          local_part = takeWhile (\<lambda>c. c \<noteq> CHR ''@'') nick;
          usr = takeWhile (\<lambda>c. c \<noteq> CHR ''%'') local_part;
          hst = (if CHR ''%'' \<in> set local_part then Some (drop (Suc (length usr)) local_part) else None);
          shown = (if length (collapse usr) < length usr then collapse usr else nick) in
      if CHR ''%'' \<in> set nick \<and> \<not> IsAnOper (cl w sptr) then Some (Continue ty (tell ERR_NOSUCHNICK nick w))
      else if \<not> IsMe (cl w s)
      then Some (Continue ty (sendto_one s (Fmt '':%s %s %s :%s'') [Str p0, Str cmnd, Str nick, Str body] w))
      else if irccmp local_part ''opers'' = 0 \<and> IsAnOper (cl w sptr)
      then Some (Continue ty (sendto_realops (Fmt ''To opers: From %s: %s'') [Str (name (cl w sptr)), Str body] w))
      else case find_userhost w usr hst None of
        (None, _) \<Rightarrow> Some (Continue ty (tell ERR_NOSUCHNICK shown w))
      | (Some a, n) \<Rightarrow>
          if n = 1
          then map_option (Continue ty) (sendto_prefix_one a sptr (Fmt '':%s %s %s :%s'') [Str p0, Str cmnd, Str shown, Str body] w)
          else Some (Continue ty (if notice then w else tell ERR_TOOMANYTARGETS shown w)))"

section \<open>The command\<close>

definition message_one :: "cid \<Rightarrow> cid \<Rightarrow> cstr \<Rightarrow> bool \<Rightarrow> cstr \<Rightarrow> cstr \<Rightarrow> flags \<Rightarrow> cstr \<Rightarrow> world \<Rightarrow> msg_step option" where
  "message_one cptr sptr p0 notice cmnd body ty0 nick w =
     (let oper = IsAnOper (cl w sptr); c = at nick 0;
          special = map_option (Continue ty0) (send_oper_special cptr sptr cmnd nick body w);
          no_such = sendto_one sptr (form_str ERR_NOSUCHNICK) [me_name w, Str p0, Str nick] w in
      if oper \<and> c = CHR ''#'' \<and> (case find_channel w nick of None \<Rightarrow> True | Some x \<Rightarrow> \<not> IsMember w sptr x) then special
      else if IsChanPrefix c \<and> IsPerson (cl w sptr) \<and> find_channel w nick \<noteq> None
      then map_option (Continue ty0) (to_channel cptr sptr p0 notice cmnd nick body (the (find_channel w nick)) w)
      else
        let ty = (if c = CHR ''@'' then MODE_CHANOP else if c = CHR ''+'' then MODE_CHANOP OR MODE_VOICE else ty0) in
        if ty \<noteq> 0 then to_channel_type cptr sptr p0 notice cmnd nick body ty w
        else case find_person w nick None of
          Some a \<Rightarrow> to_person sptr p0 notice cmnd nick body ty a w
        | None \<Rightarrow>
            if c = CHR ''$'' then (if oper then special else Some (Return (-1) no_such))
            else case (if CHR ''@'' \<in> set nick then find_server w (tl (dropWhile (\<lambda>c. c \<noteq> CHR ''@'') nick)) else None) of
              Some s \<Rightarrow> to_server sptr p0 notice cmnd nick body ty s w
            | None \<Rightarrow> Some (Continue ty no_such))"

fun message_loop :: "cid \<Rightarrow> cid \<Rightarrow> cstr \<Rightarrow> bool \<Rightarrow> cstr \<Rightarrow> cstr \<Rightarrow> flags \<Rightarrow> cstr list \<Rightarrow> world \<Rightarrow> (int \<times> world) option" where
  "message_loop cptr sptr p0 notice cmnd body ty [] w = Some (0, w)"
| "message_loop cptr sptr p0 notice cmnd body ty (nick # nicks) w =
     (case message_one cptr sptr p0 notice cmnd body ty nick w of
        None \<Rightarrow> None
      | Some (Return r v) \<Rightarrow> Some (r, v)
      | Some (Continue ty1 v) \<Rightarrow> message_loop cptr sptr p0 notice cmnd body ty1 nicks v)"

definition m_message :: "cid \<Rightarrow> cid \<Rightarrow> cstr list \<Rightarrow> bool \<Rightarrow> world \<Rightarrow> (int \<times> world) option" where
  "m_message cptr sptr parv notice w =
     (let p0 = parv ! 0; cmnd = (if notice then MSG_NOTICE else MSG_PRIVATE); s = cl w sptr in
      if length parv < 2 \<or> parv ! 1 = []
      then Some (-1, sendto_one sptr (form_str ERR_NORECIPIENT) [me_name w, Str p0, Str cmnd] w)
      else if length parv < 3 \<or> parv ! 2 = []
      then Some (-1, sendto_one sptr (form_str ERR_NOTEXTTOSEND) [me_name w, Str p0] w)
      else if MyConnect s \<and> join_leave_count s \<ge> MAX_JOIN_LEAVE_COUNT then Some (0, w)
      else message_loop cptr sptr p0 notice cmnd (parv ! 2) 0
             (strtokens (Some (if MyConnect s then canonize (parv ! 1) else parv ! 1)) '','') w)"

definition m_private :: "cid \<Rightarrow> cid \<Rightarrow> cstr list \<Rightarrow> world \<Rightarrow> (int \<times> world) option" where
  "m_private cptr sptr parv w = m_message cptr sptr parv False w"

definition m_notice :: "cid \<Rightarrow> cid \<Rightarrow> cstr list \<Rightarrow> world \<Rightarrow> (int \<times> world) option" where
  "m_notice cptr sptr parv w = m_message cptr sptr parv True w"

end
