(* ===== verification/PrivmsgSpec.thy ===== *)
theory PrivmsgSpec
  imports Privmsg Demo
begin

text \<open>
  Who gets a message to a channel, and what happens to the rest of a list of receivers after an
  address with @ in front.
\<close>

section \<open>The audience of a channel\<close>

text \<open>
  Every member has a route: a local one is its own and is registered, a remote one comes over a link
  that is no member; different routes have different descriptors.
\<close>

definition routed :: "world \<Rightarrow> cid set \<Rightarrow> bool" where
  "routed w A \<longleftrightarrow>
     (\<forall>a \<in> A. \<not> null_from (cl w a) \<and>
        (if MyConnect (cl w a) then cfrom (cl w a) = a \<and> IsRegisteredUser (cl w a) else cfrom (cl w a) \<notin> A)) \<and>
     inj_on (\<lambda>l. fd (cl w l)) ((\<lambda>a. cfrom (cl w a)) ` A)"

abbreviation link_fd :: "world \<Rightarrow> cid \<Rightarrow> int" where
  "link_fd w a \<equiv> fd (cl w (cfrom (cl w a)))"

lemma butone_subset: "set (butone_lines w one frm seen as) \<subseteq> {a \<in> set as. from_of (cl w a) \<noteq> Some one}"
  by (induction "as" arbitrary: seen) (auto simp: Let_def)

lemma butone_distinct: "distinct as \<Longrightarrow> distinct (butone_lines w one frm seen as)"
proof (induction "as" arbitrary: seen)
  case (Cons a as)
  then show ?case using butone_subset [of w one frm "link_fd w a # seen" "as"] by (auto simp: Let_def)
qed simp

lemma butone_local:
  "\<lbrakk>a \<in> set as; MyConnect (cl w a); IsRegisteredUser (cl w a); from_of (cl w a) \<noteq> Some one\<rbrakk> \<Longrightarrow>
     a \<in> set (butone_lines w one frm seen as)"
  by (induction "as" arbitrary: seen) (auto simp: Let_def)

lemma butone_unseen:
  "\<lbrakk>a \<in> set (butone_lines w one frm seen as); \<not> MyConnect (cl w a)\<rbrakk> \<Longrightarrow> link_fd w a \<notin> set seen"
  by (induction "as" arbitrary: seen) (fastforce simp: Let_def split: if_splits)+

lemma butone_once:
  "\<lbrakk>distinct as; a \<in> set (butone_lines w one frm seen as); b \<in> set (butone_lines w one frm seen as);
    \<not> MyConnect (cl w a); \<not> MyConnect (cl w b); link_fd w a = link_fd w b\<rbrakk> \<Longrightarrow> a = b"
proof (induction "as" arbitrary: seen)
  case (Cons c as)
  then show ?case
    using butone_unseen [of a w one frm "link_fd w c # seen" "as"] butone_unseen [of b w one frm "link_fd w c # seen" "as"]
    by (auto simp: Let_def split: if_splits)
qed simp

lemma butone_served:
  "\<lbrakk>a \<in> set as; from_of (cl w a) \<noteq> Some one; link_fd w a \<notin> set seen\<rbrakk> \<Longrightarrow>
     \<exists>b \<in> set (butone_lines w one frm seen as). link_fd w b = link_fd w a"
proof (induction "as" arbitrary: seen)
  case (Cons c as)
  show ?case
  proof (cases "a \<in> set as \<and> link_fd w c \<noteq> link_fd w a")
    case True
    then show ?thesis using Cons.IH [of "link_fd w c # seen"] Cons.IH [of seen] Cons.prems by (auto simp: Let_def)
  next
    case False
    then show ?thesis using Cons.IH [of seen] Cons.prems by (auto simp: Let_def)
  qed
qed simp

lemma butone_remote:
  assumes "routed w (set as)" "distinct as" "a \<in> set as" "\<not> MyConnect (cl w a)" "cfrom (cl w a) \<noteq> one"
  shows "\<exists>!b. b \<in> set (butone_lines w one frm [] as) \<and> cfrom (cl w b) = cfrom (cl w a)"
proof -
  let ?tos = "butone_lines w one frm [] as"
  have same: "cfrom (cl w b) = cfrom (cl w c)" if "b \<in> set as" "c \<in> set as" "link_fd w b = link_fd w c" for b c
    using assms(1) that unfolding routed_def inj_on_def by blast
  have remote: "\<not> MyConnect (cl w b)" if "b \<in> set as" "cfrom (cl w b) = cfrom (cl w a)" for b
    using assms(1,3,4) that unfolding routed_def by metis
  have "from_of (cl w a) \<noteq> Some one" using assms(1,3,5) by (simp add: from_of_def)
  then obtain b where b: "b \<in> set ?tos" "link_fd w b = link_fd w a" using butone_served [OF assms(3), of w one "[]" frm] by auto
  have sub: "set ?tos \<subseteq> set as" using butone_subset [of w one frm "[]" "as"] by blast
  have "cfrom (cl w b) = cfrom (cl w a)" using same b sub assms(3) by blast
  moreover have "c = b" if "c \<in> set ?tos" "cfrom (cl w c) = cfrom (cl w a)" for c
    using butone_once [OF assms(2) that(1) b(1)] remote that b sub calculation by (metis subsetD)
  ultimately show ?thesis using b(1) by blast
qed

section \<open>A message to one channel\<close>

lemma one_receiver:
  assumes "nick \<noteq> []" "CHR '','' \<notin> set nick" "cstring nick"
  shows "strtokens (Some nick) '','' = [nick]" "strtokens (Some (canonize nick)) '','' = [nick]"
proof -
  show one: "strtokens (Some nick) '','' = [nick]" using assms strtokens_token(1) [of nick "'',''"] by auto
  have "token_of '','' nick" using assms by (auto simp: token_of_def)
  then have "canonize nick = join_comma (foldl dedup_add [] [nick])"
    using canonize_fold [of "[]" "[nick]"] assms one by (simp add: canonize_def)
  then show "strtokens (Some (canonize nick)) '','' = [nick]" using one by (simp add: dedup_add_def)
qed

lemma m_message_tokens:
  assumes "strtokens (Some (if MyConnect (cl w sptr) then canonize rcv else rcv)) '','' = ts" "rcv \<noteq> []" "body \<noteq> []"
    "MyConnect (cl w sptr) \<longrightarrow> join_leave_count (cl w sptr) < MAX_JOIN_LEAVE_COUNT"
  shows "m_message cptr sptr [p0, rcv, body] notice w =
    message_loop cptr sptr p0 notice (if notice then MSG_NOTICE else MSG_PRIVATE) body 0 ts w"
  unfolding m_message_def Let_def assms(1) [symmetric] using assms(2-4) by auto

lemma channel_ctcp_plain: "notice \<or> \<not> check_for_ctcp body \<Longrightarrow> channel_ctcp sptr x notice body w = Some w"
  by (auto simp: channel_ctcp_def)

lemma to_channel_local:
  assumes "MyClient (cl w sptr)" "notice \<or> \<not> check_for_ctcp body"
  shows "to_channel sptr sptr p0 notice cmnd nick body x w =
    Some (if can_send w sptr x = 0
          then log_out (map (\<lambda>a. Prefix a sptr (Fmt '':%s %s %s :%s'') [Str p0, Str cmnd, Str nick, Str body])
                 (butone_lines w sptr sptr [] (map m_client (members (ch w x))))) w
          else if notice then w else sendto_one sptr (form_str ERR_CANNOTSENDTOCHAN) [me_name w, Str p0, Str nick] w)"
  unfolding to_channel_def channel_ctcp_plain [OF assms(2)]
  by (simp add: sendto_channel_butone_def broadcast_direct local_sender_direct assms(1))

lemma message_one_channel:
  assumes "find_channel w nick = Some x" "IsChanPrefix (at nick 0)" "IsPerson (cl w sptr)"
    "\<not> IsAnOper (cl w sptr) \<or> IsMember w sptr x"
  shows "message_one cptr sptr p0 notice cmnd body ty nick w =
    map_option (Continue ty) (to_channel cptr sptr p0 notice cmnd nick body x w)"
  using assms by (auto simp: message_one_def Let_def)

theorem privmsg_channel:
  assumes "chan_inv w" "find_channel w nick = Some x" "IsChanPrefix (at nick 0)" "CHR '','' \<notin> set nick" "cstring nick"
    "nick \<noteq> []"
    and s: "MyClient (cl w sptr)" "IsPerson (cl w sptr)" "\<not> IsAnOper (cl w sptr) \<or> IsMember w sptr x"
      "join_leave_count (cl w sptr) < MAX_JOIN_LEAVE_COUNT" "cfrom (cl w sptr) = sptr"
    and "body \<noteq> []" "notice \<or> \<not> check_for_ctcp body"
    and r: "routed w (m_client ` set (members (ch w x)))" 
      "\<forall>a \<in> m_client ` set (members (ch w x)). \<not> MyConnect (cl w a) \<longrightarrow> cfrom (cl w a) \<noteq> sptr"
  shows "\<exists>tos. m_message sptr sptr [p0, nick, body] notice w =
      Some (0, if can_send w sptr x = 0
               then log_out (map (\<lambda>a. Prefix a sptr (Fmt '':%s %s %s :%s'')
                      [Str p0, Str (if notice then MSG_NOTICE else MSG_PRIVATE), Str nick, Str body]) tos) w
               else if notice then w
               else sendto_one sptr (form_str ERR_CANNOTSENDTOCHAN) [me_name w, Str p0, Str nick] w) \<and>
    distinct tos \<and> set tos \<subseteq> m_client ` set (members (ch w x)) - {sptr} \<and>
    (\<forall>a \<in> m_client ` set (members (ch w x)).
       if MyConnect (cl w a) then a \<noteq> sptr \<longrightarrow> a \<in> set tos
       else \<exists>!b. b \<in> set tos \<and> cfrom (cl w b) = cfrom (cl w a))"
proof -
  let ?as = "map m_client (members (ch w x))"
  let ?tos = "butone_lines w sptr sptr [] ?as"
  have d: "distinct ?as" using assms(1) by (simp add: chan_inv_def memb_ok_def)
  have rt: "routed w (set ?as)" using r(1) by simp
  have own: "from_of (cl w a) \<noteq> Some sptr" if "a \<in> set ?as" "MyConnect (cl w a)" "a \<noteq> sptr" for a
    using rt that unfolding routed_def from_of_def by (metis option.inject option.distinct(1))
  have "sptr \<notin> set ?tos"
  proof
    assume m: "sptr \<in> set ?tos"
    then have "from_of (cl w sptr) \<noteq> Some sptr" "sptr \<in> set ?as" using butone_subset by blast+
    moreover have "\<not> null_from (cl w sptr)" using rt calculation(2) unfolding routed_def by blast
    ultimately show False using s(5) by (simp add: from_of_def)
  qed
  then have "set ?tos \<subseteq> m_client ` set (members (ch w x)) - {sptr}" using butone_subset [of w sptr sptr "[]" ?as] by auto
  moreover have "a \<in> set ?tos" if "a \<in> set ?as" "MyConnect (cl w a)" "a \<noteq> sptr" for a
  proof -
    have "IsRegisteredUser (cl w a)" using rt that(1,2) unfolding routed_def by metis
    then show ?thesis by (rule butone_local [OF that(1,2) _ own [OF that]])
  qed
  moreover have "\<exists>!b. b \<in> set ?tos \<and> cfrom (cl w b) = cfrom (cl w a)" if "a \<in> set ?as" "\<not> MyConnect (cl w a)" for a
  proof -
    have "cfrom (cl w a) \<noteq> sptr" using r(2) that by auto
    then show ?thesis by (rule butone_remote [OF rt d that])
  qed
  moreover have "strtokens (Some (if MyConnect (cl w sptr) then canonize nick else nick)) '','' = [nick]"
    using one_receiver [OF assms(6,4,5)] by simp
  then have "m_message sptr sptr [p0, nick, body] notice w =
      map_option (Pair 0) (to_channel sptr sptr p0 notice (if notice then MSG_NOTICE else MSG_PRIVATE) nick body x w)"
    using m_message_tokens [OF _ assms(6,12), of w sptr "[nick]"] s(4)
    by (simp add: message_one_channel [OF assms(2,3) s(2,3)] del: if_split split: option.split)
  ultimately show ?thesis
    using butone_distinct [OF d, of w sptr sptr "[]"] unfolding to_channel_local [OF s(1) assms(13)]
    by (intro exI [of _ ?tos]) simp
qed

theorem privmsg_channel_witness:
  "\<exists>tos. m_message 11 11 [''alice'', ''#test'', ''hello''] False demo =
      Some (0, log_out (map (\<lambda>a. Prefix a 11 (Fmt '':%s %s %s :%s'') [Str ''alice'', Str MSG_PRIVATE, Str ''#test'', Str ''hello'']) tos) demo) \<and>
    set tos = {12} \<and> distinct tos"
proof -
  have m: "m_client ` set (members (ch demo 0)) = {12, 11}" by (simp add: demo_members)
  have k: "cfrom (cl demo 11) = 11" "cfrom (cl demo 12) = 12" "MyConnect (cl demo 11)" "MyConnect (cl demo 12)"
    "IsRegisteredUser (cl demo 11)" "IsRegisteredUser (cl demo 12)" "\<not> null_from (cl demo 11)" "\<not> null_from (cl demo 12)"
    "fd (cl demo 11) = 11" "fd (cl demo 12) = 12" "\<not> IsAnOper (cl demo 11)" "join_leave_count (cl demo 11) = 0"
    "IsPerson (cl demo 11)" "IsClient (cl demo 11)"
    by (simp_all add: demo_cl local_user_def zero_client_def MyConnect_def IsRegisteredUser_def IsAnOper_def has_flag_def
        IsPerson_def IsClient_def)
  have r: "routed demo (m_client ` set (members (ch demo 0)))" by (simp add: m routed_def k inj_on_def)
  have c: "can_send demo 11 0 = 0"
    by (simp add: can_send_def demo_chan demo_members Let_def zero_channel_def has_flag_def)
  have p: "IsChanPrefix (at ''#test'' 0)" "\<not> check_for_ctcp ''hello''" by code_simp+
  have "\<exists>tos. m_message 11 11 [''alice'', ''#test'', ''hello''] False demo =
      Some (0, if can_send demo 11 0 = 0
               then log_out (map (\<lambda>a. Prefix a 11 (Fmt '':%s %s %s :%s'')
                      [Str ''alice'', Str (if False then MSG_NOTICE else MSG_PRIVATE), Str ''#test'', Str ''hello'']) tos) demo
               else if False then demo
               else sendto_one 11 (form_str ERR_CANNOTSENDTOCHAN) [me_name demo, Str ''alice'', Str ''#test''] demo) \<and>
    distinct tos \<and> set tos \<subseteq> m_client ` set (members (ch demo 0)) - {11} \<and>
    (\<forall>a \<in> m_client ` set (members (ch demo 0)).
       if MyConnect (cl demo a) then a \<noteq> 11 \<longrightarrow> a \<in> set tos
       else \<exists>!b. b \<in> set tos \<and> cfrom (cl demo b) = cfrom (cl demo a))"
    by (rule privmsg_channel [OF demo_inv demo_find_channel])
      (use r p in \<open>simp_all add: k m cstring_def MyClient_def MAX_JOIN_LEAVE_COUNT_def\<close>)
  then show ?thesis unfolding m c by (auto simp: k)
qed

section \<open>After an address with @\<close>

lemma hash_is_prefix: "IsChanPrefix CHR ''#''" by code_simp

text \<open>An address that is looked up as a channel because of the type, and is none.\<close>

lemma message_one_typed:
  assumes "ty1 = (if at nick 0 = CHR ''@'' then MODE_CHANOP else if at nick 0 = CHR ''+'' then MODE_CHANOP OR MODE_VOICE else ty)"
    "ty1 \<noteq> 0" "\<not> IsChanPrefix (at nick 0)" "IsPerson (cl w sptr)" "at nick 1 \<notin> {CHR ''@'', CHR ''+''}"
    "find_channel w (drop 1 nick) = None"
  shows "message_one cptr sptr p0 notice cmnd body ty nick w =
    Some (Continue ty1 (sendto_one sptr (form_str ERR_NOSUCHNICK) [me_name w, Str p0, Str nick] w))"
proof -
  have "at nick 0 \<noteq> CHR ''#''" using assms(3) hash_is_prefix by metis
  then show ?thesis unfolding message_one_def Let_def assms(1) [symmetric]
    using assms(2-6) by (simp add: to_channel_type_def)
qed

theorem type_sticks:
  assumes "list_all (token_of '','') [n1, n2]" "cstring n1" "cstring n2" "\<not> same_name n2 n1"
    and "IsPerson (cl w sptr)" "MyConnect (cl w sptr) \<longrightarrow> join_leave_count (cl w sptr) < MAX_JOIN_LEAVE_COUNT" "body \<noteq> []"
    and "at n1 0 = CHR ''@''" "at n1 1 \<notin> {CHR ''@'', CHR ''+''}" "find_channel w (drop 1 n1) = None"
    and "at n2 0 \<notin> {CHR ''@'', CHR ''+''}" "\<not> IsChanPrefix (at n2 0)" "at n2 1 \<notin> {CHR ''@'', CHR ''+''}"
      "find_channel w (drop 1 n2) = None"
  shows "m_message cptr sptr [p0, n1 @ CHR '','' # n2, body] notice w =
    Some (0, log_out [One sptr (form_str ERR_NOSUCHNICK) [me_name w, Str p0, Str n1],
                      One sptr (form_str ERR_NOSUCHNICK) [me_name w, Str p0, Str n2]] w)"
proof -
  have j: "n1 @ CHR '','' # n2 = join_comma [n1, n2]" by simp
  have one: "strtokens (Some (n1 @ CHR '','' # n2)) '','' = [n1, n2]" using assms(1) unfolding j by (rule strtokens_join)
  have "canonize (n1 @ CHR '','' # n2) = join_comma (foldl dedup_add [] [n1, n2])"
    using canonize_fold [of "[]" "[n1, n2]"] assms(1-3) one by (simp add: canonize_def)
  then have "canonize (n1 @ CHR '','' # n2) = n1 @ CHR '','' # n2" using assms(4) by (simp add: dedup_add_def)
  then have toks: "strtokens (Some (if MyConnect (cl w sptr) then canonize (n1 @ CHR '','' # n2) else n1 @ CHR '','' # n2)) '','' = [n1, n2]"
    using one by simp
  have at_sign: "\<not> IsChanPrefix CHR ''@''" "MODE_CHANOP \<noteq> 0" by code_simp+
  have first: "message_one cptr sptr p0 notice c body 0 n1 w =
      Some (Continue MODE_CHANOP (sendto_one sptr (form_str ERR_NOSUCHNICK) [me_name w, Str p0, Str n1] w))" for c
    using assms(5,8-10) at_sign by (simp add: message_one_typed)
  have second: "message_one cptr sptr p0 notice c body MODE_CHANOP n2 (log_out os w) =
      Some (Continue MODE_CHANOP (sendto_one sptr (form_str ERR_NOSUCHNICK) [me_name w, Str p0, Str n2] (log_out os w)))" for c os
  proof -
    have v: "find_channel (log_out os w) (drop 1 n2) = None" "IsPerson (cl (log_out os w) sptr)" "me_name (log_out os w) = me_name w"
      using assms(5,14) by (simp_all add: find_channel_def log_out_def me_name_def)
    show ?thesis unfolding v(3) [symmetric]
      by (rule message_one_typed) (use assms(11-13) at_sign v(1,2) in simp_all)
  qed
  have rcv: "n1 @ CHR '','' # n2 \<noteq> []" by simp
  show ?thesis unfolding m_message_tokens [OF toks rcv assms(7,6)]
    by (simp add: first second sendto_one_def) (simp add: log_out_def)
qed

text \<open>bob is there, and does not get the message.\<close>

theorem type_sticks_witness:
  "find_person demo ''bob'' None = Some 12 \<and>
   m_message 11 11 [''alice'', ''@#none,bob'', ''hello''] False demo =
    Some (0, log_out [One 11 (form_str ERR_NOSUCHNICK) [me_name demo, Str ''alice'', Str ''@#none''],
                      One 11 (form_str ERR_NOSUCHNICK) [me_name demo, Str ''alice'', Str ''bob'']] demo)"
proof -
  have k: "IsPerson (cl demo 11)" "join_leave_count (cl demo 11) = 0"
    by (simp_all add: demo_cl local_user_def zero_client_def IsPerson_def IsClient_def)
  have p: "\<not> IsChanPrefix CHR ''b''" "\<not> same_name ''bob'' ''@#none''" by (code_simp, auto dest: same_name_length)
  have f: "find_channel demo ''#none'' = None" "find_channel demo ''ob'' = None"
  proof -
    have "\<not> same_name ''#none'' ''#test''" by (simp add: same_name_def) code_simp
    then show "find_channel demo ''#none'' = None" "find_channel demo ''ob'' = None"
      by (auto simp: find_channel_None [OF demo_inv] cstring_def demo_chan_list demo_chan dest: same_name_length)
  qed
  have b: "find_person demo ''bob'' None = Some 12"
    by (simp add: find_person_def demo_find_nick demo_cl IsClient_def)
  show ?thesis
    using b type_sticks [of "''@#none''" "''bob''" demo 11 "''hello''" 11 "''alice''" False] p f k
    by (simp add: token_of_def cstring_def MAX_JOIN_LEAVE_COUNT_def)
qed

end
