(* ===== verification/Spec2Isabelle.thy ===== *)
theory Spec2Isabelle
  imports Match Dbuf IrcString Hash Whowas Flud ChanInv ModeStr SetMode ModeInv ModeSpec Demo UModeSpec
    ChanOps JoinSpec CmdSpec NamesSpec SjoinSpec IpHash Scache MsgTree ExitProps ParseSpec PacketSpec ConfSpec NickSpec DlineSpec PrivmsgSpec
begin

text \<open>
  ircd-hybrid 6: a model of the core of the IRC server and the theorems about it.

  The server is one process with one thread.  A connection hands in bytes (\<open>src/packet.c\<close>,
  \<open>src/dbuf.c\<close>), which are cut into lines; the parser (\<open>src/parse.c\<close>) finds the source and the command of
  a line and calls a handler; handlers change clients, channels and the tables that find them
  (\<open>src/hash.c\<close>), and send lines to other clients (\<open>src/send.c\<close>).  The state is the record \<open>world\<close> of
  \<open>World\<close>: clients and channels by identity (what a pointer is in C), the lists and tables, the
  settings, and \<open>outl\<close>, the log of all that was sent.  A handler \<open>m_x cptr sptr parv w\<close> has the link, the
  source and the parameters of the C function, and gives the state after it, with the return value
  where the parser looks at it.  \<open>None\<close> is a use of freed or null memory, or a bound that was too small.
  The configuration is that of \<open>include/config.h\<close> as it stands; each theory names the switches it
  depends on.
\<close>

section \<open>The theories and the code\<close>

text \<open>
  Strings and tables.
  \<open>Prelude\<close>: C strings as lists without NUL, flag words (32-bit words), shared lemmas.
  \<open>CharTab\<close>, \<open>Match\<close>: \<open>src/match.c\<close> (\<open>irccmp\<close>, the character classes, \<open>match\<close>, \<open>collapse\<close>).
  \<open>IrcString\<close>: \<open>src/irc_string.c\<close>, \<open>canonize\<close>.  \<open>Hash\<close>: \<open>src/hash.c\<close>.  \<open>Whowas\<close>: \<open>src/m_whowas.c\<close>.
  \<open>Scache\<close>: \<open>src/scache.c\<close>.  \<open>IpHash\<close>: the table of addresses in \<open>src/s_conf.c\<close>.

  Input.
  \<open>Dbuf\<close>: \<open>src/dbuf.c\<close>.  \<open>Packet\<close>, \<open>PacketSpec\<close>: \<open>dopacket\<close> and \<open>client_dopacket\<close> of \<open>src/packet.c\<close>,
  \<open>read_packet\<close>, \<open>parse_client_queued\<close> and \<open>error_exit_client\<close> of \<open>src/s_bsd.c\<close>.
  \<open>MsgTree\<close>, \<open>Parse\<close>, \<open>ParseSpec\<close>: \<open>msgtab\<close> of \<open>include/msg.h\<close> and \<open>src/parse.c\<close>.

  Clients, channels, output.
  \<open>World\<close>: \<open>include/client.h\<close>, \<open>include/channel.h\<close>, \<open>include/struct.h\<close>, the sending primitives of
  \<open>src/send.c\<close>.  \<open>Deliver\<close>: \<open>sendto_prefix_one\<close>, \<open>sendto_channel_butone\<close>, \<open>sendto_match_butone\<close>.
  \<open>Flud\<close>: \<open>src/flud.c\<close>.

  Channels, \<open>src/channel.c\<close>.
  \<open>Channel\<close>, \<open>ChanInv\<close>: ban lists, members, invitations, \<open>can_join\<close>, \<open>can_send\<close>, and their invariant.
  \<open>ModeStr\<close>: masks, keys, the burst of a channel.  \<open>SetMode\<close>, \<open>ModeInv\<close>, \<open>ModeSpec\<close>: \<open>set_channel_mode\<close>.
  \<open>Names\<close>, \<open>NamesSpec\<close>: \<open>m_names\<close>.  \<open>Join\<close>, \<open>JoinSpec\<close>: \<open>m_join\<close>, \<open>m_part\<close>.  \<open>Cmds\<close>, \<open>CmdSpec\<close>: \<open>m_kick\<close>,
  \<open>m_topic\<close>, \<open>m_invite\<close>, \<open>m_knock\<close>, and \<open>m_mode\<close> of \<open>src/m_mode.c\<close>.  \<open>Sjoin\<close>, \<open>SjoinSpec\<close>: \<open>m_sjoin\<close>.
  \<open>ChanOps\<close>: all of them as one interface.

  Users.
  \<open>Register\<close>, \<open>RegisterSpec\<close>, \<open>RegisterProps\<close>: USER and \<open>register_user\<close> of \<open>src/s_user.c\<close>.  \<open>Nick\<close>,
  \<open>NickSpec\<close>: \<open>m_nick\<close> and its collisions.  \<open>UMode\<close>, \<open>UModeSpec\<close>: \<open>user_mode\<close>.  \<open>Exit\<close>: \<open>exit_client\<close> of
  \<open>src/client.c\<close> and all it calls; \<open>ExitFrame\<close>, \<open>ExitInv\<close>, \<open>ExitSpec\<close>, \<open>ExitFlud\<close>, \<open>ExitFuel\<close>, \<open>ExitProps\<close>: its
  invariant and properties.  \<open>Privmsg\<close>, \<open>PrivmsgSpec\<close>: \<open>src/m_message.c\<close>.

  Configuration.
  \<open>ConfItem\<close>, \<open>Conf\<close>, \<open>ConfSpec\<close>: items and classes of \<open>src/s_conf.c\<close> and \<open>src/class.c\<close>.
  \<open>DlineConf\<close>, \<open>DlineSpec\<close>: \<open>src/dline_conf.c\<close>, the trees of D-lines and of K-lines on addresses.

  \<open>Demo\<close> is a small network on which properties are applied.
\<close>

section \<open>What the lemmas show\<close>

text \<open>
  Abstract views.  \<open>glob\<close> is what a mask denotes, and \<open>match\<close> decides it up to its bound.  The name
  tables refine finite maps up to case (\<open>name_map\<close>, \<open>tab_ok\<close>), the buffers of a connection the list of
  their bytes (\<open>dbytes\<close>, \<open>bytes_run\<close>), the table of addresses a counter for each address, the reader of
  connections the lines of \<open>segments\<close>, the prefix tree of commands the search in their table.

  Invariants.  \<open>chan_inv\<close> (\<open>ChanInv\<close>) says that membership and invitations are recorded on both
  sides, that counters agree with lists and that list and table of channels agree.  \<open>net_inv X\<close>
  (\<open>ExitInv\<close>) adds the tree of servers, the lists of clients, the table of names, the history and the
  counters of LUSERS; it is kept by registration, by changes of nick and by exits.  \<open>flud_refs\<close>
  (\<open>ExitFlud\<close>) is the symmetry of the flood records, \<open>conf_ok\<close> (\<open>ConfSpec\<close>) that use counts are right.

  Interfaces.  \<open>name_hash\<close> (\<open>Hash\<close>) is a chained table with any hash function, interpreted for nicks,
  channels and the history.  \<open>byte_queue\<close> (\<open>Dbuf\<close>) is what the readers need of a buffer.  \<open>mode_pass\<close>
  (\<open>ModeInv\<close>) names the operations a pass of \<open>set_channel_mode\<close> is made of, each with the condition
  under which the code makes it; it is interpreted for consistency, for other channels, for a source
  without rights, for sizes and for identities.  \<open>umode_pass\<close> (\<open>UMode\<close>) is the same for \<open>user_mode\<close>,
  \<open>chan_ops\<close> (\<open>ChanOps\<close>) for all commands on channels; from it and \<open>cmd_step\<close> (\<open>CmdSpec\<close>) comes that
  sequences of commands keep channels consistent.  Two cases are left out of \<open>cmd_step\<close> because the
  code breaks the data in them: MODE with changes by a local operator on a channel without members
  (\<open>unjupe_twice\<close>) and a remote JOIN that names further channels beside 0 (\<open>remote_join_zero\<close>).

  Bounds.  \<open>match\<close> counts its calls as the code does, up to 512.  The recursion over servers that leave
  takes the bound \<open>exit_fuel\<close>, twice the number of clients; \<open>ExitProps\<close> shows that twice the clients
  below the server are enough and that more changes nothing.  Every other loop is a recursion on a
  list or has a measure.  \<open>ModeSpec\<close> and \<open>NamesSpec\<close> bound buffers; \<open>mode_buffers_overflow\<close> shows
  the buffers of \<open>set_channel_mode\<close> that have no bound.

  Where the code does not do what it means to, a theorem shows it: masks that need more than 512
  steps (\<open>Match\<close>), channel names that are too long (\<open>JoinSpec\<close>), \<open>mode_buffers_overflow\<close>,
  \<open>unjupe_twice\<close>, \<open>remote_join_zero\<close>, \<open>drop_node_loses\<close>, \<open>broad_kline_missed\<close>, \<open>type_sticks\<close>.
\<close>

section \<open>What is left out\<close>

text \<open>
  Formatting of lines and their cut at 512 bytes: an entry of the log has the format and its
  arguments.  The send queues, compressed links, sockets, the resolver, ident, the main loop, the log
  files, descriptor lists and listeners.  Reports (STATS, TRACE, WHO, LIST, MOTD of other servers).  The
  tree of host masks (\<open>src/mtrie_conf.c\<close>): its answer to a host, a user and an address is the field
  \<open>mtrie\<close> of the state; the parser of the configuration files.  The handshake of servers and their
  bursts but for channels.  Handlers of further commands: for the parser a handler is a parameter, so
  what is shown of the parser holds for them.  \<open>recv\<close> is a parameter of the readers, the coins of \<open>rand\<close>
  in \<open>DlineConf\<close> a list in its state.  Memory never runs out; numbers of type \<open>int\<close> that count and
  times are unbounded, flags are words of 32 bits.
\<close>

end
